(* ===== verification/Prelude.thy ===== *)
theory Prelude
  imports Main "HOL-Library.AList"
begin

text \<open>
  Shared vocabulary of the development: what the TypeScript sources use of the JavaScript
  language and its standard library, and the list, option and string facts the component
  theories have in common.

  Conventions. A JavaScript string is a \<open>string\<close> (a list of Latin-1 code units); an optional
  field (\<open>x?: T\<close>, \<open>T | null | undefined\<close>) is an \<open>option\<close>; integral numbers (counters, milliseconds,
  sizes) are \<open>int\<close> or \<open>nat\<close>, exact below \<open>2 ^ 53\<close>; a \<open>Map\<close> is an association list in insertion order.
\<close>

named_theorems js_simps "rewriting JavaScript operators into case distinctions"
named_theorems map_laws "lookup laws of the insertion-ordered Map"

section \<open>Operators\<close>

text \<open>\<open>a ?? b\<close>, \<open>a || b\<close> on an optional string, and the truth value of an optional string.\<close>

definition nullish :: "'a option \<Rightarrow> 'a \<Rightarrow> 'a" where
  [js_simps]: "nullish a b = (case a of None \<Rightarrow> b | Some x \<Rightarrow> x)"

definition nullish_opt :: "'a option \<Rightarrow> 'a option \<Rightarrow> 'a option" where
  [js_simps]: "nullish_opt a b = (case a of None \<Rightarrow> b | Some x \<Rightarrow> Some x)"

definition truthy :: "string option \<Rightarrow> bool" where
  [js_simps]: "truthy s = (case s of None \<Rightarrow> False | Some x \<Rightarrow> x \<noteq> [])"

definition or_else :: "string option \<Rightarrow> string \<Rightarrow> string" where
  [js_simps]: "or_else s d = (case s of None \<Rightarrow> d | Some x \<Rightarrow> if x = [] then d else x)"

text \<open>\<open>n || d\<close> on an optional number: \<open>undefined\<close> and \<open>0\<close> are falsy.\<close>

definition num_or :: "int option \<Rightarrow> int \<Rightarrow> int" where
  [js_simps]: "num_or n d = (case n of None \<Rightarrow> d | Some x \<Rightarrow> if x = 0 then d else x)"

section \<open>Strings\<close>

fun startsWith :: "string \<Rightarrow> string \<Rightarrow> bool" where
  "startsWith xs [] = True"
| "startsWith [] (y # ys) = False"
| "startsWith (x # xs) (y # ys) = (x = y \<and> startsWith xs ys)"

definition endsWith :: "string \<Rightarrow> string \<Rightarrow> bool" where
  "endsWith xs ys = startsWith (rev xs) (rev ys)"

text \<open>\<open>indexOf\<close>: the first position at which \<open>op\<close> occurs; \<open>None\<close> is the source's \<open>-1\<close>.\<close>

fun indexOf :: "string \<Rightarrow> string \<Rightarrow> nat option" where
  "indexOf [] op = (if op = [] then Some 0 else None)"
| "indexOf (x # xs) op =
     (if startsWith (x # xs) op then Some 0 else map_option Suc (indexOf xs op))"

definition str_includes :: "string \<Rightarrow> string \<Rightarrow> bool" where
  "str_includes s op = (indexOf s op \<noteq> None)"

text \<open>White space and lower case on Latin-1 code units (\<open>trim\<close>, \<open>toLowerCase\<close>).\<close>

definition is_space :: "char \<Rightarrow> bool" where
  "is_space c = (let n = (of_char c :: nat) in (9 \<le> n \<and> n \<le> 13) \<or> n = 32 \<or> n = 160)"

definition trim :: "string \<Rightarrow> string" where
  "trim s = rev (dropWhile is_space (rev (dropWhile is_space s)))"

definition lower_char :: "char \<Rightarrow> char" where
  "lower_char c = (let n = (of_char c :: nat) in
     if (65 \<le> n \<and> n \<le> 90) \<or> (192 \<le> n \<and> n \<le> 222 \<and> n \<noteq> 215) then char_of (n + 32) else c)"

definition toLowerCase :: "string \<Rightarrow> string" where
  "toLowerCase s = map lower_char s"

definition upper_char :: "char \<Rightarrow> char" where
  "upper_char c = (let n = (of_char c :: nat) in if 97 \<le> n \<and> n \<le> 122 then char_of (n - 32) else c)"

text \<open>A number in a template string: the decimal digits of a natural number.\<close>

fun nat_str :: "nat \<Rightarrow> string" where
  "nat_str n = (if n < 10 then [char_of (48 + n)] else nat_str (n div 10) @ [char_of (48 + n mod 10)])"

declare nat_str.simps [simp del]

definition int_str :: "int \<Rightarrow> string" where
  "int_str i = (if i < 0 then ''-'' @ nat_str (nat (- i)) else nat_str (nat i))"

lemma startsWith_prefix: "startsWith xs ys \<longleftrightarrow> (\<exists>zs. xs = ys @ zs)"
  by (induction xs ys rule: startsWith.induct) auto

lemma startsWith_take: "startsWith xs ys \<longleftrightarrow> take (length ys) xs = ys"
  by (induction xs ys rule: startsWith.induct) auto

lemma startsWith_self [simp]: "startsWith (xs @ ys) xs"
  by (auto simp: startsWith_prefix)

lemma indexOf_Some:
  "indexOf s op = Some i \<Longrightarrow> s = take i s @ op @ drop (i + length op) s \<and> i + length op \<le> length s"
proof (induction s op arbitrary: i rule: indexOf.induct)
  case (1 op)
  then show ?case by (auto split: if_splits)
next
  case (2 x xs op)
  show ?case
  proof (cases "startsWith (x # xs) op")
    case True
    with "2.prems" have i: "i = 0" by simp
    from True obtain zs where "x # xs = op @ zs" by (auto simp: startsWith_prefix)
    with i show ?thesis by simp
  next
    case False
    with "2.prems" obtain j where j: "indexOf xs op = Some j" "i = Suc j" by auto
    from "2.IH"[OF False j(1)] j(2) show ?thesis by auto
  qed
qed

lemma length_trim_le: "length (trim s) \<le> length s"
  unfolding trim_def by (metis le_trans length_dropWhile_le length_rev)

lemma trim_Nil: "trim s = [] \<longleftrightarrow> (\<forall>c \<in> set s. is_space c)"
proof -
  have "trim s = [] \<longleftrightarrow> (\<forall>c \<in> set (dropWhile is_space s). is_space c)" by (simp add: trim_def)
  also have "\<dots> \<longleftrightarrow> (\<forall>c \<in> set s. is_space c)" by (induction s) auto
  finally show ?thesis .
qed

section \<open>The insertion-ordered Map\<close>

text \<open>
  \<open>Map.set\<close> overwrites in place or appends, \<open>Map.delete\<close> removes the entry, \<open>Map.get\<close> looks it up;
  iteration is in list order.
\<close>

type_synonym ('k, 'v) jsmap = "('k \<times> 'v) list"

definition mapSet :: "'k \<Rightarrow> 'v \<Rightarrow> ('k, 'v) jsmap \<Rightarrow> ('k, 'v) jsmap" where
  "mapSet k v m = AList.update k v m"

definition mapDelete :: "'k \<Rightarrow> ('k, 'v) jsmap \<Rightarrow> ('k, 'v) jsmap" where
  "mapDelete k m = AList.delete k m"

abbreviation mapGet :: "('k, 'v) jsmap \<Rightarrow> 'k \<Rightarrow> 'v option" where
  "mapGet m k \<equiv> map_of m k"

definition mapHas :: "('k, 'v) jsmap \<Rightarrow> 'k \<Rightarrow> bool" where
  "mapHas m k = (mapGet m k \<noteq> None)"

abbreviation mapKeys :: "('k, 'v) jsmap \<Rightarrow> 'k list" where
  "mapKeys m \<equiv> map fst m"

definition wf_map :: "('k, 'v) jsmap \<Rightarrow> bool" where
  "wf_map m = distinct (mapKeys m)"

lemma mapSet_Nil [simp]: "mapSet k v [] = [(k, v)]"
  by (simp add: mapSet_def)

lemma mapSet_Cons [simp]:
  "mapSet k v (p # m) = (if fst p = k then (k, v) # m else p # mapSet k v m)"
  by (cases p) (auto simp: mapSet_def)

lemma mapDelete_Nil [simp]: "mapDelete k [] = []"
  by (simp add: mapDelete_def)

lemma mapDelete_Cons [simp]:
  "mapDelete k (p # m) = (if fst p = k then mapDelete k m else p # mapDelete k m)"
  by (cases p) (auto simp: mapDelete_def AList.delete_eq)

lemma mapDelete_filter: "mapDelete k m = filter (\<lambda>p. fst p \<noteq> k) m"
  by (induction m) auto

lemma mapGet_mapSet [map_laws, simp]: "mapGet (mapSet k v m) k' = (if k' = k then Some v else mapGet m k')"
  by (simp add: mapSet_def update_conv')

lemma mapGet_mapDelete [map_laws, simp]: "mapGet (mapDelete k m) k' = (if k' = k then None else mapGet m k')"
  by (simp add: mapDelete_def delete_conv')

lemma mapKeys_mapSet: "set (mapKeys (mapSet k v m)) = insert k (set (mapKeys m))"
  by (induction m) auto

lemma wf_mapSet [map_laws]: "wf_map m \<Longrightarrow> wf_map (mapSet k v m)"
  by (simp add: wf_map_def mapSet_def distinct_update)

lemma wf_mapDelete [map_laws]: "wf_map m \<Longrightarrow> wf_map (mapDelete k m)"
  by (simp add: wf_map_def mapDelete_def distinct_delete)

lemma wf_map_Nil [simp]: "wf_map []"
  by (simp add: wf_map_def)

text \<open>The laws of a key-value container, and what a client derives from them.\<close>

locale kv_map =
  fixes empty :: "'m"
    and upd :: "'k \<Rightarrow> 'v \<Rightarrow> 'm \<Rightarrow> 'm"
    and del :: "'k \<Rightarrow> 'm \<Rightarrow> 'm"
    and look :: "'m \<Rightarrow> 'k \<Rightarrow> 'v option"
    and ok :: "'m \<Rightarrow> bool"
  assumes look_empty: "look empty k = None"
    and look_upd: "ok m \<Longrightarrow> look (upd k v m) k' = (if k' = k then Some v else look m k')"
    and look_del: "ok m \<Longrightarrow> look (del k m) k' = (if k' = k then None else look m k')"
    and ok_empty: "ok empty"
    and ok_upd: "ok m \<Longrightarrow> ok (upd k v m)"
    and ok_del: "ok m \<Longrightarrow> ok (del k m)"
begin

lemma look_fold_upd:
  "ok m \<Longrightarrow> distinct (map fst kvs) \<Longrightarrow>
   look (fold (\<lambda>(k, v) m. upd k v m) kvs m) k' = (case map_of kvs k' of None \<Rightarrow> look m k' | Some v \<Rightarrow> Some v)"
proof (induction kvs arbitrary: m)
  case Nil
  then show ?case by simp
next
  case (Cons p kvs)
  obtain k v where p: "p = (k, v)" by (cases p)
  have "ok (upd k v m)" using Cons.prems(1) by (rule ok_upd)
  then have IH: "look (fold (\<lambda>(k, v) m. upd k v m) kvs (upd k v m)) k' =
      (case map_of kvs k' of None \<Rightarrow> look (upd k v m) k' | Some v \<Rightarrow> Some v)"
    using Cons.IH Cons.prems(2) p by simp
  have "map_of kvs k = None"
    using Cons.prems(2) p by (simp add: map_of_eq_None_iff)
  then show ?case
    using IH Cons.prems(1) p by (cases "k' = k") (simp_all add: look_upd split: option.split)
qed

lemma look_fold_del:
  "ok m \<Longrightarrow> look (fold del ks m) k' = (if k' \<in> set ks then None else look m k')"
  by (induction ks arbitrary: m) (auto simp: look_del ok_del)

lemma ok_fold_upd: "ok m \<Longrightarrow> ok (fold (\<lambda>(k, v) m. upd k v m) kvs m)"
  by (induction kvs arbitrary: m) (auto simp: ok_upd)

end

interpretation jsm: kv_map "[]" mapSet mapDelete map_of wf_map
  by unfold_locales (auto simp: wf_mapSet wf_mapDelete)

section \<open>Lists\<close>

lemma length_filter_mono:
  "(\<And>x. x \<in> set xs \<Longrightarrow> P x \<Longrightarrow> Q x) \<Longrightarrow> length (filter P xs) \<le> length (filter Q xs)"
  by (induction xs) auto

lemma find_Some_in: "find P xs = Some x \<Longrightarrow> x \<in> set xs \<and> P x"
  by (auto simp: find_Some_iff)

lemma find_append: "find P (xs @ ys) = (case find P xs of None \<Rightarrow> find P ys | Some x \<Rightarrow> Some x)"
  by (induction xs) auto

lemma find_None_all: "find P xs = None \<longleftrightarrow> (\<forall>x \<in> set xs. \<not> P x)"
  by (auto simp: find_None_iff)

end
