(* ===== verification/Stores.thy ===== *)
theory Stores
  imports Prelude "HOL-Library.Product_Lexorder"
begin

text \<open>
  The permission stores: approval requests (\<open>storage/approval-store.ts\<close>), permission grants
  (\<open>storage/permission-grant-store.ts\<close>) and connector policies (\<open>storage/connector-policy-store.ts\<close>).

  A table is the list of its rows in insertion order, with the meaning of the SQL statements the
  stores execute written out: \<open>INSERT\<close> fails on a primary key that is taken, \<open>SELECT .. WHERE\<close> is a
  filter, \<open>UPDATE\<close> and \<open>DELETE\<close> act on the row with the key, \<open>ORDER BY .. DESC\<close> is a stable sort.
  A time stamp (an ISO string of \<open>toISOString\<close>, compared as text) is its number of milliseconds; a
  column that holds JSON text is the value the text stands for; \<open>NULL\<close> and \<open>undefined\<close> are \<open>None\<close>.
  \<open>now\<close> is the clock at the call. A thrown error is \<open>Inl\<close> its message.
\<close>

type_synonym timestamp = int

section \<open>Tables\<close>

definition insertRow :: "('r \<Rightarrow> string) \<Rightarrow> 'r \<Rightarrow> 'r list \<Rightarrow> string + 'r list" where
  "insertRow key r t = (if key r \<in> set (map key t) then Inl ''UNIQUE constraint failed'' else Inr (t @ [r]))"

definition firstRow :: "('r \<Rightarrow> bool) \<Rightarrow> 'r list \<Rightarrow> 'r option" where
  "firstRow P t = (case filter P t of [] \<Rightarrow> None | r # _ \<Rightarrow> Some r)"

definition updateRow :: "('r \<Rightarrow> string) \<Rightarrow> string \<Rightarrow> ('r \<Rightarrow> 'r) \<Rightarrow> 'r list \<Rightarrow> 'r list" where
  "updateRow key k f t = map (\<lambda>r. if key r = k then f r else r) t"

definition deleteRow :: "('r \<Rightarrow> string) \<Rightarrow> string \<Rightarrow> 'r list \<Rightarrow> 'r list" where
  "deleteRow key k t = filter (\<lambda>r. key r \<noteq> k) t"

definition orderByDesc :: "('r \<Rightarrow> timestamp) \<Rightarrow> 'r list \<Rightarrow> 'r list" where
  "orderByDesc f t = sort_key (\<lambda>r. - f r) t"

definition wf_table :: "('r \<Rightarrow> string) \<Rightarrow> 'r list \<Rightarrow> bool" where
  "wf_table key t = distinct (map key t)"

section \<open>Approval requests\<close>

datatype ApprovalState = Pending | Approved | Rejected | Expired | Cancelled

datatype PermissionScopeType =
  ScopeOneShot | ScopeSession | ScopePlan | ScopeWorkflowRun | ScopeBackgroundRun | ScopeConnector

datatype ApprovalCode = CodeApproved | CodeRejected | CodeApprovedWithConditions | CodeRejectedPermanently

text \<open>The object the \<open>metadata\<close> column holds as JSON.\<close>

record ApprovalMetadata =
  md_operationType :: "string option"
  md_correlationId :: "string option"
  md_pendingActionId :: "string option"

record CreateApprovalRequest =
  ar_id :: string
  ar_userId :: string
  ar_sessionId :: string
  ar_status :: ApprovalState
  ar_riskLevel :: "string option"
  ar_scope :: "string option"
  ar_scopeType :: "PermissionScopeType option"
  ar_scopeRef :: "string option"
  ar_actionType :: string
  ar_resource :: "string option"
  ar_justification :: "string option"
  ar_requestedBy :: string
  ar_requestedAt :: timestamp
  ar_expiresAt :: "timestamp option"
  ar_respondedAt :: "timestamp option"
  ar_responseBy :: "string option"
  ar_responseReason :: "string option"
  ar_approvalCode :: "ApprovalCode option"
  ar_idempotencyKey :: "string option"
  ar_metadata :: "ApprovalMetadata option"
  ar_sourceContext :: "string option"

record ApprovalRequest = CreateApprovalRequest +
  ar_createdAt :: timestamp
  ar_updatedAt :: timestamp

record UpdateApprovalRequest =
  upd_status :: "ApprovalState option"
  upd_respondedAt :: "timestamp option"
  upd_responseBy :: "string option"
  upd_responseReason :: "string option"
  upd_approvalCode :: "ApprovalCode option"
  upd_expiresAt :: "timestamp option"

type_synonym approvalTable = "ApprovalRequest list"

definition approvalCreate ::
  "CreateApprovalRequest \<Rightarrow> timestamp \<Rightarrow> approvalTable \<Rightarrow> string + (ApprovalRequest \<times> approvalTable)" where
  "approvalCreate request now t =
     (let approval = CreateApprovalRequest.extend request \<lparr>ar_createdAt = now, ar_updatedAt = now\<rparr> in
      case insertRow ar_id approval t of Inl e \<Rightarrow> Inl e | Inr t' \<Rightarrow> Inr (approval, t'))"

definition approvalGetById :: "approvalTable \<Rightarrow> string \<Rightarrow> ApprovalRequest option" where
  "approvalGetById t i = firstRow (\<lambda>r. ar_id r = i) t"

definition applyApprovalUpdate :: "UpdateApprovalRequest \<Rightarrow> timestamp \<Rightarrow> ApprovalRequest \<Rightarrow> ApprovalRequest" where
  "applyApprovalUpdate u now r = r\<lparr>
     ar_status := nullish (upd_status u) (ar_status r),
     ar_respondedAt := nullish_opt (upd_respondedAt u) (ar_respondedAt r),
     ar_responseBy := nullish_opt (upd_responseBy u) (ar_responseBy r),
     ar_responseReason := nullish_opt (upd_responseReason u) (ar_responseReason r),
     ar_approvalCode := nullish_opt (upd_approvalCode u) (ar_approvalCode r),
     ar_expiresAt := nullish_opt (upd_expiresAt u) (ar_expiresAt r),
     ar_updatedAt := now\<rparr>"

definition approvalUpdate ::
  "string \<Rightarrow> UpdateApprovalRequest \<Rightarrow> timestamp \<Rightarrow> approvalTable \<Rightarrow> string + (ApprovalRequest \<times> approvalTable)" where
  "approvalUpdate i u now t = (case approvalGetById t i of
     None \<Rightarrow> Inl (''Approval request not found: '' @ i)
   | Some existing \<Rightarrow>
       let updated = applyApprovalUpdate u now existing in
       Inr (updated, updateRow ar_id i (\<lambda>r. r\<lparr>ar_status := ar_status updated,
         ar_respondedAt := ar_respondedAt updated, ar_responseBy := ar_responseBy updated,
         ar_responseReason := ar_responseReason updated, ar_approvalCode := ar_approvalCode updated,
         ar_expiresAt := ar_expiresAt updated, ar_updatedAt := ar_updatedAt updated\<rparr>) t))"

definition findPendingByUser :: "approvalTable \<Rightarrow> string \<Rightarrow> ApprovalRequest list" where
  "findPendingByUser t uid = filter (\<lambda>r. ar_userId r = uid \<and> ar_status r = Pending) t"

definition approvalFindByUser :: "approvalTable \<Rightarrow> string \<Rightarrow> ApprovalRequest list" where
  "approvalFindByUser t uid = orderByDesc ar_createdAt (filter (\<lambda>r. ar_userId r = uid) t)"

definition findPendingBySession :: "approvalTable \<Rightarrow> string \<Rightarrow> ApprovalRequest list" where
  "findPendingBySession t sid = filter (\<lambda>r. ar_sessionId r = sid \<and> ar_status r = Pending) t"

definition approvalFindExpired :: "approvalTable \<Rightarrow> timestamp \<Rightarrow> ApprovalRequest list" where
  "approvalFindExpired t before = filter (\<lambda>r. case ar_expiresAt r of None \<Rightarrow> False | Some e \<Rightarrow> e < before) t"

definition approvalDelete :: "string \<Rightarrow> approvalTable \<Rightarrow> approvalTable" where
  "approvalDelete i t = deleteRow ar_id i t"

section \<open>Permission grants\<close>

text \<open>The object the \<open>sourceContext\<close> column of a grant made from an approval holds as JSON.\<close>

record GrantSource =
  gs_approvalId :: string
  gs_approvedBy :: string
  gs_approvedAt :: timestamp

record CreatePermissionGrant =
  gr_id :: string
  gr_userId :: string
  gr_scope :: string
  gr_action :: string
  gr_resourcePattern :: "string option"
  gr_conditions :: "string option"
  gr_riskLevelMax :: "string option"
  gr_expiresAt :: "timestamp option"
  gr_sourceContext :: "GrantSource option"

record PermissionGrant = CreatePermissionGrant +
  gr_revokedAt :: "timestamp option"
  gr_revokedReason :: "string option"
  gr_createdAt :: timestamp
  gr_updatedAt :: timestamp

type_synonym grantTable = "PermissionGrant list"

definition grantCreate ::
  "CreatePermissionGrant \<Rightarrow> timestamp \<Rightarrow> grantTable \<Rightarrow> string + (PermissionGrant \<times> grantTable)" where
  "grantCreate grant now t =
     (let permissionGrant = CreatePermissionGrant.extend grant
        \<lparr>gr_revokedAt = None, gr_revokedReason = None, gr_createdAt = now, gr_updatedAt = now\<rparr> in
      case insertRow gr_id permissionGrant t of Inl e \<Rightarrow> Inl e | Inr t' \<Rightarrow> Inr (permissionGrant, t'))"

definition grantGetById :: "grantTable \<Rightarrow> string \<Rightarrow> PermissionGrant option" where
  "grantGetById t i = firstRow (\<lambda>r. gr_id r = i) t"

definition findByUser :: "grantTable \<Rightarrow> string \<Rightarrow> PermissionGrant list" where
  "findByUser t uid = filter (\<lambda>r. gr_userId r = uid) t"

definition findActiveByUserAndScope :: "grantTable \<Rightarrow> timestamp \<Rightarrow> string \<Rightarrow> string \<Rightarrow> PermissionGrant list" where
  "findActiveByUserAndScope t now uid scope = filter (\<lambda>r. gr_userId r = uid \<and> gr_scope r = scope \<and>
     gr_revokedAt r = None \<and> (case gr_expiresAt r of None \<Rightarrow> True | Some e \<Rightarrow> e > now)) t"

definition grantFindExpired :: "grantTable \<Rightarrow> timestamp \<Rightarrow> PermissionGrant list" where
  "grantFindExpired t before = filter (\<lambda>r. case gr_expiresAt r of None \<Rightarrow> False | Some e \<Rightarrow> e < before) t"

definition revoke :: "string \<Rightarrow> string \<Rightarrow> timestamp \<Rightarrow> grantTable \<Rightarrow> string + (PermissionGrant \<times> grantTable)" where
  "revoke i reason now t = (case grantGetById t i of
     None \<Rightarrow> Inl (''Permission grant not found: '' @ i)
   | Some existing \<Rightarrow>
       let f = (\<lambda>r. r\<lparr>gr_revokedAt := Some now, gr_revokedReason := Some reason, gr_updatedAt := now\<rparr>) in
       Inr (f existing, updateRow gr_id i f t))"

definition grantDelete :: "string \<Rightarrow> grantTable \<Rightarrow> grantTable" where
  "grantDelete i t = deleteRow gr_id i t"

section \<open>Connector policies\<close>

datatype PolicyEffect = Allow | Deny

record CreateConnectorPolicy =
  cp_policyId :: string
  cp_connectorId :: string
  cp_resourcePattern :: string
  cp_action :: string
  cp_effect :: PolicyEffect
  cp_allowedScopes :: "string list option"
  cp_riskCap :: "string option"
  cp_auditLabel :: "string option"
  cp_userId :: "string option"

record ConnectorPolicy = CreateConnectorPolicy +
  cp_createdAt :: timestamp
  cp_updatedAt :: timestamp

text \<open>For the nullable columns \<open>None\<close> is \<open>undefined\<close> (keep) and \<open>Some None\<close> is \<open>null\<close> (clear).\<close>

record UpdateConnectorPolicy =
  ucp_resourcePattern :: "string option"
  ucp_action :: "string option"
  ucp_effect :: "PolicyEffect option"
  ucp_allowedScopes :: "string list option option"
  ucp_riskCap :: "string option option"
  ucp_auditLabel :: "string option option"

type_synonym policyTable = "ConnectorPolicy list"

definition policyCreate ::
  "CreateConnectorPolicy \<Rightarrow> timestamp \<Rightarrow> policyTable \<Rightarrow> string + (ConnectorPolicy \<times> policyTable)" where
  "policyCreate policy now t =
     (let connectorPolicy = CreateConnectorPolicy.extend policy \<lparr>cp_createdAt = now, cp_updatedAt = now\<rparr> in
      case insertRow cp_policyId connectorPolicy t of Inl e \<Rightarrow> Inl e | Inr t' \<Rightarrow> Inr (connectorPolicy, t'))"

definition policyGetById :: "policyTable \<Rightarrow> string \<Rightarrow> ConnectorPolicy option" where
  "policyGetById t i = firstRow (\<lambda>r. cp_policyId r = i) t"

definition listPolicies :: "policyTable \<Rightarrow> ConnectorPolicy list" where
  "listPolicies t = orderByDesc cp_createdAt t"

definition getPoliciesByConnector :: "policyTable \<Rightarrow> string \<Rightarrow> ConnectorPolicy list" where
  "getPoliciesByConnector t cid = orderByDesc cp_createdAt (filter (\<lambda>r. cp_connectorId r = cid) t)"

definition getPoliciesByUser :: "policyTable \<Rightarrow> string \<Rightarrow> ConnectorPolicy list" where
  "getPoliciesByUser t uid = orderByDesc cp_createdAt (filter (\<lambda>r. cp_userId r = Some uid) t)"

definition applyPolicyUpdate :: "UpdateConnectorPolicy \<Rightarrow> timestamp \<Rightarrow> ConnectorPolicy \<Rightarrow> ConnectorPolicy" where
  "applyPolicyUpdate u now r = r\<lparr>
     cp_resourcePattern := nullish (ucp_resourcePattern u) (cp_resourcePattern r),
     cp_action := nullish (ucp_action u) (cp_action r),
     cp_effect := nullish (ucp_effect u) (cp_effect r),
     cp_allowedScopes := (case ucp_allowedScopes u of None \<Rightarrow> cp_allowedScopes r | Some x \<Rightarrow> x),
     cp_riskCap := (case ucp_riskCap u of None \<Rightarrow> cp_riskCap r | Some x \<Rightarrow> x),
     cp_auditLabel := (case ucp_auditLabel u of None \<Rightarrow> cp_auditLabel r | Some x \<Rightarrow> x),
     cp_updatedAt := now\<rparr>"

definition policyUpdate ::
  "string \<Rightarrow> UpdateConnectorPolicy \<Rightarrow> timestamp \<Rightarrow> policyTable \<Rightarrow> string + (ConnectorPolicy \<times> policyTable)" where
  "policyUpdate i u now t = (case policyGetById t i of
     None \<Rightarrow> Inl (''Connector policy not found: '' @ i)
   | Some existing \<Rightarrow>
       let updated = applyPolicyUpdate u now existing in
       Inr (updated, updateRow cp_policyId i (\<lambda>r. r\<lparr>cp_resourcePattern := cp_resourcePattern updated,
         cp_action := cp_action updated, cp_effect := cp_effect updated,
         cp_allowedScopes := cp_allowedScopes updated, cp_riskCap := cp_riskCap updated,
         cp_auditLabel := cp_auditLabel updated, cp_updatedAt := cp_updatedAt updated\<rparr>) t))"

definition policyDelete :: "string \<Rightarrow> policyTable \<Rightarrow> policyTable" where
  "policyDelete i t = deleteRow cp_policyId i t"

text \<open>
  \<open>matchesPattern\<close> builds the regular expression of a glob: \<open>*\<close> becomes \<open>.*\<close>, \<open>?\<close> becomes \<open>.\<close>, and
  every other special character is escaped except the parentheses. So the expression matches the way
  the glob with its parentheses left out does (they are groups, and what follows one is never a
  quantifier), a dot never matches a line terminator, and the \<open>RegExp\<close> constructor throws when the
  parentheses are not balanced.
\<close>

definition lineTerminator :: "char \<Rightarrow> bool" where
  "lineTerminator c = (c = CHR 0x0A \<or> c = CHR 0x0D)"

fun globMatch :: "string \<Rightarrow> string \<Rightarrow> bool" where
  "globMatch [] v = (v = [])"
| "globMatch (p # ps) v =
     (if p = CHR ''*'' then globMatch ps v \<or> (case v of [] \<Rightarrow> False | c # v' \<Rightarrow> \<not> lineTerminator c \<and> globMatch (p # ps) v')
      else case v of [] \<Rightarrow> False
        | c # v' \<Rightarrow> (if p = CHR ''?'' then \<not> lineTerminator c else c = p) \<and> globMatch ps v')"

fun parensBalanced :: "nat \<Rightarrow> string \<Rightarrow> bool" where
  "parensBalanced d [] = (d = 0)"
| "parensBalanced d (c # cs) =
     (if c = CHR ''('' then parensBalanced (d + 1) cs
      else if c = CHR '')'' then d > 0 \<and> parensBalanced (d - 1) cs
      else parensBalanced d cs)"

definition matchesPattern :: "string \<Rightarrow> string \<Rightarrow> string + bool" where
  "matchesPattern pattern v =
     (if parensBalanced 0 pattern
      then Inr (globMatch (filter (\<lambda>c. c \<noteq> CHR ''('' \<and> c \<noteq> CHR '')'') pattern) v)
      else Inl ''Invalid regular expression'')"

text \<open>The filter callback: the tests in their order, the pattern only when the action fits.\<close>

definition policyApplies :: "string \<Rightarrow> string \<Rightarrow> string option \<Rightarrow> ConnectorPolicy \<Rightarrow> string + bool" where
  "policyApplies resource action uid policy =
     (if cp_action policy \<noteq> action \<and> cp_action policy \<noteq> ''*'' then Inr False
      else case matchesPattern (cp_resourcePattern policy) resource of
        Inl e \<Rightarrow> Inl e
      | Inr False \<Rightarrow> Inr False
      | Inr True \<Rightarrow> Inr (\<not> (cp_userId policy \<noteq> None \<and> cp_userId policy \<noteq> uid)))"

fun filterThrow :: "('r \<Rightarrow> string + bool) \<Rightarrow> 'r list \<Rightarrow> string + 'r list" where
  "filterThrow f [] = Inr []"
| "filterThrow f (r # rs) = (case f r of
     Inl e \<Rightarrow> Inl e
   | Inr b \<Rightarrow> (case filterThrow f rs of Inl e \<Rightarrow> Inl e | Inr rs' \<Rightarrow> Inr (if b then r # rs' else rs')))"

text \<open>
  The comparator: policies of a user before global ones, deny before allow, newest first. It orders
  by this key, and \<open>Array.sort\<close> is stable.
\<close>

definition policyRank :: "ConnectorPolicy \<Rightarrow> nat \<times> nat \<times> int" where
  "policyRank p = (if cp_userId p \<noteq> None then 0 else 1, if cp_effect p = Deny then 0 else 1, - cp_createdAt p)"

definition getEffectivePolicies ::
  "policyTable \<Rightarrow> string \<Rightarrow> string \<Rightarrow> string \<Rightarrow> string option \<Rightarrow> string + ConnectorPolicy list" where
  "getEffectivePolicies t cid resource action uid =
     (case filterThrow (policyApplies resource action uid) (getPoliciesByConnector t cid) of
        Inl e \<Rightarrow> Inl e
      | Inr matching \<Rightarrow> Inr (sort_key policyRank matching))"

section \<open>Tables keep their keys\<close>

lemma firstRow_append:
  "firstRow P (t @ t') = (case firstRow P t of None \<Rightarrow> firstRow P t' | Some r \<Rightarrow> Some r)"
  by (auto simp: firstRow_def split: list.splits)

lemma firstRow_Nil [simp]: "firstRow P [] = None"
  by (simp add: firstRow_def)

lemma firstRow_Cons [simp]: "firstRow P (r # t) = (if P r then Some r else firstRow P t)"
  by (simp add: firstRow_def)

lemma firstRow_key_None: "firstRow (\<lambda>r. key r = k) t = None \<longleftrightarrow> k \<notin> key ` set t"
  by (induction t) auto

lemma firstRow_key_Some: "firstRow (\<lambda>r. key r = k) t = Some r \<Longrightarrow> key r = k \<and> r \<in> set t"
  by (induction t) (auto split: if_splits)

lemma firstRow_updateRow:
  assumes "\<And>r. key (f r) = key r"
  shows "firstRow (\<lambda>r. key r = k) (updateRow key i f t) =
     (if k = i then map_option f (firstRow (\<lambda>r. key r = k) t) else firstRow (\<lambda>r. key r = k) t)"
  by (induction t) (auto simp: updateRow_def assms)

lemma firstRow_deleteRow:
  "firstRow (\<lambda>r. key r = k) (deleteRow key i t) = (if k = i then None else firstRow (\<lambda>r. key r = k) t)"
  by (induction t) (auto simp: deleteRow_def)

lemma wf_insertRow: "wf_table key t \<Longrightarrow> insertRow key r t = Inr t' \<Longrightarrow> wf_table key t'"
  by (auto simp: wf_table_def insertRow_def split: if_splits)

lemma wf_updateRow: "(\<And>r. key (f r) = key r) \<Longrightarrow> wf_table key t \<Longrightarrow> wf_table key (updateRow key i f t)"
proof -
  assume key: "\<And>r. key (f r) = key r" and wf: "wf_table key t"
  have "map key (updateRow key i f t) = map key t"
    by (simp add: updateRow_def key)
  with wf show ?thesis by (simp only: wf_table_def)
qed

lemma wf_deleteRow: "wf_table key t \<Longrightarrow> wf_table key (deleteRow key i t)"
  by (simp add: wf_table_def deleteRow_def distinct_map_filter)

text \<open>
  The contract the three stores share: creation under a fresh key makes exactly that row visible and
  leaves the rest, under a taken key it throws, and deletion removes exactly the row of the key.
\<close>

locale row_store =
  fixes create :: "'c \<Rightarrow> timestamp \<Rightarrow> 'r list \<Rightarrow> string + ('r \<times> 'r list)"
    and getById :: "'r list \<Rightarrow> string \<Rightarrow> 'r option"
    and del :: "string \<Rightarrow> 'r list \<Rightarrow> 'r list"
    and newKey :: "'c \<Rightarrow> string"
    and rowOf :: "'c \<Rightarrow> timestamp \<Rightarrow> 'r"
    and ok :: "'r list \<Rightarrow> bool"
  assumes create_fresh: "getById t (newKey c) = None \<Longrightarrow> \<exists>t'. create c now t = Inr (rowOf c now, t')"
    and create_taken: "getById t (newKey c) \<noteq> None \<Longrightarrow> \<exists>e. create c now t = Inl e"
    and get_create: "create c now t = Inr (r, t') \<Longrightarrow>
          getById t' k = (if k = newKey c then Some (rowOf c now) else getById t k)"
    and get_del: "getById (del i t) k = (if k = i then None else getById t k)"
    and ok_create: "ok t \<Longrightarrow> create c now t = Inr (r, t') \<Longrightarrow> ok t'"
    and ok_del: "ok t \<Longrightarrow> ok (del i t)"
begin

lemma create_result: "create c now t = Inr (r, t') \<Longrightarrow> r = rowOf c now \<and> getById t (newKey c) = None"
  using create_fresh [of t c now] create_taken [of t c now] by fastforce

lemma create_twice_fails: "create c now t = Inr (r, t') \<Longrightarrow> \<exists>e. create c' now' t' = Inl e" if "newKey c' = newKey c"
  using create_taken [of t' c' now'] get_create [of c now t r t'] that by simp

lemma create_del_roundtrip:
  assumes "create c now t = Inr (r, t')"
  shows "getById (del (newKey c) t') k = getById t k"
  using create_result [OF assms] get_create [OF assms] by (simp add: get_del)

end

lemma row_store_of_table:
  assumes "\<And>c now. key (rowOf c now) = newKey c"
    and "\<And>c now t. create c now t = (case insertRow key (rowOf c now) t of Inl e \<Rightarrow> Inl e | Inr t' \<Rightarrow> Inr (rowOf c now, t'))"
    and "\<And>t k. getById t k = firstRow (\<lambda>r. key r = k) t" and "\<And>i t. del i t = deleteRow key i t"
  shows "row_store create getById del newKey rowOf (wf_table key)"
proof unfold_locales
  fix t k c now r t' i
  let ?get = "\<lambda>t k. firstRow (\<lambda>r. key r = k) t"
  show "getById t (newKey c) = None \<Longrightarrow> \<exists>t'. create c now t = Inr (rowOf c now, t')"
    and "getById t (newKey c) \<noteq> None \<Longrightarrow> \<exists>e. create c now t = Inl e"
    using firstRow_key_None [of key "newKey c" t] by (auto simp: assms insertRow_def)
  assume new: "create c now t = Inr (r, t')"
  then have t': "t' = t @ [rowOf c now]" and fresh: "newKey c \<notin> key ` set t"
    by (auto simp: assms insertRow_def split: if_splits)
  have "?get t (newKey c) = None" using fresh by (simp add: firstRow_key_None)
  then show "getById t' k = (if k = newKey c then Some (rowOf c now) else getById t k)"
    by (simp add: assms t' firstRow_append split: option.split)
  show "wf_table key t \<Longrightarrow> wf_table key t'"
    using fresh by (simp add: wf_table_def t' assms)
next
  fix t i k
  show "getById (del i t) k = (if k = i then None else getById t k)"
    by (simp add: assms firstRow_deleteRow)
  show "wf_table key t \<Longrightarrow> wf_table key (del i t)"
    by (simp add: assms wf_deleteRow)
qed

lemma extend_keeps [simp]:
  "ar_id (CreateApprovalRequest.extend c x) = ar_id c"
  "gr_id (CreatePermissionGrant.extend g y) = gr_id g"
  "cp_policyId (CreateConnectorPolicy.extend p z) = cp_policyId p"
  by (simp_all add: CreateApprovalRequest.defs CreatePermissionGrant.defs CreateConnectorPolicy.defs)

lemmas store_defs = approvalCreate_def approvalGetById_def approvalDelete_def
  grantCreate_def grantGetById_def grantDelete_def policyCreate_def policyGetById_def policyDelete_def

interpretation approvals: row_store approvalCreate approvalGetById approvalDelete ar_id
  "\<lambda>c now. CreateApprovalRequest.extend c \<lparr>ar_createdAt = now, ar_updatedAt = now\<rparr>" "wf_table ar_id"
  by (rule row_store_of_table) (simp_all add: store_defs Let_def)

interpretation grants: row_store grantCreate grantGetById grantDelete gr_id
  "\<lambda>c now. CreatePermissionGrant.extend c
     \<lparr>gr_revokedAt = None, gr_revokedReason = None, gr_createdAt = now, gr_updatedAt = now\<rparr>" "wf_table gr_id"
  by (rule row_store_of_table) (simp_all add: store_defs Let_def)

interpretation policies: row_store policyCreate policyGetById policyDelete cp_policyId
  "\<lambda>c now. CreateConnectorPolicy.extend c \<lparr>cp_createdAt = now, cp_updatedAt = now\<rparr>" "wf_table cp_policyId"
  by (rule row_store_of_table) (simp_all add: store_defs Let_def)

lemma updateRow_id: "updateRow key i (\<lambda>r. r) t = t"
  by (simp add: updateRow_def)

lemma get_approvalUpdate:
  assumes "approvalUpdate i u now t = Inr (r, t')"
  shows "\<exists>old. approvalGetById t i = Some old \<and> r = applyApprovalUpdate u now old \<and>
     approvalGetById t' k = (if k = i then Some r else approvalGetById t k)"
  using assms
  by (auto simp: approvalUpdate_def approvalGetById_def applyApprovalUpdate_def firstRow_updateRow Let_def split: option.splits)

lemma get_revoke:
  assumes "revoke i reason now t = Inr (g, t')"
  shows "\<exists>old. grantGetById t i = Some old \<and> g = old\<lparr>gr_revokedAt := Some now, gr_revokedReason := Some reason, gr_updatedAt := now\<rparr> \<and>
     grantGetById t' k = (if k = i then Some g else grantGetById t k)"
  using assms by (auto simp: revoke_def grantGetById_def firstRow_updateRow Let_def split: option.splits)

section \<open>Effective policies\<close>

lemma filterThrow_Inr: "filterThrow f rs = Inr rs' \<Longrightarrow> rs' = filter (\<lambda>r. f r = Inr True) rs"
  by (induction rs arbitrary: rs') (auto split: sum.splits if_splits bool.splits)

lemma filterThrow_no_throw: "\<forall>r \<in> set rs. \<exists>b. f r = Inr b \<Longrightarrow> filterThrow f rs = Inr (filter (\<lambda>r. f r = Inr True) rs)"
  by (induction rs) auto

lemma policyApplies_iff:
  "policyApplies resource action uid p = Inr True \<longleftrightarrow>
     (cp_action p = action \<or> cp_action p = ''*'') \<and> matchesPattern (cp_resourcePattern p) resource = Inr True \<and>
     (cp_userId p = None \<or> cp_userId p = uid)"
  by (auto simp: policyApplies_def split: sum.splits bool.splits)

lemma set_orderByDesc [simp]: "set (orderByDesc f t) = set t"
  by (simp add: orderByDesc_def)

lemma set_getEffectivePolicies:
  assumes "getEffectivePolicies t cid resource action uid = Inr ps"
  shows "set ps = {p \<in> set t. cp_connectorId p = cid \<and> policyApplies resource action uid p = Inr True}"
  using assms
  by (auto simp: getEffectivePolicies_def getPoliciesByConnector_def dest!: filterThrow_Inr split: sum.splits)

lemma sorted_getEffectivePolicies:
  assumes "getEffectivePolicies t cid resource action uid = Inr ps"
  shows "sorted (map policyRank ps)"
  using assms by (auto simp: getEffectivePolicies_def split: sum.splits)

lemma sorted_before:
  assumes "sorted (map f ps)" and "ps = as @ p # bs" and "q \<in> set bs"
  shows "f p \<le> f q"
  using assms by (auto simp: sorted_append)

text \<open>What a glob means: a star stands for any text without a line terminator.\<close>

inductive globMeans :: "string \<Rightarrow> string \<Rightarrow> bool" where
  glob_nil: "globMeans [] []"
| glob_star: "list_all (\<lambda>c. \<not> lineTerminator c) u \<Longrightarrow> globMeans ps v \<Longrightarrow> globMeans (CHR ''*'' # ps) (u @ v)"
| glob_any: "\<not> lineTerminator c \<Longrightarrow> globMeans ps v \<Longrightarrow> globMeans (CHR ''?'' # ps) (c # v)"
| glob_char: "c \<noteq> CHR ''*'' \<Longrightarrow> c \<noteq> CHR ''?'' \<Longrightarrow> globMeans ps v \<Longrightarrow> globMeans (c # ps) (c # v)"

inductive_cases globMeans_NilE: "globMeans [] v"
inductive_cases globMeans_ConsE: "globMeans (p # ps) v"

lemma globMatch_Cons [simp]:
  "globMatch (CHR ''*'' # ps) [] = globMatch ps []"
  "globMatch (CHR ''*'' # ps) (c # v) = (globMatch ps (c # v) \<or> \<not> lineTerminator c \<and> globMatch (CHR ''*'' # ps) v)"
  "p \<noteq> CHR ''*'' \<Longrightarrow> globMatch (p # ps) [] = False"
  "p \<noteq> CHR ''*'' \<Longrightarrow> globMatch (p # ps) (c # v) = ((if p = CHR ''?'' then \<not> lineTerminator c else c = p) \<and> globMatch ps v)"
  by simp_all

declare globMatch.simps(2) [simp del]

lemma globMatch_sound: "globMatch p v \<Longrightarrow> globMeans p v"
proof (induction p arbitrary: v)
  case Nil
  then show ?case by (simp add: glob_nil)
next
  case (Cons p ps)
  show ?case
  proof (cases "p = CHR ''*''")
    case True
    have "\<exists>u w. v = u @ w \<and> list_all (\<lambda>c. \<not> lineTerminator c) u \<and> globMatch ps w"
      using Cons.prems unfolding True
    proof (induction v)
      case Nil
      then show ?case by simp
    next
      case (Cons c v)
      show ?case
      proof (cases "globMatch ps (c # v)")
        case False
        then obtain u w where "v = u @ w" "list_all (\<lambda>c. \<not> lineTerminator c) u" "globMatch ps w" "\<not> lineTerminator c"
          using Cons by auto
        then show ?thesis by (intro exI [of _ "c # u"] exI [of _ w]) simp
      qed (intro exI [of _ "[]"] exI [of _ "c # v"], simp)
    qed
    then show ?thesis using Cons.IH True glob_star by blast
  next
    case False
    then show ?thesis using Cons by (cases v) (auto intro: glob_any glob_char split: if_splits)
  qed
qed

lemma globMatch_star: "list_all (\<lambda>c. \<not> lineTerminator c) u \<Longrightarrow> globMatch ps v \<Longrightarrow> globMatch (CHR ''*'' # ps) (u @ v)"
  by (induction u) (cases v, auto)

lemma globMatch_complete: "globMeans p v \<Longrightarrow> globMatch p v"
proof (induction rule: globMeans.induct)
  case (glob_star u ps v)
  then show ?case by (intro globMatch_star)
qed simp_all

section \<open>Properties\<close>

text \<open>
  The matcher of connector policies implements its globs: for a pattern whose parentheses are
  balanced it accepts exactly the values the pattern without its parentheses stands for, with
  \<open>*\<close> any text, \<open>?\<close> one character and everything else itself; otherwise it throws.
\<close>

theorem matchesPattern_correct:
  "matchesPattern pattern v =
     (if parensBalanced 0 pattern
      then Inr (globMeans (filter (\<lambda>c. c \<noteq> CHR ''('' \<and> c \<noteq> CHR '')'') pattern) v)
      else Inl ''Invalid regular expression'')"
  using globMatch_sound globMatch_complete unfolding matchesPattern_def by auto

text \<open>
  The effective policies are exactly the stored policies of the connector whose action, pattern
  and user fit, and they come in the order of precedence: a policy is never preceded by a global one
  when it is the user's own, nor by an allow when it is a deny of the same group.
\<close>

theorem effective_policies_exact:
  assumes "getEffectivePolicies t cid resource action uid = Inr ps"
  shows "set ps = {p \<in> set t. cp_connectorId p = cid \<and> (cp_action p = action \<or> cp_action p = ''*'') \<and>
           matchesPattern (cp_resourcePattern p) resource = Inr True \<and> (cp_userId p = None \<or> cp_userId p = uid)} \<and>
     (\<forall>as p bs q. ps = as @ p # bs \<longrightarrow> q \<in> set bs \<longrightarrow>
        (cp_userId q \<noteq> None \<longrightarrow> cp_userId p \<noteq> None) \<and>
        ((cp_userId q = None) = (cp_userId p = None) \<longrightarrow> cp_effect q = Deny \<longrightarrow> cp_effect p = Deny))"
proof (intro conjI allI impI)
  show "set ps = {p \<in> set t. cp_connectorId p = cid \<and> (cp_action p = action \<or> cp_action p = ''*'') \<and>
      matchesPattern (cp_resourcePattern p) resource = Inr True \<and> (cp_userId p = None \<or> cp_userId p = uid)}"
    using set_getEffectivePolicies [OF assms] by (simp add: policyApplies_iff)
next
  fix as p bs q
  assume "ps = as @ p # bs" and "q \<in> set bs"
  then have "policyRank p \<le> policyRank q"
    using sorted_before [OF sorted_getEffectivePolicies [OF assms]] by blast
  then show "cp_userId p \<noteq> None" if "cp_userId q \<noteq> None"
    using that by (auto simp: policyRank_def split: if_splits)
  show "cp_effect p = Deny" if "(cp_userId q = None) = (cp_userId p = None)" and "cp_effect q = Deny"
    using \<open>policyRank p \<le> policyRank q\<close> that by (auto simp: policyRank_def split: if_splits)
qed

definition demoPolicyRow :: "string \<Rightarrow> string \<Rightarrow> PolicyEffect \<Rightarrow> string option \<Rightarrow> ConnectorPolicy" where
  "demoPolicyRow pid pat eff uid = \<lparr>cp_policyId = pid, cp_connectorId = ''mail'', cp_resourcePattern = pat,
     cp_action = ''*'', cp_effect = eff, cp_allowedScopes = None, cp_riskCap = Some ''medium'', cp_auditLabel = None,
     cp_userId = uid, cp_createdAt = 1, cp_updatedAt = 1\<rparr>"

definition demoPolicies :: policyTable where
  "demoPolicies = [demoPolicyRow ''p1'' ''inbox/*'' Allow None, demoPolicyRow ''p2'' ''inbox/private?'' Deny None]"

lemma demo_effective:
  "getEffectivePolicies demoPolicies ''mail'' ''inbox/private1'' ''read'' (Some ''u1'') =
     Inr [demoPolicyRow ''p2'' ''inbox/private?'' Deny None, demoPolicyRow ''p1'' ''inbox/*'' Allow None]"
  by (simp add: getEffectivePolicies_def getPoliciesByConnector_def demoPolicies_def demoPolicyRow_def orderByDesc_def
      policyApplies_def matchesPattern_def lineTerminator_def policyRank_def)

theorem effective_policies_exact_witness:
  "getEffectivePolicies demoPolicies ''mail'' ''inbox/private1'' ''read'' (Some ''u1'') =
     Inr [demoPolicyRow ''p2'' ''inbox/private?'' Deny None, demoPolicyRow ''p1'' ''inbox/*'' Allow None] \<and>
   matchesPattern ''inbox/private?'' ''inbox/private1'' = Inr True"
proof -
  have "demoPolicyRow ''p2'' ''inbox/private?'' Deny None \<in>
      set [demoPolicyRow ''p2'' ''inbox/private?'' Deny None, demoPolicyRow ''p1'' ''inbox/*'' Allow None]"
    by simp
  with conjunct1 [OF effective_policies_exact [OF demo_effective]] demo_effective show ?thesis
    by (auto simp: demoPolicyRow_def)
qed

text \<open>
  Approval rows are addressed by id: a created row is found under its id with every field it was
  created with, an update changes the answered row alone and keeps its request fields, a second
  creation under the id throws, and deletion undoes the creation.
\<close>

theorem approval_store_contract:
  assumes "approvalCreate c now t = Inr (r, t')" and "approvalUpdate (ar_id c) u now' t' = Inr (r', t'')"
  shows "r = CreateApprovalRequest.extend c \<lparr>ar_createdAt = now, ar_updatedAt = now\<rparr> \<and>
     r' = applyApprovalUpdate u now' r \<and>
     approvalGetById t'' k = (if k = ar_id c then Some r' else approvalGetById t k) \<and>
     approvalGetById (approvalDelete (ar_id c) t'') k = approvalGetById t k \<and>
     (\<exists>e. approvalCreate c now'' t'' = Inl e)"
proof -
  let ?row = "CreateApprovalRequest.extend c \<lparr>ar_createdAt = now, ar_updatedAt = now\<rparr>"
  have r: "r = ?row" and fresh: "approvalGetById t (ar_id c) = None"
    using approvals.create_result [OF assms(1)] by simp_all
  have get': "approvalGetById t' j = (if j = ar_id c then Some ?row else approvalGetById t j)" for j
    by (rule approvals.get_create [OF assms(1)])
  have r': "r' = applyApprovalUpdate u now' r"
    and get'': "approvalGetById t'' j = (if j = ar_id c then Some r' else approvalGetById t' j)" for j
    using get_approvalUpdate [OF assms(2)] get' r by auto
  show ?thesis
    using r r' get' get'' fresh approvals.create_taken [of t'' c now''] by (auto simp: approvals.get_del)
qed

definition demoApproval :: CreateApprovalRequest where
  "demoApproval = \<lparr>ar_id = ''appr_1'', ar_userId = ''u1'', ar_sessionId = ''s1'', ar_status = Pending,
     ar_riskLevel = None, ar_scope = None, ar_scopeType = None, ar_scopeRef = None, ar_actionType = ''tool:file_write'',
     ar_resource = Some ''/tmp/a'', ar_justification = None, ar_requestedBy = ''permission_engine'', ar_requestedAt = 10,
     ar_expiresAt = Some 3600010, ar_respondedAt = None, ar_responseBy = None, ar_responseReason = None,
     ar_approvalCode = None, ar_idempotencyKey = None,
     ar_metadata = Some \<lparr>md_operationType = Some ''write'', md_correlationId = Some ''c1'', md_pendingActionId = None\<rparr>,
     ar_sourceContext = None\<rparr>"

definition demoAnswer :: UpdateApprovalRequest where
  "demoAnswer = \<lparr>upd_status = Some Approved, upd_respondedAt = Some 20, upd_responseBy = Some ''u1'',
     upd_responseReason = None, upd_approvalCode = None, upd_expiresAt = None\<rparr>"

theorem approval_store_contract_witness:
  "\<exists>r t' r' t''. approvalCreate demoApproval 10 [] = Inr (r, t') \<and> approvalUpdate ''appr_1'' demoAnswer 20 t' = Inr (r', t'') \<and>
     ar_status r' = Approved \<and> approvalGetById (approvalDelete ''appr_1'' t'') ''appr_1'' = None"
proof -
  have i: "ar_id demoApproval = ''appr_1''" by (simp add: demoApproval_def)
  obtain r t' where c: "approvalCreate demoApproval 10 [] = Inr (r, t')"
    using approvals.create_fresh [of "[]" demoApproval 10] by (auto simp: approvalGetById_def)
  obtain r' t'' where u: "approvalUpdate (ar_id demoApproval) demoAnswer 20 t' = Inr (r', t'')"
    using approvals.get_create [OF c, of "ar_id demoApproval"] by (simp add: approvalUpdate_def Let_def)
  from approval_store_contract [OF c u, of "''appr_1''"] c u i show ?thesis
    by (auto simp: applyApprovalUpdate_def demoAnswer_def nullish_def approvalGetById_def)
qed

end
