(* ===== verification/Plan_Validation.thy ===== *)
theory Plan_Validation
  imports Prelude "HOL-Library.Multiset"
begin

text \<open>
  The planner's data and its pure decisions: the plan schema (\<open>planner/plan-schema.ts\<close>), the validator
  with its depth-first cycle search (\<open>planner/plan-validator.ts\<close>), the mapping between schema steps and
  stored steps (\<open>planner/plan-step-mapper.ts\<close>) and the replan policy (\<open>planner/replan-policy.ts\<close>).

  The search is a nested recursion: the colours it returns from one dependency are the colours it starts
  the next one with. It terminates because every step it enters is coloured and colours are never removed.
  Its correctness (it reports a cycle exactly when the dependency graph has one, and the reported path is
  one) gives the main fact about valid plans: they have an execution order.

  The tool registry and the risk policies are arguments. A step's kind and executor are strings, because
  the validator exists to check plans that a model wrote. In the cycle message the arrow between step ids,
  which is outside Latin-1, is written with its three UTF-8 bytes.
\<close>

section \<open>The plan schema\<close>

record PlanDependency =
  dep_type :: string
  targetStepId :: string
  dep_description :: "string option"

record PlanRetryPolicy =
  maxAttempts :: nat
  backoffMs :: nat
  retryableErrors :: "string list option"

record ApprovalRequirement =
  approvalId :: string
  areq_reason :: string
  areq_riskLevel :: string
  requiredRoles :: "string list option"

record PlanStep =
  st_id :: string
  st_kind :: string
  st_title :: string
  st_description :: string
  st_executor :: string
  st_toolName :: "string option"
  st_dependsOn :: "PlanDependency list option"
  st_approvalRequirementId :: "string option"
  st_expectedOutput :: "string option"
  st_outOfScope :: "string option"
  st_retryPolicy :: "PlanRetryPolicy option"

record ExecutionPlan =
  pl_id :: string
  pl_goal :: string
  pl_assumptions :: "string list option"
  pl_steps :: "PlanStep list"
  pl_dependencies :: "PlanDependency list option"
  pl_requiredApprovals :: "ApprovalRequirement list option"
  pl_successCriteria :: "string list option"
  pl_riskNotes :: "string list option"
  pl_createdAt :: string
  pl_updatedAt :: string
  pl_version :: nat

datatype PlanValidationSeverity = SevError | SevWarning

record PlanValidationIssue =
  iss_code :: string
  iss_message :: string
  iss_severity :: PlanValidationSeverity
  iss_path :: "string option"

record PlanValidationResult =
  vr_valid :: bool
  vr_errors :: "PlanValidationIssue list"
  vr_warnings :: "PlanValidationIssue list"

section \<open>Cycle detection\<close>

datatype color = WHITE | GRAY | BLACK

text \<open>\<open>stepIds\<close>: a later step with the same id replaces the earlier one.\<close>

definition stepMap :: "PlanStep list \<Rightarrow> (string, PlanStep) jsmap" where
  "stepMap steps = fold (\<lambda>s m. mapSet (st_id s) s m) steps []"

definition stepTargets :: "(string, PlanStep) jsmap \<Rightarrow> string \<Rightarrow> string list" where
  "stepTargets stepIds i = (case mapGet stepIds i of
     None \<Rightarrow> []
   | Some step \<Rightarrow> (case st_dependsOn step of None \<Rightarrow> [] | Some deps \<Rightarrow> map targetStepId deps))"

text \<open>\<open>[...path.slice(path.indexOf(stepId)), stepId]\<close>; for an absent id \<open>indexOf\<close> is \<open>-1\<close> and the slice the last element.\<close>

definition cyclePathOf :: "string \<Rightarrow> string list \<Rightarrow> string list" where
  "cyclePathOf i path =
     (if i \<in> set path then dropWhile (\<lambda>j. j \<noteq> i) path else drop (length path - 1) path) @ [i]"

text \<open>
  The closure \<open>dfs\<close> with the variables it shares made explicit: the colours and the path are passed in and
  returned, and the first component is the \<open>cyclePath\<close> it sets when it returns \<open>true\<close>.
\<close>

function dfs :: "(string, PlanStep) jsmap \<Rightarrow> string \<Rightarrow> (string, color) jsmap \<Rightarrow> string list \<Rightarrow>
    string list option \<times> (string, color) jsmap \<times> string list"
  and dfsDeps :: "(string, PlanStep) jsmap \<Rightarrow> string list \<Rightarrow> (string, color) jsmap \<Rightarrow> string list \<Rightarrow>
    string list option \<times> (string, color) jsmap \<times> string list" where
  "dfs stepIds i colors path =
     (if mapGet colors i = Some GRAY then (Some (cyclePathOf i path), colors, path)
      else if mapGet colors i = Some BLACK then (None, colors, path)
      else (case dfsDeps stepIds (stepTargets stepIds i) (mapSet i GRAY colors) (path @ [i]) of
              (Some cyclePath, colors', path') \<Rightarrow> (Some cyclePath, colors', path')
            | (None, colors', path') \<Rightarrow> (None, mapSet i BLACK colors', butlast path')))"
| "dfsDeps stepIds [] colors path = (None, colors, path)"
| "dfsDeps stepIds (target # deps) colors path = (case dfs stepIds target colors path of
     (Some cyclePath, colors', path') \<Rightarrow> (Some cyclePath, colors', path')
   | (None, colors', path') \<Rightarrow> dfsDeps stepIds deps colors' path')"
  by pat_completeness auto

text \<open>Termination: the steps still to be entered are those of the map that are neither gray nor black.\<close>

definition unvisited :: "(string, PlanStep) jsmap \<Rightarrow> (string, color) jsmap \<Rightarrow> string set" where
  "unvisited stepIds colors = {i \<in> set (mapKeys stepIds). mapGet colors i \<noteq> Some GRAY \<and> mapGet colors i \<noteq> Some BLACK}"

lemma finite_unvisited [simp]: "finite (unvisited stepIds colors)"
  by (simp add: unvisited_def)

lemma unvisited_mapSet:
  "c \<noteq> WHITE \<Longrightarrow> unvisited stepIds (mapSet i c colors) = unvisited stepIds colors - {i}"
  by (cases c) (auto simp: unvisited_def)

lemma dfs_unvisited:
  "dfs_dfsDeps_dom (Inl (stepIds, i, colors, path)) \<Longrightarrow>
     unvisited stepIds (fst (snd (dfs stepIds i colors path))) \<subseteq> unvisited stepIds colors"
  "dfs_dfsDeps_dom (Inr (stepIds, deps, colors, path)) \<Longrightarrow>
     unvisited stepIds (fst (snd (dfsDeps stepIds deps colors path))) \<subseteq> unvisited stepIds colors"
proof (induction stepIds i colors path and stepIds deps colors path rule: dfs_dfsDeps.pinduct)
  case (1 stepIds i colors path)
  show ?case
    using 1(2) by (auto simp: dfs.psimps [OF 1(1)] unvisited_mapSet split: prod.splits option.splits)
next
  case (2 stepIds colors path)
  then show ?case by (simp add: dfsDeps.psimps)
next
  case (3 stepIds target deps colors path)
  show ?case
    using 3(2,3) by (auto simp: dfsDeps.psimps(2) [OF 3(1)] split: prod.splits option.splits) blast+
qed

termination dfs
proof (relation "measures [\<lambda>x. case x of Inl (g, i, c, p) \<Rightarrow> card (unvisited g c) | Inr (g, ds, c, p) \<Rightarrow> card (unvisited g c),
    \<lambda>x. case x of Inl (g, i, c, p) \<Rightarrow> 1 | Inr (g, ds, c, p) \<Rightarrow> 2 * length ds]", goal_cases)
  case 1
  then show ?case by simp
next
  case (2 g i colors path)
  show ?case
  proof (cases "mapGet g i")
    case None
    then have "stepTargets g i = []" by (simp add: stepTargets_def)
    moreover have "i \<notin> unvisited g colors" using None by (auto simp: unvisited_def map_of_eq_None_iff)
    ultimately show ?thesis by (simp add: unvisited_mapSet)
  next
    case (Some step)
    then have "i \<in> fst ` set g" by (metis domI dom_map_of_conv_image_fst)
    with 2 have "i \<in> unvisited g colors" by (simp add: unvisited_def)
    then have "card (unvisited g colors - {i}) < card (unvisited g colors)"
      by (rule card_Diff1_less [OF finite_unvisited])
    then show ?thesis by (simp only: in_measures prod.case sum.case unvisited_mapSet color.distinct not_False_eq_True) simp
  qed
next
  case (3 g target deps colors path)
  then show ?case by simp
next
  case (4 g target deps colors path r p colors' path')
  then have "unvisited g colors' \<subseteq> unvisited g colors"
    using dfs_unvisited(1) [of g target colors path] by (metis fst_conv snd_conv)
  then have "card (unvisited g colors') \<le> card (unvisited g colors)" by (simp add: card_mono)
  then show ?case by auto
qed

declare dfs.simps [simp del]

definition joinArrow :: "string list \<Rightarrow> string" where
  "joinArrow ids = (case ids of [] \<Rightarrow> []
     | i # rest \<Rightarrow> i @ concat (map (\<lambda>j. [CHR 0x20, CHR 0xE2, CHR 0x86, CHR 0x92, CHR 0x20] @ j) rest))"

fun detectLoop :: "(string, PlanStep) jsmap \<Rightarrow> PlanStep list \<Rightarrow> (string, color) jsmap \<Rightarrow> string list option" where
  "detectLoop stepIds [] colors = None"
| "detectLoop stepIds (step # steps) colors =
     (if mapGet colors (st_id step) = Some WHITE then
        (case dfs stepIds (st_id step) colors [] of
           (Some cyclePath, _) \<Rightarrow> Some cyclePath
         | (None, colors', _) \<Rightarrow> detectLoop stepIds steps colors')
      else detectLoop stepIds steps colors)"

definition whiteColors :: "PlanStep list \<Rightarrow> (string, color) jsmap" where
  "whiteColors steps = fold (\<lambda>s m. mapSet (st_id s) WHITE m) steps []"

definition detectCycles :: "PlanStep list \<Rightarrow> PlanValidationIssue option" where
  "detectCycles steps = (case detectLoop (stepMap steps) steps (whiteColors steps) of
     None \<Rightarrow> None
   | Some cyclePath \<Rightarrow> Some \<lparr>iss_code = ''CIRCULAR_DEPENDENCY'',
       iss_message = ''Circular dependency detected: '' @ joinArrow cyclePath,
       iss_severity = SevError, iss_path = None\<rparr>)"

section \<open>Validation\<close>

record PlanValidatorDeps =
  hasTool :: "string \<Rightarrow> bool"
  getToolCategory :: "string \<Rightarrow> string option"
  riskRequiresApproval :: "string \<Rightarrow> bool"

definition VALID_STEP_KINDS :: "string list" where
  "VALID_STEP_KINDS = [''agent_task'', ''tool_call'', ''subagent_task'', ''workflow_step'', ''user_approval'', ''final_response'']"

definition VALID_EXECUTORS :: "string list" where
  "VALID_EXECUTORS = [''agent_kernel'', ''tool_plane'', ''subagent'', ''workflow_runtime'', ''foreground'']"

definition errorAt :: "string \<Rightarrow> string \<Rightarrow> string \<Rightarrow> PlanValidationIssue" where
  "errorAt code message path = \<lparr>iss_code = code, iss_message = message, iss_severity = SevError, iss_path = Some path\<rparr>"

definition planErrors :: "ExecutionPlan \<Rightarrow> PlanValidationIssue list" where
  "planErrors plan =
     (if trim (pl_id plan) = [] then [errorAt ''PLAN_MISSING_ID'' ''Plan id is required'' ''id''] else []) @
     (if trim (pl_goal plan) = [] then [errorAt ''PLAN_MISSING_GOAL'' ''Plan goal is required and must be non-empty'' ''goal''] else [])"

fun duplicateErrors :: "string list \<Rightarrow> string list \<Rightarrow> PlanValidationIssue list" where
  "duplicateErrors seen [] = []"
| "duplicateErrors seen (i # ids) =
     (if i \<in> set seen then [errorAt ''DUPLICATE_STEP_ID'' (''Duplicate step id: '' @ i) (''steps.'' @ i)] else []) @
     duplicateErrors (i # seen) ids"

definition requiresApproval :: "PlanValidatorDeps \<Rightarrow> string \<Rightarrow> bool" where
  "requiresApproval deps toolName =
     (getToolCategory deps toolName = Some ''write'' \<or> getToolCategory deps toolName = Some ''delete'' \<or>
      riskRequiresApproval deps toolName)"

definition toolErrors :: "PlanValidatorDeps \<Rightarrow> PlanStep \<Rightarrow> PlanValidationIssue list" where
  "toolErrors deps step = (let p = ''steps.'' @ st_id step; toolName = the (st_toolName step) in
     (if st_kind step = ''tool_call'' \<and> \<not> truthy (st_toolName step)
      then [errorAt ''TOOL_CALL_MISSING_TOOL_NAME'' ''tool_call step must have toolName'' (p @ ''.toolName'')] else []) @
     (if truthy (st_toolName step) \<and> \<not> hasTool deps toolName
      then [errorAt ''UNKNOWN_TOOL'' (''Unknown tool: '' @ toolName) (p @ ''.toolName'')] else []) @
     (if truthy (st_toolName step) \<and> st_kind step = ''tool_call'' \<and> requiresApproval deps toolName \<and>
         \<not> truthy (st_approvalRequirementId step)
      then [errorAt ''WRITE_TOOL_WITHOUT_APPROVAL''
              (''Write/delete tool '' @ [CHR 0x22] @ toolName @ [CHR 0x22] @ '' requires approval'')
              (p @ ''.approvalRequirementId'')] else []))"

definition dependencyErrors :: "string list \<Rightarrow> PlanStep \<Rightarrow> PlanValidationIssue list" where
  "dependencyErrors validStepIds step = (case st_dependsOn step of
     None \<Rightarrow> []
   | Some deps \<Rightarrow> map (\<lambda>d. errorAt ''DEPENDENCY_MISSING_TARGET''
         (''Dependency target step '' @ [CHR 0x22] @ targetStepId d @ [CHR 0x22] @ '' not found'')
         (''steps.'' @ st_id step @ ''.dependsOn''))
       (filter (\<lambda>d. targetStepId d \<notin> set validStepIds) deps))"

definition stepErrors :: "PlanValidatorDeps \<Rightarrow> string list \<Rightarrow> PlanStep \<Rightarrow> PlanValidationIssue list" where
  "stepErrors deps validStepIds step =
     (if st_kind step \<notin> set VALID_STEP_KINDS
      then [errorAt ''INVALID_STEP_KIND'' (''Invalid step kind: '' @ st_kind step) (''steps.'' @ st_id step @ ''.kind'')] else []) @
     (if st_executor step \<notin> set VALID_EXECUTORS
      then [errorAt ''INVALID_EXECUTOR'' (''Invalid executor: '' @ st_executor step) (''steps.'' @ st_id step @ ''.executor'')] else []) @
     toolErrors deps step @ dependencyErrors validStepIds step"

definition stepWarnings :: "PlanStep \<Rightarrow> PlanValidationIssue list" where
  "stepWarnings step = (if trim (or_else (st_expectedOutput step) []) = []
     then [\<lparr>iss_code = ''NO_EXPECTED_OUTPUT'',
            iss_message = ''Step '' @ [CHR 0x22] @ st_id step @ [CHR 0x22] @ '' has no expectedOutput; verification is not possible'',
            iss_severity = SevWarning, iss_path = Some (''steps.'' @ st_id step @ ''.expectedOutput'')\<rparr>] else [])"

definition planWarnings :: "ExecutionPlan \<Rightarrow> PlanValidationIssue list" where
  "planWarnings plan =
     (if list_ex (\<lambda>s. st_kind s = ''final_response'') (pl_steps plan) then []
      else [\<lparr>iss_code = ''NO_FINAL_RESPONSE'', iss_message = ''Plan has no final_response step'',
             iss_severity = SevWarning, iss_path = None\<rparr>]) @
     (if nullish (pl_successCriteria plan) [] = []
      then [\<lparr>iss_code = ''NO_SUCCESS_CRITERIA'', iss_message = ''Plan has no success criteria'',
             iss_severity = SevWarning, iss_path = None\<rparr>] else [])"

definition validate :: "PlanValidatorDeps \<Rightarrow> ExecutionPlan \<Rightarrow> PlanValidationResult" where
  "validate deps plan =
     (if pl_steps plan = [] then
        \<lparr>vr_valid = False, vr_errors = planErrors plan @
           [errorAt ''PLAN_EMPTY_STEPS'' ''Plan must have at least one step'' ''steps''], vr_warnings = []\<rparr>
      else
        (let stepIds = map st_id (pl_steps plan);
             errors = planErrors plan @ duplicateErrors [] stepIds @
               concat (map (stepErrors deps stepIds) (pl_steps plan)) @
               (case detectCycles (pl_steps plan) of None \<Rightarrow> [] | Some e \<Rightarrow> [e]) in
         \<lparr>vr_valid = (length errors = 0), vr_errors = errors,
          vr_warnings = concat (map stepWarnings (pl_steps plan)) @ planWarnings plan\<rparr>))"

section \<open>Storing steps\<close>

text \<open>The step of \<open>storage/plan-store.ts\<close>.\<close>

datatype StepStatus = StepPending | StepInProgress | StepCompleted | StepFailed

record StoragePlanStep =
  sp_stepId :: string
  sp_description :: string
  sp_status :: StepStatus
  sp_dependencies :: "string list option"
  sp_kind :: "string option"
  sp_executor :: "string option"
  sp_toolName :: "string option"
  sp_approvalRequirementId :: "string option"
  sp_expectedOutput :: "string option"

text \<open>\<open>...(x ? { x } : {})\<close> on an optional string, and the same on a list that must not be empty.\<close>

definition keepText :: "string option \<Rightarrow> string option" where
  "keepText x = (if truthy x then x else None)"

definition keepList :: "'a list option \<Rightarrow> 'a list option" where
  "keepList x = (case x of None \<Rightarrow> None | Some ys \<Rightarrow> if length ys > 0 then Some ys else None)"

definition mapSchemaPlanStepToStorage :: "PlanStep \<Rightarrow> StoragePlanStep" where
  "mapSchemaPlanStepToStorage step = \<lparr>sp_stepId = st_id step,
     sp_description = (if st_description step = [] then st_title step else st_description step),
     sp_status = StepPending,
     sp_dependencies = map_option (map targetStepId) (keepList (st_dependsOn step)),
     sp_kind = keepText (Some (st_kind step)), sp_executor = keepText (Some (st_executor step)),
     sp_toolName = keepText (st_toolName step), sp_approvalRequirementId = keepText (st_approvalRequirementId step),
     sp_expectedOutput = keepText (st_expectedOutput step)\<rparr>"

definition mapSchemaPlanStepsToStorage :: "PlanStep list \<Rightarrow> StoragePlanStep list" where
  "mapSchemaPlanStepsToStorage steps = map mapSchemaPlanStepToStorage steps"

definition mapStoragePlanStepToSchema :: "StoragePlanStep \<Rightarrow> PlanStep" where
  "mapStoragePlanStepToSchema step = \<lparr>st_id = sp_stepId step, st_kind = nullish (sp_kind step) ''agent_task'',
     st_title = sp_description step, st_description = sp_description step,
     st_executor = nullish (sp_executor step) ''agent_kernel'',
     st_toolName = keepText (sp_toolName step),
     st_dependsOn = map_option (map (\<lambda>i. \<lparr>dep_type = ''depends_on'', targetStepId = i, dep_description = None\<rparr>))
       (keepList (sp_dependencies step)),
     st_approvalRequirementId = keepText (sp_approvalRequirementId step),
     st_expectedOutput = keepText (sp_expectedOutput step), st_outOfScope = None, st_retryPolicy = None\<rparr>"

definition mapStoragePlanStepsToSchema :: "StoragePlanStep list \<Rightarrow> PlanStep list" where
  "mapStoragePlanStepsToSchema steps = map mapStoragePlanStepToSchema steps"

section \<open>The replan policy\<close>

datatype ReplanReason = ToolFailed | ApprovalRejected | UserModifiedGoal | DependencyMissing | PlanTimeout | ContextChanged

datatype ReplanAction = Replan | Terminate | WaitForUser

record ReplanDecision =
  rd_action :: ReplanAction
  rd_reason :: ReplanReason
  rd_userVisibleMessage :: string
  rd_preserveCompletedSteps :: bool
  rd_excludedStepIds :: "string list option"

record ReplanOptions =
  hasAlternativePaths :: bool
  ro_isRetryable :: bool
  completedStepIds :: "string list"

definition buildReplan :: "ReplanReason \<Rightarrow> string \<Rightarrow> bool \<Rightarrow> string list option \<Rightarrow> ReplanDecision" where
  "buildReplan reason message preserve excluded = \<lparr>rd_action = Replan, rd_reason = reason, rd_userVisibleMessage = message,
     rd_preserveCompletedSteps = preserve, rd_excludedStepIds = excluded\<rparr>"

definition buildTerminate :: "ReplanReason \<Rightarrow> string \<Rightarrow> ReplanDecision" where
  "buildTerminate reason message = \<lparr>rd_action = Terminate, rd_reason = reason, rd_userVisibleMessage = message,
     rd_preserveCompletedSteps = False, rd_excludedStepIds = None\<rparr>"

definition buildWaitForUser :: "ReplanReason \<Rightarrow> string \<Rightarrow> ReplanDecision" where
  "buildWaitForUser reason message = \<lparr>rd_action = WaitForUser, rd_reason = reason, rd_userVisibleMessage = message,
     rd_preserveCompletedSteps = False, rd_excludedStepIds = None\<rparr>"

definition decide :: "ReplanReason \<Rightarrow> ReplanOptions \<Rightarrow> ReplanDecision" where
  "decide reason options = (case reason of
     ApprovalRejected \<Rightarrow>
       if hasAlternativePaths options
       then buildReplan ApprovalRejected ''Approval was rejected. Replanning with alternative paths.'' True None
       else buildTerminate ApprovalRejected ''Approval was rejected and no alternative paths exist. Terminating plan execution.''
   | UserModifiedGoal \<Rightarrow> buildReplan UserModifiedGoal ''User modified the goal. Replanning to accommodate updated goal.'' True None
   | ToolFailed \<Rightarrow>
       if ro_isRetryable options
       then buildReplan ToolFailed ''Tool execution failed but is retryable. Replanning with retry.'' True None
       else buildTerminate ToolFailed ''Tool execution failed and is not retryable. Terminating plan execution.''
   | DependencyMissing \<Rightarrow> buildReplan DependencyMissing ''A required dependency is missing. Replanning with excluded dependency steps.''
       True (Some (completedStepIds options))
   | PlanTimeout \<Rightarrow> buildWaitForUser PlanTimeout ''Plan execution timed out. Waiting for user input on how to proceed.''
   | ContextChanged \<Rightarrow> buildReplan ContextChanged ''Execution context has changed. Replanning to adapt to new context.'' True None)"

section \<open>Correctness of the cycle search\<close>

definition depGraph :: "(string, PlanStep) jsmap \<Rightarrow> (string \<times> string) set" where
  "depGraph stepIds = {(i, j). j \<in> set (stepTargets stepIds i)}"

definition isWalk :: "(string, PlanStep) jsmap \<Rightarrow> string list \<Rightarrow> bool" where
  "isWalk stepIds = successively (\<lambda>i j. j \<in> set (stepTargets stepIds i))"

definition isCycle :: "(string, PlanStep) jsmap \<Rightarrow> string list \<Rightarrow> bool" where
  "isCycle stepIds c = (length c \<ge> 2 \<and> hd c = last c \<and> isWalk stepIds c)"

text \<open>A list of steps in which every dependency of a step comes before it.\<close>

definition topo :: "(string, PlanStep) jsmap \<Rightarrow> string list \<Rightarrow> bool" where
  "topo stepIds ord = (\<forall>k < length ord. set (stepTargets stepIds (ord ! k)) \<subseteq> set (take k ord))"

lemma topo_Nil [simp]: "topo g []"
  by (simp add: topo_def)

lemma topo_snoc: "topo g (ord @ [i]) \<longleftrightarrow> topo g ord \<and> set (stepTargets g i) \<subseteq> set ord"
  by (auto simp: topo_def nth_append less_Suc_eq split: if_splits)

lemma isWalk_drop: "isWalk g (xs @ ys) \<Longrightarrow> isWalk g ys"
  by (simp add: isWalk_def successively_append_iff)

lemma cyclePathOf_isCycle:
  assumes "i \<in> set path" "isWalk g (path @ [i])"
  shows "isCycle g (cyclePathOf i path)"
proof -
  obtain a b where ab: "path = a @ i # b" "i \<notin> set a" using split_list_first [OF assms(1)] by blast
  then have "dropWhile (\<lambda>j. j \<noteq> i) path = i # b" by (auto simp: dropWhile_append)
  moreover have "isWalk g ((i # b) @ [i])" using assms(2) ab isWalk_drop [of g a "(i # b) @ [i]"] by simp
  ultimately show ?thesis using assms(1) by (simp add: isCycle_def cyclePathOf_def)
qed

lemma isWalk_trancl: "isWalk g (i # xs) \<Longrightarrow> xs \<noteq> [] \<Longrightarrow> (i, last xs) \<in> (depGraph g)\<^sup>+"
proof (induction xs arbitrary: i)
  case Nil
  then show ?case by simp
next
  case (Cons j xs)
  then have e: "(i, j) \<in> depGraph g" by (simp add: isWalk_def depGraph_def)
  show ?case
  proof (cases "xs = []")
    case True
    then show ?thesis using e by auto
  next
    case False
    then have "(j, last xs) \<in> (depGraph g)\<^sup>+" using Cons by (simp add: isWalk_def)
    then show ?thesis using e False by (simp add: trancl_into_trancl2)
  qed
qed

lemma isCycle_not_acyclic: "isCycle g c \<Longrightarrow> \<not> acyclic (depGraph g)"
  using isWalk_trancl [of g "hd c" "tl c"]
  by (cases c) (auto simp: isCycle_def acyclic_def split: if_splits)

lemma topo_trancl:
  assumes "topo g ord" "(i, j) \<in> (depGraph g)\<^sup>+" "k < length ord" "ord ! k = i"
  shows "j \<in> set (take k ord)"
  using assms(2-4)
proof (induction rule: trancl_induct)
  case (base j)
  then show ?case using assms(1) by (auto simp: topo_def depGraph_def)
next
  case (step j j')
  then obtain m where m: "m < k" "ord ! m = j" "m < length ord" by (auto simp: in_set_conv_nth)
  then have "j' \<in> set (take m ord)" using step.hyps(2) assms(1) by (auto simp: topo_def depGraph_def)
  moreover have "set (take m ord) \<subseteq> set (take k ord)" using m(1) by (simp add: set_take_subset_set_take)
  ultimately show ?case by blast
qed

lemma topo_acyclic:
  assumes "topo g ord" "distinct ord" and dom: "\<forall>i. stepTargets g i \<noteq> [] \<longrightarrow> i \<in> set ord"
  shows "acyclic (depGraph g)"
proof (rule acyclicI, safe)
  fix i assume c: "(i, i) \<in> (depGraph g)\<^sup>+"
  then obtain j where "(i, j) \<in> depGraph g" by (meson tranclD)
  then have "stepTargets g i \<noteq> []" by (auto simp: depGraph_def)
  then have "i \<in> set ord" using dom by blast
  then obtain k where k: "k < length ord" "ord ! k = i" by (auto simp: in_set_conv_nth)
  from topo_trancl [OF assms(1) c k] obtain m where "m < k" "ord ! m = i" by (auto simp: in_set_conv_nth)
  then show False using k assms(2) by (auto simp: distinct_conv_nth)
qed

text \<open>
  The invariant of the search: \<open>ord\<close> lists the black steps in the order they were finished, which is a
  topological order; the gray steps are those on the path.
\<close>

definition searched :: "(string, PlanStep) jsmap \<Rightarrow> (string, color) jsmap \<Rightarrow> string list \<Rightarrow> bool" where
  "searched g colors ord = (distinct ord \<and> topo g ord \<and> (\<forall>j. mapGet colors j = Some BLACK \<longleftrightarrow> j \<in> set ord))"

definition grays :: "(string, color) jsmap \<Rightarrow> string set" where
  "grays colors = {j. mapGet colors j = Some GRAY}"

lemma grays_mapSet: "grays (mapSet i c colors) = (if c = GRAY then insert i (grays colors) else grays colors - {i})"
  by (auto simp: grays_def)

lemma searched_gray: "searched g colors ord \<Longrightarrow> mapGet colors i \<noteq> Some BLACK \<Longrightarrow> searched g (mapSet i GRAY colors) ord"
  by (auto simp: searched_def)

lemma searched_finish:
  "searched g colors ord \<Longrightarrow> mapGet colors i = Some GRAY \<Longrightarrow> set (stepTargets g i) \<subseteq> set ord \<Longrightarrow>
   searched g (mapSet i BLACK colors) (ord @ [i])"
  unfolding searched_def by (auto simp: topo_snoc) (metis color.distinct(5) option.inject)

text \<open>A coloured step stays coloured.\<close>

lemma dfs_keeps_keys:
  "mapHas colors j \<Longrightarrow> mapHas (fst (snd (dfs g i colors path))) j"
  "mapHas colors j \<Longrightarrow> mapHas (fst (snd (dfsDeps g deps colors path))) j"
proof (induction g i colors path and g deps colors path rule: dfs_dfsDeps.induct)
  case (1 g i colors path)
  then show ?case by (auto simp: dfs.simps mapHas_def split: prod.splits option.splits)
next
  case (3 g target deps colors path)
  then show ?case by (auto split: prod.splits option.splits)
qed simp

text \<open>What a call returns: a genuine cycle, or the same path with more steps finished.\<close>

definition searchResult ::
  "(string, PlanStep) jsmap \<Rightarrow> string list \<Rightarrow> (string, color) jsmap \<Rightarrow> string list \<Rightarrow> string list \<Rightarrow>
   string list option \<times> (string, color) jsmap \<times> string list \<Rightarrow> bool" where
  "searchResult g targets colors path ord r = (case r of
     (Some c, _) \<Rightarrow> isCycle g c
   | (None, colors', path') \<Rightarrow> path' = path \<and> grays colors' = grays colors \<and>
       (\<exists>ext. searched g colors' (ord @ ext) \<and> set targets \<subseteq> set (ord @ ext)))"

lemma dfs_correct:
  "searched g colors ord \<Longrightarrow> grays colors \<subseteq> set path \<Longrightarrow> isWalk g (path @ [i]) \<Longrightarrow>
     searchResult g [i] colors path ord (dfs g i colors path)"
  "searched g colors ord \<Longrightarrow> grays colors \<subseteq> set path \<Longrightarrow> isWalk g path \<Longrightarrow> path \<noteq> [] \<Longrightarrow>
     set deps \<subseteq> set (stepTargets g (last path)) \<Longrightarrow>
     searchResult g deps colors path ord (dfsDeps g deps colors path)"
proof (induction g i colors path and g deps colors path arbitrary: ord and ord rule: dfs_dfsDeps.induct)
  case (1 g i colors path)
  consider (gray) "mapGet colors i = Some GRAY" | (black) "mapGet colors i = Some BLACK"
    | (white) "mapGet colors i \<noteq> Some GRAY" "mapGet colors i \<noteq> Some BLACK" by blast
  then show ?case
  proof cases
    case gray
    then have "i \<in> set path" using 1(3) by (auto simp: grays_def)
    then show ?thesis using gray cyclePathOf_isCycle 1(4) by (simp add: dfs.simps searchResult_def)
  next
    case black
    then have "i \<in> set (ord @ [])" using 1(2) by (simp add: searched_def)
    then show ?thesis using black 1(2) by (simp add: dfs.simps searchResult_def exI [of _ "[]"])
  next
    case white
    have pre: "searched g (mapSet i GRAY colors) ord" "grays (mapSet i GRAY colors) \<subseteq> set (path @ [i])"
      using 1(2,3) white by (auto simp: searched_gray grays_mapSet)
    have res: "searchResult g (stepTargets g i) (mapSet i GRAY colors) (path @ [i]) ord
        (dfsDeps g (stepTargets g i) (mapSet i GRAY colors) (path @ [i]))"
      using 1(1) [OF white pre 1(4)] by simp
    obtain r colors' path' where run: "dfsDeps g (stepTargets g i) (mapSet i GRAY colors) (path @ [i]) = (r, colors', path')"
      by (metis prod_cases3)
    show ?thesis
    proof (cases r)
      case (Some c)
      then show ?thesis using res run white by (simp add: dfs.simps searchResult_def)
    next
      case None
      then obtain ext where ext: "path' = path @ [i]" "grays colors' = insert i (grays colors)"
          "searched g colors' (ord @ ext)" "set (stepTargets g i) \<subseteq> set (ord @ ext)"
        using res run by (auto simp: searchResult_def grays_mapSet)
      then have "searched g (mapSet i BLACK colors') ((ord @ ext) @ [i])"
        by (intro searched_finish) (auto simp: grays_def)
      then have "\<exists>ext. searched g (mapSet i BLACK colors') (ord @ ext) \<and> set [i] \<subseteq> set (ord @ ext)"
        by (intro exI [of _ "ext @ [i]"]) simp
      moreover have "grays (mapSet i BLACK colors') = grays colors"
        using ext(2) white(1) by (auto simp: grays_mapSet grays_def)
      ultimately show ?thesis using run None white ext(1) by (simp add: dfs.simps searchResult_def)
    qed
  qed
next
  case (2 g colors path)
  then show ?case by (auto simp: searchResult_def intro: exI [of _ "[]"])
next
  case (3 g target deps colors path)
  have "isWalk g (path @ [target])"
    using 3(5,6,7) by (auto simp: isWalk_def successively_append_iff)
  then have res: "searchResult g [target] colors path ord (dfs g target colors path)"
    using 3(1) [OF 3(3,4)] by simp
  obtain r colors' path' where run: "dfs g target colors path = (r, colors', path')" by (metis prod_cases3)
  show ?case
  proof (cases r)
    case (Some c)
    then show ?thesis using res run by (simp add: searchResult_def)
  next
    case None
    then obtain ext where ext: "path' = path" "grays colors' = grays colors" "searched g colors' (ord @ ext)"
        "target \<in> set (ord @ ext)"
      using res run by (auto simp: searchResult_def)
    have "searchResult g deps colors' path (ord @ ext) (dfsDeps g deps colors' path)"
      using 3(2) [OF run [symmetric] None refl, of "ord @ ext"] ext 3(4-7) by simp
    then show ?thesis using run None ext(1,2,4)
      by (auto simp: searchResult_def split: prod.splits option.splits) (metis UnCI append.assoc set_append)+
  qed
qed

lemma detectLoop_correct:
  "searched g colors ord \<Longrightarrow> grays colors = {} \<Longrightarrow>
   (\<forall>s \<in> set steps. mapGet colors (st_id s) \<noteq> None) \<Longrightarrow>
   (case detectLoop g steps colors of
      Some c \<Rightarrow> isCycle g c
    | None \<Rightarrow> \<exists>ord'. distinct ord' \<and> topo g ord' \<and> set ord \<subseteq> set ord' \<and> st_id ` set steps \<subseteq> set ord')"
proof (induction steps arbitrary: colors ord)
  case Nil
  then show ?case by (auto simp: searched_def)
next
  case (Cons step steps)
  let ?i = "st_id step"
  show ?case
  proof (cases "mapGet colors ?i = Some WHITE")
    case True
    obtain r colors' path' where run: "dfs g ?i colors [] = (r, colors', path')" by (metis prod_cases3)
    have res: "searchResult g [?i] colors [] ord (r, colors', path')"
      using dfs_correct(1) [OF Cons.prems(1), of "[]" ?i] Cons.prems(2) run by (simp add: isWalk_def)
    show ?thesis
    proof (cases r)
      case (Some c)
      then show ?thesis using res run True by (simp add: searchResult_def)
    next
      case None
      then obtain ext where ext: "grays colors' = {}" "searched g colors' (ord @ ext)" "?i \<in> set (ord @ ext)"
        using res Cons.prems(2) by (auto simp: searchResult_def)
      have "\<forall>s \<in> set steps. mapGet colors' (st_id s) \<noteq> None"
        using Cons.prems(3) dfs_keeps_keys(1) [of colors _ g ?i "[]"] run by (auto simp: mapHas_def)
      from Cons.IH [OF ext(2,1) this] show ?thesis
        using True run None ext(3) by (auto split: option.splits)
    qed
  next
    case False
    have "mapGet colors ?i = Some BLACK"
    proof -
      obtain c where "mapGet colors ?i = Some c" using Cons.prems(3) by auto
      then show ?thesis using False Cons.prems(2) by (cases c) (auto simp: grays_def)
    qed
    then have "?i \<in> set ord" using Cons.prems(1) by (auto simp: searched_def)
    then show ?thesis using Cons.IH [OF Cons.prems(1,2)] Cons.prems(3) False by (auto split: option.splits)
  qed
qed

lemma stepMap_fold_get: "mapGet (fold (\<lambda>s m. mapSet (st_id s) s m) steps m) i = (case find (\<lambda>s. st_id s = i) (rev steps) of
    None \<Rightarrow> mapGet m i | Some s \<Rightarrow> Some s)"
  by (induction steps arbitrary: m) (auto split: option.splits simp: find_append)

lemma whiteColors_get: "mapGet (whiteColors steps) i = (if i \<in> st_id ` set steps then Some WHITE else None)"
proof -
  have "mapGet (fold (\<lambda>s m. mapSet (st_id s) WHITE m) steps m) i = (if i \<in> st_id ` set steps then Some WHITE else mapGet m i)" for m
    by (induction steps arbitrary: m) auto
  then show ?thesis by (simp add: whiteColors_def)
qed

lemma stepMap_get: "mapGet (stepMap steps) i = find (\<lambda>s. st_id s = i) (rev steps)"
  by (simp add: stepMap_def stepMap_fold_get split: option.split)

lemma stepTargets_step: "stepTargets (stepMap steps) i \<noteq> [] \<Longrightarrow> i \<in> st_id ` set steps"
  by (auto simp: stepTargets_def stepMap_get dest!: find_Some_in split: option.splits)

lemma detectLoop_start:
  "case detectLoop (stepMap steps) steps (whiteColors steps) of
     Some c \<Rightarrow> isCycle (stepMap steps) c
   | None \<Rightarrow> \<exists>ord. distinct ord \<and> topo (stepMap steps) ord \<and> st_id ` set steps \<subseteq> set ord"
  using detectLoop_correct [of "stepMap steps" "whiteColors steps" "[]" steps]
  by (auto simp: searched_def grays_def whiteColors_get split: option.splits)

lemma detectLoop_None_iff:
  "detectLoop (stepMap steps) steps (whiteColors steps) = None \<longleftrightarrow> acyclic (depGraph (stepMap steps))"
proof (cases "detectLoop (stepMap steps) steps (whiteColors steps)")
  case None
  then obtain ord where "distinct ord" "topo (stepMap steps) ord" "st_id ` set steps \<subseteq> set ord"
    using detectLoop_start [of steps] by auto
  then have "acyclic (depGraph (stepMap steps))" by (intro topo_acyclic) (auto dest!: stepTargets_step)
  then show ?thesis using None by simp
next
  case (Some c)
  then show ?thesis using detectLoop_start [of steps] isCycle_not_acyclic by auto
qed

text \<open>
  The depth-first cycle search is exact and always returns: \<open>detectCycles\<close> reports nothing precisely
  when the dependency graph of the steps (the last step winning among equal ids, as in the source's map) is
  acyclic, and otherwise its message spells out a closed walk along dependencies.
\<close>

theorem detectCycles_exact:
  "case detectCycles steps of
     None \<Rightarrow> acyclic (depGraph (stepMap steps))
   | Some e \<Rightarrow> \<not> acyclic (depGraph (stepMap steps)) \<and> iss_code e = ''CIRCULAR_DEPENDENCY'' \<and>
       (\<exists>c. isCycle (stepMap steps) c \<and> iss_message e = ''Circular dependency detected: '' @ joinArrow c)"
proof (cases "detectLoop (stepMap steps) steps (whiteColors steps)")
  case None
  then show ?thesis using detectLoop_None_iff [of steps] by (simp add: detectCycles_def)
next
  case (Some c)
  then have "isCycle (stepMap steps) c" using detectLoop_start [of steps] by simp
  then show ?thesis using Some detectLoop_None_iff [of steps] by (auto simp: detectCycles_def)
qed

section \<open>What a valid plan guarantees\<close>

definition depsOf :: "PlanStep \<Rightarrow> PlanDependency list" where
  "depsOf step = nullish (st_dependsOn step) []"

text \<open>The validator's requirements on one step, stated on their own.\<close>

definition wellFormedStep :: "PlanValidatorDeps \<Rightarrow> PlanStep list \<Rightarrow> PlanStep \<Rightarrow> bool" where
  "wellFormedStep deps steps step \<longleftrightarrow>
     st_kind step \<in> set VALID_STEP_KINDS \<and> st_executor step \<in> set VALID_EXECUTORS \<and>
     (st_kind step = ''tool_call'' \<longrightarrow> truthy (st_toolName step) \<and>
        (requiresApproval deps (the (st_toolName step)) \<longrightarrow> truthy (st_approvalRequirementId step))) \<and>
     (truthy (st_toolName step) \<longrightarrow> hasTool deps (the (st_toolName step))) \<and>
     (\<forall>d \<in> set (depsOf step). targetStepId d \<in> st_id ` set steps)"

lemma duplicateErrors_Nil: "duplicateErrors seen ids = [] \<longleftrightarrow> distinct ids \<and> set ids \<inter> set seen = {}"
  by (induction seen ids rule: duplicateErrors.induct) auto

lemma stepErrors_Nil: "stepErrors deps (map st_id steps) step = [] \<longleftrightarrow> wellFormedStep deps steps step"
  unfolding stepErrors_def wellFormedStep_def toolErrors_def dependencyErrors_def depsOf_def nullish_def Let_def
  by (auto simp: filter_empty_conv split: option.splits if_splits)

lemma distinct_lookup:
  assumes "distinct (map st_id steps)" "s \<in> set steps"
  shows "mapGet (stepMap steps) (st_id s) = Some s"
proof -
  obtain t where t: "find (\<lambda>t. st_id t = st_id s) (rev steps) = Some t"
    using assms(2) by (cases "find (\<lambda>t. st_id t = st_id s) (rev steps)") (auto simp: find_None_iff)
  then have "t \<in> set steps" "st_id t = st_id s" by (auto dest!: find_Some_in)
  then have "t = s" using assms by (auto simp: distinct_map dest: inj_onD)
  then show ?thesis using t by (simp add: stepMap_get)
qed

lemma stepTargets_lookup:
  "distinct (map st_id steps) \<Longrightarrow> s \<in> set steps \<Longrightarrow> stepTargets (stepMap steps) (st_id s) = map targetStepId (depsOf s)"
  by (simp add: stepTargets_def distinct_lookup depsOf_def nullish_def split: option.split)

lemma depGraph_distinct:
  assumes "distinct (map st_id steps)"
  shows "depGraph (stepMap steps) = {(st_id s, targetStepId d) | s d. s \<in> set steps \<and> d \<in> set (depsOf s)}"
proof -
  have "\<exists>s \<in> set steps. i = st_id s" if "j \<in> set (stepTargets (stepMap steps) i)" for i j
    using stepTargets_step [of steps i] that by fastforce
  then show ?thesis
    using stepTargets_lookup [OF assms] by (fastforce simp: depGraph_def)
qed

lemma detectCycles_None: "detectCycles steps = None \<longleftrightarrow> acyclic (depGraph (stepMap steps))"
  by (simp add: detectCycles_def detectLoop_None_iff [symmetric] split: option.split)

lemma validate_iff:
  "vr_valid (validate deps plan) \<longleftrightarrow> trim (pl_id plan) \<noteq> [] \<and> trim (pl_goal plan) \<noteq> [] \<and> pl_steps plan \<noteq> [] \<and>
     distinct (map st_id (pl_steps plan)) \<and> (\<forall>s \<in> set (pl_steps plan). wellFormedStep deps (pl_steps plan) s) \<and>
     detectCycles (pl_steps plan) = None"
  by (auto simp: validate_def Let_def planErrors_def duplicateErrors_Nil stepErrors_Nil split: option.splits)

text \<open>
  The validator accepts a plan exactly when the plan is well formed: it has an id, a goal and steps with
  distinct ids; every step has a known kind and executor, names only registered tools and existing
  dependencies; every tool call names a tool, and carries an approval requirement when the tool writes,
  deletes or is risky; and the dependency relation has no cycle.
\<close>

theorem validate_exact:
  "vr_valid (validate deps plan) \<longleftrightarrow> trim (pl_id plan) \<noteq> [] \<and> trim (pl_goal plan) \<noteq> [] \<and> pl_steps plan \<noteq> [] \<and>
     distinct (map st_id (pl_steps plan)) \<and> list_all (wellFormedStep deps (pl_steps plan)) (pl_steps plan) \<and>
     acyclic {(st_id s, targetStepId d) | s d. s \<in> set (pl_steps plan) \<and> d \<in> set (depsOf s)}"
  by (auto simp: validate_iff detectCycles_None depGraph_distinct list_all_iff)

text \<open>Executing steps in a given order: the dependencies of each step have already run.\<close>

fun depsMet :: "string list \<Rightarrow> PlanStep list \<Rightarrow> bool" where
  "depsMet finished [] = True"
| "depsMet finished (s # steps) =
     (list_all (\<lambda>d. targetStepId d \<in> set finished) (depsOf s) \<and> depsMet (st_id s # finished) steps)"

lemma depsMet_topo:
  assumes "distinct (map st_id steps)" "\<forall>s \<in> set steps. \<forall>d \<in> set (depsOf s). targetStepId d \<in> st_id ` set steps"
  shows "\<forall>k < length ord. set (stepTargets (stepMap steps) (ord ! k)) \<subseteq> set finished \<union> set (take k ord) \<Longrightarrow>
     depsMet finished (map (the \<circ> mapGet (stepMap steps)) (filter (\<lambda>i. i \<in> st_id ` set steps) ord))"
proof (induction ord arbitrary: finished)
  case Nil
  then show ?case by simp
next
  case (Cons i ord)
  have tail: "set (stepTargets (stepMap steps) (ord ! k)) \<subseteq> set (i # finished) \<union> set (take k ord)" if "k < length ord" for k
    using Cons.prems [rule_format, of "Suc k"] that by auto
  show ?case
  proof (cases "i \<in> st_id ` set steps")
    case True
    then obtain s where s: "s \<in> set steps" "i = st_id s" by auto
    then have "set (map targetStepId (depsOf s)) \<subseteq> set finished"
      using Cons.prems [rule_format, of 0] stepTargets_lookup [OF assms(1) s(1)] by simp
    then show ?thesis
      using True s Cons.IH [of "i # finished"] tail distinct_lookup [OF assms(1) s(1)] by (auto simp: list_all_iff)
  next
    case False
    have "i \<notin> set (stepTargets (stepMap steps) j)" for j
      using False assms stepTargets_lookup [OF assms(1)] stepTargets_step [of steps j] by fastforce
    then have "\<forall>k < length ord. set (stepTargets (stepMap steps) (ord ! k)) \<subseteq> set finished \<union> set (take k ord)"
      using tail by fastforce
    then show ?thesis using False Cons.IH by simp
  qed
qed

text \<open>
  C15: A valid plan can be executed: its steps can be arranged so that every step comes after all the steps
  it depends on.
\<close>

theorem valid_plan_executable:
  assumes "vr_valid (validate deps plan)"
  shows "\<exists>ord. mset ord = mset (pl_steps plan) \<and> depsMet [] ord"
proof -
  let ?steps = "pl_steps plan" and ?g = "stepMap (pl_steps plan)"
  have v: "distinct (map st_id ?steps)" "\<forall>s \<in> set ?steps. wellFormedStep deps ?steps s"
      "detectLoop ?g ?steps (whiteColors ?steps) = None"
    using assms by (auto simp: validate_iff detectCycles_None detectLoop_None_iff)
  then obtain ord where ord: "distinct ord" "topo ?g ord" "st_id ` set ?steps \<subseteq> set ord"
    using detectLoop_start [of ?steps] by auto
  let ?ids = "filter (\<lambda>i. i \<in> st_id ` set ?steps) ord"
  have ids: "distinct ?ids" "set ?ids = st_id ` set ?steps" using ord by auto
  have "mset ?ids = mset (map st_id ?steps)"
    by (rule set_eq_iff_mset_eq_distinct [THEN iffD1, OF ids(1) v(1)]) (use ids(2) in simp)
  then have "mset (map (the \<circ> mapGet ?g) ?ids) = mset (map (the \<circ> mapGet ?g) (map st_id ?steps))"
    by (metis mset_map)
  moreover have "map (the \<circ> mapGet ?g) (map st_id ?steps) = ?steps"
    using distinct_lookup [OF v(1)] by (simp add: map_idI)
  moreover have "depsMet [] (map (the \<circ> mapGet ?g) ?ids)"
    using v(2) ord(2) by (intro depsMet_topo [OF v(1)]) (auto simp: wellFormedStep_def topo_def)
  ultimately show ?thesis by metis
qed

definition demoStep :: "string \<Rightarrow> string \<Rightarrow> string option \<Rightarrow> string list \<Rightarrow> PlanStep" where
  "demoStep i kind tool deps = \<lparr>st_id = i, st_kind = kind, st_title = i, st_description = i, st_executor = ''tool_plane'',
     st_toolName = tool, st_dependsOn = Some (map (\<lambda>j. \<lparr>dep_type = ''depends_on'', targetStepId = j, dep_description = None\<rparr>) deps),
     st_approvalRequirementId = None, st_expectedOutput = None, st_outOfScope = None, st_retryPolicy = None\<rparr>"

definition demoPlan :: "PlanStep list \<Rightarrow> ExecutionPlan" where
  "demoPlan steps = \<lparr>pl_id = ''p'', pl_goal = ''g'', pl_assumptions = None, pl_steps = steps, pl_dependencies = None,
     pl_requiredApprovals = None, pl_successCriteria = None, pl_riskNotes = None, pl_createdAt = [], pl_updatedAt = [], pl_version = 1\<rparr>"

definition demoDeps :: PlanValidatorDeps where
  "demoDeps = \<lparr>hasTool = (\<lambda>_. True), getToolCategory = (\<lambda>t. if t = ''read'' then Some ''read'' else Some ''write''),
     riskRequiresApproval = (\<lambda>_. False)\<rparr>"

theorem valid_plan_executable_witness:
  "vr_valid (validate demoDeps (demoPlan [demoStep ''b'' ''final_response'' None [''a''], demoStep ''a'' ''tool_call'' (Some ''read'') []])) \<and>
   (\<exists>ord. mset ord = mset [demoStep ''b'' ''final_response'' None [''a''], demoStep ''a'' ''tool_call'' (Some ''read'') []] \<and> depsMet [] ord)"
proof -
  have "vr_valid (validate demoDeps (demoPlan [demoStep ''b'' ''final_response'' None [''a''], demoStep ''a'' ''tool_call'' (Some ''read'') []]))"
    by code_simp
  from valid_plan_executable [OF this] this show ?thesis by (simp add: demoPlan_def)
qed

section \<open>Stored plans\<close>

lemma keepText_simps [simp]:
  "truthy (keepText x) = truthy x" "truthy x \<Longrightarrow> keepText x = x" "keepText (keepText x) = keepText x"
  by (auto simp: keepText_def truthy_def split: option.splits)

lemma depsOf_roundtrip:
  "map targetStepId (depsOf (mapStoragePlanStepToSchema (mapSchemaPlanStepToStorage s))) = map targetStepId (depsOf s)"
  by (auto simp: depsOf_def mapStoragePlanStepToSchema_def mapSchemaPlanStepToStorage_def keepList_def nullish_def
      comp_def split: option.split)

lemma roundtrip_id [simp]: "st_id (mapStoragePlanStepToSchema (mapSchemaPlanStepToStorage s)) = st_id s"
  by (simp add: mapStoragePlanStepToSchema_def mapSchemaPlanStepToStorage_def)

lemma wellFormed_roundtrip:
  assumes "wellFormedStep deps steps s"
  shows "wellFormedStep deps (map (mapStoragePlanStepToSchema \<circ> mapSchemaPlanStepToStorage) steps)
     (mapStoragePlanStepToSchema (mapSchemaPlanStepToStorage s))"
proof -
  let ?r = "mapStoragePlanStepToSchema (mapSchemaPlanStepToStorage s)"
  have ids: "st_id ` set (map (mapStoragePlanStepToSchema \<circ> mapSchemaPlanStepToStorage) steps) = st_id ` set steps"
    by (simp add: image_image)
  have "set (map targetStepId (depsOf ?r)) = set (map targetStepId (depsOf s))" by (simp only: depsOf_roundtrip)
  then have deps: "targetStepId d \<in> targetStepId ` set (depsOf s)" if "d \<in> set (depsOf ?r)" for d using that by auto
  have kind: "st_kind ?r = st_kind s" "st_executor ?r = st_executor s"
    using assms by (auto simp: wellFormedStep_def VALID_STEP_KINDS_def VALID_EXECUTORS_def mapStoragePlanStepToSchema_def
        mapSchemaPlanStepToStorage_def keepText_def nullish_def truthy_def)
  have tool: "truthy (st_toolName ?r) = truthy (st_toolName s)" "truthy (st_toolName s) \<Longrightarrow> st_toolName ?r = st_toolName s"
      "truthy (st_approvalRequirementId ?r) = truthy (st_approvalRequirementId s)"
    by (simp_all add: mapStoragePlanStepToSchema_def mapSchemaPlanStepToStorage_def)
  show ?thesis using assms unfolding wellFormedStep_def ids kind tool(1,3) by (auto simp: tool(2) dest!: deps)
qed

text \<open>
  Storing a plan keeps it valid: when the steps of a valid plan are written in their stored form and read
  back, the plan still validates, although titles, dependency kinds and retry policies are lost on the way.
\<close>

theorem stored_plan_stays_valid:
  assumes "vr_valid (validate deps plan)"
  shows "vr_valid (validate deps (plan\<lparr>pl_steps := mapStoragePlanStepsToSchema (mapSchemaPlanStepsToStorage (pl_steps plan))\<rparr>))"
proof -
  let ?f = "mapStoragePlanStepToSchema \<circ> mapSchemaPlanStepToStorage" and ?steps = "pl_steps plan"
  have steps: "mapStoragePlanStepsToSchema (mapSchemaPlanStepsToStorage ?steps) = map ?f ?steps"
    by (simp add: mapStoragePlanStepsToSchema_def mapSchemaPlanStepsToStorage_def)
  have id: "st_id (?f s) = st_id s" for s by simp
  have ids: "map st_id (map ?f ?steps) = map st_id ?steps" using id by simp
  have dis: "distinct (map st_id ?steps)" using assms by (simp add: validate_iff)
  have "stepTargets (stepMap (map ?f ?steps)) i = stepTargets (stepMap ?steps) i" for i
  proof (cases "i \<in> st_id ` set ?steps")
    case True
    then obtain s where s: "s \<in> set ?steps" "i = st_id s" by auto
    then have "stepTargets (stepMap (map ?f ?steps)) (st_id (?f s)) = map targetStepId (depsOf (?f s))"
      by (intro stepTargets_lookup) (use dis ids in \<open>simp_all del: map_map o_apply\<close>)
    then show ?thesis using s stepTargets_lookup [OF dis s(1)] depsOf_roundtrip [of s] by (simp add: id [unfolded o_apply])
  next
    case False
    then have "i \<notin> st_id ` set (map ?f ?steps)" using id by force
    then show ?thesis using False stepTargets_step by metis
  qed
  then have "depGraph (stepMap (map ?f ?steps)) = depGraph (stepMap ?steps)" by (simp add: depGraph_def)
  then show ?thesis
    using assms dis wellFormed_roundtrip [of deps ?steps] unfolding steps
    by (auto simp: validate_iff detectCycles_None comp_def)
qed

theorem stored_plan_stays_valid_witness:
  "vr_valid (validate demoDeps ((demoPlan [demoStep ''a'' ''tool_call'' (Some ''read'') []])
     \<lparr>pl_steps := mapStoragePlanStepsToSchema (mapSchemaPlanStepsToStorage [demoStep ''a'' ''tool_call'' (Some ''read'') []])\<rparr>))"
proof -
  have "vr_valid (validate demoDeps (demoPlan [demoStep ''a'' ''tool_call'' (Some ''read'') []]))" by code_simp
  from stored_plan_stays_valid [OF this] show ?thesis by (simp add: demoPlan_def)
qed

end
