(* ===== verification/Plan_Generation.thy ===== *)
theory Plan_Generation
  imports Plan_Validation "HOL-Library.Word"
begin

text \<open>
  How plans come to be: the normalisation of a model's JSON answer (\<open>planner/llm-plan-adapter.ts\<close>), the
  deterministic generator (\<open>planner/deterministic-plan-generator.ts\<close>) and the generator that asks a model
  at most twice and falls back (\<open>planner/llm-plan-generator.ts\<close>).

  Arguments: the model adapter (one answer per call, or an exception), the tool classifier, the time stamps.
  Parsing the model's text into a JSON value is not modelled; normalisation starts from the value. Goals are
  Latin-1 strings, so the Chinese keywords of \<open>WRITE_KEYWORDS\<close> cannot occur and are left out; the CJK test is
  kept as it is written.
\<close>

section \<open>Normalising a model's answer\<close>

datatype json = JNull | JBool bool | JNum int | JStr string | JArr "json list" | JObj "(string \<times> json) list"

definition isRecord :: "json \<Rightarrow> bool" where
  "isRecord v = (case v of JObj _ \<Rightarrow> True | _ \<Rightarrow> False)"

text \<open>Property access; an absent property is \<open>undefined\<close>.\<close>

definition field :: "json \<Rightarrow> string \<Rightarrow> json option" where
  "field v k = (case v of JObj kvs \<Rightarrow> map_of kvs k | _ \<Rightarrow> None)"

text \<open>\<open>typeof x === 'string' ? x : undefined\<close>, and the variant that trims and drops blank text.\<close>

definition textProp :: "json \<Rightarrow> string \<Rightarrow> string option" where
  "textProp v k = (case field v k of Some (JStr s) \<Rightarrow> Some s | _ \<Rightarrow> None)"

definition trimmedProp :: "json \<Rightarrow> string \<Rightarrow> string option" where
  "trimmedProp v k = (case textProp v k of Some s \<Rightarrow> if trim s = [] then None else Some (trim s) | None \<Rightarrow> None)"

definition arrayProp :: "json \<Rightarrow> string \<Rightarrow> json list option" where
  "arrayProp v k = (case field v k of Some (JArr xs) \<Rightarrow> Some xs | _ \<Rightarrow> None)"

definition normalizeDependency :: "json \<Rightarrow> PlanDependency list" where
  "normalizeDependency d =
     (if \<not> isRecord d then []
      else (let target = nullish (textProp d ''targetStepId'') [] in
            if target = [] then []
            else [\<lparr>dep_type = nullish (textProp d ''type'') ''depends_on'', targetStepId = target, dep_description = None\<rparr>]))"

definition normalizeStep :: "json \<Rightarrow> PlanStep option" where
  "normalizeStep raw =
     (if \<not> isRecord raw then None
      else (case (trimmedProp raw ''id'', trimmedProp raw ''title'') of
          (Some i, Some title) \<Rightarrow>
            Some \<lparr>st_id = i, st_kind = nullish (textProp raw ''kind'') ''agent_task'', st_title = title,
              st_description = nullish (trimmedProp raw ''description'') title,
              st_executor = nullish (textProp raw ''executor'') ''agent_kernel'',
              st_toolName = keepText (textProp raw ''toolName''),
              st_dependsOn = keepList (map_option (\<lambda>ds. concat (map normalizeDependency ds)) (arrayProp raw ''dependsOn'')),
              st_approvalRequirementId = None,
              st_expectedOutput = trimmedProp raw ''expectedOutput'',
              st_outOfScope = trimmedProp raw ''outOfScope'', st_retryPolicy = None\<rparr>
        | _ \<Rightarrow> None))"

definition textItems :: "json \<Rightarrow> string \<Rightarrow> string list option" where
  "textItems raw k = keepList (map_option
     (\<lambda>xs. concat (map (\<lambda>x. case x of JStr s \<Rightarrow> if length (trim s) > 0 then [s] else [] | _ \<Rightarrow> []) xs)) (arrayProp raw k))"

definition normalizeExecutionPlan :: "string \<Rightarrow> string \<Rightarrow> json \<Rightarrow> ExecutionPlan option" where
  "normalizeExecutionPlan now nowBase36 raw =
     (if \<not> isRecord raw then None
      else (case trimmedProp raw ''goal'' of
          None \<Rightarrow> None
        | Some goal \<Rightarrow>
            (let rawSteps = nullish (arrayProp raw ''steps'') []; steps = List.map_filter normalizeStep rawSteps in
             if rawSteps = [] then None
             else if steps = [] then None
             else if \<not> distinct (map st_id steps) then None
             else Some \<lparr>pl_id = nullish (trimmedProp raw ''id'') (''plan_'' @ nowBase36), pl_goal = goal,
               pl_assumptions = textItems raw ''assumptions'', pl_steps = steps, pl_dependencies = None,
               pl_requiredApprovals = None, pl_successCriteria = textItems raw ''successCriteria'',
               pl_riskNotes = textItems raw ''riskNotes'', pl_createdAt = now, pl_updatedAt = now, pl_version = 1\<rparr>)))"

section \<open>The deterministic generator\<close>

text \<open>The 32-bit string hash: \<open>hash = (hash << 5) - hash + chr; hash |= 0\<close>.\<close>

definition hashStep :: "char \<Rightarrow> 32 word \<Rightarrow> 32 word" where
  "hashStep c hash = push_bit 5 hash - hash + of_nat (of_char c)"

definition hashOf :: "string \<Rightarrow> 32 word" where
  "hashOf s = fold hashStep s 0"

definition hexDigit :: "nat \<Rightarrow> char" where
  "hexDigit n = (if n < 10 then char_of (48 + n) else char_of (87 + n))"

fun hex_str :: "nat \<Rightarrow> string" where
  "hex_str n = (if n < 16 then [hexDigit n] else hex_str (n div 16) @ [hexDigit (n mod 16)])"

declare hex_str.simps [simp del]

definition generateDeterministicId :: "string \<Rightarrow> string \<Rightarrow> nat \<Rightarrow> string" where
  "generateDeterministicId goal prefix index =
     prefix @ take 8 (hex_str (nat \<bar>sint (hashOf (goal @ prefix @ nat_str index))\<bar>))"

definition WRITE_KEYWORDS :: "string list" where
  "WRITE_KEYWORDS = [''write'', ''create'', ''delete'', ''remove'', ''update'', ''save'', ''modify'', ''edit'', ''send'', ''issue'']"

definition isWriteGoal :: "string \<Rightarrow> bool" where
  "isWriteGoal goal = list_ex (str_includes (toLowerCase goal)) WRITE_KEYWORDS"

definition isCjkText :: "string \<Rightarrow> bool" where
  "isCjkText text = (let trimmed = trim text;
       cjk = filter (\<lambda>c. let n = (of_char c :: nat) in (0x4E00 \<le> n \<and> n \<le> 0x9FFF) \<or> (0x3400 \<le> n \<and> n \<le> 0x4DBF)) trimmed in
     trimmed \<noteq> [] \<and> 10 * length cjk > 3 * length trimmed)"

text \<open>\<open>s.split(/\s+/).length\<close>: one more than the number of maximal runs of white space.\<close>

fun spaceRuns :: "bool \<Rightarrow> string \<Rightarrow> nat" where
  "spaceRuns inside [] = 0"
| "spaceRuns inside (c # cs) =
     (if is_space c then (if inside then 0 else 1) + spaceRuns True cs else spaceRuns False cs)"

definition isComplexGoal :: "string \<Rightarrow> bool" where
  "isComplexGoal goal =
     (if isWriteGoal goal then True
      else (let trimmed = trim goal in
            if isCjkText trimmed then length trimmed > 20 else 1 + spaceRuns False trimmed > 5))"

definition isWriteTool :: "(string \<Rightarrow> bool) option \<Rightarrow> string \<Rightarrow> bool" where
  "isWriteTool classifier t = (case classifier of None \<Rightarrow> False | Some f \<Rightarrow> f t)"

definition pickReadTool :: "string list \<Rightarrow> (string \<Rightarrow> bool) option \<Rightarrow> string" where
  "pickReadTool availableTools classifier =
     (if length availableTools = 0 then ''read_file''
      else nullish (find (\<lambda>t. \<not> isWriteTool classifier t) availableTools) (availableTools ! 0))"

definition pickWriteTool :: "string list \<Rightarrow> (string \<Rightarrow> bool) option \<Rightarrow> string option" where
  "pickWriteTool availableTools classifier =
     (if length availableTools = 0 then None else find (isWriteTool classifier) availableTools)"

definition dependsOnStep :: "PlanStep \<Rightarrow> PlanDependency list option" where
  "dependsOnStep s = Some [\<lparr>dep_type = ''depends_on'', targetStepId = st_id s, dep_description = None\<rparr>]"

definition buildToolCallStep ::
  "string \<Rightarrow> string \<Rightarrow> string \<Rightarrow> string \<Rightarrow> PlanDependency list option \<Rightarrow> string option \<Rightarrow> PlanStep" where
  "buildToolCallStep i toolName title description dependsOn approval =
     \<lparr>st_id = i, st_kind = ''tool_call'', st_title = title, st_description = description, st_executor = ''tool_plane'',
      st_toolName = Some toolName, st_dependsOn = dependsOn, st_approvalRequirementId = approval,
      st_expectedOutput = None, st_outOfScope = None, st_retryPolicy = None\<rparr>"

definition buildApprovalStep :: "string \<Rightarrow> string \<Rightarrow> string \<Rightarrow> PlanDependency list option \<Rightarrow> PlanStep" where
  "buildApprovalStep i approval reason dependsOn =
     \<lparr>st_id = i, st_kind = ''user_approval'', st_title = ''Approval Required'', st_description = reason,
      st_executor = ''foreground'', st_toolName = None, st_dependsOn = dependsOn,
      st_approvalRequirementId = Some approval, st_expectedOutput = None, st_outOfScope = None, st_retryPolicy = None\<rparr>"

definition buildFinalResponseStep :: "string \<Rightarrow> PlanDependency list option \<Rightarrow> PlanStep" where
  "buildFinalResponseStep i dependsOn =
     \<lparr>st_id = i, st_kind = ''final_response'', st_title = ''Respond to User'',
      st_description = ''Summarize results and respond to user'', st_executor = ''foreground'', st_toolName = None,
      st_dependsOn = dependsOn, st_approvalRequirementId = None, st_expectedOutput = None, st_outOfScope = None,
      st_retryPolicy = None\<rparr>"

definition nextId :: "string \<Rightarrow> nat \<Rightarrow> string" where
  "nextId goal index = generateDeterministicId goal ''step_'' index"

definition simpleSteps :: "(string \<Rightarrow> bool) option \<Rightarrow> string \<Rightarrow> string list \<Rightarrow> PlanStep list" where
  "simpleSteps classifier goal availableTools =
     (let toolName = pickReadTool availableTools classifier;
          step1 = buildToolCallStep (nextId goal 0) toolName ''Execute Query''
            (''Execute '' @ [CHR 0x22] @ toolName @ [CHR 0x22] @ '' for goal: '' @ goal) None None in
      [step1, buildFinalResponseStep (nextId goal 1) (dependsOnStep step1)])"

definition writeSteps :: "(string \<Rightarrow> bool) option \<Rightarrow> string \<Rightarrow> string list \<Rightarrow> int \<Rightarrow> PlanStep list" where
  "writeSteps classifier goal availableTools effectiveMax =
     (let step1 = buildToolCallStep (nextId goal 0) (pickReadTool availableTools classifier) ''Analyze Request''
            (''Analyze context and requirements for: '' @ goal) None None;
          approval = generateDeterministicId goal ''approval_'' 1;
          approvalStep = buildApprovalStep (nextId goal 1) approval (''Write operation requested: '' @ goal) (dependsOnStep step1);
          execStep = buildToolCallStep (nextId goal 2) (nullish (pickWriteTool availableTools classifier) ''write_file'')
            ''Execute Action'' (''Execute primary write action for: '' @ goal) (dependsOnStep approvalStep) (Some approval) in
      if effectiveMax \<ge> 4
      then [step1, approvalStep, execStep, buildFinalResponseStep (nextId goal 3) (dependsOnStep execStep)]
      else [step1, approvalStep, buildFinalResponseStep (nextId goal 2) (dependsOnStep approvalStep)])"

definition readSteps :: "(string \<Rightarrow> bool) option \<Rightarrow> string \<Rightarrow> string list \<Rightarrow> int \<Rightarrow> PlanStep list" where
  "readSteps classifier goal availableTools effectiveMax =
     (let readTool = pickReadTool availableTools classifier;
          step1 = buildToolCallStep (nextId goal 0) readTool ''Analyze Request'' (''Gather context and analyze: '' @ goal) None None;
          secondTool = (if length availableTools > 1 then availableTools ! 1 else readTool);
          step2 = buildToolCallStep (nextId goal 1) secondTool ''Execute Action'' (''Execute action for: '' @ goal)
            (dependsOnStep step1) None in
      if effectiveMax \<ge> 4 then [step1, step2, buildFinalResponseStep (nextId goal 2) (dependsOnStep step2)]
      else [step1, buildFinalResponseStep (nextId goal 1) (dependsOnStep step1)])"

definition generateSteps :: "(string \<Rightarrow> bool) option \<Rightarrow> string \<Rightarrow> string list \<Rightarrow> bool \<Rightarrow> int \<Rightarrow> PlanStep list" where
  "generateSteps classifier goal availableTools complex maxSteps =
     (let effectiveMax = max maxSteps 2; hasWriteIntent = isWriteGoal goal in
      if \<not> complex \<and> effectiveMax \<le> 2 then simpleSteps classifier goal availableTools
      else if complex \<and> hasWriteIntent \<and> effectiveMax \<ge> 3 then writeSteps classifier goal availableTools effectiveMax
      else if complex \<and> \<not> hasWriteIntent \<and> effectiveMax \<ge> 3 then readSteps classifier goal availableTools effectiveMax
      else simpleSteps classifier goal availableTools)"

fun collectApprovals :: "string list \<Rightarrow> PlanStep list \<Rightarrow> ApprovalRequirement list" where
  "collectApprovals seen [] = []"
| "collectApprovals seen (step # steps) =
     (if truthy (st_approvalRequirementId step) \<and> the (st_approvalRequirementId step) \<notin> set seen
      then \<lparr>approvalId = the (st_approvalRequirementId step),
             areq_reason = (if st_description step = [] then ''Approval required for this operation'' else st_description step),
             areq_riskLevel = ''medium'', requiredRoles = None\<rparr>
           # collectApprovals (the (st_approvalRequirementId step) # seen) steps
      else collectApprovals seen steps)"

definition generateSuccessCriteria :: "PlanStep list \<Rightarrow> string list" where
  "generateSuccessCriteria steps =
     map (\<lambda>s. nullish (st_toolName s) ''action'' @ '' completed successfully'') (filter (\<lambda>s. st_kind s = ''tool_call'') steps) @
     [''User receives clear final response'']"

definition generate :: "(string \<Rightarrow> bool) option \<Rightarrow> string \<Rightarrow> string \<Rightarrow> string list option \<Rightarrow> int option \<Rightarrow> ExecutionPlan" where
  "generate classifier now goal availableTools maxSteps =
     (let steps = generateSteps classifier goal (nullish availableTools []) (isComplexGoal goal) (nullish maxSteps 10);
          approvals = collectApprovals [] steps in
      \<lparr>pl_id = generateDeterministicId goal ''plan_'' 0, pl_goal = goal, pl_assumptions = None, pl_steps = steps,
       pl_dependencies = None, pl_requiredApprovals = (if length approvals > 0 then Some approvals else None),
       pl_successCriteria = Some (generateSuccessCriteria steps), pl_riskNotes = None,
       pl_createdAt = now, pl_updatedAt = now, pl_version = 1\<rparr>)"

section \<open>The model-backed generator\<close>

text \<open>
  \<open>adapter n\<close> is what the \<open>n\<close>-th call of \<open>generatePlan\<close> does: throw (\<open>Inl\<close>) or return a plan or \<open>null\<close>.
  The loop returns the plan, whether it passed, and the number of calls made so far.
\<close>

type_synonym plan_adapter = "nat \<Rightarrow> string + ExecutionPlan option"

definition callLLMAdapter :: "plan_adapter \<Rightarrow> nat \<Rightarrow> ExecutionPlan option" where
  "callLLMAdapter adapter n = (case adapter n of Inl _ \<Rightarrow> None | Inr plan \<Rightarrow> plan)"

function validateLoop ::
  "PlanValidatorDeps \<Rightarrow> plan_adapter \<Rightarrow> ExecutionPlan option \<Rightarrow> bool \<Rightarrow> nat \<Rightarrow> nat \<Rightarrow> ExecutionPlan option \<times> bool \<times> nat" where
  "validateLoop deps adapter plan validationPassed attempts calls =
     (if plan \<noteq> None \<and> \<not> validationPassed \<and> attempts < 2 then
        (if vr_valid (validate deps (the plan)) then validateLoop deps adapter plan True (Suc attempts) calls
         else if Suc attempts < 2 then
           validateLoop deps adapter (callLLMAdapter adapter calls) False (Suc attempts) (Suc calls)
         else validateLoop deps adapter plan False (Suc attempts) calls)
      else (plan, validationPassed, calls))"
  by pat_completeness auto
termination by (relation "measure (\<lambda>(deps, adapter, plan, passed, attempts, calls). 2 - attempts)") auto

declare validateLoop.simps [simp del]

definition generateWithLLM :: "PlanValidatorDeps \<Rightarrow> plan_adapter option \<Rightarrow> ExecutionPlan \<Rightarrow> ExecutionPlan \<times> nat" where
  "generateWithLLM deps llmAdapter fallback = (case llmAdapter of
     None \<Rightarrow> (fallback, 0)
   | Some adapter \<Rightarrow>
       (case validateLoop deps adapter (callLLMAdapter adapter 0) False 0 1 of
          (plan, validationPassed, calls) \<Rightarrow>
            if plan \<noteq> None \<and> validationPassed then (the plan, calls) else (fallback, calls)))"

section \<open>Plans from the model\<close>

lemma trim_trimmed: "trim s \<noteq> [] \<Longrightarrow> trim (trim s) \<noteq> []"
proof -
  assume "trim s \<noteq> []"
  then have "last (trim s) \<in> set (trim s)" "\<not> is_space (last (trim s))"
    unfolding trim_def by (auto simp: last_rev hd_dropWhile)
  then show ?thesis by (auto simp: trim_Nil)
qed

lemma trimmedProp_Some: "trimmedProp v k = Some s \<Longrightarrow> trim s \<noteq> []"
  by (auto simp: trimmedProp_def trim_trimmed split: option.splits if_splits)

lemma normalizeStep_Some:
  "normalizeStep raw = Some s \<Longrightarrow> trim (st_id s) \<noteq> [] \<and> trim (st_title s) \<noteq> [] \<and> st_approvalRequirementId s = None"
  by (auto simp: normalizeStep_def dest: trimmedProp_Some split: if_splits option.splits)

lemma map_filter_mem: "y \<in> set (List.map_filter f xs) \<longleftrightarrow> (\<exists>x \<in> set xs. f x = Some y)"
  by (force simp: List.map_filter_def)

lemma normalizeExecutionPlan_Some:
  assumes "normalizeExecutionPlan now b raw = Some plan"
  shows "trim (pl_id plan) \<noteq> []" "trim (pl_goal plan) \<noteq> []" "pl_steps plan \<noteq> []" "distinct (map st_id (pl_steps plan))"
    "s \<in> set (pl_steps plan) \<Longrightarrow> \<exists>r. normalizeStep r = Some s"
proof -
  have plan: "trim (''plan_'' @ b) \<noteq> []" by (simp add: trim_Nil is_space_def)
  show "trim (pl_id plan) \<noteq> []"
    using assms plan by (auto simp: normalizeExecutionPlan_def Let_def nullish_def dest: trimmedProp_Some split: if_splits option.splits)
  show "trim (pl_goal plan) \<noteq> []" "pl_steps plan \<noteq> []" "distinct (map st_id (pl_steps plan))"
    "s \<in> set (pl_steps plan) \<Longrightarrow> \<exists>r. normalizeStep r = Some s"
    using assms by (auto simp: normalizeExecutionPlan_def Let_def map_filter_mem dest: trimmedProp_Some split: if_splits option.splits)
qed

text \<open>
  C36: Whatever JSON value a model answers with, normalisation yields nothing or a well-typed plan: a non-blank
  id and goal, at least one step, distinct step ids, and a non-blank id and title for every step.
\<close>

theorem normalized_plan_typed:
  "case normalizeExecutionPlan now nowBase36 raw of
     None \<Rightarrow> True
   | Some plan \<Rightarrow> trim (pl_id plan) \<noteq> [] \<and> trim (pl_goal plan) \<noteq> [] \<and> pl_steps plan \<noteq> [] \<and>
       distinct (map st_id (pl_steps plan)) \<and>
       list_all (\<lambda>s. trim (st_id s) \<noteq> [] \<and> trim (st_title s) \<noteq> []) (pl_steps plan)"
  by (auto simp: list_all_iff dest: normalizeExecutionPlan_Some normalizeStep_Some split: option.split)

text \<open>
  A model's plan can never contain a write: normalisation drops the \<open>approvalRequirementId\<close> the output
  contract asks the model for, so every normalised plan with a tool call whose tool needs an approval is
  rejected by the validator.
\<close>

theorem model_plans_cannot_write:
  assumes "normalizeExecutionPlan now nowBase36 raw = Some plan" "s \<in> set (pl_steps plan)"
    "st_kind s = ''tool_call''" "requiresApproval deps (the (st_toolName s))"
  shows "\<not> vr_valid (validate deps plan)"
proof -
  have "st_approvalRequirementId s = None"
    using normalizeExecutionPlan_Some(5) [OF assms(1,2)] normalizeStep_Some by blast
  then have "\<not> wellFormedStep deps (pl_steps plan) s" using assms(3,4) by (simp add: wellFormedStep_def truthy_def)
  then show ?thesis using assms(2) by (auto simp: validate_iff)
qed

definition demoModelAnswer :: json where
  "demoModelAnswer = JObj [(''id'', JStr ''p''), (''goal'', JStr ''g''), (''steps'', JArr [JObj [(''id'', JStr ''a''),
     (''title'', JStr ''t''), (''kind'', JStr ''tool_call''), (''toolName'', JStr ''rm''),
     (''approvalRequirementId'', JStr ''approval_1'')]])]"

theorem model_plans_cannot_write_witness:
  "\<exists>plan. normalizeExecutionPlan ''t'' ''x'' demoModelAnswer = Some plan \<and> \<not> vr_valid (validate demoDeps plan)"
proof -
  let ?plan = "the (normalizeExecutionPlan ''t'' ''x'' demoModelAnswer)" and ?s = "hd (pl_steps (the (normalizeExecutionPlan ''t'' ''x'' demoModelAnswer)))"
  have run: "normalizeExecutionPlan ''t'' ''x'' demoModelAnswer = Some ?plan" by code_simp
  have "?s \<in> set (pl_steps ?plan)" "st_kind ?s = ''tool_call''" "requiresApproval demoDeps (the (st_toolName ?s))"
    by code_simp+
  from model_plans_cannot_write [OF run this] run show ?thesis by blast
qed

text \<open>
  The model-backed generator returns the model's first answer if it is valid, else its second answer if
  that is valid, else the deterministic plan; it never calls the model more than twice, and stops after a
  first answer that is missing or an exception.
\<close>

theorem generateWithLLM_exact:
  "generateWithLLM deps llmAdapter fallback = (case llmAdapter of
     None \<Rightarrow> (fallback, 0)
   | Some adapter \<Rightarrow> (case callLLMAdapter adapter 0 of
       None \<Rightarrow> (fallback, 1)
     | Some p0 \<Rightarrow>
         if vr_valid (validate deps p0) then (p0, 1)
         else (case callLLMAdapter adapter 1 of
             None \<Rightarrow> (fallback, 2)
           | Some p1 \<Rightarrow> if vr_valid (validate deps p1) then (p1, 2) else (fallback, 2))))"
  by (auto simp: generateWithLLM_def validateLoop.simps numeral_2_eq_2 split: option.split)

section \<open>Plans from the deterministic generator\<close>

lemma hexDigit_inj: "m < 16 \<Longrightarrow> n < 16 \<Longrightarrow> hexDigit m = hexDigit n \<Longrightarrow> m = n"
proof -
  assume "m < 16" "n < 16" "hexDigit m = hexDigit n"
  then have "(of_char (hexDigit m) :: nat) = of_char (hexDigit n)" by simp
  then show ?thesis using \<open>m < 16\<close> \<open>n < 16\<close> by (auto simp: hexDigit_def split: if_splits)
qed

lemma hex_str_snoc: "hex_str n = (if n < 16 then [] else hex_str (n div 16)) @ [hexDigit (n mod 16)]"
  by (subst hex_str.simps) auto

lemma hex_str_not_Nil [simp]: "hex_str n \<noteq> []" "[] \<noteq> hex_str n"
  by (subst hex_str_snoc, simp)+

lemma hex_str_inj: "hex_str m = hex_str n \<Longrightarrow> m = n"
proof (induction m arbitrary: n rule: hex_str.induct)
  case (1 m)
  have pre: "(if m < 16 then [] else hex_str (m div 16)) = (if n < 16 then [] else hex_str (n div 16))"
    and dig: "hexDigit (m mod 16) = hexDigit (n mod 16)"
    using 1(2) hex_str_snoc [of m] hex_str_snoc [of n] by auto
  have mods: "m mod 16 = n mod 16" by (rule hexDigit_inj [OF _ _ dig]) auto
  show ?case
  proof (cases "m < 16")
    case True
    then have "n < 16" using pre by (auto split: if_splits)
    then show ?thesis using True mods by simp
  next
    case False
    then have "\<not> n < 16" "hex_str (m div 16) = hex_str (n div 16)" using pre by (auto split: if_splits)
    then have "m div 16 = n div 16" using 1(1) False by blast
    then show ?thesis using mods by (metis div_mult_mod_eq)
  qed
qed

lemma hex_str_length: "n < 16 ^ Suc k \<Longrightarrow> length (hex_str n) \<le> Suc k"
proof (induction k arbitrary: n)
  case 0
  then show ?case by (simp add: hex_str.simps)
next
  case (Suc k)
  show ?case
  proof (cases "n < 16")
    case True
    then show ?thesis by (simp add: hex_str.simps)
  next
    case False
    have "n div 16 < 16 ^ Suc k" using Suc.prems by (simp add: less_mult_imp_div_less mult.commute)
    then show ?thesis using Suc.IH False by (subst hex_str_snoc) auto
  qed
qed

lemma abs_sint_eq: "\<bar>sint (a :: 32 word)\<bar> = \<bar>sint b\<bar> \<Longrightarrow> a = b \<or> a = - b"
proof -
  have inv: "(of_int (sint w) :: 32 word) = w" for w :: "32 word" by simp
  assume "\<bar>sint a\<bar> = \<bar>sint b\<bar>"
  then consider "sint a = sint b" | "sint a = - sint b" by (auto simp: abs_eq_iff)
  then show ?thesis
  proof cases
    case 1
    then show ?thesis using inv by metis
  next
    case 2
    then have "(of_int (sint a) :: 32 word) = - of_int (sint b)" by (simp only: of_int_minus)
    then show ?thesis using inv by metis
  qed
qed

lemma abs_sint_hex: "length (hex_str (nat \<bar>sint (a :: 32 word)\<bar>)) \<le> 8"
proof -
  have "\<bar>sint a\<bar> \<le> 2 ^ 31" using sint_ge [of a] sint_lt [of a] by (simp add: abs_le_iff)
  then have "nat \<bar>sint a\<bar> < 16 ^ Suc 7" by simp
  then have "length (hex_str (nat \<bar>sint a\<bar>)) \<le> Suc 7" by (rule hex_str_length)
  then show ?thesis by simp
qed

lemma generateDeterministicId_eq:
  "generateDeterministicId goal prefix j = generateDeterministicId goal prefix k \<Longrightarrow>
   hashOf (goal @ prefix @ nat_str j) = hashOf (goal @ prefix @ nat_str k) \<or>
   hashOf (goal @ prefix @ nat_str j) = - hashOf (goal @ prefix @ nat_str k)"
  using abs_sint_eq hex_str_inj abs_sint_hex unfolding generateDeterministicId_def
  by (metis abs_ge_zero eq_nat_nat_iff same_append_eq take_all)

lemma hashOf_digit:
  "k < 10 \<Longrightarrow> hashOf (goal @ prefix @ nat_str k) = hashOf (goal @ prefix @ ''0'') + of_nat k"
  by (simp add: hashOf_def hashStep_def nat_str.simps)

lemma double_odd: "2 * a + 1 \<noteq> (0 :: 32 word)" "2 * a + 3 \<noteq> (0 :: 32 word)" "2 * a + 5 \<noteq> (0 :: 32 word)"
proof -
  have o: "even b" if "2 * a + b = 0" for b :: "32 word"
    using that by (metis dvd_add_right_iff dvd_triv_left even_zero)
  show "2 * a + 1 \<noteq> (0 :: 32 word)" "2 * a + 3 \<noteq> (0 :: 32 word)" "2 * a + 5 \<noteq> (0 :: 32 word)"
    using o [of 1] o [of 3] o [of 5] by auto
qed

text \<open>Two of the first four step ids agree only if the hash for index 1 or 2 is \<open>0\<close> or \<open>- 2 ^ 31\<close>.\<close>

lemma nextId_distinct:
  assumes "2 * hashOf (goal @ ''step_1'') \<noteq> 0" "2 * hashOf (goal @ ''step_2'') \<noteq> 0"
  shows "distinct (map (nextId goal) [0, 1, 2, 3])"
proof -
  let ?a = "hashOf (goal @ ''step_'' @ ''0'')"
  have h: "hashOf (goal @ ''step_'' @ nat_str k) = ?a + of_nat k" if "k < 10" for k using hashOf_digit that by blast
  have digits: "nat_str 1 = ''1''" "nat_str 2 = ''2''" by code_simp+
  have ne: "2 * (?a + 1) \<noteq> 0" "2 * (?a + 2) \<noteq> 0"
    using assms h [of 1] h [of 2] by (simp_all add: digits [simplified])
  have small: "(of_nat j :: 32 word) = of_nat k \<longleftrightarrow> j = k" if "j < 10" "k < 10" for j k
    using that by (simp add: word_of_nat_eq_iff take_bit_nat_eq_self)
  have eq: "j = k \<or> 2 * ?a + of_nat (j + k) = 0"
    if "nextId goal j = nextId goal k" "j < 10" "k < 10" for j k
    using generateDeterministicId_eq [of goal "''step_''" j k] that h small [of j k]
    by (auto simp: nextId_def eq_neg_iff_add_eq_0 algebra_simps)
  show ?thesis
    using eq [of 0 1] eq [of 0 2] eq [of 0 3] eq [of 1 2] eq [of 1 3] eq [of 2 3] ne double_odd [of ?a]
    by (auto simp: algebra_simps)
qed

lemma depsMet_nth:
  "depsMet finished steps \<Longrightarrow> k < length steps \<Longrightarrow>
   set (map targetStepId (depsOf (steps ! k))) \<subseteq> set finished \<union> set (take k (map st_id steps))"
proof (induction finished steps arbitrary: k rule: depsMet.induct)
  case (2 finished s steps)
  then show ?case by (cases k) (fastforce simp: list_all_iff)+
qed simp

lemma depsMet_acyclic:
  assumes "distinct (map st_id steps)" "depsMet [] steps"
  shows "detectCycles steps = None"
proof -
  have "topo (stepMap steps) (map st_id steps)"
    using depsMet_nth [OF assms(2)] stepTargets_lookup [OF assms(1)] by (auto simp: topo_def)
  then show ?thesis
    unfolding detectCycles_None using assms(1) by (rule topo_acyclic) (use stepTargets_step in force)
qed

lemma depsMet_targets: "depsMet finished steps \<Longrightarrow> s \<in> set steps \<Longrightarrow> d \<in> set (depsOf s) \<Longrightarrow> targetStepId d \<in> set finished \<union> st_id ` set steps"
  by (induction finished steps rule: depsMet.induct) (auto simp: list_all_iff)

text \<open>What a generated step has to satisfy besides its dependencies.\<close>

definition sound_step :: "PlanValidatorDeps \<Rightarrow> PlanStep \<Rightarrow> bool" where
  "sound_step deps s = (st_kind s \<in> set VALID_STEP_KINDS \<and> st_executor s \<in> set VALID_EXECUTORS \<and>
     (case st_toolName s of None \<Rightarrow> st_kind s \<noteq> ''tool_call''
      | Some t \<Rightarrow> t \<noteq> [] \<and> hasTool deps t \<and> (requiresApproval deps t \<longrightarrow> truthy (st_approvalRequirementId s))))"

lemma sound_plan_valid:
  assumes "trim (pl_id plan) \<noteq> []" "trim (pl_goal plan) \<noteq> []" "pl_steps plan \<noteq> []"
    "distinct (map st_id (pl_steps plan))" "depsMet [] (pl_steps plan)" "list_all (sound_step deps) (pl_steps plan)"
  shows "vr_valid (validate deps plan)"
proof -
  have "wellFormedStep deps (pl_steps plan) s" if "s \<in> set (pl_steps plan)" for s
    using that assms(6) depsMet_targets [OF assms(5) that]
    by (auto simp: list_all_iff sound_step_def wellFormedStep_def truthy_def split: option.splits)
  then show ?thesis using assms(1-5) depsMet_acyclic by (simp add: validate_iff)
qed

text \<open>The tools the generator may put into a step.\<close>

definition tools_known :: "PlanValidatorDeps \<Rightarrow> string list \<Rightarrow> bool" where
  "tools_known deps tools = list_all (\<lambda>t. t \<noteq> [] \<and> hasTool deps t) (''read_file'' # ''write_file'' # tools)"

lemma pickReadTool_in: "pickReadTool tools classifier \<in> set (''read_file'' # ''write_file'' # tools)"
  by (auto simp: pickReadTool_def nullish_def dest: find_Some_in split: option.split)

lemma pickWriteTool_in: "nullish (pickWriteTool tools classifier) ''write_file'' \<in> set (''read_file'' # ''write_file'' # tools)"
  by (auto simp: pickWriteTool_def nullish_def dest: find_Some_in split: option.split)

lemma pickReadTool_reads:
  "list_ex (\<lambda>t. \<not> f t) (if tools = [] then [''read_file''] else tools) \<Longrightarrow> \<not> f (pickReadTool tools (Some f))"
  by (auto simp: pickReadTool_def nullish_def isWriteTool_def list_ex_iff find_None_iff dest: find_Some_in split: option.split if_splits)

lemma id_nonempty: "trim (generateDeterministicId goal ''plan_'' k) \<noteq> []"
  by (simp add: generateDeterministicId_def trim_Nil is_space_def)

lemmas step_builders = buildToolCallStep_def buildFinalResponseStep_def buildApprovalStep_def dependsOnStep_def

text \<open>
  The deterministic generator produces valid plans: with a classifier that agrees with the registry, a
  registry that knows the offered tools, at least one tool that needs no approval, and, for a goal that does
  not ask for a write, a second tool that needs none either, the generated plan passes validation for every
  goal and step limit (unless the hash of one of two step ids is degenerate).
\<close>

theorem deterministic_plan_valid:
  assumes "trim goal \<noteq> []" and "tools_known deps (nullish tools [])"
    and agree: "requiresApproval deps = f"
    and reads: "list_ex (\<lambda>t. \<not> f t) (if nullish tools [] = [] then [''read_file''] else nullish tools [])"
    and second: "isWriteGoal goal \<or> length (nullish tools []) \<le> 1 \<or> \<not> f (nullish tools [] ! 1)"
    and "2 * hashOf (goal @ ''step_1'') \<noteq> 0" "2 * hashOf (goal @ ''step_2'') \<noteq> 0"
  shows "vr_valid (validate deps (generate (Some f) now goal tools maxSteps))"
proof -
  let ?tools = "nullish tools []"
  have known: "t \<noteq> [] \<and> hasTool deps t" if "t \<in> set (''read_file'' # ''write_file'' # ?tools)" for t
    using assms(2) that by (auto simp: tools_known_def list_all_iff)
  note rd = known [OF pickReadTool_in [of ?tools "Some f"]] and wr = known [OF pickWriteTool_in [of ?tools "Some f"]]
  have nw: "\<not> f (pickReadTool ?tools (Some f))" using reads by (rule pickReadTool_reads)
  have sec: "?tools ! 1 \<noteq> [] \<and> hasTool deps (?tools ! 1)" if "length ?tools > 1"
    using known [of "?tools ! 1"] nth_mem [OF that] by simp
  have ids: "nextId goal 0 \<noteq> nextId goal 1" "nextId goal 0 \<noteq> nextId goal 2" "nextId goal 0 \<noteq> nextId goal 3"
      "nextId goal 1 \<noteq> nextId goal 2" "nextId goal 1 \<noteq> nextId goal 3" "nextId goal 2 \<noteq> nextId goal 3"
    using nextId_distinct [OF assms(6,7)] by simp_all
  have appr: "generateDeterministicId goal ''approval_'' 1 \<noteq> []" by (simp add: generateDeterministicId_def)
  let ?ok = "\<lambda>steps. steps \<noteq> [] \<and> distinct (map st_id steps) \<and> depsMet [] steps \<and> list_all (sound_step deps) steps"
  note rules = step_builders sound_step_def depsOf_def nullish_def VALID_STEP_KINDS_def VALID_EXECUTORS_def truthy_def Let_def
  have simple: "?ok (simpleSteps (Some f) goal ?tools)"
    using ids rd nw agree by (simp add: simpleSteps_def rules del: One_nat_def)
  have writing: "?ok (writeSteps (Some f) goal ?tools m)" for m
    using ids rd wr nw agree appr by (simp add: writeSteps_def rules del: One_nat_def)
  have read: "?ok (readSteps (Some f) goal ?tools m)" if "\<not> isWriteGoal goal" for m
    using ids rd nw agree second sec that by (auto simp add: readSteps_def rules simp del: One_nat_def)
  have "?ok (pl_steps (generate (Some f) now goal tools maxSteps))"
    using simple writing read by (simp add: generate_def generateSteps_def Let_def)
  then show ?thesis
    using assms(1) id_nonempty by (intro sound_plan_valid) (simp_all add: generate_def Let_def)
qed

definition demoTools :: PlanValidatorDeps where
  "demoTools = \<lparr>hasTool = (\<lambda>_. True), getToolCategory = (\<lambda>t. None), riskRequiresApproval = (\<lambda>t. t = ''write_file'')\<rparr>"

theorem deterministic_plan_valid_witness:
  "vr_valid (validate demoTools (generate (Some (\<lambda>t. t = ''write_file'')) ''t'' ''edit the notes''
     (Some [''read_file'', ''write_file'']) None))"
proof -
  have agree: "requiresApproval demoTools = (\<lambda>t. t = ''write_file'')"
    by (auto simp: requiresApproval_def demoTools_def)
  have "2 * hashOf (''edit the notes'' @ ''step_1'') \<noteq> 0" "2 * hashOf (''edit the notes'' @ ''step_2'') \<noteq> 0"
      "trim ''edit the notes'' \<noteq> []" "tools_known demoTools (nullish (Some [''read_file'', ''write_file'']) [])"
      "isWriteGoal ''edit the notes''"
    by code_simp+
  then show ?thesis by (intro deterministic_plan_valid [OF _ _ agree]) (auto simp: nullish_def)
qed

lemma isCjkText_latin1 [simp]: "\<not> isCjkText s"
proof -
  have small: "(of_char c :: nat) < 256" for c by simp
  have "\<not> 19968 \<le> (of_char c :: nat)" "\<not> 13312 \<le> (of_char c :: nat)" for c using small [of c] by linarith+
  then show ?thesis by (simp add: isCjkText_def Let_def)
qed

text \<open>
  The deterministic generator lacks a guard: for a long goal without a write keyword it runs the second
  offered tool as it is, so when that tool needs an approval the plan (which is returned unvalidated, as the
  fallback) contains an unapproved write and fails validation.
\<close>

theorem second_tool_unapproved:
  assumes "isComplexGoal goal" "\<not> isWriteGoal goal" "requiresApproval deps w"
  shows "\<not> vr_valid (validate deps (generate classifier now goal (Some (r # w # tools)) None))"
proof -
  let ?plan = "generate classifier now goal (Some (r # w # tools)) None"
  have "list_ex (\<lambda>s. st_kind s = ''tool_call'' \<and> st_toolName s = Some w \<and> st_approvalRequirementId s = None) (pl_steps ?plan)"
    using assms(1,2) by (simp add: generate_def generateSteps_def readSteps_def nullish_def step_builders Let_def)
  then obtain s where s: "s \<in> set (pl_steps ?plan)" "st_kind s = ''tool_call''" "st_toolName s = Some w" "st_approvalRequirementId s = None"
    by (auto simp: list_ex_iff)
  then have "\<not> wellFormedStep deps (pl_steps ?plan) s" using assms(3) by (simp add: wellFormedStep_def truthy_def)
  then show ?thesis using s(1) by (auto simp: validate_iff)
qed

theorem second_tool_unapproved_witness:
  "\<not> vr_valid (validate demoTools (generate None ''t'' ''a b c d e f'' (Some [''read_file'', ''write_file'']) None))"
proof -
  have "\<not> isWriteGoal ''a b c d e f''" "requiresApproval demoTools ''write_file''" "trim ''a b c d e f'' = ''a b c d e f''"
      "spaceRuns False ''a b c d e f'' = 5"
    by code_simp+
  then show ?thesis by (intro second_tool_unapproved) (simp_all add: isComplexGoal_def)
qed

end
