(* ===== verification/Run_Stores.thy ===== *)
theory Run_Stores
  imports Stores Plan_Generation
begin

text \<open>
  The tables of kernel runs (\<open>storage/kernel-run-store.ts\<close>) and background runs (\<open>storage/background-run-store.ts\<close>), with
  the meaning of their SQL statements; the notifications of background runs are claimed here. Every operation takes the clock
  it reads. A JSON column holds the value written; a value that is falsy at insertion is stored as no value.
\<close>

definition jsonTruthy :: "json \<Rightarrow> bool" where
  "jsonTruthy v = (case v of JNull \<Rightarrow> False | JBool b \<Rightarrow> b | JNum i \<Rightarrow> i \<noteq> 0 | JStr s \<Rightarrow> s \<noteq> [] | JArr xs \<Rightarrow> True | JObj kvs \<Rightarrow> True)"

definition jsonColumn :: "json option \<Rightarrow> json option" where
  "jsonColumn v = (case v of Some x \<Rightarrow> if jsonTruthy x then Some x else None | None \<Rightarrow> None)"

section \<open>Kernel runs\<close>

record KernelRunRow =
  kn_runId :: string
  kn_sessionId :: "string option"
  kn_agentId :: string
  kn_invocationSource :: string
  kn_status :: string
  kn_checkpointData :: "json option"
  kn_finalResult :: "json option"
  kn_metrics :: "json option"
  kn_eventStart :: "int option"
  kn_eventEnd :: "int option"
  kn_parentRunId :: "string option"
  kn_rootRunId :: "string option"
  kn_createdAt :: timestamp
  kn_updatedAt :: timestamp

type_synonym kernelRunTable = "KernelRunRow list"

definition createKernelRun :: "timestamp \<Rightarrow> KernelRunRow \<Rightarrow> kernelRunTable \<Rightarrow> string + kernelRunTable" where
  "createKernelRun now run t = (if kn_runId run \<in> set (map kn_runId t) then Inl ''UNIQUE constraint failed: kernel_runs.run_id''
     else Inr (t @ [run\<lparr>kn_checkpointData := jsonColumn (kn_checkpointData run), kn_finalResult := jsonColumn (kn_finalResult run),
       kn_metrics := jsonColumn (kn_metrics run), kn_createdAt := now, kn_updatedAt := now\<rparr>]))"

definition getKernelRunById :: "string \<Rightarrow> kernelRunTable \<Rightarrow> KernelRunRow option" where
  "getKernelRunById i t = firstRow (\<lambda>r. kn_runId r = i) t"

definition updateKernelStatus :: "timestamp \<Rightarrow> string \<Rightarrow> string \<Rightarrow> kernelRunTable \<Rightarrow> kernelRunTable" where
  "updateKernelStatus now i status = updateRow kn_runId i (\<lambda>r. r\<lparr>kn_status := status, kn_updatedAt := now\<rparr>)"

definition saveKernelCheckpoint :: "timestamp \<Rightarrow> string \<Rightarrow> json \<Rightarrow> kernelRunTable \<Rightarrow> kernelRunTable" where
  "saveKernelCheckpoint now i checkpoint = updateRow kn_runId i (\<lambda>r. r\<lparr>kn_checkpointData := Some checkpoint, kn_updatedAt := now\<rparr>)"

definition saveFinalResult :: "timestamp \<Rightarrow> string \<Rightarrow> json \<Rightarrow> kernelRunTable \<Rightarrow> kernelRunTable" where
  "saveFinalResult now i result = updateRow kn_runId i (\<lambda>r. r\<lparr>kn_finalResult := Some result, kn_updatedAt := now\<rparr>)"

definition kernelRunsWhere :: "(KernelRunRow \<Rightarrow> bool) \<Rightarrow> kernelRunTable \<Rightarrow> KernelRunRow list" where
  "kernelRunsWhere p t = orderByDesc kn_createdAt (filter p t)"

definition getKernelRunsBySession :: "string \<Rightarrow> kernelRunTable \<Rightarrow> KernelRunRow list" where
  "getKernelRunsBySession i = kernelRunsWhere (\<lambda>r. kn_sessionId r = Some i)"

definition getByAgentId :: "string \<Rightarrow> kernelRunTable \<Rightarrow> KernelRunRow list" where
  "getByAgentId i = kernelRunsWhere (\<lambda>r. kn_agentId r = i)"

definition getKernelRunsByStatus :: "string \<Rightarrow> kernelRunTable \<Rightarrow> KernelRunRow list" where
  "getKernelRunsByStatus st = kernelRunsWhere (\<lambda>r. kn_status r = st)"

definition getByParentRunId :: "string \<Rightarrow> kernelRunTable \<Rightarrow> KernelRunRow list" where
  "getByParentRunId i = kernelRunsWhere (\<lambda>r. kn_parentRunId r = Some i)"

definition getByRootRunId :: "string \<Rightarrow> kernelRunTable \<Rightarrow> KernelRunRow list" where
  "getByRootRunId i = kernelRunsWhere (\<lambda>r. kn_rootRunId r = Some i)"

definition getByInvocationSource :: "string \<Rightarrow> kernelRunTable \<Rightarrow> KernelRunRow list" where
  "getByInvocationSource s = kernelRunsWhere (\<lambda>r. kn_invocationSource r = s)"

definition listStaleInStates :: "string list \<Rightarrow> timestamp \<Rightarrow> kernelRunTable \<Rightarrow> KernelRunRow list" where
  "listStaleInStates states olderThan t = (if states = [] then []
     else sort_key kn_updatedAt (filter (\<lambda>r. kn_status r \<in> set states \<and> kn_updatedAt r < olderThan) t))"

definition markFailedWithResult :: "timestamp \<Rightarrow> string \<Rightarrow> json \<Rightarrow> kernelRunTable \<Rightarrow> kernelRunTable" where
  "markFailedWithResult now i result =
     updateRow kn_runId i (\<lambda>r. r\<lparr>kn_status := ''failed'', kn_finalResult := Some result, kn_updatedAt := now\<rparr>)"

section \<open>Background runs\<close>

record BackgroundRunRow =
  bg_runId :: string
  bg_subagentRunId :: "string option"
  bg_userId :: string
  bg_sessionId :: "string option"
  bg_agentType :: string
  bg_agentProfile :: "string option"
  bg_status :: string
  bg_launchSource :: string
  bg_checkpointData :: "json option"
  bg_recoveryPoint :: "json option"
  bg_resultData :: "json option"
  bg_errorMessage :: "string option"
  bg_priority :: int
  bg_scheduledAt :: "timestamp option"
  bg_startedAt :: "timestamp option"
  bg_completedAt :: "timestamp option"
  bg_expiresAt :: "timestamp option"
  bg_retryCount :: nat
  bg_createdAt :: timestamp
  bg_updatedAt :: timestamp
  bg_taskSpec :: "json option"
  bg_taskId :: "string option"
  bg_childSessionId :: "string option"
  bg_notificationType :: "string option"
  bg_notificationPayload :: "json option"
  bg_notificationDeliveredAt :: "timestamp option"

type_synonym backgroundRunTable = "BackgroundRunRow list"

definition createBackgroundRun :: "timestamp \<Rightarrow> BackgroundRunRow \<Rightarrow> backgroundRunTable \<Rightarrow> string + backgroundRunTable" where
  "createBackgroundRun now run t =
     (if bg_runId run \<in> set (map bg_runId t) then Inl ''UNIQUE constraint failed: background_runs.background_run_id''
      else Inr (t @ [run\<lparr>bg_checkpointData := jsonColumn (bg_checkpointData run), bg_recoveryPoint := jsonColumn (bg_recoveryPoint run),
        bg_resultData := jsonColumn (bg_resultData run), bg_taskSpec := jsonColumn (bg_taskSpec run),
        bg_notificationPayload := jsonColumn (bg_notificationPayload run), bg_createdAt := now, bg_updatedAt := now\<rparr>]))"

definition getBackgroundRunById :: "string \<Rightarrow> backgroundRunTable \<Rightarrow> BackgroundRunRow option" where
  "getBackgroundRunById i t = firstRow (\<lambda>r. bg_runId r = i) t"

text \<open>\<open>UPDATE background_runs SET ..., updated_at = now WHERE background_run_id = i\<close>.\<close>

definition touchRun :: "timestamp \<Rightarrow> string \<Rightarrow> (BackgroundRunRow \<Rightarrow> BackgroundRunRow) \<Rightarrow> backgroundRunTable \<Rightarrow> backgroundRunTable" where
  "touchRun now i f = updateRow bg_runId i (\<lambda>r. (f r)\<lparr>bg_updatedAt := now\<rparr>)"

definition updateBackgroundStatus :: "timestamp \<Rightarrow> string \<Rightarrow> string \<Rightarrow> backgroundRunTable \<Rightarrow> backgroundRunTable" where
  "updateBackgroundStatus now i status = touchRun now i (\<lambda>r. r\<lparr>bg_status := status\<rparr>)"

definition saveBackgroundCheckpoint :: "timestamp \<Rightarrow> string \<Rightarrow> json \<Rightarrow> backgroundRunTable \<Rightarrow> backgroundRunTable" where
  "saveBackgroundCheckpoint now i checkpoint = touchRun now i (\<lambda>r. r\<lparr>bg_checkpointData := Some checkpoint,
     bg_recoveryPoint := Some (JObj [(''checkpointSavedAt'', JNum now), (''data'', checkpoint)])\<rparr>)"

definition saveRecoveryPoint :: "timestamp \<Rightarrow> string \<Rightarrow> json \<Rightarrow> backgroundRunTable \<Rightarrow> backgroundRunTable" where
  "saveRecoveryPoint now i point = touchRun now i (\<lambda>r. r\<lparr>bg_recoveryPoint := Some point\<rparr>)"

definition saveBackgroundResult :: "timestamp \<Rightarrow> string \<Rightarrow> json \<Rightarrow> backgroundRunTable \<Rightarrow> backgroundRunTable" where
  "saveBackgroundResult now i result = touchRun now i (\<lambda>r. r\<lparr>bg_resultData := Some result, bg_completedAt := Some now\<rparr>)"

definition incrementRetryCount :: "timestamp \<Rightarrow> string \<Rightarrow> backgroundRunTable \<Rightarrow> backgroundRunTable" where
  "incrementRetryCount now i = touchRun now i (\<lambda>r. r\<lparr>bg_retryCount := bg_retryCount r + 1\<rparr>)"

definition saveErrorMessage :: "timestamp \<Rightarrow> string \<Rightarrow> string \<Rightarrow> backgroundRunTable \<Rightarrow> backgroundRunTable" where
  "saveErrorMessage now i message = touchRun now i (\<lambda>r. r\<lparr>bg_errorMessage := Some message\<rparr>)"

definition saveTaskSpec :: "timestamp \<Rightarrow> string \<Rightarrow> json \<Rightarrow> backgroundRunTable \<Rightarrow> backgroundRunTable" where
  "saveTaskSpec now i spec = touchRun now i (\<lambda>r. r\<lparr>bg_taskSpec := Some spec\<rparr>)"

definition linkChildTask :: "timestamp \<Rightarrow> string \<Rightarrow> string \<Rightarrow> string \<Rightarrow> string \<Rightarrow> backgroundRunTable \<Rightarrow> backgroundRunTable" where
  "linkChildTask now i subagentRunId taskId childSessionId = touchRun now i (\<lambda>r. r\<lparr>bg_subagentRunId := Some subagentRunId,
     bg_taskId := Some taskId, bg_childSessionId := Some childSessionId\<rparr>)"

definition saveNotification :: "timestamp \<Rightarrow> string \<Rightarrow> string \<Rightarrow> json \<Rightarrow> backgroundRunTable \<Rightarrow> backgroundRunTable" where
  "saveNotification now i kind payload = touchRun now i (\<lambda>r. r\<lparr>bg_notificationType := Some kind, bg_notificationPayload := Some payload\<rparr>)"

definition markNotificationDelivered :: "timestamp \<Rightarrow> string \<Rightarrow> timestamp \<Rightarrow> backgroundRunTable \<Rightarrow> backgroundRunTable" where
  "markNotificationDelivered now i deliveredAt = touchRun now i (\<lambda>r. r\<lparr>bg_notificationDeliveredAt := Some deliveredAt\<rparr>)"

definition claimable :: "string \<Rightarrow> BackgroundRunRow \<Rightarrow> bool" where
  "claimable i r = (bg_runId r = i \<and> bg_notificationDeliveredAt r = None)"

text \<open>The update and the number of rows it changed.\<close>

definition claimNotification :: "string \<Rightarrow> timestamp \<Rightarrow> backgroundRunTable \<Rightarrow> bool \<times> backgroundRunTable" where
  "claimNotification i claimedAt t = (length (filter (claimable i) t) > 0,
     map (\<lambda>r. if claimable i r then r\<lparr>bg_notificationDeliveredAt := Some claimedAt\<rparr> else r) t)"

definition unclaimNotification :: "string \<Rightarrow> backgroundRunTable \<Rightarrow> backgroundRunTable" where
  "unclaimNotification i = updateRow bg_runId i (\<lambda>r. r\<lparr>bg_notificationDeliveredAt := None\<rparr>)"

definition backgroundRunsWhere :: "(BackgroundRunRow \<Rightarrow> bool) \<Rightarrow> backgroundRunTable \<Rightarrow> BackgroundRunRow list" where
  "backgroundRunsWhere p t = orderByDesc bg_updatedAt (filter p t)"

definition getByUserAndStatus :: "string \<Rightarrow> string \<Rightarrow> backgroundRunTable \<Rightarrow> BackgroundRunRow list" where
  "getByUserAndStatus u st = backgroundRunsWhere (\<lambda>r. bg_userId r = u \<and> bg_status r = st)"

definition getBySessionAndStatus :: "string \<Rightarrow> string \<Rightarrow> backgroundRunTable \<Rightarrow> BackgroundRunRow list" where
  "getBySessionAndStatus i st = backgroundRunsWhere (\<lambda>r. bg_sessionId r = Some i \<and> bg_status r = st)"

definition getBySubagentRunId :: "string \<Rightarrow> backgroundRunTable \<Rightarrow> BackgroundRunRow list" where
  "getBySubagentRunId i = backgroundRunsWhere (\<lambda>r. bg_subagentRunId r = Some i)"

definition getByLaunchSource :: "string \<Rightarrow> backgroundRunTable \<Rightarrow> BackgroundRunRow list" where
  "getByLaunchSource s = backgroundRunsWhere (\<lambda>r. bg_launchSource r = s)"

definition getBackgroundRunsByStatus :: "string \<Rightarrow> backgroundRunTable \<Rightarrow> BackgroundRunRow list" where
  "getBackgroundRunsByStatus st = backgroundRunsWhere (\<lambda>r. bg_status r = st)"

definition getExpiredRuns :: "timestamp \<Rightarrow> backgroundRunTable \<Rightarrow> BackgroundRunRow list" where
  "getExpiredRuns now t = sort_key (\<lambda>r. the (bg_expiresAt r))
     (filter (\<lambda>r. case bg_expiresAt r of Some e \<Rightarrow> e < now | None \<Rightarrow> False) t)"

definition getPendingNotifications :: "string option \<Rightarrow> backgroundRunTable \<Rightarrow> BackgroundRunRow list" where
  "getPendingNotifications sessionId t = sort_key bg_updatedAt (filter (\<lambda>r. bg_notificationType r \<noteq> None \<and>
     bg_notificationDeliveredAt r = None \<and> (sessionId = None \<or> bg_sessionId r = sessionId)) t)"

section \<open>Sequences of operations\<close>

datatype bg_event =
    BgCreate timestamp BackgroundRunRow
  | BgStatus timestamp string string
  | BgCheckpoint timestamp string json
  | BgRecoveryPoint timestamp string json
  | BgResult timestamp string json
  | BgRetry timestamp string
  | BgError timestamp string string
  | BgTaskSpec timestamp string json
  | BgLink timestamp string string string string
  | BgNotify timestamp string string json
  | BgMark timestamp string timestamp
  | BgClaim string timestamp
  | BgUnclaim string

text \<open>The answer (whether a claim is won) and the table; an insertion that throws changes nothing.\<close>

fun bgApply :: "bg_event \<Rightarrow> backgroundRunTable \<Rightarrow> bool \<times> backgroundRunTable" where
  "bgApply (BgCreate now r) t = (False, case createBackgroundRun now r t of Inl e \<Rightarrow> t | Inr t' \<Rightarrow> t')"
| "bgApply (BgStatus now i st) t = (False, updateBackgroundStatus now i st t)"
| "bgApply (BgCheckpoint now i v) t = (False, saveBackgroundCheckpoint now i v t)"
| "bgApply (BgRecoveryPoint now i v) t = (False, saveRecoveryPoint now i v t)"
| "bgApply (BgResult now i v) t = (False, saveBackgroundResult now i v t)"
| "bgApply (BgRetry now i) t = (False, incrementRetryCount now i t)"
| "bgApply (BgError now i m) t = (False, saveErrorMessage now i m t)"
| "bgApply (BgTaskSpec now i v) t = (False, saveTaskSpec now i v t)"
| "bgApply (BgLink now i a b c) t = (False, linkChildTask now i a b c t)"
| "bgApply (BgNotify now i k v) t = (False, saveNotification now i k v t)"
| "bgApply (BgMark now i d) t = (False, markNotificationDelivered now i d t)"
| "bgApply (BgClaim i at) t = claimNotification i at t"
| "bgApply (BgUnclaim i) t = (False, unclaimNotification i t)"

fun bgRun :: "bg_event list \<Rightarrow> backgroundRunTable \<Rightarrow> bool list \<times> backgroundRunTable" where
  "bgRun [] t = ([], t)"
| "bgRun (ev # evs) t = (case bgApply ev t of (won, t') \<Rightarrow> (case bgRun evs t' of (ws, t'') \<Rightarrow> (won # ws, t'')))"

text \<open>The claims of a run that were won, and the times its claim was given back.\<close>

definition claimsWon :: "string \<Rightarrow> bg_event list \<Rightarrow> bool list \<Rightarrow> nat" where
  "claimsWon i evs ws = length (filter (\<lambda>(ev, won). won \<and> (case ev of BgClaim j at \<Rightarrow> j = i | _ \<Rightarrow> False)) (zip evs ws))"

definition givenBack :: "string \<Rightarrow> bg_event list \<Rightarrow> nat" where
  "givenBack i evs = length (filter (\<lambda>ev. ev = BgUnclaim i) evs)"

text \<open>Whether a claim of the run can still be won: there is no row yet, or one that is not delivered.\<close>

definition stillFree :: "string \<Rightarrow> backgroundRunTable \<Rightarrow> nat" where
  "stillFree i t = (if list_ex (claimable i) t \<or> i \<notin> set (map bg_runId t) then 1 else 0)"

lemma free_map:
  assumes "\<And>r. bg_runId (f r) = bg_runId r" "\<And>r. claimable i (f r) \<Longrightarrow> claimable i r"
  shows "stillFree i (map f t) \<le> stillFree i t"
proof -
  have "map bg_runId (map f t) = map bg_runId t" by (simp add: assms(1))
  moreover have "list_ex (claimable i) t" if "list_ex (claimable i) (map f t)" using that assms(2) by (auto simp: list_ex_iff)
  ultimately show ?thesis unfolding stillFree_def by auto
qed

lemma free_touch:
  assumes "\<And>r. bg_runId (f r) = bg_runId r" "\<And>r. bg_notificationDeliveredAt (f r) = None \<Longrightarrow> bg_notificationDeliveredAt r = None"
  shows "stillFree i (touchRun now j f t) \<le> stillFree i t"
  unfolding touchRun_def updateRow_def using assms by (intro free_map) (auto simp: claimable_def split: if_splits)

lemmas touch_defs = updateBackgroundStatus_def saveBackgroundCheckpoint_def saveRecoveryPoint_def saveBackgroundResult_def
  incrementRetryCount_def saveErrorMessage_def saveTaskSpec_def linkChildTask_def saveNotification_def markNotificationDelivered_def

lemma free_create: "stillFree i (case createBackgroundRun now r t of Inl e \<Rightarrow> t | Inr t' \<Rightarrow> t') \<le> stillFree i t"
  by (auto simp: createBackgroundRun_def stillFree_def claimable_def list_ex_iff)

abbreviation claimed :: "string \<Rightarrow> timestamp \<Rightarrow> BackgroundRunRow \<Rightarrow> BackgroundRunRow" where
  "claimed j at r \<equiv> if claimable j r then r\<lparr>bg_notificationDeliveredAt := Some at\<rparr> else r"

lemma claimed_fields: "bg_runId (claimed j at r) = bg_runId r"
  "claimable i (claimed j at r) \<longleftrightarrow> claimable i r \<and> i \<noteq> j"
  by (simp, cases "claimable j r") (auto simp: claimable_def)

lemma claimNotification_eq: "claimNotification j at t = (list_ex (claimable j) t, map (claimed j at) t)"
  by (simp add: claimNotification_def list_ex_iff filter_empty_conv)

lemma free_claim:
  assumes "claimNotification j at t = (won, t')"
  shows "stillFree i t' + (if won \<and> j = i then 1 else 0) \<le> stillFree i t"
proof -
  have t': "t' = map (claimed j at) t" and won: "won = list_ex (claimable j) t" using assms by (simp_all add: claimNotification_eq)
  have le: "stillFree i (map (claimed j at) t) \<le> stillFree i t" by (rule free_map) (simp_all only: claimed_fields)
  show ?thesis
  proof (cases "won \<and> j = i")
    case True
    then have w: "list_ex (claimable i) t" using won by blast
    then obtain r where r: "r \<in> set t" "claimable i r" by (auto simp: list_ex_iff)
    have ids: "map bg_runId (map (claimed j at) t) = map bg_runId t" by simp
    have "\<not> list_ex (claimable i) (map (claimed j at) t)" unfolding list_ex_iff set_map using True claimed_fields(2) by blast
    moreover have "i \<in> set (map bg_runId t)" using r by (auto simp: claimable_def)
    ultimately have "stillFree i t' = 0" unfolding stillFree_def t' ids by simp
    then show ?thesis using w by (simp add: stillFree_def)
  qed (use le t' in auto)
qed

lemma free_unclaim: "j \<noteq> i \<Longrightarrow> stillFree i (unclaimNotification j t) \<le> stillFree i t"
  unfolding unclaimNotification_def updateRow_def by (rule free_map) (auto simp: claimable_def split: if_splits)

lemma apply_potential:
  assumes "bgApply ev t = (won, t')"
  shows "claimsWon i [ev] [won] + stillFree i t' \<le> stillFree i t + givenBack i [ev]"
proof (cases ev)
  case (BgClaim j at)
  then show ?thesis using assms free_claim [of j at t won t' i] by (auto simp: claimsWon_def givenBack_def)
next
  case (BgUnclaim j)
  have "stillFree i t' \<le> 1" by (simp add: stillFree_def)
  moreover have "stillFree i t' \<le> stillFree i t" if "j \<noteq> i"
    using that assms BgUnclaim free_unclaim [of j i t] by auto
  ultimately show ?thesis using assms BgUnclaim by (cases "j = i") (auto simp: claimsWon_def givenBack_def)
next
  case (BgCreate now r)
  then show ?thesis using assms free_create [where i = i and now = now and r = r and t = t] by (auto simp: claimsWon_def givenBack_def)
qed (use assms in \<open>auto simp: claimsWon_def givenBack_def touch_defs intro!: free_touch\<close>)

lemma run_potential: "bgRun evs t = (ws, t') \<Longrightarrow> claimsWon i evs ws + stillFree i t' \<le> stillFree i t + givenBack i evs"
proof (induction evs arbitrary: t ws)
  case Nil
  then show ?case by (simp add: claimsWon_def givenBack_def)
next
  case (Cons ev evs)
  obtain won t1 where a: "bgApply ev t = (won, t1)" by (cases "bgApply ev t")
  obtain ws' where r: "bgRun evs t1 = (ws', t')" "ws = won # ws'" using Cons.prems a by (auto split: prod.splits)
  have "claimsWon i (ev # evs) ws = claimsWon i [ev] [won] + claimsWon i evs ws'" by (simp add: claimsWon_def r(2))
  moreover have "givenBack i (ev # evs) = givenBack i [ev] + givenBack i evs" by (simp add: givenBack_def)
  ultimately show ?case using apply_potential [OF a, of i] Cons.IH [OF r(1)] by linarith
qed

text \<open>
  C31: The notification of a background run is claimed exactly once: in any sequence of operations on the table, by any number of
  workers, the claims of a run that are won exceed the times a claim was given back by at most one.
\<close>

theorem notification_claimed_once: "claimsWon i evs (fst (bgRun evs t)) \<le> givenBack i evs + 1"
proof -
  obtain ws t' where r: "bgRun evs t = (ws, t')" by (cases "bgRun evs t")
  have "stillFree i t \<le> 1" by (simp add: stillFree_def)
  then show ?thesis using run_potential [OF r, of i] r by simp
qed

text \<open>A claim does not look for a notification: claimed before it is saved, a notification is never pending.\<close>

theorem early_claim_hides_notification:
  "i \<notin> bg_runId ` set (getPendingNotifications s (saveNotification now i k v (snd (claimNotification i at t))))"
proof -
  let ?t = "snd (claimNotification i at t)"
  have c: "bg_notificationDeliveredAt q \<noteq> None" if q: "q \<in> set ?t" "bg_runId q = i" for q
  proof -
    obtain r where "q = claimed i at r" using q(1) unfolding claimNotification_eq snd_conv set_map by blast
    then have "\<not> claimable i q" using claimed_fields(2) by blast
    then show ?thesis using q(2) by (simp add: claimable_def)
  qed
  have "bg_notificationDeliveredAt r \<noteq> None" if r: "r \<in> set (saveNotification now i k v ?t)" "bg_runId r = i" for r
  proof -
    obtain q where "q \<in> set ?t" "r = (if bg_runId q = i then q\<lparr>bg_notificationType := Some k, bg_notificationPayload := Some v, bg_updatedAt := now\<rparr> else q)"
      using r(1) by (auto simp: saveNotification_def touchRun_def updateRow_def)
    then show ?thesis using c [of q] r(2) by (cases "bg_runId q = i") simp_all
  qed
  then show ?thesis by (fastforce simp: getPendingNotifications_def)
qed

end
