(* ===== verification/Retry.thy ===== *)
theory Retry
  imports Prelude Complex_Main
begin

text \<open>
  Error classification (\<open>src/src/shared/errors.ts\<close>, \<open>src/src/shared/retry.ts\<close>), the retry executor
  (\<open>src/src/recovery/retry-executor.ts\<close>) and the timeout policy (\<open>src/src/recovery/timeout-policy.ts\<close>).

  The executor awaits an operation, an approval callback, the clock and a timer. Those are the
  environment \<open>retry_env\<close>: what the clock shows before each attempt, how the race between each
  attempt and its timer settles, what the approval callback answers and what \<open>Math.random\<close> returns.
  Every theorem quantifies over the environment. Cancel requests and sleeps are recorded in order.
\<close>

section \<open>Errors and recoverability\<close>

datatype RuntimeErrorCategory =
    user_input_error | permission_error | approval_rejected | connector_auth_error
  | connector_rate_limited | tool_validation_error | tool_execution_error | model_error
  | context_overflow | timeout | external_event_timeout | workflow_step_error | subagent_error
  | planner_error | dispatcher_error | duplicate_event | state_conflict | system_internal_error

datatype Recoverability =
    recoverable_auto | recoverable_with_user | recoverable_with_approval | retryable_later
  | non_recoverable

text \<open>The fields of a \<open>RuntimeError\<close> the executor reads; the others are copied along.\<close>

record RuntimeError =
  err_category :: RuntimeErrorCategory
  err_code :: string
  err_message :: string
  err_recoverability :: Recoverability

definition RETRYABLE_LATER_CATEGORIES :: "RuntimeErrorCategory list" where
  "RETRYABLE_LATER_CATEGORIES =
     [connector_rate_limited, timeout, external_event_timeout, model_error, system_internal_error,
      state_conflict, workflow_step_error, subagent_error, planner_error, dispatcher_error]"

definition RECOVERABLE_AUTO_CATEGORIES :: "RuntimeErrorCategory list" where
  "RECOVERABLE_AUTO_CATEGORIES = [tool_validation_error, context_overflow]"

definition RECOVERABLE_WITH_USER_CATEGORIES :: "RuntimeErrorCategory list" where
  "RECOVERABLE_WITH_USER_CATEGORIES = [user_input_error]"

definition NON_RECOVERABLE_CATEGORIES :: "RuntimeErrorCategory list" where
  "NON_RECOVERABLE_CATEGORIES =
     [approval_rejected, permission_error, connector_auth_error, tool_execution_error, duplicate_event]"

definition getRetryClassification :: "RuntimeErrorCategory \<Rightarrow> Recoverability" where
  "getRetryClassification c =
     (if c \<in> set RETRYABLE_LATER_CATEGORIES then retryable_later
      else if c \<in> set RECOVERABLE_AUTO_CATEGORIES then recoverable_auto
      else if c \<in> set RECOVERABLE_WITH_USER_CATEGORIES then recoverable_with_user
      else if c \<in> set NON_RECOVERABLE_CATEGORIES then non_recoverable
      else non_recoverable)"

definition sharedIsRetryable :: "RuntimeError \<Rightarrow> bool" where
  "sharedIsRetryable e = (err_recoverability e \<in> set [retryable_later, recoverable_auto])"

section \<open>Policies and operations\<close>

datatype BackoffStrategy = BackoffNone | BackoffFixed | BackoffLinear | BackoffExponential

record RetryPolicy =
  maxRetries :: "int option"
  maxAttempts :: "int option"
  backoffStrategy :: "BackoffStrategy option"
  backoff :: "BackoffStrategy option"
  initialDelayMs :: "int option"
  maxDelayMs :: "int option"
  jitterRatio :: "rat option"
  retryableErrors :: "RuntimeErrorCategory list option"
  retryableErrorCategories :: "RuntimeErrorCategory list option"
  retryOn :: "RuntimeErrorCategory list option"
  doNotRetryOn :: "RuntimeErrorCategory list option"
  requireApprovalBeforeRetry :: bool

record RetryOperation =
  operationName :: string
  isWrite :: bool
  isIdempotent :: bool
  cancelToken :: "string option"

text \<open>
  What an attempt throws: an object with a \<open>category\<close> field, whose other fields may be missing, or
  anything else, shown as a message.
\<close>

datatype thrown =
    ThrownCandidate RuntimeErrorCategory "string option" "string option" "Recoverability option"
  | ThrownOther string

text \<open>How the race between an attempt and its timer settles.\<close>

datatype 'a settled = Resolved 'a | Rejected thrown | TimerFirst

record 'a retry_env =
  elapsed :: "nat \<Rightarrow> int"
  settles :: "nat \<Rightarrow> 'a settled"
  approvals :: "nat \<Rightarrow> bool \<times> string option"
  random :: "nat \<Rightarrow> rat"

text \<open>\<open>RetryExecutorConfig\<close>: which callbacks are configured, and the timeout.\<close>

record RetryExecutorConfig =
  hasRequestApproval :: bool
  cfgTimeoutMs :: "int option"
  hasCancelOperation :: bool

datatype auditStatus = Started | Succeeded | Failed | RetryScheduled

record RetryAttemptAudit =
  au_attempt :: nat
  au_status :: auditStatus
  au_operationName :: string
  au_errorCategory :: "RuntimeErrorCategory option"
  au_errorCode :: "string option"
  au_delayMs :: "int option"

record 'a RetryResult =
  rr_success :: bool
  rr_data :: "'a option"
  rr_error :: "(string \<times> string) option"
  rr_attempts :: nat
  rr_requiresUserApproval :: bool
  rr_failedDueToApproval :: bool
  rr_timedOut :: bool
  rr_auditTrail :: "RetryAttemptAudit list"

text \<open>The effects of a run: the audit trail, the cancel requests sent and the sleeps, in order.\<close>

record retry_trace =
  trail :: "RetryAttemptAudit list"
  cancels :: "string list"
  sleeps :: "int list"

definition isRetryable :: "RuntimeError \<Rightarrow> RetryPolicy \<Rightarrow> bool" where
  "isRetryable e p =
     (if (case doNotRetryOn p of Some cs \<Rightarrow> err_category e \<in> set cs | None \<Rightarrow> False) then False
      else case nullish_opt (retryableErrorCategories p) (nullish_opt (retryableErrors p) (retryOn p)) of
          Some cs \<Rightarrow> if cs \<noteq> [] then err_category e \<in> set cs
                     else err_recoverability e \<in> set [retryable_later, recoverable_auto]
        | None \<Rightarrow> err_recoverability e \<in> set [retryable_later, recoverable_auto])"

definition calculateDelay :: "nat \<Rightarrow> RetryPolicy \<Rightarrow> rat \<Rightarrow> int" where
  "calculateDelay attemptNumber p rnd =
     (let initialDelay = num_or (initialDelayMs p) 100;
          maxDelay = num_or (maxDelayMs p) 30000;
          strategy = nullish (backoffStrategy p) (nullish (backoff p) BackoffExponential);
          ratio = nullish (jitterRatio p) 0;
          delayMs = (case strategy of
              BackoffNone \<Rightarrow> 0
            | BackoffFixed \<Rightarrow> initialDelay
            | BackoffLinear \<Rightarrow> initialDelay * (int attemptNumber + 1)
            | BackoffExponential \<Rightarrow> initialDelay * 2 ^ attemptNumber);
          boundedDelay = min delayMs maxDelay
      in if ratio \<le> 0 \<or> boundedDelay \<le> 0 then boundedDelay
         else let jitter = of_int boundedDelay * ratio * rnd
              in min \<lfloor>of_int boundedDelay + jitter\<rfloor> maxDelay)"

definition getMaxAttempts :: "RetryPolicy \<Rightarrow> nat" where
  "getMaxAttempts p =
     (case maxAttempts p of
        Some n \<Rightarrow> nat (max 1 n)
      | None \<Rightarrow> nat (max 1 (nullish (maxRetries p) 0 + 1)))"

definition createAudit ::
    "nat \<Rightarrow> auditStatus \<Rightarrow> string \<Rightarrow> RuntimeError option \<Rightarrow> int option \<Rightarrow> RetryAttemptAudit" where
  "createAudit attempt st name e d =
     \<lparr>au_attempt = attempt, au_status = st, au_operationName = name,
      au_errorCategory = map_option err_category e, au_errorCode = map_option err_code e,
      au_delayMs = d\<rparr>"

text \<open>\<open>String(category).toUpperCase()\<close>, the code of a thrown object that has none.\<close>

fun category_name :: "RuntimeErrorCategory \<Rightarrow> string" where
  "category_name user_input_error = ''user_input_error''"
| "category_name permission_error = ''permission_error''"
| "category_name approval_rejected = ''approval_rejected''"
| "category_name connector_auth_error = ''connector_auth_error''"
| "category_name connector_rate_limited = ''connector_rate_limited''"
| "category_name tool_validation_error = ''tool_validation_error''"
| "category_name tool_execution_error = ''tool_execution_error''"
| "category_name model_error = ''model_error''"
| "category_name context_overflow = ''context_overflow''"
| "category_name timeout = ''timeout''"
| "category_name external_event_timeout = ''external_event_timeout''"
| "category_name workflow_step_error = ''workflow_step_error''"
| "category_name subagent_error = ''subagent_error''"
| "category_name planner_error = ''planner_error''"
| "category_name dispatcher_error = ''dispatcher_error''"
| "category_name duplicate_event = ''duplicate_event''"
| "category_name state_conflict = ''state_conflict''"
| "category_name system_internal_error = ''system_internal_error''"

fun normalizeError :: "thrown \<Rightarrow> RuntimeError" where
  "normalizeError (ThrownCandidate cat c m r) =
     \<lparr>err_category = cat, err_code = nullish c (map upper_char (category_name cat)),
      err_message = nullish m ''Runtime error'', err_recoverability = nullish r non_recoverable\<rparr>"
| "normalizeError (ThrownOther m) =
     \<lparr>err_category = system_internal_error, err_code = ''UNKNOWN_ERROR'', err_message = m,
      err_recoverability = non_recoverable\<rparr>"

text \<open>
  \<open>runWithTimeout\<close>: the awaited value or the thrown error, and the cancel requests its timer sends.
\<close>

definition timeoutError :: RuntimeError where
  "timeoutError = \<lparr>err_category = timeout, err_code = ''OPERATION_TIMEOUT'',
     err_message = ''Operation timed out'', err_recoverability = retryable_later\<rparr>"

definition sendCancel :: "RetryExecutorConfig \<Rightarrow> RetryOperation \<Rightarrow> string list" where
  "sendCancel cfg oper =
     (if truthy (cancelToken oper) \<and> hasCancelOperation cfg then [nullish (cancelToken oper) []] else [])"

fun runWithTimeout ::
    "RetryExecutorConfig \<Rightarrow> RetryOperation \<Rightarrow> 'a settled \<Rightarrow> (RuntimeError + 'a) \<times> string list" where
  "runWithTimeout cfg oper (Resolved v) = (Inr v, [])"
| "runWithTimeout cfg oper (Rejected e) = (Inl (normalizeError e), [])"
| "runWithTimeout cfg oper TimerFirst = (Inl timeoutError, sendCancel cfg oper)"

section \<open>The loop\<close>

definition needsApproval :: "RetryOperation \<Rightarrow> RetryPolicy \<Rightarrow> bool" where
  "needsApproval oper p \<longleftrightarrow> isWrite oper \<and> \<not> isIdempotent oper \<and> requireApprovalBeforeRetry p"

definition failResult :: "nat \<Rightarrow> RetryAttemptAudit list \<Rightarrow> string \<Rightarrow> string \<Rightarrow> 'a RetryResult" where
  "failResult n tr c m =
     \<lparr>rr_success = False, rr_data = None, rr_error = Some (c, m), rr_attempts = n,
      rr_requiresUserApproval = False, rr_failedDueToApproval = False, rr_timedOut = False,
      rr_auditTrail = tr\<rparr>"

function retryLoop ::
    "RetryExecutorConfig \<Rightarrow> 'a retry_env \<Rightarrow> RetryOperation \<Rightarrow> RetryPolicy \<Rightarrow> nat \<Rightarrow> retry_trace \<Rightarrow>
     'a RetryResult \<times> retry_trace" where
  "retryLoop cfg env oper p attempts tr =
     (let maxA = getMaxAttempts p; timeoutMs = num_or (cfgTimeoutMs cfg) 30000; nm = operationName oper in
      if attempts < maxA then
        if elapsed env attempts > timeoutMs then
          ((failResult attempts (trail tr) ''TIMEOUT'' ''Operation timed out'')\<lparr>rr_timedOut := True\<rparr>,
           tr\<lparr>cancels := cancels tr @ sendCancel cfg oper\<rparr>)
        else
          let n = Suc attempts;
              tr1 = tr\<lparr>trail := trail tr @ [createAudit n Started nm None None]\<rparr>
          in case runWithTimeout cfg oper (settles env n) of
              (Inr v, cs) \<Rightarrow>
                let tr2 = tr1\<lparr>trail := trail tr1 @ [createAudit n Succeeded nm None None]\<rparr>
                in (\<lparr>rr_success = True, rr_data = Some v, rr_error = None, rr_attempts = n,
                     rr_requiresUserApproval = False, rr_failedDueToApproval = False,
                     rr_timedOut = False, rr_auditTrail = trail tr2\<rparr>, tr2)
            | (Inl e, cs) \<Rightarrow>
                let tr2 = tr1\<lparr>trail := trail tr1 @ [createAudit n Failed nm (Some e) None],
                              cancels := cancels tr1 @ cs\<rparr>;
                    isLastAttempt = (n \<ge> maxA)
                in if \<not> isRetryable e p \<or> isLastAttempt then
                     if isRetryable e p \<and> isLastAttempt
                     then (failResult n (trail tr2) ''MAX_RETRIES_EXCEEDED''
                             (''Max retry attempts ('' @ nat_str maxA @ '') exceeded. Last error: '' @ err_message e), tr2)
                     else (failResult n (trail tr2) (err_code e) (err_message e), tr2)
                   else if needsApproval oper p \<and> hasRequestApproval cfg \<and> \<not> fst (approvals env n)
                   then ((failResult n (trail tr2) ''RETRY_REJECTED''
                            (or_else (snd (approvals env n)) ''Retry rejected by user''))
                           \<lparr>rr_requiresUserApproval := True, rr_failedDueToApproval := True\<rparr>, tr2)
                   else if needsApproval oper p \<and> \<not> hasRequestApproval cfg
                   then ((failResult n (trail tr2) ''APPROVAL_REQUIRED''
                            ''Non-idempotent write requires approval before retry'')
                           \<lparr>rr_requiresUserApproval := True\<rparr>, tr2)
                   else let d = calculateDelay (n - 1) p (random env n)
                        in retryLoop cfg env oper p n
                             (tr2\<lparr>trail := trail tr2 @ [createAudit n RetryScheduled nm (Some e) (Some d)],
                                  sleeps := sleeps tr2 @ [d]\<rparr>)
      else (failResult attempts (trail tr) ''MAX_RETRIES_EXCEEDED''
              (''Max retry attempts ('' @ nat_str maxA @ '') exceeded''), tr))"
  by pat_completeness auto
termination
  by (relation "measure (\<lambda>(cfg, env, oper, p, attempts, tr). getMaxAttempts p - attempts)") auto

declare retryLoop.simps [simp del]

definition executeWithRetry ::
    "RetryExecutorConfig \<Rightarrow> 'a retry_env \<Rightarrow> RetryOperation \<Rightarrow> RetryPolicy \<Rightarrow> 'a RetryResult \<times> retry_trace" where
  "executeWithRetry cfg env oper p =
     retryLoop cfg env oper p 0 \<lparr>trail = [], cancels = [], sleeps = []\<rparr>"

section \<open>Timeout policy\<close>

datatype RunType =
    PlannerRun | RuntimeActionRun | KernelRun | ToolExecutionRun | BackgroundRun | WorkflowRun
  | ApprovalRequestRun

record TimeoutPolicy =
  defaultTimeoutMs :: int
  configurable :: bool
  maxTimeoutMs :: "int option"
  description :: string

definition mkTimeout :: "int \<Rightarrow> int \<Rightarrow> string \<Rightarrow> TimeoutPolicy" where
  "mkTimeout d m s = \<lparr>defaultTimeoutMs = d, configurable = True, maxTimeoutMs = Some m, description = s\<rparr>"

fun TIMEOUT_POLICIES :: "RunType \<Rightarrow> TimeoutPolicy" where
  "TIMEOUT_POLICIES PlannerRun = mkTimeout 300000 600000 ''Planner run timeout''"
| "TIMEOUT_POLICIES RuntimeActionRun = mkTimeout 120000 300000 ''Runtime action timeout''"
| "TIMEOUT_POLICIES KernelRun = mkTimeout 180000 600000 ''Kernel run timeout''"
| "TIMEOUT_POLICIES ToolExecutionRun = mkTimeout 60000 120000 ''Tool execution timeout''"
| "TIMEOUT_POLICIES BackgroundRun = mkTimeout 600000 1800000 ''Background run timeout''"
| "TIMEOUT_POLICIES WorkflowRun = mkTimeout 600000 1800000 ''Workflow run timeout''"
| "TIMEOUT_POLICIES ApprovalRequestRun = mkTimeout 300000 3600000 ''Approval request timeout''"

definition getTimeout :: "RunType \<Rightarrow> int option \<Rightarrow> int" where
  "getTimeout rt cfg =
     (let policy = TIMEOUT_POLICIES rt in
      case cfg of
        Some ms \<Rightarrow> if configurable policy then min ms (nullish (maxTimeoutMs policy) ms)
                   else defaultTimeoutMs policy
      | None \<Rightarrow> defaultTimeoutMs policy)"

definition isOverdue :: "RunType \<Rightarrow> int \<Rightarrow> int \<Rightarrow> int option \<Rightarrow> bool" where
  "isOverdue rt now startTime cfg = (now - startTime > getTimeout rt cfg)"

section \<open>Induction over the attempts\<close>

text \<open>The traces after an attempt started, after it failed, and after its retry was scheduled.\<close>

definition after_failure ::
    "RetryOperation \<Rightarrow> nat \<Rightarrow> RuntimeError \<Rightarrow> string list \<Rightarrow> retry_trace \<Rightarrow> retry_trace" where
  "after_failure oper n e cs tr =
     tr\<lparr>trail := trail tr @ [createAudit n Started (operationName oper) None None,
                          createAudit n Failed (operationName oper) (Some e) None],
        cancels := cancels tr @ cs\<rparr>"

definition after_schedule ::
    "RetryOperation \<Rightarrow> nat \<Rightarrow> RuntimeError \<Rightarrow> string list \<Rightarrow> int \<Rightarrow> retry_trace \<Rightarrow> retry_trace" where
  "after_schedule oper n e cs d tr =
     (after_failure oper n e cs tr)\<lparr>
        trail := trail (after_failure oper n e cs tr) @
                 [createAudit n RetryScheduled (operationName oper) (Some e) (Some d)],
        sleeps := sleeps tr @ [d]\<rparr>"

text \<open>An attempt may be followed by another one: it failed retryably and no approval was missing.\<close>

definition may_retry ::
    "RetryExecutorConfig \<Rightarrow> 'a retry_env \<Rightarrow> RetryOperation \<Rightarrow> RetryPolicy \<Rightarrow> nat \<Rightarrow> bool" where
  "may_retry cfg env oper p n \<longleftrightarrow>
     (\<exists>e. fst (runWithTimeout cfg oper (settles env n)) = Inl e \<and> isRetryable e p) \<and>
     (needsApproval oper p \<longrightarrow> hasRequestApproval cfg \<and> fst (approvals env n))"

lemma retryLoop_rule:
  fixes P :: "nat \<Rightarrow> retry_trace \<Rightarrow> 'a RetryResult \<times> retry_trace \<Rightarrow> bool"
  assumes exhausted: "\<And>a tr c m. \<not> a < getMaxAttempts p \<Longrightarrow> P a tr (failResult a (trail tr) c m, tr)"
    and late: "\<And>a tr c m cs. a < getMaxAttempts p \<Longrightarrow> elapsed env a > num_or (cfgTimeoutMs cfg) 30000 \<Longrightarrow>
      P a tr ((failResult a (trail tr) c m)\<lparr>rr_timedOut := True\<rparr>, tr\<lparr>cancels := cs\<rparr>)"
    and finished: "\<And>a tr v trl. a < getMaxAttempts p \<Longrightarrow> settles env (Suc a) = Resolved v \<Longrightarrow>
      trl = trail tr @ [createAudit (Suc a) Started (operationName oper) None None,
                        createAudit (Suc a) Succeeded (operationName oper) None None] \<Longrightarrow>
      P a tr (\<lparr>rr_success = True, rr_data = Some v, rr_error = None, rr_attempts = Suc a,
               rr_requiresUserApproval = False, rr_failedDueToApproval = False, rr_timedOut = False,
               rr_auditTrail = trl\<rparr>, tr\<lparr>trail := trl\<rparr>)"
    and stop: "\<And>a tr e cs r tr'. a < getMaxAttempts p \<Longrightarrow>
      runWithTimeout cfg oper (settles env (Suc a)) = (Inl e, cs) \<Longrightarrow>
      \<not> may_retry cfg env oper p (Suc a) \<or> Suc a = getMaxAttempts p \<Longrightarrow>
      tr' = after_failure oper (Suc a) e cs tr \<Longrightarrow>
      rr_success r = False \<Longrightarrow> rr_timedOut r = False \<Longrightarrow> rr_data r = None \<Longrightarrow> rr_attempts r = Suc a \<Longrightarrow>
      rr_auditTrail r = trail tr' \<Longrightarrow> P a tr (r, tr')"
    and again: "\<And>a tr e cs d tr'. Suc a < getMaxAttempts p \<Longrightarrow>
      runWithTimeout cfg oper (settles env (Suc a)) = (Inl e, cs) \<Longrightarrow> may_retry cfg env oper p (Suc a) \<Longrightarrow>
      d = calculateDelay a p (random env (Suc a)) \<Longrightarrow>
      tr' = after_schedule oper (Suc a) e cs d tr \<Longrightarrow>
      P (Suc a) tr' (retryLoop cfg env oper p (Suc a) tr') \<Longrightarrow>
      P a tr (retryLoop cfg env oper p (Suc a) tr')"
  shows "P a tr (retryLoop cfg env oper p a tr)"
proof (induction "getMaxAttempts p - a" arbitrary: a tr)
  case 0
  then have "\<not> a < getMaxAttempts p" by simp
  then show ?case using exhausted by (simp add: retryLoop.simps Let_def)
next
  case (Suc k)
  then have a: "a < getMaxAttempts p" by simp
  show ?case
  proof (cases "elapsed env a > num_or (cfgTimeoutMs cfg) 30000")
    case True
    then show ?thesis using a late by (simp add: retryLoop.simps Let_def)
  next
    case False
    obtain o' cs where run: "runWithTimeout cfg oper (settles env (Suc a)) = (o', cs)" by fastforce
    show ?thesis
    proof (cases o')
      case (Inr v)
      then have "settles env (Suc a) = Resolved v"
        using run by (cases "settles env (Suc a)") auto
      then show ?thesis
        using a False run Inr finished [OF a, of v] by (simp add: retryLoop.simps [of cfg env oper p a] Let_def)
    next
      case (Inl e)
      let ?fail = "after_failure oper (Suc a) e cs tr"
      let ?d = "calculateDelay a p (random env (Suc a))"
      have mr: "may_retry cfg env oper p (Suc a) \<longleftrightarrow> isRetryable e p \<and>
          (needsApproval oper p \<longrightarrow> hasRequestApproval cfg \<and> fst (approvals env (Suc a)))"
        using run Inl by (simp add: may_retry_def)
      show ?thesis
      proof (cases "may_retry cfg env oper p (Suc a) \<and> Suc a < getMaxAttempts p")
        case True
        let ?tr = "after_schedule oper (Suc a) e cs ?d tr"
        have "retryLoop cfg env oper p a tr = retryLoop cfg env oper p (Suc a) ?tr"
          using a False run Inl True mr
          by (auto simp: retryLoop.simps [of cfg env oper p a] Let_def after_schedule_def after_failure_def)
        moreover have "P (Suc a) ?tr (retryLoop cfg env oper p (Suc a) ?tr)"
          using Suc.hyps(1) [of "Suc a"] Suc.hyps(2) by simp
        ultimately show ?thesis
          using again [of a e cs] True run Inl by simp
      next
        case no: False
        then have "\<not> may_retry cfg env oper p (Suc a) \<or> Suc a = getMaxAttempts p" using a by auto
        then show ?thesis
          using a False run Inl mr stop [OF a, of e cs ?fail tr]
          by (auto simp: retryLoop.simps [of cfg env oper p a] Let_def after_failure_def failResult_def)
      qed
    qed
  qed
qed

section \<open>Lemmas on the loop\<close>

lemma retryLoop_history:
  "a \<le> rr_attempts (fst (retryLoop cfg env oper p a tr)) \<and>
   rr_attempts (fst (retryLoop cfg env oper p a tr)) \<le> max a (getMaxAttempts p) \<and>
   (\<forall>i. a < i \<and> i < rr_attempts (fst (retryLoop cfg env oper p a tr)) \<longrightarrow> may_retry cfg env oper p i)"
proof (rule retryLoop_rule [where P = "\<lambda>a tr res. a \<le> rr_attempts (fst res) \<and>
      rr_attempts (fst res) \<le> max a (getMaxAttempts p) \<and>
      (\<forall>i. a < i \<and> i < rr_attempts (fst res) \<longrightarrow> may_retry cfg env oper p i)"], goal_cases)
  case (5 a tr e cs d tr')
  have "may_retry cfg env oper p i" if "a < i" "i < rr_attempts (fst (retryLoop cfg env oper p (Suc a) tr'))" for i
    using 5 that by (cases "i = Suc a") auto
  with 5 show ?case by auto
qed (auto simp: failResult_def)

lemma retryLoop_success:
  "rr_success (fst (retryLoop cfg env oper p a tr)) \<Longrightarrow>
   \<exists>v. settles env (rr_attempts (fst (retryLoop cfg env oper p a tr))) = Resolved v \<and>
       rr_data (fst (retryLoop cfg env oper p a tr)) = Some v"
proof -
  have "rr_success (fst (retryLoop cfg env oper p a tr)) \<longrightarrow>
   (\<exists>v. settles env (rr_attempts (fst (retryLoop cfg env oper p a tr))) = Resolved v \<and>
       rr_data (fst (retryLoop cfg env oper p a tr)) = Some v)"
    by (rule retryLoop_rule [where P = "\<lambda>a tr res. rr_success (fst res) \<longrightarrow>
          (\<exists>v. settles env (rr_attempts (fst res)) = Resolved v \<and> rr_data (fst res) = Some v)"])
      (auto simp: failResult_def)
  then show "rr_success (fst (retryLoop cfg env oper p a tr)) \<Longrightarrow> ?thesis" by blast
qed

lemma may_retry_not_resolved: "may_retry cfg env oper p n \<Longrightarrow> settles env n \<noteq> Resolved v"
  by (auto simp: may_retry_def)

lemma retryLoop_complete:
  assumes "j \<le> getMaxAttempts p" and "settles env j = Resolved v"
    and "\<forall>i. 0 < i \<and> i < j \<longrightarrow> may_retry cfg env oper p i"
    and "\<forall>i < j. elapsed env i \<le> num_or (cfgTimeoutMs cfg) 30000"
  shows "a < j \<longrightarrow> rr_success (fst (retryLoop cfg env oper p a tr)) \<and>
     rr_attempts (fst (retryLoop cfg env oper p a tr)) = j \<and> rr_data (fst (retryLoop cfg env oper p a tr)) = Some v"
proof (rule retryLoop_rule [where P = "\<lambda>a tr res. a < j \<longrightarrow> rr_success (fst res) \<and>
     rr_attempts (fst res) = j \<and> rr_data (fst res) = Some v"], goal_cases)
  case (3 a tr w trl)
  then have "\<not> Suc a < j" using assms(3) may_retry_not_resolved [of cfg env oper p "Suc a" w] by auto
  then show ?case using 3 assms(2) by (cases "Suc a = j") auto
next
  case (4 a tr e cs r tr')
  then have "\<not> Suc a < j" using assms(1,3) by auto
  then show ?case using 4 assms(2) by (cases "Suc a = j") auto
next
  case (5 a tr e cs d tr')
  then show ?case using assms(2) by (cases "Suc a = j") auto
qed (use assms in \<open>auto simp: not_less\<close>)

definition isStarted :: "RetryAttemptAudit \<Rightarrow> bool" where
  "isStarted au = (au_status au = Started)"

lemmas audit_defs = after_failure_def after_schedule_def createAudit_def isStarted_def failResult_def

lemma retryLoop_audit:
  "length (filter isStarted (rr_auditTrail (fst (retryLoop cfg env oper p a tr)))) + a =
     length (filter isStarted (trail tr)) + rr_attempts (fst (retryLoop cfg env oper p a tr)) \<and>
   trail (snd (retryLoop cfg env oper p a tr)) = rr_auditTrail (fst (retryLoop cfg env oper p a tr))"
  by (rule retryLoop_rule [where P = "\<lambda>a tr res. length (filter isStarted (rr_auditTrail (fst res))) + a =
        length (filter isStarted (trail tr)) + rr_attempts (fst res) \<and> trail (snd res) = rr_auditTrail (fst res)"])
    (auto simp: audit_defs)

lemma calculateDelay_le_max: "calculateDelay n p rnd \<le> num_or (maxDelayMs p) 30000"
  by (simp add: calculateDelay_def Let_def)

lemma calculateDelay_nonneg:
  assumes i: "0 \<le> num_or (initialDelayMs p) 100" and m: "0 \<le> num_or (maxDelayMs p) 30000" and r: "0 \<le> rnd"
  shows "0 \<le> calculateDelay n p rnd"
proof -
  define b where "b = min (case nullish (backoffStrategy p) (nullish (backoff p) BackoffExponential) of
              BackoffNone \<Rightarrow> 0
            | BackoffFixed \<Rightarrow> num_or (initialDelayMs p) 100
            | BackoffLinear \<Rightarrow> num_or (initialDelayMs p) 100 * (int n + 1)
            | BackoffExponential \<Rightarrow> num_or (initialDelayMs p) 100 * 2 ^ n) (num_or (maxDelayMs p) 30000)"
  have b: "0 \<le> b" using i m by (simp add: b_def split: BackoffStrategy.split)
  have "0 \<le> \<lfloor>of_int b * nullish (jitterRatio p) 0 * rnd\<rfloor>" if "\<not> nullish (jitterRatio p) 0 \<le> 0"
    using b r that by simp
  then show ?thesis
    using b m unfolding calculateDelay_def Let_def b_def [symmetric] by simp
qed

lemma retryLoop_sleeps:
  "(\<forall>d \<in> set (sleeps tr). d \<le> num_or (maxDelayMs p) 30000) \<Longrightarrow>
   \<forall>d \<in> set (sleeps (snd (retryLoop cfg env oper p a tr))). d \<le> num_or (maxDelayMs p) 30000"
proof -
  have "(\<forall>d \<in> set (sleeps tr). d \<le> num_or (maxDelayMs p) 30000) \<longrightarrow>
   (\<forall>d \<in> set (sleeps (snd (retryLoop cfg env oper p a tr))). d \<le> num_or (maxDelayMs p) 30000)"
    by (rule retryLoop_rule [where P = "\<lambda>a tr res. (\<forall>d \<in> set (sleeps tr). d \<le> num_or (maxDelayMs p) 30000) \<longrightarrow>
          (\<forall>d \<in> set (sleeps (snd res)). d \<le> num_or (maxDelayMs p) 30000)"])
      (auto simp: audit_defs calculateDelay_le_max)
  then show "(\<forall>d \<in> set (sleeps tr). d \<le> num_or (maxDelayMs p) 30000) \<Longrightarrow> ?thesis" by blast
qed

section \<open>Properties\<close>

text \<open>
  C16: Every retry is justified. The executor makes no more attempts than the policy's maximum, and
  every attempt it follows up with another one had failed with an error the policy retries; for a non-idempotent write under
  \<open>requireApprovalBeforeRetry\<close> the approval callback had also approved that retry.
\<close>

theorem executeWithRetry_justified:
  assumes "fst (executeWithRetry cfg env oper p) = r"
  shows "rr_attempts r \<le> getMaxAttempts p \<and>
    (\<forall>i. 0 < i \<and> i < rr_attempts r \<longrightarrow>
       (\<exists>e. fst (runWithTimeout cfg oper (settles env i)) = Inl e \<and> isRetryable e p) \<and>
       (needsApproval oper p \<longrightarrow> hasRequestApproval cfg \<and> fst (approvals env i)))"
  using retryLoop_history [of 0 cfg env oper p "\<lparr>trail = [], cancels = [], sleeps = []\<rparr>"] assms
  by (auto simp: executeWithRetry_def may_retry_def)

text \<open>Concrete inputs for the witnesses of this theory.\<close>

definition demoPolicy :: RetryPolicy where
  "demoPolicy = \<lparr>maxRetries = None, maxAttempts = Some 3, backoffStrategy = None, backoff = None,
     initialDelayMs = Some 100, maxDelayMs = Some 150, jitterRatio = None, retryableErrors = None,
     retryableErrorCategories = None, retryOn = None, doNotRetryOn = None,
     requireApprovalBeforeRetry = True\<rparr>"

definition demoOp :: RetryOperation where
  "demoOp = \<lparr>operationName = ''send'', isWrite = True, isIdempotent = False, cancelToken = None\<rparr>"

definition demoEnv :: "nat retry_env" where
  "demoEnv = \<lparr>elapsed = (\<lambda>_. 0), settles = (\<lambda>n. if n = 3 then Resolved 7 else TimerFirst),
     approvals = (\<lambda>_. (True, None)), random = (\<lambda>_. 0)\<rparr>"

definition demoCfg :: RetryExecutorConfig where
  "demoCfg = \<lparr>hasRequestApproval = True, cfgTimeoutMs = None, hasCancelOperation = False\<rparr>"

lemmas demo_defs = demoPolicy_def demoOp_def demoEnv_def demoCfg_def

theorem executeWithRetry_justified_witness:
  "rr_attempts (fst (executeWithRetry demoCfg demoEnv demoOp demoPolicy)) \<le> 3 \<and>
   needsApproval demoOp demoPolicy"
  using executeWithRetry_justified [OF refl, of demoCfg demoEnv demoOp demoPolicy]
  by (simp add: demo_defs getMaxAttempts_def needsApproval_def)

text \<open>
  The executor delivers: when some attempt within the maximum resolves, every earlier attempt
  fails retryably with its approval given, and the clock stays within the timeout, the result is a
  success with that attempt's value after exactly that many attempts.
\<close>

theorem executeWithRetry_succeeds:
  assumes "0 < j" and "j \<le> getMaxAttempts p" and "settles env j = Resolved v"
    and "\<forall>i. 0 < i \<and> i < j \<longrightarrow> may_retry cfg env oper p i"
    and "\<forall>i < j. elapsed env i \<le> num_or (cfgTimeoutMs cfg) 30000"
  shows "rr_success (fst (executeWithRetry cfg env oper p)) \<and>
     rr_attempts (fst (executeWithRetry cfg env oper p)) = j \<and>
     rr_data (fst (executeWithRetry cfg env oper p)) = Some v"
  using retryLoop_complete [OF assms(2-5), of 0] assms(1) by (simp add: executeWithRetry_def)

theorem executeWithRetry_succeeds_witness:
  "rr_success (fst (executeWithRetry demoCfg demoEnv demoOp demoPolicy)) \<and>
   rr_attempts (fst (executeWithRetry demoCfg demoEnv demoOp demoPolicy)) = 3 \<and>
   rr_data (fst (executeWithRetry demoCfg demoEnv demoOp demoPolicy)) = Some 7"
  by (rule executeWithRetry_succeeds)
    (auto simp: demo_defs getMaxAttempts_def may_retry_def isRetryable_def timeoutError_def nullish_opt_def num_or_def)

text \<open>
  Success and the audit trail are truthful: a success carries the value the last attempt
  resolved with, the trail returned is the one recorded, and it has one \<open>started\<close> entry per attempt.
\<close>

theorem executeWithRetry_truthful:
  assumes "executeWithRetry cfg env oper p = (r, tr)"
  shows "(rr_success r \<longrightarrow> (\<exists>v. settles env (rr_attempts r) = Resolved v \<and> rr_data r = Some v)) \<and>
    rr_auditTrail r = trail tr \<and> length (filter isStarted (rr_auditTrail r)) = rr_attempts r"
  using retryLoop_success [of cfg env oper p 0 "\<lparr>trail = [], cancels = [], sleeps = []\<rparr>"]
    retryLoop_audit [of cfg env oper p 0 "\<lparr>trail = [], cancels = [], sleeps = []\<rparr>"] assms
  by (auto simp: executeWithRetry_def)

theorem executeWithRetry_truthful_witness:
  "length (filter isStarted (rr_auditTrail (fst (executeWithRetry demoCfg demoEnv demoOp demoPolicy)))) =
   rr_attempts (fst (executeWithRetry demoCfg demoEnv demoOp demoPolicy))"
  using executeWithRetry_truthful [OF prod.collapse [symmetric], of demoCfg demoEnv demoOp demoPolicy] by blast

text \<open>
  Backoff is bounded: no sleep exceeds the policy's maximum delay (30 s when unset), whatever the
  strategy, the jitter and the random numbers; with non-negative settings no delay is negative.
\<close>

theorem backoff_bounded:
  "(\<forall>d \<in> set (sleeps (snd (executeWithRetry cfg env oper p))). d \<le> num_or (maxDelayMs p) 30000) \<and>
   (0 \<le> num_or (initialDelayMs p) 100 \<longrightarrow> 0 \<le> num_or (maxDelayMs p) 30000 \<longrightarrow> 0 \<le> rnd \<longrightarrow>
    0 \<le> calculateDelay n p rnd)"
  using retryLoop_sleeps [of "\<lparr>trail = [], cancels = [], sleeps = []\<rparr>" p cfg env oper 0]
    calculateDelay_nonneg [of p rnd n]
  by (auto simp: executeWithRetry_def)

theorem backoff_bounded_witness:
  "0 \<le> calculateDelay 1 demoPolicy 0 \<and> calculateDelay 1 demoPolicy 0 = 150"
  using backoff_bounded [of demoCfg demoEnv demoOp demoPolicy 0 1]
  by (simp add: demo_defs num_or_def calculateDelay_def nullish_def)

text \<open>
  No override lifts a run's timeout above its policy's cap, and a run is overdue exactly when it
  has run longer than its effective timeout.
\<close>

theorem timeout_capped:
  "(\<exists>cap. maxTimeoutMs (TIMEOUT_POLICIES rt) = Some cap \<and> getTimeout rt cfg \<le> cap) \<and>
   (isOverdue rt now start cfg \<longleftrightarrow> start + getTimeout rt cfg < now)"
  by (cases rt) (auto simp: getTimeout_def isOverdue_def mkTimeout_def nullish_def Let_def split: option.splits)

end
