(* ===== verification/Dispatcher.thy ===== *)
theory Dispatcher
  imports Stores
begin

text \<open>
  The runtime dispatcher (\<open>dispatcher/runtime-dispatcher.ts\<close>, \<open>dispatcher/adapter-registry.ts\<close>) and its action
  store (\<open>storage/runtime-action-store.ts\<close>). A dispatch validates the action, saves it, resolves duplicates of
  its idempotency key, asks the permission hook, runs the target runtime's adapter under a timeout and
  records the outcome.

  The dispatcher is a function of the operations of the action store it is configured with; the
  SQL store is one instance, with the table's two uniqueness constraints. Payloads and results are JSON
  values of a type \<open>'p\<close>. Parameters of one dispatch: the clock, the permission hook's answer, and how and
  when each adapter's promise settles. The list of adapter calls made is part of
  the state. An error that leaves \<open>dispatch\<close> is \<open>Inl\<close>, with the effects made so far.
\<close>

section \<open>Actions\<close>

type_synonym RuntimeActionState = string

record TargetRef =
  tr_plannerRunId :: "string option"
  tr_planId :: "string option"
  tr_runId :: "string option"
  tr_workflowRunId :: "string option"
  tr_workflowStepRunId :: "string option"
  tr_backgroundRunId :: "string option"
  tr_subagentRunId :: "string option"
  tr_toolCallId :: "string option"
  tr_approvalId :: "string option"

record 'p RuntimeAction =
  ac_actionId :: string
  ac_actionType :: string
  ac_idempotencyKey :: "string option"
  ac_sourceModule :: "string option"
  ac_sourceAction :: "string option"
  ac_targetRuntime :: string
  ac_targetAction :: string
  ac_payload :: 'p
  ac_correlationId :: "string option"
  ac_causationId :: "string option"
  ac_sessionId :: "string option"
  ac_userId :: "string option"
  ac_targetRef :: "TargetRef option"
  ac_status :: RuntimeActionState
  ac_statusMessage :: "string option"
  ac_result :: "'p option"
  ac_createdAt :: timestamp
  ac_updatedAt :: timestamp

section \<open>The SQL action store\<close>

text \<open>
  \<open>save\<close> followed by \<open>rowToRuntimeAction\<close>: the approval reference has no column, empty references are read
  back as absent, and so is a target reference without any.
\<close>

definition keepTruthy :: "string option \<Rightarrow> string option" where
  "keepTruthy s = (if truthy s then s else None)"

definition rowTargetRef :: "TargetRef option \<Rightarrow> TargetRef option" where
  "rowTargetRef ref = (case ref of None \<Rightarrow> None | Some r \<Rightarrow>
     let r' = \<lparr>tr_plannerRunId = keepTruthy (tr_plannerRunId r), tr_planId = keepTruthy (tr_planId r),
        tr_runId = keepTruthy (tr_runId r), tr_workflowRunId = keepTruthy (tr_workflowRunId r),
        tr_workflowStepRunId = keepTruthy (tr_workflowStepRunId r), tr_backgroundRunId = keepTruthy (tr_backgroundRunId r),
        tr_subagentRunId = keepTruthy (tr_subagentRunId r), tr_toolCallId = keepTruthy (tr_toolCallId r), tr_approvalId = None\<rparr> in
     if tr_plannerRunId r' = None \<and> tr_planId r' = None \<and> tr_runId r' = None \<and> tr_workflowRunId r' = None \<and>
        tr_workflowStepRunId r' = None \<and> tr_backgroundRunId r' = None \<and> tr_subagentRunId r' = None \<and> tr_toolCallId r' = None
     then None else Some r')"

definition rowToRuntimeAction :: "'p RuntimeAction \<Rightarrow> 'p RuntimeAction" where
  "rowToRuntimeAction a = a\<lparr>ac_targetRef := rowTargetRef (ac_targetRef a)\<rparr>"

type_synonym 'p actionTable = "'p RuntimeAction list"

definition actionSave :: "'p RuntimeAction \<Rightarrow> 'p actionTable \<Rightarrow> string + 'p actionTable" where
  "actionSave a t =
     (if ac_actionId a \<in> set (map ac_actionId t) then Inl ''UNIQUE constraint failed: runtime_actions.action_id''
      else if ac_sourceModule a = None then Inl ''NOT NULL constraint failed: runtime_actions.source_module''
      else if ac_idempotencyKey a \<noteq> None \<and> ac_idempotencyKey a \<in> set (map ac_idempotencyKey t)
        then Inl ''UNIQUE constraint failed: runtime_actions.idempotency_key''
      else Inr (t @ [rowToRuntimeAction a]))"

definition findById :: "string \<Rightarrow> 'p actionTable \<Rightarrow> 'p RuntimeAction option" where
  "findById i t = firstRow (\<lambda>r. ac_actionId r = i) t"

definition findByIdempotencyKey :: "string \<Rightarrow> 'p actionTable \<Rightarrow> 'p RuntimeAction option" where
  "findByIdempotencyKey k t = firstRow (\<lambda>r. ac_idempotencyKey r = Some k) t"

record RuntimeActionQuery =
  qy_plannerRunId :: "string option"
  qy_planId :: "string option"
  qy_userId :: "string option"
  qy_sessionId :: "string option"
  qy_status :: "RuntimeActionState option"
  qy_workflowRunId :: "string option"

definition cond :: "string option \<Rightarrow> string option \<Rightarrow> bool" where
  "cond want have = (want = None \<or> want = have)"

definition actionQuery :: "RuntimeActionQuery \<Rightarrow> 'p actionTable \<Rightarrow> 'p RuntimeAction list" where
  "actionQuery q t = orderByDesc ac_createdAt (filter (\<lambda>r.
     cond (qy_plannerRunId q) (Option.bind (ac_targetRef r) tr_plannerRunId) \<and>
     cond (qy_planId q) (Option.bind (ac_targetRef r) tr_planId) \<and>
     cond (qy_userId q) (ac_userId r) \<and> cond (qy_sessionId q) (ac_sessionId r) \<and>
     cond (qy_status q) (Some (ac_status r)) \<and>
     cond (qy_workflowRunId q) (Option.bind (ac_targetRef r) tr_workflowRunId)) t)"

definition setStatus ::
  "RuntimeActionState \<Rightarrow> string option \<Rightarrow> 'p option \<Rightarrow> timestamp \<Rightarrow> 'p RuntimeAction \<Rightarrow> 'p RuntimeAction" where
  "setStatus status statusMessage result now r = r\<lparr>ac_status := status,
     ac_statusMessage := nullish_opt statusMessage (ac_statusMessage r),
     ac_result := nullish_opt result (ac_result r), ac_updatedAt := now\<rparr>"

definition updateStatus ::
  "string \<Rightarrow> RuntimeActionState \<Rightarrow> string option \<Rightarrow> 'p option \<Rightarrow> timestamp \<Rightarrow> 'p actionTable \<Rightarrow> string + 'p actionTable" where
  "updateStatus i status statusMessage result now t =
     (let t' = updateRow ac_actionId i (setStatus status statusMessage result now) t in
      if length (filter (\<lambda>r. ac_actionId r = i) t') = 0 then Inl ''Action not found'' else Inr t')"

definition listStaleByStatus :: "RuntimeActionState \<Rightarrow> timestamp \<Rightarrow> 'p actionTable \<Rightarrow> 'p RuntimeAction list" where
  "listStaleByStatus status olderThan t = sort_key ac_updatedAt (filter (\<lambda>r. ac_status r = status \<and> ac_updatedAt r < olderThan) t)"

section \<open>Requests, results, adapters\<close>

datatype duplicateBehavior = ReturnPrevious | Drop | Fail

text \<open>The policy fields the dispatcher reads: \<open>timeoutMs\<close> and \<open>idempotency.duplicateBehavior\<close>.\<close>

record 'p DispatchAction = "'p RuntimeAction" +
  ac_timeoutMs :: "int option"
  ac_duplicateBehavior :: "duplicateBehavior option"

record 'p DispatchRequest =
  dr_requestId :: string
  dr_action :: "'p DispatchAction"

record DispatchError =
  err_code :: string
  err_message :: string
  err_recoverable :: bool

record IdempotencyInfo =
  idem_key :: "string option"
  idem_duplicateOf :: string

record 'p DispatchResult =
  res_requestId :: string
  res_actionId :: string
  res_status :: string
  res_targetRuntime :: string
  res_result :: "'p option"
  res_waitingFor :: "string option"
  res_idempotency :: "IdempotencyInfo option"
  res_error :: "DispatchError option"
  res_createdAt :: timestamp
  res_completedAt :: "timestamp option"

record DispatchEvent =
  de_eventType :: string
  de_actionId :: string
  de_requestId :: string
  de_payload :: "(string \<times> DispatchError option) option"

record dispatchAudit =
  dau_actionId :: string
  dau_status :: string
  dau_payloadSummary :: string

record PermissionCheckResult =
  pcr_allowed :: bool
  pcr_reason :: "string option"

text \<open>
  How an adapter's promise settles, and after how many milliseconds; \<open>None\<close> is a promise that never
  settles. What the adapter makes of the abort signal is part of that behaviour. A rejection carries an \<open>Error\<close> with its message,
  or another value as its text.
\<close>

datatype rejection = ErrorInstance string | OtherThrown string

datatype 'p settlement = AdapterResolved "'p option" | AdapterRejected rejection

record 'p RuntimeAdapter =
  ad_execute :: "'p DispatchAction \<Rightarrow> (int \<times> 'p settlement) option"
  ad_cancelUnsupported :: bool

text \<open>
  The race of the promise with the timer: the first to settle wins, and the timer rejects with \<open>Timeout\<close>. Timers of less than
  one millisecond or more than \<open>2 ^ 31 - 1\<close> fire after one, so a promise that settles at once always wins.
\<close>

definition timerDelay :: "int \<Rightarrow> int" where
  "timerDelay ms = (if ms < 1 \<or> ms > 2147483647 then 1 else ms)"

definition executeWithTimeout :: "(int \<times> 'p settlement) option \<Rightarrow> int \<Rightarrow> 'p settlement" where
  "executeWithTimeout promise timeoutMs = (case promise of
     Some (delay, outcome) \<Rightarrow> if delay < timerDelay timeoutMs then outcome else AdapterRejected (ErrorInstance ''Timeout'')
   | None \<Rightarrow> AdapterRejected (ErrorInstance ''Timeout''))"

record ('p, 'st) actionStore =
  as_save :: "'p RuntimeAction \<Rightarrow> 'st \<Rightarrow> string + 'st"
  as_findByIdempotencyKey :: "string \<Rightarrow> 'st \<Rightarrow> 'p RuntimeAction option"
  as_updateStatus :: "string \<Rightarrow> RuntimeActionState \<Rightarrow> string option \<Rightarrow> 'p option \<Rightarrow> timestamp \<Rightarrow> 'st \<Rightarrow> string + 'st"

record ('p, 'st) dispatcher =
  dp_store :: "('p, 'st) actionStore"
  dp_adapters :: "(string, 'p RuntimeAdapter) jsmap"
  dp_permissionHook :: "('p DispatchAction \<Rightarrow> string + PermissionCheckResult) option"

record 'st dstate =
  ds_store :: 'st
  ds_events :: "DispatchEvent list"
  ds_audit :: "dispatchAudit list"
  ds_spans :: "(string \<times> string option) list"
  ds_executed :: "string list"

section \<open>The adapter registry\<close>

definition registerAdapter :: "string \<Rightarrow> 'a \<Rightarrow> (string, 'a) jsmap \<Rightarrow> (string, 'a) jsmap" where
  "registerAdapter runtimeType adapter m = mapSet runtimeType adapter m"

definition getAdapter :: "(string, 'a) jsmap \<Rightarrow> string \<Rightarrow> 'a option" where
  "getAdapter m runtimeType = mapGet m runtimeType"

definition unregisterAdapter :: "string \<Rightarrow> (string, 'a) jsmap \<Rightarrow> (string, 'a) jsmap" where
  "unregisterAdapter runtimeType m = mapDelete runtimeType m"

definition listAdapters :: "(string, 'a) jsmap \<Rightarrow> string list" where
  "listAdapters m = mapKeys m"

section \<open>Parts of a dispatch\<close>

definition WRITE_ACTION_TYPES :: "string list" where
  "WRITE_ACTION_TYPES = [''write'', ''delete'', ''send'', ''execute'']"

definition VALID_TARGET_RUNTIMES :: "string list" where
  "VALID_TARGET_RUNTIMES = [''agent_kernel'', ''subagent_runtime'', ''tool_plane'', ''workflow_runtime'',
     ''event_trigger_runtime'', ''permission_engine'', ''gateway'', ''notification_center'', ''connector_runtime'',
     ''memory_system'', ''summary_manager'', ''replay_service'', ''foreground_conversation_agent'', ''planner_runtime'']"

definition isWriteActionClass :: "string \<Rightarrow> bool" where
  "isWriteActionClass actionType = (actionType \<in> set WRITE_ACTION_TYPES)"

definition getWriteActionClass :: "string \<Rightarrow> string option" where
  "getWriteActionClass actionType = (if isWriteActionClass actionType then Some actionType else None)"

definition IN_FLIGHT_STATES :: "string list" where
  "IN_FLIGHT_STATES = [''dispatching'', ''queued'', ''waiting_for_approval'']"

definition DISPATCH_TERMINAL_STATES :: "string list" where
  "DISPATCH_TERMINAL_STATES = [''failed'', ''timeout'', ''cancelled'', ''duplicate'', ''denied'', ''completed'']"

definition validateRuntimeAction :: "('p, 'z) RuntimeAction_scheme \<Rightarrow> string option" where
  "validateRuntimeAction action =
     (if ac_actionType action = [] then Some ''Missing required field: actionType''
      else if ac_targetRuntime action = [] then Some ''Missing required field: targetRuntime''
      else if ac_targetRuntime action \<notin> set VALID_TARGET_RUNTIMES
        then Some (''Invalid targetRuntime: '' @ ac_targetRuntime action)
      else if ac_actionId action = [] then Some ''Missing required field: actionId''
      else if \<not> truthy (ac_sourceModule action) then Some ''Missing required field: source.sourceModule''
      else if ac_targetAction action = [] then Some ''Missing required field: targetAction''
      else None)"

definition orStr :: "string \<Rightarrow> string \<Rightarrow> string" where
  "orStr s d = (if s = [] then d else s)"

definition baseResult :: "'p DispatchRequest \<Rightarrow> timestamp \<Rightarrow> string \<Rightarrow> 'p DispatchResult" where
  "baseResult rq now status = \<lparr>res_requestId = dr_requestId rq,
     res_actionId = orStr (ac_actionId (dr_action rq)) ''unknown_action'', res_status = status,
     res_targetRuntime = ac_targetRuntime (dr_action rq), res_result = None, res_waitingFor = None, res_idempotency = None,
     res_error = None, res_createdAt = now, res_completedAt = Some now\<rparr>"

definition mapErrorToDispatchResult ::
  "string \<Rightarrow> string \<Rightarrow> string \<Rightarrow> string \<Rightarrow> string \<Rightarrow> bool \<Rightarrow> timestamp \<Rightarrow> 'p DispatchResult" where
  "mapErrorToDispatchResult requestId actionId targetRuntime code message recoverable now =
     \<lparr>res_requestId = requestId, res_actionId = actionId, res_status = ''failed'', res_targetRuntime = targetRuntime,
      res_result = None, res_waitingFor = None, res_idempotency = None,
      res_error = Some \<lparr>err_code = code, err_message = message, err_recoverable = recoverable\<rparr>,
      res_createdAt = now, res_completedAt = Some now\<rparr>"

definition emitEvent :: "string \<Rightarrow> 'p DispatchRequest \<Rightarrow> 'p DispatchResult option \<Rightarrow> 'st dstate \<Rightarrow> 'st dstate" where
  "emitEvent eventType rq result s = s\<lparr>ds_events := ds_events s @ [\<lparr>de_eventType = eventType,
     de_actionId = orStr (ac_actionId (dr_action rq)) ''unknown_action'', de_requestId = dr_requestId rq,
     de_payload = map_option (\<lambda>r. (res_status r, res_error r)) result\<rparr>]\<rparr>"

definition endDispatchSpan :: "string \<Rightarrow> string option \<Rightarrow> 'st dstate \<Rightarrow> 'st dstate" where
  "endDispatchSpan status error s = s\<lparr>ds_spans := ds_spans s @ [(status, error)]\<rparr>"

definition recordDispatchAudit :: "'p DispatchRequest \<Rightarrow> string \<Rightarrow> string option \<Rightarrow> 'st dstate \<Rightarrow> 'st dstate" where
  "recordDispatchAudit rq status error s = s\<lparr>ds_audit := ds_audit s @
     [\<lparr>dau_actionId = orStr (ac_actionId (dr_action rq)) ''unknown_action'',
       dau_status = (if status = ''completed'' \<or> status = ''duplicate'' then ''completed''
         else if status = ''denied'' then ''blocked'' else ''failed''),
       dau_payloadSummary = nullish error (ac_actionType (dr_action rq))\<rparr>]\<rparr>"

definition updateActionStatus ::
  "('p, 'st) dispatcher \<Rightarrow> string \<Rightarrow> RuntimeActionState \<Rightarrow> string option \<Rightarrow> 'p option \<Rightarrow> timestamp \<Rightarrow> 'st dstate \<Rightarrow> string + 'st dstate" where
  "updateActionStatus d actionId status statusMessage result now s =
     (case as_updateStatus (dp_store d) actionId status statusMessage result now (ds_store s) of
        Inl e \<Rightarrow> Inl e
      | Inr st \<Rightarrow> Inr (s\<lparr>ds_store := st\<rparr>))"

section \<open>Duplicates\<close>

definition idempotencyOf :: "'p DispatchRequest \<Rightarrow> 'p RuntimeAction \<Rightarrow> IdempotencyInfo option" where
  "idempotencyOf rq existing =
     Some \<lparr>idem_key = ac_idempotencyKey (dr_action rq), idem_duplicateOf = ac_actionId existing\<rparr>"

definition buildReturnPreviousResult :: "'p DispatchRequest \<Rightarrow> 'p RuntimeAction \<Rightarrow> timestamp \<Rightarrow> 'p DispatchResult" where
  "buildReturnPreviousResult rq existing now = (baseResult rq now ''duplicate'')\<lparr>res_result := ac_result existing,
     res_idempotency := idempotencyOf rq existing, res_completedAt := None,
     res_waitingFor := (if ac_status existing \<in> set IN_FLIGHT_STATES
       then Some (if ac_status existing = ''waiting_for_approval'' then ''approval'' else ''target_runtime'') else None)\<rparr>"

definition duplicateReason :: "'p RuntimeAction \<Rightarrow> string" where
  "duplicateReason existing = ''Duplicate action rejected: original action '' @ ac_actionId existing @
     (if ac_status existing \<in> set IN_FLIGHT_STATES then '' is still in-flight ('' @ ac_status existing @ '')''
      else if ac_status existing \<in> set DISPATCH_TERMINAL_STATES
        then '' already reached terminal state ('' @ ac_status existing @ '')''
      else '' exists with status '' @ ac_status existing)"

definition effectiveBehavior :: "'p DispatchAction \<Rightarrow> duplicateBehavior" where
  "effectiveBehavior action = (let behavior = nullish (ac_duplicateBehavior action) ReturnPrevious in
     if getWriteActionClass (ac_targetAction action) \<noteq> None \<and> behavior = ReturnPrevious then Fail else behavior)"

definition resolveIdempotencyDuplicate ::
  "('p, 'st) dispatcher \<Rightarrow> 'p DispatchRequest \<Rightarrow> 'p RuntimeAction \<Rightarrow> timestamp \<Rightarrow> 'st dstate \<Rightarrow> string + ('p DispatchResult \<times> 'st dstate)" where
  "resolveIdempotencyDuplicate d rq existing now s = (let i = ac_actionId (dr_action rq) in
     case effectiveBehavior (dr_action rq) of
       ReturnPrevious \<Rightarrow> Inr (buildReturnPreviousResult rq existing now, s)
     | Drop \<Rightarrow> (case updateActionStatus d i ''duplicate'' (Some (''Dropped duplicate of '' @ ac_actionId existing)) None now s of
         Inl e \<Rightarrow> Inl e
       | Inr s' \<Rightarrow> Inr ((baseResult rq now ''duplicate'')\<lparr>res_idempotency := idempotencyOf rq existing, res_completedAt := None\<rparr>, s'))
     | Fail \<Rightarrow> (case updateActionStatus d i ''failed'' (Some (duplicateReason existing)) None now s of
         Inl e \<Rightarrow> Inl e
       | Inr s' \<Rightarrow> Inr ((baseResult rq now ''failed'')\<lparr>res_idempotency := idempotencyOf rq existing,
           res_error := Some \<lparr>err_code = ''duplicate_rejected'', err_message = duplicateReason existing, err_recoverable = False\<rparr>\<rparr>, s')))"

section \<open>Dispatch\<close>

text \<open>The \<open>catch\<close> block: the adapter failed, timed out, or its completion could not be stored.\<close>

definition dispatchCatch ::
  "('p, 'st) dispatcher \<Rightarrow> 'p RuntimeAdapter \<Rightarrow> 'p DispatchRequest \<Rightarrow> timestamp \<Rightarrow> rejection \<Rightarrow> 'st dstate \<Rightarrow> (string + 'p DispatchResult) \<times> 'st dstate" where
  "dispatchCatch d adapter rq now thrown s =
     (let isTimeout = (thrown = ErrorInstance ''Timeout''); message = (case thrown of ErrorInstance m \<Rightarrow> m | OtherThrown m \<Rightarrow> m); status = (if isTimeout then ''timeout'' else ''failed'');
          result = (baseResult rq now status)\<lparr>res_error := Some \<lparr>err_code = (if isTimeout then ''timeout'' else ''target_runtime_error''),
            err_message = message, err_recoverable = False\<rparr>\<rparr> in
      case updateActionStatus d (ac_actionId (dr_action rq)) status (Some message) None now s of
        Inl e \<Rightarrow> (Inl e, s)
      | Inr s' \<Rightarrow> (Inr result, emitEvent ''dispatch_failed'' rq (Some result) (endDispatchSpan ''failed'' (Some message)
          (recordDispatchAudit rq status (Some (if ad_cancelUnsupported adapter \<and> isTimeout
             then message @ ''; cancelUnsupported: true'' else message)) s'))))"

definition runAdapter ::
  "('p, 'st) dispatcher \<Rightarrow> 'p RuntimeAdapter \<Rightarrow> 'p DispatchRequest \<Rightarrow> timestamp \<Rightarrow> 'st dstate \<Rightarrow> (string + 'p DispatchResult) \<times> 'st dstate" where
  "runAdapter d adapter rq now s0 =
     (let i = ac_actionId (dr_action rq); s = s0\<lparr>ds_executed := ds_executed s0 @ [i]\<rparr> in
      case executeWithTimeout (ad_execute adapter (dr_action rq)) (nullish (ac_timeoutMs (dr_action rq)) 30000) of
        AdapterRejected e \<Rightarrow> dispatchCatch d adapter rq now e s
      | AdapterResolved v \<Rightarrow>
          (let result = (baseResult rq now ''completed'')\<lparr>res_result := v\<rparr> in
           case updateActionStatus d i ''completed'' None v now s of
             Inl e \<Rightarrow> dispatchCatch d adapter rq now (ErrorInstance e) s
           | Inr s' \<Rightarrow> (Inr result, emitEvent ''dispatch_completed'' rq (Some result)
               (endDispatchSpan ''completed'' None (recordDispatchAudit rq ''completed'' None s')))))"

definition dispatchToAdapter ::
  "('p, 'st) dispatcher \<Rightarrow> 'p DispatchRequest \<Rightarrow> timestamp \<Rightarrow> 'st dstate \<Rightarrow> (string + 'p DispatchResult) \<times> 'st dstate" where
  "dispatchToAdapter d rq now s = (let i = ac_actionId (dr_action rq); rt = ac_targetRuntime (dr_action rq) in
     case getAdapter (dp_adapters d) rt of
       None \<Rightarrow>
         (let result = mapErrorToDispatchResult (dr_requestId rq) i rt ''target_runtime_unavailable''
                (''No adapter registered for runtime: '' @ rt) False now in
          case updateActionStatus d i ''failed'' (Some (''No adapter for runtime: '' @ rt)) None now s of
            Inl e \<Rightarrow> (Inl e, s)
          | Inr s' \<Rightarrow> (Inr result, emitEvent ''dispatch_failed'' rq (Some result)
              (endDispatchSpan ''failed'' (map_option err_message (res_error result))
                (recordDispatchAudit rq ''failed'' (map_option err_message (res_error result)) s'))))
     | Some adapter \<Rightarrow>
         (case updateActionStatus d i ''dispatching'' None None now s of
            Inl e \<Rightarrow> (Inl e, s)
          | Inr s' \<Rightarrow> runAdapter d adapter rq now (emitEvent ''dispatch_started'' rq None s')))"

definition permissionStep ::
  "('p, 'st) dispatcher \<Rightarrow> 'p DispatchRequest \<Rightarrow> timestamp \<Rightarrow> 'st dstate \<Rightarrow> (string + 'p DispatchResult) \<times> 'st dstate" where
  "permissionStep d rq now s = (case dp_permissionHook d of
     None \<Rightarrow> dispatchToAdapter d rq now s
   | Some hook \<Rightarrow> (case hook (dr_action rq) of
       Inl e \<Rightarrow> (Inl e, s)
     | Inr p \<Rightarrow>
         if pcr_allowed p then dispatchToAdapter d rq now s
         else
           (let result = (baseResult rq now ''denied'')\<lparr>res_error := Some \<lparr>err_code = ''permission_denied'',
                err_message = nullish (pcr_reason p) ''Permission denied'', err_recoverable = False\<rparr>\<rparr> in
            case updateActionStatus d (ac_actionId (dr_action rq)) ''denied'' (pcr_reason p) None now s of
              Inl e \<Rightarrow> (Inl e, s)
            | Inr s' \<Rightarrow> (Inr result, emitEvent ''dispatch_denied'' rq (Some result)
                (endDispatchSpan ''failed'' (pcr_reason p) (recordDispatchAudit rq ''denied'' (pcr_reason p) s'))))))"

definition duplicateOf :: "('p, 'st) dispatcher \<Rightarrow> 'p DispatchRequest \<Rightarrow> 'st \<Rightarrow> 'p RuntimeAction option" where
  "duplicateOf d rq st = (if truthy (ac_idempotencyKey (dr_action rq))
     then (case as_findByIdempotencyKey (dp_store d) (the (ac_idempotencyKey (dr_action rq))) st of
       None \<Rightarrow> None
     | Some existing \<Rightarrow> if ac_actionId existing \<noteq> ac_actionId (dr_action rq) then Some existing else None)
     else None)"

definition dispatch ::
  "('p, 'st) dispatcher \<Rightarrow> 'p DispatchRequest \<Rightarrow> timestamp \<Rightarrow> 'st dstate \<Rightarrow> (string + 'p DispatchResult) \<times> 'st dstate" where
  "dispatch d rq now s0 = (let s = emitEvent ''dispatch_requested'' rq None s0; action = dr_action rq in
     case validateRuntimeAction action of
       Some problem \<Rightarrow>
         (let result = mapErrorToDispatchResult (dr_requestId rq) (orStr (ac_actionId action) ''unknown_action'')
                (orStr (ac_targetRuntime action) ''gateway'') ''invalid_action'' problem False now;
              why = ''validation failure: '' @ problem in
          (Inr result, emitEvent ''dispatch_validation_failed'' rq (Some result)
             (endDispatchSpan ''failed'' (Some why) (recordDispatchAudit rq ''failed'' (Some why) s))))
     | None \<Rightarrow> (case as_save (dp_store d) (RuntimeAction.truncate action) (ds_store s) of
         Inl e \<Rightarrow> (Inl e, s)
       | Inr st \<Rightarrow>
           (let s1 = emitEvent ''dispatch_accepted'' rq None (s\<lparr>ds_store := st\<rparr>) in
            case duplicateOf d rq st of
              None \<Rightarrow> permissionStep d rq now s1
            | Some existing \<Rightarrow> (case resolveIdempotencyDuplicate d rq existing now s1 of
                Inl e \<Rightarrow> (Inl e, s1)
              | Inr (result, s2) \<Rightarrow> (Inr result,
                  endDispatchSpan (if res_status result = ''failed'' then ''failed'' else ''completed'') None
                    (recordDispatchAudit rq (res_status result) (map_option err_message (res_error result))
                      (emitEvent ''dispatch_duplicate'' rq (Some result) s2)))))))"

definition sqlActionStore :: "('p, 'p actionTable) actionStore" where
  "sqlActionStore = \<lparr>as_save = actionSave, as_findByIdempotencyKey = findByIdempotencyKey, as_updateStatus = updateStatus\<rparr>"

section \<open>Frame of the dispatcher's effects\<close>

lemma effects_frame [simp]:
  "ds_store (emitEvent t rq r s) = ds_store s" "ds_executed (emitEvent t rq r s) = ds_executed s"
  "ds_store (endDispatchSpan u e s) = ds_store s" "ds_executed (endDispatchSpan u e s) = ds_executed s"
  "ds_store (recordDispatchAudit rq u e s) = ds_store s" "ds_executed (recordDispatchAudit rq u e s) = ds_executed s"
  "ds_events (endDispatchSpan u e s) = ds_events s" "ds_events (recordDispatchAudit rq u e s) = ds_events s"
  "map de_eventType (ds_events (emitEvent t rq r s)) = map de_eventType (ds_events s) @ [t]"
  by (simp_all add: emitEvent_def endDispatchSpan_def recordDispatchAudit_def)

lemma updateActionStatus_frame:
  "updateActionStatus d i st m r now s = Inr s' \<Longrightarrow>
     ds_executed s' = ds_executed s \<and> ds_events s' = ds_events s \<and>
     as_updateStatus (dp_store d) i st m r now (ds_store s) = Inr (ds_store s')"
  by (auto simp: updateActionStatus_def split: sum.splits)

lemma result_simps [simp]:
  "res_status (baseResult rq now st) = st" "res_status (mapErrorToDispatchResult a b c e f g now) = ''failed''"
  "res_error (mapErrorToDispatchResult a b c e f g now) = Some \<lparr>err_code = e, err_message = f, err_recoverable = g\<rparr>"
  "res_status (buildReturnPreviousResult rq ex now) = ''duplicate''"
  by (simp_all add: baseResult_def mapErrorToDispatchResult_def buildReturnPreviousResult_def)

lemmas dispatch_defs = dispatch_def permissionStep_def dispatchToAdapter_def runAdapter_def dispatchCatch_def Let_def
lemmas dispatch_splits = option.splits sum.splits prod.splits if_splits settlement.splits duplicateBehavior.splits

section \<open>What the dispatcher relies on in its store\<close>

text \<open>
  The contract of an action store: a saved action is found under its id with its status, an update of an
  existing action succeeds and sets the status, and neither touches any other action.
\<close>

locale action_store =
  fixes store :: "('p, 'st) actionStore"
    and find_action :: "string \<Rightarrow> 'st \<Rightarrow> 'p RuntimeAction option"
  assumes save_find: "as_save store a st = Inr st' \<Longrightarrow> \<exists>r. find_action (ac_actionId a) st' = Some r \<and> ac_status r = ac_status a"
    and save_other: "as_save store a st = Inr st' \<Longrightarrow> k \<noteq> ac_actionId a \<Longrightarrow> find_action k st' = find_action k st"
    and update_find: "find_action i st = Some r \<Longrightarrow>
          \<exists>st' r'. as_updateStatus store i status msg result now st = Inr st' \<and> find_action i st' = Some r' \<and> ac_status r' = status"
    and update_other: "as_updateStatus store i status msg result now st = Inr st' \<Longrightarrow> k \<noteq> i \<Longrightarrow> find_action k st' = find_action k st"
begin

lemma update_sets:
  assumes "find_action i st = Some r" and "as_updateStatus store i status msg result now st = Inr st'"
  shows "\<exists>r'. find_action i st' = Some r' \<and> ac_status r' = status"
  using update_find [OF assms(1), of status msg result now] assms(2) by auto

lemma updateActionStatus_ok:
  assumes "dp_store d = store" and "find_action i (ds_store s) = Some r"
  shows "\<exists>s' r'. updateActionStatus d i status msg result now s = Inr s' \<and> find_action i (ds_store s') = Some r' \<and>
     ac_status r' = status \<and> ds_executed s' = ds_executed s \<and> ds_events s' = ds_events s \<and>
     (\<forall>k. k \<noteq> i \<longrightarrow> find_action k (ds_store s') = find_action k (ds_store s))"
proof -
  obtain st' r' where "as_updateStatus store i status msg result now (ds_store s) = Inr st'"
    "find_action i st' = Some r'" "ac_status r' = status"
    using update_find [OF assms(2), of status msg result now] by blast
  moreover note update_other [OF this(1)]
  ultimately show ?thesis by (simp add: updateActionStatus_def assms(1))
qed

text \<open>What a step owes: it returns, the action's row holds the returned status, and other rows are untouched.\<close>

definition settles :: "string \<Rightarrow> 'st dstate \<Rightarrow> (string + 'p DispatchResult) \<times> 'st dstate \<Rightarrow> bool" where
  "settles i s out \<longleftrightarrow> (\<exists>res r. fst out = Inr res \<and> find_action i (ds_store (snd out)) = Some r \<and> ac_status r = res_status res) \<and>
     (\<forall>k. k \<noteq> i \<longrightarrow> find_action k (ds_store (snd out)) = find_action k (ds_store s))"

lemma settles_trans: "settles i s' out \<Longrightarrow> (\<And>k. k \<noteq> i \<Longrightarrow> find_action k (ds_store s') = find_action k (ds_store s)) \<Longrightarrow> settles i s out"
  by (auto simp: settles_def)

lemma catch_settles:
  assumes "dp_store d = store" and "find_action (ac_actionId (dr_action rq)) (ds_store s) = Some r"
  shows "settles (ac_actionId (dr_action rq)) s (dispatchCatch d adapter rq now e s)"
  using updateActionStatus_ok [OF assms, of "if e = ErrorInstance ''Timeout'' then ''timeout'' else ''failed''"
      "Some (case e of ErrorInstance m \<Rightarrow> m | OtherThrown m \<Rightarrow> m)" None now]
  by (auto simp: dispatchCatch_def settles_def Let_def)

lemma run_settles:
  assumes "dp_store d = store" and "find_action (ac_actionId (dr_action rq)) (ds_store s) = Some r"
  shows "settles (ac_actionId (dr_action rq)) s (runAdapter d adapter rq now s)"
proof -
  let ?i = "ac_actionId (dr_action rq)"
  let ?s = "s\<lparr>ds_executed := ds_executed s @ [?i]\<rparr>"
  have f: "find_action ?i (ds_store ?s) = Some r" using assms(2) by simp
  have c: "settles ?i s (dispatchCatch d adapter rq now m ?s)" for m
    using catch_settles [OF assms(1) f] by (rule settles_trans) simp
  have "settles ?i s (runAdapter d adapter rq now s)"
    if "executeWithTimeout (ad_execute adapter (dr_action rq)) (nullish (ac_timeoutMs (dr_action rq)) 30000) = AdapterResolved v" for v
    using updateActionStatus_ok [OF assms(1) f, of "''completed''" None v now] that
    by (auto simp: runAdapter_def settles_def Let_def)
  then show ?thesis using c
    by (cases "executeWithTimeout (ad_execute adapter (dr_action rq)) (nullish (ac_timeoutMs (dr_action rq)) 30000)") (simp_all add: runAdapter_def Let_def)
qed

lemma toAdapter_settles:
  assumes "dp_store d = store" and "find_action (ac_actionId (dr_action rq)) (ds_store s) = Some r"
  shows "settles (ac_actionId (dr_action rq)) s (dispatchToAdapter d rq now s)"
proof (cases "getAdapter (dp_adapters d) (ac_targetRuntime (dr_action rq))")
  case None
  then show ?thesis
    using updateActionStatus_ok [OF assms, of "''failed''" "Some (''No adapter for runtime: '' @ ac_targetRuntime (dr_action rq))" None now]
    by (auto simp: dispatchToAdapter_def settles_def Let_def)
next
  case (Some adapter)
  let ?i = "ac_actionId (dr_action rq)"
  obtain s' r' where u: "updateActionStatus d ?i ''dispatching'' None None now s = Inr s'" "find_action ?i (ds_store s') = Some r'"
    "\<forall>k. k \<noteq> ?i \<longrightarrow> find_action k (ds_store s') = find_action k (ds_store s)"
    using updateActionStatus_ok [OF assms, of "''dispatching''" None None now] by blast
  then have "settles ?i (emitEvent ''dispatch_started'' rq None s') (runAdapter d adapter rq now (emitEvent ''dispatch_started'' rq None s'))"
    using run_settles [OF assms(1), of rq "emitEvent ''dispatch_started'' rq None s'"] by simp
  then have "settles ?i s (runAdapter d adapter rq now (emitEvent ''dispatch_started'' rq None s'))"
    by (rule settles_trans) (use u(3) in simp)
  then show ?thesis using Some u(1) by (simp add: dispatchToAdapter_def Let_def)
qed

lemma permission_settles:
  assumes "dp_store d = store" and "find_action (ac_actionId (dr_action rq)) (ds_store s) = Some r"
    and "\<forall>hook e. dp_permissionHook d = Some hook \<longrightarrow> hook (dr_action rq) \<noteq> Inl e"
  shows "settles (ac_actionId (dr_action rq)) s (permissionStep d rq now s)"
proof (cases "dp_permissionHook d")
  case None
  then show ?thesis using toAdapter_settles [OF assms(1,2)] by (simp add: permissionStep_def)
next
  case (Some hook)
  then obtain p where p: "hook (dr_action rq) = Inr p" using assms(3) by (cases "hook (dr_action rq)") auto
  then show ?thesis
    using Some toAdapter_settles [OF assms(1,2)] updateActionStatus_ok [OF assms(1,2), of "''denied''" "pcr_reason p" None now]
    by (auto simp: permissionStep_def settles_def Let_def)
qed

theorem dispatch_settles:
  assumes "dp_store d = store" and "validateRuntimeAction (dr_action rq) = None"
    and save: "as_save store (RuntimeAction.truncate (dr_action rq)) (ds_store s) = Inr st" and "duplicateOf d rq st = None"
    and "\<forall>hook e. dp_permissionHook d = Some hook \<longrightarrow> hook (dr_action rq) \<noteq> Inl e"
  shows "settles (ac_actionId (dr_action rq)) s (dispatch d rq now s)"
proof -
  let ?s1 = "emitEvent ''dispatch_accepted'' rq None ((emitEvent ''dispatch_requested'' rq None s)\<lparr>ds_store := st\<rparr>)"
  have id: "ac_actionId (RuntimeAction.truncate (dr_action rq)) = ac_actionId (dr_action rq)"
    by (simp add: RuntimeAction.defs)
  obtain r where "find_action (ac_actionId (dr_action rq)) (ds_store ?s1) = Some r"
    using save_find [OF save] id by auto
  then have "settles (ac_actionId (dr_action rq)) ?s1 (permissionStep d rq now ?s1)"
    using permission_settles [OF assms(1) _ assms(5)] by blast
  then have "settles (ac_actionId (dr_action rq)) s (permissionStep d rq now ?s1)"
    by (rule settles_trans) (use save_other [OF save] id in simp)
  then show ?thesis using assms by (simp add: dispatch_def Let_def)
qed

end

lemma findById_save:
  "actionSave a t = Inr t' \<Longrightarrow> findById k t' = (if k = ac_actionId a then Some (rowToRuntimeAction a) else findById k t)"
  using firstRow_key_None [of ac_actionId "ac_actionId a" t]
  by (auto simp: actionSave_def findById_def firstRow_append rowToRuntimeAction_def split: if_splits option.split)

lemma findById_update:
  "findById k (updateRow ac_actionId i (setStatus st m r now) t) =
     (if k = i then map_option (setStatus st m r now) (findById k t) else findById k t)"
  unfolding findById_def by (rule firstRow_updateRow) (simp add: setStatus_def)

lemma updateStatus_found:
  assumes "findById i t = Some r"
  shows "updateStatus i st m res now t = Inr (updateRow ac_actionId i (setStatus st m res now) t)"
proof -
  have "r \<in> set t" "ac_actionId r = i" using assms firstRow_key_Some [of ac_actionId i t r] by (auto simp: findById_def)
  then have "setStatus st m res now r \<in> set (updateRow ac_actionId i (setStatus st m res now) t)"
    unfolding updateRow_def set_map by (intro image_eqI [of _ _ r]) simp_all
  moreover have "ac_actionId (setStatus st m res now r) = i" using \<open>ac_actionId r = i\<close> by (simp add: setStatus_def)
  ultimately have "filter (\<lambda>r. ac_actionId r = i) (updateRow ac_actionId i (setStatus st m res now) t) \<noteq> []"
    by (auto simp: filter_empty_conv)
  then show ?thesis by (simp add: updateStatus_def Let_def)
qed

interpretation sql: action_store sqlActionStore findById
proof unfold_locales
  fix a :: "'p RuntimeAction" and st st' k i r status msg result now
  show "as_save sqlActionStore a st = Inr st' \<Longrightarrow> \<exists>r. findById (ac_actionId a) st' = Some r \<and> ac_status r = ac_status a"
    and "as_save sqlActionStore a st = Inr st' \<Longrightarrow> k \<noteq> ac_actionId a \<Longrightarrow> findById k st' = findById k st"
    by (auto simp: sqlActionStore_def findById_save rowToRuntimeAction_def)
  show "findById i st = Some r \<Longrightarrow> \<exists>st' r'. as_updateStatus sqlActionStore i status msg result now st = Inr st' \<and>
      findById i st' = Some r' \<and> ac_status r' = status"
    by (simp add: sqlActionStore_def updateStatus_found findById_update setStatus_def)
  show "as_updateStatus sqlActionStore i status msg result now st = Inr st' \<Longrightarrow> k \<noteq> i \<Longrightarrow> findById k st' = findById k st"
    by (auto simp: sqlActionStore_def updateStatus_def findById_update Let_def split: if_splits)
qed

lemma save_no_duplicate:
  assumes "actionSave (RuntimeAction.truncate (dr_action rq)) t = Inr t'" and "dp_store d = sqlActionStore"
  shows "duplicateOf d rq t' = None"
proof (cases "ac_idempotencyKey (dr_action rq)")
  case (Some k)
  let ?a = "RuntimeAction.truncate (dr_action rq)"
  have a: "ac_idempotencyKey ?a = Some k" "ac_actionId ?a = ac_actionId (dr_action rq)"
    using Some by (simp_all add: RuntimeAction.defs)
  have "Some k \<notin> ac_idempotencyKey ` set t" and t': "t' = t @ [rowToRuntimeAction ?a]"
    using assms(1) a by (auto simp: actionSave_def split: if_splits)
  then have "firstRow (\<lambda>r. ac_idempotencyKey r = Some k) t = None"
    by (induction t arbitrary: t') auto
  then have "findByIdempotencyKey k t' = Some (rowToRuntimeAction ?a)"
    using a by (simp add: findByIdempotencyKey_def t' firstRow_append rowToRuntimeAction_def)
  then show ?thesis using a Some by (simp add: duplicateOf_def assms(2) sqlActionStore_def rowToRuntimeAction_def truthy_def)
qed (simp add: duplicateOf_def truthy_def)

lemma catch_effects:
  "ds_executed (snd (dispatchCatch d adapter rq now m s)) = ds_executed s"
  "\<exists>ts. map de_eventType (ds_events (snd (dispatchCatch d adapter rq now m s))) = map de_eventType (ds_events s) @ ts \<and>
     (case fst (dispatchCatch d adapter rq now m s) of Inl e \<Rightarrow> ts = [] | Inr r \<Rightarrow> ts = [''dispatch_failed''] \<and> res_status r \<in> {''failed'', ''timeout''})"
  by (auto simp: dispatchCatch_def Let_def updateActionStatus_def split: sum.splits)

lemma run_effects:
  "ds_executed (snd (runAdapter d adapter rq now s)) = ds_executed s @ [ac_actionId (dr_action rq)]"
  "\<exists>ts. map de_eventType (ds_events (snd (runAdapter d adapter rq now s))) = map de_eventType (ds_events s) @ ts \<and>
     (case fst (runAdapter d adapter rq now s) of Inl e \<Rightarrow> ts = []
      | Inr r \<Rightarrow> (ts = [''dispatch_failed''] \<and> res_status r \<in> {''failed'', ''timeout''}) \<or> (ts = [''dispatch_completed''] \<and> res_status r = ''completed''))"
proof -
  let ?i = "ac_actionId (dr_action rq)"
  let ?s = "s\<lparr>ds_executed := ds_executed s @ [?i]\<rparr>"
  let ?x = "executeWithTimeout (ad_execute adapter (dr_action rq)) (nullish (ac_timeoutMs (dr_action rq)) 30000)"
  have cases: "(\<exists>m. runAdapter d adapter rq now s = dispatchCatch d adapter rq now m ?s) \<or>
     (\<exists>v s'. ?x = AdapterResolved v \<and> updateActionStatus d ?i ''completed'' None v now ?s = Inr s' \<and>
        runAdapter d adapter rq now s = (let result = (baseResult rq now ''completed'')\<lparr>res_result := v\<rparr> in
          (Inr result, emitEvent ''dispatch_completed'' rq (Some result)
               (endDispatchSpan ''completed'' None (recordDispatchAudit rq ''completed'' None s')))))"
  proof (cases ?x)
    case (AdapterResolved v)
    then show ?thesis
      by (cases "updateActionStatus d ?i ''completed'' None v now ?s") (auto simp: runAdapter_def Let_def)
  qed (auto simp: runAdapter_def Let_def)
  show "ds_executed (snd (runAdapter d adapter rq now s)) = ds_executed s @ [?i]"
    using cases by (auto simp: catch_effects Let_def dest!: updateActionStatus_frame)
  show "\<exists>ts. map de_eventType (ds_events (snd (runAdapter d adapter rq now s))) = map de_eventType (ds_events s) @ ts \<and>
     (case fst (runAdapter d adapter rq now s) of Inl e \<Rightarrow> ts = []
      | Inr r \<Rightarrow> (ts = [''dispatch_failed''] \<and> res_status r \<in> {''failed'', ''timeout''}) \<or> (ts = [''dispatch_completed''] \<and> res_status r = ''completed''))"
    using cases
  proof (elim disjE exE conjE)
    fix m assume eq: "runAdapter d adapter rq now s = dispatchCatch d adapter rq now m ?s"
    obtain ts where "map de_eventType (ds_events (snd (dispatchCatch d adapter rq now m ?s))) = map de_eventType (ds_events ?s) @ ts"
      "case fst (dispatchCatch d adapter rq now m ?s) of Inl e \<Rightarrow> ts = [] | Inr r \<Rightarrow> ts = [''dispatch_failed''] \<and> res_status r \<in> {''failed'', ''timeout''}"
      using catch_effects(2) [of d adapter rq now m ?s] by blast
    then show ?thesis unfolding eq
      by (intro exI [of _ ts]) (cases "fst (dispatchCatch d adapter rq now m ?s)"; simp)
  next
    fix v s' assume "updateActionStatus d ?i ''completed'' None v now ?s = Inr s'"
      and "runAdapter d adapter rq now s = (let result = (baseResult rq now ''completed'')\<lparr>res_result := v\<rparr> in
          (Inr result, emitEvent ''dispatch_completed'' rq (Some result)
               (endDispatchSpan ''completed'' None (recordDispatchAudit rq ''completed'' None s'))))"
    then show ?thesis by (auto simp: Let_def dest!: updateActionStatus_frame)
  qed
qed

lemma run_status: "fst (runAdapter d adapter rq now s) = Inr res \<Longrightarrow> res_status res \<in> {''completed'', ''failed'', ''timeout''}"
  using run_effects(2) [of d adapter rq now s] by auto

definition cleared :: "('p, 'st) dispatcher \<Rightarrow> 'p DispatchRequest \<Rightarrow> bool" where
  "cleared d rq \<longleftrightarrow> (\<forall>hook. dp_permissionHook d = Some hook \<longrightarrow> (\<exists>p. hook (dr_action rq) = Inr p \<and> pcr_allowed p))"

lemma toAdapter_executed:
  "ds_executed (snd (dispatchToAdapter d rq now s)) = ds_executed s \<or>
   ds_executed (snd (dispatchToAdapter d rq now s)) = ds_executed s @ [ac_actionId (dr_action rq)] \<and>
     (\<exists>a. getAdapter (dp_adapters d) (ac_targetRuntime (dr_action rq)) = Some a)"
  by (auto simp: dispatchToAdapter_def Let_def run_effects dest!: updateActionStatus_frame split: option.splits sum.splits)

lemma permission_executed:
  "ds_executed (snd (permissionStep d rq now s)) = ds_executed s \<or>
   ds_executed (snd (permissionStep d rq now s)) = ds_executed s @ [ac_actionId (dr_action rq)] \<and> cleared d rq \<and>
     (\<exists>a. getAdapter (dp_adapters d) (ac_targetRuntime (dr_action rq)) = Some a)"
  using toAdapter_executed [of d rq now s]
  by (auto simp: permissionStep_def Let_def cleared_def dest!: updateActionStatus_frame split: option.splits sum.splits)

lemma resolve_executed:
  "resolveIdempotencyDuplicate d rq ex now s = Inr (r, s') \<Longrightarrow> ds_executed s' = ds_executed s \<and> ds_events s' = ds_events s \<and>
     res_status r \<in> {''duplicate'', ''failed''} \<and> (res_status r = ''failed'') = (effectiveBehavior (dr_action rq) = Fail)"
  by (auto simp: resolveIdempotencyDuplicate_def Let_def dest!: updateActionStatus_frame split: duplicateBehavior.splits sum.splits)

section \<open>Properties\<close>

text \<open>
  C4: An adapter runs only for a cleared action, and at most once per dispatch: it is called only when the
  action is valid, was saved, is no duplicate, the permission hook (if any) allowed it, and the target
  runtime has an adapter.
\<close>

theorem adapter_runs_only_when_cleared:
  assumes "dispatch d rq now s = (out, s')"
  shows "ds_executed s' = ds_executed s \<or>
     ds_executed s' = ds_executed s @ [ac_actionId (dr_action rq)] \<and> validateRuntimeAction (dr_action rq) = None \<and> cleared d rq \<and>
     (\<exists>st. as_save (dp_store d) (RuntimeAction.truncate (dr_action rq)) (ds_store s) = Inr st \<and> duplicateOf d rq st = None) \<and>
     (\<exists>a. getAdapter (dp_adapters d) (ac_targetRuntime (dr_action rq)) = Some a)"
proof -
  let ?s = "emitEvent ''dispatch_requested'' rq None s"
  have "ds_executed s' = ds_executed s \<or> (\<exists>st. validateRuntimeAction (dr_action rq) = None \<and>
      as_save (dp_store d) (RuntimeAction.truncate (dr_action rq)) (ds_store s) = Inr st \<and> duplicateOf d rq st = None \<and>
      (out, s') = permissionStep d rq now (emitEvent ''dispatch_accepted'' rq None (?s\<lparr>ds_store := st\<rparr>)))"
    using assms by (auto simp: dispatch_def Let_def dest!: resolve_executed split: option.splits sum.splits)
  then consider "ds_executed s' = ds_executed s" | st where "validateRuntimeAction (dr_action rq) = None"
      "as_save (dp_store d) (RuntimeAction.truncate (dr_action rq)) (ds_store s) = Inr st" "duplicateOf d rq st = None"
      "(out, s') = permissionStep d rq now (emitEvent ''dispatch_accepted'' rq None (?s\<lparr>ds_store := st\<rparr>))"
    by blast
  then show ?thesis
  proof cases
    case 2
    let ?s1 = "emitEvent ''dispatch_accepted'' rq None (?s\<lparr>ds_store := st\<rparr>)"
    have "snd (permissionStep d rq now ?s1) = s'" using 2(4) by (metis snd_conv)
    moreover have "ds_executed ?s1 = ds_executed s" by (simp add: emitEvent_def)
    ultimately show ?thesis using permission_executed [of d rq now ?s1] 2(1-3) by auto
  qed simp
qed

definition demoAdapter :: "nat RuntimeAdapter" where
  "demoAdapter = \<lparr>ad_execute = (\<lambda>a. Some (5, AdapterResolved (Some 7))), ad_cancelUnsupported = False\<rparr>"

definition demoDispatcher :: "(nat, nat actionTable) dispatcher" where
  "demoDispatcher = \<lparr>dp_store = sqlActionStore, dp_adapters = registerAdapter ''tool_plane'' demoAdapter [],
     dp_permissionHook = Some (\<lambda>a. Inr \<lparr>pcr_allowed = True, pcr_reason = None\<rparr>)\<rparr>"

definition demoAction :: "string \<Rightarrow> nat DispatchAction" where
  "demoAction i = \<lparr>ac_actionId = i, ac_actionType = ''execute_tool'', ac_idempotencyKey = Some ''key'', ac_sourceModule = Some ''gateway'',
     ac_sourceAction = None, ac_targetRuntime = ''tool_plane'', ac_targetAction = ''test_tool'', ac_payload = 1, ac_correlationId = None,
     ac_causationId = None, ac_sessionId = None, ac_userId = None, ac_targetRef = None, ac_status = ''created'', ac_statusMessage = None,
     ac_result = None, ac_createdAt = 5, ac_updatedAt = 5, ac_timeoutMs = None, ac_duplicateBehavior = None\<rparr>"

definition demoDispatch :: "string \<Rightarrow> nat DispatchRequest" where
  "demoDispatch i = \<lparr>dr_requestId = ''req'', dr_action = demoAction i\<rparr>"

definition demoDState :: "nat RuntimeAction list \<Rightarrow> nat actionTable dstate" where
  "demoDState t = \<lparr>ds_store = t, ds_events = [], ds_audit = [], ds_spans = [], ds_executed = []\<rparr>"

lemmas demo_dispatch_defs = demoAdapter_def demoDispatcher_def demoAction_def demoDispatch_def demoDState_def registerAdapter_def
  getAdapter_def sqlActionStore_def actionSave_def validateRuntimeAction_def VALID_TARGET_RUNTIMES_def truthy_def RuntimeAction.defs

lemma demo_valid: "validateRuntimeAction (dr_action (demoDispatch ''a1'')) = None" "validateRuntimeAction (dr_action (demoDispatch ''a2'')) = None"
  by (simp_all add: demo_dispatch_defs)

theorem adapter_runs_only_when_cleared_witness:
  "ds_executed (snd (dispatch demoDispatcher (demoDispatch ''a1'') 9 (demoDState []))) = [''a1''] \<and> cleared demoDispatcher (demoDispatch ''a1'')"
proof -
  obtain out s' where run: "dispatch demoDispatcher (demoDispatch ''a1'') 9 (demoDState []) = (out, s')" by fastforce
  have "ds_executed s' = [''a1'']"
    using run by (auto simp: dispatch_defs demo_dispatch_defs executeWithTimeout_def timerDelay_def nullish_def duplicateOf_def findByIdempotencyKey_def updateActionStatus_def
        updateStatus_def updateRow_def rowToRuntimeAction_def setStatus_def dispatchCatch_def emitEvent_def recordDispatchAudit_def endDispatchSpan_def)
  with adapter_runs_only_when_cleared [OF run] run show ?thesis by (auto simp: demoDState_def)
qed

text \<open>
  C12: With the SQL store every dispatch of a valid action that could be saved ends: unless the permission hook
  throws, it returns a result that is completed, failed, timed out or denied, the action's row holds that
  same status, and no other action is touched.
\<close>

theorem dispatch_records_outcome:
  assumes "dp_store d = sqlActionStore" and "validateRuntimeAction (dr_action rq) = None"
    and "actionSave (RuntimeAction.truncate (dr_action rq)) (ds_store s) = Inr t"
    and "\<forall>hook e. dp_permissionHook d = Some hook \<longrightarrow> hook (dr_action rq) \<noteq> Inl e"
  shows "\<exists>res r s'. dispatch d rq now s = (Inr res, s') \<and> findById (ac_actionId (dr_action rq)) (ds_store s') = Some r \<and>
     ac_status r = res_status res \<and> res_status res \<in> {''completed'', ''failed'', ''timeout'', ''denied''} \<and>
     (\<forall>k. k \<noteq> ac_actionId (dr_action rq) \<longrightarrow> findById k (ds_store s') = findById k (ds_store s))"
proof -
  have dup: "duplicateOf d rq t = None" using save_no_duplicate [OF assms(3,1)] .
  have save: "as_save sqlActionStore (RuntimeAction.truncate (dr_action rq)) (ds_store s) = Inr t"
    using assms(3) by (simp add: sqlActionStore_def)
  have settled: "sql.settles (ac_actionId (dr_action rq)) s (dispatch d rq now s)"
    by (rule sql.dispatch_settles [OF assms(1,2) save dup assms(4)])
  have "dispatch d rq now s = permissionStep d rq now
      (emitEvent ''dispatch_accepted'' rq None ((emitEvent ''dispatch_requested'' rq None s)\<lparr>ds_store := t\<rparr>))"
    using assms(1,2) save dup by (simp add: dispatch_def Let_def)
  moreover have "res_status res \<in> {''completed'', ''failed'', ''timeout'', ''denied''}"
    if "fst (permissionStep d rq now x) = Inr res" for x res
    using that by (auto simp: permissionStep_def dispatchToAdapter_def Let_def dest!: run_status split: option.splits sum.splits if_splits)
  ultimately have st: "res_status res \<in> {''completed'', ''failed'', ''timeout'', ''denied''}" if "fst (dispatch d rq now s) = Inr res" for res
    using that by simp
  obtain res r where "fst (dispatch d rq now s) = Inr res" "findById (ac_actionId (dr_action rq)) (ds_store (snd (dispatch d rq now s))) = Some r"
    "ac_status r = res_status res" "\<forall>k. k \<noteq> ac_actionId (dr_action rq) \<longrightarrow> findById k (ds_store (snd (dispatch d rq now s))) = findById k (ds_store s)"
    using settled unfolding sql.settles_def by blast
  then show ?thesis using st by (metis prod.collapse)
qed

theorem dispatch_records_outcome_witness:
  "\<exists>res r s'. dispatch demoDispatcher (demoDispatch ''a1'') 9 (demoDState []) = (Inr res, s') \<and>
     findById ''a1'' (ds_store s') = Some r \<and> ac_status r = res_status res"
proof -
  have d: "dp_store demoDispatcher = sqlActionStore" by (simp add: demoDispatcher_def)
  have h: "\<forall>hook e. dp_permissionHook demoDispatcher = Some hook \<longrightarrow> hook (dr_action (demoDispatch ''a1'')) \<noteq> Inl e"
    by (simp add: demoDispatcher_def)
  obtain t where t: "actionSave (RuntimeAction.truncate (dr_action (demoDispatch ''a1''))) (ds_store (demoDState [])) = Inr t"
    by (simp add: demo_dispatch_defs)
  have "ac_actionId (dr_action (demoDispatch ''a1'')) = ''a1''" by (simp add: demoDispatch_def demoAction_def)
  with dispatch_records_outcome [OF d demo_valid(1) t h, of 9] show ?thesis by auto
qed

text \<open>
  No adapter can hang a dispatch: when the permission hook allows a saved action and its adapter does not
  settle within the policy's timeout (30 seconds by default), the dispatch returns \<open>timeout\<close> with the error
  code \<open>timeout\<close>, and the action's row says so.
\<close>

theorem hung_adapter_times_out:
  assumes "dp_store d = sqlActionStore" and "validateRuntimeAction (dr_action rq) = None"
    and "actionSave (RuntimeAction.truncate (dr_action rq)) (ds_store s) = Inr t" and "cleared d rq"
    and "getAdapter (dp_adapters d) (ac_targetRuntime (dr_action rq)) = Some a"
    and "ad_execute a (dr_action rq) = None \<or>
       (\<exists>delay out. ad_execute a (dr_action rq) = Some (delay, out) \<and> timerDelay (nullish (ac_timeoutMs (dr_action rq)) 30000) \<le> delay)"
  shows "\<exists>res r s'. dispatch d rq now s = (Inr res, s') \<and> res_status res = ''timeout'' \<and>
     map_option err_code (res_error res) = Some ''timeout'' \<and>
     findById (ac_actionId (dr_action rq)) (ds_store s') = Some r \<and> ac_status r = ''timeout''"
proof -
  let ?i = "ac_actionId (dr_action rq)"
  let ?s1 = "emitEvent ''dispatch_accepted'' rq None ((emitEvent ''dispatch_requested'' rq None s)\<lparr>ds_store := t\<rparr>)"
  have timeout: "executeWithTimeout (ad_execute a (dr_action rq)) (nullish (ac_timeoutMs (dr_action rq)) 30000) = AdapterRejected (ErrorInstance ''Timeout'')"
    using assms(6) by (auto simp: executeWithTimeout_def)
  obtain r where f: "findById ?i (ds_store ?s1) = Some r"
    using findById_save [OF assms(3), of ?i] by (simp add: RuntimeAction.defs)
  obtain s2 r2 where u: "updateActionStatus d ?i ''dispatching'' None None now ?s1 = Inr s2" and f2: "findById ?i (ds_store s2) = Some r2"
    using sql.updateActionStatus_ok [OF assms(1) f, of "''dispatching''" None None now] by blast
  let ?s3 = "(emitEvent ''dispatch_started'' rq None s2)\<lparr>ds_executed := ds_executed (emitEvent ''dispatch_started'' rq None s2) @ [?i]\<rparr>"
  have f3: "findById ?i (ds_store ?s3) = Some r2" using f2 by simp
  obtain s4 r4 where u4: "updateActionStatus d ?i ''timeout'' (Some ''Timeout'') None now ?s3 = Inr s4"
    and f4: "findById ?i (ds_store s4) = Some r4" "ac_status r4 = ''timeout''"
    using sql.updateActionStatus_ok [OF assms(1) f3, of "''timeout''" "Some ''Timeout''" None now] by blast
  have "as_save (dp_store d) (RuntimeAction.truncate (dr_action rq)) (ds_store s) = Inr t"
    using assms(1,3) by (simp add: sqlActionStore_def)
  then have "dispatch d rq now s = permissionStep d rq now ?s1"
    using assms(2) save_no_duplicate [OF assms(3,1)] by (simp add: dispatch_def Let_def)
  also have "\<dots> = dispatchToAdapter d rq now ?s1"
    using assms(4) by (auto simp: permissionStep_def cleared_def split: option.splits)
  also have "\<dots> = dispatchCatch d a rq now (ErrorInstance ''Timeout'') ?s3"
    using assms(5) u timeout by (simp add: dispatchToAdapter_def runAdapter_def Let_def)
  finally show ?thesis using u4 f4 by (simp add: dispatchCatch_def Let_def)
qed

theorem hung_adapter_times_out_witness:
  "\<exists>res s'. dispatch (demoDispatcher\<lparr>dp_adapters := [(''tool_plane'', \<lparr>ad_execute = (\<lambda>a. None), ad_cancelUnsupported = True\<rparr>)]\<rparr>)
       (demoDispatch ''a1'') 9 (demoDState []) = (Inr res, s') \<and> res_status res = ''timeout''"
proof -
  let ?d = "demoDispatcher\<lparr>dp_adapters := [(''tool_plane'', \<lparr>ad_execute = (\<lambda>a. None), ad_cancelUnsupported = True\<rparr>)]\<rparr>"
  have d: "dp_store ?d = sqlActionStore" and c: "cleared ?d (demoDispatch ''a1'')"
    and a: "getAdapter (dp_adapters ?d) (ac_targetRuntime (dr_action (demoDispatch ''a1''))) =
      Some \<lparr>ad_execute = (\<lambda>a. None), ad_cancelUnsupported = True\<rparr>"
    by (simp_all add: demo_dispatch_defs cleared_def)
  obtain t where t: "actionSave (RuntimeAction.truncate (dr_action (demoDispatch ''a1''))) (ds_store (demoDState [])) = Inr t"
    by (simp add: demo_dispatch_defs)
  from hung_adapter_times_out [OF d demo_valid(1) t c a, of 9] show ?thesis by auto
qed

text \<open>
  A repeated idempotency key is an exception, not a duplicate: with the SQL store, dispatching an action
  whose key another row has throws the table's uniqueness error out of \<open>dispatch\<close> before the duplicate is
  ever looked up. Nothing is saved or executed and no \<open>dispatch_duplicate\<close> event is emitted.
\<close>

theorem sql_duplicate_key_throws:
  assumes "dp_store d = sqlActionStore" and "validateRuntimeAction (dr_action rq) = None"
    and "ac_idempotencyKey (dr_action rq) = Some k" and "findByIdempotencyKey k (ds_store s) = Some existing"
    and "findById (ac_actionId (dr_action rq)) (ds_store s) = None"
  shows "dispatch d rq now s = (Inl ''UNIQUE constraint failed: runtime_actions.idempotency_key'', emitEvent ''dispatch_requested'' rq None s)"
proof -
  have "Some k \<in> ac_idempotencyKey ` set (ds_store s)"
    using assms(4) unfolding findByIdempotencyKey_def by (metis firstRow_key_Some imageI)
  moreover have "ac_actionId (dr_action rq) \<notin> ac_actionId ` set (ds_store s)"
    using assms(5) by (simp add: findById_def firstRow_key_None)
  moreover have "ac_sourceModule (dr_action rq) \<noteq> None"
    using assms(2) by (auto simp: validateRuntimeAction_def truthy_def split: if_splits option.splits)
  ultimately have "actionSave (RuntimeAction.truncate (dr_action rq)) (ds_store s) =
      Inl ''UNIQUE constraint failed: runtime_actions.idempotency_key''"
    using assms(3) by (simp add: actionSave_def RuntimeAction.defs)
  then show ?thesis using assms(1,2) by (simp add: dispatch_def Let_def sqlActionStore_def)
qed

theorem sql_duplicate_key_throws_witness:
  "fst (dispatch demoDispatcher (demoDispatch ''a2'') 9 (demoDState [RuntimeAction.truncate (demoAction ''a1'')])) =
     Inl ''UNIQUE constraint failed: runtime_actions.idempotency_key''"
proof -
  have d: "dp_store demoDispatcher = sqlActionStore" by (simp add: demoDispatcher_def)
  have k: "ac_idempotencyKey (dr_action (demoDispatch ''a2'')) = Some ''key''" by (simp add: demoDispatch_def demoAction_def)
  have e: "findByIdempotencyKey ''key'' (ds_store (demoDState [RuntimeAction.truncate (demoAction ''a1'')])) = Some (RuntimeAction.truncate (demoAction ''a1''))"
    by (simp add: findByIdempotencyKey_def demoDState_def demoAction_def RuntimeAction.defs)
  have n: "findById (ac_actionId (dr_action (demoDispatch ''a2''))) (ds_store (demoDState [RuntimeAction.truncate (demoAction ''a1'')])) = None"
    by (simp add: findById_def demoDState_def demoDispatch_def demoAction_def RuntimeAction.defs)
  from sql_duplicate_key_throws [OF d demo_valid(2) k e n] show ?thesis by simp
qed

text \<open>
  For a store that accepts the repeated key and finds the first action, a duplicate is never executed: the
  result is \<open>duplicate\<close>, or \<open>failed\<close> with \<open>duplicate_rejected\<close> when the behaviour asks for it or the target
  action is a write, and the events are requested, accepted and duplicate.
\<close>

theorem duplicates_never_execute:
  assumes "dispatch d rq now s = (Inr res, s')" and "validateRuntimeAction (dr_action rq) = None"
    and "as_save (dp_store d) (RuntimeAction.truncate (dr_action rq)) (ds_store s) = Inr st" and "duplicateOf d rq st = Some existing"
  shows "ds_executed s' = ds_executed s \<and>
     res_status res = (if effectiveBehavior (dr_action rq) = Fail then ''failed'' else ''duplicate'') \<and>
     (isWriteActionClass (ac_targetAction (dr_action rq)) \<longrightarrow> ac_duplicateBehavior (dr_action rq) \<noteq> Some Drop \<longrightarrow> res_status res = ''failed'') \<and>
     map de_eventType (ds_events s') = map de_eventType (ds_events s) @ [''dispatch_requested'', ''dispatch_accepted'', ''dispatch_duplicate'']"
proof -
  let ?s1 = "emitEvent ''dispatch_accepted'' rq None ((emitEvent ''dispatch_requested'' rq None s)\<lparr>ds_store := st\<rparr>)"
  obtain s2 where r: "resolveIdempotencyDuplicate d rq existing now ?s1 = Inr (res, s2)"
    and s': "ds_executed s' = ds_executed s2" "map de_eventType (ds_events s') = map de_eventType (ds_events s2) @ [''dispatch_duplicate'']"
    using assms by (auto simp: dispatch_def Let_def split: sum.splits)
  have "res_status res = (if effectiveBehavior (dr_action rq) = Fail then ''failed'' else ''duplicate'')"
    using resolve_executed [OF r] by auto
  moreover have "isWriteActionClass (ac_targetAction (dr_action rq)) \<longrightarrow> ac_duplicateBehavior (dr_action rq) \<noteq> Some Drop \<longrightarrow>
      effectiveBehavior (dr_action rq) = Fail"
    by (cases "ac_duplicateBehavior (dr_action rq)"; cases "the (ac_duplicateBehavior (dr_action rq))")
       (auto simp: effectiveBehavior_def getWriteActionClass_def nullish_def Let_def)
  moreover have "ds_executed ?s1 = ds_executed s"
    "map de_eventType (ds_events ?s1) = map de_eventType (ds_events s) @ [''dispatch_requested'', ''dispatch_accepted'']"
    by (simp_all add: emitEvent_def)
  ultimately show ?thesis using resolve_executed [OF r] s' by auto
qed

text \<open>A store without the uniqueness constraint, as the interface allows.\<close>

definition listStore :: "('p, 'p actionTable) actionStore" where
  "listStore = \<lparr>as_save = (\<lambda>a t. Inr (t @ [a])), as_findByIdempotencyKey = findByIdempotencyKey, as_updateStatus = updateStatus\<rparr>"

theorem duplicates_never_execute_witness:
  "\<exists>res s'. dispatch (demoDispatcher\<lparr>dp_store := listStore\<rparr>) (demoDispatch ''a2'') 9 (demoDState [RuntimeAction.truncate (demoAction ''a1'')]) = (Inr res, s') \<and>
     res_status res = ''duplicate'' \<and> ds_executed s' = []"
proof -
  let ?d = "demoDispatcher\<lparr>dp_store := listStore\<rparr>" and ?t = "[RuntimeAction.truncate (demoAction ''a1'')]"
  let ?st = "?t @ [RuntimeAction.truncate (dr_action (demoDispatch ''a2''))]"
  have save: "as_save (dp_store ?d) (RuntimeAction.truncate (dr_action (demoDispatch ''a2''))) (ds_store (demoDState ?t)) = Inr ?st"
    by (simp add: listStore_def demoDState_def)
  have dup: "duplicateOf ?d (demoDispatch ''a2'') ?st = Some (RuntimeAction.truncate (demoAction ''a1''))"
    by (simp add: duplicateOf_def listStore_def findByIdempotencyKey_def demoDispatch_def demoAction_def RuntimeAction.defs truthy_def)
  have e: "effectiveBehavior (dr_action (demoDispatch ''a2'')) = ReturnPrevious"
    by (simp add: effectiveBehavior_def demoDispatch_def demoAction_def nullish_def getWriteActionClass_def isWriteActionClass_def WRITE_ACTION_TYPES_def)
  obtain res s' where run: "dispatch ?d (demoDispatch ''a2'') 9 (demoDState ?t) = (Inr res, s')"
    using demo_valid(2) save dup e by (simp add: dispatch_def resolveIdempotencyDuplicate_def Let_def)
  from duplicates_never_execute [OF run demo_valid(2) save dup] e run show ?thesis by (simp add: demoDState_def)
qed

text \<open>
  What the SQL store reads back is what was saved: the action is found under its id and under its
  idempotency key, with every field except that references without a column or without text are absent; a status
  update then changes status, time and the given message and result, and nothing else.
\<close>

theorem action_store_roundtrip:
  assumes "actionSave a t = Inr t'"
  shows "findById (ac_actionId a) t' = Some (a\<lparr>ac_targetRef := rowTargetRef (ac_targetRef a)\<rparr>) \<and>
     (\<forall>k. ac_idempotencyKey a = Some k \<longrightarrow> findByIdempotencyKey k t' = findById (ac_actionId a) t') \<and>
     (\<exists>t''. updateStatus (ac_actionId a) st m r now t' = Inr t'' \<and>
        findById (ac_actionId a) t'' = map_option (setStatus st m r now) (findById (ac_actionId a) t'))"
proof -
  have f: "findById (ac_actionId a) t' = Some (rowToRuntimeAction a)" using findById_save [OF assms] by simp
  have "findByIdempotencyKey k t' = Some (rowToRuntimeAction a)" if "ac_idempotencyKey a = Some k" for k
  proof -
    have "Some k \<notin> ac_idempotencyKey ` set t" "t' = t @ [rowToRuntimeAction a]"
      using assms that by (auto simp: actionSave_def split: if_splits)
    then show ?thesis
      using that firstRow_key_None [of ac_idempotencyKey "Some k" t]
      by (simp add: findByIdempotencyKey_def firstRow_append rowToRuntimeAction_def)
  qed
  then show ?thesis
    using f updateStatus_found [OF f, of st m r now] findById_update [of "ac_actionId a" "ac_actionId a" st m r now t']
    by (auto simp: rowToRuntimeAction_def)
qed

theorem action_store_roundtrip_witness:
  "\<exists>t'. actionSave (RuntimeAction.truncate (demoAction ''a1'')) [] = Inr t' \<and> findByIdempotencyKey ''key'' t' = findById ''a1'' t' \<and>
     findById ''a1'' t' \<noteq> None"
proof -
  have a: "ac_actionId (RuntimeAction.truncate (demoAction ''a1'')) = ''a1''" "ac_idempotencyKey (RuntimeAction.truncate (demoAction ''a1'')) = Some ''key''"
    by (simp_all add: demoAction_def RuntimeAction.defs)
  obtain t' where s: "actionSave (RuntimeAction.truncate (demoAction ''a1'')) [] = Inr t'"
    by (simp add: actionSave_def demoAction_def RuntimeAction.defs)
  from action_store_roundtrip [OF s] s a show ?thesis by auto
qed

end
