(* ===== verification/Recovery.thy ===== *)
theory Recovery
  imports Retry Dispatcher Run_Stores
begin

text \<open>
  Recovery: the cancellation coordinator (\<open>recovery/cancellation-coordinator.ts\<close>) with the abort registry of live runs
  (\<open>kernel/run-abort-registry.ts\<close>), the orphan scanner (\<open>recovery/orphan-scanner.ts\<close>), the sweep of stale runs
  (\<open>recovery/stale-run-recovery.ts\<close>) and the checkpoints (\<open>recovery/recovery-manager.ts\<close>).

  The coordinator works on the rows its configuration declares (\<open>recovery/types.ts\<close>); the stores it may lack are options.
  A store may throw at every update (\<open>cc_throws\<close>), and what was written before an exception stays written. The sweep works on
  the tables of runtime actions and kernel runs.
\<close>

section \<open>The abort registry\<close>

text \<open>Registered runs with the registration time, and the controllers aborted.\<close>

record abortRegistry =
  ab_registered :: "(string, timestamp) jsmap"
  ab_aborted :: "string list"

definition registerRunAbort :: "timestamp \<Rightarrow> string \<Rightarrow> abortRegistry \<Rightarrow> abortRegistry" where
  "registerRunAbort now i a = a\<lparr>ab_registered := mapSet i now (ab_registered a)\<rparr>"

definition abortRun :: "string \<Rightarrow> abortRegistry \<Rightarrow> bool \<times> abortRegistry" where
  "abortRun i a = (case mapGet (ab_registered a) i of None \<Rightarrow> (False, a) | Some e \<Rightarrow> (True, a\<lparr>ab_aborted := ab_aborted a @ [i]\<rparr>))"

definition unregisterRunAbort :: "string \<Rightarrow> abortRegistry \<Rightarrow> abortRegistry" where
  "unregisterRunAbort i a = a\<lparr>ab_registered := mapDelete i (ab_registered a)\<rparr>"

definition isRunRegistered :: "string \<Rightarrow> abortRegistry \<Rightarrow> bool" where
  "isRunRegistered i a = mapHas (ab_registered a) i"

section \<open>The rows of the coordinator\<close>

record ExecutionRef =
  er_refId :: string
  er_refType :: string
  er_status :: string

record CoordToolRow =
  cx_toolName :: string
  cx_toolStatus :: string
  cx_synthetic :: bool

record CoordPlannerRow =
  cx_plannerStatus :: string
  cx_activeExecutionRefs :: "ExecutionRef list option"

record CoordKernelRow =
  cx_kernelStatus :: string
  cx_pendingToolCalls :: "string list option"

record CoordStepRow =
  cx_stepRunId :: string
  cx_workflowRunId :: string
  cx_stepStatus :: string
  cx_kernelRunId :: "string option"
  cx_subagentRunId :: "string option"
  cx_toolCallId :: "string option"
  cx_approvalId :: "string option"

record workflowRows =
  cx_runs :: "(string, string) jsmap"
  cx_steps :: "CoordStepRow list"
  cx_stepLookup :: bool

type_synonym statusRows = "(string, string) jsmap"

record coord =
  cc_tools :: "(string, CoordToolRow) jsmap"
  cc_planner :: "(string, CoordPlannerRow) jsmap"
  cc_background :: statusRows
  cc_kernel :: "(string, CoordKernelRow) jsmap"
  cc_workflow :: "workflowRows option"
  cc_approval :: "statusRows option"
  cc_wait :: "statusRows option"
  cc_connector :: "statusRows option"
  cc_events :: "(string \<times> string) list"
  cc_registry :: abortRegistry

text \<open>
  Where a write can fail: each store by the id written, and of the tool executions the status and the result apart, so
  that one write may go through and the next throw.
\<close>

datatype coordStore = ToolStore | ToolResultStore | PlannerStore | BackgroundStore | KernelStore | WorkflowStore | StepStore
  | ApprovalStore | WaitStore | ConnectorStore | EventStore

type_synonym coordFault = "coordStore \<Rightarrow> string \<Rightarrow> string option"
type_synonym 'a coord_op = "coord \<Rightarrow> (string + 'a) \<times> coord"

definition bindC :: "'a coord_op \<Rightarrow> ('a \<Rightarrow> 'b coord_op) \<Rightarrow> 'b coord_op" where
  "bindC m f s = (case m s of (Inl e, s') \<Rightarrow> (Inl e, s') | (Inr a, s') \<Rightarrow> f a s')"

definition returnC :: "'a \<Rightarrow> 'a coord_op" where
  "returnC a s = (Inr a, s)"

text \<open>\<open>try { m } catch { h }\<close>, with what \<open>m\<close> wrote.\<close>

definition tryC :: "'a coord_op \<Rightarrow> 'a \<Rightarrow> 'a coord_op" where
  "tryC m h s = (case m s of (Inl e, s') \<Rightarrow> (Inr h, s') | (Inr a, s') \<Rightarrow> (Inr a, s'))"

definition writeC :: "coordFault \<Rightarrow> coordStore \<Rightarrow> string \<Rightarrow> (coord \<Rightarrow> coord) \<Rightarrow> unit coord_op" where
  "writeC fault st i f s = (case fault st i of Some e \<Rightarrow> (Inl e, s) | None \<Rightarrow> (Inr (), f s))"

definition onKey :: "'k \<Rightarrow> ('v \<Rightarrow> 'v) \<Rightarrow> ('k, 'v) jsmap \<Rightarrow> ('k, 'v) jsmap" where
  "onKey k f m = map (\<lambda>(j, v). (j, if j = k then f v else v)) m"

definition setToolRow :: "string \<Rightarrow> string \<Rightarrow> coord \<Rightarrow> coord" where
  "setToolRow i st s = s\<lparr>cc_tools := onKey i (\<lambda>r. r\<lparr>cx_toolStatus := st\<rparr>) (cc_tools s)\<rparr>"

definition setPlannerRow :: "string \<Rightarrow> string \<Rightarrow> coord \<Rightarrow> coord" where
  "setPlannerRow i st s = s\<lparr>cc_planner := onKey i (\<lambda>r. r\<lparr>cx_plannerStatus := st\<rparr>) (cc_planner s)\<rparr>"

definition setBackgroundRow :: "string \<Rightarrow> string \<Rightarrow> coord \<Rightarrow> coord" where
  "setBackgroundRow i st s = s\<lparr>cc_background := onKey i (\<lambda>r. st) (cc_background s)\<rparr>"

definition setKernelRow :: "string \<Rightarrow> string \<Rightarrow> coord \<Rightarrow> coord" where
  "setKernelRow i st s = s\<lparr>cc_kernel := onKey i (\<lambda>r. r\<lparr>cx_kernelStatus := st\<rparr>) (cc_kernel s)\<rparr>"

definition setWorkflowRow :: "string \<Rightarrow> string \<Rightarrow> coord \<Rightarrow> coord" where
  "setWorkflowRow i st s = s\<lparr>cc_workflow := map_option (\<lambda>w. w\<lparr>cx_runs := onKey i (\<lambda>r. st) (cx_runs w)\<rparr>) (cc_workflow s)\<rparr>"

definition setStepRow :: "string \<Rightarrow> string \<Rightarrow> coord \<Rightarrow> coord" where
  "setStepRow i st s = s\<lparr>cc_workflow := map_option (\<lambda>w. w\<lparr>cx_steps := updateRow cx_stepRunId i (\<lambda>r. r\<lparr>cx_stepStatus := st\<rparr>) (cx_steps w)\<rparr>) (cc_workflow s)\<rparr>"

definition markSynthetic :: "string \<Rightarrow> coord \<Rightarrow> coord" where
  "markSynthetic i s = s\<lparr>cc_tools := onKey i (\<lambda>r. r\<lparr>cx_synthetic := True\<rparr>) (cc_tools s)\<rparr>"

definition emitCancellationEvent :: "coordFault \<Rightarrow> string \<Rightarrow> string \<Rightarrow> unit coord_op" where
  "emitCancellationEvent fault eventType targetId = writeC fault EventStore targetId (\<lambda>s. s\<lparr>cc_events := cc_events s @ [(eventType, targetId)]\<rparr>)"

record CancellationResult =
  cn_status :: string
  cn_affectedRefs :: "string list"
  cn_failedRefs :: "string list"
  cn_partialRefs :: "string list"
  cn_sideEffectNotice :: bool

definition cancelResult :: "string \<Rightarrow> string list \<Rightarrow> string list \<Rightarrow> string list \<Rightarrow> bool \<Rightarrow> CancellationResult" where
  "cancelResult st a f p n = \<lparr>cn_status = st, cn_affectedRefs = a, cn_failedRefs = f, cn_partialRefs = p, cn_sideEffectNotice = n\<rparr>"

definition notCancellable :: "string \<Rightarrow> CancellationResult" where
  "notCancellable i = cancelResult ''not_cancellable'' [] [i] [] False"

definition alreadyTerminal :: "string \<Rightarrow> CancellationResult" where
  "alreadyTerminal i = cancelResult ''already_terminal'' [] [] [i] False"

definition isTerminalStatus :: "string \<Rightarrow> bool" where
  "isTerminalStatus st = (st \<in> set [''completed'', ''failed'', ''cancelled'', ''archived'', ''expired'', ''timeout'', ''denied'', ''rejected''])"

definition EXTERNAL_TOOLS :: "string list" where
  "EXTERNAL_TOOLS = [''sendEmail'', ''sendMessage'', ''createTicket'', ''postToApi'', ''writeFile'', ''deleteFile'', ''updateDatabase'', ''sendNotification'']"

definition hasExternalSideEffects :: "string \<Rightarrow> bool" where
  "hasExternalSideEffects toolName = list_ex (\<lambda>t. str_includes (toLowerCase toolName) (toLowerCase t)) EXTERNAL_TOOLS"

section \<open>Cancelling one target\<close>

record SyntheticResult =
  sy_toolCallId :: string
  sy_reason :: string
  sy_sideEffectsPossible :: bool

definition cancelTool :: "coordFault \<Rightarrow> string \<Rightarrow> SyntheticResult coord_op" where
  "cancelTool fault i s = (case mapGet (cc_tools s) i of
     None \<Rightarrow> (Inr \<lparr>sy_toolCallId = i, sy_reason = ''Tool execution not found'', sy_sideEffectsPossible = False\<rparr>, s)
   | Some r \<Rightarrow>
       if cx_toolStatus r \<in> set [''completed'', ''failed'', ''cancelled'']
       then (Inr \<lparr>sy_toolCallId = i, sy_reason = ''Tool already in terminal state'', sy_sideEffectsPossible = False\<rparr>, s)
       else bindC (writeC fault ToolStore i (setToolRow i ''cancelled'')) (\<lambda>u.
            bindC (writeC fault ToolResultStore i (markSynthetic i)) (\<lambda>u.
            bindC (emitCancellationEvent fault ''tool_execution_cancelled'' i) (\<lambda>u.
            returnC \<lparr>sy_toolCallId = i, sy_reason = ''Tool execution cancelled'', sy_sideEffectsPossible = hasExternalSideEffects (cx_toolName r)\<rparr>))) s)"

definition cancelBackgroundRun :: "coordFault \<Rightarrow> string \<Rightarrow> CancellationResult coord_op" where
  "cancelBackgroundRun fault i s = (case mapGet (cc_background s) i of
     None \<Rightarrow> (Inr (notCancellable i), s)
   | Some st \<Rightarrow>
       if st \<notin> set [''queued'', ''running'', ''recovering''] then (Inr (alreadyTerminal i), s)
       else bindC (writeC fault BackgroundStore i (setBackgroundRow i ''cancelled'')) (\<lambda>u.
            bindC (emitCancellationEvent fault ''background_run_cancelled'' i) (\<lambda>u.
            returnC (cancelResult ''completed'' [i] [] [] False))) s)"

fun cancelPendingTools :: "coordFault \<Rightarrow> string list \<Rightarrow> string list \<Rightarrow> string list \<Rightarrow> (string list \<times> string list) coord_op" where
  "cancelPendingTools fault [] affected failed = returnC (affected, failed)"
| "cancelPendingTools fault (i # ids) affected failed =
     bindC (tryC (bindC (cancelTool fault i) (\<lambda>r. returnC True)) False) (\<lambda>ok.
       if ok then cancelPendingTools fault ids (affected @ [i]) failed else cancelPendingTools fault ids affected (failed @ [i]))"

definition cancelKernelRun :: "coordFault \<Rightarrow> string \<Rightarrow> CancellationResult coord_op" where
  "cancelKernelRun fault i s = (case mapGet (cc_kernel s) i of
     None \<Rightarrow> (Inr (notCancellable i), s)
   | Some r \<Rightarrow>
       if cx_kernelStatus r \<in> set [''completed'', ''failed'', ''cancelled''] then (Inr (alreadyTerminal i), s)
       else bindC (cancelPendingTools fault (nullish (cx_pendingToolCalls r) []) [i] []) (\<lambda>(affected, failed).
            bindC (writeC fault KernelStore i (setKernelRow i ''cancelled'')) (\<lambda>u.
            bindC (\<lambda>s. (Inr (), s\<lparr>cc_registry := snd (abortRun i (cc_registry s))\<rparr>)) (\<lambda>u.
            bindC (emitCancellationEvent fault ''kernel_run_cancelled'' i) (\<lambda>u.
            returnC (cancelResult (if length failed > 0 then ''partial'' else ''completed'') affected failed [] False))))) s)"

text \<open>A target in one of the stores that hold a status only: how it is read and written.\<close>

definition statusOfRow :: "(coord \<Rightarrow> statusRows option) \<Rightarrow> string \<Rightarrow> coord \<Rightarrow> string option" where
  "statusOfRow rows i s = Option.bind (rows s) (\<lambda>m. mapGet m i)"

definition setApprovalRow :: "string \<Rightarrow> string \<Rightarrow> coord \<Rightarrow> coord" where
  "setApprovalRow i st s = s\<lparr>cc_approval := map_option (onKey i (\<lambda>r. st)) (cc_approval s)\<rparr>"

definition setWaitRow :: "string \<Rightarrow> string \<Rightarrow> coord \<Rightarrow> coord" where
  "setWaitRow i st s = s\<lparr>cc_wait := map_option (onKey i (\<lambda>r. st)) (cc_wait s)\<rparr>"

definition setConnectorRow :: "string \<Rightarrow> string \<Rightarrow> coord \<Rightarrow> coord" where
  "setConnectorRow i st s = s\<lparr>cc_connector := map_option (onKey i (\<lambda>r. st)) (cc_connector s)\<rparr>"

definition cancelTerminalStoreRef :: "coordFault \<Rightarrow> string \<Rightarrow> coordStore \<Rightarrow> (coord \<Rightarrow> statusRows option) \<Rightarrow>
    (string \<Rightarrow> string \<Rightarrow> coord \<Rightarrow> coord) \<Rightarrow> string \<Rightarrow> CancellationResult coord_op" where
  "cancelTerminalStoreRef fault eventType st rows put i s = (case statusOfRow rows i s of
     None \<Rightarrow> (Inr (notCancellable i), s)
   | Some status \<Rightarrow>
       if isTerminalStatus status then (Inr (alreadyTerminal i), s)
       else bindC (writeC fault st i (put i ''cancelled'')) (\<lambda>u.
            bindC (emitCancellationEvent fault eventType i) (\<lambda>u.
            returnC (cancelResult ''completed'' [i] [] [] False))) s)"

section \<open>References\<close>

record RefResult =
  rf_cancelled :: bool
  rf_alreadyTerminal :: bool
  rf_sideEffects :: bool

definition refResult :: "bool \<Rightarrow> bool \<Rightarrow> bool \<Rightarrow> RefResult" where
  "refResult c t x = \<lparr>rf_cancelled = c, rf_alreadyTerminal = t, rf_sideEffects = x\<rparr>"

definition ofStatus :: "CancellationResult \<Rightarrow> RefResult" where
  "ofStatus r = refResult (cn_status r = ''completed'') (cn_status r = ''already_terminal'') False"

text \<open>\<open>cancelRef\<close>, over what it does with a workflow run and with a step.\<close>

definition cancelRefWith :: "(string \<Rightarrow> CancellationResult coord_op) \<Rightarrow> (string \<Rightarrow> CancellationResult coord_op) \<Rightarrow>
    coordFault \<Rightarrow> ExecutionRef \<Rightarrow> RefResult coord_op" where
  "cancelRefWith workflow step fault ref s =
     (let i = er_refId ref; t = er_refType ref in
      if er_status ref \<in> set [''completed'', ''failed'', ''cancelled''] then (Inr (refResult False True False), s)
      else if t = ''tool_execution'' then
        (let x = (case mapGet (cc_tools s) i of Some r \<Rightarrow> hasExternalSideEffects (cx_toolName r) | None \<Rightarrow> False) in
         bindC (cancelTool fault i) (\<lambda>r. returnC (refResult True False x)) s)
      else if t = ''background_run'' then bindC (cancelBackgroundRun fault i) (\<lambda>r. returnC (refResult True False False)) s
      else if t = ''kernel_run'' then bindC (cancelKernelRun fault i) (\<lambda>r. returnC (refResult True False False)) s
      else if t = ''workflow_run'' then bindC (workflow i) (\<lambda>r. returnC (refResult True False False)) s
      else if t = ''workflow_step_run'' then bindC (step i) (\<lambda>r. returnC (refResult True False False)) s
      else if t = ''approval_request'' then
        bindC (cancelTerminalStoreRef fault ''approval_request_cancelled'' ApprovalStore cc_approval setApprovalRow i) (\<lambda>r. returnC (ofStatus r)) s
      else if t = ''wait_condition'' then
        bindC (cancelTerminalStoreRef fault ''wait_condition_cancelled'' WaitStore cc_wait setWaitRow i) (\<lambda>r. returnC (ofStatus r)) s
      else if t = ''connector_operation'' then
        bindC (cancelTerminalStoreRef fault ''connector_operation_cancelled'' ConnectorStore cc_connector setConnectorRow i) (\<lambda>r. returnC (ofStatus r)) s
      else (Inr (refResult False False False), s))"

definition childRef :: "string \<Rightarrow> string \<Rightarrow> string option \<Rightarrow> ExecutionRef list" where
  "childRef st t i = (if truthy i then [\<lparr>er_refId = the i, er_refType = t, er_status = st\<rparr>] else [])"

definition getWorkflowStepChildRefs :: "CoordStepRow \<Rightarrow> ExecutionRef list" where
  "getWorkflowStepChildRefs r = childRef (cx_stepStatus r) ''kernel_run'' (cx_kernelRunId r) @
     childRef (cx_stepStatus r) ''background_run'' (cx_subagentRunId r) @ childRef (cx_stepStatus r) ''tool_execution'' (cx_toolCallId r) @
     childRef (cx_stepStatus r) ''approval_request'' (cx_approvalId r)"

text \<open>The children of a step are never workflows or steps, so the recursion ends there.\<close>

definition cancelChildRef :: "coordFault \<Rightarrow> ExecutionRef \<Rightarrow> RefResult coord_op" where
  "cancelChildRef = cancelRefWith (\<lambda>i. returnC (notCancellable i)) (\<lambda>i. returnC (notCancellable i))"

text \<open>The lists of a result under construction: affected, failed, partial, side effects.\<close>

type_synonym tally = "string list \<times> string list \<times> string list \<times> bool"

definition countRef :: "string \<Rightarrow> RefResult \<Rightarrow> tally \<Rightarrow> tally" where
  "countRef i r acc = (case acc of (a, f, p, x) \<Rightarrow>
     (if rf_cancelled r then a @ [i] else a, f, if rf_alreadyTerminal r then p @ [i] else p, x \<or> rf_sideEffects r))"

definition countFailed :: "string \<Rightarrow> tally \<Rightarrow> tally" where
  "countFailed i acc = (case acc of (a, f, p, x) \<Rightarrow> (a, f @ [i], p, x))"

definition tallyResult :: "tally \<Rightarrow> bool \<Rightarrow> CancellationResult" where
  "tallyResult acc notice = (case acc of (a, f, p, x) \<Rightarrow>
     cancelResult (if length f > 0 \<or> length p > 0 then ''partial'' else ''completed'') a f p (notice \<and> x))"

text \<open>Every reference in its own \<open>try\<close> (planner runs and single steps).\<close>

fun cancelEach :: "(ExecutionRef \<Rightarrow> RefResult coord_op) \<Rightarrow> ExecutionRef list \<Rightarrow> tally \<Rightarrow> tally coord_op" where
  "cancelEach cancelOne [] acc = returnC acc"
| "cancelEach cancelOne (ref # refs) acc =
     bindC (tryC (bindC (cancelOne ref) (\<lambda>r. returnC (countRef (er_refId ref) r acc))) (countFailed (er_refId ref) acc))
       (\<lambda>acc'. cancelEach cancelOne refs acc')"

definition cancelWorkflowStepRun :: "coordFault \<Rightarrow> string \<Rightarrow> CancellationResult coord_op" where
  "cancelWorkflowStepRun fault i s =
     (case Option.bind (cc_workflow s) (\<lambda>w. if cx_stepLookup w then firstRow (\<lambda>r. cx_stepRunId r = i) (cx_steps w) else None) of
       None \<Rightarrow> (Inr (notCancellable i), s)
     | Some r \<Rightarrow>
         if isTerminalStatus (cx_stepStatus r) then (Inr (alreadyTerminal i), s)
         else bindC (writeC fault StepStore i (setStepRow i ''cancelled'')) (\<lambda>u.
              bindC (cancelEach (cancelChildRef fault) (getWorkflowStepChildRefs r) ([i], [], [], False)) (\<lambda>acc.
              bindC (emitCancellationEvent fault ''workflow_step_run_cancelled'' i) (\<lambda>u.
              returnC (tallyResult acc False)))) s)"

text \<open>
  The steps of a run: one \<open>try\<close> around the step and its children. The lists are pushed to as the children are cancelled, so a
  throw keeps what was counted before it; here the tally travels with the exception.
\<close>

fun cancelChildren :: "coordFault \<Rightarrow> ExecutionRef list \<Rightarrow> tally \<Rightarrow> (bool \<times> tally) coord_op" where
  "cancelChildren fault [] acc = returnC (True, acc)"
| "cancelChildren fault (ref # refs) acc =
     bindC (tryC (bindC (cancelChildRef fault ref) (\<lambda>r. returnC (True, countRef (er_refId ref) r acc))) (False, acc))
       (\<lambda>(ok, acc'). if ok then cancelChildren fault refs acc' else returnC (False, acc'))"

definition cancelStep :: "coordFault \<Rightarrow> CoordStepRow \<Rightarrow> tally \<Rightarrow> tally coord_op" where
  "cancelStep fault r acc = (let i = cx_stepRunId r in
     if isTerminalStatus (cx_stepStatus r) then returnC (case acc of (a, f, p, x) \<Rightarrow> (a, f, p @ [i], x))
     else bindC (tryC (bindC (writeC fault StepStore i (setStepRow i ''cancelled'')) (\<lambda>u. returnC True)) False) (\<lambda>ok.
          if \<not> ok then returnC (countFailed i acc)
          else bindC (cancelChildren fault (getWorkflowStepChildRefs r) (case acc of (a, f, p, x) \<Rightarrow> (a @ [i], f, p, x))) (\<lambda>(ok', acc').
               returnC (if ok' then acc' else countFailed i acc'))))"

fun cancelSteps :: "coordFault \<Rightarrow> CoordStepRow list \<Rightarrow> tally \<Rightarrow> tally coord_op" where
  "cancelSteps fault [] acc = returnC acc"
| "cancelSteps fault (r # rs) acc = bindC (cancelStep fault r acc) (\<lambda>acc'. cancelSteps fault rs acc')"

definition cancelWorkflowRunRef :: "coordFault \<Rightarrow> string \<Rightarrow> CancellationResult coord_op" where
  "cancelWorkflowRunRef fault i s = (case cc_workflow s of
     None \<Rightarrow> (Inr (notCancellable i), s)
   | Some w \<Rightarrow> (case mapGet (cx_runs w) i of
       None \<Rightarrow> (Inr (notCancellable i), s)
     | Some st \<Rightarrow>
         if isTerminalStatus st then (Inr (alreadyTerminal i), s)
         else bindC (cancelSteps fault (filter (\<lambda>r. cx_workflowRunId r = i) (cx_steps w)) ([i], [], [], False)) (\<lambda>acc.
              bindC (writeC fault WorkflowStore i (setWorkflowRow i ''cancelled'')) (\<lambda>u.
              bindC (emitCancellationEvent fault ''workflow_run_cancelled'' i) (\<lambda>u.
              returnC (tallyResult acc True)))) s))"

definition cancelRef :: "coordFault \<Rightarrow> ExecutionRef \<Rightarrow> RefResult coord_op" where
  "cancelRef fault = cancelRefWith (cancelWorkflowRunRef fault) (cancelWorkflowStepRun fault) fault"

definition cancelPlanner :: "coordFault \<Rightarrow> string \<Rightarrow> CancellationResult coord_op" where
  "cancelPlanner fault i s = (case mapGet (cc_planner s) i of
     None \<Rightarrow> (Inr (notCancellable i), s)
   | Some r \<Rightarrow>
       if cx_plannerStatus r \<in> set [''completed'', ''failed'', ''cancelled'', ''archived''] then (Inr (alreadyTerminal i), s)
       else bindC (cancelEach (cancelRef fault) (nullish (cx_activeExecutionRefs r) []) ([i], [], [], False)) (\<lambda>acc.
            bindC (writeC fault PlannerStore i (setPlannerRow i ''cancelled'')) (\<lambda>u.
            bindC (emitCancellationEvent fault ''planner_run_cancelled'' i) (\<lambda>u.
            returnC (tallyResult acc True)))) s)"

definition cancelTarget :: "coordFault \<Rightarrow> string \<Rightarrow> string \<Rightarrow> CancellationResult coord_op" where
  "cancelTarget fault targetType i =
     (if targetType = ''tool_execution'' then bindC (cancelTool fault i) (\<lambda>r. returnC (cancelResult ''completed'' [i] [] [] (sy_sideEffectsPossible r)))
      else if targetType = ''planner_run'' then cancelPlanner fault i
      else if targetType = ''kernel_run'' then cancelKernelRun fault i
      else if targetType \<in> set [''background_run'', ''subagent_run''] then cancelBackgroundRun fault i
      else if targetType = ''workflow_run'' then cancelWorkflowRunRef fault i
      else if targetType = ''workflow_step_run'' then cancelWorkflowStepRun fault i
      else if targetType = ''wait_condition'' then cancelTerminalStoreRef fault ''wait_condition_cancelled'' WaitStore cc_wait setWaitRow i
      else returnC (notCancellable i))"

section \<open>Pause and resume\<close>

text \<open>The stores with a status the coordinator moves targets in: reading and writing; none for the other types.\<close>

definition transitionStore :: "string \<Rightarrow> (coordStore \<times> (string \<Rightarrow> coord \<Rightarrow> string option) \<times> (string \<Rightarrow> string \<Rightarrow> coord \<Rightarrow> coord)) option" where
  "transitionStore targetType =
     (if targetType = ''planner_run'' then Some (PlannerStore, \<lambda>i s. map_option cx_plannerStatus (mapGet (cc_planner s) i), setPlannerRow)
      else if targetType = ''kernel_run'' then Some (KernelStore, \<lambda>i s. map_option cx_kernelStatus (mapGet (cc_kernel s) i), setKernelRow)
      else if targetType \<in> set [''background_run'', ''subagent_run''] then Some (BackgroundStore, \<lambda>i s. mapGet (cc_background s) i, setBackgroundRow)
      else if targetType = ''tool_execution'' then Some (ToolStore, \<lambda>i s. map_option cx_toolStatus (mapGet (cc_tools s) i), setToolRow)
      else if targetType = ''wait_condition'' then Some (WaitStore, statusOfRow cc_wait, setWaitRow)
      else None)"

definition transitionTarget :: "coordFault \<Rightarrow> string \<Rightarrow> string \<Rightarrow> string \<Rightarrow> string \<Rightarrow> CancellationResult coord_op" where
  "transitionTarget fault targetType i status eventSuffix s = (case transitionStore targetType of
     None \<Rightarrow> (Inr (notCancellable i), s)
   | Some (st, get, put) \<Rightarrow> (case get i s of
       None \<Rightarrow> (Inr (notCancellable i), s)
     | Some old \<Rightarrow>
         if isTerminalStatus old then (Inr (alreadyTerminal i), s)
         else bindC (writeC fault st i (put i status)) (\<lambda>u.
              bindC (emitCancellationEvent fault (targetType @ ''_'' @ eventSuffix) i) (\<lambda>u.
              returnC (cancelResult ''completed'' [i] [] [] False))) s))"

definition pauseTarget :: "coordFault \<Rightarrow> string \<Rightarrow> string \<Rightarrow> CancellationResult coord_op" where
  "pauseTarget fault targetType i = transitionTarget fault targetType i ''paused'' ''paused''"

definition resumeTarget :: "coordFault \<Rightarrow> string \<Rightarrow> string \<Rightarrow> CancellationResult coord_op" where
  "resumeTarget fault targetType i = transitionTarget fault targetType i ''running'' ''resumed''"

section \<open>The orphan scanner\<close>

record ActiveRun =
  av_runId :: string
  av_runType :: RunType
  av_status :: string
  av_startedAt :: timestamp
  av_actionCategory :: "string option"

datatype orphanAction = OrphanRecover | OrphanMarkFailed | OrphanSkip

record OrphanRun =
  on_runId :: string
  on_runType :: RunType
  on_status :: string
  on_startedAt :: timestamp
  on_timeoutMs :: int
  on_action :: orphanAction
  on_reason :: string

record OrphanScanResult =
  os_scannedAt :: timestamp
  os_orphanedCount :: nat
  os_recoveredCount :: nat
  os_failedCount :: nat
  os_orphans :: "OrphanRun list"

definition NON_RECOVERABLE_ACTION_CATEGORIES :: "string list" where
  "NON_RECOVERABLE_ACTION_CATEGORIES = [''write'', ''delete'', ''send'', ''execute'', ''mutate'']"

definition isRecoverable :: "RunType \<Rightarrow> string option \<Rightarrow> bool" where
  "isRecoverable runType actionCategory =
     (if runType \<in> {PlannerRun, KernelRun, BackgroundRun, WorkflowRun} then True
      else if runType = RuntimeActionRun \<and> truthy actionCategory
        then toLowerCase (the actionCategory) \<notin> set NON_RECOVERABLE_ACTION_CATEGORIES
      else False)"

definition isOverdueByType :: "RunType \<Rightarrow> timestamp \<Rightarrow> timestamp \<Rightarrow> bool" where
  "isOverdueByType runType startedAt now = (now - startedAt > getTimeout runType None)"

fun runTypeName :: "RunType \<Rightarrow> string" where
  "runTypeName PlannerRun = ''PlannerRun''"
| "runTypeName RuntimeActionRun = ''RuntimeAction''"
| "runTypeName KernelRun = ''KernelRun''"
| "runTypeName ToolExecutionRun = ''ToolExecution''"
| "runTypeName BackgroundRun = ''BackgroundRun''"
| "runTypeName WorkflowRun = ''WorkflowRun''"
| "runTypeName ApprovalRequestRun = ''ApprovalRequest''"

definition classifyOrphan :: "ActiveRun \<Rightarrow> OrphanRun" where
  "classifyOrphan r = (let recoverable = isRecoverable (av_runType r) (av_actionCategory r) in
     \<lparr>on_runId = av_runId r, on_runType = av_runType r, on_status = av_status r, on_startedAt = av_startedAt r,
      on_timeoutMs = getTimeout (av_runType r) None,
      on_action = (if recoverable then OrphanRecover else OrphanMarkFailed),
      on_reason = (if recoverable then ''Orphaned '' @ runTypeName (av_runType r) @ '' can be recovered''
        else runTypeName (av_runType r) @ '' is not recoverable'' @
          (if truthy (av_actionCategory r) then '' (category: '' @ the (av_actionCategory r) @ '')'' else []))\<rparr>)"

text \<open>The stores in the order of the configuration, each with its active runs; one audit event for every orphan.\<close>

definition scanOrphanedRuns :: "timestamp \<Rightarrow> ActiveRun list list \<Rightarrow> OrphanScanResult \<times> string list" where
  "scanOrphanedRuns now stores =
     (let orphans = concat (map (\<lambda>active. map classifyOrphan (filter (\<lambda>r. isOverdueByType (av_runType r) (av_startedAt r) now) active)) stores) in
      (\<lparr>os_scannedAt = now, os_orphanedCount = length orphans,
         os_recoveredCount = length (filter (\<lambda>o'. on_action o' = OrphanRecover) orphans),
         os_failedCount = length (filter (\<lambda>o'. on_action o' = OrphanMarkFailed) orphans), os_orphans = orphans\<rparr>, map on_runId orphans))"

section \<open>The sweep of stale runs\<close>

record StaleRunRecoveryConfig =
  sc_runtimeActionThresholdMs :: int
  sc_kernelRunThresholdMs :: int
  sc_runtimeActionSweepStates :: "RuntimeActionState list option"
  sc_kernelRunSweepStates :: "string list option"

definition DEFAULT_KERNEL_RUN_SWEEP_STATES :: "string list" where
  "DEFAULT_KERNEL_RUN_SWEEP_STATES = [''initializing'', ''building_context'', ''building_model_input'', ''sampling_model'',
     ''parsing_model_output'', ''dispatching_tools'', ''launching_subagent'', ''checking_compact'', ''compacting'']"

record StaleRun =
  sr_staleId :: string
  sr_previousStatus :: string
  sr_newStatus :: string
  sr_reason :: string

definition sweptStatus :: "RuntimeActionState \<Rightarrow> RuntimeActionState" where
  "sweptStatus st = (if st = ''dispatching'' then ''timeout'' else ''failed'')"

definition staleReason :: "string \<Rightarrow> RuntimeActionState \<Rightarrow> int \<Rightarrow> string" where
  "staleReason what st ms = ''Stale '' @ what @ '' in '' @ [CHR 0x27] @ st @ [CHR 0x27] @ '' exceeded recovery threshold ('' @ int_str ms @ ''ms)''"

text \<open>The rows listed for one state are written one after the other; the store throws for a row that is gone.\<close>

fun sweepActions :: "timestamp \<Rightarrow> int \<Rightarrow> 'p RuntimeAction list \<Rightarrow> 'p actionTable \<Rightarrow> string + 'p actionTable" where
  "sweepActions now ms [] t = Inr t"
| "sweepActions now ms (a # as) t =
     (case updateStatus (ac_actionId a) (sweptStatus (ac_status a)) (Some (staleReason ''action'' (ac_status a) ms)) None now t of
        Inl e \<Rightarrow> Inl e | Inr t' \<Rightarrow> sweepActions now ms as t')"

fun sweepStates :: "timestamp \<Rightarrow> timestamp \<Rightarrow> int \<Rightarrow> RuntimeActionState list \<Rightarrow> 'p actionTable \<Rightarrow> string + StaleRun list \<times> 'p actionTable" where
  "sweepStates now threshold ms [] t = Inr ([], t)"
| "sweepStates now threshold ms (st # sts) t = (let stale = listStaleByStatus st threshold t in
     case sweepActions now ms stale t of
       Inl e \<Rightarrow> Inl e
     | Inr t' \<Rightarrow> (case sweepStates now threshold ms sts t' of
         Inl e \<Rightarrow> Inl e
       | Inr (rs, t'') \<Rightarrow> Inr (map (\<lambda>a. \<lparr>sr_staleId = ac_actionId a, sr_previousStatus = ac_status a, sr_newStatus = sweptStatus (ac_status a),
               sr_reason = staleReason ''action'' (ac_status a) ms\<rparr>) stale @ rs, t'')))"

definition recoveredResult :: "timestamp \<Rightarrow> int \<Rightarrow> KernelRunRow \<Rightarrow> json" where
  "recoveredResult scannedAt ms r = JObj [(''recovered'', JBool True), (''recoveredAt'', JNum scannedAt), (''previousStatus'', JStr (kn_status r)),
     (''reason'', JStr (staleReason ''kernel run'' (kn_status r) ms))]"

definition sweepKernelRuns :: "timestamp \<Rightarrow> timestamp \<Rightarrow> int \<Rightarrow> string list \<Rightarrow> kernelRunTable \<Rightarrow> StaleRun list \<times> kernelRunTable" where
  "sweepKernelRuns now threshold ms states t = (let stale = listStaleInStates states threshold t in
     (map (\<lambda>r. \<lparr>sr_staleId = kn_runId r, sr_previousStatus = kn_status r, sr_newStatus = ''failed'',
          sr_reason = staleReason ''kernel run'' (kn_status r) ms\<rparr>) stale,
      fold (\<lambda>r. markFailedWithResult now (kn_runId r) (recoveredResult now ms r)) stale t))"

text \<open>\<open>recover\<close>; the clock does not move during the sweep.\<close>

definition recoverStaleRuns :: "StaleRunRecoveryConfig \<Rightarrow> timestamp \<Rightarrow> 'p actionTable \<Rightarrow> kernelRunTable \<Rightarrow>
    string + (StaleRun list \<times> StaleRun list) \<times> 'p actionTable \<times> kernelRunTable" where
  "recoverStaleRuns cfg now actions runs =
     (case sweepStates now (now - sc_runtimeActionThresholdMs cfg) (sc_runtimeActionThresholdMs cfg)
         (nullish (sc_runtimeActionSweepStates cfg) [''dispatching'']) actions of
       Inl e \<Rightarrow> Inl e
     | Inr (staleActions, actions') \<Rightarrow> (case sweepKernelRuns now (now - sc_kernelRunThresholdMs cfg) (sc_kernelRunThresholdMs cfg)
           (nullish (sc_kernelRunSweepStates cfg) DEFAULT_KERNEL_RUN_SWEEP_STATES) runs of
         (staleRuns, runs') \<Rightarrow> Inr ((staleActions, staleRuns), actions', runs')))"

section \<open>Checkpoints\<close>

record RecoveryCheckpointRecord =
  rk_runType :: string
  rk_runId :: string
  rk_data :: json
  rk_savedAt :: timestamp
  rk_eventCursor :: "timestamp option"
  rk_allowExternalWrites :: bool

record RecoveryEvent =
  re_eventId :: string
  re_correlationId :: string
  re_createdAt :: timestamp

record RecoveryResult =
  rq_canRecover :: bool
  rq_checkpoint :: "RecoveryCheckpointRecord option"
  rq_events :: "RecoveryEvent list"
  rq_blockedReason :: "string option"

definition checkpointKey :: "string \<Rightarrow> string \<Rightarrow> string" where
  "checkpointKey runType runId = runType @ '':'' @ runId"

definition saveRecoveryCheckpoint :: "timestamp \<Rightarrow> string \<Rightarrow> string \<Rightarrow> json \<Rightarrow> timestamp option \<Rightarrow> bool option \<Rightarrow>
    (string, RecoveryCheckpointRecord) jsmap \<Rightarrow> RecoveryCheckpointRecord \<times> (string, RecoveryCheckpointRecord) jsmap" where
  "saveRecoveryCheckpoint now runType runId v cursor allow m =
     (let c = \<lparr>rk_runType = runType, rk_runId = runId, rk_data = v, rk_savedAt = now, rk_eventCursor = cursor, rk_allowExternalWrites = nullish allow False\<rparr> in
      (c, mapSet (checkpointKey runType runId) c m))"

definition recoverFromCheckpoint :: "string \<Rightarrow> string \<Rightarrow> bool option \<Rightarrow> RecoveryEvent list \<Rightarrow> (string, RecoveryCheckpointRecord) jsmap \<Rightarrow> RecoveryResult" where
  "recoverFromCheckpoint runType runId allow events m = (case mapGet m (checkpointKey runType runId) of
     None \<Rightarrow> \<lparr>rq_canRecover = False, rq_checkpoint = None, rq_events = [], rq_blockedReason = Some ''checkpoint_not_found''\<rparr>
   | Some c \<Rightarrow>
       if rk_allowExternalWrites c \<and> allow \<noteq> Some True
       then \<lparr>rq_canRecover = False, rq_checkpoint = Some c, rq_events = [], rq_blockedReason = Some ''external_write_replay_requires_explicit_allow''\<rparr>
       else \<lparr>rq_canRecover = True, rq_checkpoint = Some c,
         rq_events = filter (\<lambda>e. case rk_eventCursor c of None \<Rightarrow> True | Some cur \<Rightarrow> cur \<le> re_createdAt e) (filter (\<lambda>e. re_correlationId e = runId) events),
         rq_blockedReason = None\<rparr>)"

section \<open>What a cancellation may change\<close>

text \<open>The status of a target in its store, and the statuses the coordinator cancels from there.\<close>

fun statusAt :: "coordStore \<Rightarrow> string \<Rightarrow> coord \<Rightarrow> string option" where
  "statusAt ToolStore i s = map_option cx_toolStatus (mapGet (cc_tools s) i)"
| "statusAt PlannerStore i s = map_option cx_plannerStatus (mapGet (cc_planner s) i)"
| "statusAt BackgroundStore i s = mapGet (cc_background s) i"
| "statusAt KernelStore i s = map_option cx_kernelStatus (mapGet (cc_kernel s) i)"
| "statusAt WorkflowStore i s = Option.bind (cc_workflow s) (\<lambda>w. mapGet (cx_runs w) i)"
| "statusAt StepStore i s = Option.bind (cc_workflow s) (\<lambda>w. map_option cx_stepStatus (firstRow (\<lambda>r. cx_stepRunId r = i) (cx_steps w)))"
| "statusAt ApprovalStore i s = statusOfRow cc_approval i s"
| "statusAt WaitStore i s = statusOfRow cc_wait i s"
| "statusAt ConnectorStore i s = statusOfRow cc_connector i s"
| "statusAt EventStore i s = None"
| "statusAt ToolResultStore i s = None"

fun cancellable :: "coordStore \<Rightarrow> string \<Rightarrow> bool" where
  "cancellable ToolStore st = (st \<notin> set [''completed'', ''failed'', ''cancelled''])"
| "cancellable PlannerStore st = (st \<notin> set [''completed'', ''failed'', ''cancelled'', ''archived''])"
| "cancellable BackgroundStore st = (st \<in> set [''queued'', ''running'', ''recovering''])"
| "cancellable KernelStore st = (st \<notin> set [''completed'', ''failed'', ''cancelled''])"
| "cancellable EventStore st = False"
| "cancellable ToolResultStore st = False"
| "cancellable other st = (\<not> isTerminalStatus st)"

definition stepIds :: "coord \<Rightarrow> string list" where
  "stepIds s = (case cc_workflow s of None \<Rightarrow> [] | Some w \<Rightarrow> map cx_stepRunId (cx_steps w))"

definition spares :: "coord \<Rightarrow> coord \<Rightarrow> bool" where
  "spares s s' = (stepIds s' = stepIds s \<and> (\<forall>st i. statusAt st i s' = statusAt st i s \<or>
     statusAt st i s' = Some ''cancelled'' \<and> (\<exists>old. statusAt st i s = Some old \<and> cancellable st old)))"

lemma cancelled_final [simp]: "\<not> cancellable st ''cancelled''"
  by (cases st) (auto simp: isTerminalStatus_def)

lemma spares_refl [simp]: "spares s s"
  by (simp add: spares_def)

lemma spares_status: "spares s0 s \<Longrightarrow> statusAt st i s = statusAt st i s0 \<or> statusAt st i s = Some ''cancelled'' \<and> (\<exists>old. statusAt st i s0 = Some old \<and> cancellable st old)"
  by (simp add: spares_def)

lemma spares_back:
  assumes "spares s0 s" "statusAt st i s = Some old" "cancellable st old"
  shows "statusAt st i s0 = Some old"
  using spares_status [OF assms(1), of st i] assms(2,3) by auto

lemma spares_present: "spares s0 s \<Longrightarrow> statusAt st i s0 \<noteq> None \<Longrightarrow> statusAt st i s \<noteq> None"
  using spares_status [of s0 s st i] by auto

lemma get_onKey [simp]: "mapGet (onKey k f m) j = (if j = k then map_option f (mapGet m j) else mapGet m j)"
  by (induction m) (auto simp: onKey_def)

lemma step_update: "firstRow (\<lambda>r. cx_stepRunId r = j) (updateRow cx_stepRunId i (\<lambda>r. r\<lparr>cx_stepStatus := v\<rparr>) t) =
    (if j = i then map_option (\<lambda>r. r\<lparr>cx_stepStatus := v\<rparr>) (firstRow (\<lambda>r. cx_stepRunId r = j) t) else firstRow (\<lambda>r. cx_stepRunId r = j) t)"
  by (induction t) (auto simp: updateRow_def)

lemma ids_step_update [simp]: "map cx_stepRunId (updateRow cx_stepRunId i (\<lambda>r. r\<lparr>cx_stepStatus := v\<rparr>) t) = map cx_stepRunId t"
  by (simp add: updateRow_def)

text \<open>What a write to one store does to the statuses: it sets its own target, if there, and nothing else.\<close>

locale status_write =
  fixes st :: coordStore and put :: "string \<Rightarrow> string \<Rightarrow> coord \<Rightarrow> coord"
  assumes put_status: "statusAt st' j (put i v s) = (if st' = st \<and> j = i \<and> statusAt st i s \<noteq> None then Some v else statusAt st' j s)"
    and put_steps: "stepIds (put i v s) = stepIds s"
begin

lemma spares_put:
  assumes "spares s0 s" "statusAt st i s0 = Some old" "cancellable st old"
  shows "spares s0 (put i ''cancelled'' s)"
  using assms unfolding spares_def put_status put_steps by auto

lemma put_present: "statusAt st i s \<noteq> None \<Longrightarrow> statusAt st i (put i v s) = Some v"
  by (simp add: put_status)

end

interpretation tool_rows: status_write ToolStore setToolRow
  by unfold_locales (case_tac st', auto simp: setToolRow_def statusOfRow_def stepIds_def)

interpretation planner_rows: status_write PlannerStore setPlannerRow
  by unfold_locales (case_tac st', auto simp: setPlannerRow_def statusOfRow_def stepIds_def)

interpretation background_rows: status_write BackgroundStore setBackgroundRow
  by unfold_locales (case_tac st', auto simp: setBackgroundRow_def statusOfRow_def stepIds_def)

interpretation kernel_rows: status_write KernelStore setKernelRow
  by unfold_locales (case_tac st', auto simp: setKernelRow_def statusOfRow_def stepIds_def)

interpretation workflow_rows: status_write WorkflowStore setWorkflowRow
  by unfold_locales (case_tac st', auto simp: setWorkflowRow_def statusOfRow_def stepIds_def split: option.splits bind_splits)

interpretation step_rows: status_write StepStore setStepRow
  by unfold_locales (case_tac st', auto simp: setStepRow_def statusOfRow_def stepIds_def step_update split: option.splits bind_splits)

interpretation approval_rows: status_write ApprovalStore setApprovalRow
  by unfold_locales (case_tac st', auto simp: setApprovalRow_def statusOfRow_def stepIds_def split: option.splits bind_splits)

interpretation wait_rows: status_write WaitStore setWaitRow
  by unfold_locales (case_tac st', auto simp: setWaitRow_def statusOfRow_def stepIds_def split: option.splits bind_splits)

interpretation connector_rows: status_write ConnectorStore setConnectorRow
  by unfold_locales (case_tac st', auto simp: setConnectorRow_def statusOfRow_def stepIds_def split: option.splits bind_splits)

section \<open>Every operation spares what is finished\<close>

definition sparing :: "coord \<Rightarrow> 'a coord_op \<Rightarrow> bool" where
  "sparing s0 m = (\<forall>s. spares s0 s \<longrightarrow> spares s0 (snd (m s)))"

lemma sparingI: "(\<And>s. spares s0 s \<Longrightarrow> spares s0 (snd (m s))) \<Longrightarrow> sparing s0 m"
  by (simp add: sparing_def)

lemma sparingD: "sparing s0 m \<Longrightarrow> spares s0 s \<Longrightarrow> spares s0 (snd (m s))"
  by (simp add: sparing_def)

lemma sparing_return [simp]: "sparing s0 (returnC a)"
  by (simp add: sparing_def returnC_def)

lemma sparing_bind: "sparing s0 m \<Longrightarrow> (\<And>a. sparing s0 (f a)) \<Longrightarrow> sparing s0 (bindC m f)"
  by (fastforce simp: sparing_def bindC_def split: prod.split sum.split)

lemma sparing_try: "sparing s0 m \<Longrightarrow> sparing s0 (tryC m h)"
  by (fastforce simp: sparing_def tryC_def split: prod.split sum.split)

lemma sparing_if: "sparing s0 m \<Longrightarrow> sparing s0 m' \<Longrightarrow> sparing s0 (if b then m else m')"
  by simp

lemma sparing_write: "(\<And>s. spares s0 s \<Longrightarrow> spares s0 (f s)) \<Longrightarrow> sparing s0 (writeC fault st i f)"
  by (simp add: sparing_def writeC_def split: option.split)

lemma same_status: "(\<And>st j. statusAt st j s' = statusAt st j s) \<Longrightarrow> stepIds s' = stepIds s \<Longrightarrow> spares s0 s' = spares s0 s"
  by (simp add: spares_def)

lemma sparing_emit [simp]: "sparing s0 (emitCancellationEvent fault t i)"
proof -
  have "spares s0 (s\<lparr>cc_events := e\<rparr>) = spares s0 s" for s e
    by (rule same_status, case_tac st) (simp_all add: statusOfRow_def stepIds_def)
  then show ?thesis unfolding emitCancellationEvent_def by (intro sparing_write) simp
qed

lemma sparing_abort: "sparing s0 (\<lambda>s. (Inr (), s\<lparr>cc_registry := r s\<rparr>))"
proof -
  have "spares s0 (s\<lparr>cc_registry := e\<rparr>) = spares s0 s" for s e
    by (rule same_status, case_tac st) (simp_all add: statusOfRow_def stepIds_def)
  then show ?thesis by (simp add: sparing_def)
qed

lemma sparing_synthetic: "sparing s0 (writeC fault st i (markSynthetic i))"
proof -
  have "spares s0 (markSynthetic i s) = spares s0 s" for s
    by (rule same_status, case_tac st) (auto simp: markSynthetic_def statusOfRow_def stepIds_def option.map_comp comp_def)
  then show ?thesis by (intro sparing_write) simp
qed

lemma sparing_cancelTool: "sparing s0 (cancelTool fault i)"
proof (rule sparingI)
  fix s assume s: "spares s0 s"
  show "spares s0 (snd (cancelTool fault i s))"
  proof (cases "\<exists>r. mapGet (cc_tools s) i = Some r \<and> cancellable ToolStore (cx_toolStatus r)")
    case True
    then obtain r where r: "mapGet (cc_tools s) i = Some r" "cancellable ToolStore (cx_toolStatus r)" by blast
    note g = spares_back [OF s, of ToolStore i "cx_toolStatus r"]
    have "sparing s0 (writeC fault ToolStore i (setToolRow i ''cancelled''))"
      using g r by (intro sparing_write tool_rows.spares_put) auto
    then have "sparing s0 (bindC (writeC fault ToolStore i (setToolRow i ''cancelled'')) (\<lambda>u.
            bindC (writeC fault ToolResultStore i (markSynthetic i)) (\<lambda>u.
            bindC (emitCancellationEvent fault ''tool_execution_cancelled'' i) (\<lambda>u.
            returnC \<lparr>sy_toolCallId = i, sy_reason = ''Tool execution cancelled'', sy_sideEffectsPossible = hasExternalSideEffects (cx_toolName r)\<rparr>))))"
      by (intro sparing_bind sparing_synthetic sparing_emit sparing_return)
    then show ?thesis using r s sparingD by (simp add: cancelTool_def)
  qed (use s in \<open>auto simp: cancelTool_def split: option.split\<close>)
qed

lemma sparing_cancelBackground: "sparing s0 (cancelBackgroundRun fault i)"
proof (rule sparingI)
  fix s assume s: "spares s0 s"
  show "spares s0 (snd (cancelBackgroundRun fault i s))"
  proof (cases "\<exists>st. mapGet (cc_background s) i = Some st \<and> cancellable BackgroundStore st")
    case True
    then obtain st where r: "mapGet (cc_background s) i = Some st" "cancellable BackgroundStore st" by blast
    note g = spares_back [OF s, of BackgroundStore i st]
    have "sparing s0 (writeC fault BackgroundStore i (setBackgroundRow i ''cancelled''))"
      using g r by (intro sparing_write background_rows.spares_put) auto
    then have "sparing s0 (bindC (writeC fault BackgroundStore i (setBackgroundRow i ''cancelled'')) (\<lambda>u.
            bindC (emitCancellationEvent fault ''background_run_cancelled'' i) (\<lambda>u.
            returnC (cancelResult ''completed'' [i] [] [] False))))"
      by (intro sparing_bind sparing_emit sparing_return)
    then show ?thesis using r s sparingD by (simp add: cancelBackgroundRun_def)
  qed (use s in \<open>auto simp: cancelBackgroundRun_def split: option.split\<close>)
qed

lemma sparing_pendingTools: "sparing s0 (cancelPendingTools fault ids a f)"
  by (induction ids arbitrary: a f) (auto intro!: sparing_bind sparing_try sparing_cancelTool)

lemma sparing_cancelKernel: "sparing s0 (cancelKernelRun fault i)"
proof (rule sparingI)
  fix s assume s: "spares s0 s"
  show "spares s0 (snd (cancelKernelRun fault i s))"
  proof (cases "\<exists>r. mapGet (cc_kernel s) i = Some r \<and> cancellable KernelStore (cx_kernelStatus r)")
    case True
    then obtain r where r: "mapGet (cc_kernel s) i = Some r" "cancellable KernelStore (cx_kernelStatus r)" by blast
    note g = spares_back [OF s, of KernelStore i "cx_kernelStatus r"]
    have w: "sparing s0 (writeC fault KernelStore i (setKernelRow i ''cancelled''))"
      using g r by (intro sparing_write kernel_rows.spares_put) auto
    show ?thesis using r s unfolding cancelKernelRun_def
      by (simp, intro sparingD [OF _ s] sparing_bind sparing_pendingTools) (auto intro!: sparing_bind w sparing_abort split: prod.split)
  qed (use s in \<open>auto simp: cancelKernelRun_def split: option.split\<close>)
qed

context status_write
begin

lemma sparing_terminalStoreRef:
  assumes "\<And>i s. statusAt st i s = statusOfRow rows i s" "\<And>x. cancellable st x = (\<not> isTerminalStatus x)"
  shows "sparing s0 (cancelTerminalStoreRef fault t st rows put i)"
proof (rule sparingI)
  fix s assume s: "spares s0 s"
  show "spares s0 (snd (cancelTerminalStoreRef fault t st rows put i s))"
  proof (cases "\<exists>x. statusOfRow rows i s = Some x \<and> \<not> isTerminalStatus x")
    case True
    then obtain x where x: "statusOfRow rows i s = Some x" "\<not> isTerminalStatus x" by blast
    have g: "statusAt st i s0 = Some x" using spares_back [OF s, of st i x] x assms by simp
    have w: "sparing s0 (writeC fault st i (put i ''cancelled''))"
      using g x assms(2) by (intro sparing_write spares_put) auto
    have "sparing s0 (bindC (writeC fault st i (put i ''cancelled'')) (\<lambda>u.
            bindC (emitCancellationEvent fault t i) (\<lambda>u. returnC (cancelResult ''completed'' [i] [] [] False))))"
      by (intro sparing_bind w sparing_emit sparing_return)
    then show ?thesis using x s sparingD by (simp add: cancelTerminalStoreRef_def)
  qed (use s in \<open>auto simp: cancelTerminalStoreRef_def split: option.split\<close>)
qed

end

lemmas sparing_ops = sparing_bind sparing_try sparing_cancelTool sparing_cancelBackground sparing_cancelKernel
  approval_rows.sparing_terminalStoreRef wait_rows.sparing_terminalStoreRef connector_rows.sparing_terminalStoreRef

lemma sparing_refWith:
  assumes "\<And>i. sparing s0 (workflow i)" "\<And>i. sparing s0 (step i)"
  shows "sparing s0 (cancelRefWith workflow step fault ref)"
proof (rule sparingI)
  fix s assume s: "spares s0 s"
  show "spares s0 (snd (cancelRefWith workflow step fault ref s))"
    unfolding cancelRefWith_def Let_def
    by (simp add: s, intro conjI impI; rule sparingD [OF _ s]; intro sparing_ops assms sparing_return; simp)
qed

lemma sparing_child: "sparing s0 (cancelChildRef fault ref)"
  unfolding cancelChildRef_def by (rule sparing_refWith) simp_all

lemma sparing_each: "(\<And>ref. sparing s0 (one ref)) \<Longrightarrow> sparing s0 (cancelEach one refs acc)"
  by (induction refs arbitrary: acc) (auto intro!: sparing_bind sparing_try)

lemma sparing_children: "sparing s0 (cancelChildren fault refs acc)"
  by (induction refs arbitrary: acc) (auto intro!: sparing_bind sparing_try sparing_child split: prod.split)

lemma sparing_step:
  assumes "statusAt StepStore (cx_stepRunId r) s0 = Some (cx_stepStatus r) \<or> isTerminalStatus (cx_stepStatus r)"
  shows "sparing s0 (cancelStep fault r acc)"
proof (cases "isTerminalStatus (cx_stepStatus r)")
  case True
  then show ?thesis by (simp add: cancelStep_def)
next
  case False
  have w: "sparing s0 (writeC fault StepStore (cx_stepRunId r) (setStepRow (cx_stepRunId r) ''cancelled''))"
    using assms False by (intro sparing_write step_rows.spares_put) auto
  show ?thesis using False unfolding cancelStep_def Let_def
    by (auto intro!: sparing_bind sparing_try w sparing_children split: prod.split)
qed

lemma sparing_steps:
  "list_all (\<lambda>r. statusAt StepStore (cx_stepRunId r) s0 = Some (cx_stepStatus r) \<or> isTerminalStatus (cx_stepStatus r)) rs \<Longrightarrow>
   sparing s0 (cancelSteps fault rs acc)"
  by (induction rs arbitrary: acc) (auto intro!: sparing_bind sparing_step)

lemma sparing_stepRun: "sparing s0 (cancelWorkflowStepRun fault i)"
proof (rule sparingI)
  fix s assume s: "spares s0 s"
  show "spares s0 (snd (cancelWorkflowStepRun fault i s))"
  proof (cases "\<exists>w r. cc_workflow s = Some w \<and> cx_stepLookup w \<and> firstRow (\<lambda>r. cx_stepRunId r = i) (cx_steps w) = Some r \<and>
      \<not> isTerminalStatus (cx_stepStatus r)")
    case True
    then obtain w r where r: "cc_workflow s = Some w" "cx_stepLookup w" "firstRow (\<lambda>r. cx_stepRunId r = i) (cx_steps w) = Some r"
      "\<not> isTerminalStatus (cx_stepStatus r)" by blast
    have g: "statusAt StepStore i s0 = Some (cx_stepStatus r)" using r by (intro spares_back [OF s]) simp_all
    have w: "sparing s0 (writeC fault StepStore i (setStepRow i ''cancelled''))"
      using g r(4) by (intro sparing_write step_rows.spares_put) auto
    have "sparing s0 (bindC (writeC fault StepStore i (setStepRow i ''cancelled'')) (\<lambda>u.
              bindC (cancelEach (cancelChildRef fault) (getWorkflowStepChildRefs r) ([i], [], [], False)) (\<lambda>acc.
              bindC (emitCancellationEvent fault ''workflow_step_run_cancelled'' i) (\<lambda>u.
              returnC (tallyResult acc False)))))"
      by (intro sparing_bind w sparing_each sparing_child sparing_emit sparing_return)
    then show ?thesis using r s sparingD by (simp add: cancelWorkflowStepRun_def)
  qed (use s in \<open>auto simp: cancelWorkflowStepRun_def split: option.split bind_splits\<close>)
qed

lemma firstRow_distinct: "distinct (map key t) \<Longrightarrow> r \<in> set t \<Longrightarrow> firstRow (\<lambda>x. key x = key r) t = Some r"
  by (induction t) force+

lemma steps_own:
  assumes "spares s0 s" "distinct (stepIds s0)" "cc_workflow s = Some w"
  shows "list_all (\<lambda>q. statusAt StepStore (cx_stepRunId q) s0 = Some (cx_stepStatus q) \<or> isTerminalStatus (cx_stepStatus q)) (filter P (cx_steps w))"
proof -
  have "distinct (map cx_stepRunId (cx_steps w))" using assms by (simp add: spares_def stepIds_def)
  then show ?thesis using spares_back [OF assms(1), of StepStore] firstRow_distinct assms(3) by (fastforce simp: list_all_iff)
qed

lemma sparing_workflowRun:
  assumes d: "distinct (stepIds s0)"
  shows "sparing s0 (cancelWorkflowRunRef fault i)"
proof (rule sparingI)
  fix s assume s: "spares s0 s"
  show "spares s0 (snd (cancelWorkflowRunRef fault i s))"
  proof (cases "\<exists>w st. cc_workflow s = Some w \<and> mapGet (cx_runs w) i = Some st \<and> \<not> isTerminalStatus st")
    case True
    then obtain w st where r: "cc_workflow s = Some w" "mapGet (cx_runs w) i = Some st" "\<not> isTerminalStatus st" by blast
    have g: "statusAt WorkflowStore i s0 = Some st" using r by (intro spares_back [OF s]) simp_all
    have w: "sparing s0 (writeC fault WorkflowStore i (setWorkflowRow i ''cancelled''))"
      using g r(3) by (intro sparing_write workflow_rows.spares_put) auto
    have "sparing s0 (bindC (cancelSteps fault (filter (\<lambda>r. cx_workflowRunId r = i) (cx_steps w)) ([i], [], [], False)) (\<lambda>acc.
              bindC (writeC fault WorkflowStore i (setWorkflowRow i ''cancelled'')) (\<lambda>u.
              bindC (emitCancellationEvent fault ''workflow_run_cancelled'' i) (\<lambda>u.
              returnC (tallyResult acc True)))))"
      by (intro sparing_bind w sparing_steps steps_own [OF s d r(1)] sparing_emit sparing_return)
    then show ?thesis using r s sparingD by (simp add: cancelWorkflowRunRef_def)
  qed (use s in \<open>auto simp: cancelWorkflowRunRef_def split: option.split\<close>)
qed

lemma sparing_ref: "distinct (stepIds s0) \<Longrightarrow> sparing s0 (cancelRef fault ref)"
  unfolding cancelRef_def by (rule sparing_refWith [OF sparing_workflowRun sparing_stepRun])

lemma sparing_cancelPlanner:
  assumes d: "distinct (stepIds s0)"
  shows "sparing s0 (cancelPlanner fault i)"
proof (rule sparingI)
  fix s assume s: "spares s0 s"
  show "spares s0 (snd (cancelPlanner fault i s))"
  proof (cases "\<exists>r. mapGet (cc_planner s) i = Some r \<and> cancellable PlannerStore (cx_plannerStatus r)")
    case True
    then obtain r where r: "mapGet (cc_planner s) i = Some r" "cancellable PlannerStore (cx_plannerStatus r)" by blast
    have g: "statusAt PlannerStore i s0 = Some (cx_plannerStatus r)" using r by (intro spares_back [OF s]) simp_all
    have w: "sparing s0 (writeC fault PlannerStore i (setPlannerRow i ''cancelled''))"
      using g r(2) by (intro sparing_write planner_rows.spares_put) auto
    have "sparing s0 (bindC (cancelEach (cancelRef fault) (nullish (cx_activeExecutionRefs r) []) ([i], [], [], False)) (\<lambda>acc.
            bindC (writeC fault PlannerStore i (setPlannerRow i ''cancelled'')) (\<lambda>u.
            bindC (emitCancellationEvent fault ''planner_run_cancelled'' i) (\<lambda>u.
            returnC (tallyResult acc True)))))"
      by (intro sparing_bind w sparing_each sparing_ref [OF d] sparing_emit sparing_return)
    then show ?thesis using r s sparingD by (simp add: cancelPlanner_def)
  qed (use s in \<open>auto simp: cancelPlanner_def split: option.split\<close>)
qed

lemma sparing_target: "distinct (stepIds s0) \<Longrightarrow> sparing s0 (cancelTarget fault targetType i)"
  unfolding cancelTarget_def
  by (intro sparing_if sparing_ops sparing_cancelPlanner sparing_workflowRun sparing_stepRun sparing_return) simp_all

section \<open>The reports of a cancellation\<close>

lemma bindC_ok: "(bindC m f s = (Inr b, s')) = (\<exists>a s1. m s = (Inr a, s1) \<and> f a s1 = (Inr b, s'))"
  by (auto simp: bindC_def split: prod.splits sum.splits)

lemma write_ok: "(writeC fault st i f s = (Inr u, s')) = (fault st i = None \<and> s' = f s)"
  by (auto simp: writeC_def split: option.splits)

lemma emit_keeps: "emitCancellationEvent fault t i s = (r, s') \<Longrightarrow> statusAt st j s' = statusAt st j s"
  by (cases st) (auto simp: emitCancellationEvent_def writeC_def statusOfRow_def split: option.splits)

lemma final_cancelled:
  assumes "sparing s m" "m s = (r, s')" "statusAt st i s = Some ''cancelled''"
  shows "statusAt st i s' = Some ''cancelled''"
  using spares_status [OF sparingD [OF assms(1) spares_refl], of st i] assms(2,3) by auto

lemma sparing_present:
  assumes "sparing s m" "m s = (r, s')" "statusAt st i s \<noteq> None"
  shows "statusAt st i s' \<noteq> None"
  using spares_present [OF sparingD [OF assms(1) spares_refl]] assms(2,3) by force

definition reportsDone :: "CancellationResult \<Rightarrow> bool" where
  "reportsDone r = (cn_status r \<in> set [''completed'', ''partial''])"

lemma reports_simps [simp]: "\<not> reportsDone (notCancellable i)" "\<not> reportsDone (alreadyTerminal i)"
  by (simp_all add: reportsDone_def notCancellable_def alreadyTerminal_def cancelResult_def)

lemma done_background:
  assumes "cancelBackgroundRun fault i s = (Inr r, s')" "reportsDone r"
  shows "statusAt BackgroundStore i s' = Some ''cancelled''"
proof -
  obtain st where st: "mapGet (cc_background s) i = Some st"
    using assms by (cases "mapGet (cc_background s) i") (auto simp: cancelBackgroundRun_def)
  then obtain r' where "emitCancellationEvent fault ''background_run_cancelled'' i (setBackgroundRow i ''cancelled'' s) = (r', s')"
    using assms by (auto simp: cancelBackgroundRun_def bindC_ok write_ok returnC_def split: if_splits)
  from emit_keeps [OF this] show ?thesis using st background_rows.put_present by simp
qed

lemma done_kernel:
  assumes "cancelKernelRun fault i s = (Inr r, s')" "reportsDone r"
  shows "statusAt KernelStore i s' = Some ''cancelled''"
proof -
  obtain k where k: "mapGet (cc_kernel s) i = Some k"
    using assms by (cases "mapGet (cc_kernel s) i") (auto simp: cancelKernelRun_def)
  then obtain acc s1 s2 r' where p: "cancelPendingTools fault (nullish (cx_pendingToolCalls k) []) [i] [] s = (acc, s1)"
    and s2: "s2 = (setKernelRow i ''cancelled'' s1)\<lparr>cc_registry := snd (abortRun i (cc_registry (setKernelRow i ''cancelled'' s1)))\<rparr>"
    and e: "emitCancellationEvent fault ''kernel_run_cancelled'' i s2 = (r', s')"
    using assms by (auto simp: cancelKernelRun_def bindC_ok write_ok returnC_def split: if_splits)
  have "statusAt KernelStore i s1 \<noteq> None"
    by (rule sparing_present [OF sparing_pendingTools p]) (simp add: k)
  then have "statusAt KernelStore i (setKernelRow i ''cancelled'' s1) = Some ''cancelled''" by (rule kernel_rows.put_present)
  then show ?thesis using emit_keeps [OF e, of KernelStore i] s2 by simp
qed

context status_write
begin

lemma done_terminalStoreRef:
  assumes "cancelTerminalStoreRef fault t st rows put i s = (Inr r, s')" "reportsDone r" "\<And>i s. statusAt st i s = statusOfRow rows i s"
  shows "statusAt st i s' = Some ''cancelled''"
proof -
  obtain x where x: "statusOfRow rows i s = Some x"
    using assms by (cases "statusOfRow rows i s") (auto simp: cancelTerminalStoreRef_def)
  then obtain r' where "emitCancellationEvent fault t i (put i ''cancelled'' s) = (r', s')"
    using assms by (auto simp: cancelTerminalStoreRef_def bindC_ok write_ok returnC_def split: if_splits)
  from emit_keeps [OF this] show ?thesis using put_present [of i s] x assms(3) by simp
qed

end

lemma done_step:
  assumes "cancelWorkflowStepRun fault i s = (Inr r, s')" "reportsDone r"
  shows "statusAt StepStore i s' = Some ''cancelled''"
proof -
  obtain w q where q: "cc_workflow s = Some w" "firstRow (\<lambda>r. cx_stepRunId r = i) (cx_steps w) = Some q" "cx_stepLookup w"
    using assms by (auto simp: cancelWorkflowStepRun_def split: option.splits bind_splits if_splits)
  then obtain acc s1 r' where p: "cancelEach (cancelChildRef fault) (getWorkflowStepChildRefs q) ([i], [], [], False) (setStepRow i ''cancelled'' s) = (acc, s1)"
    and e: "emitCancellationEvent fault ''workflow_step_run_cancelled'' i s1 = (r', s')"
    using assms by (auto simp: cancelWorkflowStepRun_def bindC_ok write_ok returnC_def split: if_splits)
  have "statusAt StepStore i (setStepRow i ''cancelled'' s) = Some ''cancelled''"
    by (rule step_rows.put_present) (simp add: q)
  then have "statusAt StepStore i s1 = Some ''cancelled''"
    by (intro final_cancelled [OF sparing_each [OF sparing_child] p])
  then show ?thesis using emit_keeps [OF e] by simp
qed

lemma done_workflow:
  assumes "cancelWorkflowRunRef fault i s = (Inr r, s')" "reportsDone r" "distinct (stepIds s)"
  shows "statusAt WorkflowStore i s' = Some ''cancelled''"
proof -
  obtain w st where q: "cc_workflow s = Some w" "mapGet (cx_runs w) i = Some st"
    using assms by (auto simp: cancelWorkflowRunRef_def split: option.splits)
  then obtain s1 r' acc where p: "cancelSteps fault (filter (\<lambda>r. cx_workflowRunId r = i) (cx_steps w)) ([i], [], [], False) s = (acc, s1)"
    and e: "emitCancellationEvent fault ''workflow_run_cancelled'' i (setWorkflowRow i ''cancelled'' s1) = (r', s')"
    using assms by (auto simp: cancelWorkflowRunRef_def bindC_ok write_ok returnC_def split: if_splits)
  have "statusAt WorkflowStore i s1 \<noteq> None"
    by (rule sparing_present [OF sparing_steps [OF steps_own [OF spares_refl assms(3) q(1)]] p]) (simp add: q)
  then show ?thesis using emit_keeps [OF e] workflow_rows.put_present by simp
qed

lemma done_planner:
  assumes "cancelPlanner fault i s = (Inr r, s')" "reportsDone r" "distinct (stepIds s)"
  shows "statusAt PlannerStore i s' = Some ''cancelled''"
proof -
  obtain q where q: "mapGet (cc_planner s) i = Some q"
    using assms by (cases "mapGet (cc_planner s) i") (auto simp: cancelPlanner_def)
  then obtain s1 r' acc where p: "cancelEach (cancelRef fault) (nullish (cx_activeExecutionRefs q) []) ([i], [], [], False) s = (acc, s1)"
    and e: "emitCancellationEvent fault ''planner_run_cancelled'' i (setPlannerRow i ''cancelled'' s1) = (r', s')"
    using assms by (auto simp: cancelPlanner_def bindC_ok write_ok returnC_def split: if_splits)
  have "statusAt PlannerStore i s1 \<noteq> None"
    by (rule sparing_present [OF sparing_each [OF sparing_ref [OF assms(3)]] p]) (simp add: q)
  then show ?thesis using emit_keeps [OF e] planner_rows.put_present by simp
qed

section \<open>The sweep, row by row\<close>

lemma fold_updateRow:
  assumes "distinct (map key rs)" "distinct (map key t)" "set rs \<subseteq> set t" "\<And>r x. key (f r x) = key x"
  shows "fold (\<lambda>r. updateRow key (key r) (f r)) rs t = map (\<lambda>x. if x \<in> set rs then f x x else x) t"
  using assms
proof (induction rs arbitrary: t)
  case (Cons r rs)
  have u: "updateRow key (key r) (f r) t = map (\<lambda>x. if x = r then f x x else x) t" (is "_ = ?t")
    unfolding updateRow_def using Cons.prems(2,3) by (auto dest: inj_onD [of key "set t"] simp: distinct_map)
  have keys: "map key ?t = map key t" by (simp add: Cons.prems(4))
  have k: "key x \<noteq> key r" if "x \<in> set rs" for x using that Cons.prems(1) by (metis distinct.simps(2) image_eqI list.set_map list.simps(9))
  have fr: "f r r \<notin> set rs" using k Cons.prems(4) by blast
  have sub: "set rs \<subseteq> set ?t" using Cons.prems(3) k by force
  have "fold (\<lambda>r. updateRow key (key r) (f r)) rs ?t = map (\<lambda>x. if x \<in> set rs then f x x else x) ?t"
    using Cons.prems(1,4) sub Cons.prems(2) keys by (intro Cons.IH) (simp_all only: list.map distinct.simps)
  also have "\<dots> = map (\<lambda>x. if x \<in> set (r # rs) then f x x else x) t" using fr by auto
  finally show ?case by (simp add: u)
qed simp

definition staleRun :: "timestamp \<Rightarrow> string list \<Rightarrow> KernelRunRow \<Rightarrow> bool" where
  "staleRun threshold states r = (kn_status r \<in> set states \<and> kn_updatedAt r < threshold)"

definition markedFailed :: "timestamp \<Rightarrow> int \<Rightarrow> KernelRunRow \<Rightarrow> KernelRunRow" where
  "markedFailed now ms r = r\<lparr>kn_status := ''failed'', kn_finalResult := Some (recoveredResult now ms r), kn_updatedAt := now\<rparr>"

lemma set_listStale: "set (listStaleInStates states threshold t) = {r \<in> set t. staleRun threshold states r}"
  by (auto simp: listStaleInStates_def staleRun_def)

lemma distinct_listStale: "distinct (map kn_runId t) \<Longrightarrow> distinct (map kn_runId (listStaleInStates states threshold t))"
  by (auto simp: listStaleInStates_def distinct_map inj_on_def)

lemma swept_kernel_runs:
  assumes "distinct (map kn_runId t)"
  shows "snd (sweepKernelRuns now threshold ms states t) = map (\<lambda>r. if staleRun threshold states r then markedFailed now ms r else r) t"
proof -
  have "snd (sweepKernelRuns now threshold ms states t) =
    fold (\<lambda>r. updateRow kn_runId (kn_runId r) (\<lambda>x. x\<lparr>kn_status := ''failed'', kn_finalResult := Some (recoveredResult now ms r), kn_updatedAt := now\<rparr>))
      (listStaleInStates states threshold t) t"
    by (simp add: sweepKernelRuns_def Let_def markFailedWithResult_def)
  also have "\<dots> = map (\<lambda>r. if r \<in> set (listStaleInStates states threshold t) then markedFailed now ms r else r) t"
    unfolding markedFailed_def by (rule fold_updateRow [OF distinct_listStale [OF assms] assms]) (simp_all add: set_listStale)
  finally show ?thesis by (simp add: set_listStale)
qed

lemma swept_rows_fresh:
  assumes "distinct (map kn_runId t)" "0 \<le> ms"
  shows "listStaleInStates states (now - ms) (snd (sweepKernelRuns now (now - ms) ms states t)) = []"
proof -
  have "\<not> staleRun (now - ms) states r" if "r \<in> set (snd (sweepKernelRuns now (now - ms) ms states t))" for r
    using that assms(2) unfolding swept_kernel_runs [OF assms(1)] by (auto simp: staleRun_def markedFailed_def split: if_splits)
  then have "set (listStaleInStates states (now - ms) (snd (sweepKernelRuns now (now - ms) ms states t))) = {}"
    unfolding set_listStale by blast
  then show ?thesis by simp
qed

section \<open>Properties\<close>

text \<open>The store a target type lives in.\<close>

definition targetStore :: "string \<Rightarrow> coordStore" where
  "targetStore targetType =
     (if targetType = ''planner_run'' then PlannerStore else if targetType = ''kernel_run'' then KernelStore
      else if targetType \<in> set [''background_run'', ''subagent_run''] then BackgroundStore
      else if targetType = ''workflow_run'' then WorkflowStore else if targetType = ''workflow_step_run'' then StepStore
      else if targetType = ''wait_condition'' then WaitStore else ToolStore)"

text \<open>A planner run with a kernel run and its tool call, a workflow run with a finished and a running step, and a waiting background run.\<close>

definition demoCoord :: coord where
  "demoCoord = \<lparr>cc_tools = [(''t1'', \<lparr>cx_toolName = ''writeFile'', cx_toolStatus = ''executing'', cx_synthetic = False\<rparr>)],
     cc_planner = [(''p1'', \<lparr>cx_plannerStatus = ''planning'', cx_activeExecutionRefs = Some
       [\<lparr>er_refId = ''k1'', er_refType = ''kernel_run'', er_status = ''running''\<rparr>,
        \<lparr>er_refId = ''w1'', er_refType = ''workflow_run'', er_status = ''running''\<rparr>,
        \<lparr>er_refId = ''b1'', er_refType = ''background_run'', er_status = ''running''\<rparr>]\<rparr>)],
     cc_background = [(''b1'', ''waiting_for_user'')],
     cc_kernel = [(''k1'', \<lparr>cx_kernelStatus = ''interrupted'', cx_pendingToolCalls = Some [''t1'']\<rparr>)],
     cc_workflow = Some \<lparr>cx_runs = [(''w1'', ''running'')], cx_steps =
       [\<lparr>cx_stepRunId = ''s1'', cx_workflowRunId = ''w1'', cx_stepStatus = ''completed'', cx_kernelRunId = None, cx_subagentRunId = None,
          cx_toolCallId = None, cx_approvalId = None\<rparr>,
        \<lparr>cx_stepRunId = ''s2'', cx_workflowRunId = ''w1'', cx_stepStatus = ''running'', cx_kernelRunId = None, cx_subagentRunId = None,
          cx_toolCallId = None, cx_approvalId = Some ''a1''\<rparr>], cx_stepLookup = True\<rparr>,
     cc_approval = Some [(''a1'', ''pending'')], cc_wait = None, cc_connector = None, cc_events = [],
     cc_registry = \<lparr>ab_registered = [(''k1'', 0)], ab_aborted = []\<rparr>\<rparr>"

definition noFault :: coordFault where
  "noFault st i = None"

text \<open>
  C17: A cancellation spares what is finished: whatever target is cancelled, however it cascades and wherever a store throws, every
  row of every store keeps its status or goes to cancelled, and it goes there only from a status of its store that the coordinator
  cancels from.
\<close>

theorem cancellation_spares_finished:
  assumes "distinct (stepIds s)" "statusAt st j s = Some old"
  shows "statusAt st j (snd (cancelTarget fault targetType i s)) = Some old \<or>
     cancellable st old \<and> statusAt st j (snd (cancelTarget fault targetType i s)) = Some ''cancelled''"
  using spares_status [OF sparingD [OF sparing_target [OF assms(1)] spares_refl], of st j] assms(2) by auto

theorem cancellation_spares_finished_witness:
  "statusAt StepStore ''s1'' (snd (cancelTarget noFault ''planner_run'' ''p1'' demoCoord)) = Some ''completed''"
proof -
  have "distinct (stepIds demoCoord)" "statusAt StepStore ''s1'' demoCoord = Some ''completed''" "\<not> cancellable StepStore ''completed''"
    by (simp_all add: demoCoord_def stepIds_def isTerminalStatus_def)
  then show ?thesis using cancellation_spares_finished by blast
qed

text \<open>
  C40: A reported cancellation took place: when the cancellation of a run, a step or a wait condition reports that it completed,
  fully or in part, the target has status cancelled in its store.
\<close>

theorem reported_cancellation_holds:
  assumes "cancelTarget fault targetType i s = (Inr r, s')" "cn_status r \<in> set [''completed'', ''partial'']"
    "targetType \<noteq> ''tool_execution''" "distinct (stepIds s)"
  shows "statusAt (targetStore targetType) i s' = Some ''cancelled''"
proof -
  have r: "reportsDone r" using assms(2) by (simp add: reportsDone_def)
  note c = assms(1) [unfolded cancelTarget_def]
  consider "targetType = ''planner_run''" | "targetType = ''kernel_run''" | "targetType = ''background_run''" | "targetType = ''subagent_run''"
    | "targetType = ''workflow_run''" | "targetType = ''workflow_step_run''" | "targetType = ''wait_condition''"
    | "cancelTarget fault targetType i = returnC (notCancellable i)"
    using assms(3) by (fastforce simp: cancelTarget_def)
  then show ?thesis
  proof cases
    case 1
    then show ?thesis using c done_planner [OF _ r assms(4)] by (simp add: targetStore_def)
  next
    case 2
    then show ?thesis using c done_kernel [OF _ r] by (simp add: targetStore_def)
  next
    case 3
    then show ?thesis using c done_background [OF _ r] by (simp add: targetStore_def)
  next
    case 4
    then show ?thesis using c done_background [OF _ r] by (simp add: targetStore_def)
  next
    case 5
    then show ?thesis using c done_workflow [OF _ r assms(4)] by (simp add: targetStore_def)
  next
    case 6
    then show ?thesis using c done_step [OF _ r] by (simp add: targetStore_def)
  next
    case 7
    then show ?thesis using c wait_rows.done_terminalStoreRef [OF _ r] by (simp add: targetStore_def)
  next
    case 8
    then show ?thesis using assms(1) r by (auto simp: returnC_def)
  qed
qed

theorem reported_cancellation_holds_witness:
  "statusAt PlannerStore ''p1'' (snd (cancelTarget noFault ''planner_run'' ''p1'' demoCoord)) = Some ''cancelled''"
proof -
  obtain x s' where x: "cancelTarget noFault ''planner_run'' ''p1'' demoCoord = (x, s')" by (cases "cancelTarget noFault ''planner_run'' ''p1'' demoCoord")
  have "(case fst (cancelTarget noFault ''planner_run'' ''p1'' demoCoord) of Inr r \<Rightarrow> cn_status r = ''completed'' | Inl e \<Rightarrow> False)"
    by code_simp
  then obtain r where r: "x = Inr r" "cn_status r = ''completed''" using x by (auto split: sum.splits)
  have "statusAt (targetStore ''planner_run'') ''p1'' s' = Some ''cancelled''"
    by (rule reported_cancellation_holds [OF x [unfolded r(1)]]) (simp_all add: r(2) demoCoord_def stepIds_def)
  then show ?thesis by (simp add: x targetStore_def)
qed

text \<open>
  C32: The sweep of kernel runs does what it says: after a recovery the table is the old one with exactly the runs in a swept state
  and older than the threshold marked failed, with the record of the recovery as their result, and nothing is left to sweep.
\<close>

theorem stale_sweep_exact:
  assumes "recoverStaleRuns cfg now acts runs = Inr (report, acts', runs')" "distinct (map kn_runId runs)" "0 \<le> sc_kernelRunThresholdMs cfg"
  shows "runs' = map (\<lambda>r. if kn_status r \<in> set (nullish (sc_kernelRunSweepStates cfg) DEFAULT_KERNEL_RUN_SWEEP_STATES) \<and>
        kn_updatedAt r < now - sc_kernelRunThresholdMs cfg then markedFailed now (sc_kernelRunThresholdMs cfg) r else r) runs \<and>
     listStaleInStates (nullish (sc_kernelRunSweepStates cfg) DEFAULT_KERNEL_RUN_SWEEP_STATES) (now - sc_kernelRunThresholdMs cfg) runs' = []"
proof -
  have r: "runs' = snd (sweepKernelRuns now (now - sc_kernelRunThresholdMs cfg) (sc_kernelRunThresholdMs cfg)
      (nullish (sc_kernelRunSweepStates cfg) DEFAULT_KERNEL_RUN_SWEEP_STATES) runs)"
    using assms(1) by (auto simp: recoverStaleRuns_def split: sum.splits prod.splits)
  show ?thesis using swept_rows_fresh [OF assms(2,3)] swept_kernel_runs [OF assms(2)] r by (simp add: staleRun_def)
qed

definition demoKernelRun :: "string \<Rightarrow> string \<Rightarrow> timestamp \<Rightarrow> KernelRunRow" where
  "demoKernelRun i st stamp = \<lparr>kn_runId = i, kn_sessionId = None, kn_agentId = ''a'', kn_invocationSource = ''user'', kn_status = st,
     kn_checkpointData = None, kn_finalResult = None, kn_metrics = None, kn_eventStart = None, kn_eventEnd = None,
     kn_parentRunId = None, kn_rootRunId = None, kn_createdAt = stamp, kn_updatedAt = stamp\<rparr>"

theorem stale_sweep_exact_witness:
  "snd (sweepKernelRuns 1000 500 500 DEFAULT_KERNEL_RUN_SWEEP_STATES [demoKernelRun ''k1'' ''sampling_model'' 10, demoKernelRun ''k2'' ''completed'' 10]) =
     [markedFailed 1000 500 (demoKernelRun ''k1'' ''sampling_model'' 10), demoKernelRun ''k2'' ''completed'' 10]"
proof -
  let ?cfg = "\<lparr>sc_runtimeActionThresholdMs = 500, sc_kernelRunThresholdMs = 500, sc_runtimeActionSweepStates = None, sc_kernelRunSweepStates = None\<rparr>"
  let ?runs = "[demoKernelRun ''k1'' ''sampling_model'' 10, demoKernelRun ''k2'' ''completed'' 10]"
  have e: "recoverStaleRuns ?cfg 1000 ([] :: unit actionTable) ?runs =
      Inr (([], fst (sweepKernelRuns 1000 500 500 DEFAULT_KERNEL_RUN_SWEEP_STATES ?runs)), [],
        snd (sweepKernelRuns 1000 500 500 DEFAULT_KERNEL_RUN_SWEEP_STATES ?runs))"
    by (simp add: recoverStaleRuns_def listStaleByStatus_def nullish_def case_prod_beta Let_def)
  show ?thesis using stale_sweep_exact [OF e]
    by (simp add: demoKernelRun_def DEFAULT_KERNEL_RUN_SWEEP_STATES_def nullish_def)
qed

section \<open>Where the reports and the rows disagree\<close>

text \<open>A tool that is not there, or that ended, is reported as cancelled; so is one of its runs that waits.\<close>

theorem missing_tool_reported_cancelled:
  "mapGet (cc_tools s) i = None \<Longrightarrow> cancelTarget fault ''tool_execution'' i s = (Inr (cancelResult ''completed'' [i] [] [] False), s)"
  by (simp add: cancelTarget_def cancelTool_def bindC_def returnC_def)

text \<open>
  A background run that waits is no longer cancellable; as a reference of a planner run it is still counted as affected and the
  planner's cancellation reports that it completed.
\<close>

theorem waiting_child_reported_cancelled:
  "cancelRef noFault \<lparr>er_refId = ''b1'', er_refType = ''background_run'', er_status = ''running''\<rparr> demoCoord =
     (Inr (refResult True False False), demoCoord)"
  by (simp add: cancelRef_def cancelRefWith_def cancelBackgroundRun_def demoCoord_def bindC_def returnC_def Let_def)

text \<open>The terminal statuses of kernel runs the coordinator does not know are overwritten.\<close>

theorem interrupted_run_overwritten:
  "statusAt KernelStore ''k1'' demoCoord = Some ''interrupted'' \<and>
   statusAt KernelStore ''k1'' (snd (cancelTarget noFault ''kernel_run'' ''k1'' demoCoord)) = Some ''cancelled''"
  by code_simp

text \<open>Resuming writes the status running into every store, also into those whose runs have no such state.\<close>

theorem resume_writes_running:
  "mapGet (cc_kernel s) i = Some r \<Longrightarrow> \<not> isTerminalStatus (cx_kernelStatus r) \<Longrightarrow>
   statusAt KernelStore i (snd (resumeTarget noFault ''kernel_run'' i s)) = Some ''running''"
  using kernel_rows.put_present [of i s "''running''"]
  by (auto simp: resumeTarget_def transitionTarget_def transitionStore_def noFault_def bindC_def writeC_def returnC_def
      emitCancellationEvent_def)

section \<open>Orphans and checkpoints\<close>

lemma recover_or_fail: "length (filter (\<lambda>q. on_action q = OrphanRecover) (map classifyOrphan rs)) +
    length (filter (\<lambda>q. on_action q = OrphanMarkFailed) (map classifyOrphan rs)) = length rs"
  by (induction rs) (auto simp: classifyOrphan_def Let_def)

text \<open>Every overdue run is reported, once per listing, as recoverable or failed.\<close>

theorem orphans_accounted:
  assumes "scanOrphanedRuns now stores = (res, audited)"
  shows "os_orphans res = map classifyOrphan (filter (\<lambda>r. isOverdueByType (av_runType r) (av_startedAt r) now) (concat stores)) \<and>
     audited = map on_runId (os_orphans res) \<and> os_recoveredCount res + os_failedCount res = length (os_orphans res)"
proof -
  have "concat (map (\<lambda>active. map classifyOrphan (filter (\<lambda>r. isOverdueByType (av_runType r) (av_startedAt r) now) active)) stores) =
      map classifyOrphan (filter (\<lambda>r. isOverdueByType (av_runType r) (av_startedAt r) now) (concat stores))"
    by (simp add: map_concat filter_concat comp_def)
  then show ?thesis using assms unfolding scanOrphanedRuns_def Let_def by (clarsimp simp only: OrphanScanResult.simps recover_or_fail length_map simp_thms)
qed

text \<open>An overdue action that writes, deletes, sends, executes or mutates, or has no category, is never recovered.\<close>

theorem mutating_action_not_recovered:
  "av_runType r = RuntimeActionRun \<Longrightarrow>
   av_actionCategory r = None \<or> toLowerCase (the (av_actionCategory r)) \<in> set NON_RECOVERABLE_ACTION_CATEGORIES \<Longrightarrow>
   on_action (classifyOrphan r) = OrphanMarkFailed"
  by (auto simp: classifyOrphan_def isRecoverable_def truthy_def Let_def)

text \<open>A saved checkpoint is found again until another one is saved for its run; one with external writes needs the explicit consent.\<close>

theorem checkpoint_recovers:
  "recoverFromCheckpoint runType runId allow events (snd (saveRecoveryCheckpoint now runType runId v cursor ext m)) =
     (let c = fst (saveRecoveryCheckpoint now runType runId v cursor ext m) in
      if rk_allowExternalWrites c \<and> allow \<noteq> Some True
      then \<lparr>rq_canRecover = False, rq_checkpoint = Some c, rq_events = [], rq_blockedReason = Some ''external_write_replay_requires_explicit_allow''\<rparr>
      else \<lparr>rq_canRecover = True, rq_checkpoint = Some c, rq_events = filter (\<lambda>e. re_correlationId e = runId \<and>
        (case cursor of None \<Rightarrow> True | Some cur \<Rightarrow> cur \<le> re_createdAt e)) events, rq_blockedReason = None\<rparr>)"
  by (auto simp: recoverFromCheckpoint_def saveRecoveryCheckpoint_def Let_def intro!: filter_cong split: option.split)

end
