(* ===== verification/Lifecycle.thy ===== *)
theory Lifecycle
  imports Prelude
begin

text \<open>
  The lifecycle state machines of \<open>src/src/shared/states.ts\<close> and the transition validators of
  \<open>src/src/shared/transitions.ts\<close>: the state tables, the terminal sets, the rule tables and one
  validator per machine, with the states as the strings the code compares. The locales \<open>lifecycle\<close>
  and \<open>ranked_lifecycle\<close> hold what every validator promises; each machine interprets them.
\<close>

section \<open>State tables\<close>

definition FOREGROUND_STATES :: "string list" where
  "FOREGROUND_STATES =
    [''received'', ''hydrating'', ''classifying'', ''deciding'', ''responding'',
     ''direct_delegating'', ''spawning_planner'', ''querying_status'',
     ''handling_approval'', ''handling_interrupt'', ''completed'', ''failed'']"

definition PLANNER_STATES :: "string list" where
  "PLANNER_STATES =
    [''initializing'', ''planning'', ''waiting_for_user'', ''waiting_for_approval'',
     ''waiting_for_execution_result'', ''waiting_for_external_event'', ''replanning'',
     ''paused'', ''completed'', ''failed'', ''cancelled'', ''archived'']"

definition EXECUTION_PLAN_STATES :: "string list" where
  "EXECUTION_PLAN_STATES =
    [''draft'', ''approved'', ''in_execution'', ''blocked'', ''waiting_for_user'',
     ''waiting_for_approval'', ''replanning'', ''completed'', ''failed'', ''abandoned'']"

definition RUNTIME_ACTION_STATES :: "string list" where
  "RUNTIME_ACTION_STATES =
    [''created'', ''validated'', ''duplicate'', ''denied'', ''accepted'', ''queued'',
     ''dispatching'', ''waiting_for_approval'', ''waiting_for_target'', ''completed'',
     ''failed'', ''timeout'', ''cancelled'']"

definition KERNEL_RUN_STATES :: "string list" where
  "KERNEL_RUN_STATES =
    [''initializing'', ''building_context'', ''building_model_input'', ''sampling_model'',
     ''parsing_model_output'', ''dispatching_tools'', ''launching_subagent'',
     ''waiting_for_approval'', ''waiting_for_user'', ''checking_compact'', ''compacting'',
     ''completed'', ''failed'', ''cancelled'', ''interrupted'', ''partial_success'',
     ''max_iterations_reached'']"

definition TOOL_EXECUTION_STATES :: "string list" where
  "TOOL_EXECUTION_STATES =
    [''received'', ''schema_validating'', ''permission_checking'', ''waiting_for_approval'',
     ''denied'', ''executing'', ''mapping_result'', ''completed'', ''failed'', ''timeout'',
     ''cancelled'', ''aborted'', ''discarded'']"

definition BACKGROUND_SUBAGENT_STATES :: "string list" where
  "BACKGROUND_SUBAGENT_STATES =
    [''queued'', ''running'', ''waiting_for_user'', ''waiting_for_approval'',
     ''waiting_for_external_event'', ''sleeping'', ''recovering'', ''completed'',
     ''failed'', ''cancelled'', ''expired'']"

definition WORKFLOW_RUN_STATES :: "string list" where
  "WORKFLOW_RUN_STATES =
    [''queued'', ''running'', ''waiting_for_user'', ''waiting_for_approval'',
     ''waiting_for_external_event'', ''sleeping'', ''paused'', ''completed'', ''failed'',
     ''cancelled'', ''timeout'']"

definition APPROVAL_STATES :: "string list" where
  "APPROVAL_STATES =
    [''pending'', ''approved'', ''rejected'', ''expired'', ''cancelled'']"

definition WAIT_CONDITION_STATES :: "string list" where
  "WAIT_CONDITION_STATES =
    [''registered'', ''active'', ''satisfied'', ''failed'', ''timeout'', ''cancelled'']"

definition TRIGGER_EVENT_STATES :: "string list" where
  "TRIGGER_EVENT_STATES =
    [''created'', ''matched'', ''action_created'', ''dispatched'', ''handled'', ''failed'',
     ''duplicate'']"

definition SUMMARY_STATES :: "string list" where
  "SUMMARY_STATES =
    [''candidate'', ''validated'', ''active'', ''superseded'', ''archived'', ''expired'']"

definition MEMORY_STATES :: "string list" where
  "MEMORY_STATES =
    [''candidate'', ''validated'', ''active'', ''low_priority'', ''compressed'',
     ''archived'', ''expired'', ''deleted'']"

definition ACTIVE_STATES :: "string list" where
  "ACTIVE_STATES =
    [''queued'', ''initializing'', ''planning'', ''running'', ''executing'', ''replanning'',
     ''recovering'']"

definition WAITING_STATES :: "string list" where
  "WAITING_STATES =
    [''waiting_for_user'', ''waiting_for_approval'', ''waiting_for_execution_result'',
     ''waiting_for_external_event'', ''sleeping'', ''paused'']"

definition TERMINAL_STATES :: "string list" where
  "TERMINAL_STATES =
    [''completed'', ''partial_success'', ''failed'', ''cancelled'', ''timeout'',
     ''expired'', ''archived'']"

section \<open>Results and checks\<close>

record TransitionError =
  te_code :: string
  te_message :: string

record TransitionResult =
  tr_valid :: bool
  tr_error :: "TransitionError option"

definition createError :: "string \<Rightarrow> string \<Rightarrow> TransitionError" where
  "createError c m = \<lparr>te_code = c, te_message = m\<rparr>"

definition createSuccess :: TransitionResult where
  "createSuccess = \<lparr>tr_valid = True, tr_error = None\<rparr>"

definition createFailure :: "TransitionError \<Rightarrow> TransitionResult" where
  "createFailure e = \<lparr>tr_valid = False, tr_error = Some e\<rparr>"

definition isActiveState :: "string \<Rightarrow> bool" where
  "isActiveState s = (s \<in> set ACTIVE_STATES)"

definition isWaitingState :: "string \<Rightarrow> bool" where
  "isWaitingState s = (s \<in> set WAITING_STATES)"

definition isTerminalState :: "string \<Rightarrow> bool" where
  "isTerminalState s = (s \<in> set TERMINAL_STATES)"

definition checkTerminalTransition :: "string \<Rightarrow> string list \<Rightarrow> TransitionResult option" where
  "checkTerminalTransition frm terminalStates =
     (if frm \<in> set terminalStates
      then Some (createFailure (createError ''INVALID_FROM_TERMINAL''
                  (''Cannot transition from terminal state '' @ frm)))
      else None)"

definition isValidState :: "string \<Rightarrow> string list \<Rightarrow> bool" where
  "isValidState s validStates = (s \<in> set validStates)"

section \<open>Terminal sets and rule tables\<close>

definition RUNTIME_ACTION_TERMINAL :: "string list" where
  "RUNTIME_ACTION_TERMINAL =
    [''duplicate'', ''denied'', ''completed'', ''failed'', ''timeout'', ''cancelled'']"

definition TOOL_EXECUTION_TERMINAL :: "string list" where
  "TOOL_EXECUTION_TERMINAL =
    [''completed'', ''failed'', ''timeout'', ''cancelled'', ''aborted'', ''discarded'',
     ''denied'']"

definition APPROVAL_TERMINAL :: "string list" where
  "APPROVAL_TERMINAL =
    [''approved'', ''rejected'', ''expired'', ''cancelled'']"

definition WAIT_CONDITION_TERMINAL :: "string list" where
  "WAIT_CONDITION_TERMINAL =
    [''satisfied'', ''failed'', ''timeout'', ''cancelled'']"

definition TRIGGER_EVENT_TERMINAL :: "string list" where
  "TRIGGER_EVENT_TERMINAL =
    [''handled'', ''failed'', ''duplicate'']"

definition SUMMARY_TERMINAL :: "string list" where
  "SUMMARY_TERMINAL =
    [''superseded'', ''archived'', ''expired'']"

definition MEMORY_TERMINAL :: "string list" where
  "MEMORY_TERMINAL =
    [''archived'', ''expired'', ''deleted'']"

definition EXECUTION_PLAN_RULES :: "(string \<times> string list) list" where
  "EXECUTION_PLAN_RULES =
    [(''draft'', [''approved'']),
     (''approved'', [''in_execution'']),
     (''in_execution'', [''blocked'', ''waiting_for_user'', ''waiting_for_approval'', ''replanning'',
       ''completed'', ''failed'', ''abandoned'']),
     (''blocked'', [''in_execution'', ''waiting_for_user'', ''waiting_for_approval'']),
     (''waiting_for_user'', [''in_execution'', ''replanning'']),
     (''waiting_for_approval'', [''in_execution'', ''replanning'', ''abandoned'']),
     (''replanning'', [''in_execution''])]"

definition APPROVAL_RULES :: "(string \<times> string list) list" where
  "APPROVAL_RULES =
    [(''pending'', [''approved'', ''rejected'', ''expired'', ''cancelled''])]"

definition WAIT_CONDITION_RULES :: "(string \<times> string list) list" where
  "WAIT_CONDITION_RULES =
    [(''registered'', [''active'']),
     (''active'', [''satisfied'', ''failed'', ''timeout'', ''cancelled''])]"

definition TRIGGER_EVENT_RULES :: "(string \<times> string list) list" where
  "TRIGGER_EVENT_RULES =
    [(''created'', [''matched'']),
     (''matched'', [''action_created'', ''duplicate'']),
     (''action_created'', [''dispatched'']),
     (''dispatched'', [''handled'', ''failed''])]"

definition SUMMARY_RULES :: "(string \<times> string list) list" where
  "SUMMARY_RULES =
    [(''candidate'', [''validated'']),
     (''validated'', [''active'']),
     (''active'', [''superseded'', ''archived'', ''expired''])]"

definition MEMORY_RULES :: "(string \<times> string list) list" where
  "MEMORY_RULES =
    [(''candidate'', [''validated'']),
     (''validated'', [''active'']),
     (''active'', [''low_priority'', ''compressed'', ''archived'', ''expired'', ''deleted''])]"

section \<open>Validators\<close>

definition validateForegroundTransition :: "string \<Rightarrow> string \<Rightarrow> TransitionResult" where
  "validateForegroundTransition frm to =
     (let validStates = FOREGROUND_STATES in
      if \<not> isValidState frm validStates
      then createFailure (createError ''INVALID_SOURCE_STATE'' (''Invalid source state: '' @ frm))
      else if \<not> isValidState to validStates
      then createFailure (createError ''INVALID_TARGET_STATE'' (''Invalid target state: '' @ to))
      else case checkTerminalTransition frm TERMINAL_STATES of
          Some r \<Rightarrow> r
        | None \<Rightarrow> createSuccess)"

definition validatePlannerTransition :: "string \<Rightarrow> string \<Rightarrow> TransitionResult" where
  "validatePlannerTransition frm to =
     (let validStates = PLANNER_STATES in
      if \<not> isValidState frm validStates
      then createFailure (createError ''INVALID_SOURCE_STATE'' (''Invalid source state: '' @ frm))
      else if \<not> isValidState to validStates
      then createFailure (createError ''INVALID_TARGET_STATE'' (''Invalid target state: '' @ to))
      else case checkTerminalTransition frm TERMINAL_STATES of
          Some r \<Rightarrow> r
        | None \<Rightarrow> createSuccess)"

definition validateExecutionPlanTransition :: "string \<Rightarrow> string \<Rightarrow> TransitionResult" where
  "validateExecutionPlanTransition frm to =
     (let validStates = EXECUTION_PLAN_STATES in
      if \<not> isValidState frm validStates
      then createFailure (createError ''INVALID_SOURCE_STATE'' (''Invalid source state: '' @ frm))
      else if \<not> isValidState to validStates
      then createFailure (createError ''INVALID_TARGET_STATE'' (''Invalid target state: '' @ to))
      else case checkTerminalTransition frm TERMINAL_STATES of
          Some r \<Rightarrow> r
        | None \<Rightarrow> (case map_of EXECUTION_PLAN_RULES frm of
              Some allowed \<Rightarrow>
                if to \<notin> set allowed
                then createFailure (createError ''TRANSITION_NOT_ALLOWED''
                       (''Transition from '' @ frm @ '' to '' @ to @ '' is not allowed''))
                else createSuccess
            | None \<Rightarrow> createSuccess))"

definition validateRuntimeActionTransition :: "string \<Rightarrow> string \<Rightarrow> TransitionResult" where
  "validateRuntimeActionTransition frm to =
     (let validStates = RUNTIME_ACTION_STATES in
      if \<not> isValidState frm validStates
      then createFailure (createError ''INVALID_SOURCE_STATE'' (''Invalid source state: '' @ frm))
      else if \<not> isValidState to validStates
      then createFailure (createError ''INVALID_TARGET_STATE'' (''Invalid target state: '' @ to))
      else case checkTerminalTransition frm RUNTIME_ACTION_TERMINAL of
          Some r \<Rightarrow> r
        | None \<Rightarrow> createSuccess)"

definition validateKernelRunTransition :: "string \<Rightarrow> string \<Rightarrow> TransitionResult" where
  "validateKernelRunTransition frm to =
     (let validStates = KERNEL_RUN_STATES in
      if \<not> isValidState frm validStates
      then createFailure (createError ''INVALID_SOURCE_STATE'' (''Invalid source state: '' @ frm))
      else if \<not> isValidState to validStates
      then createFailure (createError ''INVALID_TARGET_STATE'' (''Invalid target state: '' @ to))
      else case checkTerminalTransition frm TERMINAL_STATES of
          Some r \<Rightarrow> r
        | None \<Rightarrow> createSuccess)"

definition validateToolExecutionTransition :: "string \<Rightarrow> string \<Rightarrow> TransitionResult" where
  "validateToolExecutionTransition frm to =
     (let validStates = TOOL_EXECUTION_STATES in
      if \<not> isValidState frm validStates
      then createFailure (createError ''INVALID_SOURCE_STATE'' (''Invalid source state: '' @ frm))
      else if \<not> isValidState to validStates
      then createFailure (createError ''INVALID_TARGET_STATE'' (''Invalid target state: '' @ to))
      else case checkTerminalTransition frm TOOL_EXECUTION_TERMINAL of
          Some r \<Rightarrow> r
        | None \<Rightarrow> createSuccess)"

definition validateBackgroundSubagentTransition :: "string \<Rightarrow> string \<Rightarrow> TransitionResult" where
  "validateBackgroundSubagentTransition frm to =
     (let validStates = BACKGROUND_SUBAGENT_STATES in
      if \<not> isValidState frm validStates
      then createFailure (createError ''INVALID_SOURCE_STATE'' (''Invalid source state: '' @ frm))
      else if \<not> isValidState to validStates
      then createFailure (createError ''INVALID_TARGET_STATE'' (''Invalid target state: '' @ to))
      else case checkTerminalTransition frm TERMINAL_STATES of
          Some r \<Rightarrow> r
        | None \<Rightarrow> createSuccess)"

definition validateWorkflowRunTransition :: "string \<Rightarrow> string \<Rightarrow> TransitionResult" where
  "validateWorkflowRunTransition frm to =
     (let validStates = WORKFLOW_RUN_STATES in
      if \<not> isValidState frm validStates
      then createFailure (createError ''INVALID_SOURCE_STATE'' (''Invalid source state: '' @ frm))
      else if \<not> isValidState to validStates
      then createFailure (createError ''INVALID_TARGET_STATE'' (''Invalid target state: '' @ to))
      else case checkTerminalTransition frm TERMINAL_STATES of
          Some r \<Rightarrow> r
        | None \<Rightarrow> createSuccess)"

definition validateApprovalTransition :: "string \<Rightarrow> string \<Rightarrow> TransitionResult" where
  "validateApprovalTransition frm to =
     (let validStates = APPROVAL_STATES in
      if \<not> isValidState frm validStates
      then createFailure (createError ''INVALID_SOURCE_STATE'' (''Invalid source state: '' @ frm))
      else if \<not> isValidState to validStates
      then createFailure (createError ''INVALID_TARGET_STATE'' (''Invalid target state: '' @ to))
      else case checkTerminalTransition frm APPROVAL_TERMINAL of
          Some r \<Rightarrow> r
        | None \<Rightarrow> (case map_of APPROVAL_RULES frm of
              Some allowed \<Rightarrow>
                if to \<notin> set allowed
                then createFailure (createError ''TRANSITION_NOT_ALLOWED''
                       (''Transition from '' @ frm @ '' to '' @ to @ '' is not allowed''))
                else createSuccess
            | None \<Rightarrow> createSuccess))"

definition validateWaitConditionTransition :: "string \<Rightarrow> string \<Rightarrow> TransitionResult" where
  "validateWaitConditionTransition frm to =
     (let validStates = WAIT_CONDITION_STATES in
      if \<not> isValidState frm validStates
      then createFailure (createError ''INVALID_SOURCE_STATE'' (''Invalid source state: '' @ frm))
      else if \<not> isValidState to validStates
      then createFailure (createError ''INVALID_TARGET_STATE'' (''Invalid target state: '' @ to))
      else case checkTerminalTransition frm WAIT_CONDITION_TERMINAL of
          Some r \<Rightarrow> r
        | None \<Rightarrow> (case map_of WAIT_CONDITION_RULES frm of
              Some allowed \<Rightarrow>
                if to \<notin> set allowed
                then createFailure (createError ''TRANSITION_NOT_ALLOWED''
                       (''Transition from '' @ frm @ '' to '' @ to @ '' is not allowed''))
                else createSuccess
            | None \<Rightarrow> createSuccess))"

definition validateTriggerEventTransition :: "string \<Rightarrow> string \<Rightarrow> TransitionResult" where
  "validateTriggerEventTransition frm to =
     (let validStates = TRIGGER_EVENT_STATES in
      if \<not> isValidState frm validStates
      then createFailure (createError ''INVALID_SOURCE_STATE'' (''Invalid source state: '' @ frm))
      else if \<not> isValidState to validStates
      then createFailure (createError ''INVALID_TARGET_STATE'' (''Invalid target state: '' @ to))
      else case checkTerminalTransition frm TRIGGER_EVENT_TERMINAL of
          Some r \<Rightarrow> r
        | None \<Rightarrow> (case map_of TRIGGER_EVENT_RULES frm of
              Some allowed \<Rightarrow>
                if to \<notin> set allowed
                then createFailure (createError ''TRANSITION_NOT_ALLOWED''
                       (''Transition from '' @ frm @ '' to '' @ to @ '' is not allowed''))
                else createSuccess
            | None \<Rightarrow> createSuccess))"

definition validateSummaryTransition :: "string \<Rightarrow> string \<Rightarrow> TransitionResult" where
  "validateSummaryTransition frm to =
     (let validStates = SUMMARY_STATES in
      if \<not> isValidState frm validStates
      then createFailure (createError ''INVALID_SOURCE_STATE'' (''Invalid source state: '' @ frm))
      else if \<not> isValidState to validStates
      then createFailure (createError ''INVALID_TARGET_STATE'' (''Invalid target state: '' @ to))
      else case checkTerminalTransition frm SUMMARY_TERMINAL of
          Some r \<Rightarrow> r
        | None \<Rightarrow> (case map_of SUMMARY_RULES frm of
              Some allowed \<Rightarrow>
                if to \<notin> set allowed
                then createFailure (createError ''TRANSITION_NOT_ALLOWED''
                       (''Transition from '' @ frm @ '' to '' @ to @ '' is not allowed''))
                else createSuccess
            | None \<Rightarrow> createSuccess))"

definition validateMemoryTransition :: "string \<Rightarrow> string \<Rightarrow> TransitionResult" where
  "validateMemoryTransition frm to =
     (let validStates = MEMORY_STATES in
      if \<not> isValidState frm validStates
      then createFailure (createError ''INVALID_SOURCE_STATE'' (''Invalid source state: '' @ frm))
      else if \<not> isValidState to validStates
      then createFailure (createError ''INVALID_TARGET_STATE'' (''Invalid target state: '' @ to))
      else case checkTerminalTransition frm MEMORY_TERMINAL of
          Some r \<Rightarrow> r
        | None \<Rightarrow> (case map_of MEMORY_RULES frm of
              Some allowed \<Rightarrow>
                if to \<notin> set allowed
                then createFailure (createError ''TRANSITION_NOT_ALLOWED''
                       (''Transition from '' @ frm @ '' to '' @ to @ '' is not allowed''))
                else createSuccess
            | None \<Rightarrow> createSuccess))"

section \<open>Runs\<close>

text \<open>The states a validator lets an object reach, and the validity of a whole sequence of updates.\<close>

inductive reaches :: "(string \<Rightarrow> string \<Rightarrow> TransitionResult) \<Rightarrow> string \<Rightarrow> string \<Rightarrow> bool" for v where
  here: "reaches v s s"
| step: "reaches v s t \<Longrightarrow> tr_valid (v t u) \<Longrightarrow> reaches v s u"

fun valid_run :: "(string \<Rightarrow> string \<Rightarrow> TransitionResult) \<Rightarrow> string \<Rightarrow> string list \<Rightarrow> bool" where
  "valid_run v s [] = True"
| "valid_run v s (t # ts) = (tr_valid (v s t) \<and> valid_run v t ts)"

lemma valid_run_reaches: "valid_run v s ts \<Longrightarrow> reaches v r s \<Longrightarrow> reaches v r (last (s # ts))"
  by (induction v s ts rule: valid_run.induct) (simp, auto dest: reaches.step)

section \<open>What every validator promises\<close>

lemmas transition_defs = createError_def createSuccess_def createFailure_def
  checkTerminalTransition_def isValidState_def Let_def

locale lifecycle =
  fixes states :: "string list"
    and terminals :: "string list"
    and rules :: "(string \<times> string list) list"
    and validate :: "string \<Rightarrow> string \<Rightarrow> TransitionResult"
  assumes valid_iff: "tr_valid (validate s t) \<longleftrightarrow>
      s \<in> set states \<and> t \<in> set states \<and> s \<notin> set terminals \<and>
      (\<forall>allowed. map_of rules s = Some allowed \<longrightarrow> t \<in> set allowed)"
    and error_iff: "tr_error (validate s t) = None \<longleftrightarrow> tr_valid (validate s t)"
begin

lemma terminal_absorbing: "reaches validate s t \<Longrightarrow> s \<in> set terminals \<Longrightarrow> t = s"
  by (induction rule: reaches.induct) (auto simp: valid_iff)

lemma reach_in_states: "reaches validate s t \<Longrightarrow> s \<in> set states \<Longrightarrow> t \<in> set states"
  by (induction rule: reaches.induct) (auto simp: valid_iff)

lemma ruled_step: "tr_valid (validate s t) \<Longrightarrow> map_of rules s = Some allowed \<Longrightarrow> t \<in> set allowed"
  by (auto simp: valid_iff)

lemma unruled_step:
  "s \<in> set states \<Longrightarrow> s \<notin> set terminals \<Longrightarrow> map_of rules s = None \<Longrightarrow> t \<in> set states \<Longrightarrow>
   tr_valid (validate s t)"
  by (simp add: valid_iff)

lemma table_rank_lowers:
  assumes "\<forall>s \<in> set states. s \<in> set terminals \<or> s \<in> set (map fst rules)"
    and "\<forall>(s, allowed) \<in> set rules. \<forall>t \<in> set allowed. r t < (r s :: nat)"
    and "tr_valid (validate s t)"
  shows "r t < r s"
proof -
  have "s \<in> set states" "s \<notin> set terminals" using assms(3) by (auto simp: valid_iff)
  with assms(1) have "s \<in> set (map fst rules)" by blast
  then obtain allowed where "map_of rules s = Some allowed"
    by (metis map_of_eq_None_iff not_None_eq set_map)
  with assms(3) have "(s, allowed) \<in> set rules" "t \<in> set allowed"
    by (auto simp: valid_iff dest: map_of_SomeD)
  with assms(2) show ?thesis by blast
qed

end

text \<open>A machine with a rank that every transition lowers: its runs are bounded.\<close>

locale ranked_lifecycle = lifecycle +
  fixes rank :: "string \<Rightarrow> nat"
  assumes rank_lowers: "tr_valid (validate s t) \<Longrightarrow> rank t < rank s"
begin

lemma run_bounded: "valid_run validate s ts \<Longrightarrow> length ts \<le> rank s"
proof (induction ts arbitrary: s)
  case Nil
  then show ?case by simp
next
  case (Cons t ts)
  then have "rank t < rank s" and "length ts \<le> rank t" by (auto dest: rank_lowers)
  then show ?case by simp
qed

end

interpretation fg: lifecycle FOREGROUND_STATES TERMINAL_STATES "[]" validateForegroundTransition
  by unfold_locales (auto simp: validateForegroundTransition_def transition_defs split: option.splits)

interpretation pl: lifecycle PLANNER_STATES TERMINAL_STATES "[]" validatePlannerTransition
  by unfold_locales (auto simp: validatePlannerTransition_def transition_defs split: option.splits)

interpretation ep: lifecycle EXECUTION_PLAN_STATES TERMINAL_STATES "EXECUTION_PLAN_RULES" validateExecutionPlanTransition
  by unfold_locales (auto simp: validateExecutionPlanTransition_def transition_defs split: option.splits)

interpretation ra: lifecycle RUNTIME_ACTION_STATES RUNTIME_ACTION_TERMINAL "[]" validateRuntimeActionTransition
  by unfold_locales (auto simp: validateRuntimeActionTransition_def transition_defs split: option.splits)

interpretation kr: lifecycle KERNEL_RUN_STATES TERMINAL_STATES "[]" validateKernelRunTransition
  by unfold_locales (auto simp: validateKernelRunTransition_def transition_defs split: option.splits)

interpretation te: lifecycle TOOL_EXECUTION_STATES TOOL_EXECUTION_TERMINAL "[]" validateToolExecutionTransition
  by unfold_locales (auto simp: validateToolExecutionTransition_def transition_defs split: option.splits)

interpretation bs: lifecycle BACKGROUND_SUBAGENT_STATES TERMINAL_STATES "[]" validateBackgroundSubagentTransition
  by unfold_locales (auto simp: validateBackgroundSubagentTransition_def transition_defs split: option.splits)

interpretation wr: lifecycle WORKFLOW_RUN_STATES TERMINAL_STATES "[]" validateWorkflowRunTransition
  by unfold_locales (auto simp: validateWorkflowRunTransition_def transition_defs split: option.splits)

interpretation ap: lifecycle APPROVAL_STATES APPROVAL_TERMINAL "APPROVAL_RULES" validateApprovalTransition
  by unfold_locales (auto simp: validateApprovalTransition_def transition_defs split: option.splits)

interpretation wc: lifecycle WAIT_CONDITION_STATES WAIT_CONDITION_TERMINAL "WAIT_CONDITION_RULES" validateWaitConditionTransition
  by unfold_locales (auto simp: validateWaitConditionTransition_def transition_defs split: option.splits)

interpretation tg: lifecycle TRIGGER_EVENT_STATES TRIGGER_EVENT_TERMINAL "TRIGGER_EVENT_RULES" validateTriggerEventTransition
  by unfold_locales (auto simp: validateTriggerEventTransition_def transition_defs split: option.splits)

interpretation sm: lifecycle SUMMARY_STATES SUMMARY_TERMINAL "SUMMARY_RULES" validateSummaryTransition
  by unfold_locales (auto simp: validateSummaryTransition_def transition_defs split: option.splits)

interpretation mm: lifecycle MEMORY_STATES MEMORY_TERMINAL "MEMORY_RULES" validateMemoryTransition
  by unfold_locales (auto simp: validateMemoryTransition_def transition_defs split: option.splits)

text \<open>Ranks of the four machines whose rule tables leave no cycle.\<close>

definition triggerRank :: "string \<Rightarrow> nat" where
  "triggerRank s = (if s = ''created'' then 4 else if s = ''matched'' then 3
     else if s = ''action_created'' then 2 else if s = ''dispatched'' then 1 else 0)"

definition waitRank :: "string \<Rightarrow> nat" where
  "waitRank s = (if s = ''registered'' then 2 else if s = ''active'' then 1 else 0)"

definition approvalRank :: "string \<Rightarrow> nat" where
  "approvalRank s = (if s = ''pending'' then 1 else 0)"

definition summaryRank :: "string \<Rightarrow> nat" where
  "summaryRank s = (if s = ''candidate'' then 3 else if s = ''validated'' then 2
     else if s = ''active'' then 1 else 0)"

interpretation tgr: ranked_lifecycle TRIGGER_EVENT_STATES TRIGGER_EVENT_TERMINAL TRIGGER_EVENT_RULES
  validateTriggerEventTransition triggerRank
  by unfold_locales
    (rule tg.table_rank_lowers, simp_all add: TRIGGER_EVENT_STATES_def TRIGGER_EVENT_TERMINAL_def TRIGGER_EVENT_RULES_def triggerRank_def)

interpretation wcr: ranked_lifecycle WAIT_CONDITION_STATES WAIT_CONDITION_TERMINAL WAIT_CONDITION_RULES
  validateWaitConditionTransition waitRank
  by unfold_locales
    (rule wc.table_rank_lowers, simp_all add: WAIT_CONDITION_STATES_def WAIT_CONDITION_TERMINAL_def WAIT_CONDITION_RULES_def waitRank_def)

interpretation apr: ranked_lifecycle APPROVAL_STATES APPROVAL_TERMINAL APPROVAL_RULES
  validateApprovalTransition approvalRank
  by unfold_locales
    (rule ap.table_rank_lowers, simp_all add: APPROVAL_STATES_def APPROVAL_TERMINAL_def APPROVAL_RULES_def approvalRank_def)

interpretation smr: ranked_lifecycle SUMMARY_STATES SUMMARY_TERMINAL SUMMARY_RULES
  validateSummaryTransition summaryRank
  by unfold_locales
    (rule sm.table_rank_lowers, simp_all add: SUMMARY_STATES_def SUMMARY_TERMINAL_def SUMMARY_RULES_def summaryRank_def)

section \<open>Properties\<close>

definition endsIn :: "(string \<Rightarrow> string \<Rightarrow> TransitionResult) \<Rightarrow> string \<Rightarrow> string list \<Rightarrow> bool" where
  "endsIn v start ends = (\<forall>e \<in> set ends. reaches v start e \<and> (\<forall>t. reaches v e t \<longrightarrow> t = e))"

lemma reaches_run: "valid_run v s ts \<Longrightarrow> reaches v s (last (s # ts))"
  by (rule valid_run_reaches) (simp_all add: reaches.here)

lemma reaches_at: "valid_run v s (ts @ [t]) \<Longrightarrow> reaches v s t"
  using reaches_run [of v s "ts @ [t]"] by simp

lemmas reaches_one = reaches_at [of _ _ "[]", simplified]

lemmas machine_tables = FOREGROUND_STATES_def PLANNER_STATES_def EXECUTION_PLAN_STATES_def RUNTIME_ACTION_STATES_def KERNEL_RUN_STATES_def
  TOOL_EXECUTION_STATES_def BACKGROUND_SUBAGENT_STATES_def WORKFLOW_RUN_STATES_def APPROVAL_STATES_def WAIT_CONDITION_STATES_def
  TRIGGER_EVENT_STATES_def SUMMARY_STATES_def MEMORY_STATES_def TERMINAL_STATES_def RUNTIME_ACTION_TERMINAL_def TOOL_EXECUTION_TERMINAL_def
  APPROVAL_TERMINAL_def WAIT_CONDITION_TERMINAL_def TRIGGER_EVENT_TERMINAL_def SUMMARY_TERMINAL_def MEMORY_TERMINAL_def
  EXECUTION_PLAN_RULES_def APPROVAL_RULES_def WAIT_CONDITION_RULES_def TRIGGER_EVENT_RULES_def SUMMARY_RULES_def MEMORY_RULES_def

context lifecycle
begin

lemma direct_ends:
  assumes "start \<in> set states" "start \<notin> set terminals" "set ends \<subseteq> set states" "set ends \<subseteq> set terminals"
    "\<forall>allowed. map_of rules start = Some allowed \<longrightarrow> set ends \<subseteq> set allowed"
  shows "endsIn validate start ends"
  unfolding endsIn_def using assms by (fastforce intro!: reaches_one dest: terminal_absorbing simp: valid_iff)

lemma run_ends:
  assumes "valid_run validate start ts" "set ends \<subseteq> set states" "set ends \<subseteq> set terminals"
    "last (start # ts) \<in> set states" "last (start # ts) \<notin> set terminals"
    "\<forall>allowed. map_of rules (last (start # ts)) = Some allowed \<longrightarrow> set ends \<subseteq> set allowed"
  shows "endsIn validate start ends"
proof -
  have "reaches validate start e" if "e \<in> set ends" for e
    using reaches.step [OF reaches_run [OF assms(1)], of e] that assms(2-6) by (auto simp: valid_iff)
  then show ?thesis unfolding endsIn_def using assms(3) by (auto dest: terminal_absorbing)
qed

end

text \<open>
  C14: The documented ends of the lifecycles are ends: in each of the thirteen machines every listed end state can be reached from
  the first state by updates the validator accepts, and an object in it never leaves it by accepted updates. The list is
  that of the lifecycle document, for planner runs archived; what happens to a planner run that is completed, failed or
  cancelled, and the document's ends the validators leave open, are not part of it.
\<close>

theorem documented_ends_are_final:
  "endsIn validateForegroundTransition ''received'' [''completed'', ''failed''] \<and>
   endsIn validatePlannerTransition ''initializing'' [''archived''] \<and>
   endsIn validateExecutionPlanTransition ''draft'' [''completed'', ''failed''] \<and>
   endsIn validateRuntimeActionTransition ''created'' [''duplicate'', ''denied'', ''completed'', ''failed'', ''timeout'', ''cancelled''] \<and>
   endsIn validateKernelRunTransition ''initializing'' [''completed'', ''failed'', ''cancelled'', ''partial_success''] \<and>
   endsIn validateToolExecutionTransition ''received''
     [''completed'', ''failed'', ''denied'', ''aborted'', ''cancelled'', ''discarded'', ''timeout''] \<and>
   endsIn validateBackgroundSubagentTransition ''queued'' [''completed'', ''failed'', ''cancelled'', ''expired''] \<and>
   endsIn validateWorkflowRunTransition ''queued'' [''completed'', ''failed'', ''cancelled'', ''timeout''] \<and>
   endsIn validateApprovalTransition ''pending'' [''approved'', ''rejected'', ''expired'', ''cancelled''] \<and>
   endsIn validateWaitConditionTransition ''registered'' [''satisfied'', ''failed'', ''timeout'', ''cancelled''] \<and>
   endsIn validateTriggerEventTransition ''created'' [''handled'', ''failed''] \<and>
   endsIn validateTriggerEventTransition ''created'' [''duplicate''] \<and>
   endsIn validateSummaryTransition ''candidate'' [''superseded'', ''archived'', ''expired''] \<and>
   endsIn validateMemoryTransition ''candidate'' [''archived'', ''expired'', ''deleted'']"
proof (intro conjI)
  show "endsIn validateExecutionPlanTransition ''draft'' [''completed'', ''failed'']"
    by (rule ep.run_ends [of _ "[''approved'', ''in_execution'']"]) (simp_all add: ep.valid_iff machine_tables)
  show "endsIn validateWaitConditionTransition ''registered'' [''satisfied'', ''failed'', ''timeout'', ''cancelled'']"
    by (rule wc.run_ends [of _ "[''active'']"]) (simp_all add: wc.valid_iff machine_tables)
  show "endsIn validateTriggerEventTransition ''created'' [''handled'', ''failed'']"
    by (rule tg.run_ends [of _ "[''matched'', ''action_created'', ''dispatched'']"]) (simp_all add: tg.valid_iff machine_tables)
  show "endsIn validateTriggerEventTransition ''created'' [''duplicate'']"
    by (rule tg.run_ends [of _ "[''matched'']"]) (simp_all add: tg.valid_iff machine_tables)
  show "endsIn validateSummaryTransition ''candidate'' [''superseded'', ''archived'', ''expired'']"
    by (rule sm.run_ends [of _ "[''validated'', ''active'']"]) (simp_all add: sm.valid_iff machine_tables)
  show "endsIn validateMemoryTransition ''candidate'' [''archived'', ''expired'', ''deleted'']"
    by (rule mm.run_ends [of _ "[''validated'', ''active'']"]) (simp_all add: mm.valid_iff machine_tables)
qed (rule fg.direct_ends pl.direct_ends ra.direct_ends kr.direct_ends te.direct_ends bs.direct_ends wr.direct_ends ap.direct_ends;
  simp add: machine_tables)+

text \<open>
  The lifecycles of trigger events, wait conditions, approval requests and summaries end: every
  sequence of accepted updates has at most four, two, one and three steps, so in particular an
  approval request is decided at most once.
\<close>

theorem lifecycle_runs_bounded:
  "(valid_run validateTriggerEventTransition s ts \<longrightarrow> length ts \<le> 4) \<and>
   (valid_run validateWaitConditionTransition s ts \<longrightarrow> length ts \<le> 2) \<and>
   (valid_run validateApprovalTransition s ts \<longrightarrow> length ts \<le> 1) \<and>
   (valid_run validateSummaryTransition s ts \<longrightarrow> length ts \<le> 3)"
  using tgr.run_bounded [of s ts] wcr.run_bounded [of s ts] apr.run_bounded [of s ts]
    smr.run_bounded [of s ts]
  by (auto simp: triggerRank_def waitRank_def approvalRank_def summaryRank_def split: if_splits)

theorem lifecycle_runs_bounded_witness:
  "valid_run validateTriggerEventTransition ''created'' [''matched'', ''action_created'', ''dispatched'', ''handled''] \<and>
   \<not> valid_run validateApprovalTransition ''pending'' [''approved'', ''rejected'']"
  using lifecycle_runs_bounded [of "''pending''" "[''approved'', ''rejected'']"]
  by (simp add: tg.valid_iff TRIGGER_EVENT_STATES_def TRIGGER_EVENT_TERMINAL_def TRIGGER_EVENT_RULES_def)

text \<open>
  A plan is executed and finished only after approval: whatever accepted updates take a draft
  plan to \<open>completed\<close>, the first two are \<open>approved\<close> and \<open>in_execution\<close>.
\<close>

theorem plan_completes_only_after_approval:
  assumes "valid_run validateExecutionPlanTransition ''draft'' (ts @ [''completed''])"
  shows "\<exists>us. ts = ''approved'' # ''in_execution'' # us"
proof -
  have draft: "t = ''approved''" if "tr_valid (validateExecutionPlanTransition ''draft'' t)" for t
    using ep.ruled_step [OF that, of "[''approved'']"] by (simp add: EXECUTION_PLAN_RULES_def)
  have appr: "t = ''in_execution''" if "tr_valid (validateExecutionPlanTransition ''approved'' t)" for t
    using ep.ruled_step [OF that, of "[''in_execution'']"] by (simp add: EXECUTION_PLAN_RULES_def)
  obtain t us where ts: "ts = t # us" and t: "t = ''approved''" and run: "valid_run validateExecutionPlanTransition t (us @ [''completed''])"
    using assms draft by (cases ts) auto
  then show ?thesis
    using appr by (cases us) auto
qed

theorem plan_completes_only_after_approval_witness:
  "valid_run validateExecutionPlanTransition ''draft''
     ([''approved'', ''in_execution'', ''blocked'', ''in_execution''] @ [''completed'']) \<and>
   (\<exists>us. [''approved'', ''in_execution'', ''blocked'', ''in_execution''] = ''approved'' # ''in_execution'' # us)"
proof -
  have "valid_run validateExecutionPlanTransition ''draft''
     ([''approved'', ''in_execution'', ''blocked'', ''in_execution''] @ [''completed''])"
    by (simp add: ep.valid_iff EXECUTION_PLAN_STATES_def TERMINAL_STATES_def EXECUTION_PLAN_RULES_def)
  then show ?thesis
    using plan_completes_only_after_approval by blast
qed

text \<open>
  Where the tables leave a state open: an abandoned plan, an interrupted or exhausted kernel run
  and a compressed or low-priority memory are in no terminal set and have no rule, so the validators
  accept every target, and a planner run is never archived after it was completed or cancelled.
\<close>

theorem open_end_states:
  "(\<forall>t. tr_valid (validateExecutionPlanTransition ''abandoned'' t) \<longleftrightarrow> t \<in> set EXECUTION_PLAN_STATES) \<and>
   (\<forall>t. tr_valid (validateKernelRunTransition ''interrupted'' t) \<longleftrightarrow> t \<in> set KERNEL_RUN_STATES) \<and>
   (\<forall>t. tr_valid (validateKernelRunTransition ''max_iterations_reached'' t) \<longleftrightarrow> t \<in> set KERNEL_RUN_STATES) \<and>
   (\<forall>t. tr_valid (validateMemoryTransition ''compressed'' t) \<longleftrightarrow> t \<in> set MEMORY_STATES) \<and>
   (\<forall>t. tr_valid (validateMemoryTransition ''low_priority'' t) \<longleftrightarrow> t \<in> set MEMORY_STATES) \<and>
   \<not> tr_valid (validatePlannerTransition ''completed'' ''archived'') \<and>
   \<not> tr_valid (validatePlannerTransition ''cancelled'' ''archived'')"
  by (simp add: ep.valid_iff kr.valid_iff mm.valid_iff pl.valid_iff EXECUTION_PLAN_STATES_def
      KERNEL_RUN_STATES_def MEMORY_STATES_def TERMINAL_STATES_def MEMORY_TERMINAL_def
      EXECUTION_PLAN_RULES_def MEMORY_RULES_def)

end
