(* ===== verification/Circuit_Breaker.thy ===== *)
theory Circuit_Breaker
  imports Prelude
begin

text \<open>
  The circuit breaker of \<open>src/src/llm/circuit-breaker.ts\<close>: the closure's variables as a record, one
  function per method, the clock reading \<open>Date.now()\<close> as an argument. \<open>cb_reach\<close> is the set of states
  a breaker can be in after any sequence of calls.
\<close>

datatype CircuitBreakerState = CLOSED | OPEN | HALF_OPEN

record CircuitBreakerConfig =
  failureThreshold :: int
  resetTimeoutMs :: int
  successThreshold :: int

record PartialConfig =
  p_failureThreshold :: "int option"
  p_resetTimeoutMs :: "int option"
  p_successThreshold :: "int option"

definition DEFAULT_CIRCUIT_BREAKER_CONFIG :: CircuitBreakerConfig where
  "DEFAULT_CIRCUIT_BREAKER_CONFIG =
     \<lparr>failureThreshold = 5, resetTimeoutMs = 30000, successThreshold = 2\<rparr>"

definition finalConfig :: "PartialConfig \<Rightarrow> CircuitBreakerConfig" where
  "finalConfig c =
     \<lparr>failureThreshold = nullish (p_failureThreshold c) (failureThreshold DEFAULT_CIRCUIT_BREAKER_CONFIG),
      resetTimeoutMs = nullish (p_resetTimeoutMs c) (resetTimeoutMs DEFAULT_CIRCUIT_BREAKER_CONFIG),
      successThreshold = nullish (p_successThreshold c) (successThreshold DEFAULT_CIRCUIT_BREAKER_CONFIG)\<rparr>"

record breaker =
  cb_state :: CircuitBreakerState
  failureCount :: int
  successCount :: int
  lastFailureTime :: "int option"
  lastSuccessTime :: "int option"
  totalRequests :: int
  rejectedRequests :: int

definition createCircuitBreaker :: breaker where
  "createCircuitBreaker =
     \<lparr>cb_state = CLOSED, failureCount = 0, successCount = 0, lastFailureTime = None,
      lastSuccessTime = None, totalRequests = 0, rejectedRequests = 0\<rparr>"

fun transitionTo :: "CircuitBreakerState \<Rightarrow> breaker \<Rightarrow> breaker" where
  "transitionTo CLOSED b = b\<lparr>cb_state := CLOSED, failureCount := 0, successCount := 0\<rparr>"
| "transitionTo OPEN b = b\<lparr>cb_state := OPEN, successCount := 0\<rparr>"
| "transitionTo HALF_OPEN b = b\<lparr>cb_state := HALF_OPEN, successCount := 0, failureCount := 0\<rparr>"

definition canExecute :: "CircuitBreakerConfig \<Rightarrow> int \<Rightarrow> breaker \<Rightarrow> bool \<times> breaker" where
  "canExecute cfg now b0 =
     (let b = b0\<lparr>totalRequests := totalRequests b0 + 1\<rparr> in
      case cb_state b of
        CLOSED \<Rightarrow> (True, b)
      | OPEN \<Rightarrow>
          (let timeSinceLastFailure = now - num_or (lastFailureTime b) 0 in
           if timeSinceLastFailure \<ge> resetTimeoutMs cfg then (True, transitionTo HALF_OPEN b)
           else (False, b\<lparr>rejectedRequests := rejectedRequests b + 1\<rparr>))
      | HALF_OPEN \<Rightarrow> (True, b))"

definition recordSuccess :: "CircuitBreakerConfig \<Rightarrow> int \<Rightarrow> breaker \<Rightarrow> breaker" where
  "recordSuccess cfg now b0 =
     (let b = b0\<lparr>lastSuccessTime := Some now\<rparr> in
      if cb_state b = HALF_OPEN then
        let b' = b\<lparr>successCount := successCount b + 1\<rparr>
        in if successCount b' \<ge> successThreshold cfg then transitionTo CLOSED b' else b'
      else b)"

definition recordFailure :: "CircuitBreakerConfig \<Rightarrow> int \<Rightarrow> breaker \<Rightarrow> breaker" where
  "recordFailure cfg now b0 =
     (let b = b0\<lparr>lastFailureTime := Some now\<rparr> in
      if cb_state b = HALF_OPEN then transitionTo OPEN b
      else if cb_state b = CLOSED then
        let b' = b\<lparr>failureCount := failureCount b + 1\<rparr>
        in if failureCount b' \<ge> failureThreshold cfg then transitionTo OPEN b' else b'
      else b)"

definition cbReset :: "breaker \<Rightarrow> breaker" where
  "cbReset b = (transitionTo CLOSED b)\<lparr>totalRequests := 0, rejectedRequests := 0\<rparr>"

definition forceOpen :: "int \<Rightarrow> breaker \<Rightarrow> breaker" where
  "forceOpen now b = (transitionTo OPEN b)\<lparr>lastFailureTime := Some now\<rparr>"

definition forceClose :: "breaker \<Rightarrow> breaker" where
  "forceClose b = transitionTo CLOSED b"

section \<open>Reachable breakers\<close>

datatype cb_call = CanExecute int | RecordSuccess int | RecordFailure int | Reset | ForceOpen int | ForceClose

fun cb_step :: "CircuitBreakerConfig \<Rightarrow> cb_call \<Rightarrow> breaker \<Rightarrow> breaker" where
  "cb_step cfg (CanExecute now) b = snd (canExecute cfg now b)"
| "cb_step cfg (RecordSuccess now) b = recordSuccess cfg now b"
| "cb_step cfg (RecordFailure now) b = recordFailure cfg now b"
| "cb_step cfg Reset b = cbReset b"
| "cb_step cfg (ForceOpen now) b = forceOpen now b"
| "cb_step cfg ForceClose b = forceClose b"

inductive cb_reach :: "CircuitBreakerConfig \<Rightarrow> breaker \<Rightarrow> bool" for cfg where
  created: "cb_reach cfg createCircuitBreaker"
| call: "cb_reach cfg b \<Longrightarrow> cb_reach cfg (cb_step cfg c b)"

definition cb_inv :: "CircuitBreakerConfig \<Rightarrow> breaker \<Rightarrow> bool" where
  "cb_inv cfg b \<longleftrightarrow>
     0 \<le> failureCount b \<and> 0 \<le> successCount b \<and>
     0 \<le> rejectedRequests b \<and> rejectedRequests b \<le> totalRequests b \<and>
     (cb_state b = CLOSED \<longrightarrow> failureCount b < failureThreshold cfg \<and> successCount b = 0) \<and>
     (cb_state b = OPEN \<longrightarrow> lastFailureTime b \<noteq> None \<and> successCount b = 0) \<and>
     (cb_state b = HALF_OPEN \<longrightarrow> failureCount b = 0 \<and> successCount b < successThreshold cfg)"

definition sane_config :: "CircuitBreakerConfig \<Rightarrow> bool" where
  "sane_config cfg \<longleftrightarrow> 1 \<le> failureThreshold cfg \<and> 1 \<le> successThreshold cfg"

lemmas cb_defs = canExecute_def recordSuccess_def recordFailure_def cbReset_def forceOpen_def
  forceClose_def Let_def

lemma cb_step_inv: "sane_config cfg \<Longrightarrow> cb_inv cfg b \<Longrightarrow> cb_inv cfg (cb_step cfg c b)"
  by (cases c; cases "cb_state b") (auto simp: cb_defs cb_inv_def sane_config_def)

lemma cb_reach_inv: "cb_reach cfg b \<Longrightarrow> sane_config cfg \<Longrightarrow> cb_inv cfg b"
proof (induction rule: cb_reach.induct)
  case created
  then show ?case by (simp add: cb_inv_def createCircuitBreaker_def sane_config_def)
next
  case (call b c)
  then show ?case by (simp add: cb_step_inv)
qed

lemma failures_while_closed:
  "cb_state b = CLOSED \<Longrightarrow> failureCount b + int (length ts) < failureThreshold cfg \<Longrightarrow>
   cb_state (fold (recordFailure cfg) ts b) = CLOSED \<and>
   failureCount (fold (recordFailure cfg) ts b) = failureCount b + int (length ts)"
  by (induction ts arbitrary: b) (auto simp: recordFailure_def Let_def)

lemma failure_keeps_open:
  "cb_state b = OPEN \<Longrightarrow> cb_state (fold (recordFailure cfg) ts b) = OPEN"
  by (induction ts arbitrary: b) (auto simp: recordFailure_def Let_def)

lemma failures_trip:
  "cb_state b = CLOSED \<Longrightarrow> failureCount b < failureThreshold cfg \<Longrightarrow>
   failureThreshold cfg \<le> failureCount b + int (length ts) \<Longrightarrow> cb_state (fold (recordFailure cfg) ts b) = OPEN"
proof (induction ts arbitrary: b)
  case Nil
  then show ?case by simp
next
  case (Cons t ts)
  show ?case
  proof (cases "failureThreshold cfg \<le> failureCount b + 1")
    case True
    then have "cb_state (recordFailure cfg t b) = OPEN" using Cons.prems by (simp add: recordFailure_def Let_def)
    then show ?thesis by (simp add: failure_keeps_open)
  next
    case False
    then show ?thesis using Cons by (simp add: recordFailure_def Let_def)
  qed
qed

lemma successes_recover:
  "cb_state b = HALF_OPEN \<Longrightarrow> successCount b < successThreshold cfg \<Longrightarrow>
   int (length ts) = successThreshold cfg - successCount b \<Longrightarrow>
   cb_state (fold (recordSuccess cfg) ts b) = CLOSED \<and> failureCount (fold (recordSuccess cfg) ts b) = 0"
proof (induction ts arbitrary: b)
  case Nil
  then show ?case by simp
next
  case (Cons t ts)
  show ?case
  proof (cases "successThreshold cfg \<le> successCount b + 1")
    case True
    with Cons.prems have "length ts = 0" by (simp only: list.size)
    then have "ts = []" by simp
    with True Cons.prems show ?thesis by (simp add: recordSuccess_def Let_def)
  next
    case False
    with Cons show ?thesis by (simp add: recordSuccess_def Let_def)
  qed
qed

section \<open>Properties\<close>

text \<open>
  In every state a breaker with positive thresholds can reach, a closed circuit has seen fewer
  failures than the threshold, an open one has a failure time, a half-open one has no counted failure
  and fewer successes than needed, and rejections never exceed requests.
\<close>

theorem circuit_breaker_invariant:
  "cb_reach cfg b \<Longrightarrow> sane_config cfg \<Longrightarrow> cb_inv cfg b"
  by (rule cb_reach_inv)

theorem circuit_breaker_invariant_witness:
  "cb_inv DEFAULT_CIRCUIT_BREAKER_CONFIG
     (cb_step DEFAULT_CIRCUIT_BREAKER_CONFIG (ForceOpen 10) createCircuitBreaker)"
  by (rule circuit_breaker_invariant [OF cb_reach.call [OF cb_reach.created]])
    (simp add: sane_config_def DEFAULT_CIRCUIT_BREAKER_CONFIG_def)

text \<open>
  The breaker trips and recovers as configured: a fresh breaker is open after a row of failures
  exactly when the row is at least as long as the failure threshold, and a half-open breaker that has
  just been let through closes after exactly \<open>successThreshold\<close> successes, or opens again on a failure.
\<close>

theorem circuit_breaker_trips_and_recovers:
  assumes "sane_config cfg"
  shows "(cb_state (fold (recordFailure cfg) ts createCircuitBreaker) = OPEN \<longleftrightarrow>
            failureThreshold cfg \<le> int (length ts)) \<and>
    (cb_state b = HALF_OPEN \<longrightarrow> successCount b = 0 \<longrightarrow> int (length us) = successThreshold cfg \<longrightarrow>
       cb_state (fold (recordSuccess cfg) us b) = CLOSED) \<and>
    (cb_state b = HALF_OPEN \<longrightarrow> cb_state (recordFailure cfg t b) = OPEN)"
proof -
  have "cb_state (fold (recordFailure cfg) ts createCircuitBreaker) = OPEN" if "failureThreshold cfg \<le> int (length ts)"
    using failures_trip [of createCircuitBreaker cfg ts] assms that
    by (simp add: createCircuitBreaker_def sane_config_def)
  moreover have "cb_state (fold (recordFailure cfg) ts createCircuitBreaker) = CLOSED" if "\<not> failureThreshold cfg \<le> int (length ts)"
    using failures_while_closed [of createCircuitBreaker ts cfg] that
    by (simp add: createCircuitBreaker_def)
  ultimately show ?thesis
    using successes_recover [of b cfg us] assms
    by (cases "failureThreshold cfg \<le> int (length ts)") (auto simp: sane_config_def recordFailure_def Let_def)
qed

theorem circuit_breaker_trips_and_recovers_witness:
  "cb_state (fold (recordFailure DEFAULT_CIRCUIT_BREAKER_CONFIG) [1, 2, 3, 4, 5] createCircuitBreaker) = OPEN \<and>
   cb_state (fold (recordFailure DEFAULT_CIRCUIT_BREAKER_CONFIG) [1, 2, 3, 4] createCircuitBreaker) \<noteq> OPEN"
  using circuit_breaker_trips_and_recovers [of DEFAULT_CIRCUIT_BREAKER_CONFIG "[1, 2, 3, 4, 5]"]
    circuit_breaker_trips_and_recovers [of DEFAULT_CIRCUIT_BREAKER_CONFIG "[1, 2, 3, 4]"]
  by (auto simp: sane_config_def DEFAULT_CIRCUIT_BREAKER_CONFIG_def)

text \<open>
  An open circuit blocks for exactly the reset timeout: every request that arrives less than
  \<open>resetTimeoutMs\<close> after the last failure is refused and counted as rejected, with nothing else
  changed, and the first one after that is let through with the breaker half-open.
\<close>

theorem open_circuit_blocks:
  assumes "cb_state b = OPEN" and "lastFailureTime b = Some t"
    and "\<forall>now \<in> set nows. now < t + resetTimeoutMs cfg" and "t + resetTimeoutMs cfg \<le> later"
  shows "fold (\<lambda>now. cb_step cfg (CanExecute now)) nows b =
      b\<lparr>totalRequests := totalRequests b + int (length nows),
        rejectedRequests := rejectedRequests b + int (length nows)\<rparr> \<and>
    (\<forall>now \<in> set nows. \<not> fst (canExecute cfg now b)) \<and>
    fst (canExecute cfg later b) \<and> cb_state (snd (canExecute cfg later b)) = HALF_OPEN"
proof -
  have "fold (\<lambda>now. cb_step cfg (CanExecute now)) nows b =
      b\<lparr>totalRequests := totalRequests b + int (length nows),
        rejectedRequests := rejectedRequests b + int (length nows)\<rparr>"
    using assms(1-3)
  proof (induction nows arbitrary: b)
    case Nil
    then show ?case by simp
  next
    case (Cons n ns)
    then show ?case
      by (simp add: canExecute_def Let_def num_or_def split: if_splits)
  qed
  then show ?thesis
    using assms by (auto simp: canExecute_def Let_def num_or_def)
qed

theorem open_circuit_blocks_witness:
  "\<not> fst (canExecute DEFAULT_CIRCUIT_BREAKER_CONFIG 30999 (forceOpen 1000 createCircuitBreaker)) \<and>
   fst (canExecute DEFAULT_CIRCUIT_BREAKER_CONFIG 31000 (forceOpen 1000 createCircuitBreaker))"
  using open_circuit_blocks [of "forceOpen 1000 createCircuitBreaker" 1000 "[2000, 30999]"
      DEFAULT_CIRCUIT_BREAKER_CONFIG 31000]
  by (simp add: forceOpen_def DEFAULT_CIRCUIT_BREAKER_CONFIG_def)

end
