(* ===== verification/Resource_Limits.thy ===== *)
theory Resource_Limits
  imports Prelude Complex_Main "HOL-Library.Multiset"
begin

text \<open>
  \<open>src/src/runtime/resource-limits.ts\<close>: the concurrency limiter, the resource budget manager that
  consults it, and the memory-safe cache with least-recently-used eviction. Token ids (built from the
  clock and a random number in the code) and the queue depth read from the database are arguments;
  metrics are recorded in a list when a metric store is configured.
\<close>

section \<open>Configuration\<close>

record ResourceConfig =
  maxConcurrentForegroundTurns :: int
  maxConcurrentPlannerRunsPerSession :: int
  maxConcurrentPlannerRunsPerUser :: int
  maxConcurrentBackgroundRuns :: int
  maxConcurrentWorkflowRuns :: int
  maxConcurrentLLMCalls :: int
  maxConcurrentToolExecutions :: int
  maxCacheSizeMB :: int
  maxContextTokens :: int
  sqliteQueueMaxDepth :: int

definition DEFAULT_RESOURCE_CONFIG :: ResourceConfig where
  "DEFAULT_RESOURCE_CONFIG =
     \<lparr>maxConcurrentForegroundTurns = 10, maxConcurrentPlannerRunsPerSession = 3,
      maxConcurrentPlannerRunsPerUser = 5, maxConcurrentBackgroundRuns = 5,
      maxConcurrentWorkflowRuns = 3, maxConcurrentLLMCalls = 2, maxConcurrentToolExecutions = 5,
      maxCacheSizeMB = 256, maxContextTokens = 8000, sqliteQueueMaxDepth = 100\<rparr>"

datatype ResourceType =
    foreground_turn | planner_run_session | planner_run_user | background_run | workflow_run
  | llm_call | tool_execution | cache_memory | context_tokens | sqlite_queue

fun getLimitForResourceType :: "ResourceConfig \<Rightarrow> ResourceType \<Rightarrow> int" where
  "getLimitForResourceType c foreground_turn = maxConcurrentForegroundTurns c"
| "getLimitForResourceType c planner_run_session = maxConcurrentPlannerRunsPerSession c"
| "getLimitForResourceType c planner_run_user = maxConcurrentPlannerRunsPerUser c"
| "getLimitForResourceType c background_run = maxConcurrentBackgroundRuns c"
| "getLimitForResourceType c workflow_run = maxConcurrentWorkflowRuns c"
| "getLimitForResourceType c llm_call = maxConcurrentLLMCalls c"
| "getLimitForResourceType c tool_execution = maxConcurrentToolExecutions c"
| "getLimitForResourceType c cache_memory = maxCacheSizeMB c"
| "getLimitForResourceType c context_tokens = maxContextTokens c"
| "getLimitForResourceType c sqlite_queue = sqliteQueueMaxDepth c"

record ResourceLimitExceededError =
  limitType :: ResourceType
  currentValue :: int
  maxValue :: int

section \<open>Concurrency limiter\<close>

record ActiveSlot =
  slot_tokenId :: string
  slot_resourceType :: ResourceType
  slot_sessionId :: "string option"
  slot_userId :: "string option"

record ConcurrencyToken =
  tok_resourceType :: ResourceType
  tok_tokenId :: string

record limiter =
  lim_config :: ResourceConfig
  activeSlots :: "(string, ActiveSlot) jsmap"

definition createConcurrencyLimiter :: "ResourceConfig \<Rightarrow> limiter" where
  "createConcurrencyLimiter c = \<lparr>lim_config = c, activeSlots = []\<rparr>"

definition countSlots :: "(ActiveSlot \<Rightarrow> bool) \<Rightarrow> limiter \<Rightarrow> int" where
  "countSlots P l = int (length (filter (\<lambda>kv. P (snd kv)) (activeSlots l)))"

definition getActiveCount :: "limiter \<Rightarrow> ResourceType \<Rightarrow> int" where
  "getActiveCount l rt = countSlots (\<lambda>s. slot_resourceType s = rt) l"

definition getActiveCountForSession :: "limiter \<Rightarrow> ResourceType \<Rightarrow> string \<Rightarrow> int" where
  "getActiveCountForSession l rt sid =
     countSlots (\<lambda>s. slot_resourceType s = rt \<and> slot_sessionId s = Some sid) l"

definition getActiveCountForUser :: "limiter \<Rightarrow> ResourceType \<Rightarrow> string \<Rightarrow> int" where
  "getActiveCountForUser l rt uid =
     countSlots (\<lambda>s. slot_resourceType s = rt \<and> slot_userId s = Some uid) l"

definition acquire ::
    "ResourceType \<Rightarrow> string option \<Rightarrow> string option \<Rightarrow> string \<Rightarrow> limiter \<Rightarrow>
     ResourceLimitExceededError + ConcurrencyToken \<times> limiter" where
  "acquire rt sid uid tokenId l =
     (let limit = getLimitForResourceType (lim_config l) rt;
          currentCount = getActiveCount l rt
      in if currentCount \<ge> limit
         then Inl \<lparr>limitType = rt, currentValue = currentCount, maxValue = limit\<rparr>
         else let slot = \<lparr>slot_tokenId = tokenId, slot_resourceType = rt, slot_sessionId = sid, slot_userId = uid\<rparr>
              in Inr (\<lparr>tok_resourceType = rt, tok_tokenId = tokenId\<rparr>,
                      l\<lparr>activeSlots := mapSet tokenId slot (activeSlots l)\<rparr>))"

definition release :: "ConcurrencyToken \<Rightarrow> limiter \<Rightarrow> limiter" where
  "release t l = l\<lparr>activeSlots := mapDelete (tok_tokenId t) (activeSlots l)\<rparr>"

text \<open>Interleaved acquires and releases of all clients; a refused acquire leaves the limiter as it was.\<close>

datatype limiter_call =
    Acquire ResourceType "string option" "string option" string
  | Release ConcurrencyToken

fun limiter_step :: "limiter_call \<Rightarrow> limiter \<Rightarrow> limiter" where
  "limiter_step (Acquire rt sid uid tid) l =
     (case acquire rt sid uid tid l of Inl e \<Rightarrow> l | Inr (t, l') \<Rightarrow> l')"
| "limiter_step (Release t) l = release t l"

section \<open>Budget manager\<close>

record BudgetRequest =
  req_resourceType :: ResourceType
  req_sessionId :: "string option"
  req_userId :: "string option"
  req_requestedTokens :: "int option"

text \<open>
  The manager has its own copy of the configuration. \<open>connection\<close> is absent, or answers the table
  count query: \<open>None\<close> when the query throws or returns no row.
\<close>

record budgetManager =
  bm_config :: ResourceConfig
  bm_limiter :: limiter
  connection :: "int option option"
  metricsOn :: bool
  metrics :: "(string \<times> int \<times> ResourceType) list"

definition recordBudgetMetric :: "string \<Rightarrow> int \<Rightarrow> ResourceType \<Rightarrow> budgetManager \<Rightarrow> budgetManager" where
  "recordBudgetMetric name v rt m =
     (if metricsOn m then m\<lparr>metrics := metrics m @ [(''budget_'' @ name, v, rt)]\<rparr> else m)"

definition getSQLiteQueueDepth :: "budgetManager \<Rightarrow> int" where
  "getSQLiteQueueDepth m = (case connection m of None \<Rightarrow> 0 | Some q \<Rightarrow> nullish q 0)"

definition limitExceeded ::
    "ResourceType \<Rightarrow> int \<Rightarrow> int \<Rightarrow> budgetManager \<Rightarrow> ResourceLimitExceededError option \<times> budgetManager" where
  "limitExceeded rt cur mx m =
     (Some \<lparr>limitType = rt, currentValue = cur, maxValue = mx\<rparr>, recordBudgetMetric ''limit_exceeded'' 1 rt m)"

text \<open>\<open>checkBudget\<close>: \<open>None\<close> is \<open>allowed: true\<close>, \<open>Some\<close> the error of \<open>allowed: false\<close>.\<close>

definition checkBudget :: "BudgetRequest \<Rightarrow> budgetManager \<Rightarrow> ResourceLimitExceededError option \<times> budgetManager" where
  "checkBudget r m =
     (let c = bm_config m; l = bm_limiter m; rt = req_resourceType r in
      if rt = planner_run_session \<and> truthy (req_sessionId r) \<and>
         getActiveCountForSession l planner_run_session (nullish (req_sessionId r) []) \<ge> maxConcurrentPlannerRunsPerSession c
      then limitExceeded planner_run_session
             (getActiveCountForSession l planner_run_session (nullish (req_sessionId r) []))
             (maxConcurrentPlannerRunsPerSession c) m
      else if rt = planner_run_user \<and> truthy (req_userId r) \<and>
         getActiveCountForUser l planner_run_user (nullish (req_userId r) []) \<ge> maxConcurrentPlannerRunsPerUser c
      then limitExceeded planner_run_user
             (getActiveCountForUser l planner_run_user (nullish (req_userId r) []))
             (maxConcurrentPlannerRunsPerUser c) m
      else if rt = context_tokens \<and> nullish (req_requestedTokens r) 0 \<noteq> 0 \<and>
         nullish (req_requestedTokens r) 0 > maxContextTokens c
      then limitExceeded context_tokens (nullish (req_requestedTokens r) 0) (maxContextTokens c) m
      else if rt = sqlite_queue \<and> connection m \<noteq> None \<and> getSQLiteQueueDepth m \<ge> sqliteQueueMaxDepth c
      then limitExceeded sqlite_queue (getSQLiteQueueDepth m) (sqliteQueueMaxDepth c) m
      else if getActiveCount l rt \<ge> getLimitForResourceType c rt
      then limitExceeded rt (getActiveCount l rt) (getLimitForResourceType c rt) m
      else (None, recordBudgetMetric ''check_allowed'' 1 rt m))"

record BudgetUsage =
  bu_resourceType :: ResourceType
  bu_current :: int
  bu_max :: int
  bu_percentage :: rat

definition getBudgetUsageForType :: "budgetManager \<Rightarrow> ResourceType \<Rightarrow> BudgetUsage" where
  "getBudgetUsageForType m rt =
     (let limit = getLimitForResourceType (bm_config m) rt; current = getActiveCount (bm_limiter m) rt
      in \<lparr>bu_resourceType = rt, bu_current = current, bu_max = limit,
          bu_percentage = (if limit > 0 then (of_int current / of_int limit) * 100 else 0)\<rparr>)"

definition getBudgetUsage :: "budgetManager \<Rightarrow> BudgetUsage list" where
  "getBudgetUsage m = map (getBudgetUsageForType m)
     [foreground_turn, planner_run_session, planner_run_user, background_run, workflow_run, llm_call,
      tool_execution, cache_memory, context_tokens, sqlite_queue]"

definition configureBudget :: "ResourceConfig \<Rightarrow> budgetManager \<Rightarrow> budgetManager" where
  "configureBudget c m = m\<lparr>bm_config := c\<rparr>"

definition createResourceLimits :: "ResourceConfig \<Rightarrow> int option option \<Rightarrow> bool \<Rightarrow> budgetManager" where
  "createResourceLimits c conn mon =
     \<lparr>bm_config = c, bm_limiter = createConcurrencyLimiter c, connection = conn, metricsOn = mon, metrics = []\<rparr>"

section \<open>Memory-safe cache\<close>

record 'v CacheEntry =
  ce_value :: 'v
  ce_sizeBytes :: int
  ce_lastAccessedAt :: int
  ce_accessCount :: int

record 'v cache =
  entries :: "(string, 'v CacheEntry) jsmap"
  maxSizeBytes :: int
  hitCount :: int
  missCount :: int
  evictionCount :: int
  accessSequence :: int
  cacheMetricsOn :: bool
  cacheMetrics :: "(string \<times> int) list"

definition createMemorySafeCache :: "int \<Rightarrow> bool \<Rightarrow> 'v cache" where
  "createMemorySafeCache maxSizeMB mon =
     \<lparr>entries = [], maxSizeBytes = maxSizeMB * 1024 * 1024, hitCount = 0, missCount = 0,
      evictionCount = 0, accessSequence = 0, cacheMetricsOn = mon, cacheMetrics = []\<rparr>"

definition recordMetric :: "string \<Rightarrow> int \<Rightarrow> 'v cache \<Rightarrow> 'v cache" where
  "recordMetric name v c =
     (if cacheMetricsOn c then c\<lparr>cacheMetrics := cacheMetrics c @ [(name, v)]\<rparr> else c)"

definition sizeOf :: "(string, 'v CacheEntry) jsmap \<Rightarrow> int" where
  "sizeOf es = sum_list (map (\<lambda>kv. ce_sizeBytes (snd kv)) es)"

definition getCurrentSizeBytes :: "'v cache \<Rightarrow> int" where
  "getCurrentSizeBytes c = sizeOf (entries c)"

definition cacheGet :: "string \<Rightarrow> 'v cache \<Rightarrow> 'v option \<times> 'v cache" where
  "cacheGet k c =
     (case mapGet (entries c) k of
        Some e \<Rightarrow>
          (let n = accessSequence c + 1;
               e' = e\<lparr>ce_lastAccessedAt := n, ce_accessCount := ce_accessCount e + 1\<rparr>
           in (Some (ce_value e),
               recordMetric ''cache_hit'' 1
                 (c\<lparr>accessSequence := n, entries := mapSet k e' (entries c), hitCount := hitCount c + 1\<rparr>)))
      | None \<Rightarrow> (None, recordMetric ''cache_miss'' 1 (c\<lparr>missCount := missCount c + 1\<rparr>)))"

fun evictLoop :: "int \<Rightarrow> (string, 'v CacheEntry) jsmap \<Rightarrow> int \<Rightarrow> 'v cache \<Rightarrow> 'v cache" where
  "evictLoop targetBytes [] freedBytes c = c"
| "evictLoop targetBytes ((k, e) # es) freedBytes c =
     (if freedBytes \<ge> targetBytes then c
      else evictLoop targetBytes es (freedBytes + ce_sizeBytes e)
             (recordMetric ''cache_eviction'' 1
                (c\<lparr>entries := mapDelete k (entries c), evictionCount := evictionCount c + 1\<rparr>)))"

definition evictToMakeRoom :: "int \<Rightarrow> 'v cache \<Rightarrow> 'v cache" where
  "evictToMakeRoom requiredBytes c =
     (let sortedEntries = sort_key (\<lambda>kv. ce_lastAccessedAt (snd kv)) (entries c);
          targetBytes = requiredBytes + getCurrentSizeBytes c - maxSizeBytes c
      in evictLoop targetBytes sortedEntries 0 c)"

definition cacheSet :: "string \<Rightarrow> 'v \<Rightarrow> int \<Rightarrow> 'v cache \<Rightarrow> 'v cache" where
  "cacheSet k v sizeBytes c0 =
     (let currentSize = getCurrentSizeBytes c0;
          c1 = (if currentSize + sizeBytes > maxSizeBytes c0 then evictToMakeRoom sizeBytes c0 else c0);
          n = accessSequence c1 + 1;
          e = \<lparr>ce_value = v, ce_sizeBytes = sizeBytes, ce_lastAccessedAt = n, ce_accessCount = 0\<rparr>;
          c2 = recordMetric ''cache_set'' 1 (c1\<lparr>accessSequence := n, entries := mapSet k e (entries c1)\<rparr>)
      in recordMetric ''cache_size_bytes'' (getCurrentSizeBytes c2) c2)"

definition cacheHas :: "string \<Rightarrow> 'v cache \<Rightarrow> bool" where
  "cacheHas k c = mapHas (entries c) k"

definition cacheDelete :: "string \<Rightarrow> 'v cache \<Rightarrow> bool \<times> 'v cache" where
  "cacheDelete k c =
     (if mapHas (entries c) k
      then let c1 = recordMetric ''cache_delete'' 1 (c\<lparr>entries := mapDelete k (entries c)\<rparr>)
           in (True, recordMetric ''cache_size_bytes'' (getCurrentSizeBytes c1) c1)
      else (False, c))"

definition cacheClear :: "'v cache \<Rightarrow> 'v cache" where
  "cacheClear c =
     (let count = int (length (entries c))
      in recordMetric ''cache_size_bytes'' 0
           (recordMetric ''cache_clear'' count
              (c\<lparr>entries := [], evictionCount := evictionCount c + count\<rparr>)))"

section \<open>Lemmas on the limiter\<close>

definition within_limits :: "limiter \<Rightarrow> bool" where
  "within_limits l \<longleftrightarrow> wf_map (activeSlots l) \<and>
     (\<forall>rt. getActiveCount l rt \<le> max 0 (getLimitForResourceType (lim_config l) rt))"

lemma count_mapSet_le:
  "length (filter (\<lambda>kv. P (snd kv)) (mapSet k v m)) \<le> Suc (length (filter (\<lambda>kv. P (snd kv)) m))"
  by (induction m) auto

lemma count_mapSet_notP:
  "\<not> P v \<Longrightarrow> length (filter (\<lambda>kv. P (snd kv)) (mapSet k v m)) \<le> length (filter (\<lambda>kv. P (snd kv)) m)"
  by (induction m) auto

lemma count_mapSet_fresh:
  "mapGet m k = None \<Longrightarrow>
   length (filter (\<lambda>kv. P (snd kv)) (mapSet k v m)) = length (filter (\<lambda>kv. P (snd kv)) m) + (if P v then 1 else 0)"
  by (induction m) (auto split: if_splits)

lemma count_mapDelete_le:
  "length (filter (\<lambda>kv. P (snd kv)) (mapDelete k m)) \<le> length (filter (\<lambda>kv. P (snd kv)) m)"
  by (induction m) auto

lemmas count_defs = getActiveCount_def getActiveCountForSession_def getActiveCountForUser_def countSlots_def

lemma acquire_within_limits:
  assumes "acquire rt sid uid tid l = Inr (t, l')" and "within_limits l"
  shows "within_limits l'"
proof -
  let ?slot = "\<lparr>slot_tokenId = tid, slot_resourceType = rt, slot_sessionId = sid, slot_userId = uid\<rparr>"
  have free: "getActiveCount l rt < getLimitForResourceType (lim_config l) rt"
    and l': "l' = l\<lparr>activeSlots := mapSet tid ?slot (activeSlots l)\<rparr>"
    using assms(1) by (auto simp: acquire_def Let_def split: if_splits)
  have "getActiveCount l' rt' \<le> max 0 (getLimitForResourceType (lim_config l) rt')" for rt'
  proof (cases "rt' = rt")
    case True
    then show ?thesis
      using free l' count_mapSet_le [of "\<lambda>s. slot_resourceType s = rt" tid ?slot "activeSlots l"]
      by (simp add: count_defs)
  next
    case False
    then have "getActiveCount l' rt' \<le> getActiveCount l rt'"
      using l' count_mapSet_notP [of "\<lambda>s. slot_resourceType s = rt'" ?slot tid "activeSlots l"]
      by (simp add: count_defs)
    then show ?thesis using assms(2) unfolding within_limits_def by (meson order_trans)
  qed
  then show ?thesis
    using assms(2) l' by (simp add: within_limits_def wf_mapSet)
qed

lemma release_within_limits: "within_limits l \<Longrightarrow> within_limits (release t l)"
proof -
  assume w: "within_limits l"
  have "getActiveCount (release t l) rt \<le> getActiveCount l rt" for rt
    using count_mapDelete_le [of "\<lambda>s. slot_resourceType s = rt" "tok_tokenId t" "activeSlots l"]
    by (simp add: count_defs release_def)
  then show ?thesis
    using w unfolding within_limits_def by (auto simp: release_def wf_mapDelete intro: order_trans)
qed

lemma limiter_step_within_limits: "within_limits l \<Longrightarrow> within_limits (limiter_step c l)"
  by (cases c) (auto split: sum.splits dest: acquire_within_limits release_within_limits)

text \<open>What the budget manager relies on: a limiter's per-session and per-user counts are parts of its count.\<close>

locale concurrency_counts =
  fixes total :: "'l \<Rightarrow> ResourceType \<Rightarrow> int"
    and forSession :: "'l \<Rightarrow> ResourceType \<Rightarrow> string \<Rightarrow> int"
    and forUser :: "'l \<Rightarrow> ResourceType \<Rightarrow> string \<Rightarrow> int"
  assumes total_nonneg: "0 \<le> total l rt"
    and session_le: "forSession l rt sid \<le> total l rt"
    and user_le: "forUser l rt uid \<le> total l rt"
begin

lemma below_limit_all:
  "total l rt < n \<Longrightarrow> forSession l rt sid < n \<and> forUser l rt uid < n"
  using session_le [of l rt sid] user_le [of l rt uid] by linarith

end

interpretation lim: concurrency_counts getActiveCount getActiveCountForSession getActiveCountForUser
  by unfold_locales (auto simp: count_defs intro: length_filter_mono)

text \<open>
  Because the whole count is checked against the same limit at the end, the per-session and
  per-user tests never decide: the budget is the number of runs of all sessions together.
\<close>

lemma checkBudget_allowed_iff:
  "fst (checkBudget r m) = None \<longleftrightarrow>
     \<not> (req_resourceType r = context_tokens \<and> nullish (req_requestedTokens r) 0 \<noteq> 0 \<and>
        nullish (req_requestedTokens r) 0 > maxContextTokens (bm_config m)) \<and>
     \<not> (req_resourceType r = sqlite_queue \<and> connection m \<noteq> None \<and>
        getSQLiteQueueDepth m \<ge> sqliteQueueMaxDepth (bm_config m)) \<and>
     getActiveCount (bm_limiter m) (req_resourceType r) <
       getLimitForResourceType (bm_config m) (req_resourceType r)"
  using lim.below_limit_all [of "bm_limiter m" planner_run_session "maxConcurrentPlannerRunsPerSession (bm_config m)"
      "nullish (req_sessionId r) []"]
    lim.below_limit_all [of "bm_limiter m" planner_run_user "maxConcurrentPlannerRunsPerUser (bm_config m)" _
      "nullish (req_userId r) []"]
  by (auto simp: checkBudget_def limitExceeded_def Let_def not_le)

section \<open>Lemmas on the cache\<close>

lemma entries_recordMetric [simp]: "entries (recordMetric n v c) = entries c"
  by (simp add: recordMetric_def)

lemma maxSizeBytes_recordMetric [simp]: "maxSizeBytes (recordMetric n v c) = maxSizeBytes c"
  by (simp add: recordMetric_def)

lemma evictLoop_maxSize [simp]: "maxSizeBytes (evictLoop tgt es f c) = maxSizeBytes c"
  by (induction tgt es f c rule: evictLoop.induct) auto

lemma sizeOf_simps [simp]: "sizeOf [] = 0" "sizeOf (kv # es) = ce_sizeBytes (snd kv) + sizeOf es"
  by (simp_all add: sizeOf_def)

lemma sizeOf_append [simp]: "sizeOf (xs @ ys) = sizeOf xs + sizeOf ys"
  by (simp add: sizeOf_def)

text \<open>The loop evicts a prefix of the sorted entries, long enough unless the list runs out.\<close>

lemma evictLoop_prefix:
  "\<exists>n \<le> length es. entries (evictLoop tgt es f c) = filter (\<lambda>kv. fst kv \<notin> fst ` set (take n es)) (entries c) \<and>
     (n < length es \<longrightarrow> tgt \<le> f + sizeOf (take n es))"
proof (induction tgt es f c rule: evictLoop.induct)
  case (1 tgt f c)
  then show ?case by simp
next
  case (2 tgt k e es f c)
  show ?case
  proof (cases "tgt \<le> f")
    case True
    then show ?thesis by (intro exI [of _ 0]) simp
  next
    case False
    then obtain n where n: "n \<le> length es" "n < length es \<longrightarrow> tgt \<le> f + ce_sizeBytes e + sizeOf (take n es)"
      "entries (evictLoop tgt ((k, e) # es) f c) =
         filter (\<lambda>kv. fst kv \<notin> fst ` set (take n es)) (mapDelete k (entries c))"
      using "2.IH" by auto
    then show ?thesis
      by (intro exI [of _ "Suc n"]) (auto simp: mapDelete_filter intro!: filter_cong)
  qed
qed

lemma sizeOf_mset:
  assumes "mset xs = mset ys"
  shows "sizeOf xs = sizeOf ys"
proof -
  let ?f = "\<lambda>kv. ce_sizeBytes (snd kv)"
  have "sum_mset (mset (map ?f xs)) = sum_mset (mset (map ?f ys))" using assms by simp
  then show ?thesis by (simp only: sizeOf_def sum_mset_sum_list)
qed

text \<open>Removing the keys of a prefix of a reordering leaves exactly the rest of that reordering.\<close>

lemma filter_out_prefix:
  assumes "mset srt = mset m" and "distinct (map fst m)"
  shows "mset (filter (\<lambda>kv. fst kv \<notin> fst ` set (take n srt)) m) = mset (drop n srt)"
proof -
  let ?P = "\<lambda>kv. fst kv \<notin> fst ` set (take n srt)"
  have "distinct (map fst (take n srt @ drop n srt))"
    using assms by (metis append_take_drop_id mset_eq_imp_distinct_iff mset_map)
  then have "filter ?P (drop n srt) = drop n srt"
    unfolding map_append distinct_append by (intro filter_True) auto
  moreover have "filter ?P (take n srt) = []" by (rule filter_False) auto
  ultimately have "filter ?P (take n srt @ drop n srt) = drop n srt"
    unfolding filter_append by simp
  moreover have "mset (filter ?P m) = mset (filter ?P srt)" using assms(1) by simp
  ultimately show ?thesis by simp
qed

definition wf_cache :: "'v cache \<Rightarrow> bool" where
  "wf_cache c \<longleftrightarrow> wf_map (entries c) \<and> (\<forall>kv \<in> set (entries c). 0 \<le> ce_sizeBytes (snd kv))"

abbreviation lruOrder :: "'v cache \<Rightarrow> (string, 'v CacheEntry) jsmap" where
  "lruOrder c \<equiv> sort_key (\<lambda>kv. ce_lastAccessedAt (snd kv)) (entries c)"

lemma evict_lru:
  assumes "wf_cache c"
  obtains n where "entries (evictToMakeRoom req c) = filter (\<lambda>kv. fst kv \<notin> fst ` set (take n (lruOrder c))) (entries c)"
    and "mset (entries (evictToMakeRoom req c)) = mset (drop n (lruOrder c))" and "n \<le> length (lruOrder c)"
    and "n < length (lruOrder c) \<longrightarrow> req + getCurrentSizeBytes c - maxSizeBytes c \<le> sizeOf (take n (lruOrder c))"
proof -
  obtain n where "n \<le> length (lruOrder c)"
    "entries (evictToMakeRoom req c) = filter (\<lambda>kv. fst kv \<notin> fst ` set (take n (lruOrder c))) (entries c)"
    "n < length (lruOrder c) \<longrightarrow> req + getCurrentSizeBytes c - maxSizeBytes c \<le> sizeOf (take n (lruOrder c))"
    using evictLoop_prefix [of "lruOrder c" "req + getCurrentSizeBytes c - maxSizeBytes c" 0 c]
    by (auto simp: evictToMakeRoom_def Let_def)
  moreover have "mset (filter (\<lambda>kv. fst kv \<notin> fst ` set (take n (lruOrder c))) (entries c)) = mset (drop n (lruOrder c))"
    using assms by (intro filter_out_prefix) (auto simp: wf_cache_def wf_map_def)
  ultimately show ?thesis using that by metis
qed

lemma evict_makes_room:
  assumes "wf_cache c" and "req \<le> maxSizeBytes c"
  shows "getCurrentSizeBytes (evictToMakeRoom req c) + req \<le> maxSizeBytes c"
proof -
  obtain n where ms: "mset (entries (evictToMakeRoom req c)) = mset (drop n (lruOrder c))" and "n \<le> length (lruOrder c)"
    and room: "n < length (lruOrder c) \<longrightarrow> req + getCurrentSizeBytes c - maxSizeBytes c \<le> sizeOf (take n (lruOrder c))"
    by (rule evict_lru [OF assms(1), of req])
  have "getCurrentSizeBytes c = sizeOf (take n (lruOrder c) @ drop n (lruOrder c))"
    unfolding getCurrentSizeBytes_def append_take_drop_id by (rule sizeOf_mset) simp
  then have "getCurrentSizeBytes c = sizeOf (take n (lruOrder c)) + sizeOf (drop n (lruOrder c))"
    by (simp only: sizeOf_append)
  moreover have "getCurrentSizeBytes (evictToMakeRoom req c) = sizeOf (drop n (lruOrder c))"
    unfolding getCurrentSizeBytes_def by (rule sizeOf_mset [OF ms])
  ultimately show ?thesis
    using room assms(2) \<open>n \<le> length (lruOrder c)\<close> by (cases "n < length (lruOrder c)") auto
qed

lemma wf_cache_evict: "wf_cache c \<Longrightarrow> wf_cache (evictToMakeRoom req c)"
proof -
  assume wf: "wf_cache c"
  obtain n where "entries (evictToMakeRoom req c) = filter (\<lambda>kv. fst kv \<notin> fst ` set (take n (lruOrder c))) (entries c)"
    by (rule evict_lru [OF wf, of req])
  then show ?thesis using wf by (auto simp: wf_cache_def wf_map_def distinct_map_filter)
qed

lemma sizeOf_mapSet_le:
  "(\<forall>kv \<in> set es. 0 \<le> ce_sizeBytes (snd kv)) \<Longrightarrow> sizeOf (mapSet k e es) \<le> sizeOf es + ce_sizeBytes e"
  by (induction es) auto

lemma sizes_mapSet:
  "(\<forall>kv \<in> set es. 0 \<le> ce_sizeBytes (snd kv)) \<Longrightarrow> 0 \<le> ce_sizeBytes e \<Longrightarrow>
   \<forall>kv \<in> set (mapSet k e es). 0 \<le> ce_sizeBytes (snd kv)"
  by (induction es) auto

lemma sizeOf_nonneg: "\<forall>kv \<in> set es. 0 \<le> ce_sizeBytes (snd kv) \<Longrightarrow> 0 \<le> sizeOf es"
  by (induction es) auto

lemma sizeOf_mapSet_ge:
  "(\<forall>kv \<in> set es. 0 \<le> ce_sizeBytes (snd kv)) \<Longrightarrow> 0 \<le> ce_sizeBytes e \<Longrightarrow> ce_sizeBytes e \<le> sizeOf (mapSet k e es)"
proof (induction es)
  case Nil
  then show ?case by simp
next
  case (Cons kv es)
  have "0 \<le> sizeOf es" using Cons.prems by (intro sizeOf_nonneg) simp
  then show ?case using Cons by auto
qed

text \<open>The cache just before the new entry is written.\<close>

definition makeRoom :: "int \<Rightarrow> 'v cache \<Rightarrow> 'v cache" where
  "makeRoom sz c = (if getCurrentSizeBytes c + sz > maxSizeBytes c then evictToMakeRoom sz c else c)"

lemma entries_cacheSet:
  "entries (cacheSet k v sz c) =
     mapSet k \<lparr>ce_value = v, ce_sizeBytes = sz, ce_lastAccessedAt = accessSequence (makeRoom sz c) + 1, ce_accessCount = 0\<rparr>
       (entries (makeRoom sz c))"
  by (simp add: cacheSet_def makeRoom_def Let_def)

lemma maxSizeBytes_cacheSet [simp]: "maxSizeBytes (cacheSet k v sz c) = maxSizeBytes c"
  by (simp add: cacheSet_def evictToMakeRoom_def Let_def)

lemma wf_makeRoom: "wf_cache c \<Longrightarrow> wf_cache (makeRoom sz c)"
  by (simp add: makeRoom_def wf_cache_evict)

lemma wf_cacheSet:
  assumes "wf_cache c" and "0 \<le> sz"
  shows "wf_cache (cacheSet k v sz c)"
proof -
  have wf: "wf_map (entries (makeRoom sz c))"
    and sizes: "\<forall>kv \<in> set (entries (makeRoom sz c)). 0 \<le> ce_sizeBytes (snd kv)"
    using wf_makeRoom [OF assms(1), of sz] by (auto simp: wf_cache_def)
  show ?thesis
    unfolding wf_cache_def entries_cacheSet
    by (intro conjI wf_mapSet [OF wf] sizes_mapSet [OF sizes]) (simp add: assms(2))
qed

lemma makeRoom_fits:
  assumes "wf_cache c" and "sz \<le> maxSizeBytes c"
  shows "getCurrentSizeBytes (makeRoom sz c) + sz \<le> maxSizeBytes c"
  using evict_makes_room [OF assms] by (simp add: makeRoom_def)

section \<open>Properties\<close>

text \<open>
  C18: Concurrency caps hold under every interleaving: whatever sequence of acquires and releases the
  clients issue, no resource type ever has more active slots than its configured limit.
\<close>

theorem concurrency_caps_hold:
  "getActiveCount (fold limiter_step calls (createConcurrencyLimiter cfg)) rt \<le>
   max 0 (getLimitForResourceType cfg rt)"
proof -
  have "within_limits l \<Longrightarrow> within_limits (fold limiter_step calls l) \<and> lim_config (fold limiter_step calls l) = lim_config l" for l
  proof (induction calls arbitrary: l)
    case Nil
    then show ?case by simp
  next
    case (Cons c calls)
    have "lim_config (limiter_step c l) = lim_config l"
      by (cases c) (auto simp: acquire_def release_def Let_def split: sum.splits)
    then show ?case using Cons limiter_step_within_limits by auto
  qed
  moreover have "within_limits (createConcurrencyLimiter cfg)"
    by (simp add: within_limits_def createConcurrencyLimiter_def count_defs)
  ultimately show ?thesis
    unfolding within_limits_def by (metis createConcurrencyLimiter_def limiter.select_convs(1))
qed

text \<open>
  A slot taken is a slot counted, and released again: with an unused token id an accepted acquire
  adds exactly one to its type and nothing to the others, and releasing that token undoes it.
\<close>

theorem acquire_release_roundtrip:
  assumes "acquire rt sid uid tid l = Inr (t, l')" and "mapGet (activeSlots l) tid = None"
  shows "getActiveCount l' rt' = getActiveCount l rt' + (if rt' = rt then 1 else 0) \<and> release t l' = l"
proof -
  have "mapDelete tid (mapSet tid s m) = m" if "mapGet m tid = None" for m and s :: ActiveSlot
    using that by (induction m) (auto simp: mapDelete_filter filter_id_conv map_of_eq_None_iff split: if_splits)
  moreover have "length (filter (\<lambda>kv. slot_resourceType (snd kv) = rt') (mapSet tid s (activeSlots l))) =
      length (filter (\<lambda>kv. slot_resourceType (snd kv) = rt') (activeSlots l)) +
      (if slot_resourceType s = rt' then 1 else 0)" for s
    using count_mapSet_fresh [OF assms(2), of "\<lambda>s. slot_resourceType s = rt'"] by blast
  ultimately show ?thesis
    using assms by (auto simp: acquire_def release_def count_defs Let_def split: if_splits)
qed

definition demoLimiter :: limiter where
  "demoLimiter = \<lparr>lim_config = DEFAULT_RESOURCE_CONFIG,
     activeSlots = [(''a'', \<lparr>slot_tokenId = ''a'', slot_resourceType = planner_run_session,
       slot_sessionId = Some ''s1'', slot_userId = None\<rparr>)]\<rparr>"

theorem acquire_release_roundtrip_witness:
  "\<exists>t l'. acquire planner_run_session (Some ''s2'') None ''b'' demoLimiter = Inr (t, l') \<and>
     getActiveCount l' planner_run_session = 2 \<and> release t l' = demoLimiter"
proof -
  obtain t l' where ok: "acquire planner_run_session (Some ''s2'') None ''b'' demoLimiter = Inr (t, l')"
    by (simp add: acquire_def demoLimiter_def count_defs DEFAULT_RESOURCE_CONFIG_def)
  have "mapGet (activeSlots demoLimiter) ''b'' = None" by (simp add: demoLimiter_def)
  from acquire_release_roundtrip [OF ok this, of planner_run_session] ok show ?thesis
    by (auto simp: demoLimiter_def count_defs)
qed

text \<open>
  A positive budget check is good for an acquire: as long as manager and limiter have the same
  configuration, a request \<open>checkBudget\<close> allows is one \<open>acquire\<close> accepts.
\<close>

theorem checkBudget_then_acquire:
  assumes "fst (checkBudget r m) = None" and "lim_config (bm_limiter m) = bm_config m"
  shows "\<exists>t l'. acquire (req_resourceType r) sid uid tid (bm_limiter m) = Inr (t, l')"
  using assms by (simp add: checkBudget_allowed_iff acquire_def Let_def not_le)

definition demoManager :: budgetManager where
  "demoManager = \<lparr>bm_config = DEFAULT_RESOURCE_CONFIG, bm_limiter = demoLimiter, connection = None,
     metricsOn = False, metrics = []\<rparr>"

definition demoRequest :: BudgetRequest where
  "demoRequest = \<lparr>req_resourceType = planner_run_session, req_sessionId = Some ''s2'', req_userId = None,
     req_requestedTokens = None\<rparr>"

theorem checkBudget_then_acquire_witness:
  "\<exists>t l'. acquire planner_run_session (Some ''s2'') None ''b'' demoLimiter = Inr (t, l')"
  using checkBudget_then_acquire [of demoRequest demoManager "Some ''s2''" None "''b''"]
  by (simp add: checkBudget_allowed_iff demoManager_def demoRequest_def demoLimiter_def count_defs
      DEFAULT_RESOURCE_CONFIG_def)

text \<open>
  The per-session planner limit is enforced across sessions: whether a planner run of a session is
  allowed depends only on the number of active planner runs of all sessions together, so a session
  with no run is refused as soon as the others hold \<open>maxConcurrentPlannerRunsPerSession\<close> runs.
\<close>

theorem session_limit_is_global:
  assumes "req_resourceType r = planner_run_session"
  shows "fst (checkBudget r m) = None \<longleftrightarrow>
    getActiveCount (bm_limiter m) planner_run_session < maxConcurrentPlannerRunsPerSession (bm_config m)"
  using assms by (simp add: checkBudget_allowed_iff)

theorem session_limit_is_global_witness:
  "getActiveCountForSession demoLimiter planner_run_session ''s2'' = 0 \<and>
   fst (checkBudget demoRequest
     (demoManager\<lparr>bm_config := DEFAULT_RESOURCE_CONFIG\<lparr>maxConcurrentPlannerRunsPerSession := 1\<rparr>\<rparr>)) \<noteq> None"
  using session_limit_is_global [of demoRequest
      "demoManager\<lparr>bm_config := DEFAULT_RESOURCE_CONFIG\<lparr>maxConcurrentPlannerRunsPerSession := 1\<rparr>\<rparr>"]
  by (simp add: demoRequest_def demoManager_def demoLimiter_def count_defs)

text \<open>
  The cache keeps its memory budget: storing an entry no larger than the whole budget leaves the
  cache within its budget and well formed, and the entry is found with its value.
\<close>

theorem cacheSet_within_budget:
  assumes "wf_cache c" and "0 \<le> sz" and "sz \<le> maxSizeBytes c"
  shows "getCurrentSizeBytes (cacheSet k v sz c) \<le> maxSizeBytes (cacheSet k v sz c) \<and>
    wf_cache (cacheSet k v sz c) \<and> fst (cacheGet k (cacheSet k v sz c)) = Some v"
proof -
  have sizes: "\<forall>kv \<in> set (entries (makeRoom sz c)). 0 \<le> ce_sizeBytes (snd kv)"
    using wf_makeRoom [OF assms(1), of sz] by (simp add: wf_cache_def)
  have "getCurrentSizeBytes (cacheSet k v sz c) \<le> maxSizeBytes c"
    using makeRoom_fits [OF assms(1,3)] sizeOf_mapSet_le [OF sizes]
    unfolding getCurrentSizeBytes_def entries_cacheSet by (smt (verit) CacheEntry.select_convs(2))
  then show ?thesis
    using wf_cacheSet [OF assms(1,2)] by (simp add: cacheGet_def entries_cacheSet Let_def)
qed

definition demoCache :: "nat cache" where
  "demoCache = cacheSet ''b'' 2 600000 (cacheSet ''a'' 1 400000 (createMemorySafeCache 1 False))"

lemma wf_demoCache: "wf_cache demoCache"
  unfolding demoCache_def by (intro wf_cacheSet) (simp_all add: wf_cache_def createMemorySafeCache_def)

theorem cacheSet_within_budget_witness:
  "getCurrentSizeBytes (cacheSet ''c'' 3 500000 demoCache) \<le> 1048576"
  using cacheSet_within_budget [OF wf_demoCache, of 500000 "''c''" 3]
  by (simp add: demoCache_def createMemorySafeCache_def)

text \<open>
  Eviction is least recently used: every entry that makes room for a new one was last accessed no
  later than every entry that stays, and nothing else is removed or changed.
\<close>

theorem eviction_is_lru:
  assumes "wf_cache c" and "kv \<in> set (entries c)" and "kv \<notin> set (entries (evictToMakeRoom req c))"
    and "kv' \<in> set (entries (evictToMakeRoom req c))"
  shows "kv' \<in> set (entries c) \<and> ce_lastAccessedAt (snd kv) \<le> ce_lastAccessedAt (snd kv')"
proof -
  obtain n where e: "entries (evictToMakeRoom req c) = filter (\<lambda>kv. fst kv \<notin> fst ` set (take n (lruOrder c))) (entries c)"
    and m: "mset (entries (evictToMakeRoom req c)) = mset (drop n (lruOrder c))"
    by (rule evict_lru [OF assms(1), of req])
  let ?key = "\<lambda>kv. ce_lastAccessedAt (snd kv)"
  have kept: "set (entries (evictToMakeRoom req c)) = set (drop n (lruOrder c))"
    using m by (rule mset_eq_setD)
  have "kv \<in> set (take n (lruOrder c) @ drop n (lruOrder c))" using assms(2) by simp
  then have "kv \<in> set (take n (lruOrder c))" using assms(3) kept by (simp only: set_append) blast
  moreover have "kv' \<in> set (drop n (lruOrder c))" using assms(4) kept by simp
  moreover have "sorted (map ?key (take n (lruOrder c) @ drop n (lruOrder c)))" by simp
  ultimately have "?key kv \<le> ?key kv'"
    unfolding map_append sorted_append by auto
  then show ?thesis using assms(4) e by simp
qed

theorem eviction_is_lru_witness:
  "cacheHas ''a'' demoCache \<and> \<not> cacheHas ''a'' (evictToMakeRoom 100000 demoCache) \<and>
   list_all (\<lambda>kv'. 1 \<le> ce_lastAccessedAt (snd kv')) (entries (evictToMakeRoom 100000 demoCache))"
proof -
  let ?a = "(''a'', \<lparr>ce_value = 1, ce_sizeBytes = 400000, ce_lastAccessedAt = 1, ce_accessCount = 0\<rparr> :: nat CacheEntry)"
  let ?b = "(''b'', \<lparr>ce_value = 2, ce_sizeBytes = 600000, ce_lastAccessedAt = 2, ce_accessCount = 0\<rparr> :: nat CacheEntry)"
  have c: "entries demoCache = [?a, ?b]" and mx: "maxSizeBytes demoCache = 1048576"
    by (simp_all add: demoCache_def cacheSet_def createMemorySafeCache_def getCurrentSizeBytes_def recordMetric_def Let_def)
  have e: "entries (evictToMakeRoom 100000 demoCache) = [?b]"
    by (simp add: evictToMakeRoom_def c mx getCurrentSizeBytes_def Let_def)
  have "ce_lastAccessedAt (snd ?a) \<le> ce_lastAccessedAt (snd kv')" if "kv' \<in> set (entries (evictToMakeRoom 100000 demoCache))" for kv'
    using eviction_is_lru [OF wf_demoCache, of ?a 100000 kv'] that c e by simp
  then show ?thesis by (simp add: cacheHas_def mapHas_def list_all_iff c e)
qed

text \<open>
  An entry larger than the whole budget is stored all the same: it evicts every other entry it
  can, and the cache is then over its budget.
\<close>

theorem oversized_entry_breaks_budget:
  assumes "wf_cache c" and "0 \<le> sz" and "maxSizeBytes c < sz"
  shows "cacheHas k (cacheSet k v sz c) \<and> maxSizeBytes (cacheSet k v sz c) < getCurrentSizeBytes (cacheSet k v sz c)"
proof -
  have sizes: "\<forall>kv \<in> set (entries (makeRoom sz c)). 0 \<le> ce_sizeBytes (snd kv)"
    using wf_makeRoom [OF assms(1), of sz] by (simp add: wf_cache_def)
  have "sz \<le> getCurrentSizeBytes (cacheSet k v sz c)"
    using sizeOf_mapSet_ge [OF sizes, of "\<lparr>ce_value = v, ce_sizeBytes = sz,
        ce_lastAccessedAt = accessSequence (makeRoom sz c) + 1, ce_accessCount = 0\<rparr>" k] assms(2)
    by (simp add: getCurrentSizeBytes_def entries_cacheSet)
  then show ?thesis using assms(3) by (simp add: cacheHas_def mapHas_def entries_cacheSet)
qed

theorem oversized_entry_breaks_budget_witness:
  "1048576 < getCurrentSizeBytes (cacheSet ''big'' 9 2000000 demoCache)"
  using oversized_entry_breaks_budget [OF wf_demoCache, of 2000000 "''big''" 9]
  by (simp add: demoCache_def createMemorySafeCache_def)

end
