(* ===== verification/Workdir_Paths.thy ===== *)
theory Workdir_Paths
  imports Prelude "HOL-Library.Sublist"
begin

text \<open>
  Managed working directories (\<open>workdirs/workdir-paths.ts\<close>): ids, path construction and the checks
  that keep a path inside its root. The POSIX part of Node's \<open>path\<close> module the source uses
  (\<open>resolve\<close>, \<open>relative\<close>, \<open>join\<close>, \<open>dirname\<close>, \<open>isAbsolute\<close>) is modelled on strings; the file system
  (\<open>existsSync\<close>, \<open>realpathSync\<close>, \<open>statSync\<close>) and the current directory are a parameter.
\<close>

section \<open>Paths\<close>

fun splitOn :: "char \<Rightarrow> string \<Rightarrow> string list" where
  "splitOn d [] = [[]]"
| "splitOn d (c # cs) = (if c = d then [] # splitOn d cs else
     case splitOn d cs of [] \<Rightarrow> [[c]] | w # ws \<Rightarrow> (c # w) # ws)"

fun joinWith :: "string \<Rightarrow> string list \<Rightarrow> string" where
  "joinWith sep [] = []"
| "joinWith sep [w] = w"
| "joinWith sep (w # v # ws) = w @ sep @ joinWith sep (v # ws)"

definition isAbsolute :: "string \<Rightarrow> bool" where
  "isAbsolute p = startsWith p ''/''"

text \<open>\<open>normalizeString\<close>: empty and dot segments go, two dots remove the segment before them.\<close>

fun normSegs :: "bool \<Rightarrow> string list \<Rightarrow> string list \<Rightarrow> string list" where
  "normSegs up acc [] = rev acc"
| "normSegs up acc (s # ss) =
     (if s = [] \<or> s = ''.'' then normSegs up acc ss
      else if s = ''..'' then
        (case acc of
           a # acc' \<Rightarrow> if a = ''..'' then normSegs up (if up then ''..'' # acc else acc) ss else normSegs up acc' ss
         | [] \<Rightarrow> normSegs up (if up then [''..''] else []) ss)
      else normSegs up (s # acc) ss)"

definition normalize :: "string \<Rightarrow> string" where
  "normalize p = (if p = [] then ''.''
     else let body = joinWith ''/'' (normSegs (\<not> isAbsolute p) [] (splitOn CHR ''/'' p)); trailing = endsWith p ''/'' in
       if body = [] then (if isAbsolute p then ''/'' else if trailing then ''./'' else ''.'')
       else (if isAbsolute p then ''/'' else []) @ body @ (if trailing then ''/'' else []))"

definition joinPath :: "string list \<Rightarrow> string" where
  "joinPath ps = normalize (joinWith ''/'' (filter (\<lambda>p. p \<noteq> []) ps))"

text \<open>\<open>resolve(p)\<close> as the segments of the absolute path, and as the string.\<close>

definition resolveSegs :: "string \<Rightarrow> string \<Rightarrow> string list" where
  "resolveSegs cwd p = normSegs False [] (splitOn CHR ''/'' (if isAbsolute p then p else cwd @ ''/'' @ p))"

definition resolvePath :: "string \<Rightarrow> string \<Rightarrow> string" where
  "resolvePath cwd p = ''/'' @ joinWith ''/'' (resolveSegs cwd p)"

definition commonLen :: "string list \<Rightarrow> string list \<Rightarrow> nat" where
  "commonLen xs ys = length (longest_common_prefix xs ys)"

definition relativePath :: "string \<Rightarrow> string \<Rightarrow> string \<Rightarrow> string" where
  "relativePath cwd root to = (let f = resolveSegs cwd root; t = resolveSegs cwd to; k = commonLen f t in
     joinWith ''/'' (replicate (length f - k) ''..'' @ drop k t))"

fun dirEnd :: "string \<Rightarrow> bool \<Rightarrow> nat \<Rightarrow> nat option" where
  "dirEnd p matched 0 = None"
| "dirEnd p matched (Suc i) =
     (if p ! Suc i = CHR ''/'' then (if matched then dirEnd p matched i else Some (Suc i)) else dirEnd p False i)"

definition dirname :: "string \<Rightarrow> string" where
  "dirname p = (if p = [] then ''.'' else
     case dirEnd p True (length p - 1) of
       None \<Rightarrow> (if isAbsolute p then ''/'' else ''.'')
     | Some e \<Rightarrow> (if isAbsolute p \<and> e = 1 then ''//'' else take e p))"

text \<open>The file system: what exists, what it resolves to (\<open>None\<close>: throws), regular files' link counts.\<close>

record filesystem =
  fs_cwd :: string
  fs_exists :: "string \<Rightarrow> bool"
  fs_realpath :: "string \<Rightarrow> string option"
  fs_fileLinks :: "string \<Rightarrow> nat option"

section \<open>Ids\<close>

datatype WorkdirPathErrorCode =
  WORKDIR_PATH_TRAVERSAL | WORKDIR_ESCAPE | WORKDIR_INVALID_ID | WORKDIR_ID_TOO_LONG |
  WORKDIR_DEPTH_EXCEEDED | WORKDIR_SYMLINK_ESCAPE | WORKDIR_ROOT_UNRESOLVABLE | WORKDIR_HARDLINK_BOUNDARY

definition WORKDIR_MAX_NAME_LENGTH :: nat where "WORKDIR_MAX_NAME_LENGTH = 128"

definition WORKDIR_MAX_DEPTH :: nat where "WORKDIR_MAX_DEPTH = 3"

definition alnum :: "char \<Rightarrow> bool" where
  "alnum c = (let n = (of_char c :: nat) in (48 \<le> n \<and> n \<le> 57) \<or> (65 \<le> n \<and> n \<le> 90) \<or> (97 \<le> n \<and> n \<le> 122))"

definition VALID_ID_PATTERN :: "string \<Rightarrow> bool" where
  "VALID_ID_PATTERN s =
     ((2 \<le> length s \<and> length s \<le> 128 \<and> alnum (hd s) \<and> alnum (last s) \<and>
       list_all (\<lambda>c. alnum c \<or> c = CHR ''_'' \<or> c = CHR ''-'') (butlast (tl s))) \<or>
      (length s = 1 \<and> alnum (hd s)))"

definition sanitizeWorkdirId :: "string \<Rightarrow> WorkdirPathErrorCode + string" where
  "sanitizeWorkdirId i = (let trimmed = trim i in
     if length trimmed = 0 then Inl WORKDIR_INVALID_ID
     else if length trimmed > WORKDIR_MAX_NAME_LENGTH then Inl WORKDIR_ID_TOO_LONG
     else if str_includes trimmed ''..'' \<or> str_includes trimmed ''/'' \<or> str_includes trimmed [CHR 0x5C]
       then Inl WORKDIR_PATH_TRAVERSAL
     else if isAbsolute trimmed then Inl WORKDIR_PATH_TRAVERSAL
     else if str_includes trimmed [CHR 0x00] then Inl WORKDIR_INVALID_ID
     else if \<not> VALID_ID_PATTERN trimmed then Inl WORKDIR_INVALID_ID
     else Inr trimmed)"

definition buildWorkdirPath :: "string \<Rightarrow> string \<Rightarrow> string \<Rightarrow> WorkdirPathErrorCode + string" where
  "buildWorkdirPath workdirRoot uid wid = (case sanitizeWorkdirId uid of
     Inl e \<Rightarrow> Inl e
   | Inr safeUserId \<Rightarrow> (case sanitizeWorkdirId wid of
       Inl e \<Rightarrow> Inl e
     | Inr safeWorkdirId \<Rightarrow> Inr (joinPath [workdirRoot, safeUserId, safeWorkdirId])))"

section \<open>Path safety\<close>

definition outside :: "string \<Rightarrow> bool" where
  "outside rel = (startsWith rel ''..'' \<or> isAbsolute rel)"

definition isWithinWorkdir :: "filesystem \<Rightarrow> string \<Rightarrow> string \<Rightarrow> bool" where
  "isWithinWorkdir fs candidatePath workdirRoot =
     (if fs_exists fs candidatePath
      then (case fs_realpath fs candidatePath of
              None \<Rightarrow> False
            | Some canonical \<Rightarrow> \<not> outside (relativePath (fs_cwd fs) workdirRoot canonical))
      else \<not> outside (relativePath (fs_cwd fs) workdirRoot (resolvePath (fs_cwd fs) candidatePath)))"

lemma dirEnd_bound: "dirEnd p m i = Some e \<Longrightarrow> 0 < e \<and> e \<le> i"
  by (induction p m i rule: dirEnd.induct) (auto split: if_splits)

lemma dirname_dot [simp]: "dirname ''.'' = ''.''" and dirname_slash [simp]: "dirname ''/'' = ''/''"
  by (simp_all add: dirname_def isAbsolute_def)

lemma dirname_shrinks:
  assumes "dirname p \<noteq> p"
  shows "dirname p = ''.'' \<or> dirname p = ''/'' \<or> (p \<noteq> [] \<and> length (dirname p) < length p)"
proof (cases "p = []")
  case False
  show ?thesis
  proof (cases "dirEnd p True (length p - 1)")
    case (Some e)
    then have e: "0 < e" "e \<le> length p - 1" using dirEnd_bound by blast+
    have "dirEnd p True (Suc 0) = None" by simp
    then have "length p - 1 \<noteq> Suc 0" using Some by (metis option.distinct(1))
    then have "2 < length p" "e < length p" using e by linarith+
    then show ?thesis using False Some by (auto simp: dirname_def)
  qed (use False in \<open>simp add: dirname_def\<close>)
qed (simp add: dirname_def)

function resolveNearestExistingAncestor :: "filesystem \<Rightarrow> string \<Rightarrow> string \<Rightarrow> string option" where
  "resolveNearestExistingAncestor fs candidatePath current =
     (if current \<noteq> dirname current then
        (if fs_exists fs current then Some current
         else resolveNearestExistingAncestor fs candidatePath (dirname current))
      else if fs_exists fs current then Some current
      else None)"
  by pat_completeness auto

termination
proof (relation "measure (\<lambda>(fs, p, c). if dirname c = c then 0 else length c + 1)")
  fix fs :: filesystem and candidatePath current :: string
  assume "current \<noteq> dirname current"
  then show "((fs, candidatePath, dirname current), fs, candidatePath, current)
      \<in> measure (\<lambda>(fs, p, c). if dirname c = c then 0 else length c + 1)"
    using dirname_shrinks [of current] by auto
qed simp

declare resolveNearestExistingAncestor.simps [simp del]

definition hasMultipleLinks :: "filesystem \<Rightarrow> string \<Rightarrow> bool" where
  "hasMultipleLinks fs p = (case fs_fileLinks fs p of None \<Rightarrow> False | Some n \<Rightarrow> n > 1)"

text \<open>The second half of \<open>_validateWorkdirPath\<close>: boundary, depth and hard links of the canonical path.\<close>

definition checkCanonical :: "filesystem \<Rightarrow> string \<Rightarrow> string \<Rightarrow> WorkdirPathErrorCode + (string \<times> string)" where
  "checkCanonical fs workdirRoot canonical =
     (let rel = relativePath (fs_cwd fs) workdirRoot canonical;
          segments = filter (\<lambda>s. length s > 0) (splitOn CHR ''/'' rel) in
      if outside rel then Inl WORKDIR_ESCAPE
      else if length segments > WORKDIR_MAX_DEPTH then Inl WORKDIR_DEPTH_EXCEEDED
      else if fs_exists fs canonical \<and> hasMultipleLinks fs canonical then Inl WORKDIR_HARDLINK_BOUNDARY
      else Inr (canonical, rel))"

definition checkAncestor :: "filesystem \<Rightarrow> string \<Rightarrow> string \<Rightarrow> WorkdirPathErrorCode option" where
  "checkAncestor fs candidatePath workdirRoot =
     (case resolveNearestExistingAncestor fs candidatePath candidatePath of
        None \<Rightarrow> None
      | Some nearest \<Rightarrow> (case fs_realpath fs nearest of
          None \<Rightarrow> Some WORKDIR_ROOT_UNRESOLVABLE
        | Some canonicalAncestor \<Rightarrow>
            if outside (relativePath (fs_cwd fs) workdirRoot canonicalAncestor) then Some WORKDIR_SYMLINK_ESCAPE else None))"

definition validatePath :: "filesystem \<Rightarrow> string \<Rightarrow> string \<Rightarrow> bool \<Rightarrow> WorkdirPathErrorCode + (string \<times> string)" where
  "validatePath fs candidatePath workdirRoot checkWriteParent =
     (if str_includes candidatePath ''..'' then Inl WORKDIR_PATH_TRAVERSAL
      else case (if checkWriteParent then checkAncestor fs candidatePath workdirRoot else None) of
        Some e \<Rightarrow> Inl e
      | None \<Rightarrow>
          (if fs_exists fs candidatePath
           then (case fs_realpath fs candidatePath of
                   None \<Rightarrow> Inl WORKDIR_ROOT_UNRESOLVABLE
                 | Some canonical \<Rightarrow> checkCanonical fs workdirRoot canonical)
           else checkCanonical fs workdirRoot (resolvePath (fs_cwd fs) candidatePath)))"

definition validateWorkdirPath :: "filesystem \<Rightarrow> string \<Rightarrow> string \<Rightarrow> WorkdirPathErrorCode + (string \<times> string)" where
  "validateWorkdirPath fs candidatePath workdirRoot = validatePath fs candidatePath workdirRoot False"

definition validateWorkdirWritePath :: "filesystem \<Rightarrow> string \<Rightarrow> string \<Rightarrow> WorkdirPathErrorCode + (string \<times> string)" where
  "validateWorkdirWritePath fs candidatePath workdirRoot = validatePath fs candidatePath workdirRoot True"

section \<open>Segments of a path\<close>

text \<open>A plain segment names an entry of a directory.\<close>

definition plain :: "string \<Rightarrow> bool" where
  "plain s = (s \<noteq> [] \<and> s \<noteq> ''.'' \<and> s \<noteq> ''..'' \<and> CHR ''/'' \<notin> set s)"

lemma splitOn_not_Nil [simp]: "splitOn d cs \<noteq> []"
  by (induction cs) (auto split: list.splits)

lemma splitOn_free [simp]: "d \<notin> set cs \<Longrightarrow> splitOn d cs = [cs]"
  by (induction cs) auto

lemma splitOn_append: "splitOn d (xs @ d # ys) = splitOn d xs @ splitOn d ys"
  by (induction xs) (auto split: list.splits)

lemma splitOn_parts_free: "w \<in> set (splitOn d cs) \<Longrightarrow> d \<notin> set w"
  by (induction cs arbitrary: w) (auto split: list.splits if_splits)

lemma splitOn_joinWith:
  "ws \<noteq> [] \<Longrightarrow> \<forall>w \<in> set ws. d \<notin> set w \<Longrightarrow> splitOn d (joinWith [d] ws) = ws"
  by (induction "[d]" ws rule: joinWith.induct) (auto simp: splitOn_append)

lemma normSegs_append: "normSegs up acc (xs @ ys) = normSegs up (rev (normSegs up acc xs)) ys"
  by (induction up acc xs rule: normSegs.induct) (auto split: list.splits)

lemma normSegs_plain_id: "list_all plain ss \<Longrightarrow> normSegs up acc ss = rev acc @ ss"
  by (induction ss arbitrary: acc) (auto simp: plain_def)

lemma normSegs_plain:
  "\<forall>s \<in> set ss. CHR ''/'' \<notin> set s \<Longrightarrow> list_all plain acc \<Longrightarrow> list_all plain (normSegs False acc ss)"
  by (induction "False" acc ss rule: normSegs.induct) (auto simp: plain_def split: list.splits)

lemma plain_resolveSegs: "list_all plain (resolveSegs cwd p)"
  unfolding resolveSegs_def by (rule normSegs_plain) (auto dest: splitOn_parts_free)

lemma resolveSegs_joined:
  assumes "list_all plain ss"
  shows "resolveSegs cwd (''/'' @ joinWith ''/'' ss) = ss"
proof (cases "ss = []")
  case True
  then show ?thesis by (simp add: resolveSegs_def isAbsolute_def)
next
  case False
  have "splitOn CHR ''/'' (joinWith ''/'' ss) = ss"
    using False assms by (intro splitOn_joinWith) (auto simp: list_all_iff plain_def)
  then have "splitOn CHR ''/'' (''/'' @ joinWith ''/'' ss) = [] # ss" by simp
  then show ?thesis
    using normSegs_plain_id [OF assms, of False "[]"] by (simp add: resolveSegs_def isAbsolute_def)
qed

lemma resolveSegs_resolvePath: "resolveSegs cwd' (resolvePath cwd p) = resolveSegs cwd p"
  unfolding resolvePath_def by (rule resolveSegs_joined [OF plain_resolveSegs])

lemma resolveSegs_extend:
  assumes "isAbsolute r" and "list_all plain ss" and "ss \<noteq> []"
  shows "resolveSegs cwd (r @ ''/'' @ joinWith ''/'' ss) = resolveSegs cwd r @ ss"
proof -
  have "splitOn CHR ''/'' (joinWith ''/'' ss) = ss"
    using assms by (intro splitOn_joinWith) (auto simp: list_all_iff plain_def)
  moreover have "isAbsolute (r @ ''/'' @ joinWith ''/'' ss)"
    using assms(1) by (auto simp: isAbsolute_def startsWith_prefix)
  ultimately show ?thesis
    using assms(1) normSegs_plain_id [OF assms(2)]
    by (simp add: resolveSegs_def splitOn_append normSegs_append)
qed

section \<open>Inside and outside\<close>

lemma startsWith_joinWith: "startsWith (joinWith sep (w # ws)) w"
  by (cases ws) (auto simp: startsWith_prefix)

lemma joinWith_empty: "joinWith sep ws = [] \<Longrightarrow> w \<in> set ws \<Longrightarrow> w = []"
  by (induction sep ws rule: joinWith.induct) auto

lemma commonLen_full_iff: "commonLen f t = length f \<longleftrightarrow> prefix f t"
  unfolding commonLen_def
  by (induction f t rule: longest_common_prefix.induct) auto

lemma commonLen_le: "commonLen f t \<le> length f"
  unfolding commonLen_def by (metis longest_common_prefix_prefix1 prefix_length_le)

lemma startsWith_dots_joinWith:
  assumes "plain w"
  shows "startsWith (joinWith ''/'' (w # ws)) ''..'' \<longleftrightarrow> startsWith w ''..''"
proof -
  obtain c cs where w: "w = c # cs" using assms by (cases w) (auto simp: plain_def)
  show ?thesis using assms unfolding w by (cases cs; cases ws) (auto simp: plain_def)
qed

lemma inside_iff:
  assumes "f = resolveSegs cwd root" and "t = resolveSegs cwd to"
  shows "\<not> outside (relativePath cwd root to) \<longleftrightarrow>
     prefix f t \<and> (case drop (length f) t of [] \<Rightarrow> True | s # _ \<Rightarrow> \<not> startsWith s ''..'')"
proof -
  let ?k = "commonLen f t"
  have rel: "relativePath cwd root to = joinWith ''/'' (replicate (length f - ?k) ''..'' @ drop ?k t)"
    by (simp add: relativePath_def assms Let_def)
  show ?thesis
  proof (cases "prefix f t")
    case False
    then obtain n where "length f - ?k = Suc n"
      using commonLen_full_iff [of f t] commonLen_le [of f t] by (metis diff_is_0_eq le_antisym not0_implies_Suc)
    then have "startsWith (relativePath cwd root to) ''..''"
      unfolding rel by (simp only: replicate.simps append_Cons startsWith_joinWith)
    then show ?thesis using False by (simp add: outside_def)
  next
    case True
    then have k: "?k = length f" by (simp add: commonLen_full_iff)
    show ?thesis
    proof (cases "drop (length f) t")
      case Nil
      then show ?thesis using True by (simp add: rel k outside_def isAbsolute_def)
    next
      case (Cons s ss)
      then have "s \<in> set t" by (metis in_set_dropD list.set_intros(1))
      then have s: "plain s" using plain_resolveSegs [of cwd to] assms(2) by (auto simp: list_all_iff)
      then have "\<not> isAbsolute (joinWith ''/'' (s # ss))"
        by (cases s; cases ss) (auto simp: plain_def isAbsolute_def)
      then show ?thesis
        using True Cons startsWith_dots_joinWith [OF s, of ss] by (simp add: rel k outside_def)
    qed
  qed
qed

lemma inside_prefix:
  "\<not> outside (relativePath cwd root to) \<Longrightarrow> prefix (resolveSegs cwd root) (resolveSegs cwd to)"
  using inside_iff [OF refl refl] by blast

lemma relative_segments:
  assumes "\<not> outside (relativePath cwd root to)"
  shows "filter (\<lambda>s. length s > 0) (splitOn CHR ''/'' (relativePath cwd root to)) =
     drop (length (resolveSegs cwd root)) (resolveSegs cwd to)"
proof -
  let ?f = "resolveSegs cwd root" and ?t = "resolveSegs cwd to"
  let ?d = "drop (length ?f) ?t"
  have "commonLen ?f ?t = length ?f" using inside_prefix [OF assms] by (simp add: commonLen_full_iff)
  then have rel: "relativePath cwd root to = joinWith ''/'' ?d" by (simp add: relativePath_def Let_def)
  have plain: "\<forall>s \<in> set ?d. plain s"
    using plain_resolveSegs [of cwd to] by (auto simp: list_all_iff dest: in_set_dropD)
  show ?thesis
  proof (cases "?d = []")
    case False
    have "splitOn CHR ''/'' (joinWith ''/'' ?d) = ?d"
      using False plain by (intro splitOn_joinWith) (auto simp: plain_def)
    moreover have "filter (\<lambda>s. length s > 0) ?d = ?d"
      using plain by (auto simp: filter_id_conv plain_def)
    ultimately show ?thesis unfolding rel by simp
  qed (simp add: rel)
qed

section \<open>Ids are plain segments\<close>

lemma indexOf_single: "indexOf s [c] = None \<longleftrightarrow> c \<notin> set s"
  by (induction s) (auto split: if_splits)

lemma valid_id_chars:
  assumes "VALID_ID_PATTERN s"
  shows "\<forall>c \<in> set s. alnum c \<or> c = CHR ''_'' \<or> c = CHR ''-''"
proof
  fix c assume "c \<in> set s"
  moreover obtain d ds where s: "s = d # ds" using assms by (cases s) (auto simp: VALID_ID_PATTERN_def)
  moreover have "ds \<noteq> [] \<Longrightarrow> set ds = insert (last ds) (set (butlast ds))"
    by (metis append_butlast_last_id list.simps(15) rotate1.simps(2) set_rotate1)
  ultimately show "alnum c \<or> c = CHR ''_'' \<or> c = CHR ''-''"
    using assms by (cases "ds = []") (auto simp: VALID_ID_PATTERN_def list_all_iff)
qed

lemma alnum_not_special [simp]: "\<not> alnum CHR ''/''" "\<not> alnum CHR ''.''" "\<not> alnum CHR 0x5C" "\<not> alnum CHR 0x00"
  by (simp_all add: alnum_def)

lemma valid_id_free:
  assumes "VALID_ID_PATTERN s"
  shows "CHR ''/'' \<notin> set s \<and> CHR ''.'' \<notin> set s \<and> CHR 0x5C \<notin> set s \<and> CHR 0x00 \<notin> set s"
  using valid_id_chars [OF assms] by (intro conjI notI) (auto dest!: bspec)

lemma valid_id_plain: "VALID_ID_PATTERN s \<Longrightarrow> plain s"
  using valid_id_free [of s] by (auto simp: plain_def VALID_ID_PATTERN_def)

lemma sanitize_iff: "sanitizeWorkdirId i = Inr s \<longleftrightarrow> s = trim i \<and> VALID_ID_PATTERN s"
proof -
  have "\<not> str_includes s ''..'' \<and> \<not> str_includes s ''/'' \<and> \<not> str_includes s [CHR 0x5C] \<and> \<not> str_includes s [CHR 0x00] \<and>
      \<not> isAbsolute s" if v: "VALID_ID_PATTERN s" for s
  proof -
    have "indexOf s ''..'' = None"
    proof (rule ccontr)
      assume "indexOf s ''..'' \<noteq> None"
      then obtain j where "indexOf s ''..'' = Some j" by auto
      from indexOf_Some [OF this] have "CHR ''.'' \<in> set s"
        by (metis append_Cons in_set_conv_decomp)
      with valid_id_free [OF v] show False by simp
    qed
    then show ?thesis
      using valid_id_free [OF v] by (auto simp: str_includes_def indexOf_single isAbsolute_def startsWith_prefix)
  qed
  moreover have "VALID_ID_PATTERN s \<Longrightarrow> 0 < length s \<and> length s \<le> 128" for s
    by (auto simp: VALID_ID_PATTERN_def)
  ultimately show ?thesis
    by (cases "VALID_ID_PATTERN (trim i)")
       (force simp: sanitizeWorkdirId_def WORKDIR_MAX_NAME_LENGTH_def Let_def split: if_splits)+
qed

lemma buildWorkdirPath_eq:
  assumes "buildWorkdirPath root uid wid = Inr p" and "isAbsolute root"
  shows "resolveSegs cwd p = resolveSegs cwd root @ [trim uid, trim wid]"
proof -
  let ?u = "trim uid" and ?w = "trim wid"
  have valid: "VALID_ID_PATTERN ?u" "VALID_ID_PATTERN ?w"
    and p: "p = joinPath [root, ?u, ?w]"
    using assms(1) by (auto simp: buildWorkdirPath_def sanitize_iff split: sum.splits)
  have plain: "list_all plain [?u, ?w]" using valid valid_id_plain by simp
  let ?q = "root @ ''/'' @ joinWith ''/'' [?u, ?w]"
  have ne: "root \<noteq> []" "?u \<noteq> []" "?w \<noteq> []" using assms(2) plain by (auto simp: isAbsolute_def plain_def)
  have abs: "isAbsolute ?q" using assms(2) by (auto simp: isAbsolute_def startsWith_prefix)
  have segs: "normSegs False [] (splitOn CHR ''/'' ?q) = resolveSegs cwd root @ [?u, ?w]"
    using resolveSegs_extend [OF assms(2) plain, of cwd] abs by (simp add: resolveSegs_def)
  have "last ?w \<noteq> CHR ''/''" using valid_id_free [OF valid(2)] ne last_in_set by metis
  then have "\<not> endsWith ?q ''/''"
    using ne by (cases "?w" rule: rev_cases) (auto simp: endsWith_def)
  moreover have "joinWith ''/'' (resolveSegs cwd root @ [?u, ?w]) \<noteq> []"
    using ne joinWith_empty [of "''/''" "resolveSegs cwd root @ [?u, ?w]"] by auto
  ultimately have "p = ''/'' @ joinWith ''/'' (resolveSegs cwd root @ [?u, ?w])"
    using abs ne segs by (simp add: p joinPath_def normalize_def Let_def)
  then show ?thesis
    using resolveSegs_joined [of "resolveSegs cwd root @ [?u, ?w]" cwd] plain plain_resolveSegs [of cwd root] by simp
qed

lemma isWithinWorkdir_inside:
  "isWithinWorkdir fs c root \<longleftrightarrow> (\<exists>canonical.
     (if fs_exists fs c then fs_realpath fs c = Some canonical else canonical = resolvePath (fs_cwd fs) c) \<and>
     \<not> outside (relativePath (fs_cwd fs) root canonical))"
  by (auto simp: isWithinWorkdir_def split: option.splits)

lemma checkCanonical_ok:
  "checkCanonical fs root canonical = Inr (c, rel) \<Longrightarrow>
     c = canonical \<and> rel = relativePath (fs_cwd fs) root canonical \<and> \<not> outside rel \<and>
     length (filter (\<lambda>s. length s > 0) (splitOn CHR ''/'' rel)) \<le> WORKDIR_MAX_DEPTH"
  by (auto simp: checkCanonical_def Let_def split: if_splits)

section \<open>Properties\<close>

text \<open>
  C21: Managed directories are isolated: the path built for a user and a workdir below an absolute root
  is exactly two levels under that root, and of two such paths neither contains the other unless user and
  workdir are the same after trimming.
\<close>

theorem workdir_paths_isolated:
  assumes "isAbsolute root" and "buildWorkdirPath root uid wid = Inr p" and "buildWorkdirPath root uid' wid' = Inr p'"
  shows "resolveSegs cwd p = resolveSegs cwd root @ [trim uid, trim wid] \<and>
     (prefix (resolveSegs cwd p) (resolveSegs cwd p') \<longrightarrow> trim uid = trim uid' \<and> trim wid = trim wid')"
  using buildWorkdirPath_eq [OF assms(2,1)] buildWorkdirPath_eq [OF assms(3,1)] by simp

theorem workdir_paths_isolated_witness:
  "buildWorkdirPath ''/srv/wd'' '' alice '' ''w-1'' = Inr ''/srv/wd/alice/w-1'' \<and>
   \<not> prefix (resolveSegs ''/'' ''/srv/wd/alice/w-1'') (resolveSegs ''/'' ''/srv/wd/bob/w-1'')"
proof -
  have t: "trim '' alice '' = ''alice''" "trim ''bob'' = ''bob''" "trim ''w-1'' = ''w-1''"
    by (simp_all add: trim_def is_space_def)
  have v: "VALID_ID_PATTERN ''alice''" "VALID_ID_PATTERN ''bob''" "VALID_ID_PATTERN ''w-1''"
    by (simp_all add: VALID_ID_PATTERN_def alnum_def)
  have a: "isAbsolute ''/srv/wd''" by (simp add: isAbsolute_def)
  have "sanitizeWorkdirId '' alice '' = Inr ''alice''" "sanitizeWorkdirId ''bob'' = Inr ''bob''"
    "sanitizeWorkdirId ''w-1'' = Inr ''w-1''"
    using t v by (simp_all add: sanitize_iff)
  then have p: "buildWorkdirPath ''/srv/wd'' '' alice '' ''w-1'' = Inr ''/srv/wd/alice/w-1''"
    and p': "buildWorkdirPath ''/srv/wd'' ''bob'' ''w-1'' = Inr ''/srv/wd/bob/w-1''"
    by (simp_all add: buildWorkdirPath_def joinPath_def normalize_def isAbsolute_def endsWith_def Let_def)
  have "''alice'' \<noteq> ''bob''" by simp
  with workdir_paths_isolated [OF a p p', of "''/''"] p show ?thesis unfolding t by metis
qed

text \<open>
  An id is accepted exactly when, trimmed, it is one to 128 letters, digits, hyphens and underscores
  that begins and ends with a letter or digit; the accepted id is the trimmed one, and it is a single
  path segment other than \<open>.\<close> and \<open>..\<close>.
\<close>

theorem sanitizeWorkdirId_exact:
  "(sanitizeWorkdirId i = Inr s \<longleftrightarrow>
      s = trim i \<and> 1 \<le> length s \<and> length s \<le> 128 \<and> alnum (hd s) \<and> alnum (last s) \<and>
      list_all (\<lambda>c. alnum c \<or> c = CHR ''_'' \<or> c = CHR ''-'') s) \<and>
   (sanitizeWorkdirId i = Inr s \<longrightarrow> s \<noteq> [] \<and> s \<noteq> ''.'' \<and> s \<noteq> ''..'' \<and> CHR ''/'' \<notin> set s)"
proof (intro conjI impI iffI)
  assume "sanitizeWorkdirId i = Inr s"
  then have s: "s = trim i" "VALID_ID_PATTERN s" unfolding sanitize_iff by blast+
  then show "s = trim i" "1 \<le> length s" "length s \<le> 128" "alnum (hd s)" "alnum (last s)"
    by (auto simp: VALID_ID_PATTERN_def length_Suc_conv)
  show "list_all (\<lambda>c. alnum c \<or> c = CHR ''_'' \<or> c = CHR ''-'') s"
    using valid_id_chars [OF s(2)] by (simp add: list_all_iff)
  show "s \<noteq> []" "s \<noteq> ''.''" "s \<noteq> ''..''" "CHR ''/'' \<notin> set s"
    using valid_id_plain [OF s(2)] by (simp_all add: plain_def)
next
  assume s: "s = trim i \<and> 1 \<le> length s \<and> length s \<le> 128 \<and> alnum (hd s) \<and> alnum (last s) \<and>
      list_all (\<lambda>c. alnum c \<or> c = CHR ''_'' \<or> c = CHR ''-'') s"
  then have "list_all (\<lambda>c. alnum c \<or> c = CHR ''_'' \<or> c = CHR ''-'') (butlast (tl s))"
    unfolding list_all_iff by (metis in_set_butlastD list.set_sel(2) list.size(3) not_one_le_zero)
  then have "VALID_ID_PATTERN s" using s by (cases "length s = 1") (auto simp: VALID_ID_PATTERN_def)
  then show "sanitizeWorkdirId i = Inr s" using s by (simp add: sanitize_iff)
qed

theorem sanitizeWorkdirId_exact_witness:
  "sanitizeWorkdirId '' a_b '' = Inr ''a_b''"
proof -
  have "trim '' a_b '' = ''a_b''" by (simp add: trim_def is_space_def)
  with sanitizeWorkdirId_exact [of "'' a_b ''" "''a_b''"] show ?thesis by (simp add: alnum_def)
qed

lemma validated_path_in:
  assumes "validatePath fs c root checkWriteParent = Inr (canonical, rel)"
  shows "prefix (resolveSegs (fs_cwd fs) root) (resolveSegs (fs_cwd fs) canonical) \<and>
     length (resolveSegs (fs_cwd fs) canonical) \<le> length (resolveSegs (fs_cwd fs) root) + 3 \<and>
     isWithinWorkdir fs c root \<and>
     (checkWriteParent \<longrightarrow> (\<forall>a. resolveNearestExistingAncestor fs c c = Some a \<longrightarrow>
        (\<exists>ra. fs_realpath fs a = Some ra \<and> prefix (resolveSegs (fs_cwd fs) root) (resolveSegs (fs_cwd fs) ra))))"
proof -
  obtain can where "checkCanonical fs root can = Inr (canonical, rel)"
    and "if fs_exists fs c then fs_realpath fs c = Some can else can = resolvePath (fs_cwd fs) c"
    using assms by (auto simp: validatePath_def split: if_splits option.splits)
  moreover from this have "can = canonical" by (auto dest: checkCanonical_ok)
  ultimately have can: "if fs_exists fs c then fs_realpath fs c = Some canonical else canonical = resolvePath (fs_cwd fs) c"
    and chk: "checkCanonical fs root canonical = Inr (canonical, rel)"
    by auto
  have ok: "rel = relativePath (fs_cwd fs) root canonical" "\<not> outside rel"
    "length (filter (\<lambda>s. length s > 0) (splitOn CHR ''/'' rel)) \<le> WORKDIR_MAX_DEPTH"
    using checkCanonical_ok [OF chk] by blast+
  have pre: "prefix (resolveSegs (fs_cwd fs) root) (resolveSegs (fs_cwd fs) canonical)"
    using inside_prefix ok by blast
  have "length (drop (length (resolveSegs (fs_cwd fs) root)) (resolveSegs (fs_cwd fs) canonical)) \<le> 3"
    using relative_segments [of "fs_cwd fs" root canonical] ok by (simp add: WORKDIR_MAX_DEPTH_def)
  then have len: "length (resolveSegs (fs_cwd fs) canonical) \<le> length (resolveSegs (fs_cwd fs) root) + 3"
    by simp
  have "checkWriteParent \<longrightarrow> checkAncestor fs c root = None"
    using assms by (auto simp: validatePath_def split: if_splits option.splits)
  then have "checkWriteParent \<longrightarrow> (\<forall>a. resolveNearestExistingAncestor fs c c = Some a \<longrightarrow>
      (\<exists>ra. fs_realpath fs a = Some ra \<and> prefix (resolveSegs (fs_cwd fs) root) (resolveSegs (fs_cwd fs) ra)))"
    by (auto simp: checkAncestor_def intro: inside_prefix split: option.splits if_splits)
  with pre len show ?thesis
    using can ok by (auto simp: isWithinWorkdir_inside)
qed

text \<open>
  A path that passes validation is inside: its canonical form lies below the root, at most three
  levels deep, and the relative path returned is the rest of it; for a write the nearest existing
  ancestor, resolved through every symbolic link, lies below the root too.
\<close>

theorem validated_path_inside:
  assumes "validatePath fs c root checkWriteParent = Inr (canonical, rel)"
  shows "prefix (resolveSegs (fs_cwd fs) root) (resolveSegs (fs_cwd fs) canonical) \<and>
     length (resolveSegs (fs_cwd fs) canonical) \<le> length (resolveSegs (fs_cwd fs) root) + 3 \<and>
     isWithinWorkdir fs c root \<and>
     (checkWriteParent \<longrightarrow> (\<forall>a. resolveNearestExistingAncestor fs c c = Some a \<longrightarrow>
        (\<exists>ra. fs_realpath fs a = Some ra \<and> prefix (resolveSegs (fs_cwd fs) root) (resolveSegs (fs_cwd fs) ra))))"
  by (rule validated_path_in [OF assms])

text \<open>A root whose subdirectory \<open>link\<close> is a symbolic link to \<open>/etc\<close>.\<close>

definition demoFs :: filesystem where
  "demoFs = \<lparr>fs_cwd = ''/'', fs_exists = (\<lambda>p. p \<in> {''/'', ''/wd'', ''/wd/a'', ''/wd/link'', ''/etc''}),
     fs_realpath = (\<lambda>p. if p = ''/wd/link'' then Some ''/etc'' else Some p), fs_fileLinks = (\<lambda>p. None)\<rparr>"

lemmas path_eval = validateWorkdirWritePath_def validatePath_def checkAncestor_def checkCanonical_def relativePath_def
  resolveSegs_def resolvePath_def commonLen_def isAbsolute_def outside_def demoFs_def hasMultipleLinks_def
  str_includes_def dirname_def resolveNearestExistingAncestor.simps WORKDIR_MAX_DEPTH_def Let_def

theorem validated_path_inside_witness:
  "isWithinWorkdir demoFs ''/wd/a/n'' ''/wd'' \<and> validatePath demoFs ''/wd/a/n'' ''/wd'' True = Inr (''/wd/a/n'', ''a/n'')"
proof -
  have "validatePath demoFs ''/wd/a/n'' ''/wd'' True = Inr (''/wd/a/n'', ''a/n'')"
    by (simp add: path_eval)
  with validated_path_inside [OF this] show ?thesis by simp
qed

text \<open>
  The lexical check is weaker than the write check: a new file under a symbolic link that leaves the
  root counts as within the workdir, while the write validation rejects it as a symlink escape.
\<close>

theorem within_workdir_misses_symlinked_parent:
  "isWithinWorkdir demoFs ''/wd/link/passwd'' ''/wd'' \<and>
   validateWorkdirWritePath demoFs ''/wd/link/passwd'' ''/wd'' = Inl WORKDIR_SYMLINK_ESCAPE"
  by (simp add: isWithinWorkdir_def path_eval)

end
