(* ===== verification/Permissions.thy ===== *)
theory Permissions
  imports Stores Workdir_Paths Complex_Main
begin

text \<open>
  The permission engine (\<open>permissions/permission-engine.ts\<close>, \<open>permissions/types.ts\<close>) and the approval
  handler (\<open>permissions/approval-handler.ts\<close>) over the three permission stores.

  \<open>checkPermission\<close> passes a request through its gates in order: the \<open>hard_deny\<close> mode, the connector
  policies, the mode's operations, the restricted mode's risk bound, the workdir carve-out, existing
  grants, and the approval queue. The engine's effects (approval rows, audit events, trace spans,
  audit records) are the state \<open>pstate\<close>; a thrown error is \<open>Inl\<close> its message, with the effects made so far.

  Parameters: the clock and the random ids of a call (\<open>fresh\<close>), the file system, the pre-approval judge,
  and \<open>regexTest\<close>, the matching of a JavaScript regular expression (\<open>Inl\<close>: the constructor throws), which
  the grant check applies to expressions that come from stored patterns.
\<close>

section \<open>Modes, risks and operations\<close>

datatype PermissionMode =
  ModeReadOnly | ModeAskOnWrite | ModeWriteAllowed | ModeRestricted | ModeBackgroundLimited | ModeHardDeny

fun modeName :: "PermissionMode \<Rightarrow> string" where
  "modeName ModeReadOnly = ''read_only''"
| "modeName ModeAskOnWrite = ''ask_on_write''"
| "modeName ModeWriteAllowed = ''write_allowed''"
| "modeName ModeRestricted = ''restricted''"
| "modeName ModeBackgroundLimited = ''background_limited''"
| "modeName ModeHardDeny = ''hard_deny''"

definition ALL_PERMISSION_MODES :: "PermissionMode list" where
  "ALL_PERMISSION_MODES =
     [ModeReadOnly, ModeAskOnWrite, ModeWriteAllowed, ModeRestricted, ModeBackgroundLimited, ModeHardDeny]"

definition resolvePermissionMode :: "string \<Rightarrow> string + PermissionMode" where
  "resolvePermissionMode profile = (case find (\<lambda>m. modeName m = profile) ALL_PERMISSION_MODES of
     Some m \<Rightarrow> Inr m
   | None \<Rightarrow> Inl (''Unknown permission profile: '' @ [CHR 0x22] @ profile @ [CHR 0x22] @ ''. Valid modes: '' @
       joinWith '', '' (map modeName ALL_PERMISSION_MODES)))"

datatype RiskLevel = RiskLow | RiskMedium | RiskHigh | RiskCritical

fun riskName :: "RiskLevel \<Rightarrow> string" where
  "riskName RiskLow = ''low''"
| "riskName RiskMedium = ''medium''"
| "riskName RiskHigh = ''high''"
| "riskName RiskCritical = ''critical''"

text \<open>\<open>['low', 'medium', 'high', 'critical'].indexOf(..)\<close>, with \<open>-1\<close> for any other string.\<close>

definition riskIndex :: "string \<Rightarrow> int" where
  "riskIndex s = (if s = ''low'' then 0 else if s = ''medium'' then 1 else if s = ''high'' then 2
     else if s = ''critical'' then 3 else - 1)"

fun scopeTypeName :: "PermissionScopeType \<Rightarrow> string" where
  "scopeTypeName ScopeOneShot = ''one_shot''"
| "scopeTypeName ScopeSession = ''session''"
| "scopeTypeName ScopePlan = ''plan''"
| "scopeTypeName ScopeWorkflowRun = ''workflow_run''"
| "scopeTypeName ScopeBackgroundRun = ''background_run''"
| "scopeTypeName ScopeConnector = ''connector''"

fun modeAllowsOperation :: "PermissionMode \<Rightarrow> string \<Rightarrow> bool" where
  "modeAllowsOperation ModeReadOnly operationType = (operationType = ''read'' \<or> operationType = ''query'')"
| "modeAllowsOperation ModeAskOnWrite operationType = True"
| "modeAllowsOperation ModeWriteAllowed operationType = True"
| "modeAllowsOperation ModeRestricted operationType = True"
| "modeAllowsOperation ModeBackgroundLimited operationType = (operationType \<in> {''read'', ''query'', ''internal_read''})"
| "modeAllowsOperation ModeHardDeny operationType = False"

definition isDeniedByRestricted :: "RiskLevel \<Rightarrow> bool" where
  "isDeniedByRestricted r = (r = RiskHigh \<or> r = RiskCritical)"

definition WORKDIR_FILE_TOOL_IDS :: "string list" where
  "WORKDIR_FILE_TOOL_IDS = [''file_read'', ''file_glob'', ''file_grep'', ''file_write'', ''file_edit'', ''file_apply_patch'']"

definition isWorkdirFileTool :: "string \<Rightarrow> bool" where
  "isWorkdirFileTool toolId = (toolId \<in> set WORKDIR_FILE_TOOL_IDS)"

section \<open>Requests, decisions and events\<close>

record PermissionContext =
  pc_userId :: string
  pc_sessionId :: string
  pc_mode :: PermissionMode
  pc_grants :: "PermissionGrant list"

definition createPermissionContext ::
  "string \<Rightarrow> string \<Rightarrow> PermissionMode \<Rightarrow> PermissionGrant list \<Rightarrow> PermissionContext" where
  "createPermissionContext userId sessionId mode grants =
     \<lparr>pc_userId = userId, pc_sessionId = sessionId, pc_mode = mode, pc_grants = grants\<rparr>"

record PermissionCheckRequest =
  rq_context :: PermissionContext
  rq_actionType :: string
  rq_resource :: "string option"
  rq_operationType :: string
  rq_justification :: "string option"
  rq_pendingActionId :: "string option"
  rq_connectorId :: "string option"
  rq_connectorResource :: "string option"
  rq_connectorAction :: "string option"
  rq_riskLevel :: "RiskLevel option"
  rq_scopeType :: "PermissionScopeType option"
  rq_scopeRef :: "string option"
  rq_workDirRoot :: "string option"
  rq_workDirId :: "string option"

text \<open>The approval request as the engine returns it (\<open>ApprovalRequest\<close> of \<open>permissions/types.ts\<close>).\<close>

record DomainApproval =
  da_id :: string
  da_userId :: string
  da_sessionId :: string
  da_status :: ApprovalState
  da_actionType :: string
  da_resource :: "string option"
  da_operationType :: "string option"
  da_justification :: "string option"
  da_requestedBy :: string
  da_requestedAt :: timestamp
  da_expiresAt :: "timestamp option"
  da_respondedAt :: "timestamp option"
  da_responseBy :: "string option"
  da_responseReason :: "string option"
  da_approvalCode :: "ApprovalCode option"
  da_scopeType :: "PermissionScopeType option"
  da_scopeRef :: "string option"

definition fromStorageApprovalRequest :: "ApprovalRequest \<Rightarrow> DomainApproval" where
  "fromStorageApprovalRequest st = \<lparr>da_id = ar_id st, da_userId = ar_userId st, da_sessionId = ar_sessionId st,
     da_status = ar_status st, da_actionType = ar_actionType st, da_resource = ar_resource st,
     da_operationType = (case ar_metadata st of None \<Rightarrow> Some ''unknown'' | Some md \<Rightarrow> md_operationType md),
     da_justification = ar_justification st, da_requestedBy = ar_requestedBy st, da_requestedAt = ar_requestedAt st,
     da_expiresAt = ar_expiresAt st, da_respondedAt = ar_respondedAt st, da_responseBy = ar_responseBy st,
     da_responseReason = ar_responseReason st, da_approvalCode = ar_approvalCode st,
     da_scopeType = ar_scopeType st, da_scopeRef = ar_scopeRef st\<rparr>"

datatype PermissionDecisionStatus = DecAllowed | DecDenied | DecRequiresApproval | DecPendingApproval

record PermissionDecision =
  pd_status :: PermissionDecisionStatus
  pd_allowed :: bool
  pd_reason :: string
  pd_requestId :: "string option"
  pd_approvalRequest :: "DomainApproval option"
  pd_grant :: "PermissionGrant option"
  pd_policyRef :: "string option"
  pd_auditLabel :: "string option"
  pd_workdirAutoAllow :: "(string \<times> string option) option"

definition createAllowedDecision ::
  "string \<Rightarrow> PermissionGrant option \<Rightarrow> (string \<times> string option) option \<Rightarrow> PermissionDecision" where
  "createAllowedDecision reason grant md = \<lparr>pd_status = DecAllowed, pd_allowed = True, pd_reason = reason,
     pd_requestId = None, pd_approvalRequest = None, pd_grant = grant, pd_policyRef = None, pd_auditLabel = None,
     pd_workdirAutoAllow = md\<rparr>"

definition createDeniedDecision :: "string \<Rightarrow> string option \<Rightarrow> string option \<Rightarrow> PermissionDecision" where
  "createDeniedDecision reason policyRef auditLabel = \<lparr>pd_status = DecDenied, pd_allowed = False, pd_reason = reason,
     pd_requestId = None, pd_approvalRequest = None, pd_grant = None, pd_policyRef = policyRef, pd_auditLabel = auditLabel,
     pd_workdirAutoAllow = None\<rparr>"

definition createRequiresApprovalDecision :: "string \<Rightarrow> string \<Rightarrow> DomainApproval \<Rightarrow> PermissionDecision" where
  "createRequiresApprovalDecision reason requestId approval = \<lparr>pd_status = DecRequiresApproval, pd_allowed = False,
     pd_reason = reason, pd_requestId = Some requestId, pd_approvalRequest = Some approval, pd_grant = None,
     pd_policyRef = None, pd_auditLabel = None, pd_workdirAutoAllow = None\<rparr>"

record PermissionEngineConfig =
  cfg_defaultExpiryMs :: int
  cfg_maxPendingApprovals :: nat
  cfg_auditAllDecisions :: bool
  cfg_respectExistingGrants :: bool

definition DEFAULT_PERMISSION_ENGINE_CONFIG :: PermissionEngineConfig where
  "DEFAULT_PERMISSION_ENGINE_CONFIG = \<lparr>cfg_defaultExpiryMs = 3600000, cfg_maxPendingApprovals = 10,
     cfg_auditAllDecisions = True, cfg_respectExistingGrants = True\<rparr>"

record PermissionAuditEvent =
  pe_eventType :: string
  pe_userId :: string
  pe_sessionId :: string
  pe_actionType :: string
  pe_resource :: "string option"
  pe_decision :: string
  pe_reason :: string
  pe_requestId :: "string option"
  pe_grantId :: "string option"
  pe_correlationId :: string
  pe_timestamp :: timestamp
  pe_policyRef :: "string option"
  pe_auditLabel :: "string option"
  pe_connector :: "(string option \<times> string option \<times> string option) option"

record span =
  sp_id :: string
  sp_traceId :: string
  sp_operation :: string
  sp_status :: string
  sp_decision :: "PermissionDecisionStatus option"

datatype auditRecord =
    AuditPermission (aud_decisionId: string) (aud_userId: string) (aud_actionType: string)
      (aud_status: PermissionDecisionStatus) (aud_reason: string) (aud_approvalId: "string option")
  | AuditConnector (aud_userId: string) (aud_connectorId: string) (aud_operation: string)

text \<open>The stores and sinks the engine is created with; the optional ones may be absent.\<close>

record pstate =
  ps_approvals :: approvalTable
  ps_policies :: "policyTable option"
  ps_events :: "PermissionAuditEvent list"
  ps_spans :: "span list option"
  ps_audit :: "auditRecord list option"

text \<open>What the clock and \<open>Math.random\<close> give one call.\<close>

record fresh =
  fr_now :: timestamp
  fr_correlationId :: string
  fr_spanId :: string
  fr_approvalId :: string
  fr_approvalCorrelationId :: string

section \<open>The engine's parts\<close>

definition emitAuditEvent :: "PermissionEngineConfig \<Rightarrow> PermissionAuditEvent \<Rightarrow> pstate \<Rightarrow> pstate" where
  "emitAuditEvent cfg event s =
     (if \<not> cfg_auditAllDecisions cfg then s else s\<lparr>ps_events := ps_events s @ [event]\<rparr>)"

definition checkEvent :: "fresh \<Rightarrow> PermissionCheckRequest \<Rightarrow> string \<Rightarrow> string \<Rightarrow> string \<Rightarrow> PermissionAuditEvent" where
  "checkEvent fr rq eventType decision reason = \<lparr>pe_eventType = eventType, pe_userId = pc_userId (rq_context rq),
     pe_sessionId = pc_sessionId (rq_context rq), pe_actionType = rq_actionType rq, pe_resource = rq_resource rq,
     pe_decision = decision, pe_reason = reason, pe_requestId = None, pe_grantId = None,
     pe_correlationId = fr_correlationId fr, pe_timestamp = fr_now fr, pe_policyRef = None, pe_auditLabel = None,
     pe_connector = None\<rparr>"

definition connectorEvent :: "PermissionCheckRequest \<Rightarrow> string \<Rightarrow> string option \<Rightarrow> PermissionAuditEvent \<Rightarrow> PermissionAuditEvent" where
  "connectorEvent rq policyRef auditLabel e = e\<lparr>pe_policyRef := Some policyRef, pe_auditLabel := auditLabel,
     pe_connector := Some (rq_connectorId rq, rq_connectorResource rq, rq_connectorAction rq)\<rparr>"

definition decidePolicy :: "string \<Rightarrow> RiskLevel \<Rightarrow> ConnectorPolicy \<Rightarrow> bool" where
  "decidePolicy action riskLevel policy = (case cp_effect policy of
     Deny \<Rightarrow> True
   | Allow \<Rightarrow>
       (case cp_allowedScopes policy of
          Some scopes \<Rightarrow> length scopes > 0 \<and> \<not> list_ex (\<lambda>scope. scope = ''*'' \<or> scope = action) scopes
        | None \<Rightarrow> False) \<or>
       (truthy (cp_riskCap policy) \<and> riskIndex (riskName riskLevel) > riskIndex (the (cp_riskCap policy))))"

text \<open>Every policy is an allow or a deny, so the loop over the effective policies returns at the first one.\<close>

definition checkConnectorPolicyInternal ::
  "policyTable option \<Rightarrow> string \<Rightarrow> string \<Rightarrow> string \<Rightarrow> string \<Rightarrow> RiskLevel \<Rightarrow> string + (bool \<times> ConnectorPolicy option)" where
  "checkConnectorPolicyInternal store connectorId resource action userId riskLevel = (case store of
     None \<Rightarrow> Inr (False, None)
   | Some t \<Rightarrow> (case getEffectivePolicies t connectorId resource action (Some userId) of
       Inl e \<Rightarrow> Inl e
     | Inr [] \<Rightarrow> Inr (False, None)
     | Inr (policy # _) \<Rightarrow> Inr (decidePolicy action riskLevel policy, Some policy)))"

definition starToDotStar :: "string \<Rightarrow> string" where
  "starToDotStar p = concat (map (\<lambda>c. if c = CHR ''*'' then ''.*'' else [c]) p)"

text \<open>One turn of the loop over the grants: \<open>Inr False\<close> is \<open>continue\<close>, \<open>Inr True\<close> the return.\<close>

definition grantMatches ::
  "(string \<Rightarrow> string \<Rightarrow> string + bool) \<Rightarrow> timestamp \<Rightarrow> PermissionCheckRequest \<Rightarrow> PermissionGrant \<Rightarrow> string + bool" where
  "grantMatches regexTest now rq grant =
     (if gr_action grant \<noteq> rq_actionType rq \<and> gr_action grant \<noteq> ''*'' then Inr False
      else case (if truthy (gr_resourcePattern grant) \<and> truthy (rq_resource rq)
                 then regexTest (''^'' @ starToDotStar (the (gr_resourcePattern grant)) @ ''$'') (the (rq_resource rq))
                 else Inr True) of
        Inl e \<Rightarrow> Inl e
      | Inr False \<Rightarrow> Inr False
      | Inr True \<Rightarrow> Inr (
          \<not> (case gr_expiresAt grant of None \<Rightarrow> False | Some e \<Rightarrow> e < now) \<and>
          \<not> (case (gr_riskLevelMax grant, rq_riskLevel rq) of
               (Some m, Some r) \<Rightarrow> m \<noteq> [] \<and> riskIndex (riskName r) > riskIndex m
             | _ \<Rightarrow> False) \<and>
          \<not> (case rq_scopeType rq of None \<Rightarrow> False | Some st \<Rightarrow>
               truthy (rq_scopeRef rq) \<and> gr_scope grant \<noteq> [] \<and>
               (case splitOn CHR '':'' (gr_scope grant) of
                  [gst, gsr] \<Rightarrow> gst \<noteq> scopeTypeName st \<or> Some gsr \<noteq> rq_scopeRef rq
                | _ \<Rightarrow> False))))"

fun checkExistingGrants ::
  "(string \<Rightarrow> string \<Rightarrow> string + bool) \<Rightarrow> timestamp \<Rightarrow> PermissionCheckRequest \<Rightarrow> PermissionGrant list \<Rightarrow>
   string + PermissionGrant option" where
  "checkExistingGrants regexTest now rq [] = Inr None"
| "checkExistingGrants regexTest now rq (grant # gs) = (case grantMatches regexTest now rq grant of
     Inl e \<Rightarrow> Inl e
   | Inr True \<Rightarrow> Inr (Some grant)
   | Inr False \<Rightarrow> checkExistingGrants regexTest now rq gs)"

definition approvalRow :: "PermissionEngineConfig \<Rightarrow> fresh \<Rightarrow> PermissionCheckRequest \<Rightarrow> CreateApprovalRequest" where
  "approvalRow cfg fr rq = \<lparr>ar_id = fr_approvalId fr, ar_userId = pc_userId (rq_context rq),
     ar_sessionId = pc_sessionId (rq_context rq), ar_status = Pending, ar_riskLevel = None, ar_scope = None,
     ar_scopeType = rq_scopeType rq, ar_scopeRef = rq_scopeRef rq, ar_actionType = rq_actionType rq,
     ar_resource = rq_resource rq, ar_justification = rq_justification rq, ar_requestedBy = ''permission_engine'',
     ar_requestedAt = fr_now fr, ar_expiresAt = Some (fr_now fr + cfg_defaultExpiryMs cfg), ar_respondedAt = None,
     ar_responseBy = None, ar_responseReason = None, ar_approvalCode = None, ar_idempotencyKey = None,
     ar_metadata = Some \<lparr>md_operationType = Some (rq_operationType rq),
       md_correlationId = Some (fr_approvalCorrelationId fr),
       md_pendingActionId = (if truthy (rq_pendingActionId rq) then rq_pendingActionId rq else None)\<rparr>,
     ar_sourceContext = None\<rparr>"

definition createApprovalRequest ::
  "PermissionEngineConfig \<Rightarrow> fresh \<Rightarrow> PermissionCheckRequest \<Rightarrow> pstate \<Rightarrow> string + (DomainApproval \<times> pstate)" where
  "createApprovalRequest cfg fr rq s = (case approvalCreate (approvalRow cfg fr rq) (fr_now fr) (ps_approvals s) of
     Inl e \<Rightarrow> Inl e
   | Inr (row, t) \<Rightarrow> Inr (fromStorageApprovalRequest row, s\<lparr>ps_approvals := t\<rparr>))"

definition createSpan :: "fresh \<Rightarrow> PermissionCheckRequest \<Rightarrow> pstate \<Rightarrow> pstate" where
  "createSpan fr rq s = s\<lparr>ps_spans := map_option (\<lambda>ss. ss @ [\<lparr>sp_id = fr_spanId fr, sp_traceId = fr_correlationId fr,
     sp_operation = rq_actionType rq, sp_status = ''started'', sp_decision = None\<rparr>]) (ps_spans s)\<rparr>"

definition finishDecision :: "fresh \<Rightarrow> PermissionCheckRequest \<Rightarrow> PermissionDecision \<Rightarrow> pstate \<Rightarrow> (string + PermissionDecision) \<times> pstate" where
  "finishDecision fr rq decision s = (Inr decision, s\<lparr>
     ps_spans := map_option (map (\<lambda>sp. if sp_id sp = fr_spanId fr
       then sp\<lparr>sp_status := ''completed'', sp_decision := Some (pd_status decision)\<rparr> else sp)) (ps_spans s),
     ps_audit := map_option (\<lambda>as. as @ [AuditPermission (fr_spanId fr) (pc_userId (rq_context rq)) (rq_actionType rq)
       (pd_status decision) (pd_reason decision)
       (nullish_opt (map_option da_id (pd_approvalRequest decision)) (pd_requestId decision))]) (ps_audit s)\<rparr>)"

text \<open>\<open>actionType.replace('tool:', '')\<close>: the first occurrence.\<close>

definition replaceFirst :: "string \<Rightarrow> string \<Rightarrow> string" where
  "replaceFirst old s = (case indexOf s old of None \<Rightarrow> s | Some i \<Rightarrow> take i s @ drop (i + length old) s)"

definition workdirCarveOut :: "filesystem \<Rightarrow> PermissionCheckRequest \<Rightarrow> bool" where
  "workdirCarveOut fs rq =
     (truthy (rq_workDirRoot rq) \<and> truthy (rq_resource rq) \<and>
      isWorkdirFileTool (replaceFirst ''tool:'' (rq_actionType rq)) \<and>
      (rq_operationType rq = ''read'' \<or> rq_operationType rq = ''write'') \<and>
      isWithinWorkdir fs (the (rq_resource rq)) (the (rq_workDirRoot rq)))"

text \<open>The connector policies are consulted only for a request that names connector, resource and action.\<close>

definition connectorCheck :: "PermissionCheckRequest \<Rightarrow> pstate \<Rightarrow> string + (bool \<times> ConnectorPolicy option)" where
  "connectorCheck rq s =
     (if truthy (rq_connectorId rq) \<and> truthy (rq_connectorResource rq) \<and> truthy (rq_connectorAction rq)
      then checkConnectorPolicyInternal (ps_policies s) (the (rq_connectorId rq)) (the (rq_connectorResource rq))
             (the (rq_connectorAction rq)) (pc_userId (rq_context rq)) (nullish (rq_riskLevel rq) RiskLow)
      else Inr (False, None))"

definition asksApproval :: "PermissionCheckRequest \<Rightarrow> bool" where
  "asksApproval rq =
     ((pc_mode (rq_context rq) = ModeAskOnWrite \<or> pc_mode (rq_context rq) = ModeWriteAllowed) \<and>
      (rq_operationType rq = ''write'' \<or> rq_operationType rq = ''delete'' \<or> rq_operationType rq = ''execute''))"

section \<open>The gates\<close>

text \<open>The approval queue and the final allow.\<close>

definition approvalGate ::
  "PermissionEngineConfig \<Rightarrow> fresh \<Rightarrow> PermissionCheckRequest \<Rightarrow> pstate \<Rightarrow> (string + PermissionDecision) \<times> pstate" where
  "approvalGate cfg fr rq s =
     (if asksApproval rq then
        (if length (findPendingBySession (ps_approvals s) (pc_sessionId (rq_context rq))) \<ge> cfg_maxPendingApprovals cfg
         then finishDecision fr rq (createDeniedDecision ''Too many pending approval requests'' None None)
                (emitAuditEvent cfg (checkEvent fr rq ''permission_denied'' ''denied'' ''Too many pending approvals'') s)
         else case createApprovalRequest cfg fr rq s of
           Inl e \<Rightarrow> (Inl e, s)
         | Inr (approval, s') \<Rightarrow>
             finishDecision fr rq
               (createRequiresApprovalDecision ''Write operation requires approval'' (da_id approval) approval)
               (emitAuditEvent cfg ((checkEvent fr rq ''approval_requested'' ''requires_approval''
                  (''Write operation requires approval in '' @ modeName (pc_mode (rq_context rq)) @
                   '' mode (intersection: envelope + profile + policy)''))\<lparr>pe_requestId := Some (da_id approval)\<rparr>) s'))
      else finishDecision fr rq (createAllowedDecision ''Operation allowed by permission mode'' None None)
             (emitAuditEvent cfg (checkEvent fr rq ''permission_granted'' ''allowed'' ''Operation allowed by mode policy'') s))"

definition grantGate ::
  "PermissionEngineConfig \<Rightarrow> (string \<Rightarrow> string \<Rightarrow> string + bool) \<Rightarrow> fresh \<Rightarrow> PermissionCheckRequest \<Rightarrow> pstate \<Rightarrow>
   (string + PermissionDecision) \<times> pstate" where
  "grantGate cfg regexTest fr rq s =
     (if cfg_respectExistingGrants cfg then
        (case checkExistingGrants regexTest (fr_now fr) rq (pc_grants (rq_context rq)) of
           Inl e \<Rightarrow> (Inl e, s)
         | Inr None \<Rightarrow> approvalGate cfg fr rq s
         | Inr (Some grant) \<Rightarrow> (case connectorCheck rq s of
             Inl e \<Rightarrow> (Inl e, s)
           | Inr (True, Some policy) \<Rightarrow>
               finishDecision fr rq (createDeniedDecision ''Connector hard-deny policy overrides bypass grant''
                   (Some (cp_policyId policy)) (cp_auditLabel policy))
                 (emitAuditEvent cfg (connectorEvent rq (cp_policyId policy) (cp_auditLabel policy)
                   (checkEvent fr rq ''connector_policy_denied'' ''denied''
                     (''Connector hard-deny policy '' @ cp_policyId policy @ '' overrides bypass grant''))) s)
           | Inr _ \<Rightarrow>
               finishDecision fr rq (createAllowedDecision ''Operation allowed by existing grant'' (Some grant) None)
                 (emitAuditEvent cfg ((checkEvent fr rq ''permission_granted'' ''allowed''
                   ''Active grant allows this operation'')\<lparr>pe_grantId := Some (gr_id grant)\<rparr>) s)))
      else approvalGate cfg fr rq s)"

definition workdirGate ::
  "PermissionEngineConfig \<Rightarrow> (string \<Rightarrow> string \<Rightarrow> string + bool) \<Rightarrow> filesystem \<Rightarrow> fresh \<Rightarrow> PermissionCheckRequest \<Rightarrow> pstate \<Rightarrow>
   (string + PermissionDecision) \<times> pstate" where
  "workdirGate cfg regexTest fs fr rq s =
     (if workdirCarveOut fs rq then
        (let why = ''Workdir-scoped auto-allow: '' @ rq_actionType rq @ '' inside active workdir'' in
         finishDecision fr rq (createAllowedDecision why None (Some (the (rq_workDirRoot rq), rq_workDirId rq)))
           (emitAuditEvent cfg (checkEvent fr rq ''permission_granted'' ''allowed'' why) s))
      else grantGate cfg regexTest fr rq s)"

definition restrictedDenies :: "PermissionCheckRequest \<Rightarrow> bool" where
  "restrictedDenies rq = (pc_mode (rq_context rq) = ModeRestricted \<and>
     (case rq_riskLevel rq of None \<Rightarrow> False | Some r \<Rightarrow> isDeniedByRestricted r))"

definition modeGates ::
  "PermissionEngineConfig \<Rightarrow> (string \<Rightarrow> string \<Rightarrow> string + bool) \<Rightarrow> filesystem \<Rightarrow> fresh \<Rightarrow> PermissionCheckRequest \<Rightarrow> pstate \<Rightarrow>
   (string + PermissionDecision) \<times> pstate" where
  "modeGates cfg regexTest fs fr rq s = (let mode = pc_mode (rq_context rq); operationType = rq_operationType rq in
     if \<not> modeAllowsOperation mode operationType then
       finishDecision fr rq (createDeniedDecision (''Operation type '' @ [CHR 0x27] @ operationType @ [CHR 0x27] @
           '' not allowed in mode '' @ [CHR 0x27] @ modeName mode @ [CHR 0x27]) None None)
         (emitAuditEvent cfg (checkEvent fr rq ''permission_denied'' ''denied''
           (''Mode '' @ modeName mode @ '' does not allow '' @ operationType @ '' operations'')) s)
     else if restrictedDenies rq then
       (let r = riskName (the (rq_riskLevel rq)) in
        finishDecision fr rq (createDeniedDecision (''Restricted mode denies '' @ r @ ''-risk operation '' @
            [CHR 0x27] @ rq_actionType rq @ [CHR 0x27]) None None)
          (emitAuditEvent cfg (checkEvent fr rq ''permission_denied'' ''denied''
            (''Restricted mode denies '' @ r @ ''-risk operations'')) s))
     else workdirGate cfg regexTest fs fr rq s)"

definition recordConnectorAccess :: "PermissionCheckRequest \<Rightarrow> pstate \<Rightarrow> pstate" where
  "recordConnectorAccess rq s = s\<lparr>ps_audit := map_option (\<lambda>as. as @ [AuditConnector (pc_userId (rq_context rq))
     (the (rq_connectorId rq)) (the (rq_connectorAction rq))]) (ps_audit s)\<rparr>"

definition connectorGate ::
  "PermissionEngineConfig \<Rightarrow> (string \<Rightarrow> string \<Rightarrow> string + bool) \<Rightarrow> filesystem \<Rightarrow> fresh \<Rightarrow> PermissionCheckRequest \<Rightarrow> pstate \<Rightarrow>
   (string + PermissionDecision) \<times> pstate" where
  "connectorGate cfg regexTest fs fr rq s = (case connectorCheck rq s of
     Inl e \<Rightarrow> (Inl e, s)
   | Inr (True, Some policy) \<Rightarrow>
       finishDecision fr rq (createDeniedDecision ''Connector policy denies this operation''
           (Some (cp_policyId policy)) (cp_auditLabel policy))
         (recordConnectorAccess rq (emitAuditEvent cfg (connectorEvent rq (cp_policyId policy) (cp_auditLabel policy)
           (checkEvent fr rq ''connector_policy_denied'' ''denied''
             (''Connector policy '' @ cp_policyId policy @ '' denies this operation''))) s))
   | Inr (False, Some policy) \<Rightarrow>
       if cp_effect policy = Allow then
         finishDecision fr rq (createAllowedDecision ''Connector policy allows this operation'' None None)
           (emitAuditEvent cfg (connectorEvent rq (cp_policyId policy) None
             (checkEvent fr rq ''permission_granted'' ''allowed'' ''Connector policy allows this operation'')) s)
       else modeGates cfg regexTest fs fr rq s
   | Inr (_, None) \<Rightarrow> modeGates cfg regexTest fs fr rq s)"

definition hardDeny :: "PermissionEngineConfig \<Rightarrow> fresh \<Rightarrow> PermissionCheckRequest \<Rightarrow> pstate \<Rightarrow> (string + PermissionDecision) \<times> pstate" where
  "hardDeny cfg fr rq s = finishDecision fr rq (createDeniedDecision ''Operation denied by hard_deny policy'' None None)
     (emitAuditEvent cfg (checkEvent fr rq ''permission_denied'' ''denied'' ''hard_deny policy enforced'') s)"

definition checkPermission ::
  "PermissionEngineConfig \<Rightarrow> (string \<Rightarrow> string \<Rightarrow> string + bool) \<Rightarrow> filesystem \<Rightarrow> fresh \<Rightarrow> PermissionCheckRequest \<Rightarrow> pstate \<Rightarrow>
   (string + PermissionDecision) \<times> pstate" where
  "checkPermission cfg regexTest fs fr rq s0 = (let s = createSpan fr rq s0 in
     if pc_mode (rq_context rq) = ModeHardDeny then hardDeny cfg fr rq s
     else connectorGate cfg regexTest fs fr rq s)"

section \<open>The pre-approval judge\<close>

datatype PreApprovalRecommendation = RecAllow | RecDeny | RecAsk

fun recName :: "PreApprovalRecommendation \<Rightarrow> string" where
  "recName RecAllow = ''allow''"
| "recName RecDeny = ''deny''"
| "recName RecAsk = ''ask''"

record PreApprovalJudgeResult =
  jr_recommended :: PreApprovalRecommendation
  jr_confidence :: real
  jr_reason :: "string option"

text \<open>
  The judge sees the request's action, resource, operation, user, session, risk, connector and scope;
  \<open>confStr\<close> is how a number prints in the event's reason. After the judge the handler repeats the gates
  of \<open>checkPermission\<close>.
\<close>

definition checkPermissionWithJudge ::
  "PermissionEngineConfig \<Rightarrow> (string \<Rightarrow> string \<Rightarrow> string + bool) \<Rightarrow> filesystem \<Rightarrow>
   (PermissionCheckRequest \<Rightarrow> string + PreApprovalJudgeResult) option \<Rightarrow> (real \<Rightarrow> string) \<Rightarrow> fresh \<Rightarrow> PermissionCheckRequest \<Rightarrow>
   pstate \<Rightarrow> (string + PermissionDecision) \<times> pstate" where
  "checkPermissionWithJudge cfg regexTest fs judge confStr fr rq s0 = (let s = createSpan fr rq s0 in
     if pc_mode (rq_context rq) = ModeHardDeny then hardDeny cfg fr rq s
     else case judge of
       None \<Rightarrow> connectorGate cfg regexTest fs fr rq s
     | Some evaluate \<Rightarrow> (case evaluate rq of
         Inl e \<Rightarrow> (Inl e, s)
       | Inr r \<Rightarrow>
           (let s' = emitAuditEvent cfg (checkEvent fr rq ''permission_check'' ''allowed''
                (''Pre-approval judge recommended: '' @ recName (jr_recommended r) @ '' (confidence: '' @
                 confStr (jr_confidence r) @ '')'')) s in
            if jr_recommended r = RecDeny \<and> jr_confidence r \<ge> 8 / 10 then
              finishDecision fr rq (createDeniedDecision
                (nullish (jr_reason r) ''Pre-approval judge denied this operation'') None None) s'
            else connectorGate cfg regexTest fs fr rq s')))"

section \<open>The approval handler\<close>

record hstate =
  hs_approvals :: approvalTable
  hs_grants :: grantTable
  hs_events :: "PermissionAuditEvent list"

datatype ApprovalResponseType = ApproveOnce | ApproveAlways | Reject

record ApprovalResponse =
  rs_requestId :: string
  rs_responseType :: ApprovalResponseType
  rs_respondedBy :: string
  rs_reason :: "string option"
  rs_respondedAt :: timestamp
  rs_grantScope :: "string option"
  rs_grantDuration :: "int option"

record ApprovalResponseResult =
  rr_ok :: bool
  rr_approved :: bool
  rr_grant :: "PermissionGrant option"
  rr_problem :: "string option"

fun approvalStateName :: "ApprovalState \<Rightarrow> string" where
  "approvalStateName Pending = ''pending''"
| "approvalStateName Approved = ''approved''"
| "approvalStateName Rejected = ''rejected''"
| "approvalStateName Expired = ''expired''"
| "approvalStateName Cancelled = ''cancelled''"

definition handlerEvent ::
  "timestamp \<Rightarrow> string \<Rightarrow> ApprovalRequest \<Rightarrow> string \<Rightarrow> string \<Rightarrow> string \<Rightarrow> string option \<Rightarrow> hstate \<Rightarrow> hstate" where
  "handlerEvent now eventType approval decision reason requestId grantId s = s\<lparr>hs_events := hs_events s @
     [\<lparr>pe_eventType = eventType, pe_userId = ar_userId approval, pe_sessionId = ar_sessionId approval,
       pe_actionType = ar_actionType approval, pe_resource = ar_resource approval, pe_decision = decision,
       pe_reason = reason, pe_requestId = Some requestId, pe_grantId = grantId, pe_correlationId = ''corr_'' @ int_str now,
       pe_timestamp = now, pe_policyRef = None, pe_auditLabel = None, pe_connector = None\<rparr>]\<rparr>"

text \<open>The parameters of \<open>createApproval\<close> (\<open>CreateApprovalRequest\<close> of \<open>permissions/types.ts\<close>).\<close>

record ApprovalParams =
  ap_userId :: string
  ap_sessionId :: string
  ap_actionType :: string
  ap_resource :: "string option"
  ap_operationType :: string
  ap_justification :: "string option"
  ap_requestedBy :: string
  ap_expiresAt :: "timestamp option"
  ap_correlationId :: "string option"

definition createApproval ::
  "int \<Rightarrow> timestamp \<Rightarrow> string \<Rightarrow> ApprovalParams \<Rightarrow> hstate \<Rightarrow> (string + DomainApproval) \<times> hstate" where
  "createApproval defaultExpiryMs now newId p s =
     (let row = \<lparr>ar_id = newId, ar_userId = ap_userId p, ar_sessionId = ap_sessionId p, ar_status = Pending,
        ar_riskLevel = None, ar_scope = None, ar_scopeType = None, ar_scopeRef = None, ar_actionType = ap_actionType p,
        ar_resource = ap_resource p, ar_justification = ap_justification p, ar_requestedBy = ap_requestedBy p,
        ar_requestedAt = now, ar_expiresAt = Some (nullish (ap_expiresAt p) (now + defaultExpiryMs)),
        ar_respondedAt = None, ar_responseBy = None, ar_responseReason = None, ar_approvalCode = None,
        ar_idempotencyKey = None,
        ar_metadata = Some \<lparr>md_operationType = Some (ap_operationType p),
          md_correlationId = Some (nullish (ap_correlationId p) (''corr_'' @ int_str now)), md_pendingActionId = None\<rparr>,
        ar_sourceContext = None\<rparr> in
      case approvalCreate row now (hs_approvals s) of
        Inl e \<Rightarrow> (Inl e, s)
      | Inr (created, t) \<Rightarrow> (Inr (fromStorageApprovalRequest created),
          handlerEvent now ''approval_requested'' created ''pending'' ''Approval request created'' (ar_id created) None
            (s\<lparr>hs_approvals := t\<rparr>)))"

definition answer :: "ApprovalState \<Rightarrow> ApprovalResponse \<Rightarrow> string option \<Rightarrow> UpdateApprovalRequest" where
  "answer st rs reason = \<lparr>upd_status = Some st, upd_respondedAt = Some (rs_respondedAt rs),
     upd_responseBy = Some (rs_respondedBy rs), upd_responseReason = reason, upd_approvalCode = None, upd_expiresAt = None\<rparr>"

definition grantFor :: "timestamp \<Rightarrow> string \<Rightarrow> ApprovalRequest \<Rightarrow> ApprovalResponse \<Rightarrow> CreatePermissionGrant" where
  "grantFor now grantId approval rs = \<lparr>gr_id = grantId, gr_userId = ar_userId approval,
     gr_scope = nullish (rs_grantScope rs) ''default'', gr_action = ar_actionType approval,
     gr_resourcePattern = ar_resource approval, gr_conditions = None, gr_riskLevelMax = None,
     gr_expiresAt = (case rs_grantDuration rs of None \<Rightarrow> None | Some d \<Rightarrow> if d = 0 then None else Some (now + d)),
     gr_sourceContext = Some \<lparr>gs_approvalId = ar_id approval, gs_approvedBy = rs_respondedBy rs, gs_approvedAt = now\<rparr>\<rparr>"

definition processResponse ::
  "timestamp \<Rightarrow> string \<Rightarrow> ApprovalResponse \<Rightarrow> hstate \<Rightarrow> (string + ApprovalResponseResult) \<times> hstate" where
  "processResponse now grantId rs s = (case approvalGetById (hs_approvals s) (rs_requestId rs) of
     None \<Rightarrow> (Inr \<lparr>rr_ok = False, rr_approved = False, rr_grant = None,
       rr_problem = Some (''Approval request not found: '' @ rs_requestId rs)\<rparr>, s)
   | Some approval \<Rightarrow>
       if ar_status approval \<noteq> Pending then
         (Inr \<lparr>rr_ok = False, rr_approved = False, rr_grant = None,
           rr_problem = Some (''Approval request is not pending: '' @ approvalStateName (ar_status approval))\<rparr>, s)
       else if rs_responseType rs = Reject then
         (case approvalUpdate (rs_requestId rs) (answer Rejected rs (Some (nullish (rs_reason rs) ''No reason provided'')))
                 now (hs_approvals s) of
            Inl e \<Rightarrow> (Inl e, s)
          | Inr (_, t) \<Rightarrow> (Inr \<lparr>rr_ok = True, rr_approved = False, rr_grant = None, rr_problem = None\<rparr>,
              handlerEvent now ''approval_responded'' approval ''rejected'' (nullish (rs_reason rs) ''Approval rejected'')
                (rs_requestId rs) None (s\<lparr>hs_approvals := t\<rparr>)))
       else
         (case approvalUpdate (rs_requestId rs) (answer Approved rs (rs_reason rs)) now (hs_approvals s) of
            Inl e \<Rightarrow> (Inl e, s)
          | Inr (_, t) \<Rightarrow>
              (let s1 = s\<lparr>hs_approvals := t\<rparr>;
                   ok = (\<lambda>g s. (Inr \<lparr>rr_ok = True, rr_approved = True, rr_grant = g, rr_problem = None\<rparr>,
                     handlerEvent now ''approval_responded'' approval ''approved'' (nullish (rs_reason rs) ''Approval granted'')
                       (rs_requestId rs) (map_option gr_id g) s)) in
               if rs_responseType rs = ApproveAlways then
                 (case grantCreate (grantFor now grantId approval rs) now (hs_grants s1) of
                    Inl e \<Rightarrow> (Inl e, s1)
                  | Inr (grant, gt) \<Rightarrow> ok (Some grant)
                      (handlerEvent now ''grant_created'' approval ''granted'' ''Permanent grant created from approval''
                        (rs_requestId rs) (Some (gr_id grant)) (s1\<lparr>hs_grants := gt\<rparr>)))
               else ok None s1)))"

section \<open>Frame of the engine's effects\<close>

lemma emit_frame [simp]:
  "ps_approvals (emitAuditEvent cfg e s) = ps_approvals s"
  "ps_policies (emitAuditEvent cfg e s) = ps_policies s"
  "ps_spans (emitAuditEvent cfg e s) = ps_spans s"
  "ps_audit (emitAuditEvent cfg e s) = ps_audit s"
  "ps_events (emitAuditEvent cfg e s) = (if cfg_auditAllDecisions cfg then ps_events s @ [e] else ps_events s)"
  by (simp_all add: emitAuditEvent_def)

lemma span_frame [simp]:
  "ps_approvals (createSpan fr rq s) = ps_approvals s" "ps_policies (createSpan fr rq s) = ps_policies s"
  "ps_events (createSpan fr rq s) = ps_events s" "ps_audit (createSpan fr rq s) = ps_audit s"
  "ps_approvals (recordConnectorAccess rq s) = ps_approvals s" "ps_events (recordConnectorAccess rq s) = ps_events s"
  by (simp_all add: createSpan_def recordConnectorAccess_def)

lemma finish_result [simp]:
  "fst (finishDecision fr rq d s) = Inr d"
  "ps_approvals (snd (finishDecision fr rq d s)) = ps_approvals s"
  "ps_policies (snd (finishDecision fr rq d s)) = ps_policies s"
  "ps_events (snd (finishDecision fr rq d s)) = ps_events s"
  by (simp_all add: finishDecision_def)

lemma finish_split: "finishDecision fr rq d s = (Inr d, snd (finishDecision fr rq d s))"
  by (simp add: finishDecision_def)

lemma decision_simps [simp]:
  "pd_allowed (createAllowedDecision r g m)" "pd_status (createAllowedDecision r g m) = DecAllowed"
  "pd_grant (createAllowedDecision r g m) = g"
  "\<not> pd_allowed (createDeniedDecision r p a)" "pd_status (createDeniedDecision r p a) = DecDenied"
  "\<not> pd_allowed (createRequiresApprovalDecision r i d)" "pd_status (createRequiresApprovalDecision r i d) = DecRequiresApproval"
  "pd_approvalRequest (createRequiresApprovalDecision r i d) = Some d"
  "pd_approvalRequest (createAllowedDecision r g m) = None" "pd_approvalRequest (createDeniedDecision r p a) = None"
  by (simp_all add: createAllowedDecision_def createDeniedDecision_def createRequiresApprovalDecision_def)

lemma connectorCheck_cong [simp]:
  "connectorCheck rq (emitAuditEvent cfg e s) = connectorCheck rq s" "connectorCheck rq (createSpan fr rq s) = connectorCheck rq s"
  by (simp_all add: connectorCheck_def)

lemma event_simps [simp]:
  "pe_decision (checkEvent fr rq t d r) = d" "pe_eventType (checkEvent fr rq t d r) = t"
  "pe_userId (checkEvent fr rq t d r) = pc_userId (rq_context rq)" "pe_actionType (checkEvent fr rq t d r) = rq_actionType rq"
  "pe_decision (connectorEvent rq p a e) = pe_decision e" "pe_userId (connectorEvent rq p a e) = pe_userId e"
  "pe_actionType (connectorEvent rq p a e) = pe_actionType e"
  by (simp_all add: checkEvent_def connectorEvent_def)

lemmas gate_defs = checkPermission_def hardDeny_def connectorGate_def modeGates_def workdirGate_def grantGate_def
  approvalGate_def createApprovalRequest_def Let_def
lemmas gate_splits = if_splits sum.splits option.splits prod.splits bool.splits list.splits

lemma checkConnectorPolicy_denied_policy:
  "checkConnectorPolicyInternal st c r a u k = Inr (b, None) \<Longrightarrow> \<not> b"
  by (auto simp: checkConnectorPolicyInternal_def split: option.splits sum.splits list.splits)

lemma checkConnectorPolicy_effect:
  "checkConnectorPolicyInternal st c r a u k = Inr (False, Some p) \<Longrightarrow> cp_effect p = Allow"
  by (auto simp: checkConnectorPolicyInternal_def decidePolicy_def split: option.splits sum.splits list.splits PolicyEffect.splits)

lemma connectorCheck_cases:
  assumes "connectorCheck rq s = Inr (b, po)"
  shows "(po = None \<and> \<not> b) \<or> (\<exists>p. po = Some p \<and> (\<not> b \<longrightarrow> cp_effect p = Allow))"
proof (cases "truthy (rq_connectorId rq) \<and> truthy (rq_connectorResource rq) \<and> truthy (rq_connectorAction rq)")
  case True
  then obtain st c r a u k where "checkConnectorPolicyInternal st c r a u k = Inr (b, po)"
    using assms by (auto simp: connectorCheck_def)
  then show ?thesis
    using checkConnectorPolicy_denied_policy [of st c r a u k b] checkConnectorPolicy_effect [of st c r a u k]
    by (cases po; cases b) auto
next
  case False
  then show ?thesis using assms by (auto simp: connectorCheck_def)
qed

text \<open>
  The specification of an allow: the abstract reading of the gates that a decision of the engine refines.
\<close>

definition permitted ::
  "PermissionEngineConfig \<Rightarrow> (string \<Rightarrow> string \<Rightarrow> string + bool) \<Rightarrow> filesystem \<Rightarrow> timestamp \<Rightarrow> PermissionCheckRequest \<Rightarrow> pstate \<Rightarrow> bool" where
  "permitted cfg regexTest fs now rq s \<longleftrightarrow> pc_mode (rq_context rq) \<noteq> ModeHardDeny \<and>
     ((\<exists>p. connectorCheck rq s = Inr (False, Some p)) \<or>
      connectorCheck rq s = Inr (False, None) \<and> modeAllowsOperation (pc_mode (rq_context rq)) (rq_operationType rq) \<and>
      \<not> restrictedDenies rq \<and>
      (workdirCarveOut fs rq \<or>
       (cfg_respectExistingGrants cfg \<and> (\<exists>g. checkExistingGrants regexTest now rq (pc_grants (rq_context rq)) = Inr (Some g))) \<or>
       \<not> asksApproval rq))"

lemma approvalGate_allowed:
  "approvalGate cfg fr rq s = (Inr d, s') \<Longrightarrow> pd_allowed d \<longleftrightarrow> \<not> asksApproval rq"
  by (auto simp: approvalGate_def createApprovalRequest_def finishDecision_def split: gate_splits)

lemma grantGate_allowed:
  assumes "grantGate cfg regexTest fr rq s = (Inr d, s')" and "connectorCheck rq s = Inr (False, None)"
  shows "pd_allowed d \<longleftrightarrow>
     (cfg_respectExistingGrants cfg \<and> (\<exists>g. checkExistingGrants regexTest (fr_now fr) rq (pc_grants (rq_context rq)) = Inr (Some g))) \<or>
     \<not> asksApproval rq"
  using assms approvalGate_allowed by (auto simp: grantGate_def finishDecision_def split: if_splits sum.splits option.splits)

lemma checkPermission_allowed:
  assumes "checkPermission cfg regexTest fs fr rq s = (Inr d, s')"
  shows "pd_allowed d \<longleftrightarrow> permitted cfg regexTest fs (fr_now fr) rq s"
proof (cases "pc_mode (rq_context rq) = ModeHardDeny")
  case True
  then show ?thesis using assms by (auto simp: checkPermission_def hardDeny_def finishDecision_def permitted_def Let_def)
next
  case False
  obtain b po where cc: "connectorCheck rq s = Inr (b, po)"
    using assms False by (cases "connectorCheck rq s") (auto simp: checkPermission_def connectorGate_def Let_def)
  show ?thesis
  proof (cases po)
    case (Some p)
    then show ?thesis
      using assms False cc connectorCheck_cases [OF cc]
      by (cases b) (auto simp: checkPermission_def connectorGate_def finishDecision_def permitted_def Let_def split: if_splits)
  next
    case None
    then have "\<not> b" using connectorCheck_cases [OF cc] by simp
    then have run: "modeGates cfg regexTest fs fr rq (createSpan fr rq s) = (Inr d, s')" and cc': "connectorCheck rq s = Inr (False, None)"
      using assms False cc None by (auto simp: checkPermission_def connectorGate_def Let_def)
    show ?thesis
      using run cc' False grantGate_allowed [of cfg regexTest fr rq "createSpan fr rq s" d s']
      by (auto simp: modeGates_def workdirGate_def finishDecision_def permitted_def Let_def split: if_splits)
  qed
qed

text \<open>The row the engine queues for a request, and that it queues nothing else.\<close>

abbreviation queuedRow :: "PermissionEngineConfig \<Rightarrow> fresh \<Rightarrow> PermissionCheckRequest \<Rightarrow> ApprovalRequest" where
  "queuedRow cfg fr rq \<equiv> CreateApprovalRequest.extend (approvalRow cfg fr rq) \<lparr>ar_createdAt = fr_now fr, ar_updatedAt = fr_now fr\<rparr>"

lemma queuedRow_simps [simp]:
  "ar_sessionId (queuedRow cfg fr rq) = pc_sessionId (rq_context rq)" "ar_status (queuedRow cfg fr rq) = Pending"
  "ar_actionType (queuedRow cfg fr rq) = rq_actionType rq" "ar_resource (queuedRow cfg fr rq) = rq_resource rq"
  by (simp_all add: approvalRow_def CreateApprovalRequest.defs)

definition queues :: "PermissionEngineConfig \<Rightarrow> fresh \<Rightarrow> PermissionCheckRequest \<Rightarrow> approvalTable \<Rightarrow> approvalTable \<Rightarrow> bool" where
  "queues cfg fr rq t t' \<longleftrightarrow> asksApproval rq \<and> t' = t @ [queuedRow cfg fr rq] \<and>
     length (findPendingBySession t (pc_sessionId (rq_context rq))) < cfg_maxPendingApprovals cfg"

lemma approvalCreate_append:
  "approvalCreate c now t = Inr (r, t') \<Longrightarrow> r = CreateApprovalRequest.extend c \<lparr>ar_createdAt = now, ar_updatedAt = now\<rparr> \<and> t' = t @ [r]"
  by (auto simp: approvalCreate_def insertRow_def Let_def split: if_splits)

lemma approvalGate_effect:
  assumes "approvalGate cfg fr rq s = (r, s')"
  shows "(\<exists>d. r = Inr d \<and> pd_status d = DecRequiresApproval \<and> queues cfg fr rq (ps_approvals s) (ps_approvals s') \<and>
       pd_approvalRequest d = Some (fromStorageApprovalRequest (queuedRow cfg fr rq))) \<or>
     (ps_approvals s' = ps_approvals s \<and> (\<forall>d. r = Inr d \<longrightarrow> pd_status d \<noteq> DecRequiresApproval))"
  using assms
  by (auto simp: approvalGate_def createApprovalRequest_def finishDecision_def queues_def dest!: approvalCreate_append
      split: if_splits sum.splits)

lemma grantGate_effect:
  assumes "grantGate cfg regexTest fr rq s = (r, s')"
  shows "(\<exists>d. r = Inr d \<and> pd_status d = DecRequiresApproval \<and> queues cfg fr rq (ps_approvals s) (ps_approvals s') \<and>
       pd_approvalRequest d = Some (fromStorageApprovalRequest (queuedRow cfg fr rq))) \<or>
     (ps_approvals s' = ps_approvals s \<and> (\<forall>d. r = Inr d \<longrightarrow> pd_status d \<noteq> DecRequiresApproval))"
  using assms approvalGate_effect [of cfg fr rq s r s']
  by (auto simp: grantGate_def finishDecision_def split: if_splits sum.splits option.splits prod.splits bool.splits)

lemma checkPermission_effect:
  assumes "checkPermission cfg regexTest fs fr rq s = (r, s')"
  shows "(\<exists>d. r = Inr d \<and> pd_status d = DecRequiresApproval \<and> queues cfg fr rq (ps_approvals s) (ps_approvals s') \<and>
       pd_approvalRequest d = Some (fromStorageApprovalRequest (queuedRow cfg fr rq))) \<or>
     (ps_approvals s' = ps_approvals s \<and> (\<forall>d. r = Inr d \<longrightarrow> pd_status d \<noteq> DecRequiresApproval))"
proof -
  let ?goal = ?thesis
  have gg: "grantGate cfg regexTest fr rq (createSpan fr rq s) = (r, s') \<Longrightarrow> ?goal"
    using grantGate_effect [of cfg regexTest fr rq "createSpan fr rq s" r s'] by simp
  then have mg: "modeGates cfg regexTest fs fr rq (createSpan fr rq s) = (r, s') \<Longrightarrow> ?goal"
    by (auto simp: modeGates_def workdirGate_def finishDecision_def Let_def split: if_splits)
  then show ?thesis
    using assms
    by (auto simp: checkPermission_def hardDeny_def connectorGate_def finishDecision_def Let_def
        split: if_splits sum.splits option.splits prod.splits bool.splits)
qed

text \<open>What a gate leaves behind when it returns a decision: one audit event and, with a recorder, a last record.\<close>

definition statusName :: "PermissionDecisionStatus \<Rightarrow> string" where
  "statusName st = (case st of DecAllowed \<Rightarrow> ''allowed'' | DecDenied \<Rightarrow> ''denied'' | _ \<Rightarrow> ''requires_approval'')"

definition traced :: "PermissionEngineConfig \<Rightarrow> PermissionCheckRequest \<Rightarrow> pstate \<Rightarrow> (string + PermissionDecision) \<times> pstate \<Rightarrow> bool" where
  "traced cfg rq s x = (\<forall>d s'. x = (Inr d, s') \<longrightarrow> (pd_status d = DecAllowed) = pd_allowed d \<and> (cfg_auditAllDecisions cfg \<longrightarrow>
     (\<exists>e. ps_events s' = ps_events s @ [e] \<and> pe_userId e = pc_userId (rq_context rq) \<and> pe_actionType e = rq_actionType rq \<and>
        pe_decision e = statusName (pd_status d)) \<and>
     (\<forall>rs. ps_audit s = Some rs \<longrightarrow> (\<exists>rs' i u a w ap. ps_audit s' = Some (rs @ rs' @ [AuditPermission i u a (pd_status d) w ap])))))"

lemma traced_Inl [simp]: "traced cfg rq s (Inl e, s')"
  by (simp add: traced_def)

lemma traced_finish:
  assumes "(pd_status d = DecAllowed) = pd_allowed d" "pe_userId e = pc_userId (rq_context rq)" "pe_actionType e = rq_actionType rq"
    "pe_decision e = statusName (pd_status d)" "ps_events t = ps_events s" "ps_audit t = ps_audit s"
  shows "traced cfg rq s (finishDecision fr rq d (emitAuditEvent cfg e t))"
    "traced cfg rq s (finishDecision fr rq d (recordConnectorAccess rq (emitAuditEvent cfg e t)))"
  using assms by (auto simp: traced_def finishDecision_def recordConnectorAccess_def)

lemma approvalGate_traced: "traced cfg rq s (approvalGate cfg fr rq s)"
  unfolding approvalGate_def createApprovalRequest_def
  by (auto split: if_split sum.split prod.split intro!: traced_finish simp: statusName_def)

lemma grantGate_traced: "traced cfg rq s (grantGate cfg regexTest fr rq s)"
  unfolding grantGate_def
  by (auto split: if_split sum.split prod.split option.split bool.split intro!: traced_finish approvalGate_traced simp: statusName_def)

lemma modeGates_traced: "traced cfg rq s (modeGates cfg regexTest fs fr rq s)"
  unfolding modeGates_def workdirGate_def Let_def
  by (auto split: if_split intro!: traced_finish grantGate_traced simp: statusName_def)

lemma checkPermission_traced: "traced cfg rq s (checkPermission cfg regexTest fs fr rq s)"
proof -
  have "traced cfg rq (createSpan fr rq s) (connectorGate cfg regexTest fs fr rq (createSpan fr rq s))"
    unfolding connectorGate_def
    by (auto split: if_split sum.split prod.split option.split bool.split intro!: traced_finish modeGates_traced simp: statusName_def)
  moreover have "traced cfg rq (createSpan fr rq s) (hardDeny cfg fr rq (createSpan fr rq s))"
    unfolding hardDeny_def by (auto intro!: traced_finish simp: statusName_def)
  ultimately show ?thesis by (simp add: checkPermission_def traced_def Let_def)
qed

lemma findPending_append [simp]:
  "findPendingBySession (t @ t') sid = findPendingBySession t sid @ findPendingBySession t' sid"
  by (simp add: findPendingBySession_def)

section \<open>Properties of the engine\<close>

text \<open>
  C1: The engine refines its specification: whenever it returns, it allows the operation exactly when the
  mode is not \<open>hard_deny\<close> and either a connector policy allows it, or none applies, the mode covers the
  operation, the restricted mode's risk bound is kept, and a workdir, a grant or the absence of an
  approval requirement admits it.
\<close>

theorem checkPermission_refines_spec:
  assumes "checkPermission cfg regexTest fs fr rq s = (Inr d, s')"
  shows "pd_allowed d = permitted cfg regexTest fs (fr_now fr) rq s \<and> (pd_status d = DecAllowed) = pd_allowed d"
proof -
  have "(pd_status d = DecAllowed) = pd_allowed d"
    using checkPermission_traced [of cfg rq s regexTest fs fr] assms by (simp add: traced_def)
  then show ?thesis using checkPermission_allowed [OF assms] by simp
qed

definition demoFresh :: fresh where
  "demoFresh = \<lparr>fr_now = 1000, fr_correlationId = ''corr'', fr_spanId = ''span'', fr_approvalId = ''appr_1'',
     fr_approvalCorrelationId = ''corr2''\<rparr>"

definition demoRequest :: "PermissionMode \<Rightarrow> string \<Rightarrow> PermissionGrant list \<Rightarrow> PermissionCheckRequest" where
  "demoRequest mode oper gs = \<lparr>rq_context = createPermissionContext ''u1'' ''s1'' mode gs, rq_actionType = ''tool:exec'',
     rq_resource = Some ''job'', rq_operationType = oper, rq_justification = None, rq_pendingActionId = None,
     rq_connectorId = None, rq_connectorResource = None, rq_connectorAction = None, rq_riskLevel = None,
     rq_scopeType = None, rq_scopeRef = None, rq_workDirRoot = None, rq_workDirId = None\<rparr>"

definition demoState :: pstate where
  "demoState = \<lparr>ps_approvals = [], ps_policies = None, ps_events = [], ps_spans = None, ps_audit = None\<rparr>"

definition exactRegex :: "string \<Rightarrow> string \<Rightarrow> string + bool" where
  "exactRegex re v = Inr (re = ''^'' @ v @ ''$'')"

lemma demo_context [simp]:
  "pc_mode (rq_context (demoRequest m oper gs)) = m" "pc_grants (rq_context (demoRequest m oper gs)) = gs"
  "pc_sessionId (rq_context (demoRequest m oper gs)) = ''s1''" "rq_operationType (demoRequest m oper gs) = oper"
  "connectorCheck (demoRequest m oper gs) s = Inr (False, None)" "\<not> workdirCarveOut fs (demoRequest m oper gs)"
  "\<not> restrictedDenies (demoRequest m oper gs)"
  by (simp_all add: demoRequest_def createPermissionContext_def connectorCheck_def workdirCarveOut_def restrictedDenies_def truthy_def)

theorem checkPermission_refines_spec_witness:
  "\<exists>d s'. checkPermission DEFAULT_PERMISSION_ENGINE_CONFIG exactRegex demoFs demoFresh (demoRequest ModeReadOnly ''read'' []) demoState = (Inr d, s') \<and>
     pd_allowed d"
proof -
  obtain d s' where run: "checkPermission DEFAULT_PERMISSION_ENGINE_CONFIG exactRegex demoFs demoFresh (demoRequest ModeReadOnly ''read'' []) demoState = (Inr d, s')"
    by (simp add: gate_defs finishDecision_def asksApproval_def)
  from checkPermission_refines_spec [OF run] run show ?thesis by (auto simp: permitted_def asksApproval_def)
qed

text \<open>
  \<open>hard_deny\<close> is absolute: in that mode both entry points return a denial whatever the policies,
  grants, workdir and judge say, and no approval is queued.
\<close>

theorem hard_deny_absolute:
  assumes "pc_mode (rq_context rq) = ModeHardDeny"
  shows "\<exists>d s'. checkPermission cfg regexTest fs fr rq s = (Inr d, s') \<and>
     checkPermissionWithJudge cfg regexTest fs judge confStr fr rq s = (Inr d, s') \<and>
     pd_status d = DecDenied \<and> \<not> pd_allowed d \<and> ps_approvals s' = ps_approvals s"
  using assms by (simp add: checkPermission_def checkPermissionWithJudge_def hardDeny_def finishDecision_def Let_def)

theorem hard_deny_absolute_witness:
  "\<exists>d s'. checkPermission DEFAULT_PERMISSION_ENGINE_CONFIG exactRegex demoFs demoFresh (demoRequest ModeHardDeny ''read'' []) demoState = (Inr d, s') \<and>
     \<not> pd_allowed d"
  using hard_deny_absolute [of "demoRequest ModeHardDeny ''read'' []"] by (metis demo_context(1))

text \<open>
  C3: A deny policy wins over mode, workdir and grants: when one of the effective policies is a deny, and it
  is the user's own or no policy of the user's own applies, the request is denied and nothing is queued.
\<close>

theorem deny_policy_wins:
  assumes "rq_connectorId rq = Some cid" and "rq_connectorResource rq = Some res" and "rq_connectorAction rq = Some act"
    and "cid \<noteq> []" and "res \<noteq> []" and "act \<noteq> []" and "ps_policies s = Some t"
    and eff: "getEffectivePolicies t cid res act (Some (pc_userId (rq_context rq))) = Inr ps"
    and q: "q \<in> set ps" "cp_effect q = Deny" "cp_userId q \<noteq> None \<or> (\<forall>p \<in> set ps. cp_userId p = None)"
  shows "\<exists>d s'. checkPermission cfg regexTest fs fr rq s = (Inr d, s') \<and> pd_status d = DecDenied \<and> ps_approvals s' = ps_approvals s"
proof (cases "pc_mode (rq_context rq) = ModeHardDeny")
  case True
  then show ?thesis by (simp add: checkPermission_def hardDeny_def finishDecision_def Let_def)
next
  case False
  obtain p rest where ps: "ps = p # rest" using q(1) by (cases ps) auto
  have "p = q \<or> policyRank p \<le> policyRank q"
    using sorted_before [OF sorted_getEffectivePolicies [OF eff], of "[]" p rest q] q(1) ps by auto
  moreover have "cp_userId q = None \<Longrightarrow> cp_userId p = None" using q(3) ps by auto
  ultimately have "cp_effect p = Deny"
    using q(2) by (auto simp: policyRank_def split: if_splits)
  then have "connectorCheck rq s = Inr (True, Some p)"
    using assms(1-7) eff ps by (simp add: connectorCheck_def checkConnectorPolicyInternal_def decidePolicy_def truthy_def)
  then show ?thesis
    using False by (simp add: checkPermission_def connectorGate_def finishDecision_def Let_def recordConnectorAccess_def)
qed

theorem deny_policy_wins_witness:
  "\<exists>d s'. checkPermission DEFAULT_PERMISSION_ENGINE_CONFIG exactRegex demoFs demoFresh
       ((demoRequest ModeWriteAllowed ''read'' [])\<lparr>rq_connectorId := Some ''mail'', rq_connectorResource := Some ''inbox/private1'',
          rq_connectorAction := Some ''read''\<rparr>) (demoState\<lparr>ps_policies := Some demoPolicies\<rparr>) = (Inr d, s') \<and>
     pd_status d = DecDenied"
proof -
  let ?rq = "(demoRequest ModeWriteAllowed ''read'' [])\<lparr>rq_connectorId := Some ''mail'', rq_connectorResource := Some ''inbox/private1'',
      rq_connectorAction := Some ''read''\<rparr>"
  have u: "pc_userId (rq_context ?rq) = ''u1''" by (simp add: demoRequest_def createPermissionContext_def)
  have "\<exists>d s'. checkPermission DEFAULT_PERMISSION_ENGINE_CONFIG exactRegex demoFs demoFresh ?rq (demoState\<lparr>ps_policies := Some demoPolicies\<rparr>) =
      (Inr d, s') \<and> pd_status d = DecDenied \<and> ps_approvals s' = ps_approvals (demoState\<lparr>ps_policies := Some demoPolicies\<rparr>)"
    by (rule deny_policy_wins [where cid = "''mail''" and res = "''inbox/private1''" and act = "''read''" and t = demoPolicies
          and q = "demoPolicyRow ''p2'' ''inbox/private?'' Deny None",
          OF _ _ _ _ _ _ _ demo_effective [folded u]]) (simp_all add: demoPolicyRow_def)
  then show ?thesis by blast
qed

lemma side_effects_asked:
  assumes "checkPermission cfg regexTest fs fr rq s = (Inr d, s')"
    and "pc_mode (rq_context rq) = ModeAskOnWrite \<or> pc_mode (rq_context rq) = ModeWriteAllowed"
    and "rq_operationType rq = ''write'' \<or> rq_operationType rq = ''delete'' \<or> rq_operationType rq = ''execute''"
    and "connectorCheck rq s = Inr (False, None)" and "\<not> workdirCarveOut fs rq"
    and "checkExistingGrants regexTest (fr_now fr) rq (pc_grants (rq_context rq)) = Inr None"
  shows "\<not> pd_allowed d \<and>
     (if length (findPendingBySession (ps_approvals s) (pc_sessionId (rq_context rq))) \<ge> cfg_maxPendingApprovals cfg
      then pd_status d = DecDenied \<and> ps_approvals s' = ps_approvals s
      else pd_status d = DecRequiresApproval \<and> ps_approvals s' = ps_approvals s @ [queuedRow cfg fr rq] \<and>
        pd_approvalRequest d = Some (fromStorageApprovalRequest (queuedRow cfg fr rq)))"
proof -
  have asks: "asksApproval rq"
    using assms(2,3) by (simp add: asksApproval_def)
  have "approvalGate cfg fr rq (createSpan fr rq s) = (Inr d, s')"
    using assms(1,2,4-6)
    by (auto simp: checkPermission_def connectorGate_def modeGates_def workdirGate_def grantGate_def restrictedDenies_def Let_def
        split: if_splits)
  then show ?thesis
    using asks
    by (auto simp: approvalGate_def createApprovalRequest_def finishDecision_def dest!: approvalCreate_append
        split: if_splits sum.splits)
qed

text \<open>The mode \<open>write_allowed\<close> asks for approval like \<open>ask_on_write\<close>.\<close>

theorem write_allowed_still_asks:
  assumes "checkPermission cfg regexTest fs fr rq s = (Inr d, s')" and "pc_mode (rq_context rq) = ModeWriteAllowed"
    and "rq_operationType rq = ''write'' \<or> rq_operationType rq = ''delete'' \<or> rq_operationType rq = ''execute''"
    and "connectorCheck rq s = Inr (False, None)" and "\<not> workdirCarveOut fs rq"
    and "checkExistingGrants regexTest (fr_now fr) rq (pc_grants (rq_context rq)) = Inr None"
  shows "\<not> pd_allowed d"
  using side_effects_asked [OF assms(1) disjI2 [OF assms(2)] assms(3-6)] by blast

text \<open>
  C10: Side effects wait for a human: a write, delete or execute request in mode \<open>ask_on_write\<close> that names no connector, lies in
  no workdir and matches no grant is never allowed. It is denied when the session's queue is full, and otherwise answered with one
  new pending approval that carries the request.
\<close>

theorem side_effects_need_approval:
  assumes "checkPermission cfg regexTest fs fr rq s = (Inr d, s')" and "pc_mode (rq_context rq) = ModeAskOnWrite"
    and "rq_operationType rq = ''write'' \<or> rq_operationType rq = ''delete'' \<or> rq_operationType rq = ''execute''"
    and "connectorCheck rq s = Inr (False, None)" and "\<not> workdirCarveOut fs rq"
    and "checkExistingGrants regexTest (fr_now fr) rq (pc_grants (rq_context rq)) = Inr None"
  shows "\<not> pd_allowed d \<and>
     (if length (findPendingBySession (ps_approvals s) (pc_sessionId (rq_context rq))) \<ge> cfg_maxPendingApprovals cfg
      then pd_status d = DecDenied \<and> ps_approvals s' = ps_approvals s
      else pd_status d = DecRequiresApproval \<and> ps_approvals s' = ps_approvals s @ [queuedRow cfg fr rq] \<and>
        pd_approvalRequest d = Some (fromStorageApprovalRequest (queuedRow cfg fr rq)))"
  by (rule side_effects_asked [OF assms(1) disjI1 [OF assms(2)] assms(3-6)])

lemma demo_write:
  "asksApproval (demoRequest ModeAskOnWrite ''write'' [])"
  "\<exists>d s'. checkPermission DEFAULT_PERMISSION_ENGINE_CONFIG exactRegex demoFs demoFresh (demoRequest ModeAskOnWrite ''write'' []) demoState = (Inr d, s')"
  by (simp_all add: asksApproval_def gate_defs finishDecision_def findPendingBySession_def demoState_def approvalCreate_def
      insertRow_def createSpan_def DEFAULT_PERMISSION_ENGINE_CONFIG_def)

theorem side_effects_need_approval_witness:
  "\<exists>d s'. checkPermission DEFAULT_PERMISSION_ENGINE_CONFIG exactRegex demoFs demoFresh (demoRequest ModeAskOnWrite ''write'' []) demoState = (Inr d, s') \<and>
     pd_status d = DecRequiresApproval \<and> length (ps_approvals s') = 1"
proof -
  obtain d s' where run: "checkPermission DEFAULT_PERMISSION_ENGINE_CONFIG exactRegex demoFs demoFresh (demoRequest ModeAskOnWrite ''write'' []) demoState = (Inr d, s')"
    using demo_write(2) by blast
  have "checkExistingGrants exactRegex (fr_now demoFresh) (demoRequest ModeAskOnWrite ''write'' [])
      (pc_grants (rq_context (demoRequest ModeAskOnWrite ''write'' []))) = Inr None" by simp
  from side_effects_need_approval [OF run _ _ _ _ this] run show ?thesis
    by (auto simp: demoState_def findPendingBySession_def DEFAULT_PERMISSION_ENGINE_CONFIG_def)
qed

text \<open>
  The approval queue is bounded: however many requests the engine checks, for whatever sessions, no
  session ever has more pending approvals from it than \<open>maxPendingApprovals\<close> (or than it had before).
\<close>

theorem pending_approvals_bounded:
  "length (findPendingBySession
      (ps_approvals (fold (\<lambda>(fr, rq) s. snd (checkPermission cfg regexTest fs fr rq s)) calls s)) sid) \<le>
   max (cfg_maxPendingApprovals cfg) (length (findPendingBySession (ps_approvals s) sid))"
proof (induction calls arbitrary: s)
  case Nil
  then show ?case by simp
next
  case (Cons c calls)
  obtain fr rq where c: "c = (fr, rq)" by (cases c)
  obtain r s' where run: "checkPermission cfg regexTest fs fr rq s = (r, s')" by fastforce
  have "length (findPendingBySession (ps_approvals s') sid) \<le>
      max (cfg_maxPendingApprovals cfg) (length (findPendingBySession (ps_approvals s) sid))"
    using checkPermission_effect [OF run] by (auto simp: queues_def findPendingBySession_def)
  then show ?case using Cons.IH [of s'] run by (simp add: c)
qed

lemma createApproval_cong:
  "ps_approvals s1 = ps_approvals s2 \<Longrightarrow> fst (approvalGate cfg fr rq s1) = fst (approvalGate cfg fr rq s2)"
  by (auto simp: approvalGate_def createApprovalRequest_def finishDecision_def split: sum.splits)

lemma connectorGate_cong:
  assumes "ps_approvals s1 = ps_approvals s2" and "connectorCheck rq s1 = connectorCheck rq s2"
  shows "fst (connectorGate cfg regexTest fs fr rq s1) = fst (connectorGate cfg regexTest fs fr rq s2)"
proof -
  have g: "fst (grantGate cfg regexTest fr rq s1) = fst (grantGate cfg regexTest fr rq s2)"
    using createApproval_cong [OF assms(1)] assms(2)
    by (auto simp: grantGate_def finishDecision_def split: sum.splits option.splits prod.splits bool.splits)
  then have "fst (modeGates cfg regexTest fs fr rq s1) = fst (modeGates cfg regexTest fs fr rq s2)"
    by (simp add: modeGates_def workdirGate_def finishDecision_def Let_def)
  then show ?thesis
    using assms(2) by (auto simp: connectorGate_def finishDecision_def split: sum.splits option.splits prod.splits bool.splits)
qed

text \<open>
  The judge only tightens: an operation allowed with the pre-approval judge is allowed without it, with
  the same decision, and a judge that does not deny with confidence 0.8 or more changes no decision.
\<close>

theorem judge_only_tightens:
  assumes "checkPermissionWithJudge cfg regexTest fs judge confStr fr rq s = (Inr d, s')"
  shows "(pd_allowed d \<longrightarrow> fst (checkPermission cfg regexTest fs fr rq s) = Inr d) \<and>
     ((\<forall>evaluate r. judge = Some evaluate \<longrightarrow> evaluate rq = Inr r \<longrightarrow> \<not> (jr_recommended r = RecDeny \<and> jr_confidence r \<ge> 8 / 10)) \<longrightarrow>
        fst (checkPermission cfg regexTest fs fr rq s) = Inr d)"
proof -
  let ?s = "createSpan fr rq s"
  have cong: "fst (connectorGate cfg regexTest fs fr rq (emitAuditEvent cfg e ?s)) = fst (connectorGate cfg regexTest fs fr rq ?s)" for e
    by (rule connectorGate_cong) simp_all
  show ?thesis
  proof (cases "pc_mode (rq_context rq) = ModeHardDeny \<or> judge = None")
    case True
    then show ?thesis using assms by (auto simp: checkPermissionWithJudge_def checkPermission_def Let_def split: if_splits)
  next
    case False
    then obtain evaluate r where j: "judge = Some evaluate" "evaluate rq = Inr r"
      using assms by (auto simp: checkPermissionWithJudge_def Let_def split: sum.splits)
    then show ?thesis
      using assms False cong by (auto simp: checkPermissionWithJudge_def checkPermission_def finishDecision_def Let_def split: if_splits) (metis fst_conv)+
  qed
qed

theorem judge_only_tightens_witness:
  "\<exists>d s'. checkPermissionWithJudge DEFAULT_PERMISSION_ENGINE_CONFIG exactRegex demoFs
       (Some (\<lambda>_. Inr \<lparr>jr_recommended = RecAsk, jr_confidence = 1 / 2, jr_reason = None\<rparr>)) (\<lambda>_. ''0.5'')
       demoFresh (demoRequest ModeReadOnly ''read'' []) demoState = (Inr d, s') \<and>
     fst (checkPermission DEFAULT_PERMISSION_ENGINE_CONFIG exactRegex demoFs demoFresh (demoRequest ModeReadOnly ''read'' []) demoState) = Inr d"
proof -
  let ?j = "Some (\<lambda>_. Inr \<lparr>jr_recommended = RecAsk, jr_confidence = 1 / 2, jr_reason = None\<rparr>) ::
      (PermissionCheckRequest \<Rightarrow> string + PreApprovalJudgeResult) option"
  obtain d s' where run: "checkPermissionWithJudge DEFAULT_PERMISSION_ENGINE_CONFIG exactRegex demoFs ?j (\<lambda>_. ''0.5'')
       demoFresh (demoRequest ModeReadOnly ''read'' []) demoState = (Inr d, s')"
    by (simp add: checkPermissionWithJudge_def gate_defs finishDecision_def asksApproval_def)
  from judge_only_tightens [OF run] run show ?thesis by auto
qed

text \<open>
  Every decision leaves its trace: with auditing on, a call that returns appends exactly one event for the
  request, with the decision's status, and a recorder gets the decision as its last record.
\<close>

theorem decisions_are_audited:
  assumes "checkPermission cfg regexTest fs fr rq s = (Inr d, s')" and "cfg_auditAllDecisions cfg"
  shows "(\<exists>e. ps_events s' = ps_events s @ [e] \<and> pe_userId e = pc_userId (rq_context rq) \<and> pe_actionType e = rq_actionType rq \<and>
       pe_decision e = (case pd_status d of DecAllowed \<Rightarrow> ''allowed'' | DecDenied \<Rightarrow> ''denied'' | _ \<Rightarrow> ''requires_approval'')) \<and>
     (\<forall>rs. ps_audit s = Some rs \<longrightarrow> (\<exists>rs' i u a w ap. ps_audit s' = Some (rs @ rs' @ [AuditPermission i u a (pd_status d) w ap])))"
  using checkPermission_traced [of cfg rq s regexTest fs fr] assms by (simp add: traced_def statusName_def)

theorem decisions_are_audited_witness:
  "\<exists>d s'. checkPermission DEFAULT_PERMISSION_ENGINE_CONFIG exactRegex demoFs demoFresh (demoRequest ModeAskOnWrite ''write'' []) demoState = (Inr d, s') \<and>
     length (ps_events s') = 1"
proof -
  obtain d s' where run: "checkPermission DEFAULT_PERMISSION_ENGINE_CONFIG exactRegex demoFs demoFresh (demoRequest ModeAskOnWrite ''write'' []) demoState = (Inr d, s')"
    using demo_write(2) by blast
  have "cfg_auditAllDecisions DEFAULT_PERMISSION_ENGINE_CONFIG" by (simp add: DEFAULT_PERMISSION_ENGINE_CONFIG_def)
  from decisions_are_audited [OF run this] run show ?thesis by (auto simp: demoState_def)
qed

section \<open>Properties of grants and approvals\<close>

lemma grantMatches_revoke [simp]:
  "grantMatches regexTest now rq (g\<lparr>gr_revokedAt := a, gr_revokedReason := b, gr_updatedAt := c\<rparr>) = grantMatches regexTest now rq g"
proof -
  let ?h = "g\<lparr>gr_revokedAt := a, gr_revokedReason := b, gr_updatedAt := c\<rparr>"
  have "gr_action ?h = gr_action g" "gr_resourcePattern ?h = gr_resourcePattern g" "gr_expiresAt ?h = gr_expiresAt g"
    "gr_riskLevelMax ?h = gr_riskLevelMax g" "gr_scope ?h = gr_scope g"
    by simp_all
  then show ?thesis by (simp only: grantMatches_def)
qed

lemma check_update_irrelevant:
  assumes "\<And>g. grantMatches regexTest now rq (f g) = grantMatches regexTest now rq g" and "\<And>g. gr_id (f g) = gr_id g"
  shows "map_sum id (map_option gr_id) (checkExistingGrants regexTest now rq (map (\<lambda>g. if gr_id g = i then f g else g) gs)) =
     map_sum id (map_option gr_id) (checkExistingGrants regexTest now rq gs)"
  by (induction gs) (auto simp: assms split: sum.splits bool.splits)

lemma findByUser_update:
  "(\<And>g. gr_userId (f g) = gr_userId g) \<Longrightarrow>
   findByUser (updateRow gr_id i f t) uid = map (\<lambda>g. if gr_id g = i then f g else g) (findByUser t uid)"
  by (induction t) (auto simp: findByUser_def updateRow_def)

text \<open>
  Revocation is not enforced where grants are taken with \<open>findByUser\<close>, as the tool plane does: revoking
  a grant changes no outcome of the grant check over the user's grants, which finds a grant before the
  revocation exactly when it finds the same one (by id) after it.
\<close>

theorem revocation_not_enforced:
  assumes "revoke i reason now t = Inr (g, t')"
  shows "map_sum id (map_option gr_id) (checkExistingGrants regexTest now' rq (findByUser t' uid)) =
     map_sum id (map_option gr_id) (checkExistingGrants regexTest now' rq (findByUser t uid))"
proof -
  let ?f = "\<lambda>r. r\<lparr>gr_revokedAt := Some now, gr_revokedReason := Some reason, gr_updatedAt := now\<rparr>"
  have "t' = updateRow gr_id i ?f t"
    using assms by (auto simp: revoke_def Let_def split: option.splits)
  then show ?thesis
    using check_update_irrelevant [of regexTest now' rq ?f i "findByUser t uid"] findByUser_update [of ?f i t uid] by simp
qed

definition demoGrant :: PermissionGrant where
  "demoGrant = \<lparr>gr_id = ''g1'', gr_userId = ''u1'', gr_scope = ''default'', gr_action = ''tool:exec'',
     gr_resourcePattern = Some ''job'', gr_conditions = None, gr_riskLevelMax = None, gr_expiresAt = None,
     gr_sourceContext = None, gr_revokedAt = None, gr_revokedReason = None, gr_createdAt = 1, gr_updatedAt = 1\<rparr>"

theorem revocation_not_enforced_witness:
  "\<exists>g t'. revoke ''g1'' ''compromised'' 50 [demoGrant] = Inr (g, t') \<and> gr_revokedAt g = Some 50 \<and>
     map_sum id (map_option gr_id) (checkExistingGrants exactRegex 60 (demoRequest ModeAskOnWrite ''execute'' []) (findByUser t' ''u1'')) =
     Inr (Some ''g1'')"
proof -
  have "\<exists>g t'. revoke ''g1'' ''compromised'' 50 [demoGrant] = Inr (g, t') \<and> gr_revokedAt g = Some 50"
    by (simp add: revoke_def grantGetById_def demoGrant_def Let_def)
  then obtain g t' where r: "revoke ''g1'' ''compromised'' 50 [demoGrant] = Inr (g, t')" "gr_revokedAt g = Some 50"
    by blast
  have "checkExistingGrants exactRegex 60 (demoRequest ModeAskOnWrite ''execute'' []) (findByUser [demoGrant] ''u1'') = Inr (Some demoGrant)"
    by (simp add: findByUser_def demoGrant_def grantMatches_def demoRequest_def truthy_def exactRegex_def starToDotStar_def)
  with revocation_not_enforced [OF r(1), of exactRegex 60 "demoRequest ModeAskOnWrite ''execute'' []" "''u1''"] r
  show ?thesis by (auto simp: demoGrant_def)
qed

lemma processResponse_row:
  assumes "approvalGetById (hs_approvals s) (rs_requestId rs) = Some a" and "ar_status a = Pending"
    and "processResponse now gid rs s = (Inr res, s')"
  shows "rr_ok res \<and> rr_approved res = (rs_responseType rs \<noteq> Reject) \<and>
     (\<exists>b. ar_status b = (if rs_responseType rs = Reject then Rejected else Approved) \<and>
        (\<forall>k. approvalGetById (hs_approvals s') k = (if k = rs_requestId rs then Some b else approvalGetById (hs_approvals s) k)))"
proof -
  have upd: "ar_status r = st \<and> (\<forall>k. approvalGetById t k = (if k = rs_requestId rs then Some r else approvalGetById (hs_approvals s) k))"
    if "approvalUpdate (rs_requestId rs) (answer st rs why) now (hs_approvals s) = Inr (r, t)" for st why r t
  proof -
    note get = get_approvalUpdate [OF that]
    then obtain old where "r = applyApprovalUpdate (answer st rs why) now old" by blast
    then have "ar_status r = st" by (simp add: applyApprovalUpdate_def answer_def nullish_def)
    then show ?thesis using get by blast
  qed
  let ?st = "if rs_responseType rs = Reject then Rejected else Approved"
  let ?why = "if rs_responseType rs = Reject then Some (nullish (rs_reason rs) ''No reason provided'') else rs_reason rs"
  have "\<exists>r. approvalUpdate (rs_requestId rs) (answer ?st rs ?why) now (hs_approvals s) = Inr (r, hs_approvals s')"
    and "rr_ok res \<and> rr_approved res = (rs_responseType rs \<noteq> Reject)"
    using assms by (auto simp: processResponse_def handlerEvent_def Let_def split: if_splits sum.splits)
  then obtain r where "approvalUpdate (rs_requestId rs) (answer ?st rs ?why) now (hs_approvals s) = Inr (r, hs_approvals s')"
    and ok: "rr_ok res \<and> rr_approved res = (rs_responseType rs \<noteq> Reject)" by blast
  from upd [OF this(1)] ok show ?thesis by blast
qed

lemma approvalUpdate_found: "approvalGetById t i = Some a \<Longrightarrow> \<exists>r t'. approvalUpdate i u now t = Inr (r, t')"
  by (simp add: approvalUpdate_def Let_def)

lemma processResponse_succeeds:
  assumes "approvalGetById (hs_approvals s) (rs_requestId rs) = Some a" and "ar_status a = Pending"
    and "rs_responseType rs = ApproveAlways \<longrightarrow> gid \<notin> gr_id ` set (hs_grants s)"
  shows "\<exists>res s'. processResponse now gid rs s = (Inr res, s')"
proof (cases "rs_responseType rs = Reject")
  case True
  obtain r t where "approvalUpdate (rs_requestId rs) (answer Rejected rs (Some (nullish (rs_reason rs) ''No reason provided''))) now (hs_approvals s) = Inr (r, t)"
    using approvalUpdate_found [OF assms(1)] by blast
  then show ?thesis using assms(1,2) True by (simp add: processResponse_def)
next
  case False
  obtain r t where u: "approvalUpdate (rs_requestId rs) (answer Approved rs (rs_reason rs)) now (hs_approvals s) = Inr (r, t)"
    using approvalUpdate_found [OF assms(1)] by blast
  show ?thesis
  proof (cases "rs_responseType rs = ApproveAlways")
    case True
    then have "gid \<notin> set (map gr_id (hs_grants s))" using assms(3) by simp
    then obtain g gt where "grantCreate (grantFor now gid a rs) now (hs_grants s) = Inr (g, gt)"
      by (auto simp: grantCreate_def insertRow_def grantFor_def CreatePermissionGrant.defs Let_def)
    then show ?thesis using assms(1,2) False u True by (simp add: processResponse_def Let_def)
  next
    case other: False
    then show ?thesis using assms(1,2) False u by (simp add: processResponse_def Let_def)
  qed
qed

text \<open>
  C34: An approval is answered once: a response to a pending request succeeds, if the id for a new grant is not taken where one is
  created; it leaves the request rejected or approved as it says and every other request alone, and any further response to
  the request fails without an effect.
\<close>

theorem approval_answered_once:
  assumes "approvalGetById (hs_approvals s) (rs_requestId rs) = Some a" and "ar_status a = Pending"
    and "rs_responseType rs = ApproveAlways \<longrightarrow> gid \<notin> gr_id ` set (hs_grants s)" and "rs_requestId rs2 = rs_requestId rs"
  shows "\<exists>res s' b. processResponse now gid rs s = (Inr res, s') \<and> rr_ok res \<and> rr_approved res = (rs_responseType rs \<noteq> Reject) \<and>
     approvalGetById (hs_approvals s') (rs_requestId rs) = Some b \<and> ar_status b = (if rs_responseType rs = Reject then Rejected else Approved) \<and>
     (\<forall>k. k \<noteq> rs_requestId rs \<longrightarrow> approvalGetById (hs_approvals s') k = approvalGetById (hs_approvals s) k) \<and>
     (\<exists>res2. processResponse now2 gid2 rs2 s' = (Inr res2, s') \<and> \<not> rr_ok res2 \<and> \<not> rr_approved res2)"
proof -
  obtain res s' where run: "processResponse now gid rs s = (Inr res, s')" using processResponse_succeeds [OF assms(1-3)] by blast
  obtain b where b: "ar_status b = (if rs_responseType rs = Reject then Rejected else Approved)"
    and get: "\<forall>k. approvalGetById (hs_approvals s') k = (if k = rs_requestId rs then Some b else approvalGetById (hs_approvals s) k)"
    using processResponse_row [OF assms(1,2) run] by blast
  have "processResponse now2 gid2 rs2 s' = (Inr \<lparr>rr_ok = False, rr_approved = False, rr_grant = None,
      rr_problem = Some (''Approval request is not pending: '' @ approvalStateName (ar_status b))\<rparr>, s')"
    using b get assms(4) by (simp add: processResponse_def)
  then show ?thesis using processResponse_row [OF assms(1,2) run] run b get by auto
qed

definition demoHandler :: hstate where
  "demoHandler = \<lparr>hs_approvals = [CreateApprovalRequest.extend demoApproval \<lparr>ar_createdAt = 10, ar_updatedAt = 10\<rparr>],
     hs_grants = [], hs_events = []\<rparr>"

definition demoResponse :: ApprovalResponse where
  "demoResponse = \<lparr>rs_requestId = ''appr_1'', rs_responseType = ApproveAlways, rs_respondedBy = ''u1'', rs_reason = None,
     rs_respondedAt = 20, rs_grantScope = None, rs_grantDuration = None\<rparr>"

lemma demo_handler:
  "\<exists>a. approvalGetById (hs_approvals demoHandler) (rs_requestId demoResponse) = Some a \<and> ar_status a = Pending"
  "\<exists>res s'. processResponse 20 ''g1'' demoResponse demoHandler = (Inr res, s')"
  by (simp_all add: demoHandler_def demoResponse_def demoApproval_def approvalGetById_def CreateApprovalRequest.defs
      processResponse_def approvalUpdate_def grantCreate_def insertRow_def Let_def)

theorem approval_answered_once_witness:
  "\<exists>res s' res2. processResponse 20 ''g1'' demoResponse demoHandler = (Inr res, s') \<and> rr_approved res \<and>
     processResponse 30 ''g2'' demoResponse s' = (Inr res2, s') \<and> \<not> rr_ok res2"
proof -
  obtain a where a: "approvalGetById (hs_approvals demoHandler) (rs_requestId demoResponse) = Some a" "ar_status a = Pending"
    using demo_handler by blast
  have "rs_responseType demoResponse = ApproveAlways \<longrightarrow> ''g1'' \<notin> gr_id ` set (hs_grants demoHandler)" by (simp add: demoHandler_def)
  from approval_answered_once [OF a this refl, of 20 30 "''g2''"] show ?thesis by (auto simp: demoResponse_def)
qed

text \<open>
  \<open>approve_always\<close> pays off: the grant it stores lets the same action on the same resource pass the
  grant check, provided the resource, read as a pattern, matches itself and the grant has not expired.
\<close>

theorem approve_always_grants:
  assumes "approvalGetById (hs_approvals s) (rs_requestId rs) = Some a" and "ar_status a = Pending"
    and "rs_responseType rs = ApproveAlways" and "processResponse now gid rs s = (Inr res, s')"
    and "rq_actionType rq = ar_actionType a" and "rq_resource rq = ar_resource a" and "rq_scopeType rq = None"
    and "\<forall>p. ar_resource a = Some p \<longrightarrow> regexTest (''^'' @ starToDotStar p @ ''$'') p = Inr True"
    and "\<forall>d. rs_grantDuration rs = Some d \<longrightarrow> now' \<le> now + d"
  shows "\<exists>g. rr_grant res = Some g \<and> grantGetById (hs_grants s') gid = Some g \<and> gr_userId g = ar_userId a \<and>
     checkExistingGrants regexTest now' rq [g] = Inr (Some g)"
proof -
  let ?g = "CreatePermissionGrant.extend (grantFor now gid a rs) \<lparr>gr_revokedAt = None, gr_revokedReason = None, gr_createdAt = now, gr_updatedAt = now\<rparr>"
  obtain g gt where c: "grantCreate (grantFor now gid a rs) now (hs_grants s) = Inr (g, gt)" and "rr_grant res = Some g" "hs_grants s' = gt"
    using assms(1-4) by (auto simp: processResponse_def handlerEvent_def Let_def split: sum.splits)
  moreover have "g = ?g" and get: "grantGetById gt gid = Some ?g"
    using grants.create_result [OF c] grants.get_create [OF c, of gid] by (simp_all add: grantFor_def)
  moreover have "grantMatches regexTest now' rq ?g = Inr True"
    using assms(5-9)
    by (auto simp: grantMatches_def grantFor_def CreatePermissionGrant.defs truthy_def split: option.splits)
  ultimately show ?thesis by (auto simp: grantFor_def CreatePermissionGrant.defs)
qed

theorem approve_always_grants_witness:
  "\<exists>res s' g. processResponse 20 ''g1'' demoResponse demoHandler = (Inr res, s') \<and> rr_grant res = Some g \<and>
     checkExistingGrants exactRegex 90 ((demoRequest ModeAskOnWrite ''write'' [])\<lparr>rq_actionType := ''tool:file_write'',
       rq_resource := Some ''/tmp/a''\<rparr>) [g] = Inr (Some g)"
proof -
  obtain a res s' where a: "approvalGetById (hs_approvals demoHandler) (rs_requestId demoResponse) = Some a" "ar_status a = Pending"
    and run: "processResponse 20 ''g1'' demoResponse demoHandler = (Inr res, s')"
    using demo_handler by blast
  have fields: "ar_actionType a = ''tool:file_write''" "ar_resource a = Some ''/tmp/a''"
    using a(1) by (auto simp: demoHandler_def demoResponse_def demoApproval_def approvalGetById_def CreateApprovalRequest.defs)
  let ?rq = "(demoRequest ModeAskOnWrite ''write'' [])\<lparr>rq_actionType := ''tool:file_write'', rq_resource := Some ''/tmp/a''\<rparr>"
  have "\<exists>g. rr_grant res = Some g \<and> grantGetById (hs_grants s') ''g1'' = Some g \<and> gr_userId g = ar_userId a \<and>
      checkExistingGrants exactRegex 90 ?rq [g] = Inr (Some g)"
    by (rule approve_always_grants [OF a _ run])
       (simp_all add: fields demoResponse_def demoRequest_def exactRegex_def starToDotStar_def)
  then show ?thesis using run by blast
qed

end
