(* ===== verification/Planner_Runtime.thy ===== *)
theory Planner_Runtime
  imports Plan_Generation Dispatcher Lifecycle
begin

text \<open>
  The planner runtime (\<open>planner/planner-runtime.ts\<close>) over the plan store (\<open>storage/plan-store.ts\<close>), the
  planner run store (\<open>storage/planner-run-store.ts\<close>) and the runtime action store of theory
  \<^theory_text>\<open>Dispatcher\<close>. A planner run moves through a table of allowed transitions; every operation of the runtime
  is a definition over the tables, and the step relation of a run is what they do to its status.

  Statuses are strings, as in the tables. A checkpoint is a JSON object; its \<open>activeExecutionRefs\<close>, which the
  runtime reads, are a typed field and the rest an ordered map. A field given as \<open>undefined\<close> is \<open>None\<close> and
  does not survive serialisation. Arguments: the clock (one reading per operation) and the generated ids. The
  event log is the list of appended events with type, run and payload (in the list of changed checkpoint keys,
  \<open>activeExecutionRefs\<close> comes last). An operation returns \<open>Inl\<close> the message it
  throws, with the effects made before the throw.
\<close>

section \<open>Plans\<close>

record ExecutionPlanRecord =
  ep_planId :: string
  ep_userId :: string
  ep_sessionId :: "string option"
  ep_objective :: string
  ep_objectiveHash :: "string option"
  ep_status :: string
  ep_currentVersion :: nat
  ep_plannerRunIds :: "string list option"
  ep_steps :: "StoragePlanStep list"
  ep_constraints :: "string list option"
  ep_assumptions :: "string list option"
  ep_createdAt :: timestamp
  ep_updatedAt :: timestamp

text \<open>The \<open>Partial<ExecutionPlanRecord>\<close> fields that \<open>applyPatch\<close> reads from the patch text.\<close>

record patchData =
  pd_status :: "string option"
  pd_objective :: "string option"
  pd_steps :: "StoragePlanStep list option"
  pd_constraints :: "string list option"
  pd_assumptions :: "string list option"

record PlanPatch =
  pp_planId :: string
  pp_fromVersion :: nat
  pp_toVersion :: nat
  pp_patch :: patchData
  pp_sourcePlannerRunId :: "string option"
  pp_reason :: "string option"
  pp_createdAt :: timestamp

definition createPlan :: "ExecutionPlanRecord \<Rightarrow> ExecutionPlanRecord list \<Rightarrow> string + ExecutionPlanRecord list" where
  "createPlan plan t = insertRow ep_planId plan t"

definition getPlan :: "ExecutionPlanRecord list \<Rightarrow> string \<Rightarrow> ExecutionPlanRecord option" where
  "getPlan t planId = firstRow (\<lambda>r. ep_planId r = planId) t"

definition applyPatch ::
  "PlanPatch \<Rightarrow> timestamp \<Rightarrow> ExecutionPlanRecord list \<times> PlanPatch list \<Rightarrow> string + (ExecutionPlanRecord list \<times> PlanPatch list)" where
  "applyPatch patch now db = (case getPlan (fst db) (pp_planId patch) of
     None \<Rightarrow> Inl (''Plan not found: '' @ pp_planId patch)
   | Some currentPlan \<Rightarrow>
       if ep_currentVersion currentPlan \<noteq> pp_fromVersion patch
       then Inl (''Version mismatch: expected '' @ nat_str (pp_fromVersion patch) @ '', got '' @ nat_str (ep_currentVersion currentPlan))
       else let d = pp_patch patch in
         Inr (updateRow ep_planId (pp_planId patch) (\<lambda>r. r\<lparr>ep_currentVersion := pp_toVersion patch,
             ep_status := nullish (pd_status d) (ep_status currentPlan),
             ep_objective := nullish (pd_objective d) (ep_objective currentPlan),
             ep_steps := nullish (pd_steps d) (ep_steps currentPlan),
             ep_constraints := nullish_opt (pd_constraints d) (ep_constraints currentPlan),
             ep_assumptions := nullish_opt (pd_assumptions d) (ep_assumptions currentPlan),
             ep_updatedAt := now\<rparr>) (fst db), snd db @ [patch]))"

definition getPatches :: "PlanPatch list \<Rightarrow> string \<Rightarrow> PlanPatch list" where
  "getPatches t planId = sort_key pp_fromVersion (filter (\<lambda>r. pp_planId r = planId) t)"

definition findByObjectiveHash :: "ExecutionPlanRecord list \<Rightarrow> string \<Rightarrow> ExecutionPlanRecord list" where
  "findByObjectiveHash t h = orderByDesc ep_updatedAt (filter (\<lambda>r. ep_objectiveHash r = Some h) t)"

text \<open>\<open>plan.steps[stepIndex].status = status\<close> for the first step with the id.\<close>

fun setStepStatus :: "string \<Rightarrow> StepStatus \<Rightarrow> StoragePlanStep list \<Rightarrow> StoragePlanStep list" where
  "setStepStatus stepId status [] = []"
| "setStepStatus stepId status (s # steps) =
     (if sp_stepId s = stepId then s\<lparr>sp_status := status\<rparr> # steps else s # setStepStatus stepId status steps)"

definition updateStepStatus ::
  "string \<Rightarrow> string \<Rightarrow> StepStatus \<Rightarrow> timestamp \<Rightarrow> ExecutionPlanRecord list \<Rightarrow> string + ExecutionPlanRecord list" where
  "updateStepStatus planId stepId status now t = (case getPlan t planId of
     None \<Rightarrow> Inl (''Plan not found: '' @ planId)
   | Some plan \<Rightarrow>
       if stepId \<notin> set (map sp_stepId (ep_steps plan)) then Inl (''Step not found: '' @ stepId)
       else Inr (updateRow ep_planId planId
         (\<lambda>r. r\<lparr>ep_steps := setStepStatus stepId status (ep_steps plan), ep_updatedAt := now\<rparr>) t))"

definition updateSteps ::
  "string \<Rightarrow> StoragePlanStep list \<Rightarrow> timestamp \<Rightarrow> ExecutionPlanRecord list \<Rightarrow> string + ExecutionPlanRecord list" where
  "updateSteps planId steps now t = (case getPlan t planId of
     None \<Rightarrow> Inl (''Plan not found: '' @ planId)
   | Some plan \<Rightarrow> Inr (updateRow ep_planId planId (\<lambda>r. r\<lparr>ep_steps := steps, ep_updatedAt := now\<rparr>) t))"

section \<open>Planner runs\<close>

record ActiveExecutionRef =
  aref_refId :: string
  aref_refType :: string
  aref_status :: string
  aref_cancellationRequested :: bool

record Checkpoint =
  cp_refs :: "ActiveExecutionRef list option"
  cp_fields :: "(string, json) jsmap"

text \<open>Data spread over a checkpoint, and its spreading: later fields win, \<open>undefined\<close> fields disappear.\<close>

record checkpointData =
  cd_refs :: "ActiveExecutionRef list option"
  cd_fields :: "(string \<times> json option) list"

definition spreadField :: "string \<times> json option \<Rightarrow> (string, json) jsmap \<Rightarrow> (string, json) jsmap" where
  "spreadField f m = (case snd f of None \<Rightarrow> mapDelete (fst f) m | Some v \<Rightarrow> mapSet (fst f) v m)"

definition spread :: "Checkpoint \<Rightarrow> checkpointData \<Rightarrow> Checkpoint" where
  "spread c d = \<lparr>cp_refs = nullish_opt (cd_refs d) (cp_refs c), cp_fields = fold spreadField (cd_fields d) (cp_fields c)\<rparr>"

record PlannerRunRecord =
  run_plannerRunId :: string
  run_planId :: string
  run_userId :: string
  run_sessionId :: "string option"
  run_status :: string
  run_checkpoint :: "Checkpoint option"
  run_backgroundRunId :: "string option"
  run_workflowRunId :: "string option"
  run_createdAt :: timestamp
  run_updatedAt :: timestamp

definition RUN_STORE_TERMINAL_STATES :: "string list" where
  "RUN_STORE_TERMINAL_STATES = [''completed'', ''failed'', ''cancelled'', ''archived'']"

definition addPlannerRunToPlan :: "string \<Rightarrow> string \<Rightarrow> timestamp \<Rightarrow> ExecutionPlanRecord list \<Rightarrow> ExecutionPlanRecord list" where
  "addPlannerRunToPlan planId plannerRunId now t = (case getPlan t planId of
     None \<Rightarrow> t
   | Some plan \<Rightarrow> (let currentIds = nullish (ep_plannerRunIds plan) [] in
       if plannerRunId \<in> set currentIds then t
       else updateRow ep_planId planId (\<lambda>r. r\<lparr>ep_plannerRunIds := Some (currentIds @ [plannerRunId]), ep_updatedAt := now\<rparr>) t))"

definition runGetById :: "PlannerRunRecord list \<Rightarrow> string \<Rightarrow> PlannerRunRecord option" where
  "runGetById t i = firstRow (\<lambda>r. run_plannerRunId r = i) t"

definition runFindActive :: "PlannerRunRecord list \<Rightarrow> string \<Rightarrow> string option \<Rightarrow> PlannerRunRecord list" where
  "runFindActive t userId statusFilter = orderByDesc run_updatedAt (filter (\<lambda>r. run_userId r = userId \<and>
     (if truthy statusFilter then Some (run_status r) = statusFilter else run_status r \<notin> set RUN_STORE_TERMINAL_STATES)) t)"

definition runFindActiveBySession :: "PlannerRunRecord list \<Rightarrow> string \<Rightarrow> string option \<Rightarrow> PlannerRunRecord list" where
  "runFindActiveBySession t sessionId statusFilter = orderByDesc run_updatedAt (filter (\<lambda>r. run_sessionId r = Some sessionId \<and>
     (if truthy statusFilter then Some (run_status r) = statusFilter else run_status r \<notin> set RUN_STORE_TERMINAL_STATES)) t)"

definition runFindByUser :: "PlannerRunRecord list \<Rightarrow> string \<Rightarrow> PlannerRunRecord list" where
  "runFindByUser t userId = orderByDesc run_updatedAt (filter (\<lambda>r. run_userId r = userId) t)"

definition runUpdateStatus ::
  "string \<Rightarrow> string \<Rightarrow> Checkpoint option \<Rightarrow> timestamp \<Rightarrow> PlannerRunRecord list \<Rightarrow> PlannerRunRecord list" where
  "runUpdateStatus i status checkpoint now t =
     updateRow run_plannerRunId i (\<lambda>r. r\<lparr>run_status := status, run_checkpoint := checkpoint, run_updatedAt := now\<rparr>) t"

definition runUpdateBackgroundRunId :: "string \<Rightarrow> string \<Rightarrow> timestamp \<Rightarrow> PlannerRunRecord list \<Rightarrow> PlannerRunRecord list" where
  "runUpdateBackgroundRunId i backgroundRunId now t =
     updateRow run_plannerRunId i (\<lambda>r. r\<lparr>run_backgroundRunId := Some backgroundRunId, run_updatedAt := now\<rparr>) t"

section \<open>The state and its elementary operations\<close>

datatype PlannerStatePatchData =
    StateTransitionPatch "string option" string
  | PlanUpdatePatch string nat nat
  | ExecutionRefPatch string string string
  | CheckpointPatch "string list"

datatype plannerEvent =
    PatchEvent string PlannerStatePatchData
  | PlannerEvent string string "(string \<times> json) list"

record prstate =
  pr_plans :: "ExecutionPlanRecord list"
  pr_patches :: "PlanPatch list"
  pr_runs :: "PlannerRunRecord list"
  pr_actions :: "json actionTable"
  pr_events :: "plannerEvent list"

type_synonym 'a planner_op = "prstate \<Rightarrow> (string + 'a) \<times> prstate"

text \<open>Sequencing: an exception ends the operation and keeps the effects made before it.\<close>

definition andThen :: "'a planner_op \<Rightarrow> ('a \<Rightarrow> 'b planner_op) \<Rightarrow> 'b planner_op" where
  "andThen op f s = (case op s of (Inl e, s') \<Rightarrow> (Inl e, s') | (Inr x, s') \<Rightarrow> f x s')"

definition done_with :: "'a \<Rightarrow> 'a planner_op" where
  "done_with x s = (Inr x, s)"

definition throw :: "string \<Rightarrow> 'a planner_op" where
  "throw e s = (Inl e, s)"

definition onPlans :: "(ExecutionPlanRecord list \<Rightarrow> string + ExecutionPlanRecord list) \<Rightarrow> unit planner_op" where
  "onPlans f s = (case f (pr_plans s) of Inl e \<Rightarrow> (Inl e, s) | Inr t \<Rightarrow> (Inr (), s\<lparr>pr_plans := t\<rparr>))"

definition onRuns :: "(PlannerRunRecord list \<Rightarrow> PlannerRunRecord list) \<Rightarrow> unit planner_op" where
  "onRuns f s = (Inr (), s\<lparr>pr_runs := f (pr_runs s)\<rparr>)"

definition readPlan :: "string \<Rightarrow> ExecutionPlanRecord option planner_op" where
  "readPlan planId s = (Inr (getPlan (pr_plans s) planId), s)"

definition emitPlannerStatePatch :: "string \<Rightarrow> PlannerStatePatchData \<Rightarrow> unit planner_op" where
  "emitPlannerStatePatch plannerRunId data s = (Inr (), s\<lparr>pr_events := pr_events s @ [PatchEvent plannerRunId data]\<rparr>)"

definition appendEvent :: "string \<Rightarrow> string \<Rightarrow> (string \<times> json) list \<Rightarrow> unit planner_op" where
  "appendEvent eventType plannerRunId payload s =
     (Inr (), s\<lparr>pr_events := pr_events s @ [PlannerEvent eventType plannerRunId payload]\<rparr>)"

definition runCreate :: "PlannerRunRecord \<Rightarrow> timestamp \<Rightarrow> unit planner_op" where
  "runCreate run now s = (case insertRow run_plannerRunId run (pr_runs s) of
     Inl e \<Rightarrow> (Inl e, s)
   | Inr t \<Rightarrow> (Inr (), s\<lparr>pr_runs := t, pr_plans := addPlannerRunToPlan (run_planId run) (run_plannerRunId run) now (pr_plans s)\<rparr>))"

section \<open>The transition table\<close>

definition VALID_TRANSITIONS :: "(string list \<times> string) list" where
  "VALID_TRANSITIONS =
    [([''initializing''], ''planning''), ([''planning''], ''waiting_for_user''), ([''planning''], ''waiting_for_approval''),
     ([''planning''], ''waiting_for_execution_result''), ([''planning''], ''waiting_for_external_event''),
     ([''planning''], ''completed''), ([''planning''], ''failed''), ([''planning''], ''replanning''),
     ([''waiting_for_user''], ''planning''), ([''waiting_for_user''], ''failed''),
     ([''waiting_for_approval''], ''planning''), ([''waiting_for_approval''], ''replanning''), ([''waiting_for_approval''], ''failed''),
     ([''waiting_for_execution_result''], ''planning''), ([''waiting_for_execution_result''], ''completed''),
     ([''waiting_for_execution_result''], ''failed''), ([''waiting_for_external_event''], ''planning''),
     ([''waiting_for_external_event''], ''failed''), ([''replanning''], ''planning''), ([''replanning''], ''failed''),
     ([''planning''], ''paused''), ([''waiting_for_user''], ''paused''), ([''waiting_for_approval''], ''paused''),
     ([''waiting_for_execution_result''], ''paused''), ([''waiting_for_external_event''], ''paused''),
     ([''replanning''], ''paused''), ([''paused''], ''planning''), ([''paused''], ''failed'')]"

definition PLANNER_WAITING_STATES :: "string list" where
  "PLANNER_WAITING_STATES = [''waiting_for_user'', ''waiting_for_approval'', ''waiting_for_execution_result'', ''waiting_for_external_event'']"

definition PLANNER_TERMINAL_STATES :: "string list" where
  "PLANNER_TERMINAL_STATES = [''completed'', ''failed'', ''cancelled'']"

definition isValidTransition :: "string \<Rightarrow> string \<Rightarrow> bool" where
  "isValidTransition frm to =
     (if to = ''cancelled'' then True
      else find (\<lambda>t. frm \<in> set (fst t) \<and> snd t = to) VALID_TRANSITIONS \<noteq> None)"

section \<open>The operations of the runtime\<close>

definition getPlannerRun :: "string \<Rightarrow> PlannerRunRecord planner_op" where
  "getPlannerRun i s = (case runGetById (pr_runs s) i of
     None \<Rightarrow> (Inl (''PlannerRun not found: '' @ i), s)
   | Some run \<Rightarrow> (Inr run, s))"

definition unknownCheckpoint :: Checkpoint where
  "unknownCheckpoint = \<lparr>cp_refs = None, cp_fields = [(''step'', JStr ''unknown'')]\<rparr>"

definition transitionState :: "timestamp \<Rightarrow> string \<Rightarrow> string \<Rightarrow> checkpointData \<Rightarrow> unit planner_op" where
  "transitionState now i newState data = andThen (getPlannerRun i) (\<lambda>run.
     if \<not> isValidTransition (run_status run) newState
     then throw (''Invalid state transition from '' @ run_status run @ '' to '' @ newState)
     else andThen (onRuns (runUpdateStatus i newState (Some (spread (nullish (run_checkpoint run) unknownCheckpoint) data)) now))
       (\<lambda>_. emitPlannerStatePatch i (StateTransitionPatch (Some (run_status run)) newState)))"

definition checkpointFields :: "(string \<times> json option) list \<Rightarrow> checkpointData" where
  "checkpointFields fs = \<lparr>cd_refs = None, cd_fields = fs\<rparr>"

definition createRuntimeAction ::
  "timestamp \<Rightarrow> string \<Rightarrow> PlannerRunRecord \<Rightarrow> string \<Rightarrow> string \<Rightarrow> json \<Rightarrow> json RuntimeAction planner_op" where
  "createRuntimeAction now actionId run targetRuntime targetAction payload s =
     (let action = \<lparr>ac_actionId = actionId, ac_actionType = targetAction, ac_idempotencyKey = None,
        ac_sourceModule = Some ''planner'', ac_sourceAction = Some ''create_action'', ac_targetRuntime = targetRuntime,
        ac_targetAction = targetAction, ac_payload = payload, ac_correlationId = Some (run_plannerRunId run),
        ac_causationId = None, ac_sessionId = run_sessionId run, ac_userId = Some (run_userId run),
        ac_targetRef = Some \<lparr>tr_plannerRunId = Some (run_plannerRunId run), tr_planId = Some (run_planId run), tr_runId = None,
          tr_workflowRunId = None, tr_workflowStepRunId = None, tr_backgroundRunId = None, tr_subagentRunId = None,
          tr_toolCallId = None, tr_approvalId = None\<rparr>,
        ac_status = ''created'', ac_statusMessage = None, ac_result = None, ac_createdAt = now, ac_updatedAt = now\<rparr> in
      case actionSave action (pr_actions s) of
        Inl e \<Rightarrow> (Inl e, s)
      | Inr t \<Rightarrow> (Inr action, s\<lparr>pr_actions := t\<rparr>))"

definition defaultSteps :: "string \<Rightarrow> StoragePlanStep list" where
  "defaultSteps objective = map (\<lambda>(i, d, deps). \<lparr>sp_stepId = i, sp_description = d, sp_status = StepPending,
       sp_dependencies = Some deps, sp_kind = None, sp_executor = None, sp_toolName = None,
       sp_approvalRequirementId = None, sp_expectedOutput = None\<rparr>)
     [(''step_001'', ''Analyze objective: '' @ objective, []),
      (''step_002'', ''Execute required tool or agent action'', [''step_001'']),
      (''step_003'', ''Summarize result and update session'', [''step_002''])]"

record PlannerRunInput =
  in_objective :: string
  in_userId :: string
  in_sessionId :: "string option"
  in_steps :: "StoragePlanStep list option"

record PlannerRunResult =
  prr_plannerRunId :: string
  prr_planId :: string
  prr_status :: string
  prr_actions :: "(string \<times> string) list"
  prr_steps :: "StoragePlanStep list"

definition completeAction :: "timestamp \<Rightarrow> string \<Rightarrow> string \<Rightarrow> json \<Rightarrow> unit planner_op" where
  "completeAction now actionId message result s =
     (case updateStatus actionId ''completed'' (Some message) (Some result) now (pr_actions s) of
        Inl e \<Rightarrow> (Inl e, s) | Inr t \<Rightarrow> (Inr (), s\<lparr>pr_actions := t\<rparr>))"

definition createPlannerRun ::
  "timestamp \<Rightarrow> string \<Rightarrow> string \<Rightarrow> string \<Rightarrow> PlannerRunInput \<Rightarrow> PlannerRunResult planner_op" where
  "createPlannerRun now plannerRunId planId actionId input =
     (let steps = (if length (nullish (in_steps input) []) > 0 then the (in_steps input) else defaultSteps (in_objective input));
          plan = \<lparr>ep_planId = planId, ep_userId = in_userId input, ep_sessionId = in_sessionId input,
            ep_objective = in_objective input, ep_objectiveHash = None, ep_status = ''draft'', ep_currentVersion = 1,
            ep_plannerRunIds = Some [plannerRunId], ep_steps = steps, ep_constraints = None, ep_assumptions = None,
            ep_createdAt = now, ep_updatedAt = now\<rparr>;
          plannerRun = \<lparr>run_plannerRunId = plannerRunId, run_planId = planId, run_userId = in_userId input,
            run_sessionId = in_sessionId input, run_status = ''initializing'',
            run_checkpoint = Some \<lparr>cp_refs = None, cp_fields = [(''step'', JStr ''initialization''), (''objective'', JStr (in_objective input))]\<rparr>,
            run_backgroundRunId = None, run_workflowRunId = None, run_createdAt = now, run_updatedAt = now\<rparr> in
      andThen (onPlans (createPlan plan)) (\<lambda>_.
      andThen (runCreate plannerRun now) (\<lambda>_.
      andThen (createRuntimeAction now actionId plannerRun ''agent_kernel'' ''start_agent_run''
        (JObj [(''planId'', JStr planId), (''objective'', JStr (in_objective input))])) (\<lambda>action.
      andThen (emitPlannerStatePatch plannerRunId (StateTransitionPatch None ''initializing'')) (\<lambda>_.
      andThen (completeAction now actionId ''Bootstrap: planner run owns the kernel turn; no nested dispatch''
        (JObj [(''bootstrapWithoutKernel'', JBool True), (''planId'', JStr planId), (''plannerRunId'', JStr plannerRunId)])) (\<lambda>_.
      andThen (transitionState now plannerRunId ''planning''
        (checkpointFields [(''bootstrapped'', Some (JBool True)), (''bootstrapMode'', Some (JStr ''without_kernel''))])) (\<lambda>_.
      done_with \<lparr>prr_plannerRunId = plannerRunId, prr_planId = planId, prr_status = ''planning'',
        prr_actions = [(ac_actionId action, ''completed'')], prr_steps = steps\<rparr>)))))))"

definition resumePlannerRun :: "timestamp \<Rightarrow> string \<Rightarrow> string \<Rightarrow> json \<Rightarrow> PlannerRunResult planner_op" where
  "resumePlannerRun now i eventType eventPayload = andThen (getPlannerRun i) (\<lambda>run.
     if run_status run \<in> set PLANNER_TERMINAL_STATES \<or> run_status run = ''initializing''
     then throw (''Cannot resume from state: '' @ run_status run)
     else andThen (readPlan (run_planId run)) (\<lambda>p. case p of
         None \<Rightarrow> throw (''Plan not found: '' @ run_planId run)
       | Some plan \<Rightarrow>
           (let result = \<lparr>prr_plannerRunId = i, prr_planId = run_planId run, prr_status = ''planning'', prr_actions = [],
                  prr_steps = ep_steps plan\<rparr>;
                payload = [(''eventType'', JStr eventType), (''eventPayload'', eventPayload)] in
            if run_status run = ''planning'' then
              andThen (appendEvent ''planner_resumed'' i
                (payload @ [(''resumedFromPlanning'', JBool True), (''returnedContext'', JBool True)])) (\<lambda>_. done_with result)
            else if run_status run \<notin> set PLANNER_WAITING_STATES \<and> run_status run \<noteq> ''paused''
            then throw (''Cannot resume from state: '' @ run_status run)
            else
              andThen (appendEvent ''planner_resumed'' i payload) (\<lambda>_.
              andThen (transitionState now i ''planning'' (checkpointFields [(''resumedFrom'', Some (JStr (run_status run))),
                (''resumeEvent'', Some (JObj [(''eventType'', JStr eventType), (''payload'', eventPayload)]))])) (\<lambda>_.
              done_with result)))))"

fun completeSteps :: "timestamp \<Rightarrow> string \<Rightarrow> StoragePlanStep list \<Rightarrow> unit planner_op" where
  "completeSteps now planId [] = done_with ()"
| "completeSteps now planId (step # steps) =
     andThen (onPlans (updateStepStatus planId (sp_stepId step) StepCompleted now)) (\<lambda>_. completeSteps now planId steps)"

definition completePlannerRun :: "timestamp \<Rightarrow> json \<Rightarrow> string \<Rightarrow> string option \<Rightarrow> PlannerRunResult planner_op" where
  "completePlannerRun now nowText i summary = andThen (getPlannerRun i) (\<lambda>run.
     if run_status run \<in> set PLANNER_TERMINAL_STATES then
       andThen (readPlan (run_planId run)) (\<lambda>p.
         done_with \<lparr>prr_plannerRunId = i, prr_planId = run_planId run, prr_status = run_status run, prr_actions = [],
           prr_steps = (case p of None \<Rightarrow> [] | Some plan \<Rightarrow> ep_steps plan)\<rparr>)
     else if run_status run \<noteq> ''planning'' \<and> run_status run \<notin> set PLANNER_WAITING_STATES
     then throw (''Cannot complete run in state: '' @ run_status run)
     else
       andThen (if run_status run \<in> set PLANNER_WAITING_STATES
                then transitionState now i ''planning'' (checkpointFields [(''resumedForCompletion'', Some (JBool True))])
                else done_with ()) (\<lambda>_.
       andThen (readPlan (run_planId run)) (\<lambda>p. case p of
           None \<Rightarrow> throw (''Plan not found: '' @ run_planId run)
         | Some plan \<Rightarrow>
             andThen (completeSteps now (run_planId run) (ep_steps plan)) (\<lambda>_.
             andThen (transitionState now i ''completed'' (checkpointFields [(''summary'', map_option JStr summary), (''completedAt'', Some nowText)])) (\<lambda>_.
             andThen (readPlan (run_planId run)) (\<lambda>p'.
             done_with \<lparr>prr_plannerRunId = i, prr_planId = run_planId run, prr_status = ''completed'', prr_actions = [],
               prr_steps = (case p' of None \<Rightarrow> ep_steps plan | Some updatedPlan \<Rightarrow> ep_steps updatedPlan)\<rparr>))))))"

text \<open>\<open>{ ...checkpoint, k: v, ... }\<close> as the data passed on, and the checkpoint it is stored as.\<close>

definition extended :: "Checkpoint \<Rightarrow> (string \<times> json option) list \<Rightarrow> checkpointData" where
  "extended c new = \<lparr>cd_refs = cp_refs c,
     cd_fields = fold (\<lambda>(k, v). mapSet k v) new (map (\<lambda>(k, v). (k, Some v)) (cp_fields c))\<rparr>"

definition emptyCheckpoint :: Checkpoint where
  "emptyCheckpoint = \<lparr>cp_refs = None, cp_fields = []\<rparr>"

definition saveCheckpoint :: "timestamp \<Rightarrow> string \<Rightarrow> checkpointData \<Rightarrow> unit planner_op" where
  "saveCheckpoint now i data = andThen (getPlannerRun i) (\<lambda>run.
     andThen (onRuns (runUpdateStatus i (run_status run) (Some (spread emptyCheckpoint data)) now)) (\<lambda>_.
     emitPlannerStatePatch i (CheckpointPatch (map fst (cd_fields data) @
       (if cd_refs data = None then [] else [''activeExecutionRefs''])))))"

definition stepStatusName :: "StepStatus \<Rightarrow> string" where
  "stepStatusName st = (case st of StepPending \<Rightarrow> ''pending'' | StepInProgress \<Rightarrow> ''in_progress''
     | StepCompleted \<Rightarrow> ''completed'' | StepFailed \<Rightarrow> ''failed'')"

definition markStep :: "timestamp \<Rightarrow> json \<Rightarrow> string \<Rightarrow> string \<Rightarrow> StepStatus \<Rightarrow> string option \<Rightarrow> unit planner_op" where
  "markStep now nowText i stepId status result = andThen (getPlannerRun i) (\<lambda>run.
     if run_status run \<in> set PLANNER_TERMINAL_STATES
     then throw (''Cannot mark step on run in terminal state: '' @ run_status run)
     else andThen (onPlans (updateStepStatus (run_planId run) stepId status now)) (\<lambda>_.
       saveCheckpoint now i (extended (nullish (run_checkpoint run) emptyCheckpoint)
         [(''stepId'', Some (JStr stepId)), (''stepStatus'', Some (JStr (stepStatusName status))),
          (''stepResult'', map_option JStr result), (''markedAt'', Some nowText)])))"

definition setPlanSteps :: "timestamp \<Rightarrow> json \<Rightarrow> string \<Rightarrow> StoragePlanStep list \<Rightarrow> unit planner_op" where
  "setPlanSteps now nowText i steps = andThen (getPlannerRun i) (\<lambda>run.
     if run_status run \<in> set PLANNER_TERMINAL_STATES
     then throw (''Cannot set plan steps on run in terminal state: '' @ run_status run)
     else if length steps = 0 then throw ''Cannot set empty plan steps''
     else case duplicateErrors [] (map sp_stepId steps) of
         e # _ \<Rightarrow> throw (iss_message e)
       | [] \<Rightarrow> andThen (onPlans (updateSteps (run_planId run) steps now)) (\<lambda>_.
           saveCheckpoint now i (extended (nullish (run_checkpoint run) emptyCheckpoint)
             [(''planGeneratedAt'', Some nowText), (''stepCount'', Some (JNum (int (length steps))))])))"

definition getRuntimeForRefType :: "string \<Rightarrow> string" where
  "getRuntimeForRefType refType =
     (if refType = ''background_run'' then ''background_runner''
      else if refType = ''workflow_run'' then ''workflow_engine''
      else if refType = ''subagent_run'' then ''subagent_dispatcher''
      else if refType = ''kernel_run'' then ''kernel''
      else if refType = ''tool_execution'' then ''tool_executor''
      else ''unknown'')"

fun cancelRefs :: "timestamp \<Rightarrow> (nat \<Rightarrow> string) \<Rightarrow> nat \<Rightarrow> PlannerRunRecord \<Rightarrow> ActiveExecutionRef list \<Rightarrow> unit planner_op" where
  "cancelRefs now ids n run [] = done_with ()"
| "cancelRefs now ids n run (ref # refs) =
     andThen (createRuntimeAction now (ids n) run (getRuntimeForRefType (aref_refType ref)) ''cancel''
       (JObj [(''action'', JStr ''cancel''), (''targetRefId'', JStr (aref_refId ref)), (''targetRefType'', JStr (aref_refType ref)),
              (''reason'', JStr ''PlannerRun cancelled'')])) (\<lambda>_. cancelRefs now ids (Suc n) run refs)"

definition refJson :: "ActiveExecutionRef \<Rightarrow> json" where
  "refJson r = JObj [(''refId'', JStr (aref_refId r)), (''refType'', JStr (aref_refType r)), (''status'', JStr (aref_status r)),
     (''cancellationRequested'', JBool (aref_cancellationRequested r))]"

definition cancelPlannerRun :: "timestamp \<Rightarrow> json \<Rightarrow> (nat \<Rightarrow> string) \<Rightarrow> string \<Rightarrow> unit planner_op" where
  "cancelPlannerRun now nowText ids i = andThen (getPlannerRun i) (\<lambda>run.
     (let checkpoint = nullish (run_checkpoint run) unknownCheckpoint;
          updatedRefs = map (\<lambda>ref. ref\<lparr>aref_cancellationRequested := True\<rparr>) (nullish (cp_refs checkpoint) []) in
      andThen (cancelRefs now ids 0 run updatedRefs) (\<lambda>_.
      andThen (onRuns (runUpdateStatus i ''cancelled''
        (Some (spread checkpoint \<lparr>cd_refs = Some updatedRefs, cd_fields = [(''cancelledAt'', Some nowText)]\<rparr>)) now)) (\<lambda>_.
      appendEvent ''planner_cancelled'' i [(''activeRefs'', JArr (map refJson updatedRefs))]))))"

definition pausePlannerRun :: "timestamp \<Rightarrow> json \<Rightarrow> string \<Rightarrow> string option \<Rightarrow> unit planner_op" where
  "pausePlannerRun now nowText i reason = andThen (getPlannerRun i) (\<lambda>run.
     if run_status run \<in> set PLANNER_TERMINAL_STATES then throw (''Cannot pause run in state: '' @ run_status run)
     else andThen (transitionState now i ''paused'' (checkpointFields ((''pausedAt'', Some nowText) #
         (if truthy reason then [(''pauseReason'', map_option JStr reason)] else [])))) (\<lambda>_.
       appendEvent ''planner_paused'' i (if truthy reason then [(''reason'', JStr (the reason))] else [])))"

definition replan :: "timestamp \<Rightarrow> json \<Rightarrow> string \<Rightarrow> string \<Rightarrow> unit planner_op" where
  "replan now nowText i reason = andThen (getPlannerRun i) (\<lambda>run.
     andThen (transitionState now i ''replanning''
       (checkpointFields [(''replanReason'', Some (JStr reason)), (''replannedAt'', Some nowText)])) (\<lambda>_.
     appendEvent ''planner_replanning'' i [(''reason'', JStr reason)]))"

definition archivePlannerRun :: "timestamp \<Rightarrow> string \<Rightarrow> unit planner_op" where
  "archivePlannerRun now i = andThen (getPlannerRun i) (\<lambda>run.
     if run_status run \<notin> set PLANNER_TERMINAL_STATES then throw (''Cannot archive run in state: '' @ run_status run)
     else andThen (onRuns (runUpdateStatus i ''archived'' (run_checkpoint run) now)) (\<lambda>_.
       appendEvent ''planner_archived'' i [(''archivedFrom'', JStr (run_status run))]))"

definition handleApprovalRejection :: "timestamp \<Rightarrow> json \<Rightarrow> string \<Rightarrow> string \<Rightarrow> string \<Rightarrow> unit planner_op" where
  "handleApprovalRejection now nowText actionId i reason = andThen (getPlannerRun i) (\<lambda>run.
     if run_status run \<noteq> ''waiting_for_approval'' then throw (''Cannot reject from state: '' @ run_status run)
     else andThen (transitionState now i ''replanning''
         (checkpointFields [(''rejectionReason'', Some (JStr reason)), (''rejectedAt'', Some nowText)])) (\<lambda>_.
       andThen (createRuntimeAction now actionId run ''planner'' ''replan''
         (JObj [(''action'', JStr ''replan''), (''planId'', JStr (run_planId run)), (''reason'', JStr reason)])) (\<lambda>_.
       appendEvent ''plan_rejected'' i [(''reason'', JStr reason)])))"

definition onPlansAndPatches ::
  "(ExecutionPlanRecord list \<times> PlanPatch list \<Rightarrow> string + (ExecutionPlanRecord list \<times> PlanPatch list)) \<Rightarrow> unit planner_op" where
  "onPlansAndPatches f s = (case f (pr_plans s, pr_patches s) of
     Inl e \<Rightarrow> (Inl e, s) | Inr (t, ps) \<Rightarrow> (Inr (), s\<lparr>pr_plans := t, pr_patches := ps\<rparr>))"

definition applyPlanPatch :: "timestamp \<Rightarrow> string \<Rightarrow> patchData \<Rightarrow> unit planner_op" where
  "applyPlanPatch now i data = andThen (getPlannerRun i) (\<lambda>run. andThen (readPlan (run_planId run)) (\<lambda>p. case p of
     None \<Rightarrow> throw (''Plan not found: '' @ run_planId run)
   | Some plan \<Rightarrow>
       (let currentVersion = ep_currentVersion plan; newVersion = currentVersion + 1 in
        andThen (onPlansAndPatches (applyPatch \<lparr>pp_planId = run_planId run, pp_fromVersion = currentVersion,
          pp_toVersion = newVersion, pp_patch = data, pp_sourcePlannerRunId = Some i,
          pp_reason = Some ''Planner replanning update'', pp_createdAt = now\<rparr> now)) (\<lambda>_.
        emitPlannerStatePatch i (PlanUpdatePatch (run_planId run) currentVersion newVersion)))))"

fun putRef :: "ActiveExecutionRef \<Rightarrow> ActiveExecutionRef list \<Rightarrow> ActiveExecutionRef list" where
  "putRef ref [] = [ref]"
| "putRef ref (r # refs) = (if aref_refId r = aref_refId ref then ref # refs else r # putRef ref refs)"

definition addActiveExecutionRef :: "timestamp \<Rightarrow> string \<Rightarrow> ActiveExecutionRef \<Rightarrow> unit planner_op" where
  "addActiveExecutionRef now i ref = andThen (getPlannerRun i) (\<lambda>run.
     (let checkpoint = nullish (run_checkpoint run) unknownCheckpoint in
      andThen (onRuns (runUpdateStatus i (run_status run)
        (Some (checkpoint\<lparr>cp_refs := Some (putRef ref (nullish (cp_refs checkpoint) []))\<rparr>)) now)) (\<lambda>_.
      emitPlannerStatePatch i (ExecutionRefPatch (aref_refId ref) (aref_refType ref) (aref_status ref)))))"

definition emitRuntimeAction :: "timestamp \<Rightarrow> string \<Rightarrow> string \<Rightarrow> string \<Rightarrow> string \<Rightarrow> json \<Rightarrow> json RuntimeAction planner_op" where
  "emitRuntimeAction now actionId i targetRuntime targetAction payload = andThen (getPlannerRun i) (\<lambda>run.
     createRuntimeAction now actionId run targetRuntime targetAction payload)"

section \<open>Sequences of calls\<close>

text \<open>The calls of the runtime's interface with the clock readings and ids they use, and their effect on the tables.\<close>

datatype planner_call =
    CreateCall timestamp string string string PlannerRunInput
  | ResumeCall timestamp string string json
  | CompleteCall timestamp json string "string option"
  | MarkCall timestamp json string string StepStatus "string option"
  | SetStepsCall timestamp json string "StoragePlanStep list"
  | CancelCall timestamp json "nat \<Rightarrow> string" string
  | PauseCall timestamp json string "string option"
  | ReplanCall timestamp json string string
  | ArchiveCall timestamp string
  | TransitionCall timestamp string string checkpointData
  | RejectCall timestamp json string string string
  | PatchCall timestamp string patchData
  | AddRefCall timestamp string ActiveExecutionRef
  | EmitCall timestamp string string string string json
  | CheckpointCall timestamp string checkpointData

fun exec :: "planner_call \<Rightarrow> prstate \<Rightarrow> prstate" where
  "exec (CreateCall now runId planId actionId input) s = snd (createPlannerRun now runId planId actionId input s)"
| "exec (ResumeCall now i eventType payload) s = snd (resumePlannerRun now i eventType payload s)"
| "exec (CompleteCall now nowText i summary) s = snd (completePlannerRun now nowText i summary s)"
| "exec (MarkCall now nowText i stepId status result) s = snd (markStep now nowText i stepId status result s)"
| "exec (SetStepsCall now nowText i steps) s = snd (setPlanSteps now nowText i steps s)"
| "exec (CancelCall now nowText ids i) s = snd (cancelPlannerRun now nowText ids i s)"
| "exec (PauseCall now nowText i reason) s = snd (pausePlannerRun now nowText i reason s)"
| "exec (ReplanCall now nowText i reason) s = snd (replan now nowText i reason s)"
| "exec (ArchiveCall now i) s = snd (archivePlannerRun now i s)"
| "exec (TransitionCall now i newState data) s = snd (transitionState now i newState data s)"
| "exec (RejectCall now nowText actionId i reason) s = snd (handleApprovalRejection now nowText actionId i reason s)"
| "exec (PatchCall now i data) s = snd (applyPlanPatch now i data s)"
| "exec (AddRefCall now i ref) s = snd (addActiveExecutionRef now i ref s)"
| "exec (EmitCall now actionId i targetRuntime targetAction payload) s =
     snd (emitRuntimeAction now actionId i targetRuntime targetAction payload s)"
| "exec (CheckpointCall now i data) s = snd (saveCheckpoint now i data s)"

text \<open>The status changes the operations make: a transition of the table, or archiving a finished run.\<close>

definition moves :: "string \<Rightarrow> string \<Rightarrow> bool" where
  "moves a b = (isValidTransition a b \<or> (a \<in> set PLANNER_TERMINAL_STATES \<and> b = ''archived''))"

section \<open>A frame for all operations\<close>

text \<open>
  A relation between the tables before and after that the elementary table changes respect is respected by
  every operation. Instantiated below with the status relation and with the plan history invariant.
\<close>

locale planner_frame =
  fixes R :: "prstate \<Rightarrow> prstate \<Rightarrow> bool"
  assumes R_refl: "R s s"
    and R_trans: "R s s' \<Longrightarrow> R s' s'' \<Longrightarrow> R s s''"
    and R_events: "R s (s\<lparr>pr_events := evs\<rparr>)"
    and R_actions: "R s (s\<lparr>pr_actions := acts\<rparr>)"
    and R_status: "runGetById (pr_runs s) i = Some run \<Longrightarrow> status = run_status run \<or> moves (run_status run) status \<Longrightarrow>
      R s (s\<lparr>pr_runs := runUpdateStatus i status cp now (pr_runs s)\<rparr>)"
    and R_newRun: "insertRow run_plannerRunId run (pr_runs s) = Inr runs \<Longrightarrow> R s (s\<lparr>pr_runs := runs\<rparr>)"
    and R_plan: "(\<forall>r. ep_planId (f r) = ep_planId r \<and> ep_currentVersion (f r) = ep_currentVersion r) \<Longrightarrow>
      R s (s\<lparr>pr_plans := updateRow ep_planId k f (pr_plans s)\<rparr>)"
    and R_newPlan: "createPlan plan (pr_plans s) = Inr t \<Longrightarrow> ep_currentVersion plan = 1 \<Longrightarrow> R s (s\<lparr>pr_plans := t\<rparr>)"
    and R_patch: "applyPatch patch now (pr_plans s, pr_patches s) = Inr (t, ps) \<Longrightarrow>
      pp_toVersion patch = Suc (pp_fromVersion patch) \<Longrightarrow> R s (s\<lparr>pr_plans := t, pr_patches := ps\<rparr>)"
begin

definition ok :: "'a planner_op \<Rightarrow> bool" where
  "ok op = (\<forall>s. R s (snd (op s)))"

lemma ok_andThen: "ok op \<Longrightarrow> (\<And>x. ok (f x)) \<Longrightarrow> ok (andThen op f)"
  unfolding ok_def andThen_def by (auto split: prod.split sum.split) (metis R_trans snd_conv)+

lemma ok_run:
  assumes "\<And>run s. runGetById (pr_runs s) i = Some run \<Longrightarrow> R s (snd (f run s))"
  shows "ok (andThen (getPlannerRun i) f)"
  using assms by (auto simp: ok_def andThen_def getPlannerRun_def R_refl split: option.split)

lemma ok_elementary [simp]:
  "ok (done_with x)" "ok (throw e)" "ok (readPlan p)" "ok (emitPlannerStatePatch i d)" "ok (appendEvent e i payload)"
  by (simp_all add: ok_def done_with_def throw_def readPlan_def emitPlannerStatePatch_def appendEvent_def R_refl R_events)

lemma ok_action [simp]: "ok (createRuntimeAction now a run rt act payload)" "ok (completeAction now a msg r)"
  by (auto simp: ok_def createRuntimeAction_def completeAction_def Let_def R_refl R_actions split: sum.split)

lemma ok_step [simp]: "ok (onPlans (updateStepStatus p i st now))" "ok (onPlans (updateSteps p steps now))"
  by (auto simp: ok_def onPlans_def updateStepStatus_def updateSteps_def R_refl intro!: R_plan split: option.split)

lemma ok_runCreate [simp]: "ok (runCreate run now)"
proof -
  have "R (s\<lparr>pr_runs := t\<rparr>) (s\<lparr>pr_runs := t, pr_plans := addPlannerRunToPlan p i now (pr_plans s)\<rparr>)" for s t p i
    using R_plan [of _ "s\<lparr>pr_runs := t\<rparr>"] R_refl [of "s\<lparr>pr_runs := t\<rparr>"]
    by (auto simp: addPlannerRunToPlan_def Let_def split: option.split)
  then show ?thesis
    by (auto simp: ok_def runCreate_def R_refl intro: R_trans R_newRun split: sum.split)
qed

lemma ok_update:
  "runGetById (pr_runs s) i = Some run \<Longrightarrow> status = run_status run \<or> moves (run_status run) status \<Longrightarrow> (\<And>x. ok (f x)) \<Longrightarrow>
   R s (snd (andThen (onRuns (runUpdateStatus i status cp now)) f s))"
  using R_status [of s i run status cp now] by (auto simp: ok_def andThen_def onRuns_def intro: R_trans)

lemma ok_then: "ok op \<Longrightarrow> R s (snd (op s))"
  by (simp add: ok_def)

lemma ok_transition [simp]: "ok (transitionState now i newState data)"
  unfolding transitionState_def
  by (rule ok_run) (auto intro!: ok_update simp: moves_def throw_def R_refl)

lemma ok_saveCheckpoint [simp]: "ok (saveCheckpoint now i data)"
  unfolding saveCheckpoint_def by (rule ok_run) (auto intro!: ok_update)

lemma ok_completeSteps [simp]: "ok (completeSteps now p steps)"
  by (induction steps) (auto intro: ok_andThen)

lemma ok_cancelRefs [simp]: "ok (cancelRefs now ids n run refs)"
  by (induction refs arbitrary: n) (auto intro: ok_andThen)

lemma ok_create: "ok (createPlannerRun now runId planId actionId input)"
proof -
  have "ok (onPlans (createPlan plan))" if "ep_currentVersion plan = 1" for plan
    using that R_newPlan [of plan] by (auto simp: ok_def onPlans_def R_refl split: sum.split)
  then show ?thesis unfolding createPlannerRun_def Let_def by (auto intro!: ok_andThen)
qed

lemma ok_resume: "ok (resumePlannerRun now i eventType payload)"
  unfolding resumePlannerRun_def Let_def
  by (rule ok_run) (auto intro!: ok_then ok_andThen split: option.split)

lemma ok_complete: "ok (completePlannerRun now nowText i summary)"
  unfolding completePlannerRun_def
  by (rule ok_run) (auto intro!: ok_then ok_andThen split: option.split)

lemma ok_mark: "ok (markStep now nowText i stepId status result)"
  unfolding markStep_def by (rule ok_run) (auto intro!: ok_then ok_andThen)

lemma ok_setSteps: "ok (setPlanSteps now nowText i steps)"
  unfolding setPlanSteps_def by (rule ok_run) (auto intro!: ok_then ok_andThen split: list.split)

lemma ok_cancel: "ok (cancelPlannerRun now nowText ids i)"
  unfolding cancelPlannerRun_def Let_def
proof (rule ok_run)
  fix run :: PlannerRunRecord and s :: prstate
  let ?refs = "map (\<lambda>ref. ref\<lparr>aref_cancellationRequested := True\<rparr>) (nullish (cp_refs (nullish (run_checkpoint run) unknownCheckpoint)) [])"
  let ?f = "\<lambda>_. andThen (onRuns (runUpdateStatus i ''cancelled'' (Some (spread (nullish (run_checkpoint run) unknownCheckpoint)
      \<lparr>cd_refs = Some ?refs, cd_fields = [(''cancelledAt'', Some nowText)]\<rparr>)) now)) (\<lambda>_. appendEvent ''planner_cancelled'' i
      [(''activeRefs'', JArr (map refJson ?refs))])"
  assume run: "runGetById (pr_runs s) i = Some run"
  have keep: "pr_runs (snd (cancelRefs now ids n run refs s)) = pr_runs s" for n refs s
    by (induction refs arbitrary: n s)
      (auto simp: andThen_def createRuntimeAction_def Let_def done_with_def split: sum.split)
  have "R s' (snd (?f x s'))" if "s' = snd (cancelRefs now ids 0 run ?refs s)" for s' x
    using run keep that by (intro ok_update) (auto simp: moves_def isValidTransition_def)
  moreover have "R s (snd (cancelRefs now ids 0 run ?refs s))" by (rule ok_then) simp
  ultimately show "R s (snd (andThen (cancelRefs now ids 0 run ?refs) ?f s))"
    by (auto simp: andThen_def intro: R_trans split: prod.split sum.split)
qed

lemma ok_pause: "ok (pausePlannerRun now nowText i reason)"
  unfolding pausePlannerRun_def by (rule ok_run) (auto intro!: ok_then ok_andThen)

lemma ok_replan: "ok (replan now nowText i reason)"
  unfolding replan_def by (rule ok_run) (auto intro!: ok_then ok_andThen)

lemma ok_archive: "ok (archivePlannerRun now i)"
  unfolding archivePlannerRun_def by (rule ok_run) (auto intro!: ok_update simp: moves_def throw_def R_refl)

lemma ok_reject: "ok (handleApprovalRejection now nowText actionId i reason)"
  unfolding handleApprovalRejection_def by (rule ok_run) (auto intro!: ok_then ok_andThen)

lemma ok_applyPatch: "ok (applyPlanPatch now i data)"
proof -
  have patch: "ok (onPlansAndPatches (applyPatch p now))" if "pp_toVersion p = Suc (pp_fromVersion p)" for p
    using that R_patch [of p now] by (auto simp: ok_def onPlansAndPatches_def R_refl split: sum.split prod.split)
  show ?thesis unfolding applyPlanPatch_def Let_def
    by (rule ok_run) (auto intro!: ok_then ok_andThen patch split: option.split)
qed

lemma ok_addRef: "ok (addActiveExecutionRef now i ref)"
  unfolding addActiveExecutionRef_def Let_def by (rule ok_run) (auto intro!: ok_update)

lemma ok_emit: "ok (emitRuntimeAction now actionId i rt act payload)"
  unfolding emitRuntimeAction_def by (rule ok_run) (auto intro!: ok_then)

lemma exec_respects: "R s (exec c s)"
  by (cases c) (auto intro!: ok_then ok_create ok_resume ok_complete ok_mark ok_setSteps ok_cancel ok_pause ok_replan
      ok_archive ok_reject ok_applyPatch ok_addRef ok_emit)

lemma execs_respect: "R s (fold exec cs s)"
  by (induction cs arbitrary: s) (auto intro: R_refl R_trans exec_respects)

end

section \<open>The status of a run\<close>

definition statusOf :: "prstate \<Rightarrow> string \<Rightarrow> string option" where
  "statusOf s i = map_option run_status (runGetById (pr_runs s) i)"

definition followsTable :: "prstate \<Rightarrow> prstate \<Rightarrow> bool" where
  "followsTable s s' = (\<forall>i a. statusOf s i = Some a \<longrightarrow> (\<exists>b. statusOf s' i = Some b \<and> moves\<^sup>*\<^sup>* a b))"

lemma statusOf_frame [simp]:
  "statusOf (s\<lparr>pr_events := e\<rparr>) i = statusOf s i" "statusOf (s\<lparr>pr_actions := acts\<rparr>) i = statusOf s i"
  "statusOf (s\<lparr>pr_plans := t\<rparr>) i = statusOf s i" "statusOf (s\<lparr>pr_patches := ps\<rparr>) i = statusOf s i"
  by (simp_all add: statusOf_def)

lemma runGetById_update:
  "runGetById (runUpdateStatus i status cp now t) j = (if j = i
     then map_option (\<lambda>r. r\<lparr>run_status := status, run_checkpoint := cp, run_updatedAt := now\<rparr>) (runGetById t i)
     else runGetById t j)"
  by (induction t) (auto simp: runGetById_def runUpdateStatus_def updateRow_def firstRow_Cons)

lemma statusOf_update:
  "statusOf (s\<lparr>pr_runs := runUpdateStatus i status cp now (pr_runs s)\<rparr>) j =
     (if j = i \<and> statusOf s i \<noteq> None then Some status else statusOf s j)"
  by (auto simp: statusOf_def runGetById_update)

interpretation pst: planner_frame followsTable
proof (unfold_locales, goal_cases)
  case (2 s s' s'')
  then show ?case unfolding followsTable_def by (meson rtranclp_trans)
next
  case (5 s i run status cp now)
  then show ?case by (auto simp: followsTable_def statusOf_update) (auto simp: statusOf_def)
next
  case (6 run s runs)
  then show ?case
    by (auto simp: followsTable_def statusOf_def insertRow_def runGetById_def firstRow_append split: if_splits option.splits)
qed (auto simp: followsTable_def)

lemma moves_table: "moves a b \<Longrightarrow> b = ''cancelled'' \<or> (a \<in> set PLANNER_TERMINAL_STATES \<and> b = ''archived'') \<or>
    (\<exists>froms. (froms, b) \<in> set VALID_TRANSITIONS \<and> a \<in> set froms)"
  by (auto simp: moves_def isValidTransition_def find_None_all split: if_splits)

lemma finished_moves:
  "moves a b \<Longrightarrow> a \<in> {''completed'', ''failed'', ''cancelled'', ''archived''} \<Longrightarrow> b \<in> {''cancelled'', ''archived''}"
proof -
  assume m: "moves a b" and a: "a \<in> {''completed'', ''failed'', ''cancelled'', ''archived''}"
  have "list_all (\<lambda>t. list_all (\<lambda>x. x \<notin> set [''completed'', ''failed'', ''cancelled'', ''archived'']) (fst t)) VALID_TRANSITIONS"
    by code_simp
  then have "a \<notin> set froms" if "(froms, b) \<in> set VALID_TRANSITIONS" for froms
    using that a by (fastforce simp: list_all_iff)
  then show ?thesis using moves_table [OF m] by blast
qed

lemma finished_rtranclp:
  "moves\<^sup>*\<^sup>* a b \<Longrightarrow> a \<in> {''completed'', ''failed'', ''cancelled'', ''archived''} \<Longrightarrow> b \<in> {a, ''cancelled'', ''archived''}"
proof (induction rule: rtranclp_induct)
  case (step b c)
  then have "b \<in> {''completed'', ''failed'', ''cancelled'', ''archived''}" by auto
  with step.hyps(2) have "c \<in> {''cancelled'', ''archived''}" by (rule finished_moves)
  then show ?case by blast
qed simp

text \<open>
  C27: A planner run never leaves its state machine: whatever sequence of calls the runtime executes, a run
  stays in the store and its status changes only along the transition table, by cancellation, or from a
  finished status to \<open>archived\<close>; so a finished run never becomes active again.
\<close>

theorem planner_runs_follow_table:
  assumes "statusOf s i = Some a"
  shows "\<exists>b. statusOf (fold exec cs s) i = Some b \<and> moves\<^sup>*\<^sup>* a b \<and>
     (a \<in> {''completed'', ''failed'', ''cancelled'', ''archived''} \<longrightarrow> b \<in> {a, ''cancelled'', ''archived''})"
  using pst.execs_respect [of s cs] assms finished_rtranclp unfolding followsTable_def by blast

definition demoRun :: "string \<Rightarrow> PlannerRunRecord" where
  "demoRun status = \<lparr>run_plannerRunId = ''r'', run_planId = ''p'', run_userId = ''u'', run_sessionId = None, run_status = status,
     run_checkpoint = None, run_backgroundRunId = None, run_workflowRunId = None, run_createdAt = 0, run_updatedAt = 0\<rparr>"

definition demoTables :: "string \<Rightarrow> prstate" where
  "demoTables status = \<lparr>pr_plans = [\<lparr>ep_planId = ''p'', ep_userId = ''u'', ep_sessionId = None, ep_objective = ''o'',
     ep_objectiveHash = None, ep_status = ''draft'', ep_currentVersion = 1, ep_plannerRunIds = Some [''r''],
     ep_steps = defaultSteps ''o'', ep_constraints = None, ep_assumptions = None, ep_createdAt = 0, ep_updatedAt = 0\<rparr>],
     pr_patches = [], pr_runs = [demoRun status], pr_actions = [], pr_events = []\<rparr>"

theorem planner_runs_follow_table_witness:
  "\<exists>b. statusOf (fold exec [CancelCall 1 JNull (\<lambda>n. nat_str n) ''r'', ResumeCall 2 ''r'' ''e'' JNull] (demoTables ''completed'')) ''r'' = Some b \<and>
     b \<in> {''completed'', ''cancelled'', ''archived''}"
proof -
  have "statusOf (demoTables ''completed'') ''r'' = Some ''completed''" by code_simp
  from planner_runs_follow_table [OF this, of "[CancelCall 1 JNull (\<lambda>n. nat_str n) ''r'', ResumeCall 2 ''r'' ''e'' JNull]"]
  show ?thesis by blast
qed

text \<open>
  Outside the finished states the runtime's own table and the shared lifecycle rules agree: every status
  change the planner runtime makes is a transition the shared planner validator accepts. Finished runs are
  where they differ, because the runtime cancels and archives them.
\<close>

theorem planner_moves_accepted:
  assumes "moves a b" "a \<in> set PLANNER_STATES" "b \<in> set PLANNER_STATES"
  shows "tr_valid (validatePlannerTransition a b) \<longleftrightarrow> a \<notin> {''completed'', ''failed'', ''cancelled'', ''archived''}"
proof -
  have "a \<in> set TERMINAL_STATES \<longleftrightarrow> a \<in> {''completed'', ''failed'', ''cancelled'', ''archived''}"
    using assms(2) by (auto simp: TERMINAL_STATES_def PLANNER_STATES_def)
  then show ?thesis
    using assms(2,3) by (auto simp: validatePlannerTransition_def Let_def isValidState_def checkTerminalTransition_def
        createSuccess_def createFailure_def)
qed

theorem planner_moves_accepted_witness:
  "tr_valid (validatePlannerTransition ''planning'' ''paused'') \<longleftrightarrow> ''planning'' \<notin> {''completed'', ''failed'', ''cancelled'', ''archived''}"
  by (rule planner_moves_accepted) code_simp+

text \<open>
  Cancelling is not guarded: \<open>cancelPlannerRun\<close> succeeds on every run of the store, also on a completed,
  failed or archived one, whose outcome is overwritten with \<open>cancelled\<close> (unless a fresh action id is taken).
\<close>

theorem cancel_overwrites_outcome:
  assumes "statusOf s i = Some a" "cancelPlannerRun now nowText ids i s = (Inr u, s')"
  shows "statusOf s' i = Some ''cancelled''"
proof -
  have keep: "pr_runs (snd (cancelRefs now ids n run refs s)) = pr_runs s" for n run refs s
    by (induction refs arbitrary: n s)
      (auto simp: andThen_def createRuntimeAction_def Let_def done_with_def split: sum.split)
  show ?thesis
    using assms unfolding cancelPlannerRun_def
    by (auto simp: andThen_def getPlannerRun_def onRuns_def appendEvent_def Let_def statusOf_def runGetById_update
        dest!: arg_cong [where f = "\<lambda>x. pr_runs (snd x)"] simp: keep split: option.splits prod.splits sum.splits)
qed

theorem cancel_overwrites_outcome_witness:
  "statusOf (snd (cancelPlannerRun 1 JNull (\<lambda>n. nat_str n) ''r'' (demoTables ''completed''))) ''r'' = Some ''cancelled''"
proof -
  have st: "statusOf (demoTables ''completed'') ''r'' = Some ''completed''" by code_simp
  obtain u s' where run: "cancelPlannerRun 1 JNull (\<lambda>n. nat_str n) ''r'' (demoTables ''completed'') = (Inr u, s')"
    by (auto simp: cancelPlannerRun_def andThen_def getPlannerRun_def onRuns_def appendEvent_def Let_def demoTables_def demoRun_def
        runGetById_def firstRow_Cons unknownCheckpoint_def nullish_def done_with_def)
  from cancel_overwrites_outcome [OF st run] run show ?thesis by simp
qed

section \<open>Plan versions\<close>

definition versionsOf :: "prstate \<Rightarrow> string \<Rightarrow> (nat \<times> nat) list" where
  "versionsOf s p = map (\<lambda>r. (pp_fromVersion r, pp_toVersion r)) (filter (\<lambda>r. pp_planId r = p) (pr_patches s))"

definition historyInv :: "prstate \<Rightarrow> bool" where
  "historyInv s = (wf_table ep_planId (pr_plans s) \<and> set (map pp_planId (pr_patches s)) \<subseteq> set (map ep_planId (pr_plans s)) \<and>
     (\<forall>plan \<in> set (pr_plans s). ep_currentVersion plan \<ge> 1 \<and>
        versionsOf s (ep_planId plan) = map (\<lambda>v. (v, Suc v)) [1..<ep_currentVersion plan]))"

lemma historyInv_frame [simp]:
  "historyInv (s\<lparr>pr_events := e\<rparr>) = historyInv s" "historyInv (s\<lparr>pr_actions := acts\<rparr>) = historyInv s"
  "historyInv (s\<lparr>pr_runs := runs\<rparr>) = historyInv s"
  by (simp_all add: historyInv_def versionsOf_def)

lemma map_updateRow_key: "\<forall>r. key (f r) = key r \<Longrightarrow> map key (updateRow key k f t) = map key t"
  by (simp add: updateRow_def)

lemma historyInv_plan:
  assumes "\<forall>r. ep_planId (f r) = ep_planId r \<and> ep_currentVersion (f r) = ep_currentVersion r" "historyInv s"
  shows "historyInv (s\<lparr>pr_plans := updateRow ep_planId k f (pr_plans s)\<rparr>)"
  using assms by (auto simp: historyInv_def wf_table_def versionsOf_def map_updateRow_key) (auto simp: updateRow_def)

lemma historyInv_newPlan:
  assumes "createPlan plan (pr_plans s) = Inr t" "ep_currentVersion plan = 1" "historyInv s"
  shows "historyInv (s\<lparr>pr_plans := t\<rparr>)"
proof -
  have new: "t = pr_plans s @ [plan]" "ep_planId plan \<notin> set (map ep_planId (pr_plans s))"
    using assms(1) by (auto simp: createPlan_def insertRow_def split: if_splits)
  have sub: "set (map pp_planId (pr_patches s)) \<subseteq> set (map ep_planId (pr_plans s))" using assms(3) by (simp add: historyInv_def)
  have "pp_planId r \<noteq> ep_planId plan" if "r \<in> set (pr_patches s)" for r
  proof -
    have "pp_planId r \<in> set (map pp_planId (pr_patches s))" using that by simp
    then have "pp_planId r \<in> set (map ep_planId (pr_plans s))" using sub by (rule rev_subsetD)
    then show ?thesis using new(2) by metis
  qed
  then have "filter (\<lambda>r. pp_planId r = ep_planId plan) (pr_patches s) = []" by (simp add: filter_empty_conv)
  then show ?thesis using assms(2,3) new by (auto simp: historyInv_def versionsOf_def wf_table_def)
qed

lemma getPlan_mem: "getPlan t p = Some plan \<Longrightarrow> plan \<in> set t \<and> ep_planId plan = p"
  by (induction t) (auto simp: getPlan_def firstRow_Cons split: if_splits)

lemma historyInv_patch:
  assumes "applyPatch patch now (pr_plans s, pr_patches s) = Inr (t, ps)" "pp_toVersion patch = Suc (pp_fromVersion patch)"
    "historyInv s"
  shows "historyInv (s\<lparr>pr_plans := t, pr_patches := ps\<rparr>)"
proof -
  let ?p = "pp_planId patch"
  obtain plan f where plan: "getPlan (pr_plans s) ?p = Some plan" "ep_currentVersion plan = pp_fromVersion patch"
      "t = updateRow ep_planId ?p f (pr_plans s)" "ps = pr_patches s @ [patch]"
      and f: "\<forall>r. ep_planId (f r) = ep_planId r" "\<forall>r. ep_currentVersion (f r) = pp_toVersion patch"
    using assms(1) by (auto simp: applyPatch_def Let_def split: option.splits if_splits)
  have mem: "plan \<in> set (pr_plans s)" "ep_planId plan = ?p"
    using getPlan_mem [OF plan(1)] by auto
  have uniq: "q = plan" if "q \<in> set (pr_plans s)" "ep_planId q = ?p" for q
  proof -
    have "inj_on ep_planId (set (pr_plans s))" using assms(3) by (simp add: historyInv_def wf_table_def distinct_map)
    then show ?thesis using that mem by (metis inj_onD)
  qed
  have row: "(q \<in> set (pr_plans s) \<and> ep_planId q \<noteq> ?p) \<or> q = f plan" if "q \<in> set t" for q
    using that uniq plan(3) by (auto simp: updateRow_def split: if_splits)
  have v: "versionsOf s ?p = map (\<lambda>v. (v, Suc v)) [1..<pp_fromVersion patch]" "pp_fromVersion patch \<ge> 1"
    using mem plan(2) assms(3) by (auto simp: historyInv_def)
  have ids: "map ep_planId t = map ep_planId (pr_plans s)" using plan(3) f(1) by (simp add: map_updateRow_key)
  have new: "versionsOf (s\<lparr>pr_plans := t, pr_patches := ps\<rparr>) ?p = map (\<lambda>v. (v, Suc v)) [1..<pp_toVersion patch]"
    using v plan(4) assms(2) by (simp add: versionsOf_def)
  have old: "versionsOf (s\<lparr>pr_plans := t, pr_patches := ps\<rparr>) q = versionsOf s q" if "q \<noteq> ?p" for q
    using that plan(4) by (simp add: versionsOf_def)
  have each: "ep_currentVersion q \<ge> 1 \<and>
      versionsOf (s\<lparr>pr_plans := t, pr_patches := ps\<rparr>) (ep_planId q) = map (\<lambda>v. (v, Suc v)) [1..<ep_currentVersion q]"
    if "q \<in> set t" for q
    using row [OF that] new old f mem(2) assms(2,3) by (auto simp: historyInv_def)
  have sub: "set (map pp_planId ps) \<subseteq> set (map ep_planId t)"
    using assms(3) mem(1) mem(2) [symmetric] plan(4) unfolding ids by (simp add: historyInv_def)
  show ?thesis using each sub ids assms(3) by (simp add: historyInv_def wf_table_def)
qed

interpretation hist: planner_frame "\<lambda>s s'. historyInv s \<longrightarrow> historyInv s'"
  by unfold_locales (auto intro: historyInv_plan historyInv_newPlan historyInv_patch)

text \<open>
  C35: Plan versions form an unbroken history: starting from an empty store, after any sequence of calls the
  patches of every plan lead from version 1 to its current version in steps of one, in the order they were
  applied, and no patch belongs to a plan that does not exist.
\<close>

theorem plan_history_contiguous:
  "let s = fold exec cs \<lparr>pr_plans = [], pr_patches = [], pr_runs = runs, pr_actions = actions, pr_events = events\<rparr> in
   list_all (\<lambda>plan. versionsOf s (ep_planId plan) = map (\<lambda>v. (v, Suc v)) [1..<ep_currentVersion plan]) (pr_plans s) \<and>
   set (map pp_planId (pr_patches s)) \<subseteq> set (map ep_planId (pr_plans s)) \<and> distinct (map ep_planId (pr_plans s))"
proof -
  have "historyInv \<lparr>pr_plans = [], pr_patches = [], pr_runs = runs, pr_actions = actions, pr_events = events\<rparr>"
    by (simp add: historyInv_def wf_table_def)
  then have "historyInv (fold exec cs \<lparr>pr_plans = [], pr_patches = [], pr_runs = runs, pr_actions = actions, pr_events = events\<rparr>)"
    using hist.execs_respect by blast
  then show ?thesis by (auto simp: historyInv_def wf_table_def list_all_iff Let_def)
qed

section \<open>Completing a run\<close>

lemma setStepStatus_ids [simp]: "map sp_stepId (setStepStatus i st steps) = map sp_stepId steps"
  by (induction steps) auto

lemma setStepStatus_other:
  "sp_stepId s \<noteq> i \<Longrightarrow> s \<in> set (setStepStatus i st steps) \<Longrightarrow> s \<in> set steps"
  by (induction steps) (auto split: if_splits)

lemma setStepStatus_done:
  "distinct (map sp_stepId steps) \<Longrightarrow> s \<in> set (setStepStatus i st steps) \<Longrightarrow> sp_stepId s = i \<Longrightarrow> sp_status s = st"
proof (induction steps)
  case (Cons t steps)
  show ?case
  proof (cases "sp_stepId t = i")
    case True
    have "sp_stepId s \<notin> set (map sp_stepId steps)" using Cons.prems(1,3) True by simp
    then have "s \<notin> set steps" by auto
    then have "s = t\<lparr>sp_status := st\<rparr>" using Cons.prems(2) True by simp
    then show ?thesis by simp
  next
    case False
    then have "s \<in> set (setStepStatus i st steps)" using Cons.prems(2,3) by auto
    then show ?thesis using Cons.IH Cons.prems(1,3) by simp
  qed
qed simp

lemma getPlan_updateRow:
  "\<forall>r. ep_planId (f r) = ep_planId r \<Longrightarrow>
   getPlan (updateRow ep_planId k f t) p = (if p = k then map_option f (getPlan t k) else getPlan t p)"
  by (induction t) (auto simp: getPlan_def updateRow_def firstRow_Cons)

text \<open>The loop over the steps reaches the end and leaves every listed step completed.\<close>

lemma completeSteps_spec:
  assumes "getPlan (pr_plans s) p = Some plan" "distinct (map sp_stepId (ep_steps plan))"
    "set (map sp_stepId todo) \<subseteq> set (map sp_stepId (ep_steps plan))"
    "\<forall>x \<in> set (ep_steps plan). sp_stepId x \<notin> set (map sp_stepId todo) \<longrightarrow> sp_status x = StepCompleted"
  shows "\<exists>s' plan'. completeSteps now p todo s = (Inr (), s') \<and> pr_runs s' = pr_runs s \<and> getPlan (pr_plans s') p = Some plan' \<and>
     map sp_stepId (ep_steps plan') = map sp_stepId (ep_steps plan) \<and> (\<forall>x \<in> set (ep_steps plan'). sp_status x = StepCompleted)"
  using assms
proof (induction todo arbitrary: s plan)
  case Nil
  then show ?case by (auto simp: done_with_def)
next
  case (Cons x todo)
  let ?plan = "plan\<lparr>ep_steps := setStepStatus (sp_stepId x) StepCompleted (ep_steps plan), ep_updatedAt := now\<rparr>"
  let ?s = "s\<lparr>pr_plans := updateRow ep_planId p (\<lambda>r. r\<lparr>ep_steps := setStepStatus (sp_stepId x) StepCompleted (ep_steps plan),
      ep_updatedAt := now\<rparr>) (pr_plans s)\<rparr>"
  have step: "onPlans (updateStepStatus p (sp_stepId x) StepCompleted now) s = (Inr (), ?s)"
    using Cons.prems by (auto simp: onPlans_def updateStepStatus_def)
  have get: "getPlan (pr_plans ?s) p = Some ?plan" using Cons.prems(1) by (simp add: getPlan_updateRow)
  have rest: "\<forall>y \<in> set (ep_steps ?plan). sp_stepId y \<notin> set (map sp_stepId todo) \<longrightarrow> sp_status y = StepCompleted"
  proof safe
    fix y assume y: "y \<in> set (ep_steps ?plan)" "sp_stepId y \<notin> set (map sp_stepId todo)"
    show "sp_status y = StepCompleted"
    proof (cases "sp_stepId y = sp_stepId x")
      case True
      then show ?thesis using y(1) Cons.prems(2) setStepStatus_done by auto
    next
      case False
      then have "y \<in> set (ep_steps plan)" using y(1) setStepStatus_other by auto
      then show ?thesis using False y(2) Cons.prems(4) by auto
    qed
  qed
  from Cons.IH [OF get _ _ rest] Cons.prems(2,3) step show ?case by (auto simp: andThen_def)
qed

lemma transitionState_ok:
  assumes "runGetById (pr_runs s) i = Some run" "isValidTransition (run_status run) st"
  shows "\<exists>s' cp. transitionState now i st data s = (Inr (), s') \<and> pr_plans s' = pr_plans s \<and>
     runGetById (pr_runs s') i = Some (run\<lparr>run_status := st, run_checkpoint := cp, run_updatedAt := now\<rparr>)"
  using assms by (auto simp: transitionState_def andThen_def getPlannerRun_def onRuns_def emitPlannerStatePatch_def runGetById_update)

lemma toPlanning_ok:
  assumes "runGetById (pr_runs s) i = Some run" "run_status run = ''planning'' \<or> run_status run \<in> set PLANNER_WAITING_STATES"
  shows "\<exists>s' run'. (if run_status run \<in> set PLANNER_WAITING_STATES
        then transitionState now i ''planning'' data else done_with ()) s = (Inr (), s') \<and> pr_plans s' = pr_plans s \<and>
     runGetById (pr_runs s') i = Some run' \<and> run_status run' = ''planning''"
proof (cases "run_status run \<in> set PLANNER_WAITING_STATES")
  case True
  have "list_all (\<lambda>x. isValidTransition x ''planning'') PLANNER_WAITING_STATES" by code_simp
  then have "isValidTransition (run_status run) ''planning''" using True by (auto simp: list_all_iff)
  from transitionState_ok [OF assms(1) this, of now data] show ?thesis using True by auto
next
  case False
  then show ?thesis using assms by (auto simp: done_with_def)
qed

text \<open>
  Completion always goes through: a run that is planning or waiting, whose plan is in the store with
  distinct step ids, is completed by \<open>completePlannerRun\<close> without an exception, and afterwards its status is
  \<open>completed\<close> and every step of its plan is marked completed.
\<close>

theorem completion_succeeds:
  assumes "runGetById (pr_runs s) i = Some run" "run_status run = ''planning'' \<or> run_status run \<in> set PLANNER_WAITING_STATES"
    "getPlan (pr_plans s) (run_planId run) = Some plan" "distinct (map sp_stepId (ep_steps plan))"
  shows "\<exists>result s' plan'. completePlannerRun now nowText i summary s = (Inr result, s') \<and> prr_status result = ''completed'' \<and>
     statusOf s' i = Some ''completed'' \<and> getPlan (pr_plans s') (run_planId run) = Some plan' \<and>
     map sp_stepId (ep_steps plan') = map sp_stepId (ep_steps plan) \<and>
     list_all (\<lambda>x. sp_status x = StepCompleted) (ep_steps plan') \<and> prr_steps result = ep_steps plan'"
proof -
  obtain s1 run1 where s1: "(if run_status run \<in> set PLANNER_WAITING_STATES
      then transitionState now i ''planning'' (checkpointFields [(''resumedForCompletion'', Some (JBool True))]) else done_with ()) s = (Inr (), s1)"
      "pr_plans s1 = pr_plans s" "runGetById (pr_runs s1) i = Some run1" "run_status run1 = ''planning''"
    using toPlanning_ok [OF assms(1,2)] by blast
  have plan1: "getPlan (pr_plans s1) (run_planId run) = Some plan" using assms(3) s1(2) by simp
  obtain s2 plan2 where s2: "completeSteps now (run_planId run) (ep_steps plan) s1 = (Inr (), s2)" "pr_runs s2 = pr_runs s1"
      "getPlan (pr_plans s2) (run_planId run) = Some plan2" "map sp_stepId (ep_steps plan2) = map sp_stepId (ep_steps plan)"
      "\<forall>x \<in> set (ep_steps plan2). sp_status x = StepCompleted"
    using completeSteps_spec [OF plan1 assms(4), of "ep_steps plan" now] by auto
  have "isValidTransition ''planning'' ''completed''" by code_simp
  then obtain s3 cp where s3: "transitionState now i ''completed'' (checkpointFields [(''summary'', map_option JStr summary),
        (''completedAt'', Some nowText)]) s2 = (Inr (), s3)" "pr_plans s3 = pr_plans s2"
      "runGetById (pr_runs s3) i = Some (run1\<lparr>run_status := ''completed'', run_checkpoint := cp, run_updatedAt := now\<rparr>)"
    using transitionState_ok [of s2 i run1 "''completed''" now] s1(3,4) s2(2) by force
  have live: "run_status run \<notin> set PLANNER_TERMINAL_STATES" "\<not> (run_status run \<noteq> ''planning'' \<and> run_status run \<notin> set PLANNER_WAITING_STATES)"
    using assms(2) by (auto simp: PLANNER_TERMINAL_STATES_def PLANNER_WAITING_STATES_def)
  have get: "getPlannerRun i s = (Inr run, s)" using assms(1) by (simp add: getPlannerRun_def)
  have rp: "readPlan p s' = (Inr (getPlan (pr_plans s') p), s')" for p s' by (simp add: readPlan_def)
  have "completePlannerRun now nowText i summary s = (Inr \<lparr>prr_plannerRunId = i, prr_planId = run_planId run,
      prr_status = ''completed'', prr_actions = [], prr_steps = ep_steps plan2\<rparr>, s3)"
    using live unfolding completePlannerRun_def andThen_def get
    by (auto simp add: s1(1) rp plan1 s2(1,3) s3(1,2) done_with_def)
  then show ?thesis using s2(3-5) s3(2,3) by (simp add: statusOf_def list_all_iff)
qed

theorem completion_succeeds_witness:
  "\<exists>result s'. completePlannerRun 5 JNull ''r'' None (demoTables ''waiting_for_user'') = (Inr result, s') \<and>
     statusOf s' ''r'' = Some ''completed'' \<and> list_all (\<lambda>x. sp_status x = StepCompleted) (prr_steps result)"
proof -
  let ?s = "demoTables ''waiting_for_user''"
  have "runGetById (pr_runs ?s) ''r'' = Some (demoRun ''waiting_for_user'')"
      "run_status (demoRun ''waiting_for_user'') = ''planning'' \<or> run_status (demoRun ''waiting_for_user'') \<in> set PLANNER_WAITING_STATES"
      "getPlan (pr_plans ?s) (run_planId (demoRun ''waiting_for_user'')) = Some (hd (pr_plans ?s))"
      "distinct (map sp_stepId (ep_steps (hd (pr_plans ?s))))"
    by code_simp+
  from completion_succeeds [OF this, of 5 JNull None] show ?thesis by auto
qed

end
