(* ===== verification/Workflow_Compiler.thy ===== *)
theory Workflow_Compiler
  imports Plan_Generation
begin

text \<open>
  From plans to workflows: the compiler that turns a linear plan into a workflow draft and inserts an
  approval step before every protected step (\<open>workflows/plan-to-workflow-compiler.ts\<close>), and the checks a draft
  has to pass before it is published (\<open>validateSteps\<close>, \<open>validateLinearFlow\<close> and \<open>validateStepReferences\<close> of
  \<open>workflows/workflow-runtime.ts\<close>).

  The configuration of a step is a JSON object and is only tested for fields that are present and truthy. The
  loop that follows \<open>nextStepId\<close> carries the source's own bound of twice the number of steps. The list the
  compiler mutates in four passes is passed through four functions.
\<close>

section \<open>Steps and drafts\<close>

record CompilerPlanStep =
  cs_stepId :: string
  cs_title :: string
  cs_description :: "string option"
  cs_stepType :: string
  cs_config :: json
  cs_nextStepId :: "string option"
  cs_requiresApproval :: bool

record PlanToWorkflowInput =
  pi_planId :: string
  pi_name :: string
  pi_description :: "string option"
  pi_ownerUserId :: string
  pi_steps :: "CompilerPlanStep list"

record WorkflowStep =
  ws_stepId :: string
  ws_stepType :: string
  ws_name :: string
  ws_description :: "string option"
  ws_config :: json
  ws_nextStepId :: "string option"

record CompilerError =
  ce_code :: string
  ce_message :: string
  ce_stepId :: "string option"

record CompiledWorkflowDraftPayload =
  cw_name :: string
  cw_description :: "string option"
  cw_steps :: "WorkflowStep list"
  cw_ownerUserId :: string

text \<open>Truth value of a property of a configuration object.\<close>

definition truthyValue :: "json option \<Rightarrow> bool" where
  "truthyValue v = (case v of None \<Rightarrow> False | Some JNull \<Rightarrow> False | Some (JBool b) \<Rightarrow> b | Some (JNum n) \<Rightarrow> n \<noteq> 0
     | Some (JStr s) \<Rightarrow> s \<noteq> [] | Some (JArr _) \<Rightarrow> True | Some (JObj _) \<Rightarrow> True)"

definition has :: "json \<Rightarrow> string \<Rightarrow> bool" where
  "has config k = truthyValue (field config k)"

definition hasItems :: "json \<Rightarrow> string \<Rightarrow> bool" where
  "hasItems config k = (case field config k of Some (JArr xs) \<Rightarrow> length xs > 0 | _ \<Rightarrow> False)"

definition quote :: "string \<Rightarrow> string" where
  "quote s = [CHR 0x27] @ s @ [CHR 0x27]"

section \<open>The compiler\<close>

definition compilerStepTypes :: "string list" where
  "compilerStepTypes = [''tool_call'', ''agent_run'', ''subagent_run'', ''approval'', ''wait'', ''condition'', ''branch'', ''parallel_group'']"

definition isCompilerStepType :: "string \<Rightarrow> bool" where
  "isCompilerStepType t = (t \<in> set compilerStepTypes)"

fun joinWithComma :: "string list \<Rightarrow> string" where
  "joinWithComma [] = []"
| "joinWithComma [x] = x"
| "joinWithComma (x # xs) = x @ '', '' @ joinWithComma xs"

definition unsupportedTypeErrors :: "CompilerPlanStep list \<Rightarrow> CompilerError list" where
  "unsupportedTypeErrors steps = map (\<lambda>s. \<lparr>ce_code = ''UNSUPPORTED_STEP_TYPE'',
       ce_message = ''Step '' @ cs_stepId s @ '' has invalid step type '' @ quote (cs_stepType s) @ ''. Must be one of: '' @
         joinWithComma compilerStepTypes, ce_stepId = Some (cs_stepId s)\<rparr>)
     (filter (\<lambda>s. \<not> isCompilerStepType (cs_stepType s)) steps)"

definition stepIdCounts :: "CompilerPlanStep list \<Rightarrow> (string, nat) jsmap" where
  "stepIdCounts steps = fold (\<lambda>s m. mapSet (cs_stepId s) (nullish (mapGet m (cs_stepId s)) 0 + 1) m) steps []"

definition duplicateIdErrors :: "CompilerPlanStep list \<Rightarrow> CompilerError list" where
  "duplicateIdErrors steps = map (\<lambda>(stepId, count). \<lparr>ce_code = ''DUPLICATE_STEP_ID'',
       ce_message = ''Duplicate stepId found: '' @ stepId @ '' (appears '' @ nat_str count @ '' times)'', ce_stepId = Some stepId\<rparr>)
     (filter (\<lambda>(stepId, count). count > 1) (stepIdCounts steps))"

definition stepNeedsApproval :: "CompilerPlanStep \<Rightarrow> bool" where
  "stepNeedsApproval s = (cs_requiresApproval s \<and> cs_stepType s \<noteq> ''approval'')"

definition approvalStepId :: "CompilerPlanStep \<Rightarrow> string" where
  "approvalStepId s = ''approval-before-'' @ cs_stepId s"

definition collisionErrors :: "CompilerPlanStep list \<Rightarrow> CompilerError list" where
  "collisionErrors steps = map (\<lambda>s. \<lparr>ce_code = ''DUPLICATE_STEP_ID'',
       ce_message = ''Generated approval stepId would collide with existing stepId: '' @ approvalStepId s,
       ce_stepId = Some (approvalStepId s)\<rparr>)
     (filter (\<lambda>s. stepNeedsApproval s \<and> approvalStepId s \<in> set (map cs_stepId steps)) steps)"

definition nextStepErrors :: "CompilerPlanStep list \<Rightarrow> CompilerError list" where
  "nextStepErrors steps = concat (map (\<lambda>s. case cs_nextStepId s of
       None \<Rightarrow> []
     | Some n \<Rightarrow> if n \<in> set (map cs_stepId steps) then [] else
         [\<lparr>ce_code = ''INVALID_NEXT_STEP_ID'',
           ce_message = ''Step '' @ cs_stepId s @ '' references non-existent nextStepId: '' @ n, ce_stepId = Some (cs_stepId s)\<rparr>]) steps)"

definition missing :: "CompilerPlanStep \<Rightarrow> string \<Rightarrow> string \<Rightarrow> CompilerError" where
  "missing s code fieldName = \<lparr>ce_code = code,
     ce_message = ''Step '' @ cs_stepId s @ '' is missing required config field '' @ quote fieldName, ce_stepId = Some (cs_stepId s)\<rparr>"

definition configErrors :: "CompilerPlanStep \<Rightarrow> CompilerError list" where
  "configErrors s = (let config = cs_config s; t = cs_stepType s in
     if t = ''tool_call'' then (if has config ''toolName'' then [] else [missing s ''MISSING_TOOL_NAME'' ''toolName''])
     else if t = ''agent_run'' then (if has config ''agentId'' then [] else [missing s ''MISSING_AGENT_ID'' ''agentId''])
     else if t = ''subagent_run'' then (if has config ''subagentType'' then [] else [missing s ''MISSING_SUBAGENT_TYPE'' ''subagentType''])
     else if t = ''approval'' then (if has config ''approvalScope'' then [] else [missing s ''MISSING_APPROVAL_SCOPE'' ''approvalScope''])
     else if t = ''wait'' then (if has config ''waitCondition'' then [] else [missing s ''MISSING_WAIT_CONDITION'' ''waitCondition''])
     else if t = ''condition'' then
       (if has config ''conditionExpression'' then [] else [missing s ''MISSING_CONDITION_EXPRESSION'' ''conditionExpression'']) @
       (if has config ''trueNextStepId'' \<or> has config ''falseNextStepId'' then [] else
          [\<lparr>ce_code = ''MISSING_BRANCH_TARGETS'', ce_message = ''Step '' @ cs_stepId s @ '' must have at least one branch target'',
            ce_stepId = Some (cs_stepId s)\<rparr>])
     else if t = ''branch'' then (if hasItems config ''branches'' then [] else [missing s ''MISSING_BRANCHES'' ''branches''])
     else if t = ''parallel_group'' then (if hasItems config ''parallelSteps'' then [] else [missing s ''MISSING_PARALLEL_STEPS'' ''parallelSteps''])
     else [])"

text \<open>First pass: the steps, each protected one after its approval step, to which the step before it is redirected.\<close>

definition approvalStep :: "CompilerPlanStep \<Rightarrow> WorkflowStep" where
  "approvalStep s = \<lparr>ws_stepId = approvalStepId s, ws_stepType = ''approval'', ws_name = ''Approval for: '' @ cs_title s,
     ws_description = Some (''Approval required before executing step: '' @ cs_title s),
     ws_config = JObj [(''approvalScope'', JStr (''workflow_step:'' @ cs_stepId s))], ws_nextStepId = Some (cs_stepId s)\<rparr>"

definition workflowStep :: "CompilerPlanStep \<Rightarrow> WorkflowStep" where
  "workflowStep s = \<lparr>ws_stepId = cs_stepId s, ws_stepType = cs_stepType s, ws_name = cs_title s, ws_description = cs_description s,
     ws_config = cs_config s, ws_nextStepId = cs_nextStepId s\<rparr>"

definition setLastNext :: "string option \<Rightarrow> WorkflowStep list \<Rightarrow> WorkflowStep list" where
  "setLastNext n steps = (if steps = [] then [] else butlast steps @ [(last steps)\<lparr>ws_nextStepId := n\<rparr>])"

fun insertApprovals :: "WorkflowStep list \<Rightarrow> CompilerPlanStep list \<Rightarrow> WorkflowStep list" where
  "insertApprovals result [] = result"
| "insertApprovals result (s # steps) =
     insertApprovals ((if stepNeedsApproval s then setLastNext (Some (approvalStepId s)) result @ [approvalStep s] else result) @ [workflowStep s]) steps"

text \<open>Second pass: references to no step are dropped. Third: missing references are linked to the following step.\<close>

definition dropDangling :: "WorkflowStep list \<Rightarrow> WorkflowStep list" where
  "dropDangling steps = map (\<lambda>s. if truthy (ws_nextStepId s) \<and> the (ws_nextStepId s) \<notin> set (map ws_stepId steps)
     then s\<lparr>ws_nextStepId := None\<rparr> else s) steps"

definition isInsertedApproval :: "WorkflowStep \<Rightarrow> bool" where
  "isInsertedApproval s = (ws_stepType s = ''approval'' \<and> startsWith (ws_stepId s) ''approval-before-'')"

fun linkNext :: "WorkflowStep list \<Rightarrow> WorkflowStep list" where
  "linkNext (s # t # steps) =
     (if \<not> isInsertedApproval s \<and> \<not> truthy (ws_nextStepId s) then s\<lparr>ws_nextStepId := Some (ws_stepId t)\<rparr> else s) # linkNext (t # steps)"
| "linkNext steps = steps"

definition transformStepsWithApprovals :: "CompilerPlanStep list \<Rightarrow> WorkflowStep list" where
  "transformStepsWithApprovals planSteps = setLastNext None (linkNext (dropDangling (insertApprovals [] planSteps)))"

definition planErrorsOf :: "PlanToWorkflowInput \<Rightarrow> CompilerError list" where
  "planErrorsOf plan =
     (if trim (pi_name plan) = [] then [\<lparr>ce_code = ''MISSING_WORKFLOW_NAME'', ce_message = ''Workflow name is required'', ce_stepId = None\<rparr>] else [])"

definition compilePlanToWorkflowDraft :: "PlanToWorkflowInput \<Rightarrow> CompilerError list + CompiledWorkflowDraftPayload" where
  "compilePlanToWorkflowDraft plan =
     (if length (pi_steps plan) = 0
      then Inl (planErrorsOf plan @ [\<lparr>ce_code = ''EMPTY_STEPS'', ce_message = ''Workflow must have at least one step'', ce_stepId = None\<rparr>])
      else (let steps = pi_steps plan; errors = planErrorsOf plan @ unsupportedTypeErrors steps @ duplicateIdErrors steps @
              collisionErrors steps @ nextStepErrors steps @ concat (map configErrors steps) in
            if length errors > 0 then Inl errors
            else Inr \<lparr>cw_name = pi_name plan, cw_description = pi_description plan,
              cw_steps = transformStepsWithApprovals steps, cw_ownerUserId = pi_ownerUserId plan\<rparr>))"

section \<open>Draft validation\<close>

record ValidationIssue =
  vi_code :: string
  vi_message :: string
  vi_stepId :: "string option"
  vi_error :: bool

definition validStepTypes :: "string list" where
  "validStepTypes = compilerStepTypes @ [''polling_wait'']"

definition issue :: "WorkflowStep \<Rightarrow> string \<Rightarrow> string \<Rightarrow> ValidationIssue" where
  "issue s code message = \<lparr>vi_code = code, vi_message = ''Step '' @ ws_stepId s @ message, vi_stepId = Some (ws_stepId s), vi_error = True\<rparr>"

definition validateStepConfig :: "WorkflowStep \<Rightarrow> ValidationIssue list" where
  "validateStepConfig s = (let config = ws_config s; t = ws_stepType s in
     if t = ''tool_call'' then (if has config ''toolName'' then [] else [issue s ''MISSING_TOOL_NAME'' '' is missing toolName in config''])
     else if t = ''agent_run'' then (if has config ''agentId'' then [] else [issue s ''MISSING_AGENT_ID'' '' is missing agentId in config''])
     else if t = ''subagent_run'' then (if has config ''subagentType'' \<or> has config ''agentProfile'' then [] else
       [issue s ''MISSING_SUBAGENT_TYPE'' '' is missing agentProfile (or legacy subagentType) in config''])
     else if t = ''approval'' then (if has config ''approvalScope'' then [] else [issue s ''MISSING_APPROVAL_SCOPE'' '' is missing approvalScope in config''])
     else if t = ''wait'' then (if has config ''waitCondition'' then [] else [issue s ''MISSING_WAIT_CONDITION'' '' is missing waitCondition in config''])
     else if t = ''condition'' then
       (if has config ''conditionExpression'' then [] else [issue s ''MISSING_CONDITION_EXPRESSION'' '' is missing conditionExpression in config'']) @
       (if has config ''trueNextStepId'' \<or> has config ''falseNextStepId'' then [] else
          [issue s ''MISSING_BRANCH_TARGETS'' '' must have at least one branch target (trueNextStepId or falseNextStepId)''])
     else if t = ''branch'' then (if hasItems config ''branches'' then [] else [issue s ''MISSING_BRANCHES'' '' is missing branches in config''])
     else if t = ''parallel_group'' then (if hasItems config ''parallelSteps'' then [] else [issue s ''MISSING_PARALLEL_STEPS'' '' is missing parallelSteps in config''])
     else if t = ''polling_wait'' then
       (if has config ''pollingCondition'' then [] else [issue s ''MISSING_POLLING_CONDITION'' '' is missing pollingCondition in config'']) @
       (if (case field config ''timeoutMs'' of Some (JNum n) \<Rightarrow> n > 0 | _ \<Rightarrow> False) then [] else
          [issue s ''MISSING_POLLING_TIMEOUT'' '' must have a valid timeoutMs for polling_wait''])
     else [])"

definition validateStep :: "WorkflowStep \<Rightarrow> ValidationIssue list" where
  "validateStep s =
     (if ws_stepId s = [] then [\<lparr>vi_code = ''MISSING_STEP_ID'', vi_message = ''Step is missing a stepId'', vi_stepId = None, vi_error = True\<rparr>] else []) @
     (if ws_stepType s \<in> set validStepTypes then [] else
        [\<lparr>vi_code = ''INVALID_STEP_TYPE'', vi_message = ''Invalid step type: '' @ ws_stepType s @ ''. Must be one of: '' @ joinWithComma validStepTypes,
          vi_stepId = Some (ws_stepId s), vi_error = True\<rparr>]) @
     (if ws_name s = [] then [(issue s ''MISSING_STEP_NAME'' '' is missing a name'')\<lparr>vi_error := False\<rparr>] else []) @
     validateStepConfig s"

definition validateSteps :: "WorkflowStep list \<Rightarrow> ValidationIssue list" where
  "validateSteps steps =
     (if length steps = 0 then [\<lparr>vi_code = ''NO_STEPS'', vi_message = ''Workflow must have at least one step'', vi_stepId = None, vi_error = True\<rparr>]
      else concat (map validateStep steps))"

definition nextOf :: "WorkflowStep list \<Rightarrow> WorkflowStep \<Rightarrow> WorkflowStep option" where
  "nextOf steps s = (if truthy (ws_nextStepId s) then find (\<lambda>t. Some (ws_stepId t) = ws_nextStepId s) steps else None)"

fun followLoop :: "WorkflowStep list \<Rightarrow> string list \<Rightarrow> WorkflowStep option \<Rightarrow> nat \<Rightarrow> ValidationIssue list" where
  "followLoop steps visited (Some s) (Suc fuel) =
     (if ws_stepId s \<in> set visited
      then [\<lparr>vi_code = ''CYCLE_DETECTED'', vi_message = ''Cycle detected in workflow starting at step: '' @ ws_stepId s,
             vi_stepId = Some (ws_stepId s), vi_error = True\<rparr>]
      else followLoop steps (ws_stepId s # visited) (nextOf steps s) fuel)"
| "followLoop steps visited _ _ = []"

definition validateLinearFlow :: "WorkflowStep list \<Rightarrow> ValidationIssue list" where
  "validateLinearFlow steps = (case steps of [] \<Rightarrow> []
     | firstStep # _ \<Rightarrow>
         concat (map (\<lambda>s. if truthy (ws_nextStepId s) \<and> the (ws_nextStepId s) \<notin> set (map ws_stepId steps)
           then [issue s ''INVALID_NEXT_STEP'' ('' references non-existent nextStepId: '' @ the (ws_nextStepId s))] else []) steps) @
         followLoop steps [] (Some firstStep) (length steps * 2))"

definition validateStepReferences :: "WorkflowStep list \<Rightarrow> ValidationIssue list" where
  "validateStepReferences steps = concat (map (\<lambda>s.
     if ws_stepId s \<noteq> [] \<and> length (filter (\<lambda>t. ws_stepId t = ws_stepId s) steps) > 1
     then [\<lparr>vi_code = ''DUPLICATE_STEP_ID'', vi_message = ''Duplicate stepId found: '' @ ws_stepId s, vi_stepId = Some (ws_stepId s), vi_error = True\<rparr>]
     else []) steps)"

section \<open>What the compiler keeps\<close>

definition expandIds :: "CompilerPlanStep \<Rightarrow> string list" where
  "expandIds s = (if stepNeedsApproval s then [approvalStepId s, cs_stepId s] else [cs_stepId s])"

text \<open>Everything of a step but its \<open>nextStepId\<close>; the last three passes leave it alone.\<close>

definition core :: "WorkflowStep \<Rightarrow> WorkflowStep" where
  "core s = s\<lparr>ws_nextStepId := None\<rparr>"

lemma core_simps [simp]:
  "core (s\<lparr>ws_nextStepId := n\<rparr>) = core s" "ws_stepId (core s) = ws_stepId s" "ws_stepType (core s) = ws_stepType s"
  "ws_name (core s) = ws_name s" "ws_config (core s) = ws_config s"
  by (simp_all add: core_def)

lemma core_setLastNext [simp]: "map core (setLastNext n steps) = map core steps"
  by (cases steps rule: rev_cases) (simp_all add: setLastNext_def)

lemma core_dropDangling [simp]: "map core (dropDangling steps) = map core steps"
  by (simp add: dropDangling_def)

lemma core_linkNext [simp]: "map core (linkNext steps) = map core steps"
  by (induction steps rule: linkNext.induct) simp_all

lemma core_insertApprovals:
  "map core (insertApprovals result steps) =
     map core result @ concat (map (\<lambda>s. (if stepNeedsApproval s then [core (approvalStep s)] else []) @ [core (workflowStep s)]) steps)"
  by (induction steps arbitrary: result) auto

lemma core_transform:
  "map core (transformStepsWithApprovals steps) =
     concat (map (\<lambda>s. (if stepNeedsApproval s then [core (approvalStep s)] else []) @ [core (workflowStep s)]) steps)"
  by (simp add: transformStepsWithApprovals_def core_insertApprovals)

lemma map_core: "map ws_stepId steps = map ws_stepId (map core steps)"
  by simp

lemma transform_ids: "map ws_stepId (transformStepsWithApprovals steps) = concat (map expandIds steps)"
proof -
  have "map ws_stepId (concat (map (\<lambda>s. (if stepNeedsApproval s then [core (approvalStep s)] else []) @ [core (workflowStep s)]) steps)) =
      concat (map expandIds steps)"
    by (induction steps) (auto simp: expandIds_def approvalStep_def workflowStep_def core_def)
  then show ?thesis using core_transform map_core by metis
qed

lemma stepIdCounts_get:
  "mapGet (stepIdCounts steps) i = (let c = length (filter (\<lambda>s. cs_stepId s = i) steps) in if c = 0 then None else Some c)"
proof -
  have "mapGet (fold (\<lambda>s m. mapSet (cs_stepId s) (nullish (mapGet m (cs_stepId s)) 0 + 1) m) steps m) i =
      (let c = length (filter (\<lambda>s. cs_stepId s = i) steps) in if c = 0 then mapGet m i else Some (nullish (mapGet m i) 0 + c))" for m
    by (induction steps arbitrary: m) (auto simp: Let_def nullish_def split: option.splits)
  then show ?thesis by (simp add: stepIdCounts_def nullish_def Let_def)
qed

lemma distinct_count: "(\<forall>x \<in> set xs. length (filter (\<lambda>y. f y = f x) xs) \<le> 1) \<Longrightarrow> distinct (map f xs)"
proof (induction xs)
  case (Cons x xs)
  have "length (filter (\<lambda>y. f y = f x) (x # xs)) \<le> 1" using Cons.prems by (meson list.set_intros(1))
  then have "filter (\<lambda>y. f y = f x) xs = []" by simp
  then have "\<forall>y \<in> set xs. f y \<noteq> f x" by (simp only: filter_empty_conv)
  then have new: "f x \<notin> f ` set xs" by (metis imageE)
  have "length (filter (\<lambda>z. f z = f y) xs) \<le> 1" if "y \<in> set xs" for y
    using Cons.prems [rule_format, of y] that by (simp split: if_splits)
  then have "distinct (map f xs)" using Cons.IH by blast
  then show ?case using new by simp
qed simp

lemma duplicateIdErrors_Nil: "duplicateIdErrors steps = [] \<Longrightarrow> distinct (map cs_stepId steps)"
proof (rule distinct_count, safe)
  fix s assume none: "duplicateIdErrors steps = []" and s: "s \<in> set steps"
  let ?c = "length (filter (\<lambda>t. cs_stepId t = cs_stepId s) steps)"
  have "?c \<noteq> 0" using s by (auto simp: filter_empty_conv)
  then have "(cs_stepId s, ?c) \<in> set (stepIdCounts steps)"
    using stepIdCounts_get [of steps "cs_stepId s"] by (auto simp: Let_def intro: map_of_SomeD)
  then show "?c \<le> 1" using none by (force simp: duplicateIdErrors_def filter_empty_conv)
qed

lemma compile_Inr:
  assumes "compilePlanToWorkflowDraft plan = Inr payload"
  shows "pi_steps plan \<noteq> []" "cw_steps payload = transformStepsWithApprovals (pi_steps plan)"
    "\<And>s. s \<in> set (pi_steps plan) \<Longrightarrow> isCompilerStepType (cs_stepType s) \<and> configErrors s = []"
    "distinct (map cs_stepId (pi_steps plan))"
    "\<And>s. s \<in> set (pi_steps plan) \<Longrightarrow> stepNeedsApproval s \<Longrightarrow> approvalStepId s \<notin> set (map cs_stepId (pi_steps plan))"
  using assms duplicateIdErrors_Nil
  by (auto simp: compilePlanToWorkflowDraft_def Let_def unsupportedTypeErrors_def collisionErrors_def filter_empty_conv split: if_splits)

lemma expand_distinct:
  "distinct (map cs_stepId steps) \<Longrightarrow>
   (\<forall>s \<in> set steps. stepNeedsApproval s \<longrightarrow> approvalStepId s \<notin> set (map cs_stepId steps)) \<Longrightarrow> distinct (concat (map expandIds steps))"
proof (induction steps)
  case (Cons s steps)
  have mem: "x \<in> set (concat (map expandIds steps)) \<longleftrightarrow>
      x \<in> set (map cs_stepId steps) \<or> (\<exists>t \<in> set steps. stepNeedsApproval t \<and> x = approvalStepId t)" for x
    by (auto simp: expandIds_def)
  have "distinct (expandIds s)" using Cons.prems(2) by (auto simp: expandIds_def)
  moreover have "cs_stepId s \<notin> set (concat (map expandIds steps))"
    unfolding mem using Cons.prems by auto
  moreover have "approvalStepId s \<notin> set (concat (map expandIds steps))" if "stepNeedsApproval s"
    unfolding mem using Cons.prems that by (auto simp: approvalStepId_def)
  ultimately show ?case using Cons by (auto simp: expandIds_def)
qed simp

text \<open>
  The compiler loses, adds and reorders nothing: when it succeeds, the compiled steps are exactly the plan's
  steps in their order, each step that needs an approval directly preceded by its own approval step, and all
  step ids are distinct.
\<close>

theorem compiled_steps_exact:
  assumes "compilePlanToWorkflowDraft plan = Inr payload"
  shows "map core (cw_steps payload) = concat (map (\<lambda>s. (if stepNeedsApproval s then [core (approvalStep s)] else []) @ [core (workflowStep s)]) (pi_steps plan))
     \<and> map ws_stepId (cw_steps payload) = concat (map expandIds (pi_steps plan)) \<and> distinct (map ws_stepId (cw_steps payload))"
  using compile_Inr [OF assms] core_transform transform_ids expand_distinct by simp

section \<open>Linear plans\<close>

definition chained :: "WorkflowStep list \<Rightarrow> bool" where
  "chained steps = (successively (\<lambda>s t. ws_nextStepId s = Some (ws_stepId t)) steps \<and>
     (steps = [] \<or> ws_nextStepId (last steps) = None))"

text \<open>After the first pass a step of a linear plan points to its successor or is open, and no approval step is open.\<close>

definition openChain :: "WorkflowStep list \<Rightarrow> bool" where
  "openChain steps = (successively (\<lambda>s t. ws_nextStepId s = Some (ws_stepId t) \<or> (ws_nextStepId s = None \<and> \<not> isInsertedApproval s)) steps \<and>
     (steps = [] \<or> (ws_nextStepId (last steps) = None \<and> \<not> isInsertedApproval (last steps))))"

definition plainStep :: "CompilerPlanStep \<Rightarrow> bool" where
  "plainStep s = (cs_nextStepId s = None \<and> cs_stepId s \<noteq> [] \<and> \<not> (cs_stepType s = ''approval'' \<and> startsWith (cs_stepId s) ''approval-before-''))"

lemma openChain_snoc:
  "openChain xs \<Longrightarrow> ws_nextStepId t = None \<Longrightarrow> \<not> isInsertedApproval t \<Longrightarrow> openChain (xs @ [t])"
  by (auto simp: openChain_def successively_append_iff)

lemma openChain_approval:
  assumes "openChain xs" "ws_nextStepId t = None" "\<not> isInsertedApproval t" "ws_nextStepId a = Some (ws_stepId t)"
  shows "openChain (setLastNext (Some (ws_stepId a)) xs @ [a, t])"
proof (cases xs rule: rev_cases)
  case Nil
  then show ?thesis using assms by (simp add: openChain_def setLastNext_def)
next
  case (snoc ys y)
  have "successively (\<lambda>s t. ws_nextStepId s = Some (ws_stepId t) \<or> (ws_nextStepId s = None \<and> \<not> isInsertedApproval s)) (ys @ [y\<lparr>ws_nextStepId := Some (ws_stepId a)\<rparr>])"
    using assms(1) snoc by (auto simp: openChain_def successively_append_iff)
  then show ?thesis using snoc assms by (auto simp: openChain_def setLastNext_def successively_append_iff)
qed

lemma openChain_insert: "openChain result \<Longrightarrow> \<forall>s \<in> set steps. plainStep s \<Longrightarrow> openChain (insertApprovals result steps)"
proof (induction steps arbitrary: result)
  case (Cons s steps)
  have w: "ws_nextStepId (workflowStep s) = None" "\<not> isInsertedApproval (workflowStep s)" "ws_stepId (workflowStep s) = cs_stepId s"
    using Cons.prems(2) by (auto simp: workflowStep_def plainStep_def isInsertedApproval_def)
  have a: "ws_nextStepId (approvalStep s) = Some (cs_stepId s)" "ws_stepId (approvalStep s) = approvalStepId s"
    by (simp_all add: approvalStep_def)
  show ?case
    using Cons.IH [OF openChain_snoc [OF Cons.prems(1) w(1,2)]] Cons.IH [OF openChain_approval [OF Cons.prems(1) w(1,2), of "approvalStep s"]]
      Cons.prems(2) w(3) a by simp
qed simp

lemma openChain_no_dangling:
  "openChain steps \<Longrightarrow> s \<in> set steps \<Longrightarrow> ws_nextStepId s = None \<or> the (ws_nextStepId s) \<in> set (map ws_stepId steps)"
proof (induction steps)
  case (Cons t steps)
  show ?case
  proof (cases steps)
    case Nil
    then show ?thesis using Cons.prems by (auto simp: openChain_def)
  next
    case (Cons u rest)
    then have "openChain steps" using Cons.prems(1) by (simp add: openChain_def)
    then show ?thesis using Cons.IH Cons.prems Cons by (auto simp: openChain_def)
  qed
qed simp

lemma chained_no_dangling:
  "chained steps \<Longrightarrow> s \<in> set steps \<Longrightarrow> ws_nextStepId s = None \<or> the (ws_nextStepId s) \<in> set (map ws_stepId steps)"
proof (induction steps)
  case (Cons t steps)
  then show ?case by (cases steps) (auto simp: chained_def)
qed simp

lemma openChain_dropDangling: "openChain steps \<Longrightarrow> dropDangling steps = steps"
proof -
  assume "openChain steps"
  then have "\<not> (truthy (ws_nextStepId s) \<and> the (ws_nextStepId s) \<notin> set (map ws_stepId steps))" if "s \<in> set steps" for s
    using openChain_no_dangling that by (fastforce simp: truthy_def)
  then show ?thesis unfolding dropDangling_def by (intro map_idI if_not_P) blast
qed

lemma linkNext_hd: "linkNext (t # steps) \<noteq> [] \<and> ws_stepId (hd (linkNext (t # steps))) = ws_stepId t"
  by (cases steps) simp_all

lemma linkNext_last: "steps \<noteq> [] \<Longrightarrow> last (linkNext steps) = last steps"
  by (induction steps rule: linkNext.induct) (auto simp: linkNext_hd)

lemma linkNext_chained: "openChain steps \<Longrightarrow> chained (linkNext steps)"
proof -
  have "successively (\<lambda>s t. ws_nextStepId s = Some (ws_stepId t)) (linkNext steps)" if "openChain steps"
    using that
  proof (induction steps rule: linkNext.induct)
    case (1 s t steps)
    then have "openChain (t # steps)" by (simp add: openChain_def)
    then have IH: "successively (\<lambda>s t. ws_nextStepId s = Some (ws_stepId t)) (linkNext (t # steps))" by (rule 1(1))
    have "ws_nextStepId (if \<not> isInsertedApproval s \<and> \<not> truthy (ws_nextStepId s) then s\<lparr>ws_nextStepId := Some (ws_stepId t)\<rparr> else s) = Some (ws_stepId t)"
      using 1(2) by (auto simp: openChain_def truthy_def)
    then show ?case using IH linkNext_hd [of t steps] by (cases "linkNext (t # steps)") auto
  qed simp_all
  moreover assume "openChain steps"
  moreover have "steps = [] \<longleftrightarrow> linkNext steps = []" by (cases steps rule: linkNext.cases) auto
  ultimately show ?thesis by (auto simp: chained_def openChain_def linkNext_last)
qed

lemma chained_setLast: "chained steps \<Longrightarrow> setLastNext None steps = steps"
proof (cases steps rule: rev_cases)
  case (snoc ys y)
  moreover assume "chained steps"
  ultimately have "ws_nextStepId y = None" by (simp add: chained_def)
  then show ?thesis using snoc by (simp add: setLastNext_def)
qed (simp add: setLastNext_def)

lemma transform_chained: "\<forall>s \<in> set steps. plainStep s \<Longrightarrow> chained (transformStepsWithApprovals steps)"
  using openChain_insert [of "[]" steps] linkNext_chained openChain_dropDangling chained_setLast
  by (simp add: transformStepsWithApprovals_def openChain_def)

text \<open>Following a chain visits its steps once, in order, and ends.\<close>

lemma chained_nextOf:
  assumes "chained (pre @ s # t # post)" "distinct (map ws_stepId (pre @ s # t # post))" "\<forall>x \<in> set (pre @ s # t # post). ws_stepId x \<noteq> []"
  shows "nextOf (pre @ s # t # post) s = Some t"
proof -
  have n: "ws_nextStepId s = Some (ws_stepId t)" using assms(1) by (simp add: chained_def successively_append_iff)
  have "find (\<lambda>x. ws_stepId x = ws_stepId t) (pre @ s # t # post) = Some t"
  proof -
    have "find (\<lambda>x. ws_stepId x = ws_stepId t) pre = None" using assms(2) by (auto simp: find_None_iff) (metis imageI)
    then show ?thesis using assms(2) by (simp add: find_append)
  qed
  then show ?thesis using n assms(3) by (simp add: nextOf_def truthy_def)
qed

lemma chained_followLoop:
  "chained (pre @ s # post) \<Longrightarrow> distinct (map ws_stepId (pre @ s # post)) \<Longrightarrow> \<forall>x \<in> set (pre @ s # post). ws_stepId x \<noteq> [] \<Longrightarrow>
   set visited = set (map ws_stepId pre) \<Longrightarrow> followLoop (pre @ s # post) visited (Some s) fuel = []"
proof (induction post arbitrary: pre s visited fuel)
  case Nil
  then have "nextOf (pre @ [s]) s = None" by (simp add: nextOf_def truthy_def chained_def)
  moreover have "ws_stepId s \<notin> set visited" using Nil.prems(2,4) by auto
  ultimately show ?case by (cases fuel) auto
next
  case (Cons t post)
  show ?case
  proof (cases fuel)
    case (Suc n)
    have "nextOf (pre @ s # t # post) s = Some t" using Cons.prems by (intro chained_nextOf)
    moreover have "ws_stepId s \<notin> set visited" using Cons.prems(2,4) by auto
    moreover have "followLoop ((pre @ [s]) @ t # post) (ws_stepId s # visited) (Some t) n = []"
      using Cons.prems by (intro Cons.IH) auto
    ultimately show ?thesis using Suc by simp
  qed simp
qed

lemma transform_mem:
  assumes "t \<in> set (transformStepsWithApprovals steps)"
  shows "\<exists>s \<in> set steps. core t = core (workflowStep s) \<or> (stepNeedsApproval s \<and> core t = core (approvalStep s))"
proof -
  have "core t \<in> set (map core (transformStepsWithApprovals steps))" using assms by simp
  then show ?thesis unfolding core_transform by (auto split: if_splits)
qed

lemma validateStep_core: "validateStep t = validateStep (core t)"
  by (simp add: validateStep_def validateStepConfig_def issue_def core_def Let_def)

lemma validateStep_workflow:
  "isCompilerStepType (cs_stepType s) \<Longrightarrow> configErrors s = [] \<Longrightarrow> cs_stepId s \<noteq> [] \<Longrightarrow>
   \<not> list_ex vi_error (validateStep (workflowStep s))"
proof -
  assume t: "isCompilerStepType (cs_stepType s)" and ok: "configErrors s = []" and i: "cs_stepId s \<noteq> []"
  have types: "cs_stepType s = ''tool_call'' \<or> cs_stepType s = ''agent_run'' \<or> cs_stepType s = ''subagent_run'' \<or> cs_stepType s = ''approval'' \<or>
      cs_stepType s = ''wait'' \<or> cs_stepType s = ''condition'' \<or> cs_stepType s = ''branch'' \<or> cs_stepType s = ''parallel_group''"
    using t by (simp add: isCompilerStepType_def compilerStepTypes_def)
  then have "validateStepConfig (workflowStep s) = []"
    using ok by (elim disjE) (simp_all add: configErrors_def validateStepConfig_def workflowStep_def Let_def split: if_splits)
  moreover have "ws_stepType (workflowStep s) \<in> set validStepTypes"
    using t by (simp add: isCompilerStepType_def validStepTypes_def workflowStep_def)
  ultimately show ?thesis using i by (simp add: validateStep_def issue_def) (simp add: workflowStep_def)
qed

lemma validateStep_approval: "\<not> list_ex vi_error (validateStep (approvalStep s))"
  by (simp add: validateStep_def validateStepConfig_def approvalStep_def approvalStepId_def validStepTypes_def compilerStepTypes_def
      issue_def has_def field_def truthyValue_def Let_def)

lemma distinct_references:
  assumes "distinct (map ws_stepId steps)"
  shows "validateStepReferences steps = []"
proof -
  have "length (filter (\<lambda>t. ws_stepId t = i) steps) \<le> 1" for i
    using assms
  proof (induction steps)
    case (Cons x xs)
    then have "filter (\<lambda>t. ws_stepId t = ws_stepId x) xs = []" by (auto simp: filter_empty_conv) (metis imageI)
    then show ?case using Cons by auto
  qed simp
  then have "(Suc 0 < length (filter (\<lambda>t. ws_stepId t = i) steps)) = False" for i by (metis One_nat_def not_less)
  then show ?thesis unfolding validateStepReferences_def by (simp cong: map_cong)
qed

text \<open>The shape of a compiled linear plan: a chain of steps that come from the plan and pass the checks.\<close>

lemma linear_plan_shape:
  assumes "compilePlanToWorkflowDraft plan = Inr payload" "list_all plainStep (pi_steps plan)"
  shows "chained (cw_steps payload)" "cw_steps payload \<noteq> []" "distinct (map ws_stepId (cw_steps payload))"
    and "validateLinearFlow (cw_steps payload) = []" "validateStepReferences (cw_steps payload) = []"
    and "\<forall>t \<in> set (cw_steps payload). ws_stepId t \<noteq> [] \<and> \<not> list_ex vi_error (validateStep t) \<and>
      (\<exists>s \<in> set (pi_steps plan). core t = core (workflowStep s) \<or> core t = core (approvalStep s))"
proof -
  let ?steps = "pi_steps plan" and ?ws = "cw_steps payload"
  note ok = compile_Inr [OF assms(1)]
  have plain: "\<forall>s \<in> set ?steps. plainStep s" using assms(2) by (simp add: list_all_iff)
  have ch: "chained ?ws" using transform_chained [OF plain] ok(2) by simp
  have dis: "distinct (map ws_stepId ?ws)" using ok transform_ids expand_distinct by simp
  have ne: "?ws \<noteq> []" using ok(1,2) transform_ids [of ?steps] by (cases ?steps) (auto simp: expandIds_def split: if_splits)
  then obtain w ws where w: "?ws = w # ws" by (cases ?ws) auto
  have each: "ws_stepId t \<noteq> [] \<and> \<not> list_ex vi_error (validateStep t) \<and>
      (\<exists>s \<in> set ?steps. core t = core (workflowStep s) \<or> core t = core (approvalStep s))" if t: "t \<in> set ?ws" for t
  proof -
    obtain s where s: "s \<in> set ?steps" "core t = core (workflowStep s) \<or> core t = core (approvalStep s)"
      using transform_mem [of t ?steps] t unfolding ok(2) by blast
    have "cs_stepId s \<noteq> []" using plain s(1) by (simp add: plainStep_def)
    moreover have "ws_stepId (workflowStep s) = cs_stepId s" "ws_stepId (approvalStep s) = approvalStepId s"
      by (simp_all add: workflowStep_def approvalStep_def)
    moreover have "validateStep t = validateStep (workflowStep s) \<or> validateStep t = validateStep (approvalStep s)"
      using s(2) validateStep_core by metis
    moreover have "ws_stepId t = ws_stepId (workflowStep s) \<or> ws_stepId t = ws_stepId (approvalStep s)"
      using s(2) core_simps(2) by metis
    ultimately have "ws_stepId t \<noteq> [] \<and> \<not> list_ex vi_error (validateStep t)"
      using ok(3) [OF s(1)] validateStep_workflow [of s] validateStep_approval [of s] by (auto simp: approvalStepId_def)
    then show ?thesis using s by blast
  qed
  have "followLoop ?ws [] (Some w) fuel = []" for fuel
    using chained_followLoop [of "[]" w ws "[]" fuel] ch dis each w by auto
  moreover have "\<not> (truthy (ws_nextStepId t) \<and> the (ws_nextStepId t) \<notin> set (map ws_stepId ?ws))" if "t \<in> set ?ws" for t
    using chained_no_dangling [OF ch that] by (auto simp: truthy_def split: option.splits)
  ultimately show "validateLinearFlow ?ws = []" using w by (auto simp: validateLinearFlow_def simp del: followLoop.simps)
  show "chained ?ws" "?ws \<noteq> []" "distinct (map ws_stepId ?ws)" "validateStepReferences ?ws = []"
    using ch ne dis distinct_references [OF dis] by blast+
  show "\<forall>t \<in> set ?ws. ws_stepId t \<noteq> [] \<and> \<not> list_ex vi_error (validateStep t) \<and>
      (\<exists>s \<in> set ?steps. core t = core (workflowStep s) \<or> core t = core (approvalStep s))" using each by blast
qed

text \<open>
  Compiled linear plans are publishable and safe to run: if no step of the plan names its own successor,
  the compiled steps form a single chain through all of them (so every protected step is entered only from its
  approval step), and the draft validation of the workflow runtime finds no error in them.
\<close>

theorem linear_plan_publishable:
  assumes "compilePlanToWorkflowDraft plan = Inr payload" "list_all plainStep (pi_steps plan)"
  shows "chained (cw_steps payload) \<and>
     \<not> list_ex vi_error (validateSteps (cw_steps payload) @ validateLinearFlow (cw_steps payload) @ validateStepReferences (cw_steps payload))"
  using linear_plan_shape [OF assms] by (auto simp: validateSteps_def list_ex_iff)

definition demoPlanStep :: "string \<Rightarrow> string option \<Rightarrow> bool \<Rightarrow> CompilerPlanStep" where
  "demoPlanStep i next approve = \<lparr>cs_stepId = i, cs_title = i, cs_description = None, cs_stepType = ''tool_call'',
     cs_config = JObj [(''toolName'', JStr ''t'')], cs_nextStepId = next, cs_requiresApproval = approve\<rparr>"

definition demoInput :: "CompilerPlanStep list \<Rightarrow> PlanToWorkflowInput" where
  "demoInput steps = \<lparr>pi_planId = ''p'', pi_name = ''n'', pi_description = None, pi_ownerUserId = ''u'', pi_steps = steps\<rparr>"

theorem compiled_steps_exact_witness:
  "\<exists>payload. compilePlanToWorkflowDraft (demoInput [demoPlanStep ''a'' None False, demoPlanStep ''b'' None True]) = Inr payload \<and>
     map ws_stepId (cw_steps payload) = [''a'', ''approval-before-b'', ''b'']"
proof -
  obtain payload where run: "compilePlanToWorkflowDraft (demoInput [demoPlanStep ''a'' None False, demoPlanStep ''b'' None True]) = Inr payload"
    by (cases "compilePlanToWorkflowDraft (demoInput [demoPlanStep ''a'' None False, demoPlanStep ''b'' None True])") (code_simp, simp)
  have "concat (map expandIds (pi_steps (demoInput [demoPlanStep ''a'' None False, demoPlanStep ''b'' None True]))) = [''a'', ''approval-before-b'', ''b'']"
    by code_simp
  then show ?thesis using run compiled_steps_exact [OF run] by auto
qed

theorem linear_plan_publishable_witness:
  "\<exists>payload. compilePlanToWorkflowDraft (demoInput [demoPlanStep ''a'' None False, demoPlanStep ''b'' None True]) = Inr payload \<and>
     chained (cw_steps payload)"
proof -
  obtain payload where run: "compilePlanToWorkflowDraft (demoInput [demoPlanStep ''a'' None False, demoPlanStep ''b'' None True]) = Inr payload"
    by (cases "compilePlanToWorkflowDraft (demoInput [demoPlanStep ''a'' None False, demoPlanStep ''b'' None True])") (code_simp, simp)
  have "list_all plainStep (pi_steps (demoInput [demoPlanStep ''a'' None False, demoPlanStep ''b'' None True]))" by code_simp
  then show ?thesis using run linear_plan_publishable [OF run] by blast
qed

text \<open>
  The approval step protects only the fall-through path: when a step names a protected step as its own
  successor, the compiled workflow enters the protected step directly, around the approval step that the
  compiler inserted before it, and validation accepts that draft.
\<close>

theorem explicit_jump_skips_approval:
  "\<exists>payload. compilePlanToWorkflowDraft (demoInput [demoPlanStep ''a'' (Some ''c'') False, demoPlanStep ''b'' None False, demoPlanStep ''c'' None True]) = Inr payload \<and>
     map (\<lambda>s. (ws_stepId s, ws_nextStepId s)) (cw_steps payload) =
       [(''a'', Some ''c''), (''b'', Some ''approval-before-c''), (''approval-before-c'', Some ''c''), (''c'', None)] \<and>
     validateSteps (cw_steps payload) @ validateLinearFlow (cw_steps payload) @ validateStepReferences (cw_steps payload) = []"
proof -
  let ?r = "compilePlanToWorkflowDraft (demoInput [demoPlanStep ''a'' (Some ''c'') False, demoPlanStep ''b'' None False, demoPlanStep ''c'' None True])"
  have "case ?r of Inl _ \<Rightarrow> False | Inr payload \<Rightarrow> map (\<lambda>s. (ws_stepId s, ws_nextStepId s)) (cw_steps payload) =
       [(''a'', Some ''c''), (''b'', Some ''approval-before-c''), (''approval-before-c'', Some ''c''), (''c'', None)] \<and>
     validateSteps (cw_steps payload) @ validateLinearFlow (cw_steps payload) @ validateStepReferences (cw_steps payload) = []"
    by code_simp
  then show ?thesis by (cases ?r) auto
qed

end
