(* ===== verification/Access_Control.thy ===== *)
theory Access_Control
  imports Permissions
begin

text \<open>
  Coarse-grained access rules around the permission engine: the role table and its ownership check
  (\<open>permissions/rbac-types.ts\<close>, \<open>permissions/rbac-engine.ts\<close>), the derivation of tool risk policies from the
  tool catalog (\<open>permissions/tool-risk-policy.ts\<close>) and the tool envelopes of the agent types with the
  intersection that computes an agent's effective tools (\<open>permissions/agent-type-tool-envelope.ts\<close>).
\<close>

section \<open>Roles\<close>

datatype Role = RoleAdmin | RoleUser | RoleService

datatype RbacResource = Res_sessions | Res_workflows | Res_triggers | Res_connectors | Res_memory | Res_apiKeys | Res_users
  | Res_settings | Res_observability | Res_approval | Res_ask | Res_run | Res_provider | Res_toolResult | Res_organizations
  | Res_todos | Res_files | Res_workdirs

datatype Action = Act_create | Act_read | Act_update | Act_delete | Act_execute | Act_manage

type_synonym Permission = "RbacResource \<times> Action"

definition allResources :: "RbacResource list" where
  "allResources = [Res_sessions, Res_workflows, Res_triggers, Res_connectors, Res_memory, Res_apiKeys, Res_users, Res_settings,
     Res_observability, Res_approval, Res_ask, Res_run, Res_provider, Res_toolResult, Res_organizations, Res_todos, Res_files, Res_workdirs]"

definition allActions :: "Action list" where
  "allActions = [Act_create, Act_read, Act_update, Act_delete, Act_execute, Act_manage]"

definition generateAllPermissions :: "Permission list" where
  "generateAllPermissions = concat (map (\<lambda>resource. map (\<lambda>action. (resource, action)) allActions) allResources)"

definition generateUserPermissions :: "Permission list" where
  "generateUserPermissions =
     concat (map (\<lambda>resource. map (\<lambda>action. (resource, action)) [Act_create, Act_read, Act_update, Act_delete])
       [Res_sessions, Res_workflows, Res_triggers, Res_memory, Res_todos, Res_workdirs]) @
     concat (map (\<lambda>resource. map (\<lambda>action. (resource, action)) [Act_create, Act_read, Act_delete]) [Res_files]) @
     [(Res_connectors, Act_read), (Res_observability, Act_read), (Res_apiKeys, Act_read), (Res_apiKeys, Act_create),
      (Res_apiKeys, Act_delete), (Res_approval, Act_read), (Res_approval, Act_update), (Res_ask, Act_read), (Res_ask, Act_update),
      (Res_run, Act_read), (Res_provider, Act_read), (Res_toolResult, Act_read), (Res_organizations, Act_read)]"

definition generateServicePermissions :: "Permission list" where
  "generateServicePermissions = map (\<lambda>resource. (resource, Act_execute)) [Res_workflows, Res_triggers, Res_connectors] @ [(Res_sessions, Act_read)]"

definition ROLE_PERMISSIONS :: "Role \<Rightarrow> Permission list" where
  "ROLE_PERMISSIONS role = (case role of RoleAdmin \<Rightarrow> generateAllPermissions | RoleUser \<Rightarrow> generateUserPermissions
     | RoleService \<Rightarrow> generateServicePermissions)"

definition hasPermission :: "Role \<Rightarrow> RbacResource \<Rightarrow> Action \<Rightarrow> bool" where
  "hasPermission role resource action = list_ex (\<lambda>p. fst p = resource \<and> snd p = action) (ROLE_PERMISSIONS role)"

record OwnershipContext =
  oc_userId :: string
  oc_resourceOwnerId :: string

definition OWNERSHIP_REQUIRED_RESOURCES :: "RbacResource list" where
  "OWNERSHIP_REQUIRED_RESOURCES = [Res_sessions, Res_workflows, Res_triggers, Res_memory, Res_apiKeys, Res_files]"

definition rbacCheckPermission :: "Role \<Rightarrow> RbacResource \<Rightarrow> Action \<Rightarrow> OwnershipContext option \<Rightarrow> bool" where
  "rbacCheckPermission role resource action context =
     (if \<not> hasPermission role resource action then False
      else if role = RoleAdmin \<or> role = RoleService then True
      else if context \<noteq> None \<and> resource \<in> set OWNERSHIP_REQUIRED_RESOURCES
      then oc_userId (the context) = oc_resourceOwnerId (the context)
      else True)"

definition filterResources :: "Role \<Rightarrow> RbacResource list \<Rightarrow> Action \<Rightarrow> RbacResource list" where
  "filterResources role resources action = filter (\<lambda>resource. hasPermission role resource action) resources"

section \<open>Tool risk\<close>

record CatalogEntry =
  te_name :: string
  te_category :: string
  te_sensitivity :: string
  te_requiresPermission :: bool

record ToolRiskPolicy =
  trp_toolName :: string
  trp_riskLevel :: RiskLevel
  trp_requiresApproval :: bool
  trp_canAutoGrant :: bool
  trp_auditLevel :: string

definition DANGEROUS_CATEGORIES :: "string list" where
  "DANGEROUS_CATEGORIES = [''write'', ''delete'', ''send'', ''execute'', ''automation'', ''admin'', ''connector'']"

definition determineRiskLevel :: "string \<Rightarrow> string \<Rightarrow> RiskLevel" where
  "determineRiskLevel category sensitivity =
     (if sensitivity = ''restricted'' then (if category = ''admin'' \<or> category = ''connector'' then RiskCritical else RiskHigh)
      else if sensitivity = ''high'' then (if category \<in> set DANGEROUS_CATEGORIES then RiskHigh else RiskMedium)
      else if sensitivity = ''medium'' then (if category = ''automation'' then RiskHigh else RiskMedium)
      else if sensitivity = ''low'' then RiskLow
      else RiskMedium)"

definition riskPolicyOf :: "CatalogEntry \<Rightarrow> ToolRiskPolicy" where
  "riskPolicyOf entry = \<lparr>trp_toolName = te_name entry,
     trp_riskLevel = determineRiskLevel (te_category entry) (te_sensitivity entry),
     trp_requiresApproval = (te_category entry \<in> {''write'', ''delete'', ''send'', ''execute''} \<or> te_requiresPermission entry),
     trp_canAutoGrant = (te_sensitivity entry = ''low'' \<or> (te_sensitivity entry = ''medium'' \<and> te_category entry = ''read'')),
     trp_auditLevel = (if te_sensitivity entry = ''low'' then ''low'' else if te_sensitivity entry = ''medium'' then ''medium'' else ''high'')\<rparr>"

definition buildRiskPoliciesFromCatalog :: "CatalogEntry list \<Rightarrow> ToolRiskPolicy list" where
  "buildRiskPoliciesFromCatalog entries = map riskPolicyOf entries"

definition getToolRiskPolicy :: "ToolRiskPolicy list \<Rightarrow> string \<Rightarrow> ToolRiskPolicy option" where
  "getToolRiskPolicy defaultPolicies toolName = find (\<lambda>p. trp_toolName p = toolName) defaultPolicies"

definition requiresApprovalByRisk :: "RiskLevel \<Rightarrow> bool" where
  "requiresApprovalByRisk riskLevel = (riskLevel = RiskHigh \<or> riskLevel = RiskCritical)"

section \<open>Envelopes\<close>

record AgentTypeToolEnvelope =
  env_agentType :: string
  env_allowedCategories :: "string list"
  env_deniedToolIds :: "string list"
  env_allowedToolIds :: "string list option"
  env_categoryExceptionToolIds :: "string list option"

definition SAFE_CATEGORIES :: "string list" where
  "SAFE_CATEGORIES = [''read'', ''search'', ''internal'']"

definition MAIN_ENVELOPE :: AgentTypeToolEnvelope where
  "MAIN_ENVELOPE = \<lparr>env_agentType = ''main'', env_allowedCategories = SAFE_CATEGORIES, env_deniedToolIds = [],
     env_allowedToolIds = None, env_categoryExceptionToolIds = Some [''file_write'', ''file_edit'', ''file_apply_patch'']\<rparr>"

definition SUBAGENT_ENVELOPE :: AgentTypeToolEnvelope where
  "SUBAGENT_ENVELOPE = \<lparr>env_agentType = ''subagent'', env_allowedCategories = [''read'', ''search'', ''internal'', ''write''],
     env_deniedToolIds = [''exec'', ''bash'', ''code_execution'', ''admin_config'', ''manage_users''],
     env_allowedToolIds = None, env_categoryExceptionToolIds = None\<rparr>"

definition BACKGROUND_ENVELOPE :: AgentTypeToolEnvelope where
  "BACKGROUND_ENVELOPE = \<lparr>env_agentType = ''background'', env_allowedCategories = [''read'', ''search'', ''internal''],
     env_deniedToolIds = [], env_allowedToolIds = None, env_categoryExceptionToolIds = Some [''todowrite'', ''todolist'']\<rparr>"

definition WORKFLOW_STEP_ENVELOPE :: AgentTypeToolEnvelope where
  "WORKFLOW_STEP_ENVELOPE = \<lparr>env_agentType = ''workflow_step'',
     env_allowedCategories = [''read'', ''search'', ''internal'', ''write'', ''execute''],
     env_deniedToolIds = [''admin_config'', ''manage_users''], env_allowedToolIds = None, env_categoryExceptionToolIds = None\<rparr>"

definition REMOTE_ENVELOPE :: AgentTypeToolEnvelope where
  "REMOTE_ENVELOPE = \<lparr>env_agentType = ''remote'', env_allowedCategories = [], env_deniedToolIds = [],
     env_allowedToolIds = None, env_categoryExceptionToolIds = None\<rparr>"

definition ALL_ENVELOPES :: "AgentTypeToolEnvelope list" where
  "ALL_ENVELOPES = [MAIN_ENVELOPE, SUBAGENT_ENVELOPE, BACKGROUND_ENVELOPE, WORKFLOW_STEP_ENVELOPE, REMOTE_ENVELOPE]"

definition envelopeMap :: "(string, AgentTypeToolEnvelope) jsmap" where
  "envelopeMap = fold (\<lambda>e m. mapSet (env_agentType e) e m) ALL_ENVELOPES []"

definition memberOpt :: "string \<Rightarrow> string list option \<Rightarrow> bool" where
  "memberOpt x s = (case s of None \<Rightarrow> False | Some xs \<Rightarrow> x \<in> set xs)"

definition isToolAllowedByEnvelope :: "string \<Rightarrow> string \<Rightarrow> string \<Rightarrow> bool" where
  "isToolAllowedByEnvelope agentType toolId toolCategory = (case mapGet envelopeMap agentType of
     None \<Rightarrow> False
   | Some envelope \<Rightarrow>
       if agentType = ''remote'' then False
       else if toolId = ''ask_user'' \<and> agentType \<noteq> ''main'' then False
       else if toolId \<in> set (env_deniedToolIds envelope) then False
       else if memberOpt toolId (env_categoryExceptionToolIds envelope) then True
       else if length (nullish (env_allowedToolIds envelope) []) > 0 then memberOpt toolId (env_allowedToolIds envelope)
       else toolCategory \<in> set (env_allowedCategories envelope))"

definition getAllowedToolIds :: "string \<Rightarrow> (string \<times> string) list \<Rightarrow> string list" where
  "getAllowedToolIds agentType catalog = map fst (filter (\<lambda>tool. isToolAllowedByEnvelope agentType (fst tool) (snd tool)) catalog)"

text \<open>A \<open>Set\<close> built from an array is the array without its repetitions, in order of first occurrence.\<close>

fun dedupe :: "string list \<Rightarrow> string list \<Rightarrow> string list" where
  "dedupe seen [] = []"
| "dedupe seen (x # xs) = (if x \<in> set seen then dedupe seen xs else x # dedupe (x # seen) xs)"

definition intersectToolIdSets :: "string list option list \<Rightarrow> string list" where
  "intersectToolIdSets sets = (let definedSets = List.map_filter (\<lambda>s. s) sets in
     if length definedSets = 0 then []
     else fold (\<lambda>currentSet baseSet. filter (\<lambda>i. i \<in> set currentSet) baseSet) (tl definedSets) (dedupe [] (hd definedSets)))"

section \<open>Correctness\<close>

lemma dedupe_set: "set (dedupe seen xs) = set xs - set seen" and dedupe_distinct: "distinct (dedupe seen xs)"
  by (induction seen xs rule: dedupe.induct) auto

lemma fold_filter: "fold (\<lambda>c b. filter (\<lambda>i. i \<in> set c) b) cs b = filter (\<lambda>i. \<forall>c \<in> set cs. i \<in> set c) b"
  by (induction cs arbitrary: b) (auto simp: conj_commute)

lemma intersect_mem:
  "i \<in> set (intersectToolIdSets sets) \<longleftrightarrow> (\<exists>s. Some s \<in> set sets) \<and> (\<forall>s. Some s \<in> set sets \<longrightarrow> i \<in> set s)"
proof -
  let ?d = "List.map_filter (\<lambda>s. s) sets"
  have d: "s \<in> set ?d \<longleftrightarrow> Some s \<in> set sets" for s by (force simp: List.map_filter_def)
  show ?thesis
  proof (cases ?d)
    case Nil
    then show ?thesis using d by (auto simp: intersectToolIdSets_def)
  next
    case (Cons x xs)
    then have "i \<in> set (intersectToolIdSets sets) \<longleftrightarrow> (\<forall>s \<in> set ?d. i \<in> set s)"
      by (auto simp: intersectToolIdSets_def fold_filter dedupe_set)
    then show ?thesis using d Cons by (metis list.set_intros(1))
  qed
qed

lemma intersect_distinct: "distinct (intersectToolIdSets sets)"
  by (simp add: intersectToolIdSets_def fold_filter dedupe_distinct Let_def)

lemma envelope_cases:
  "mapGet envelopeMap agentType = (if agentType = ''main'' then Some MAIN_ENVELOPE
     else if agentType = ''subagent'' then Some SUBAGENT_ENVELOPE else if agentType = ''background'' then Some BACKGROUND_ENVELOPE
     else if agentType = ''workflow_step'' then Some WORKFLOW_STEP_ENVELOPE else if agentType = ''remote'' then Some REMOTE_ENVELOPE else None)"
  by (simp add: envelopeMap_def ALL_ENVELOPES_def MAIN_ENVELOPE_def SUBAGENT_ENVELOPE_def BACKGROUND_ENVELOPE_def
      WORKFLOW_STEP_ENVELOPE_def REMOTE_ENVELOPE_def)

text \<open>What each envelope grants.\<close>

lemma main_envelope:
  "isToolAllowedByEnvelope ''main'' i c \<Longrightarrow> c \<in> set SAFE_CATEGORIES \<or> i \<in> {''file_write'', ''file_edit'', ''file_apply_patch''}"
  by (simp add: isToolAllowedByEnvelope_def envelope_cases MAIN_ENVELOPE_def memberOpt_def nullish_def split: if_splits)

lemma background_envelope:
  "isToolAllowedByEnvelope ''background'' i c \<Longrightarrow> c \<in> set SAFE_CATEGORIES \<or> i \<in> {''todowrite'', ''todolist''}"
  by (simp add: isToolAllowedByEnvelope_def envelope_cases BACKGROUND_ENVELOPE_def SAFE_CATEGORIES_def memberOpt_def nullish_def split: if_splits)

lemma subagent_envelope: "isToolAllowedByEnvelope ''subagent'' i c \<Longrightarrow> c \<in> set (''write'' # SAFE_CATEGORIES)"
  by (simp add: isToolAllowedByEnvelope_def envelope_cases SUBAGENT_ENVELOPE_def SAFE_CATEGORIES_def memberOpt_def nullish_def split: if_splits) blast

lemma no_envelope:
  "isToolAllowedByEnvelope t i c \<Longrightarrow> t = ''main'' \<or> t = ''subagent'' \<or> t = ''background'' \<or> t = ''workflow_step''"
  by (simp add: isToolAllowedByEnvelope_def envelope_cases split: if_splits)

lemma safe_not_execute: "''execute'' \<notin> set (''write'' # SAFE_CATEGORIES)"
  by (simp add: SAFE_CATEGORIES_def)

lemma envelope_grants:
  assumes "isToolAllowedByEnvelope t i c"
  shows "t \<in> {''main'', ''subagent'', ''background'', ''workflow_step''} \<and>
     (t = ''background'' \<longrightarrow> c \<in> set SAFE_CATEGORIES \<or> i \<in> {''todowrite'', ''todolist''}) \<and>
     (t = ''main'' \<longrightarrow> c \<in> set SAFE_CATEGORIES \<or> i \<in> {''file_write'', ''file_edit'', ''file_apply_patch''}) \<and>
     (c = ''execute'' \<longrightarrow> t = ''workflow_step'' \<or> i \<in> {''todowrite'', ''todolist'', ''file_write'', ''file_edit'', ''file_apply_patch''})"
proof -
  consider (m) "t = ''main''" | (s) "t = ''subagent''" | (b) "t = ''background''" | (w) "t = ''workflow_step''"
    using no_envelope [OF assms] by blast
  then show ?thesis
  proof cases
    case m
    then show ?thesis using main_envelope [of i c] assms safe_not_execute by auto
  next
    case s
    then show ?thesis using subagent_envelope [of i c] assms safe_not_execute by auto
  next
    case b
    then show ?thesis using background_envelope [of i c] assms safe_not_execute by auto
  next
    case w
    then show ?thesis by simp
  qed
qed

text \<open>
  No profile or policy can widen an agent's envelope: whatever other sets are intersected with the tools its
  envelope allows, every effective tool is in the catalog with a category the envelope accepts. A remote or
  unknown agent gets nothing, an unattended background agent only tools without side effects and the todo
  tools, and no agent but the workflow step executes.
\<close>

theorem effective_tools_within_envelope:
  assumes "Some (getAllowedToolIds agentType catalog) \<in> set sets" "i \<in> set (intersectToolIdSets sets)"
  shows "\<exists>category. (i, category) \<in> set catalog \<and> isToolAllowedByEnvelope agentType i category \<and>
     agentType \<in> {''main'', ''subagent'', ''background'', ''workflow_step''} \<and>
     (agentType = ''background'' \<longrightarrow> category \<in> set SAFE_CATEGORIES \<or> i \<in> {''todowrite'', ''todolist''}) \<and>
     (agentType = ''main'' \<longrightarrow> category \<in> set SAFE_CATEGORIES \<or> i \<in> {''file_write'', ''file_edit'', ''file_apply_patch''}) \<and>
     (category = ''execute'' \<longrightarrow> agentType = ''workflow_step'' \<or> i \<in> {''todowrite'', ''todolist'', ''file_write'', ''file_edit'', ''file_apply_patch''})"
proof -
  have "i \<in> set (getAllowedToolIds agentType catalog)" using assms intersect_mem by blast
  then obtain category where c: "(i, category) \<in> set catalog" "isToolAllowedByEnvelope agentType i category"
    by (auto simp: getAllowedToolIds_def)
  show ?thesis using envelope_grants [OF c(2)] c by (intro exI [of _ category]) simp
qed

theorem effective_tools_within_envelope_witness:
  "\<exists>category. (''web'', category) \<in> set [(''web'', ''search''), (''rm'', ''delete'')] \<and> isToolAllowedByEnvelope ''main'' ''web'' category"
proof -
  have "Some (getAllowedToolIds ''main'' [(''web'', ''search''), (''rm'', ''delete'')]) \<in>
      set [Some [''web'', ''rm''], Some (getAllowedToolIds ''main'' [(''web'', ''search''), (''rm'', ''delete'')])]" by simp
  moreover have "''web'' \<in> set (intersectToolIdSets [Some [''web'', ''rm''], Some (getAllowedToolIds ''main'' [(''web'', ''search''), (''rm'', ''delete'')])])"
    by code_simp
  ultimately show ?thesis using effective_tools_within_envelope by blast
qed

text \<open>
  Role checks: a service account can only execute and read, a user without ownership of a session,
  workflow, trigger, memory, key or file is refused every action on it, and whatever a role may do the
  administrator may do.
\<close>

theorem rbac_roles_confined:
  assumes "rbacCheckPermission role resource action (Some c)"
  shows "(role = RoleService \<longrightarrow> action = Act_execute \<or> action = Act_read) \<and>
     (role = RoleUser \<longrightarrow> resource \<in> set OWNERSHIP_REQUIRED_RESOURCES \<longrightarrow> oc_userId c = oc_resourceOwnerId c) \<and>
     rbacCheckPermission RoleAdmin resource action (Some c)"
proof -
  have p: "hasPermission role resource action" using assms by (simp add: rbacCheckPermission_def split: if_splits)
  have "hasPermission RoleAdmin resource action"
    by (cases resource; cases action) (simp_all add: hasPermission_def ROLE_PERMISSIONS_def generateAllPermissions_def allResources_def allActions_def)
  then have "rbacCheckPermission RoleAdmin resource action (Some c)" by (simp add: rbacCheckPermission_def)
  moreover have "role = RoleService \<Longrightarrow> action = Act_execute \<or> action = Act_read"
    using p by (auto simp: hasPermission_def ROLE_PERMISSIONS_def generateServicePermissions_def)
  ultimately show ?thesis using assms by (auto simp: rbacCheckPermission_def split: if_splits)
qed

theorem rbac_roles_confined_witness:
  "rbacCheckPermission RoleAdmin Res_files Act_read (Some \<lparr>oc_userId = ''u'', oc_resourceOwnerId = ''u''\<rparr>)"
proof -
  have "rbacCheckPermission RoleUser Res_files Act_read (Some \<lparr>oc_userId = ''u'', oc_resourceOwnerId = ''u''\<rparr>)" by code_simp
  from rbac_roles_confined [OF this] show ?thesis by blast
qed

text \<open>
  Ownership of todos and working directories is not checked: a user may create, read, update and delete
  them for any owner, because these two resources of the users' own set are missing from the set that requires
  ownership.
\<close>

theorem foreign_workdir_allowed:
  "rbacCheckPermission RoleUser Res_workdirs Act_delete (Some \<lparr>oc_userId = u, oc_resourceOwnerId = v\<rparr>) \<and>
   rbacCheckPermission RoleUser Res_todos Act_update (Some \<lparr>oc_userId = u, oc_resourceOwnerId = v\<rparr>)"
  by (simp add: rbacCheckPermission_def hasPermission_def ROLE_PERMISSIONS_def generateUserPermissions_def OWNERSHIP_REQUIRED_RESOURCES_def)

text \<open>Risk grows with sensitivity, whatever the category.\<close>

lemma risk_monotone:
  "riskIndex (riskName (determineRiskLevel c ''low'')) \<le> riskIndex (riskName (determineRiskLevel c ''medium'')) \<and>
   riskIndex (riskName (determineRiskLevel c ''medium'')) \<le> riskIndex (riskName (determineRiskLevel c ''high'')) \<and>
   riskIndex (riskName (determineRiskLevel c ''high'')) \<le> riskIndex (riskName (determineRiskLevel c ''restricted''))"
  by (simp add: determineRiskLevel_def DANGEROUS_CATEGORIES_def) code_simp

end
