(* ===== verification/Session_Turns.thy ===== *)
theory Session_Turns
  imports Prelude "HOL-Library.Multiset"
begin

text \<open>
  The per-session concurrency guard (\<open>processing/session-busy-tracker.ts\<close>). Turns of a session run one at a
  time: \<open>withBusy\<close> takes the busy slot or queues behind it, and \<open>clearBusy\<close> hands the slot to the oldest
  waiter or frees the session and fires its idle callbacks.

  JavaScript runs each of these pieces without interruption and interleaves them at every \<open>await\<close>. The
  model follows that: the synchronous pieces are functions on the tracker, a call of \<open>withBusy\<close> is a turn with
  a phase (queued; woken, when its promise is resolved and its continuation not yet run; active, inside
  \<open>fn\<close>; finished), and a step relation lets the pieces of all turns interleave in any order. What an idle
  callback does with the tracker is a step of its own, after the loop that fires the callbacks.
\<close>

section \<open>The tracker\<close>

record SessionBusyEntry =
  sb_running :: bool
  sb_idleCallbacks :: "nat list"
  sb_queue :: "nat list"

datatype phase = Queued | Woken | Active | Finished

record tracker =
  bt_entries :: "(string, SessionBusyEntry) jsmap"
  bt_turns :: "nat \<Rightarrow> (string \<times> phase) option"
  bt_fired :: "nat list"
  bt_microtasks :: "nat list"

definition newEntry :: SessionBusyEntry where
  "newEntry = \<lparr>sb_running = False, sb_idleCallbacks = [], sb_queue = []\<rparr>"

text \<open>\<open>getOrCreateEntry\<close>: the entry; the functions below store it back when they change it.\<close>

definition getOrCreateEntry :: "(string, SessionBusyEntry) jsmap \<Rightarrow> string \<Rightarrow> SessionBusyEntry" where
  "getOrCreateEntry m sid = nullish (mapGet m sid) newEntry"

definition isBusy :: "tracker \<Rightarrow> string \<Rightarrow> bool" where
  "isBusy s sid = (case mapGet (bt_entries s) sid of None \<Rightarrow> False | Some e \<Rightarrow> sb_running e)"

definition markBusy :: "string \<Rightarrow> tracker \<Rightarrow> tracker" where
  "markBusy sid s = s\<lparr>bt_entries := mapSet sid ((getOrCreateEntry (bt_entries s) sid)\<lparr>sb_running := True\<rparr>) (bt_entries s)\<rparr>"

definition drainIdleCallbacks :: "string \<Rightarrow> SessionBusyEntry \<Rightarrow> tracker \<Rightarrow> tracker" where
  "drainIdleCallbacks sid e s = s\<lparr>bt_entries := mapSet sid (e\<lparr>sb_idleCallbacks := []\<rparr>) (bt_entries s),
     bt_fired := bt_fired s @ sb_idleCallbacks e\<rparr>"

definition setPhase :: "nat \<Rightarrow> string \<Rightarrow> phase \<Rightarrow> tracker \<Rightarrow> tracker" where
  "setPhase t sid p s = s\<lparr>bt_turns := (bt_turns s)(t \<mapsto> (sid, p))\<rparr>"

definition clearBusy :: "string \<Rightarrow> tracker \<Rightarrow> tracker" where
  "clearBusy sid s = (case mapGet (bt_entries s) sid of
     None \<Rightarrow> s
   | Some entry \<Rightarrow> (case sb_queue entry of
       nxt # rest \<Rightarrow> setPhase nxt sid Woken (s\<lparr>bt_entries := mapSet sid (entry\<lparr>sb_queue := rest\<rparr>) (bt_entries s)\<rparr>)
     | [] \<Rightarrow> drainIdleCallbacks sid (entry\<lparr>sb_running := False\<rparr>) s))"

text \<open>\<open>withBusy\<close> up to its first \<open>await\<close>, and its \<open>finally\<close> block.\<close>

definition withBusyStart :: "nat \<Rightarrow> string \<Rightarrow> tracker \<Rightarrow> tracker" where
  "withBusyStart t sid s = (let entry = getOrCreateEntry (bt_entries s) sid in
     if \<not> sb_running entry
     then setPhase t sid Active (s\<lparr>bt_entries := mapSet sid (entry\<lparr>sb_running := True\<rparr>) (bt_entries s)\<rparr>)
     else setPhase t sid Queued (s\<lparr>bt_entries := mapSet sid (entry\<lparr>sb_queue := sb_queue entry @ [t]\<rparr>) (bt_entries s)\<rparr>))"

definition withBusyEnd :: "nat \<Rightarrow> string \<Rightarrow> tracker \<Rightarrow> tracker" where
  "withBusyEnd t sid s = clearBusy sid (setPhase t sid Finished s)"

definition onIdle :: "string \<Rightarrow> nat \<Rightarrow> tracker \<Rightarrow> tracker" where
  "onIdle sid cb s = (let entry = getOrCreateEntry (bt_entries s) sid in
     if \<not> sb_running entry then s\<lparr>bt_entries := mapSet sid entry (bt_entries s), bt_microtasks := bt_microtasks s @ [cb]\<rparr>
     else s\<lparr>bt_entries := mapSet sid (entry\<lparr>sb_idleCallbacks := sb_idleCallbacks entry @ [cb]\<rparr>) (bt_entries s)\<rparr>)"

section \<open>Interleavings\<close>

datatype turn_event = Start nat string | Resume nat string | End nat string | OnIdle string nat | Microtask

inductive turn_step :: "tracker \<Rightarrow> turn_event \<Rightarrow> tracker \<Rightarrow> bool" where
  start: "bt_turns s t = None \<Longrightarrow> turn_step s (Start t sid) (withBusyStart t sid s)"
| resume: "bt_turns s t = Some (sid, Woken) \<Longrightarrow> turn_step s (Resume t sid) (setPhase t sid Active s)"
| ending: "bt_turns s t = Some (sid, Active) \<Longrightarrow> turn_step s (End t sid) (withBusyEnd t sid s)"
| onIdle: "turn_step s (OnIdle sid cb) (onIdle sid cb s)"
| microtask: "bt_microtasks s = cb # rest \<Longrightarrow> turn_step s Microtask (s\<lparr>bt_microtasks := rest, bt_fired := bt_fired s @ [cb]\<rparr>)"

inductive turn_run :: "tracker \<Rightarrow> turn_event list \<Rightarrow> tracker \<Rightarrow> bool" where
  nil: "turn_run s [] s"
| cons: "turn_step s ev s' \<Longrightarrow> turn_run s' evs s'' \<Longrightarrow> turn_run s (ev # evs) s''"

inductive_cases turn_run_NilE [elim!]: "turn_run s [] s'"
inductive_cases turn_run_ConsE [elim!]: "turn_run s (ev # evs) s''"
inductive_cases turn_step_EndE: "turn_step s (End t sid) s'"

definition emptyTracker :: tracker where
  "emptyTracker = \<lparr>bt_entries = [], bt_turns = (\<lambda>_. None), bt_fired = [], bt_microtasks = []\<rparr>"

section \<open>The invariant\<close>

definition holds :: "tracker \<Rightarrow> string \<Rightarrow> nat \<Rightarrow> bool" where
  "holds s sid t = (bt_turns s t = Some (sid, Woken) \<or> bt_turns s t = Some (sid, Active))"

definition sessionInv :: "tracker \<Rightarrow> string \<Rightarrow> bool" where
  "sessionInv s sid = (let e = getOrCreateEntry (bt_entries s) sid in
     distinct (sb_queue e) \<and> (\<forall>t. t \<in> set (sb_queue e) \<longleftrightarrow> bt_turns s t = Some (sid, Queued)) \<and>
     (\<forall>t u. holds s sid t \<longrightarrow> holds s sid u \<longrightarrow> t = u) \<and>
     (if sb_running e then \<exists>t. holds s sid t else (\<forall>t. \<not> holds s sid t) \<and> sb_queue e = [] \<and> sb_idleCallbacks e = []))"

definition trackerInv :: "tracker \<Rightarrow> bool" where
  "trackerInv s = (\<forall>sid. sessionInv s sid)"

lemma entry_mapSet [simp]:
  "getOrCreateEntry (mapSet sid e m) sid' = (if sid' = sid then e else getOrCreateEntry m sid')"
  by (simp add: getOrCreateEntry_def nullish_def)

lemma setPhase_simps [simp]:
  "bt_entries (setPhase t sid p s) = bt_entries s" "bt_turns (setPhase t sid p s) = (bt_turns s)(t \<mapsto> (sid, p))"
  "bt_microtasks (setPhase t sid p s) = bt_microtasks s" "bt_fired (setPhase t sid p s) = bt_fired s"
  by (simp_all add: setPhase_def)

lemma drain_simps [simp]:
  "bt_entries (drainIdleCallbacks sid e s) = mapSet sid (e\<lparr>sb_idleCallbacks := []\<rparr>) (bt_entries s)"
  "bt_turns (drainIdleCallbacks sid e s) = bt_turns s"
  by (simp_all add: drainIdleCallbacks_def)

lemma inv_empty: "trackerInv emptyTracker"
  by (simp add: trackerInv_def sessionInv_def emptyTracker_def getOrCreateEntry_def nullish_def newEntry_def holds_def Let_def)

lemma sessionInv_frame:
  assumes "getOrCreateEntry (bt_entries s') sid = getOrCreateEntry (bt_entries s) sid"
    and "\<And>t ph. ph \<noteq> Finished \<Longrightarrow> bt_turns s' t = Some (sid, ph) \<longleftrightarrow> bt_turns s t = Some (sid, ph)"
  shows "sessionInv s' sid = sessionInv s sid"
proof -
  have "holds s' sid = holds s sid" using assms(2) by (simp add: holds_def fun_eq_iff)
  then show ?thesis using assms by (simp add: sessionInv_def)
qed

lemma entry_withBusyStart:
  "getOrCreateEntry (bt_entries (withBusyStart t sid s)) sid' = (let e = getOrCreateEntry (bt_entries s) sid' in
     if sid' \<noteq> sid then e else if sb_running e then e\<lparr>sb_queue := sb_queue e @ [t]\<rparr> else e\<lparr>sb_running := True\<rparr>)"
  by (simp add: withBusyStart_def Let_def)

lemma turns_withBusyStart:
  "bt_turns (withBusyStart t sid s) =
     (bt_turns s)(t \<mapsto> (sid, if sb_running (getOrCreateEntry (bt_entries s) sid) then Queued else Active))"
  by (simp add: withBusyStart_def Let_def)

lemma inv_start:
  assumes "trackerInv s" "bt_turns s t = None"
  shows "trackerInv (withBusyStart t sid s)"
proof -
  let ?e = "getOrCreateEntry (bt_entries s) sid" and ?s = "withBusyStart t sid s"
  have si: "sessionInv s sid'" for sid' using assms(1) by (simp add: trackerInv_def)
  have "sessionInv ?s sid'" if "sid' \<noteq> sid" for sid'
    using si [of sid'] that assms(2)
    by (subst sessionInv_frame [where s = s]) (auto simp: entry_withBusyStart turns_withBusyStart Let_def)
  moreover have "sessionInv ?s sid"
  proof (cases "sb_running ?e")
    case True
    then have "holds ?s sid = holds s sid" using assms(2) by (auto simp: holds_def turns_withBusyStart fun_eq_iff)
    moreover have "t \<notin> set (sb_queue ?e)" using si [of sid] assms(2) by (auto simp: sessionInv_def Let_def)
    ultimately show ?thesis using True si [of sid]
      by (auto simp: sessionInv_def entry_withBusyStart turns_withBusyStart Let_def)
  next
    case False
    then have "holds ?s sid = (\<lambda>u. u = t)" using si [of sid]
      by (auto simp: holds_def turns_withBusyStart fun_eq_iff sessionInv_def Let_def)
    then show ?thesis using False si [of sid]
      by (auto simp: sessionInv_def entry_withBusyStart turns_withBusyStart Let_def)
  qed
  ultimately show ?thesis by (metis trackerInv_def)
qed

lemma inv_resume:
  assumes "trackerInv s" "bt_turns s t = Some (sid, Woken)"
  shows "trackerInv (setPhase t sid Active s)"
proof -
  have "holds (setPhase t sid Active s) = holds s" using assms(2) by (auto simp: holds_def fun_eq_iff)
  moreover have "bt_turns (setPhase t sid Active s) u = Some (sid', Queued) \<longleftrightarrow> bt_turns s u = Some (sid', Queued)" for u sid'
    using assms(2) by auto
  ultimately show ?thesis using assms(1) by (simp add: trackerInv_def sessionInv_def Let_def)
qed

text \<open>When the holder of a running session ends, its entry is in the map.\<close>

lemma holder_entry:
  assumes "trackerInv s" "holds s sid t"
  obtains e where "mapGet (bt_entries s) sid = Some e" "sb_running e" "getOrCreateEntry (bt_entries s) sid = e"
proof -
  have "sb_running (getOrCreateEntry (bt_entries s) sid)"
    using assms by (auto simp: trackerInv_def sessionInv_def Let_def split: if_splits)
  then show ?thesis using that
    by (cases "mapGet (bt_entries s) sid") (auto simp: getOrCreateEntry_def nullish_def newEntry_def)
qed

lemma inv_end:
  assumes "trackerInv s" "bt_turns s t = Some (sid, Active)"
  shows "trackerInv (withBusyEnd t sid s)"
proof -
  have h: "holds s sid t" using assms(2) by (simp add: holds_def)
  obtain e where e: "mapGet (bt_entries s) sid = Some e" "sb_running e" "getOrCreateEntry (bt_entries s) sid = e"
    using holder_entry [OF assms(1) h] .
  have si: "sessionInv s sid" using assms(1) by (simp add: trackerInv_def)
  have others: "\<not> holds s sid u" if "u \<noteq> t" for u using si h that by (auto simp: sessionInv_def Let_def)
  have other: "sessionInv (withBusyEnd t sid s) sid'" if "sid' \<noteq> sid" for sid'
  proof -
    have "bt_turns s nxt = Some (sid, Queued)" if "sb_queue e = nxt # rest" for nxt rest
      using si e(3) that by (simp add: sessionInv_def Let_def) (metis list.set_intros(1))
    then have "sessionInv (withBusyEnd t sid s) sid' = sessionInv s sid'"
      using that assms(2) e
      by (intro sessionInv_frame) (auto simp: withBusyEnd_def clearBusy_def split: list.splits)
    then show ?thesis using assms(1) by (simp add: trackerInv_def)
  qed
  have same: "sessionInv (withBusyEnd t sid s) sid"
  proof (cases "sb_queue e")
    case Nil
    have "\<not> holds (withBusyEnd t sid s) sid u" for u
      using others [of u] Nil e(1) by (auto simp: withBusyEnd_def clearBusy_def holds_def)
    moreover have "bt_turns s u \<noteq> Some (sid, Queued)" for u
      using si e(3) Nil by (auto simp: sessionInv_def Let_def)
    ultimately show ?thesis using Nil e(1)
      by (simp add: sessionInv_def Let_def) (simp add: withBusyEnd_def clearBusy_def)
  next
    case (Cons nxt rest)
    have q: "distinct (nxt # rest)" "\<forall>u. u \<in> set (nxt # rest) \<longleftrightarrow> bt_turns s u = Some (sid, Queued)"
      using si e(3) Cons by (auto simp: sessionInv_def Let_def)
    then have "bt_turns s nxt = Some (sid, Queued)" by (metis list.set_intros(1))
    then have nt: "nxt \<noteq> t" using assms(2) by auto
    let ?s = "withBusyEnd t sid s"
    have turns: "bt_turns ?s = (bt_turns s)(t \<mapsto> (sid, Finished), nxt \<mapsto> (sid, Woken))"
      and entry: "getOrCreateEntry (bt_entries ?s) sid = e\<lparr>sb_queue := rest\<rparr>"
      using e(1) Cons by (simp_all add: withBusyEnd_def clearBusy_def)
    have holders: "holds ?s sid u \<longleftrightarrow> u = nxt" for u using others turns nt by (auto simp: holds_def)
    have queue: "u \<in> set rest \<longleftrightarrow> bt_turns ?s u = Some (sid, Queued)" for u
      using q turns assms(2) by auto
    show ?thesis unfolding sessionInv_def Let_def entry using holders queue q(1) e(2) by auto
  qed
  show ?thesis using other same by (metis trackerInv_def)
qed

lemma turns_onIdle [simp]: "bt_turns (onIdle sid cb s) = bt_turns s"
  by (simp add: onIdle_def Let_def)

lemma entry_onIdle:
  "getOrCreateEntry (bt_entries (onIdle sid cb s)) sid' = (let e = getOrCreateEntry (bt_entries s) sid' in
     if sid' = sid \<and> sb_running e then e\<lparr>sb_idleCallbacks := sb_idleCallbacks e @ [cb]\<rparr> else e)"
  by (simp add: onIdle_def Let_def)

lemma inv_onIdle: "trackerInv s \<Longrightarrow> trackerInv (onIdle sid cb s)"
proof -
  have "holds (onIdle sid cb s) = holds s" by (simp add: holds_def fun_eq_iff)
  then have "sessionInv s sid' \<Longrightarrow> sessionInv (onIdle sid cb s) sid'" for sid'
    by (auto simp: sessionInv_def entry_onIdle Let_def split: if_splits)
  then show "trackerInv s \<Longrightarrow> trackerInv (onIdle sid cb s)" by (simp add: trackerInv_def)
qed

lemma inv_microtask: "trackerInv (s\<lparr>bt_microtasks := ms, bt_fired := fs\<rparr>) = trackerInv s"
proof -
  have "holds (s\<lparr>bt_microtasks := ms, bt_fired := fs\<rparr>) = holds s" by (simp add: holds_def fun_eq_iff)
  then show ?thesis by (simp add: trackerInv_def sessionInv_def)
qed

lemma inv_step: "turn_step s ev s' \<Longrightarrow> trackerInv s \<Longrightarrow> trackerInv s'"
  by (induction rule: turn_step.induct) (auto simp: inv_start inv_resume inv_end inv_onIdle inv_microtask)

lemma inv_run: "turn_run s evs s' \<Longrightarrow> trackerInv s \<Longrightarrow> trackerInv s'"
  by (induction rule: turn_run.induct) (auto intro: inv_step)


section \<open>Mutual exclusion and progress\<close>

text \<open>C13: In every interleaving of turns, resumptions, ends and idle registrations at most one turn of a
  session is inside its function, and a waiting turn is never stranded: as long as a turn of a session is
  queued, the session is busy and either its running turn or the turn just woken has a step to take.\<close>

theorem one_turn_per_session:
  assumes "turn_run emptyTracker evs s"
  shows "(bt_turns s t = Some (sid, Active) \<and> bt_turns s u = Some (sid, Active) \<longrightarrow> t = u) \<and>
    (bt_turns s w = Some (sid, Queued) \<longrightarrow>
       isBusy s sid \<and> (\<exists>h s'. turn_step s (Resume h sid) s' \<or> turn_step s (End h sid) s'))"
proof -
  have inv: "trackerInv s" using inv_run [OF assms inv_empty] .
  then have si: "sessionInv s sid" by (simp add: trackerInv_def)
  have "isBusy s sid \<and> (\<exists>h s'. turn_step s (Resume h sid) s' \<or> turn_step s (End h sid) s')"
    if "bt_turns s w = Some (sid, Queued)"
  proof -
    have "w \<in> set (sb_queue (getOrCreateEntry (bt_entries s) sid))"
      using si that by (simp add: sessionInv_def Let_def)
    then obtain h where h: "holds s sid h" using si by (auto simp: sessionInv_def Let_def split: if_splits)
    obtain e where "mapGet (bt_entries s) sid = Some e" "sb_running e" using holder_entry [OF inv h] .
    then have "isBusy s sid" by (simp add: isBusy_def)
    then show ?thesis using h by (auto simp: holds_def intro: turn_step.resume turn_step.ending)
  qed
  then show ?thesis using si by (auto simp: sessionInv_def holds_def Let_def)
qed

section \<open>First come, first served\<close>

definition endsOf :: "string \<Rightarrow> turn_event list \<Rightarrow> nat" where
  "endsOf sid evs = length (filter (\<lambda>ev. case ev of End _ sid' \<Rightarrow> sid' = sid | _ \<Rightarrow> False) evs)"

lemma queue_step:
  assumes "turn_step s ev s'" "trackerInv s" "sb_queue (getOrCreateEntry (bt_entries s) sid) = xs @ t # ys"
  shows "(\<exists>h. ev = End h sid) \<and> (if xs = [] then bt_turns s' t = Some (sid, Woken)
            else sb_queue (getOrCreateEntry (bt_entries s') sid) = tl xs @ t # ys) \<or>
    (\<forall>h. ev \<noteq> End h sid) \<and> (\<exists>zs. sb_queue (getOrCreateEntry (bt_entries s') sid) = xs @ t # ys @ zs)"
  using assms
proof (cases rule: turn_step.cases)
  case (ending h sid')
  show ?thesis
  proof (cases "sid' = sid")
    case True
    have "holds s sid h" using ending(3) True by (simp add: holds_def)
    then obtain e where "mapGet (bt_entries s) sid = Some e" "getOrCreateEntry (bt_entries s) sid = e"
      using holder_entry [OF assms(2)] by metis
    then show ?thesis using ending True assms(3)
      by (cases xs) (auto simp: withBusyEnd_def clearBusy_def)
  next
    case False
    then show ?thesis using ending assms(3)
      by (auto simp: withBusyEnd_def clearBusy_def split: option.splits list.splits)
  qed
next
  case (start u sid')
  then show ?thesis using assms(3) by (auto simp: entry_withBusyStart Let_def)
next
  case (onIdle sid' cb)
  then show ?thesis using assms(3) by (auto simp: entry_onIdle Let_def)
qed auto

text \<open>A turn that left the queue does not return to it.\<close>

definition admitted :: "tracker \<Rightarrow> string \<Rightarrow> nat \<Rightarrow> bool" where
  "admitted s sid t = (\<exists>ph. ph \<noteq> Queued \<and> bt_turns s t = Some (sid, ph))"

lemma admitted_step:
  assumes "turn_step s ev s'" "trackerInv s" "admitted s sid t"
  shows "admitted s' sid t"
  using assms
proof (cases rule: turn_step.cases)
  case (ending h sid')
  have "bt_turns s nxt = Some (sid', Queued)" if "mapGet (bt_entries s) sid' = Some e" "sb_queue e = nxt # rest" for e nxt rest
  proof -
    have "nxt \<in> set (sb_queue (getOrCreateEntry (bt_entries s) sid'))"
      using that by (simp add: getOrCreateEntry_def nullish_def)
    then show ?thesis using assms(2) by (simp add: trackerInv_def sessionInv_def Let_def)
  qed
  then show ?thesis using ending assms(3)
    by (auto simp: admitted_def withBusyEnd_def clearBusy_def split: option.splits list.splits)
qed (auto simp: admitted_def turns_withBusyStart)

lemma admitted_run:
  "turn_run s evs s' \<Longrightarrow> trackerInv s \<Longrightarrow> admitted s sid t \<Longrightarrow> admitted s' sid t"
  by (induction rule: turn_run.induct) (auto intro: inv_step admitted_step)

lemma bounded_waiting:
  "turn_run s evs s' \<Longrightarrow> trackerInv s \<Longrightarrow> sb_queue (getOrCreateEntry (bt_entries s) sid) = xs @ t # ys \<Longrightarrow>
   length xs < endsOf sid evs \<Longrightarrow> admitted s' sid t"
proof (induction arbitrary: xs ys rule: turn_run.induct)
  case (nil s)
  then show ?case by (simp add: endsOf_def)
next
  case (cons s ev s' evs s'')
  have inv: "trackerInv s'" using inv_step [OF cons.hyps(1) cons.prems(1)] .
  consider (mine) h where "ev = End h sid" | (other) "\<forall>h. ev \<noteq> End h sid" by blast
  then show ?case
  proof cases
    case mine
    show ?thesis
    proof (cases xs)
      case Nil
      then have "admitted s' sid t"
        using queue_step [OF cons.hyps(1) cons.prems(1,2)] mine by (auto simp: admitted_def)
      then show ?thesis using admitted_run [OF cons.hyps(2) inv] by simp
    next
      case (Cons x xs')
      then have "sb_queue (getOrCreateEntry (bt_entries s') sid) = xs' @ t # ys"
        using queue_step [OF cons.hyps(1) cons.prems(1,2)] mine by auto
      then show ?thesis using cons.IH [OF inv] cons.prems(3) mine Cons by (simp add: endsOf_def)
    qed
  next
    case other
    then obtain zs where "sb_queue (getOrCreateEntry (bt_entries s') sid) = xs @ t # ys @ zs"
      using queue_step [OF cons.hyps(1) cons.prems(1,2)] by blast
    moreover have "length xs < endsOf sid evs"
      using cons.prems(3) other by (cases ev) (auto simp: endsOf_def)
    ultimately show ?thesis using cons.IH [OF inv] by blast
  qed
qed

text \<open>C39: Waiting is first come, first served and bounded: a turn with \<open>n\<close> turns before it in the queue of its
  session has been handed the slot once \<open>n + 1\<close> turns of that session have ended, however many turns arrive
  or run in other sessions meanwhile, and it never goes back to waiting.\<close>

theorem queued_turns_served_in_order:
  assumes "turn_run emptyTracker before s" and "turn_run s evs s'"
    and "sb_queue (getOrCreateEntry (bt_entries s) sid) = earlier @ t # later"
    and "length earlier < endsOf sid evs"
  shows "\<exists>ph. ph \<noteq> Queued \<and> bt_turns s' t = Some (sid, ph)"
  using bounded_waiting [OF assms(2) inv_run [OF assms(1) inv_empty] assms(3,4)] by (simp add: admitted_def)

theorem queued_turns_served_in_order_witness:
  "let s = withBusyStart 2 ''s'' (withBusyStart 1 ''s'' (withBusyStart 0 ''s'' emptyTracker));
       s' = withBusyEnd 1 ''s'' (setPhase 1 ''s'' Active (withBusyEnd 0 ''s'' s))
   in sb_queue (getOrCreateEntry (bt_entries s) ''s'') = [1] @ 2 # [] \<and>
      (\<exists>ph. ph \<noteq> Queued \<and> bt_turns s' 2 = Some (''s'', ph))"
proof -
  let ?s = "withBusyStart 2 ''s'' (withBusyStart 1 ''s'' (withBusyStart 0 ''s'' emptyTracker))"
  let ?s' = "withBusyEnd 1 ''s'' (setPhase 1 ''s'' Active (withBusyEnd 0 ''s'' ?s))"
  let ?evs = "[End 0 ''s'', Resume 1 ''s'', End 1 ''s'']"
  note ev = emptyTracker_def withBusyStart_def withBusyEnd_def clearBusy_def setPhase_def Let_def
    getOrCreateEntry_def nullish_def newEntry_def
  have q: "sb_queue (getOrCreateEntry (bt_entries ?s) ''s'') = [1] @ 2 # []" by (simp add: ev)
  have a: "turn_run emptyTracker [Start 0 ''s'', Start 1 ''s'', Start 2 ''s''] ?s"
    by (rule turn_run.cons, rule turn_step.start, simp add: ev)+ (rule turn_run.nil)
  have b: "turn_run ?s ?evs ?s'"
    by (rule turn_run.cons, rule turn_step.ending, simp add: ev, rule turn_run.cons, rule turn_step.resume, simp add: ev,
        rule turn_run.cons, rule turn_step.ending, simp add: ev, rule turn_run.nil)
  have "\<exists>ph. ph \<noteq> Queued \<and> bt_turns ?s' 2 = Some (''s'', ph)"
    by (rule queued_turns_served_in_order [OF a b q]) (simp add: endsOf_def)
  then show ?thesis using q unfolding Let_def by blast
qed

theorem one_turn_per_session_witness:
  "isBusy (withBusyStart 1 ''s'' (withBusyStart 0 ''s'' emptyTracker)) ''s''"
proof -
  let ?s = "withBusyStart 1 ''s'' (withBusyStart 0 ''s'' emptyTracker)"
  note ev = emptyTracker_def withBusyStart_def setPhase_def Let_def getOrCreateEntry_def nullish_def newEntry_def
  have run: "turn_run emptyTracker [Start 0 ''s'', Start 1 ''s''] ?s"
    by (rule turn_run.cons, rule turn_step.start, simp add: ev)+ (rule turn_run.nil)
  moreover have "bt_turns ?s 1 = Some (''s'', Queued)" by (simp add: ev)
  ultimately show ?thesis using one_turn_per_session [OF run, of 0 "''s''" 0 1] by simp
qed

section \<open>Idle callbacks\<close>

definition callbacksOf :: "turn_event list \<Rightarrow> nat list" where
  "callbacksOf evs = concat (map (\<lambda>ev. case ev of OnIdle _ cb \<Rightarrow> [cb] | _ \<Rightarrow> []) evs)"

definition pendingCallbacks :: "(string, SessionBusyEntry) jsmap \<Rightarrow> nat multiset" where
  "pendingCallbacks m = sum_list (map (\<lambda>p. mset (sb_idleCallbacks (snd p))) m)"

definition allCallbacks :: "tracker \<Rightarrow> nat multiset" where
  "allCallbacks s = mset (bt_fired s) + mset (bt_microtasks s) + pendingCallbacks (bt_entries s)"

lemma pending_mapSet:
  "pendingCallbacks (mapSet sid e m) + mset (sb_idleCallbacks (getOrCreateEntry m sid)) =
   pendingCallbacks m + mset (sb_idleCallbacks e)"
  by (induction m) (auto simp: pendingCallbacks_def getOrCreateEntry_def nullish_def newEntry_def)

lemma pending_mapSet_same:
  assumes "sb_idleCallbacks e = sb_idleCallbacks (getOrCreateEntry m sid)"
  shows "pendingCallbacks (mapSet sid e m) = pendingCallbacks m"
  using pending_mapSet [of sid e m] assms by simp

lemma all_start: "allCallbacks (withBusyStart t sid s) = allCallbacks s"
  by (simp add: withBusyStart_def allCallbacks_def Let_def pending_mapSet_same setPhase_def)

lemma all_end: "allCallbacks (withBusyEnd t sid s) = allCallbacks s"
proof (cases "mapGet (bt_entries s) sid")
  case (Some e)
  then have e: "getOrCreateEntry (bt_entries s) sid = e" by (simp add: getOrCreateEntry_def nullish_def)
  show ?thesis
  proof (cases "sb_queue e")
    case Nil
    have "pendingCallbacks (mapSet sid (e\<lparr>sb_running := False, sb_idleCallbacks := []\<rparr>) (bt_entries s)) +
        mset (sb_idleCallbacks e) = pendingCallbacks (bt_entries s)"
      using pending_mapSet [of sid "e\<lparr>sb_running := False, sb_idleCallbacks := []\<rparr>" "bt_entries s"] e by simp
    then show ?thesis using Some Nil
      by (simp add: withBusyEnd_def clearBusy_def drainIdleCallbacks_def allCallbacks_def ac_simps)
  qed (use Some e in \<open>simp add: withBusyEnd_def clearBusy_def allCallbacks_def pending_mapSet_same\<close>)
qed (simp add: withBusyEnd_def clearBusy_def allCallbacks_def)

lemma all_onIdle: "allCallbacks (onIdle sid cb s) = add_mset cb (allCallbacks s)"
proof (cases "sb_running (getOrCreateEntry (bt_entries s) sid)")
  case True
  let ?e = "getOrCreateEntry (bt_entries s) sid"
  have "pendingCallbacks (mapSet sid (?e\<lparr>sb_idleCallbacks := sb_idleCallbacks ?e @ [cb]\<rparr>) (bt_entries s)) =
      add_mset cb (pendingCallbacks (bt_entries s))"
    using pending_mapSet [of sid "?e\<lparr>sb_idleCallbacks := sb_idleCallbacks ?e @ [cb]\<rparr>" "bt_entries s"] by simp
  then show ?thesis using True by (simp add: onIdle_def allCallbacks_def Let_def)
qed (simp add: onIdle_def allCallbacks_def Let_def pending_mapSet_same)

lemma all_step: "turn_step s ev s' \<Longrightarrow> allCallbacks s' = allCallbacks s + mset (callbacksOf [ev])"
  by (induction rule: turn_step.induct)
    (simp_all add: callbacksOf_def all_start all_end all_onIdle, simp_all add: allCallbacks_def)

lemma all_run: "turn_run s evs s' \<Longrightarrow> allCallbacks s' = allCallbacks s + mset (callbacksOf evs)"
  by (induction rule: turn_run.induct) (auto simp: all_step callbacksOf_def)

lemma wf_step: "turn_step s ev s' \<Longrightarrow> wf_map (bt_entries s) \<Longrightarrow> wf_map (bt_entries s')"
  by (induction rule: turn_step.induct)
    (auto simp: withBusyStart_def withBusyEnd_def clearBusy_def onIdle_def Let_def wf_mapSet split: option.splits list.splits)

lemma wf_run: "turn_run s evs s' \<Longrightarrow> wf_map (bt_entries s) \<Longrightarrow> wf_map (bt_entries s')"
  by (induction rule: turn_run.induct) (auto intro: wf_step)

lemma pending_idle:
  assumes "trackerInv s" "wf_map (bt_entries s)" "\<forall>sid. \<not> isBusy s sid"
  shows "pendingCallbacks (bt_entries s) = {#}"
proof -
  have "sb_idleCallbacks e = []" if "(sid, e) \<in> set (bt_entries s)" for sid e
  proof -
    have "mapGet (bt_entries s) sid = Some e" using assms(2) that by (simp add: wf_map_def)
    then have "getOrCreateEntry (bt_entries s) sid = e" "\<not> sb_running e"
      using assms(3) [rule_format, of sid] by (auto simp: getOrCreateEntry_def nullish_def isBusy_def)
    then show ?thesis using assms(1) by (auto simp: trackerInv_def sessionInv_def Let_def dest!: spec [of _ sid])
  qed
  then have "mset (sb_idleCallbacks (snd p)) = {#}" if "p \<in> set (bt_entries s)" for p using that by (cases p) auto
  then show ?thesis unfolding pendingCallbacks_def by (induction "bt_entries s" rule: rev_induct) (auto cong: map_cong)
qed

text \<open>Idle callbacks are one-shot and none is lost: whatever the interleaving, no callback has fired more
  often than it was registered, and once every session is free and the microtask queue is empty, the fired
  callbacks are exactly the registered ones.\<close>

theorem idle_callbacks_fire_once:
  assumes "turn_run emptyTracker evs s"
  shows "mset (bt_fired s) \<subseteq># mset (callbacksOf evs) \<and>
    ((\<forall>sid. \<not> isBusy s sid) \<and> bt_microtasks s = [] \<longrightarrow> mset (bt_fired s) = mset (callbacksOf evs))"
proof -
  have all: "mset (callbacksOf evs) = mset (bt_fired s) + (mset (bt_microtasks s) + pendingCallbacks (bt_entries s))"
    using all_run [OF assms] by (simp add: allCallbacks_def emptyTracker_def pendingCallbacks_def add.assoc)
  have "wf_map (bt_entries s)" using wf_run [OF assms] by (simp add: emptyTracker_def wf_map_def)
  then show ?thesis using pending_idle [OF inv_run [OF assms inv_empty]] unfolding all by simp
qed

theorem idle_callbacks_fire_once_witness:
  "mset (bt_fired (withBusyEnd 0 ''s'' (onIdle ''s'' 7 (withBusyStart 0 ''s'' emptyTracker)))) = {#7#}"
proof -
  let ?s = "withBusyEnd 0 ''s'' (onIdle ''s'' 7 (withBusyStart 0 ''s'' emptyTracker))"
  let ?evs = "[Start 0 ''s'', OnIdle ''s'' 7, End 0 ''s'']"
  note ev = emptyTracker_def withBusyStart_def withBusyEnd_def clearBusy_def setPhase_def Let_def onIdle_def
    getOrCreateEntry_def nullish_def newEntry_def drainIdleCallbacks_def
  have run: "turn_run emptyTracker ?evs ?s"
    by (rule turn_run.cons, rule turn_step.start, simp add: ev, rule turn_run.cons, rule turn_step.onIdle,
        rule turn_run.cons, rule turn_step.ending, simp add: ev, rule turn_run.nil)
  moreover have "\<forall>sid. \<not> isBusy ?s sid" "bt_microtasks ?s = []" by (simp_all add: ev isBusy_def)
  ultimately have "mset (bt_fired ?s) = mset (callbacksOf ?evs)" using idle_callbacks_fire_once [OF run] by simp
  then show ?thesis by (simp add: callbacksOf_def)
qed

end
