(* ===== verification/Workflow_Stores.thy ===== *)
theory Workflow_Stores
  imports Workflow_Compiler Dispatcher
begin

text \<open>
  The stores of the workflow component: runs and step runs (\<open>storage/workflow-run-store.ts\<close>), published
  definitions (\<open>storage/workflow-definition-store.ts\<close>), drafts (\<open>storage/workflow-draft-store.ts\<close>) and wait
  conditions (\<open>storage/wait-condition-store.ts\<close>).

  Tables follow the conventions of the permission stores: rows in insertion order, JSON columns as the values
  they stand for, time stamps as milliseconds. Runs, step runs and definitions carry a tenant, and every
  statement on them names one. A status with a \<open>CHECK\<close> constraint is a datatype of the allowed values.
\<close>

section \<open>Rows chosen by a condition\<close>

definition updateWhere :: "('r \<Rightarrow> bool) \<Rightarrow> ('r \<Rightarrow> 'r) \<Rightarrow> 'r list \<Rightarrow> 'r list" where
  "updateWhere P f t = map (\<lambda>r. if P r then f r else r) t"

definition orderByAsc :: "('r \<Rightarrow> timestamp) \<Rightarrow> 'r list \<Rightarrow> 'r list" where
  "orderByAsc f t = sort_key f t"

text \<open>\<open>x ? JSON.stringify(x) : null\<close>, read back with \<open>column ? JSON.parse(column) : undefined\<close>.\<close>

definition keepValue :: "json option \<Rightarrow> json option" where
  "keepValue v = (if truthyValue v then v else None)"

definition DEFAULT_TENANT_ID :: string where
  "DEFAULT_TENANT_ID = ''org_default''"

section \<open>Runs and step runs\<close>

record WorkflowRun =
  wr_workflowRunId :: string
  wr_workflowId :: string
  wr_workflowVersion :: string
  wr_ownerUserId :: string
  wr_triggerEventId :: "string option"
  wr_status :: string
  wr_currentStepIds :: "string list option"
  wr_inputData :: "json option"
  wr_outputData :: "json option"
  wr_contextData :: "json option"
  wr_startedAt :: "timestamp option"
  wr_completedAt :: "timestamp option"
  wr_createdAt :: timestamp
  wr_updatedAt :: timestamp
  wr_tenantId :: string

record WorkflowStepRun =
  sr_stepRunId :: string
  sr_workflowRunId :: string
  sr_stepId :: string
  sr_stepType :: string
  sr_status :: string
  sr_kernelRunId :: "string option"
  sr_subagentRunId :: "string option"
  sr_toolCallId :: "string option"
  sr_approvalId :: "string option"
  sr_inputData :: "json option"
  sr_outputData :: "json option"
  sr_errorMessage :: "string option"
  sr_startedAt :: "timestamp option"
  sr_completedAt :: "timestamp option"
  sr_createdAt :: timestamp
  sr_updatedAt :: timestamp
  sr_tenantId :: string

definition ofRun :: "string \<Rightarrow> string \<Rightarrow> WorkflowRun \<Rightarrow> bool" where
  "ofRun tenant i r = (wr_tenantId r = tenant \<and> wr_workflowRunId r = i)"

definition ofStepRun :: "string \<Rightarrow> string \<Rightarrow> WorkflowStepRun \<Rightarrow> bool" where
  "ofStepRun tenant i r = (sr_tenantId r = tenant \<and> sr_stepRunId r = i)"

definition createWorkflowRun :: "string \<Rightarrow> timestamp \<Rightarrow> WorkflowRun \<Rightarrow> WorkflowRun list \<Rightarrow> string + WorkflowRun list" where
  "createWorkflowRun tenant now run t = insertRow wr_workflowRunId
     (run\<lparr>wr_inputData := keepValue (wr_inputData run), wr_outputData := keepValue (wr_outputData run),
          wr_contextData := keepValue (wr_contextData run), wr_startedAt := Some (nullish (wr_startedAt run) now),
          wr_createdAt := now, wr_updatedAt := now, wr_tenantId := tenant\<rparr>) t"

definition getWorkflowRunById :: "string \<Rightarrow> string \<Rightarrow> WorkflowRun list \<Rightarrow> WorkflowRun option" where
  "getWorkflowRunById tenant i t = firstRow (ofRun tenant i) t"

definition endedAt :: "string list \<Rightarrow> string \<Rightarrow> timestamp \<Rightarrow> timestamp option \<Rightarrow> timestamp option" where
  "endedAt ends status now completedAt = (if status \<in> set ends then Some now else completedAt)"

definition updateWorkflowStatus :: "string \<Rightarrow> timestamp \<Rightarrow> string \<Rightarrow> string \<Rightarrow> WorkflowRun list \<Rightarrow> WorkflowRun list" where
  "updateWorkflowStatus tenant now i status t = updateWhere (ofRun tenant i) (\<lambda>r. r\<lparr>wr_status := status,
     wr_completedAt := endedAt [''completed'', ''failed'', ''cancelled'', ''timeout''] status now (wr_completedAt r),
     wr_updatedAt := now\<rparr>) t"

definition updateCurrentSteps :: "string \<Rightarrow> timestamp \<Rightarrow> string \<Rightarrow> string list \<Rightarrow> WorkflowRun list \<Rightarrow> WorkflowRun list" where
  "updateCurrentSteps tenant now i stepIds t =
     updateWhere (ofRun tenant i) (\<lambda>r. r\<lparr>wr_currentStepIds := Some stepIds, wr_updatedAt := now\<rparr>) t"

definition saveWorkflowOutput :: "string \<Rightarrow> timestamp \<Rightarrow> string \<Rightarrow> json option \<Rightarrow> WorkflowRun list \<Rightarrow> WorkflowRun list" where
  "saveWorkflowOutput tenant now i output t = updateWhere (ofRun tenant i)
     (\<lambda>r. r\<lparr>wr_outputData := output, wr_completedAt := Some now, wr_updatedAt := now\<rparr>) t"

definition startedKey :: "WorkflowRun \<Rightarrow> timestamp" where
  "startedKey r = the (wr_startedAt r)"

definition getWorkflowRunsByWorkflow :: "string \<Rightarrow> string \<Rightarrow> WorkflowRun list \<Rightarrow> WorkflowRun list" where
  "getWorkflowRunsByWorkflow tenant workflowId t =
     orderByDesc startedKey (filter (\<lambda>r. wr_tenantId r = tenant \<and> wr_workflowId r = workflowId) t)"

definition getWorkflowRunsByOwnerAndStatus :: "string \<Rightarrow> string \<Rightarrow> string \<Rightarrow> WorkflowRun list \<Rightarrow> WorkflowRun list" where
  "getWorkflowRunsByOwnerAndStatus tenant owner status t =
     orderByDesc startedKey (filter (\<lambda>r. wr_tenantId r = tenant \<and> wr_ownerUserId r = owner \<and> wr_status r = status) t)"

definition getWorkflowRunsByTrigger :: "string \<Rightarrow> string \<Rightarrow> WorkflowRun list \<Rightarrow> WorkflowRun list" where
  "getWorkflowRunsByTrigger tenant triggerEventId t =
     orderByDesc startedKey (filter (\<lambda>r. wr_tenantId r = tenant \<and> wr_triggerEventId r = Some triggerEventId) t)"

definition createStepRun :: "string \<Rightarrow> timestamp \<Rightarrow> WorkflowStepRun \<Rightarrow> WorkflowStepRun list \<Rightarrow> string + WorkflowStepRun list" where
  "createStepRun tenant now step t = insertRow sr_stepRunId
     (step\<lparr>sr_inputData := keepValue (sr_inputData step), sr_outputData := keepValue (sr_outputData step),
           sr_createdAt := now, sr_updatedAt := now, sr_tenantId := tenant\<rparr>) t"

definition getStepRunById :: "string \<Rightarrow> string \<Rightarrow> WorkflowStepRun list \<Rightarrow> WorkflowStepRun option" where
  "getStepRunById tenant i t = firstRow (ofStepRun tenant i) t"

definition updateStepRunStatus :: "string \<Rightarrow> timestamp \<Rightarrow> string \<Rightarrow> string \<Rightarrow> WorkflowStepRun list \<Rightarrow> WorkflowStepRun list" where
  "updateStepRunStatus tenant now i status t = updateWhere (ofStepRun tenant i) (\<lambda>r. r\<lparr>sr_status := status,
     sr_completedAt := endedAt [''completed'', ''failed'', ''cancelled'', ''skipped'', ''timeout''] status now (sr_completedAt r),
     sr_updatedAt := now\<rparr>) t"

definition saveStepOutput :: "string \<Rightarrow> timestamp \<Rightarrow> string \<Rightarrow> json option \<Rightarrow> WorkflowStepRun list \<Rightarrow> WorkflowStepRun list" where
  "saveStepOutput tenant now i output t =
     updateWhere (ofStepRun tenant i) (\<lambda>r. r\<lparr>sr_outputData := output, sr_updatedAt := now\<rparr>) t"

definition linkStepToKernelRun :: "string \<Rightarrow> timestamp \<Rightarrow> string \<Rightarrow> string \<Rightarrow> WorkflowStepRun list \<Rightarrow> WorkflowStepRun list" where
  "linkStepToKernelRun tenant now i ref t =
     updateWhere (ofStepRun tenant i) (\<lambda>r. r\<lparr>sr_kernelRunId := Some ref, sr_updatedAt := now\<rparr>) t"

definition linkStepToSubagentRun :: "string \<Rightarrow> timestamp \<Rightarrow> string \<Rightarrow> string \<Rightarrow> WorkflowStepRun list \<Rightarrow> WorkflowStepRun list" where
  "linkStepToSubagentRun tenant now i ref t =
     updateWhere (ofStepRun tenant i) (\<lambda>r. r\<lparr>sr_subagentRunId := Some ref, sr_updatedAt := now\<rparr>) t"

definition linkStepToToolCall :: "string \<Rightarrow> timestamp \<Rightarrow> string \<Rightarrow> string \<Rightarrow> WorkflowStepRun list \<Rightarrow> WorkflowStepRun list" where
  "linkStepToToolCall tenant now i ref t =
     updateWhere (ofStepRun tenant i) (\<lambda>r. r\<lparr>sr_toolCallId := Some ref, sr_updatedAt := now\<rparr>) t"

definition linkStepToApproval :: "string \<Rightarrow> timestamp \<Rightarrow> string \<Rightarrow> string \<Rightarrow> WorkflowStepRun list \<Rightarrow> WorkflowStepRun list" where
  "linkStepToApproval tenant now i ref t =
     updateWhere (ofStepRun tenant i) (\<lambda>r. r\<lparr>sr_approvalId := Some ref, sr_updatedAt := now\<rparr>) t"

definition getStepsByWorkflowAndStatus :: "string \<Rightarrow> string \<Rightarrow> string \<Rightarrow> WorkflowStepRun list \<Rightarrow> WorkflowStepRun list" where
  "getStepsByWorkflowAndStatus tenant runId status t =
     orderByAsc sr_createdAt (filter (\<lambda>r. sr_tenantId r = tenant \<and> sr_workflowRunId r = runId \<and> sr_status r = status) t)"

definition getStepsByStepId :: "string \<Rightarrow> string \<Rightarrow> WorkflowStepRun list \<Rightarrow> WorkflowStepRun list" where
  "getStepsByStepId tenant stepId t = orderByDesc sr_createdAt (filter (\<lambda>r. sr_tenantId r = tenant \<and> sr_stepId r = stepId) t)"

definition getStepsByWorkflowRunId :: "string \<Rightarrow> string \<Rightarrow> WorkflowStepRun list \<Rightarrow> WorkflowStepRun list" where
  "getStepsByWorkflowRunId tenant runId t =
     orderByAsc sr_createdAt (filter (\<lambda>r. sr_tenantId r = tenant \<and> sr_workflowRunId r = runId) t)"

section \<open>Definitions\<close>

datatype WorkflowDefinitionStatus = Published | Deprecated

record WorkflowDefinition =
  df_workflowId :: string
  df_name :: string
  df_description :: "string option"
  df_version :: nat
  df_steps :: "WorkflowStep list"
  df_ownerUserId :: string
  df_status :: WorkflowDefinitionStatus
  df_publishedFromDraftId :: "string option"
  df_createdAt :: timestamp
  df_updatedAt :: timestamp
  df_tenantId :: string

definition ofDefinition :: "string \<Rightarrow> string \<Rightarrow> WorkflowDefinition \<Rightarrow> bool" where
  "ofDefinition tenant i d = (df_tenantId d = tenant \<and> df_workflowId d = i)"

definition createDefinition ::
  "string \<Rightarrow> timestamp \<Rightarrow> WorkflowDefinition \<Rightarrow> WorkflowDefinition list \<Rightarrow> string + (WorkflowDefinition \<times> WorkflowDefinition list)" where
  "createDefinition tenant now d t = (let d' = d\<lparr>df_createdAt := now, df_updatedAt := now, df_tenantId := tenant\<rparr> in
     case insertRow df_workflowId d' t of Inl e \<Rightarrow> Inl e | Inr t' \<Rightarrow> Inr (d', t'))"

definition getDefinitionById :: "string \<Rightarrow> string \<Rightarrow> WorkflowDefinition list \<Rightarrow> WorkflowDefinition option" where
  "getDefinitionById tenant i t = firstRow (ofDefinition tenant i) t"

definition getDefinitionByNameAndVersion :: "string \<Rightarrow> string \<Rightarrow> nat \<Rightarrow> WorkflowDefinition list \<Rightarrow> WorkflowDefinition option" where
  "getDefinitionByNameAndVersion tenant name version t =
     firstRow (\<lambda>d. df_tenantId d = tenant \<and> df_name d = name \<and> df_version d = version) t"

definition getLatestDefinitionByName :: "string \<Rightarrow> string \<Rightarrow> WorkflowDefinition list \<Rightarrow> WorkflowDefinition option" where
  "getLatestDefinitionByName tenant name t =
     firstRow (\<lambda>_. True) (orderByDesc (\<lambda>d. int (df_version d)) (filter (\<lambda>d. df_tenantId d = tenant \<and> df_name d = name) t))"

definition getDefinitionsByOwner :: "string \<Rightarrow> string \<Rightarrow> WorkflowDefinition list \<Rightarrow> WorkflowDefinition list" where
  "getDefinitionsByOwner tenant owner t =
     orderByDesc df_updatedAt (filter (\<lambda>d. df_tenantId d = tenant \<and> df_ownerUserId d = owner) t)"

definition getDefinitionsByStatus :: "string \<Rightarrow> WorkflowDefinitionStatus \<Rightarrow> WorkflowDefinition list \<Rightarrow> WorkflowDefinition list" where
  "getDefinitionsByStatus tenant status t =
     orderByDesc df_updatedAt (filter (\<lambda>d. df_tenantId d = tenant \<and> df_status d = status) t)"

definition getNextVersionNumber :: "string \<Rightarrow> string \<Rightarrow> WorkflowDefinition list \<Rightarrow> nat" where
  "getNextVersionNumber tenant name t =
     foldr max (map df_version (filter (\<lambda>d. df_tenantId d = tenant \<and> df_name d = name) t)) 0 + 1"

definition deprecateDefinition :: "string \<Rightarrow> timestamp \<Rightarrow> string \<Rightarrow> WorkflowDefinition list \<Rightarrow> WorkflowDefinition list" where
  "deprecateDefinition tenant now i t =
     updateWhere (ofDefinition tenant i) (\<lambda>d. d\<lparr>df_status := Deprecated, df_updatedAt := now\<rparr>) t"

text \<open>A partial update: \<open>None\<close> is a field that is not given. The version is not among the columns written.\<close>

record definitionUpdates =
  du_name :: "string option"
  du_description :: "string option"
  du_steps :: "WorkflowStep list option"
  du_ownerUserId :: "string option"
  du_status :: "WorkflowDefinitionStatus option"
  du_publishedFromDraftId :: "string option"

definition updateDefinition ::
  "string \<Rightarrow> timestamp \<Rightarrow> string \<Rightarrow> definitionUpdates \<Rightarrow> WorkflowDefinition list \<Rightarrow> WorkflowDefinition option \<times> WorkflowDefinition list" where
  "updateDefinition tenant now i u t = (case getDefinitionById tenant i t of
     None \<Rightarrow> (None, t)
   | Some existing \<Rightarrow>
       if du_name u = None \<and> du_description u = None \<and> du_steps u = None \<and> du_ownerUserId u = None \<and> du_status u = None \<and>
          du_publishedFromDraftId u = None
       then (Some existing, t)
       else (let t' = updateWhere (ofDefinition tenant i) (\<lambda>d. d\<lparr>df_name := nullish (du_name u) (df_name d),
               df_description := nullish_opt (du_description u) (df_description d),
               df_steps := nullish (du_steps u) (df_steps d), df_ownerUserId := nullish (du_ownerUserId u) (df_ownerUserId d),
               df_status := nullish (du_status u) (df_status d),
               df_publishedFromDraftId := nullish_opt (du_publishedFromDraftId u) (df_publishedFromDraftId d),
               df_updatedAt := now\<rparr>) t in
             (getDefinitionById tenant i t', t')))"

section \<open>Drafts\<close>

datatype WorkflowDraftStatus = DraftOpen | DraftValidating | DraftInvalid

record WorkflowDraft =
  dr_draftId :: string
  dr_name :: string
  dr_description :: "string option"
  dr_steps :: "WorkflowStep list"
  dr_ownerUserId :: string
  dr_status :: WorkflowDraftStatus
  dr_validationIssues :: "ValidationIssue list"
  dr_createdAt :: timestamp
  dr_updatedAt :: timestamp

definition draftCreate :: "timestamp \<Rightarrow> WorkflowDraft \<Rightarrow> WorkflowDraft list \<Rightarrow> string + (WorkflowDraft \<times> WorkflowDraft list)" where
  "draftCreate now d t = (let d' = d\<lparr>dr_createdAt := now, dr_updatedAt := now\<rparr> in
     case insertRow dr_draftId d' t of Inl e \<Rightarrow> Inl e | Inr t' \<Rightarrow> Inr (d', t'))"

definition getDraftById :: "WorkflowDraft list \<Rightarrow> string \<Rightarrow> WorkflowDraft option" where
  "getDraftById t i = firstRow (\<lambda>d. dr_draftId d = i) t"

definition getDraftsByOwner :: "WorkflowDraft list \<Rightarrow> string \<Rightarrow> WorkflowDraft list" where
  "getDraftsByOwner t owner = orderByDesc dr_updatedAt (filter (\<lambda>d. dr_ownerUserId d = owner) t)"

definition getDraftsByStatus :: "WorkflowDraft list \<Rightarrow> WorkflowDraftStatus \<Rightarrow> WorkflowDraft list" where
  "getDraftsByStatus t status = orderByDesc dr_updatedAt (filter (\<lambda>d. dr_status d = status) t)"

record draftUpdates =
  dp_name :: "string option"
  dp_description :: "string option"
  dp_steps :: "WorkflowStep list option"
  dp_ownerUserId :: "string option"
  dp_status :: "WorkflowDraftStatus option"
  dp_validationIssues :: "ValidationIssue list option"

definition updateDraft :: "timestamp \<Rightarrow> string \<Rightarrow> draftUpdates \<Rightarrow> WorkflowDraft list \<Rightarrow> WorkflowDraft option \<times> WorkflowDraft list" where
  "updateDraft now i u t = (case getDraftById t i of
     None \<Rightarrow> (None, t)
   | Some existing \<Rightarrow>
       if dp_name u = None \<and> dp_description u = None \<and> dp_steps u = None \<and> dp_ownerUserId u = None \<and> dp_status u = None \<and>
          dp_validationIssues u = None
       then (Some existing, t)
       else (let t' = updateRow dr_draftId i (\<lambda>d. d\<lparr>dr_name := nullish (dp_name u) (dr_name d),
               dr_description := nullish_opt (dp_description u) (dr_description d),
               dr_steps := nullish (dp_steps u) (dr_steps d), dr_ownerUserId := nullish (dp_ownerUserId u) (dr_ownerUserId d),
               dr_status := nullish (dp_status u) (dr_status d),
               dr_validationIssues := nullish (dp_validationIssues u) (dr_validationIssues d), dr_updatedAt := now\<rparr>) t in
             (getDraftById t' i, t')))"

definition deleteDraft :: "string \<Rightarrow> WorkflowDraft list \<Rightarrow> bool \<times> WorkflowDraft list" where
  "deleteDraft i t = (case getDraftById t i of
     None \<Rightarrow> (False, t)
   | Some _ \<Rightarrow> (let t' = deleteRow dr_draftId i t in (getDraftById t' i = None, t')))"

definition addValidationIssues :: "timestamp \<Rightarrow> string \<Rightarrow> ValidationIssue list \<Rightarrow> WorkflowDraft list \<Rightarrow> string + WorkflowDraft list" where
  "addValidationIssues now i issues t = (case getDraftById t i of
     None \<Rightarrow> Inl (''Draft not found: '' @ i)
   | Some draft \<Rightarrow> Inr (updateRow dr_draftId i (\<lambda>d. d\<lparr>dr_validationIssues := dr_validationIssues draft @ issues,
       dr_status := DraftInvalid, dr_updatedAt := now\<rparr>) t))"

definition clearValidationIssues :: "timestamp \<Rightarrow> string \<Rightarrow> WorkflowDraft list \<Rightarrow> string + WorkflowDraft list" where
  "clearValidationIssues now i t = (case getDraftById t i of
     None \<Rightarrow> Inl (''Draft not found: '' @ i)
   | Some _ \<Rightarrow> Inr (updateRow dr_draftId i (\<lambda>d. d\<lparr>dr_validationIssues := [], dr_status := DraftOpen, dr_updatedAt := now\<rparr>) t))"

section \<open>Wait conditions\<close>

record WaitCondition =
  wc_id :: string
  wc_waitType :: string
  wc_conditionPattern :: string
  wc_targetType :: string
  wc_targetRef :: string
  wc_status :: string
  wc_priority :: int
  wc_timeoutAt :: "timestamp option"
  wc_satisfiedAt :: "timestamp option"
  wc_satisfiedBy :: "string option"
  wc_resultData :: "json option"
  wc_metadata :: "json option"
  wc_createdAt :: timestamp
  wc_updatedAt :: timestamp

record CreateWaitCondition =
  cwc_id :: string
  cwc_waitType :: string
  cwc_conditionPattern :: string
  cwc_targetType :: string
  cwc_targetRef :: string
  cwc_status :: string
  cwc_priority :: "int option"
  cwc_timeoutAt :: "timestamp option"
  cwc_metadata :: "json option"

definition waitCreate :: "timestamp \<Rightarrow> CreateWaitCondition \<Rightarrow> WaitCondition list \<Rightarrow> string + (WaitCondition \<times> WaitCondition list)" where
  "waitCreate now c t = (let w = \<lparr>wc_id = cwc_id c, wc_waitType = cwc_waitType c, wc_conditionPattern = cwc_conditionPattern c,
       wc_targetType = cwc_targetType c, wc_targetRef = cwc_targetRef c, wc_status = cwc_status c,
       wc_priority = nullish (cwc_priority c) 0, wc_timeoutAt = cwc_timeoutAt c, wc_satisfiedAt = None, wc_satisfiedBy = None,
       wc_resultData = None, wc_metadata = cwc_metadata c, wc_createdAt = now, wc_updatedAt = now\<rparr> in
     case insertRow wc_id w t of Inl e \<Rightarrow> Inl e | Inr t' \<Rightarrow> Inr (w, t'))"

definition waitGetById :: "WaitCondition list \<Rightarrow> string \<Rightarrow> WaitCondition option" where
  "waitGetById t i = firstRow (\<lambda>w. wc_id w = i) t"

definition findByTarget :: "WaitCondition list \<Rightarrow> string \<Rightarrow> string \<Rightarrow> WaitCondition list" where
  "findByTarget t targetType targetRef = filter (\<lambda>w. wc_targetType w = targetType \<and> wc_targetRef w = targetRef) t"

definition waitFindByStatus :: "WaitCondition list \<Rightarrow> string \<Rightarrow> WaitCondition list" where
  "waitFindByStatus t status = filter (\<lambda>w. wc_status w = status) t"

text \<open>The common shape of the four \<open>mark\<close> operations: look the row up, throw when it is missing, update it.\<close>

definition markWait ::
  "string \<Rightarrow> (WaitCondition \<Rightarrow> WaitCondition \<Rightarrow> WaitCondition) \<Rightarrow> WaitCondition list \<Rightarrow> string + (WaitCondition \<times> WaitCondition list)" where
  "markWait i f t = (case waitGetById t i of
     None \<Rightarrow> Inl (''Wait condition not found: '' @ i)
   | Some existing \<Rightarrow> Inr (f existing existing, updateRow wc_id i (f existing) t))"

definition markSatisfied ::
  "timestamp \<Rightarrow> string \<Rightarrow> string \<Rightarrow> json option \<Rightarrow> WaitCondition list \<Rightarrow> string + (WaitCondition \<times> WaitCondition list)" where
  "markSatisfied now i satisfiedBy resultData = markWait i (\<lambda>_ w. w\<lparr>wc_status := ''satisfied'', wc_satisfiedAt := Some now,
     wc_satisfiedBy := Some satisfiedBy, wc_resultData := resultData, wc_updatedAt := now\<rparr>)"

text \<open>\<open>JSON.stringify({...JSON.parse(metadata), key: reason})\<close>: a reason that is not given leaves no key.\<close>

definition withReason :: "string \<Rightarrow> string option \<Rightarrow> json option \<Rightarrow> json option" where
  "withReason key reason metadata = (let kvs = (case metadata of Some (JObj kvs) \<Rightarrow> kvs | _ \<Rightarrow> []) in
     Some (JObj (case reason of None \<Rightarrow> mapDelete key kvs | Some r \<Rightarrow> mapSet key (JStr r) kvs)))"

definition markFailed :: "timestamp \<Rightarrow> string \<Rightarrow> string option \<Rightarrow> WaitCondition list \<Rightarrow> string + (WaitCondition \<times> WaitCondition list)" where
  "markFailed now i reason = markWait i (\<lambda>existing w. w\<lparr>wc_status := ''failed'',
     wc_metadata := withReason ''failureReason'' reason (wc_metadata existing), wc_updatedAt := now\<rparr>)"

definition markTimeout :: "timestamp \<Rightarrow> string \<Rightarrow> WaitCondition list \<Rightarrow> string + (WaitCondition \<times> WaitCondition list)" where
  "markTimeout now i = markWait i (\<lambda>_ w. w\<lparr>wc_status := ''timeout'', wc_updatedAt := now\<rparr>)"

definition markCancelled :: "timestamp \<Rightarrow> string \<Rightarrow> string option \<Rightarrow> WaitCondition list \<Rightarrow> string + (WaitCondition \<times> WaitCondition list)" where
  "markCancelled now i reason = markWait i (\<lambda>existing w. w\<lparr>wc_status := ''cancelled'',
     wc_metadata := withReason ''cancelReason'' reason (wc_metadata existing), wc_updatedAt := now\<rparr>)"

definition waitFindExpired :: "WaitCondition list \<Rightarrow> timestamp \<Rightarrow> WaitCondition list" where
  "waitFindExpired t before = filter (\<lambda>w. case wc_timeoutAt w of None \<Rightarrow> False | Some x \<Rightarrow> x < before) t"

definition waitDelete :: "string \<Rightarrow> WaitCondition list \<Rightarrow> WaitCondition list" where
  "waitDelete i t = deleteRow wc_id i t"

section \<open>Lemmas on the tables\<close>

lemma firstRow_eq_find: "firstRow P t = find P t"
  by (induction t) (auto simp: firstRow_def)

lemma length_updateWhere [simp]: "length (updateWhere P f t) = length t"
  by (simp add: updateWhere_def)

lemma updateWhere_Nil [simp]: "updateWhere P f [] = []"
  by (simp add: updateWhere_def)

lemma updateWhere_Cons [simp]: "updateWhere P f (r # t) = (if P r then f r else r) # updateWhere P f t"
  by (simp add: updateWhere_def)

lemma find_updateWhere:
  assumes "\<And>r. Q (f r) = Q r"
  shows "find Q (updateWhere P f t) = map_option (\<lambda>r. if P r then f r else r) (find Q t)"
  by (induction t) (auto simp: assms)

lemma filter_updateWhere:
  assumes "\<And>r. Q (f r) = Q r"
  shows "filter Q (updateWhere P f t) = updateWhere P f (filter Q t)"
  by (induction t) (auto simp: assms)

lemma sort_key_sorted: "sorted (map f xs) \<Longrightarrow> sort_key f xs = xs"
proof (induction xs)
  case (Cons x xs)
  then have "sort_key f (x # xs) = insort_key f x xs" by simp
  also have "\<dots> = x # xs" using Cons.prems by (intro insort_is_Cons) auto
  finally show ?case .
qed simp

end
