(* ===== verification/Workflow_Runtime.thy ===== *)
theory Workflow_Runtime
  imports Workflow_Stores
begin

text \<open>
  The workflow engine (\<open>workflows/workflow-runtime.ts\<close>): drafts and their publication, runs, the execution of
  every kind of step, completion, retries, failure policies, branches, parallel groups, polling waits and
  cancellation.

  The engine is event driven. Each handler runs to its end without interruption; whatever it leaves behind, a
  dispatched action, a timer or an unfinished parallel group, is a continuation in the state, and an event of
  the event loop resumes it. A handler is a function from the state to an outcome, \<open>Inl\<close> a thrown error or
  \<open>Inr\<close> a result, with the state reached, so effects before an exception stay. Handlers call \<open>executeStep\<close>
  synchronously, which may call them again; \<open>executeStep\<close> therefore takes the number of nested calls that still
  fit on the stack and throws the \<open>RangeError\<close> of the JavaScript engine when none is left.

  Parameters (\<open>wf_env\<close>): the evaluation of condition expressions, \<open>JSON.parse\<close>, whether a dispatcher and a wait
  condition store are configured, and the stack depth. Generated ids are a prefix and a counter. The clock is
  the default one, part of the state. Configurations have the field types \<open>WorkflowStepConfig\<close> declares; a field of
  another type reads as absent, and \<open>maxParallel\<close> is not negative.
\<close>

section \<open>State\<close>

record StepExecutionResult =
  er_success :: bool
  er_output :: "json option"
  er_error :: "string option"
  er_errorCategory :: "string option"
  er_recoverability :: "string option"
  er_attemptNumber :: "nat option"

record ConditionEvalResult =
  ce_conditionMet :: bool
  ce_error :: "(string \<times> string) option"

record RetryAttemptAuditEntry =
  au_attempt :: nat
  au_status :: string
  au_errorCategory :: "string option"
  au_errorCode :: "string option"
  au_delayMs :: "int option"
  au_timestamp :: timestamp

record WorkflowBranch =
  br_branchId :: string
  br_name :: string
  br_condition :: "string option"
  br_steps :: "WorkflowStep list"

record WorkflowRunInput =
  ri_definitionId :: string
  ri_inputData :: "json option"
  ri_userId :: string
  ri_sessionId :: "string option"
  ri_triggerEventId :: "string option"

record WorkflowStepRunInfo =
  si_stepRunId :: string
  si_stepId :: string
  si_stepType :: string
  si_status :: string

record WorkflowRunResult =
  rr_workflowRunId :: string
  rr_definitionId :: string
  rr_status :: string
  rr_currentStepIds :: "string list"
  rr_stepRuns :: "WorkflowStepRunInfo list"

record wfEvent =
  we_eventType :: string
  we_userId :: "string option"
  we_sessionId :: "string option"
  we_relatedRefs :: "(string \<times> string) list"
  we_payload :: "(string \<times> json) list"

text \<open>What a handler leaves behind: the reaction to a promise, or a timer that is not in \<open>pendingTimers\<close>.\<close>

datatype continuation =
    StepDispatch string
  | BranchDispatch string WorkflowStep "WorkflowStep list" WorkflowStep
  | CompensateDispatch string WorkflowStep "string \<times> string" StepExecutionResult "RetryAttemptAuditEntry list"
  | PollTimer string string string int timestamp nat
  | GroupBatch string "string list" "string list" "WorkflowStep list" nat

record wfstate =
  wf_defs :: "WorkflowDefinition list"
  wf_drafts :: "WorkflowDraft list"
  wf_runs :: "WorkflowRun list"
  wf_stepRuns :: "WorkflowStepRun list"
  wf_actions :: "json actionTable"
  wf_waits :: "WaitCondition list"
  wf_events :: "wfEvent list"
  wf_attempts :: "(string, nat) jsmap"
  wf_trails :: "(string, RetryAttemptAuditEntry list) jsmap"
  wf_timers :: "(string, string \<times> int) jsmap"
  wf_pending :: "(nat, continuation) jsmap"
  wf_unhandled :: "string list"
  wf_nextId :: nat
  wf_now :: timestamp

record wf_env =
  env_cond :: "string \<Rightarrow> (string, json) jsmap \<Rightarrow> json option \<Rightarrow> ConditionEvalResult"
  env_parse :: "string \<Rightarrow> json option"
  env_dispatcher :: bool
  env_waitStore :: bool
  env_stack :: nat

type_synonym 'a wf_op = "wfstate \<Rightarrow> (string + 'a) \<times> wfstate"

section \<open>Sequencing\<close>

definition bindW :: "'a wf_op \<Rightarrow> ('a \<Rightarrow> 'b wf_op) \<Rightarrow> 'b wf_op" where
  "bindW m f s = (case m s of (Inl e, s') \<Rightarrow> (Inl e, s') | (Inr x, s') \<Rightarrow> f x s')"

definition thenW :: "unit wf_op \<Rightarrow> 'b wf_op \<Rightarrow> 'b wf_op" where
  "thenW m k = bindW m (\<lambda>_. k)"

definition returnW :: "'a \<Rightarrow> 'a wf_op" where
  "returnW x s = (Inr x, s)"

definition throwW :: "string \<Rightarrow> 'a wf_op" where
  "throwW e s = (Inl e, s)"

definition doW :: "(wfstate \<Rightarrow> wfstate) \<Rightarrow> unit wf_op" where
  "doW f s = (Inr (), f s)"

text \<open>\<open>try { m } catch (e) { h(e) }\<close>, and a promise nobody handles: the error is reported, the caller goes on.\<close>

definition catchW :: "unit wf_op \<Rightarrow> (string \<Rightarrow> unit wf_op) \<Rightarrow> unit wf_op" where
  "catchW m h s = (case m s of (Inl e, s') \<Rightarrow> h e s' | (Inr x, s') \<Rightarrow> (Inr x, s'))"

definition unhandled :: "string \<Rightarrow> unit wf_op" where
  "unhandled e = doW (\<lambda>s. s\<lparr>wf_unhandled := wf_unhandled s @ [e]\<rparr>)"

definition generateId :: "string \<Rightarrow> string wf_op" where
  "generateId prefix s = (Inr (prefix @ nat_str (wf_nextId s)), s\<lparr>wf_nextId := wf_nextId s + 1\<rparr>)"

section \<open>Configurations\<close>

definition strField :: "json \<Rightarrow> string \<Rightarrow> string option" where
  "strField v k = (case field v k of Some (JStr s) \<Rightarrow> Some s | _ \<Rightarrow> None)"

definition numField :: "json \<Rightarrow> string \<Rightarrow> int option" where
  "numField v k = (case field v k of Some (JNum n) \<Rightarrow> Some n | _ \<Rightarrow> None)"

definition listField :: "json \<Rightarrow> string \<Rightarrow> json list option" where
  "listField v k = (case field v k of Some (JArr xs) \<Rightarrow> Some xs | _ \<Rightarrow> None)"

definition stepOfJson :: "json \<Rightarrow> WorkflowStep" where
  "stepOfJson v = \<lparr>ws_stepId = nullish (strField v ''stepId'') [], ws_stepType = nullish (strField v ''stepType'') [],
     ws_name = nullish (strField v ''name'') [], ws_description = strField v ''description'',
     ws_config = nullish (field v ''config'') (JObj []), ws_nextStepId = strField v ''nextStepId''\<rparr>"

definition branchOfJson :: "json \<Rightarrow> WorkflowBranch" where
  "branchOfJson v = \<lparr>br_branchId = nullish (strField v ''branchId'') [], br_name = nullish (strField v ''name'') [],
     br_condition = strField v ''condition'', br_steps = map stepOfJson (nullish (listField v ''steps'') [])\<rparr>"

definition branchesOf :: "WorkflowStep \<Rightarrow> WorkflowBranch list" where
  "branchesOf st = map branchOfJson (nullish (listField (ws_config st) ''branches'') [])"

definition parallelStepsOf :: "WorkflowStep \<Rightarrow> WorkflowStep list" where
  "parallelStepsOf st = map stepOfJson (nullish (listField (ws_config st) ''parallelSteps'') [])"

text \<open>Properties of a JSON object under construction: a property that is \<open>undefined\<close> is not serialised.\<close>

definition opt :: "string \<Rightarrow> json option \<Rightarrow> (string \<times> json) list" where
  "opt k v = (case v of None \<Rightarrow> [] | Some x \<Rightarrow> [(k, x)])"

definition optStr :: "string \<Rightarrow> string option \<Rightarrow> (string \<times> json) list" where
  "optStr k v = opt k (map_option JStr v)"

definition num :: "string \<Rightarrow> int \<Rightarrow> (string \<times> json) list" where
  "num k n = [(k, JNum n)]"

definition str :: "string \<Rightarrow> string \<Rightarrow> (string \<times> json) list" where
  "str k s = [(k, JStr s)]"

definition assign :: "string \<Rightarrow> json option \<Rightarrow> (string, json) jsmap \<Rightarrow> (string, json) jsmap" where
  "assign k v kvs = (case v of None \<Rightarrow> mapDelete k kvs | Some x \<Rightarrow> mapSet k x kvs)"

definition buildStepInput :: "WorkflowStep \<Rightarrow> json option \<Rightarrow> json" where
  "buildStepInput st workflowInput = (let t = ws_stepType st; c = ws_config st;
       input = (case workflowInput of Some (JObj kvs) \<Rightarrow> kvs | _ \<Rightarrow> []) in JObj (
     if t = ''tool_call'' then assign ''params'' (field c ''toolParams'') (assign ''toolName'' (field c ''toolName'') input)
     else if t = ''agent_run'' then assign ''params'' (field c ''agentParams'') (assign ''agentId'' (field c ''agentId'') input)
     else if t = ''subagent_run'' then assign ''params'' (field c ''subagentParams'')
       (assign ''agentProfile'' (nullish_opt (field c ''agentProfile'') (field c ''subagentType''))
         (assign ''subagentType'' (field c ''subagentType'') input))
     else if t = ''approval'' then assign ''approvalScope'' (field c ''approvalScope'') input
     else if t = ''wait'' then assign ''waitCondition'' (field c ''waitCondition'') input
     else input))"

definition getTargetRuntimeForStepType :: "string \<Rightarrow> string" where
  "getTargetRuntimeForStepType t = (if t = ''tool_call'' then ''tool_plane'' else if t = ''agent_run'' then ''agent_kernel''
     else if t = ''subagent_run'' then ''subagent_runtime'' else if t = ''approval'' then ''permission_engine''
     else if t = ''wait'' \<or> t = ''polling_wait'' then ''event_trigger_runtime'' else ''workflow_runtime'')"

definition getTargetActionForStepType :: "string \<Rightarrow> string" where
  "getTargetActionForStepType t = (if t = ''tool_call'' then ''execute_tool'' else if t = ''agent_run'' then ''start_agent_run''
     else if t = ''subagent_run'' then ''launch_subagent'' else if t = ''approval'' then ''request_approval''
     else if t = ''wait'' \<or> t = ''polling_wait'' then ''register_wait_condition'' else ''execute_step'')"

section \<open>Effects\<close>

abbreviation tenant :: string where
  "tenant \<equiv> DEFAULT_TENANT_ID"

definition emitSessionEvent ::
  "string \<Rightarrow> string option \<Rightarrow> string option \<Rightarrow> (string \<times> string) list \<Rightarrow> (string \<times> json) list \<Rightarrow> unit wf_op" where
  "emitSessionEvent eventType userId sessionId refs payload = doW (\<lambda>s. s\<lparr>wf_events := wf_events s @ [\<lparr>we_eventType = eventType,
     we_userId = userId, we_sessionId = sessionId, we_relatedRefs = refs, we_payload = payload\<rparr>]\<rparr>)"

definition wfEmitEvent :: "string \<Rightarrow> string option \<Rightarrow> (string \<times> string) list \<Rightarrow> (string \<times> json) list \<Rightarrow> unit wf_op" where
  "wfEmitEvent eventType userId refs payload = emitSessionEvent eventType userId None refs payload"

definition setStepStatusW :: "string \<Rightarrow> string \<Rightarrow> unit wf_op" where
  "setStepStatusW i status = doW (\<lambda>s. s\<lparr>wf_stepRuns := updateStepRunStatus tenant (wf_now s) i status (wf_stepRuns s)\<rparr>)"

definition setRunStatusW :: "string \<Rightarrow> string \<Rightarrow> unit wf_op" where
  "setRunStatusW i status = doW (\<lambda>s. s\<lparr>wf_runs := updateWorkflowStatus tenant (wf_now s) i status (wf_runs s)\<rparr>)"

definition setCurrentStepsW :: "string \<Rightarrow> string list \<Rightarrow> unit wf_op" where
  "setCurrentStepsW i stepIds = doW (\<lambda>s. s\<lparr>wf_runs := updateCurrentSteps tenant (wf_now s) i stepIds (wf_runs s)\<rparr>)"

definition saveRunOutputW :: "string \<Rightarrow> json option \<Rightarrow> unit wf_op" where
  "saveRunOutputW i output = doW (\<lambda>s. s\<lparr>wf_runs := saveWorkflowOutput tenant (wf_now s) i output (wf_runs s)\<rparr>)"

definition saveStepOutputW :: "string \<Rightarrow> json option \<Rightarrow> unit wf_op" where
  "saveStepOutputW i output = doW (\<lambda>s. s\<lparr>wf_stepRuns := saveStepOutput tenant (wf_now s) i output (wf_stepRuns s)\<rparr>)"

definition addPending :: "continuation \<Rightarrow> unit wf_op" where
  "addPending c = doW (\<lambda>s. s\<lparr>wf_pending := wf_pending s @ [(wf_nextId s, c)], wf_nextId := wf_nextId s + 1\<rparr>)"

definition runOf :: "wfstate \<Rightarrow> string \<Rightarrow> WorkflowRun option" where
  "runOf s i = getWorkflowRunById tenant i (wf_runs s)"

definition stepRunOf :: "wfstate \<Rightarrow> string \<Rightarrow> WorkflowStepRun option" where
  "stepRunOf s i = getStepRunById tenant i (wf_stepRuns s)"

definition stepRunsOf :: "wfstate \<Rightarrow> string \<Rightarrow> WorkflowStepRun list" where
  "stepRunsOf s runId = getStepsByWorkflowRunId tenant runId (wf_stepRuns s)"

definition defOf :: "wfstate \<Rightarrow> string \<Rightarrow> WorkflowDefinition option" where
  "defOf s i = getDefinitionById tenant i (wf_defs s)"

definition findStep :: "WorkflowStep list \<Rightarrow> string \<Rightarrow> WorkflowStep option" where
  "findStep steps i = find (\<lambda>st. ws_stepId st = i) steps"

definition findStepRun :: "WorkflowStepRun list \<Rightarrow> string \<Rightarrow> WorkflowStepRun option" where
  "findStepRun srs i = find (\<lambda>sr. sr_stepId sr = i) srs"

definition getDefinitionFromRun :: "wfstate \<Rightarrow> string \<Rightarrow> WorkflowDefinition option" where
  "getDefinitionFromRun s runId = (case runOf s runId of None \<Rightarrow> None | Some run \<Rightarrow> defOf s (wr_workflowId run))"

definition withRun :: "string \<Rightarrow> (WorkflowStepRun \<Rightarrow> WorkflowRun \<Rightarrow> 'a wf_op) \<Rightarrow> 'a wf_op" where
  "withRun i k s = (case stepRunOf s i of
     None \<Rightarrow> throwW (''Step run not found: '' @ i) s
   | Some sr \<Rightarrow> (case runOf s (sr_workflowRunId sr) of
       None \<Rightarrow> throwW (''Workflow run not found: '' @ sr_workflowRunId sr) s
     | Some run \<Rightarrow> k sr run s))"

text \<open>The opening lines of \<open>executeStep\<close>, \<open>handleStepCompletion\<close> and the handlers of the step kinds.\<close>

definition withStep :: "string \<Rightarrow> (WorkflowStepRun \<Rightarrow> WorkflowRun \<Rightarrow> WorkflowDefinition \<Rightarrow> WorkflowStep \<Rightarrow> 'a wf_op) \<Rightarrow> 'a wf_op" where
  "withStep i k = withRun i (\<lambda>sr run s. case defOf s (wr_workflowId run) of
     None \<Rightarrow> throwW (''Definition not found: '' @ wr_workflowId run) s
   | Some d \<Rightarrow> (case findStep (df_steps d) (sr_stepId sr) of
       None \<Rightarrow> throwW (''Step not found: '' @ sr_stepId sr) s
     | Some st \<Rightarrow> k sr run d st s))"

definition wfCreateRuntimeAction ::
  "string \<Rightarrow> string \<Rightarrow> string \<Rightarrow> string \<Rightarrow> string \<Rightarrow> (string \<times> json) list \<Rightarrow> json RuntimeAction wf_op" where
  "wfCreateRuntimeAction runId stepRunId userId targetRuntime targetAction payload =
     bindW (generateId ''act_'') (\<lambda>actionId s.
       let action = \<lparr>ac_actionId = actionId, ac_actionType = targetAction, ac_idempotencyKey = None,
         ac_sourceModule = Some ''workflow'', ac_sourceAction = Some ''execute_step'', ac_targetRuntime = targetRuntime,
         ac_targetAction = targetAction, ac_payload = JObj payload, ac_correlationId = Some runId, ac_causationId = None,
         ac_sessionId = None, ac_userId = Some userId,
         ac_targetRef = Some \<lparr>tr_plannerRunId = None, tr_planId = None, tr_runId = None, tr_workflowRunId = Some runId,
           tr_workflowStepRunId = Some stepRunId, tr_backgroundRunId = None, tr_subagentRunId = None, tr_toolCallId = None,
           tr_approvalId = None\<rparr>,
         ac_status = ''created'', ac_statusMessage = None, ac_result = None, ac_createdAt = wf_now s, ac_updatedAt = wf_now s\<rparr> in
       case actionSave action (wf_actions s) of
         Inl e \<Rightarrow> (Inl e, s)
       | Inr t \<Rightarrow> (Inr action, s\<lparr>wf_actions := t\<rparr>))"

definition stepPayload :: "string \<Rightarrow> WorkflowStep \<Rightarrow> WorkflowStepRun \<Rightarrow> (string \<times> json) list" where
  "stepPayload stepRunId st sr = str ''stepRunId'' stepRunId @ str ''stepType'' (ws_stepType st) @
     [(''stepConfig'', ws_config st)] @ opt ''inputData'' (sr_inputData sr)"

definition auditJson :: "RetryAttemptAuditEntry \<Rightarrow> json" where
  "auditJson a = JObj (num ''attempt'' (int (au_attempt a)) @ str ''status'' (au_status a) @
     optStr ''errorCategory'' (au_errorCategory a) @ optStr ''errorCode'' (au_errorCode a) @
     opt ''delayMs'' (map_option JNum (au_delayMs a)) @ num ''timestamp'' (au_timestamp a))"

section \<open>Going on after a step\<close>

text \<open>
  The handlers below take the call of \<open>executeStep\<close> they make as their argument \<open>exec\<close>; \<open>executeStep\<close> ties the
  knot.
\<close>

definition completeRun :: "string \<Rightarrow> json option \<Rightarrow> unit wf_op" where
  "completeRun runId finalOutput s = thenW (saveRunOutputW runId (Some (JObj (opt ''finalOutput'' finalOutput))))
     (thenW (setRunStatusW runId ''completed'')
       (wfEmitEvent ''workflow_run_completed'' None [(''workflowRunId'', runId)]
          (str ''workflowRunId'' runId @ num ''completedAt'' (wf_now s)))) s"

definition goToStep :: "(string \<Rightarrow> unit wf_op) \<Rightarrow> string \<Rightarrow> WorkflowDefinition \<Rightarrow> string \<Rightarrow> unit wf_op" where
  "goToStep exec runId d target s = (case findStep (df_steps d) target of
     None \<Rightarrow> (Inr (), s)
   | Some next \<Rightarrow> (case findStepRun (stepRunsOf s runId) (ws_stepId next) of
       None \<Rightarrow> (Inr (), s)
     | Some sr \<Rightarrow> thenW (setCurrentStepsW runId [ws_stepId next]) (exec (sr_stepRunId sr)) s))"

definition advanceToNextStep :: "(string \<Rightarrow> unit wf_op) \<Rightarrow> string \<Rightarrow> WorkflowStep \<Rightarrow> json option \<Rightarrow> unit wf_op" where
  "advanceToNextStep exec runId current output s = (case getDefinitionFromRun s runId of
     None \<Rightarrow> (Inr (), s)
   | Some d \<Rightarrow> if \<not> truthy (ws_nextStepId current) then completeRun runId output s
       else goToStep exec runId d (the (ws_nextStepId current)) s)"

section \<open>Failures\<close>

definition shouldRetryStepV2 :: "WorkflowStep \<Rightarrow> StepExecutionResult \<Rightarrow> nat \<Rightarrow> bool" where
  "shouldRetryStepV2 st result currentAttempt = (case field (ws_config st) ''retryPolicyV2'' of
     None \<Rightarrow> False
   | Some policy \<Rightarrow>
       if \<not> truthyValue (Some policy) then False
       else if int currentAttempt \<ge> nullish (numField policy ''maxAttempts'') 1 then False
       else if er_recoverability result = Some ''non_recoverable'' then False
       else if truthy (er_errorCategory result) \<and> listField policy ''retryableErrorCategories'' \<noteq> None
         then JStr (the (er_errorCategory result)) \<in> set (the (listField policy ''retryableErrorCategories''))
       else er_recoverability result = Some ''retryable_later'' \<or> er_recoverability result = Some ''recoverable_auto'')"

definition calculateRetryDelay :: "WorkflowStep \<Rightarrow> nat \<Rightarrow> int" where
  "calculateRetryDelay st attempt = (case field (ws_config st) ''retryPolicyV2'' of
     None \<Rightarrow> 1000
   | Some policy \<Rightarrow>
       if \<not> truthyValue (Some policy) then 1000
       else (let initialDelay = nullish (numField policy ''initialDelayMs'') 1000;
                 maxDelay = nullish (numField policy ''maxDelayMs'') 30000;
                 backoff = nullish (strField policy ''backoff'') ''exponential'';
                 delay = (if backoff = ''none'' then 0 else if backoff = ''fixed'' then initialDelay
                          else if backoff = ''linear'' then initialDelay * int attempt
                          else initialDelay * 2 ^ (attempt - 1)) in
             min delay maxDelay))"

definition failurePayload :: "string \<Rightarrow> WorkflowStep \<Rightarrow> StepExecutionResult \<Rightarrow> (string \<times> json) list" where
  "failurePayload stepRunId st result = str ''stepRunId'' stepRunId @ str ''stepId'' (ws_stepId st) @
     optStr ''error'' (er_error result) @ optStr ''errorCategory'' (er_errorCategory result)"

definition stepRefs :: "string \<Rightarrow> string \<Rightarrow> (string \<times> string) list" where
  "stepRefs runId stepRunId = [(''workflowRunId'', runId), (''stepRunId'', stepRunId)]"

definition handleOnFailureFail ::
  "string \<Rightarrow> WorkflowStep \<Rightarrow> string \<times> string \<Rightarrow> StepExecutionResult \<Rightarrow> RetryAttemptAuditEntry list \<Rightarrow> timestamp \<Rightarrow> unit wf_op" where
  "handleOnFailureFail stepRunId st run result trail now =
     thenW (setStepStatusW stepRunId ''failed'')
     (thenW (setRunStatusW (fst run) ''failed'')
     (thenW (wfEmitEvent ''workflow_step_failed'' (Some (snd run)) (stepRefs (fst run) stepRunId)
        (failurePayload stepRunId st result @ num ''failedAt'' now @ [(''auditTrail'', JArr (map auditJson trail))]))
     (wfEmitEvent ''workflow_run_failed'' (Some (snd run)) [(''workflowRunId'', fst run)]
        (str ''workflowRunId'' (fst run) @ str ''failedStepId'' (ws_stepId st) @ optStr ''error'' (er_error result) @
         optStr ''errorCategory'' (er_errorCategory result) @ num ''failedAt'' now))))"

definition handleOnFailureContinue ::
  "(string \<Rightarrow> unit wf_op) \<Rightarrow> string \<Rightarrow> WorkflowStep \<Rightarrow> string \<times> string \<Rightarrow> StepExecutionResult \<Rightarrow> RetryAttemptAuditEntry list \<Rightarrow>
   timestamp \<Rightarrow> unit wf_op" where
  "handleOnFailureContinue exec stepRunId st run result trail now =
     thenW (setStepStatusW stepRunId ''completed'')
     (thenW (saveStepOutputW stepRunId (Some (JObj ([(''failed'', JBool True)] @ optStr ''error'' (er_error result) @
        [(''continued'', JBool True)]))))
     (thenW (wfEmitEvent ''workflow_step_failed_continue'' (Some (snd run)) (stepRefs (fst run) stepRunId)
        (failurePayload stepRunId st result @ num ''continuedAt'' now @ [(''auditTrail'', JArr (map auditJson trail))]))
     (advanceToNextStep exec (fst run) st (Some JNull))))"

definition handleOnFailureSkip ::
  "(string \<Rightarrow> unit wf_op) \<Rightarrow> string \<Rightarrow> WorkflowStep \<Rightarrow> string \<times> string \<Rightarrow> StepExecutionResult \<Rightarrow> RetryAttemptAuditEntry list \<Rightarrow>
   timestamp \<Rightarrow> unit wf_op" where
  "handleOnFailureSkip exec stepRunId st run result trail now =
     thenW (setStepStatusW stepRunId ''cancelled'')
     (thenW (wfEmitEvent ''workflow_step_skipped'' (Some (snd run)) (stepRefs (fst run) stepRunId)
        (failurePayload stepRunId st result @ str ''reason'' ''onFailure=skip'' @ num ''skippedAt'' now @
         [(''auditTrail'', JArr (map auditJson trail))]))
     (advanceToNextStep exec (fst run) st (Some JNull)))"

definition handleOnFailureCompensate ::
  "wf_env \<Rightarrow> string \<Rightarrow> WorkflowStep \<Rightarrow> string \<times> string \<Rightarrow> StepExecutionResult \<Rightarrow> RetryAttemptAuditEntry list \<Rightarrow> timestamp \<Rightarrow> unit wf_op" where
  "handleOnFailureCompensate env stepRunId st run result trail now = (let hook = strField (ws_config st) ''compensateHook'' in
     thenW (wfEmitEvent ''workflow_step_compensate_requested'' (Some (snd run)) (stepRefs (fst run) stepRunId)
        (failurePayload stepRunId st result @ optStr ''compensateHook'' hook @ num ''requestedAt'' now @
         [(''auditTrail'', JArr (map auditJson trail))]))
     (if truthy hook \<and> env_dispatcher env
      then bindW (wfCreateRuntimeAction (fst run) stepRunId (snd run) ''workflow_runtime'' ''execute_compensate_hook''
             (str ''stepRunId'' stepRunId @ str ''stepId'' (ws_stepId st) @ optStr ''compensateHook'' hook @
              optStr ''originalError'' (er_error result) @ optStr ''originalErrorCategory'' (er_errorCategory result)))
           (\<lambda>_. addPending (CompensateDispatch stepRunId st run result trail))
      else handleOnFailureFail stepRunId st run result trail now))"

definition forgetAttempts :: "string \<Rightarrow> unit wf_op" where
  "forgetAttempts stepRunId = doW (\<lambda>s. s\<lparr>wf_attempts := mapDelete stepRunId (wf_attempts s),
     wf_trails := mapDelete stepRunId (wf_trails s)\<rparr>)"

definition applyOnFailurePolicy ::
  "wf_env \<Rightarrow> (string \<Rightarrow> unit wf_op) \<Rightarrow> string \<Rightarrow> WorkflowStep \<Rightarrow> string \<times> string \<Rightarrow> StepExecutionResult \<Rightarrow>
   RetryAttemptAuditEntry list \<Rightarrow> timestamp \<Rightarrow> unit wf_op" where
  "applyOnFailurePolicy env exec stepRunId st run result trail now =
     (let onFailure = nullish (strField (ws_config st) ''onFailure'') ''fail'' in
      thenW (if onFailure = ''continue'' then handleOnFailureContinue exec stepRunId st run result trail now
             else if onFailure = ''skip'' then handleOnFailureSkip exec stepRunId st run result trail now
             else if onFailure = ''compensate'' then handleOnFailureCompensate env stepRunId st run result trail now
             else handleOnFailureFail stepRunId st run result trail now)
        (forgetAttempts stepRunId))"

definition scheduleRetry :: "string \<Rightarrow> int \<Rightarrow> unit wf_op" where
  "scheduleRetry stepRunId delayMs = doW (\<lambda>s. s\<lparr>wf_timers := mapSet (''retry_'' @ stepRunId) (stepRunId, delayMs) (wf_timers s)\<rparr>)"

definition handleStepFailure ::
  "wf_env \<Rightarrow> (string \<Rightarrow> unit wf_op) \<Rightarrow> string \<Rightarrow> WorkflowStep \<Rightarrow> string \<times> string \<Rightarrow> StepExecutionResult \<Rightarrow> timestamp \<Rightarrow> unit wf_op" where
  "handleStepFailure env exec stepRunId st run result now s =
     (let currentAttempt = nullish (mapGet (wf_attempts s) stepRunId) 0 + 1;
          entry = \<lparr>au_attempt = currentAttempt, au_status = ''failed'', au_errorCategory = er_errorCategory result,
            au_errorCode = (if truthy (er_error result) then Some ''EXECUTION_ERROR'' else None), au_delayMs = None, au_timestamp = now\<rparr>;
          trail = nullish (mapGet (wf_trails s) stepRunId) [] @ [entry];
          s1 = s\<lparr>wf_attempts := mapSet stepRunId currentAttempt (wf_attempts s), wf_trails := mapSet stepRunId trail (wf_trails s)\<rparr> in
      if shouldRetryStepV2 st result currentAttempt then
        (let delayMs = calculateRetryDelay st currentAttempt;
             trail' = trail @ [\<lparr>au_attempt = currentAttempt + 1, au_status = ''retry_scheduled'', au_errorCategory = None,
               au_errorCode = None, au_delayMs = Some delayMs, au_timestamp = now\<rparr>] in
         thenW (doW (\<lambda>s. s\<lparr>wf_trails := mapSet stepRunId trail' (wf_trails s)\<rparr>))
         (thenW (wfEmitEvent ''workflow_step_retry_scheduled'' (Some (snd run)) (stepRefs (fst run) stepRunId)
            (str ''stepRunId'' stepRunId @ str ''stepId'' (ws_stepId st) @ num ''attempt'' (int currentAttempt) @
             num ''maxAttempts'' (nullish (Option.bind (field (ws_config st) ''retryPolicyV2'') (\<lambda>p. numField p ''maxAttempts'')) 1) @
             num ''delayMs'' delayMs @ optStr ''error'' (er_error result) @ optStr ''errorCategory'' (er_errorCategory result) @
             num ''scheduledAt'' now))
         (thenW (setStepStatusW stepRunId ''queued'') (scheduleRetry stepRunId delayMs))) s1)
      else applyOnFailurePolicy env exec stepRunId st run result trail now s1)"

definition handleStepCompletion :: "wf_env \<Rightarrow> (string \<Rightarrow> unit wf_op) \<Rightarrow> string \<Rightarrow> StepExecutionResult \<Rightarrow> unit wf_op" where
  "handleStepCompletion env exec stepRunId result = withStep stepRunId (\<lambda>sr run d st s.
     if er_success result then
       thenW (forgetAttempts stepRunId)
       (thenW (setStepStatusW stepRunId ''completed'')
       (thenW (saveStepOutputW stepRunId (er_output result))
       (thenW (wfEmitEvent ''workflow_step_completed'' (Some (wr_ownerUserId run)) (stepRefs (sr_workflowRunId sr) stepRunId)
          (str ''stepRunId'' stepRunId @ str ''stepId'' (ws_stepId st) @ opt ''output'' (er_output result) @
           num ''completedAt'' (wf_now s) @ opt ''attemptNumber'' (map_option (\<lambda>n. JNum (int n)) (er_attemptNumber result))))
       (advanceToNextStep exec (sr_workflowRunId sr) st (er_output result))))) s
     else handleStepFailure env exec stepRunId st (wr_workflowRunId run, wr_ownerUserId run) result (wf_now s) s)"

section \<open>Conditions\<close>

definition collectStepOutputs :: "wf_env \<Rightarrow> WorkflowStepRun list \<Rightarrow> (string, json) jsmap" where
  "collectStepOutputs env srs = fold (\<lambda>sr m. mapSet (sr_stepId sr) (case the (sr_outputData sr) of
       JStr t \<Rightarrow> nullish (env_parse env t) (JStr t) | v \<Rightarrow> v) m)
     (filter (\<lambda>sr. sr_status sr = ''completed'' \<and> truthyValue (sr_outputData sr)) srs) []"

definition conditionInput :: "wf_env \<Rightarrow> WorkflowRun \<Rightarrow> json option" where
  "conditionInput env run = (if \<not> truthyValue (wr_inputData run) then None
     else case the (wr_inputData run) of JStr t \<Rightarrow> env_parse env t | v \<Rightarrow> Some v)"

definition evaluateOn :: "wf_env \<Rightarrow> string \<Rightarrow> WorkflowStepRun \<Rightarrow> WorkflowRun \<Rightarrow> wfstate \<Rightarrow> ConditionEvalResult" where
  "evaluateOn env expression sr run s =
     env_cond env expression (collectStepOutputs env (stepRunsOf s (sr_workflowRunId sr))) (conditionInput env run)"

definition conditionTarget :: "WorkflowStep \<Rightarrow> bool \<Rightarrow> string option" where
  "conditionTarget st met = strField (ws_config st) (if met then ''trueNextStepId'' else ''falseNextStepId'')"

definition executeConditionStep :: "wf_env \<Rightarrow> (string \<Rightarrow> unit wf_op) \<Rightarrow> string \<Rightarrow> unit wf_op" where
  "executeConditionStep env exec stepRunId = withStep stepRunId (\<lambda>sr run d st.
     thenW (setStepStatusW stepRunId ''running'') (\<lambda>s.
       let result = evaluateOn env (or_else (strField (ws_config st) ''conditionExpression'') []) sr run s;
           runId = sr_workflowRunId sr; target = conditionTarget st (ce_conditionMet result) in
       case ce_error result of
         Some (code, message) \<Rightarrow>
           if nullish (strField (ws_config st) ''onFailure'') ''fail'' = ''continue'' then
             thenW (setStepStatusW stepRunId ''completed'')
             (thenW (saveStepOutputW stepRunId (Some (JObj [(''conditionError'', JObj (str ''code'' code @ str ''message'' message))])))
             (if truthy target then goToStep exec runId d (the target) else returnW ())) s
           else
             thenW (setStepStatusW stepRunId ''failed'')
             (thenW (setRunStatusW runId ''failed'')
             (wfEmitEvent ''workflow_step_failed'' (Some (wr_ownerUserId run)) (stepRefs runId stepRunId)
               (str ''stepRunId'' stepRunId @ str ''stepId'' (ws_stepId st) @ str ''error'' message @
                str ''errorCategory'' ''undefined_variable'' @ num ''failedAt'' (wf_now s)))) s
       | None \<Rightarrow>
           thenW (setStepStatusW stepRunId ''completed'')
           (thenW (saveStepOutputW stepRunId (Some (JObj [(''conditionMet'', JBool (ce_conditionMet result))])))
           (thenW (wfEmitEvent ''workflow_condition_evaluated'' (Some (wr_ownerUserId run)) (stepRefs runId stepRunId)
             (str ''stepRunId'' stepRunId @ str ''stepId'' (ws_stepId st) @ [(''conditionMet'', JBool (ce_conditionMet result))] @
              num ''evaluatedAt'' (wf_now s)))
           (if \<not> truthy target
            then completeRun runId (Some (JObj [(''conditionMet'', JBool (ce_conditionMet result))]))
            else goToStep exec runId d (the target)))) s))"

section \<open>Branches\<close>

definition selectBranch :: "(string \<Rightarrow> ConditionEvalResult) \<Rightarrow> WorkflowBranch list \<Rightarrow> WorkflowBranch" where
  "selectBranch eval branches = (case find (\<lambda>b. truthy (br_condition b) \<and>
       (let r = eval (the (br_condition b)) in ce_error r = None \<and> ce_conditionMet r)) branches of
     Some b \<Rightarrow> b | None \<Rightarrow> hd branches)"

fun skipBranchSteps :: "WorkflowStep list \<Rightarrow> string \<Rightarrow> string \<Rightarrow> unit wf_op" where
  "skipBranchSteps [] runId userId = returnW ()"
| "skipBranchSteps (st # steps) runId userId = thenW (\<lambda>s. case findStepRun (stepRunsOf s runId) (ws_stepId st) of
     None \<Rightarrow> (Inr (), s)
   | Some sr \<Rightarrow> thenW (setStepStatusW (sr_stepRunId sr) ''cancelled'')
       (wfEmitEvent ''workflow_step_skipped'' (Some userId) (stepRefs runId (sr_stepRunId sr))
          (str ''stepRunId'' (sr_stepRunId sr) @ str ''stepId'' (ws_stepId st) @ str ''reason'' ''Branch not selected'' @
           num ''skippedAt'' (wf_now s))) s) (skipBranchSteps steps runId userId)"

fun skipBranches :: "WorkflowBranch list \<Rightarrow> string \<Rightarrow> string \<Rightarrow> string \<Rightarrow> unit wf_op" where
  "skipBranches [] selected runId userId = returnW ()"
| "skipBranches (b # branches) selected runId userId =
     thenW (if br_branchId b \<noteq> selected then skipBranchSteps (br_steps b) runId userId else returnW ())
       (skipBranches branches selected runId userId)"

text \<open>The dispatch of an ordinary step, shared by \<open>executeStep\<close> and \<open>executeBranchInternalStep\<close>.\<close>

definition dispatchStep :: "wf_env \<Rightarrow> string \<Rightarrow> WorkflowStep \<Rightarrow> WorkflowStepRun \<Rightarrow> WorkflowRun \<Rightarrow> continuation \<Rightarrow> unit wf_op" where
  "dispatchStep env stepRunId st sr run reaction =
     thenW (setStepStatusW stepRunId ''running'')
     (bindW (wfCreateRuntimeAction (sr_workflowRunId sr) stepRunId (wr_ownerUserId run) (getTargetRuntimeForStepType (ws_stepType st))
        (getTargetActionForStepType (ws_stepType st)) (stepPayload stepRunId st sr))
     (\<lambda>action. thenW (if env_dispatcher env then addPending reaction else returnW ())
       (wfEmitEvent ''workflow_step_executing'' (Some (wr_ownerUserId run)) (stepRefs (sr_workflowRunId sr) stepRunId)
         (str ''stepRunId'' stepRunId @ str ''stepId'' (ws_stepId st) @ str ''stepType'' (ws_stepType st) @
          str ''actionId'' (ac_actionId action)))))"

definition executeBranchInternalStep :: "wf_env \<Rightarrow> string \<Rightarrow> WorkflowStep \<Rightarrow> WorkflowStep list \<Rightarrow> WorkflowStep \<Rightarrow> unit wf_op" where
  "executeBranchInternalStep env stepRunId branchStep branchSteps parent =
     withRun stepRunId (\<lambda>sr run. dispatchStep env stepRunId branchStep sr run (BranchDispatch stepRunId branchStep branchSteps parent))"

definition executeBranchStep :: "wf_env \<Rightarrow> (string \<Rightarrow> unit wf_op) \<Rightarrow> string \<Rightarrow> unit wf_op" where
  "executeBranchStep env exec stepRunId = withStep stepRunId (\<lambda>sr run d st.
     thenW (setStepStatusW stepRunId ''running'')
     (let branches = branchesOf st; runId = sr_workflowRunId sr in
      if branches = [] then handleStepCompletion env exec stepRunId \<lparr>er_success = False, er_output = None,
          er_error = Some ''No branches defined'', er_errorCategory = None, er_recoverability = None, er_attemptNumber = None\<rparr>
      else (\<lambda>s. let selected = selectBranch (\<lambda>c. evaluateOn env c sr run s) branches in
        thenW (setStepStatusW stepRunId ''completed'')
        (thenW (saveStepOutputW stepRunId (Some (JObj (str ''selectedBranch'' (br_branchId selected)))))
        (thenW (wfEmitEvent ''workflow_branch_selected'' (Some (wr_ownerUserId run)) (stepRefs runId stepRunId)
           (str ''stepRunId'' stepRunId @ str ''stepId'' (ws_stepId st) @ str ''selectedBranch'' (br_branchId selected) @
            num ''selectedAt'' (wf_now s)))
        (thenW (skipBranches branches (br_branchId selected) runId (wr_ownerUserId run))
        (case br_steps selected of
           [] \<Rightarrow> advanceToNextStep exec runId st (Some JNull)
         | first # _ \<Rightarrow> (\<lambda>s. case findStepRun (stepRunsOf s runId) (ws_stepId first) of
             None \<Rightarrow> (Inr (), s)
           | Some bsr \<Rightarrow> thenW (setCurrentStepsW runId [ws_stepId first])
               (executeBranchInternalStep env (sr_stepRunId bsr) first (br_steps selected) st) s))))) s)))"

definition nextBranchStep :: "WorkflowStep \<Rightarrow> WorkflowStep list \<Rightarrow> WorkflowStep option" where
  "nextBranchStep branchStep branchSteps = (let rest = dropWhile (\<lambda>s. ws_stepId s \<noteq> ws_stepId branchStep) branchSteps in
     case rest of _ # next # _ \<Rightarrow> Some next | _ \<Rightarrow> None)"

definition advanceInBranch ::
  "wf_env \<Rightarrow> (string \<Rightarrow> unit wf_op) \<Rightarrow> string \<Rightarrow> WorkflowStep \<Rightarrow> WorkflowStep list \<Rightarrow> WorkflowStep \<Rightarrow> json option \<Rightarrow> unit wf_op" where
  "advanceInBranch env exec runId branchStep branchSteps parent output s = (case nextBranchStep branchStep branchSteps of
     Some next \<Rightarrow> (case findStepRun (stepRunsOf s runId) (ws_stepId next) of
         None \<Rightarrow> (Inr (), s)
       | Some nsr \<Rightarrow> thenW (setCurrentStepsW runId [ws_stepId next])
           (executeBranchInternalStep env (sr_stepRunId nsr) next branchSteps parent) s)
   | None \<Rightarrow> advanceToNextStep exec runId parent output s)"

definition handleBranchInternalStepCompletion ::
  "wf_env \<Rightarrow> (string \<Rightarrow> unit wf_op) \<Rightarrow> string \<Rightarrow> WorkflowStep \<Rightarrow> WorkflowStep list \<Rightarrow> WorkflowStep \<Rightarrow> StepExecutionResult \<Rightarrow> unit wf_op" where
  "handleBranchInternalStepCompletion env exec stepRunId branchStep branchSteps parent result = withRun stepRunId (\<lambda>sr run s.
     let runId = sr_workflowRunId sr; user = Some (wr_ownerUserId run) in
     if er_success result then
       thenW (setStepStatusW stepRunId ''completed'')
       (thenW (wfEmitEvent ''workflow_step_completed'' user (stepRefs runId stepRunId)
          (str ''stepRunId'' stepRunId @ str ''stepId'' (ws_stepId branchStep) @ opt ''output'' (er_output result) @
           num ''completedAt'' (wf_now s)))
       (advanceInBranch env exec runId branchStep branchSteps parent (er_output result))) s
     else if nullish (strField (ws_config branchStep) ''onFailure'') ''fail'' = ''continue'' then
       thenW (setStepStatusW stepRunId ''completed'') (advanceInBranch env exec runId branchStep branchSteps parent (Some JNull)) s
     else
       thenW (setStepStatusW stepRunId ''failed'')
       (thenW (setRunStatusW runId ''failed'')
       (thenW (wfEmitEvent ''workflow_step_failed'' user (stepRefs runId stepRunId)
          (str ''stepRunId'' stepRunId @ str ''stepId'' (ws_stepId branchStep) @ optStr ''error'' (er_error result) @
           num ''failedAt'' (wf_now s)))
       (wfEmitEvent ''workflow_run_failed'' user [(''workflowRunId'', runId)]
          (str ''workflowRunId'' runId @ str ''failedStepId'' (ws_stepId branchStep) @ optStr ''error'' (er_error result) @
           num ''failedAt'' (wf_now s))))) s)"

section \<open>Polling waits\<close>

definition failedResult :: "string \<Rightarrow> string \<Rightarrow> string \<Rightarrow> nat option \<Rightarrow> StepExecutionResult" where
  "failedResult message category recoverability attempt = \<lparr>er_success = False, er_output = None, er_error = Some message,
     er_errorCategory = Some category, er_recoverability = Some recoverability, er_attemptNumber = attempt\<rparr>"

definition markWaitW :: "(WaitCondition list \<Rightarrow> string + (WaitCondition \<times> WaitCondition list)) \<Rightarrow> unit wf_op" where
  "markWaitW f s = (case f (wf_waits s) of Inl e \<Rightarrow> (Inl e, s) | Inr (_, t) \<Rightarrow> (Inr (), s\<lparr>wf_waits := t\<rparr>))"

definition pollPayload :: "string \<Rightarrow> string \<Rightarrow> nat \<Rightarrow> (string \<times> json) list" where
  "pollPayload stepRunId waitId attempt = str ''stepRunId'' stepRunId @ str ''waitConditionId'' waitId @ num ''pollAttempt'' (int attempt)"

definition evaluatePollingCondition ::
  "wf_env \<Rightarrow> (string \<Rightarrow> unit wf_op) \<Rightarrow> string \<Rightarrow> string \<Rightarrow> string \<Rightarrow> int \<Rightarrow> timestamp \<Rightarrow> nat \<Rightarrow> unit wf_op" where
  "evaluatePollingCondition env exec stepRunId waitId condition intervalMs timeoutAt attempt s = (case stepRunOf s stepRunId of
     None \<Rightarrow> (Inr (), s)
   | Some sr \<Rightarrow> (case runOf s (sr_workflowRunId sr) of
       None \<Rightarrow> (Inr (), s)
     | Some run \<Rightarrow> (let now = wf_now s; user = Some (wr_ownerUserId run); refs = stepRefs (sr_workflowRunId sr) stepRunId;
         payload = pollPayload stepRunId waitId attempt in
       if now \<ge> timeoutAt then
         thenW (if env_waitStore env then markWaitW (markTimeout now waitId) else returnW ())
         (thenW (wfEmitEvent ''workflow_polling_wait_timeout'' user refs (payload @ num ''timedOutAt'' now))
         (handleStepCompletion env exec stepRunId
            (failedResult ''Polling wait timed out'' ''timeout'' ''retryable_later'' (Some attempt)))) s
       else (let result = evaluateOn env condition sr run s in
         case ce_error result of
           Some (code, message) \<Rightarrow>
             thenW (wfEmitEvent ''workflow_polling_wait_error'' user refs (payload @ str ''error'' message @ num ''errorAt'' now))
             (handleStepCompletion env exec stepRunId
                (failedResult message ''expression_error'' ''non_recoverable'' (Some attempt))) s
         | None \<Rightarrow>
             if ce_conditionMet result then
               thenW (if env_waitStore env then markWaitW (markSatisfied now waitId ''polling_evaluator''
                   (Some (JObj ([(''conditionMet'', JBool True)] @ num ''pollAttempt'' (int attempt))))) else returnW ())
               (thenW (wfEmitEvent ''workflow_polling_wait_satisfied'' user refs (payload @ num ''satisfiedAt'' now))
               (handleStepCompletion env exec stepRunId \<lparr>er_success = True,
                  er_output = Some (JObj ([(''conditionMet'', JBool True)] @ num ''pollAttempt'' (int attempt))),
                  er_error = None, er_errorCategory = None, er_recoverability = None, er_attemptNumber = Some attempt\<rparr>)) s
             else
               thenW (wfEmitEvent ''workflow_polling_wait_poll'' user refs
                 (payload @ num ''nextPollInMs'' intervalMs @ num ''polledAt'' now))
               (addPending (PollTimer stepRunId waitId condition intervalMs timeoutAt (attempt + 1))) s))))"

definition executePollingWaitStep :: "wf_env \<Rightarrow> (string \<Rightarrow> unit wf_op) \<Rightarrow> string \<Rightarrow> unit wf_op" where
  "executePollingWaitStep env exec stepRunId = withStep stepRunId (\<lambda>sr run d st.
     thenW (setStepStatusW stepRunId ''running'')
     (let condition = or_else (strField (ws_config st) ''pollingCondition'') [];
          intervalMs = nullish (numField (ws_config st) ''pollingIntervalMs'') 1000;
          timeoutMs = nullish (numField (ws_config st) ''timeoutMs'') 60000 in
      if \<not> env_waitStore env then
        handleStepCompletion env exec stepRunId
          (failedResult ''WaitConditionStore not configured'' ''system_internal_error'' ''non_recoverable'' None)
      else bindW (generateId ''wait_'') (\<lambda>waitId s. let timeoutAt = wf_now s + timeoutMs in
        case waitCreate (wf_now s) \<lparr>cwc_id = waitId, cwc_waitType = ''polling'', cwc_conditionPattern = condition,
            cwc_targetType = ''workflow_step_run'', cwc_targetRef = stepRunId, cwc_status = ''active'', cwc_priority = Some 0,
            cwc_timeoutAt = Some timeoutAt, cwc_metadata = Some (JObj (num ''pollingIntervalMs'' intervalMs @
              str ''stepRunId'' stepRunId @ str ''workflowRunId'' (sr_workflowRunId sr)))\<rparr> (wf_waits s) of
          Inl e \<Rightarrow> (Inl e, s)
        | Inr (_, waits) \<Rightarrow>
            thenW (wfEmitEvent ''workflow_polling_wait_registered'' (Some (wr_ownerUserId run)) (stepRefs (sr_workflowRunId sr) stepRunId)
               (str ''stepRunId'' stepRunId @ str ''stepId'' (ws_stepId st) @ str ''waitConditionId'' waitId @
                str ''pollingCondition'' condition @ num ''pollingIntervalMs'' intervalMs @ num ''timeoutMs'' timeoutMs @
                num ''timeoutAt'' timeoutAt @ num ''registeredAt'' (wf_now s)))
            (evaluatePollingCondition env exec stepRunId waitId condition intervalMs timeoutAt 0) (s\<lparr>wf_waits := waits\<rparr>))))"

section \<open>Parallel groups\<close>

text \<open>
  \<open>executeParallelGroupStep\<close> is asynchronous: an exception inside it, or a rejected member of a batch, rejects
  its promise, which nobody handles. A member of a batch is done once its step run is completed, failed or
  cancelled.
\<close>

definition asyncW :: "unit wf_op \<Rightarrow> unit wf_op" where
  "asyncW m = catchW m unhandled"

definition memberDone :: "wfstate \<Rightarrow> string \<Rightarrow> bool" where
  "memberDone s i = (case stepRunOf s i of None \<Rightarrow> False
     | Some sr \<Rightarrow> sr_status sr \<in> {''completed'', ''failed'', ''cancelled''})"

text \<open>\<open>batch.map(executeParallelStep)\<close>: every member is started; the first rejection, and the members not done yet.\<close>

fun startBatch :: "(string \<Rightarrow> unit wf_op) \<Rightarrow> string list \<Rightarrow> string option \<Rightarrow> string list \<Rightarrow> (string option \<times> string list) wf_op" where
  "startBatch exec [] rejected waiting = returnW (rejected, waiting)"
| "startBatch exec (i # ids) rejected waiting = (\<lambda>s. case exec i s of
     (Inl e, s') \<Rightarrow> startBatch exec ids (nullish_opt rejected (Some e)) waiting s'
   | (Inr _, s') \<Rightarrow> startBatch exec ids rejected (if memberDone s' i then waiting else waiting @ [i]) s')"

definition finishGroup :: "wf_env \<Rightarrow> (string \<Rightarrow> unit wf_op) \<Rightarrow> string \<Rightarrow> WorkflowStep list \<Rightarrow> unit wf_op" where
  "finishGroup env exec stepRunId parallelSteps s = (case stepRunOf s stepRunId of
     None \<Rightarrow> (Inr (), s)
   | Some gsr \<Rightarrow> (let allStepRuns = stepRunsOf s (sr_workflowRunId gsr) in
       if list_all (\<lambda>ps. case findStepRun allStepRuns (ws_stepId ps) of None \<Rightarrow> False
            | Some psr \<Rightarrow> sr_status psr = ''completed'' \<or> sr_status psr = ''failed'') parallelSteps
       then handleStepCompletion env exec stepRunId \<lparr>er_success = True,
         er_output = Some (JObj [(''parallelGroupCompleted'', JBool True)]), er_error = None, er_errorCategory = None,
         er_recoverability = None, er_attemptNumber = None\<rparr> s
       else (Inr (), s)))"

definition runGroup :: "wf_env \<Rightarrow> (string \<Rightarrow> unit wf_op) \<Rightarrow> string \<Rightarrow> string list \<Rightarrow> WorkflowStep list \<Rightarrow> nat \<Rightarrow> unit wf_op" where
  "runGroup env exec stepRunId ids parallelSteps batchSize =
     (if ids = [] then finishGroup env exec stepRunId parallelSteps
      else bindW (startBatch exec (take batchSize ids) None []) (\<lambda>(rejected, waiting). case rejected of
          Some e \<Rightarrow> throwW e
        | None \<Rightarrow> addPending (GroupBatch stepRunId waiting (drop batchSize ids) parallelSteps batchSize)))"

definition executeParallelGroupStep :: "wf_env \<Rightarrow> (string \<Rightarrow> unit wf_op) \<Rightarrow> string \<Rightarrow> unit wf_op" where
  "executeParallelGroupStep env exec stepRunId = withStep stepRunId (\<lambda>sr run d st.
     thenW (setStepStatusW stepRunId ''running'')
     (let parallelSteps = parallelStepsOf st; maxParallel = num_or (numField (ws_config st) ''maxParallel'') 5;
          runId = sr_workflowRunId sr in
      if parallelSteps = [] then handleStepCompletion env exec stepRunId \<lparr>er_success = True,
          er_output = Some (JObj [(''parallelResults'', JArr [])]), er_error = None, er_errorCategory = None,
          er_recoverability = None, er_attemptNumber = None\<rparr>
      else (\<lambda>s. let ids = map sr_stepRunId (List.map_filter (\<lambda>ps. findStepRun (stepRunsOf s runId) (ws_stepId ps)) parallelSteps) in
        thenW (setCurrentStepsW runId (map ws_stepId parallelSteps))
          (runGroup env exec stepRunId ids parallelSteps (min (nat maxParallel) (length ids))) s)))"

section \<open>Executing a step\<close>

definition executeStepBody :: "wf_env \<Rightarrow> (string \<Rightarrow> unit wf_op) \<Rightarrow> string \<Rightarrow> unit wf_op" where
  "executeStepBody env exec stepRunId = withStep stepRunId (\<lambda>sr run d st.
     if ws_stepType st = ''condition'' then executeConditionStep env exec stepRunId
     else if ws_stepType st = ''branch'' then executeBranchStep env exec stepRunId
     else if ws_stepType st = ''parallel_group'' then asyncW (executeParallelGroupStep env exec stepRunId)
     else if ws_stepType st = ''polling_wait'' then executePollingWaitStep env exec stepRunId
     else dispatchStep env stepRunId st sr run (StepDispatch stepRunId))"

primrec executeStep :: "wf_env \<Rightarrow> nat \<Rightarrow> string \<Rightarrow> unit wf_op" where
  "executeStep env 0 stepRunId = throwW ''Maximum call stack size exceeded''"
| "executeStep env (Suc depth) stepRunId = executeStepBody env (executeStep env depth) stepRunId"

abbreviation run_step :: "wf_env \<Rightarrow> string \<Rightarrow> unit wf_op" where
  "run_step env \<equiv> executeStep env (env_stack env)"

section \<open>Drafts, runs and cancellation\<close>

definition issueJson :: "ValidationIssue \<Rightarrow> json" where
  "issueJson i = JObj (str ''code'' (vi_code i) @ str ''message'' (vi_message i) @ optStr ''stepId'' (vi_stepId i) @
     str ''severity'' (if vi_error i then ''error'' else ''warning''))"

definition createDraft :: "string \<Rightarrow> string option \<Rightarrow> WorkflowStep list \<Rightarrow> string \<Rightarrow> WorkflowDraft wf_op" where
  "createDraft name description steps owner = bindW (generateId ''wf_draft_'') (\<lambda>draftId s.
     let draft = \<lparr>dr_draftId = draftId, dr_name = name, dr_description = description, dr_steps = steps, dr_ownerUserId = owner,
       dr_status = DraftOpen, dr_validationIssues = [], dr_createdAt = wf_now s, dr_updatedAt = wf_now s\<rparr> in
     case draftCreate (wf_now s) draft (wf_drafts s) of
       Inl e \<Rightarrow> (Inl e, s)
     | Inr (_, t) \<Rightarrow> thenW (wfEmitEvent ''workflow_draft_created'' (Some owner) [(''draftId'', draftId)]
         (str ''draftId'' draftId @ str ''name'' name @ num ''stepCount'' (int (length steps)))) (returnW draft) (s\<lparr>wf_drafts := t\<rparr>))"

definition draftIssues :: "WorkflowStep list \<Rightarrow> ValidationIssue list" where
  "draftIssues steps = validateSteps steps @ validateLinearFlow steps @ validateStepReferences steps"

definition noUpdates :: draftUpdates where
  "noUpdates = \<lparr>dp_name = None, dp_description = None, dp_steps = None, dp_ownerUserId = None, dp_status = None, dp_validationIssues = None\<rparr>"

definition validateDraft :: "string \<Rightarrow> ValidationIssue list wf_op" where
  "validateDraft draftId s = (case getDraftById (wf_drafts s) draftId of
     None \<Rightarrow> (Inl (''Draft not found: '' @ draftId), s)
   | Some draft \<Rightarrow> (let issues = draftIssues (dr_steps draft);
       s1 = s\<lparr>wf_drafts := snd (updateDraft (wf_now s) draftId (noUpdates\<lparr>dp_status := Some DraftValidating\<rparr>) (wf_drafts s))\<rparr> in
     case (if length issues > 0 then addValidationIssues (wf_now s) draftId issues (wf_drafts s1)
           else clearValidationIssues (wf_now s) draftId (wf_drafts s1)) of
       Inl e \<Rightarrow> (Inl e, s1)
     | Inr t \<Rightarrow> thenW (wfEmitEvent ''workflow_draft_validated'' (Some (dr_ownerUserId draft)) [(''draftId'', draftId)]
         (str ''draftId'' draftId @ num ''issueCount'' (int (length issues)) @ [(''issues'', JArr (map issueJson issues))]))
         (returnW issues) (s1\<lparr>wf_drafts := t\<rparr>)))"

definition publishDraft :: "string \<Rightarrow> WorkflowDefinition wf_op" where
  "publishDraft draftId s = (case getDraftById (wf_drafts s) draftId of
     None \<Rightarrow> (Inl (''Draft not found: '' @ draftId), s)
   | Some draft \<Rightarrow> bindW (validateDraft draftId) (\<lambda>issues.
       if length issues > 0
       then throwW (''Cannot publish draft with validation issues: '' @ nat_str (length issues) @ '' issues found'')
       else (\<lambda>s1. let version = getNextVersionNumber tenant (dr_name draft) (wf_defs s1) in
         bindW (generateId ''wf_def_'') (\<lambda>workflowId s2.
           let definition = \<lparr>df_workflowId = workflowId, df_name = dr_name draft, df_description = dr_description draft,
             df_version = version, df_steps = dr_steps draft, df_ownerUserId = dr_ownerUserId draft, df_status = Published,
             df_publishedFromDraftId = Some draftId, df_createdAt = wf_now s2, df_updatedAt = wf_now s2, df_tenantId = tenant\<rparr> in
           case createDefinition tenant (wf_now s2) definition (wf_defs s2) of
             Inl e \<Rightarrow> (Inl e, s2)
           | Inr (_, t) \<Rightarrow> thenW (wfEmitEvent ''workflow_definition_published'' (Some (dr_ownerUserId draft))
               [(''workflowId'', workflowId), (''draftId'', draftId)]
               (str ''workflowId'' workflowId @ str ''draftId'' draftId @ str ''name'' (dr_name draft) @ num ''version'' (int version)))
               (returnW definition) (s2\<lparr>wf_defs := t\<rparr>)) s1)) s)"

text \<open>The step runs a definition gets, in the order they are created: each step, then the steps nested in it.\<close>

definition nestedSteps :: "WorkflowStep \<Rightarrow> WorkflowStep list" where
  "nestedSteps st = (if ws_stepType st = ''branch'' then concat (map br_steps (branchesOf st)) else []) @
     (if ws_stepType st = ''parallel_group'' then parallelStepsOf st else [])"

definition expandSteps :: "WorkflowStep list \<Rightarrow> WorkflowStep list" where
  "expandSteps steps = concat (map (\<lambda>st. st # nestedSteps st) steps)"

fun createStepRuns :: "string \<Rightarrow> json option \<Rightarrow> WorkflowStep list \<Rightarrow> WorkflowStepRunInfo list wf_op" where
  "createStepRuns runId inputData [] = returnW []"
| "createStepRuns runId inputData (st # steps) = bindW (generateId ''wf_step_run_'') (\<lambda>stepRunId s.
     case createStepRun tenant (wf_now s) \<lparr>sr_stepRunId = stepRunId, sr_workflowRunId = runId, sr_stepId = ws_stepId st,
         sr_stepType = ws_stepType st, sr_status = ''queued'', sr_kernelRunId = None, sr_subagentRunId = None, sr_toolCallId = None,
         sr_approvalId = None, sr_inputData = Some (buildStepInput st inputData), sr_outputData = None, sr_errorMessage = None,
         sr_startedAt = None, sr_completedAt = None, sr_createdAt = wf_now s, sr_updatedAt = wf_now s, sr_tenantId = tenant\<rparr>
         (wf_stepRuns s) of
       Inl e \<Rightarrow> (Inl e, s)
     | Inr t \<Rightarrow> bindW (createStepRuns runId inputData steps) (\<lambda>infos. returnW (\<lparr>si_stepRunId = stepRunId, si_stepId = ws_stepId st,
         si_stepType = ws_stepType st, si_status = ''queued''\<rparr> # infos)) (s\<lparr>wf_stepRuns := t\<rparr>))"

definition startWorkflowRun :: "wf_env \<Rightarrow> WorkflowRunInput \<Rightarrow> WorkflowRunResult wf_op" where
  "startWorkflowRun env input s = (case defOf s (ri_definitionId input) of
     None \<Rightarrow> (Inl (''Workflow definition not found: '' @ ri_definitionId input), s)
   | Some d \<Rightarrow> if df_status d \<noteq> Published then (Inl (''Workflow definition is not published: '' @ ri_definitionId input), s)
     else bindW (generateId ''wf_run_'') (\<lambda>runId s1.
       case createWorkflowRun tenant (wf_now s1) \<lparr>wr_workflowRunId = runId, wr_workflowId = df_workflowId d,
           wr_workflowVersion = nat_str (df_version d), wr_ownerUserId = ri_userId input, wr_triggerEventId = ri_triggerEventId input,
           wr_status = ''queued'', wr_currentStepIds = Some [], wr_inputData = ri_inputData input, wr_outputData = None,
           wr_contextData = None, wr_startedAt = None, wr_completedAt = None, wr_createdAt = wf_now s1, wr_updatedAt = wf_now s1,
           wr_tenantId = tenant\<rparr> (wf_runs s1) of
         Inl e \<Rightarrow> (Inl e, s1)
       | Inr t \<Rightarrow> bindW (createStepRuns runId (ri_inputData input) (expandSteps (df_steps d))) (\<lambda>infos.
           thenW (setRunStatusW runId ''running'')
           (thenW (case df_steps d of
               [] \<Rightarrow> returnW ()
             | first # _ \<Rightarrow> (case find (\<lambda>i. si_stepId i = ws_stepId first) infos of
                 None \<Rightarrow> returnW ()
               | Some info \<Rightarrow> thenW (setCurrentStepsW runId [ws_stepId first]) (run_step env (si_stepRunId info))))
           (thenW (emitSessionEvent ''workflow_run_started'' (Some (ri_userId input)) (ri_sessionId input)
               [(''workflowRunId'', runId), (''workflowId'', df_workflowId d)]
               (str ''workflowRunId'' runId @ str ''workflowId'' (df_workflowId d) @ num ''version'' (int (df_version d)) @
                num ''stepCount'' (int (length (df_steps d)))))
           (returnW \<lparr>rr_workflowRunId = runId, rr_definitionId = df_workflowId d, rr_status = ''running'',
              rr_currentStepIds = (case df_steps d of [] \<Rightarrow> [] | first # _ \<Rightarrow> [ws_stepId first]), rr_stepRuns = infos\<rparr>))))
           (s1\<lparr>wf_runs := t\<rparr>)) s)"

definition getWorkflowRun :: "string \<Rightarrow> wfstate \<Rightarrow> WorkflowRunResult option" where
  "getWorkflowRun runId s = map_option (\<lambda>run. \<lparr>rr_workflowRunId = wr_workflowRunId run, rr_definitionId = wr_workflowId run,
     rr_status = wr_status run, rr_currentStepIds = nullish (wr_currentStepIds run) [],
     rr_stepRuns = map (\<lambda>sr. \<lparr>si_stepRunId = sr_stepRunId sr, si_stepId = sr_stepId sr, si_stepType = sr_stepType sr,
       si_status = sr_status sr\<rparr>) (stepRunsOf s runId)\<rparr>) (runOf s runId)"

definition RUN_TERMINAL_STATES :: "string list" where
  "RUN_TERMINAL_STATES = [''completed'', ''failed'', ''cancelled'', ''timeout'']"

definition nonTerminalActionStates :: "string list" where
  "nonTerminalActionStates = [''created'', ''validated'', ''accepted'', ''queued'', ''dispatching'', ''waiting_for_approval'', ''waiting_for_target'']"

fun cancelStepRuns :: "WorkflowStepRun list \<Rightarrow> unit wf_op" where
  "cancelStepRuns [] = returnW ()"
| "cancelStepRuns (sr # srs) = thenW (if sr_status sr \<notin> set RUN_TERMINAL_STATES
     then setStepStatusW (sr_stepRunId sr) ''cancelled'' else returnW ()) (cancelStepRuns srs)"

fun cancelActions :: "json RuntimeAction list \<Rightarrow> unit wf_op" where
  "cancelActions [] = returnW ()"
| "cancelActions (a # actions) = (\<lambda>s. if ac_status a \<in> set nonTerminalActionStates then
     (case updateStatus (ac_actionId a) ''cancelled'' (Some ''Workflow run cancelled'') None (wf_now s) (wf_actions s) of
        Inl e \<Rightarrow> (Inl e, s)
      | Inr t \<Rightarrow> cancelActions actions (s\<lparr>wf_actions := t\<rparr>))
     else cancelActions actions s)"

definition cancelWorkflowRun :: "string \<Rightarrow> unit wf_op" where
  "cancelWorkflowRun runId s = (case runOf s runId of
     None \<Rightarrow> (Inl (''Workflow run not found: '' @ runId), s)
   | Some run \<Rightarrow> if wr_status run \<in> set RUN_TERMINAL_STATES then (Inr (), s)
     else thenW (setRunStatusW runId ''cancelled'') (\<lambda>s1. let srs = stepRunsOf s1 runId in
       thenW (cancelStepRuns srs) (\<lambda>s2. let actions = actionQuery \<lparr>qy_plannerRunId = None, qy_planId = None, qy_userId = None,
           qy_sessionId = None, qy_status = None, qy_workflowRunId = Some runId\<rparr> (wf_actions s2) in
         thenW (cancelActions actions)
           (wfEmitEvent ''workflow_run_cancelled'' (Some (wr_ownerUserId run)) [(''workflowRunId'', runId)]
             (str ''workflowRunId'' runId @
              num ''cancelledStepCount'' (int (length (filter (\<lambda>sr. sr_status sr \<notin> set RUN_TERMINAL_STATES) srs))) @
              num ''cancelledActionCount'' (int (length (filter (\<lambda>a. ac_status a \<in> set nonTerminalActionStates) actions))) @
              num ''cancelledAt'' (wf_now s2))) s2) s1) s)"

definition shutdown :: "wfstate \<Rightarrow> wfstate" where
  "shutdown s = s\<lparr>wf_timers := [], wf_attempts := [], wf_trails := []\<rparr>"

section \<open>The event loop\<close>

text \<open>
  What happens between handlers: a dispatch settles, a timer fires, a caller reports a completion, publishes,
  starts or cancels, time passes. \<open>.then(h).catch(g)\<close> runs \<open>g\<close> when the promise is rejected and also when \<open>h\<close>
  throws; what \<open>g\<close> throws is unhandled.
\<close>

datatype promise = Resolved bool "json option" "string option" | RejectedWith string

definition reportOf :: "bool \<Rightarrow> json option \<Rightarrow> string option \<Rightarrow> StepExecutionResult" where
  "reportOf success output error = \<lparr>er_success = success, er_output = output, er_error = error, er_errorCategory = None,
     er_recoverability = None, er_attemptNumber = None\<rparr>"

definition settled :: "promise \<Rightarrow> (StepExecutionResult \<Rightarrow> unit wf_op) \<Rightarrow> unit wf_op" where
  "settled p h = asyncW (case p of
     Resolved success output error \<Rightarrow> catchW (h (reportOf success output error)) (\<lambda>e. h (reportOf False None (Some e)))
   | RejectedWith e \<Rightarrow> h (reportOf False None (Some e)))"

definition compensated ::
  "wf_env \<Rightarrow> string \<Rightarrow> WorkflowStep \<Rightarrow> string \<times> string \<Rightarrow> StepExecutionResult \<Rightarrow> RetryAttemptAuditEntry list \<Rightarrow> promise \<Rightarrow> unit wf_op" where
  "compensated env stepRunId st run result trail p =
     (let failing = (\<lambda>s. handleOnFailureFail stepRunId st run result trail (wf_now s) s) in
      asyncW (case p of
        Resolved True output _ \<Rightarrow> catchW
          (thenW (setStepStatusW stepRunId ''completed'') (\<lambda>s.
             thenW (wfEmitEvent ''workflow_step_compensated'' (Some (snd run)) (stepRefs (fst run) stepRunId)
               (str ''stepRunId'' stepRunId @ str ''stepId'' (ws_stepId st) @ opt ''compensateResult'' output @
                num ''compensatedAt'' (wf_now s)))
             (advanceToNextStep (run_step env) (fst run) st (Some JNull)) s)) (\<lambda>_. failing)
      | Resolved False _ _ \<Rightarrow> catchW failing (\<lambda>_. failing)
      | RejectedWith _ \<Rightarrow> failing))"

definition dropPending :: "nat \<Rightarrow> wfstate \<Rightarrow> wfstate" where
  "dropPending k s = s\<lparr>wf_pending := mapDelete k (wf_pending s)\<rparr>"

definition settlePending :: "wf_env \<Rightarrow> nat \<Rightarrow> promise \<Rightarrow> wfstate \<Rightarrow> wfstate" where
  "settlePending env k p s = (case mapGet (wf_pending s) k of
     Some (StepDispatch i) \<Rightarrow> snd (settled p (handleStepCompletion env (run_step env) i) (dropPending k s))
   | Some (BranchDispatch i st steps parent) \<Rightarrow>
       snd (settled p (handleBranchInternalStepCompletion env (run_step env) i st steps parent) (dropPending k s))
   | Some (CompensateDispatch i st run result trail) \<Rightarrow> snd (compensated env i st run result trail p (dropPending k s))
   | _ \<Rightarrow> s)"

text \<open>A poll timer, or the 100 ms check of the members of a batch; a batch without waiting members lets the group go on.\<close>

definition tick :: "wf_env \<Rightarrow> nat \<Rightarrow> wfstate \<Rightarrow> wfstate" where
  "tick env k s = (case mapGet (wf_pending s) k of
     Some (PollTimer i waitId condition intervalMs timeoutAt attempt) \<Rightarrow>
       snd (asyncW (evaluatePollingCondition env (run_step env) i waitId condition intervalMs timeoutAt attempt) (dropPending k s))
   | Some (GroupBatch i waiting rest parallelSteps batchSize) \<Rightarrow>
       (let waiting' = filter (\<lambda>m. \<not> memberDone s m) waiting in
        if waiting' \<noteq> [] then s\<lparr>wf_pending := mapSet k (GroupBatch i waiting' rest parallelSteps batchSize) (wf_pending s)\<rparr>
        else snd (asyncW (runGroup env (run_step env) i rest parallelSteps batchSize) (dropPending k s)))
   | _ \<Rightarrow> s)"

definition timerFires :: "wf_env \<Rightarrow> string \<Rightarrow> wfstate \<Rightarrow> wfstate" where
  "timerFires env timerId s = (case mapGet (wf_timers s) timerId of
     None \<Rightarrow> s
   | Some (stepRunId, _) \<Rightarrow> snd (asyncW (run_step env stepRunId) (s\<lparr>wf_timers := mapDelete timerId (wf_timers s)\<rparr>)))"

datatype wf_event =
    CreateDraft string "string option" "WorkflowStep list" string
  | ValidateDraft string
  | PublishDraft string
  | StartRun WorkflowRunInput
  | ExecuteStep string
  | ReportCompletion string StepExecutionResult
  | CancelRun string
  | Settle nat promise
  | Tick nat
  | TimerFires string
  | Shutdown
  | TimePasses nat

fun wf_step :: "wf_env \<Rightarrow> wf_event \<Rightarrow> wfstate \<Rightarrow> wfstate" where
  "wf_step env (CreateDraft name description steps owner) s = snd (createDraft name description steps owner s)"
| "wf_step env (ValidateDraft i) s = snd (validateDraft i s)"
| "wf_step env (PublishDraft i) s = snd (publishDraft i s)"
| "wf_step env (StartRun input) s = snd (startWorkflowRun env input s)"
| "wf_step env (ExecuteStep i) s = snd (run_step env i s)"
| "wf_step env (ReportCompletion i result) s = snd (handleStepCompletion env (run_step env) i result s)"
| "wf_step env (CancelRun i) s = snd (cancelWorkflowRun i s)"
| "wf_step env (Settle k p) s = settlePending env k p s"
| "wf_step env (Tick k) s = tick env k s"
| "wf_step env (TimerFires i) s = timerFires env i s"
| "wf_step env Shutdown s = shutdown s"
| "wf_step env (TimePasses ms) s = s\<lparr>wf_now := wf_now s + int ms\<rparr>"

definition initialState :: wfstate where
  "initialState = \<lparr>wf_defs = [], wf_drafts = [], wf_runs = [], wf_stepRuns = [], wf_actions = [], wf_waits = [], wf_events = [],
     wf_attempts = [], wf_trails = [], wf_timers = [], wf_pending = [], wf_unhandled = [], wf_nextId = 0, wf_now = 0\<rparr>"

end
