(* ===== verification/Workflow_Properties.thy ===== *)
theory Workflow_Properties
  imports Workflow_Runtime
begin

text \<open>
  What the workflow engine keeps, whatever events its event loop delivers: a locale collects the changes a
  handler can make to the tables and derives that every event respects a relation closed under them; its
  interpretations are the history of the tables and the integrity of their references.
\<close>

section \<open>Handlers without exec\<close>

lemma validateDraft_ok:
  assumes "validateDraft i s = (Inr issues, s')" "getDraftById (wf_drafts s) i = Some draft"
  shows "issues = draftIssues (dr_steps draft) \<and> wf_defs s' = wf_defs s \<and> wf_nextId s' = wf_nextId s \<and> wf_now s' = wf_now s"
  using assms by (auto simp: validateDraft_def Let_def thenW_def bindW_def wfEmitEvent_def emitSessionEvent_def doW_def returnW_def
      split: option.splits sum.splits)

lemma createWorkflowRun_found:
  assumes "createWorkflowRun ten now run t = Inr t'"
  shows "getWorkflowRunById ten (wr_workflowRunId run) t' \<noteq> None"
  using assms by (auto simp: createWorkflowRun_def insertRow_def getWorkflowRunById_def firstRow_eq_find find_append ofRun_def
      split: if_splits option.split)

lemma defOf_id: "defOf s i = Some d \<Longrightarrow> df_workflowId d = i"
  by (auto simp: defOf_def getDefinitionById_def firstRow_eq_find ofDefinition_def dest: find_Some_in)

section \<open>What every event respects\<close>

locale wf_frame =
  fixes R :: "wfstate \<Rightarrow> wfstate \<Rightarrow> bool"
  assumes R_trans: "R s s' \<Longrightarrow> R s' s'' \<Longrightarrow> R s s''"
    and R_rest: "wf_defs s' = wf_defs s \<Longrightarrow> wf_runs s' = wf_runs s \<Longrightarrow> wf_stepRuns s' = wf_stepRuns s \<Longrightarrow>
      wf_nextId s \<le> wf_nextId s' \<Longrightarrow> R s s'"
    and R_stepStatus: "status \<in> {''running'', ''completed'', ''failed'', ''cancelled'', ''queued''} \<Longrightarrow>
      R s (s\<lparr>wf_stepRuns := updateStepRunStatus tenant (wf_now s) i status (wf_stepRuns s)\<rparr>)"
    and R_stepOutput: "R s (s\<lparr>wf_stepRuns := saveStepOutput tenant (wf_now s) i out (wf_stepRuns s)\<rparr>)"
    and R_runStatus: "status \<in> {''running'', ''completed'', ''failed'', ''cancelled''} \<Longrightarrow>
      R s (s\<lparr>wf_runs := updateWorkflowStatus tenant (wf_now s) i status (wf_runs s)\<rparr>)"
    and R_current: "R s (s\<lparr>wf_runs := updateCurrentSteps tenant (wf_now s) i stepIds (wf_runs s)\<rparr>)"
    and R_runOutput: "R s (s\<lparr>wf_runs := saveWorkflowOutput tenant (wf_now s) i out (wf_runs s)\<rparr>)"
    and R_newRun: "wr_workflowRunId run = ''wf_run_'' @ nat_str (wf_nextId s) \<Longrightarrow> wr_status run = ''queued'' \<Longrightarrow>
      defOf s (wr_workflowId run) \<noteq> None \<Longrightarrow> createWorkflowRun tenant (wf_now s) run (wf_runs s) = Inr t \<Longrightarrow>
      R s (s\<lparr>wf_nextId := wf_nextId s + 1, wf_runs := t\<rparr>)"
    and R_newStepRun: "runOf s (sr_workflowRunId sr) \<noteq> None \<Longrightarrow> sr_status sr = ''queued'' \<Longrightarrow>
      createStepRun tenant (wf_now s) sr (wf_stepRuns s) = Inr ts \<Longrightarrow> R s (s\<lparr>wf_stepRuns := ts\<rparr>)"
    and R_newDef: "draftIssues (df_steps d) = [] \<Longrightarrow> df_version d = getNextVersionNumber tenant (df_name d) (wf_defs s) \<Longrightarrow>
      df_status d = Published \<Longrightarrow> createDefinition tenant (wf_now s) d (wf_defs s) = Inr (d', td) \<Longrightarrow> R s (s\<lparr>wf_defs := td\<rparr>)"
begin

definition keeps :: "'a wf_op \<Rightarrow> bool" where
  "keeps m = (\<forall>s. R s (snd (m s)))"

lemma R_refl [simp]: "R s s"
  by (rule R_rest) simp_all

lemma keepsI: "(\<And>s. R s (snd (m s))) \<Longrightarrow> keeps m"
  by (simp add: keeps_def)

lemma keepsD: "keeps m \<Longrightarrow> R s (snd (m s))"
  by (simp add: keeps_def)

lemma keeps_bind: "keeps m \<Longrightarrow> (\<And>x. keeps (f x)) \<Longrightarrow> keeps (bindW m f)"
  unfolding keeps_def bindW_def by (auto split: prod.split sum.split) (metis R_trans snd_conv)+

lemma keeps_then: "keeps m \<Longrightarrow> keeps k \<Longrightarrow> keeps (thenW m k)"
  by (simp add: thenW_def keeps_bind)

lemma keeps_catch: "keeps m \<Longrightarrow> (\<And>e. keeps (h e)) \<Longrightarrow> keeps (catchW m h)"
  unfolding keeps_def catchW_def by (auto split: prod.split sum.split) (metis R_trans snd_conv)+

lemma keeps_elementary [simp]:
  "keeps (returnW x)" "keeps (throwW e)" "keeps (generateId p)" "keeps (emitSessionEvent ty u ss refs pl)"
  "keeps (wfEmitEvent ty u refs pl)" "keeps (doW (\<lambda>s. s\<lparr>wf_trails := f (wf_trails s)\<rparr>))" "keeps (addPending c)" "keeps (unhandled e)" "keeps (forgetAttempts i)" "keeps (scheduleRetry i d)"
  by (simp_all add: keeps_def returnW_def throwW_def generateId_def emitSessionEvent_def wfEmitEvent_def addPending_def
      unhandled_def forgetAttempts_def scheduleRetry_def doW_def R_rest)

lemma keeps_async: "keeps m \<Longrightarrow> keeps (asyncW m)"
  by (simp add: asyncW_def keeps_catch)

lemma keeps_tables [simp]:
  "status \<in> {''running'', ''completed'', ''failed'', ''cancelled'', ''queued''} \<Longrightarrow> keeps (setStepStatusW i status)"
  "status \<in> {''running'', ''completed'', ''failed'', ''cancelled''} \<Longrightarrow> keeps (setRunStatusW i status)"
  "keeps (setCurrentStepsW i stepIds)" "keeps (saveRunOutputW i out)" "keeps (saveStepOutputW i out)"
  by (simp_all add: keeps_def setStepStatusW_def setRunStatusW_def setCurrentStepsW_def saveRunOutputW_def saveStepOutputW_def
      doW_def R_stepStatus R_runStatus R_current R_runOutput R_stepOutput del: insert_iff)

lemma keeps_action [simp]: "keeps (wfCreateRuntimeAction runId i u rt act pl)"
  unfolding wfCreateRuntimeAction_def
  by (rule keeps_bind, simp) (auto simp: keeps_def Let_def R_rest split: sum.split)

lemma keeps_withRun: "(\<And>sr run. keeps (k sr run)) \<Longrightarrow> keeps (withRun i k)"
  by (rule keepsI) (auto simp: withRun_def throwW_def keepsD split: option.split)

lemma keeps_withStep: "(\<And>sr run d st. keeps (k sr run d st)) \<Longrightarrow> keeps (withStep i k)"
  unfolding withStep_def
  by (rule keeps_withRun, rule keepsI) (auto simp: throwW_def keepsD split: option.split)

lemmas keeps_intros = keeps_bind keeps_then keeps_catch keeps_async keeps_withRun keeps_withStep

lemmas R_intros = keeps_bind [THEN keepsD] keeps_then [THEN keepsD] keeps_async [THEN keepsD]

lemma keeps_completeRun [simp]: "keeps (completeRun runId out)"
  unfolding completeRun_def by (rule keepsI) (auto intro!: R_intros keeps_intros)

lemma keeps_goToStep: "(\<And>i. keeps (exec i)) \<Longrightarrow> keeps (goToStep exec runId d target)"
  unfolding goToStep_def by (rule keepsI) (auto intro!: R_intros keeps_intros split: option.split)

lemma keeps_advance: "(\<And>i. keeps (exec i)) \<Longrightarrow> keeps (advanceToNextStep exec runId st out)"
  unfolding advanceToNextStep_def
  by (rule keepsI) (auto intro!: keeps_completeRun [THEN keepsD] keeps_goToStep [THEN keepsD] split: option.split)

lemma keeps_fail [simp]: "keeps (handleOnFailureFail i st run result trail now)"
  unfolding handleOnFailureFail_def by (intro keeps_intros) simp_all

lemma keeps_policy: "(\<And>i. keeps (exec i)) \<Longrightarrow> keeps (applyOnFailurePolicy env exec i st run result trail now)"
  unfolding applyOnFailurePolicy_def handleOnFailureContinue_def handleOnFailureSkip_def handleOnFailureCompensate_def Let_def
  by (auto intro!: keeps_intros keeps_advance)

lemma keeps_failure: "(\<And>i. keeps (exec i)) \<Longrightarrow> keeps (handleStepFailure env exec i st run result now)"
proof (rule keepsI)
  fix s :: wfstate assume exec: "\<And>i. keeps (exec i)"
  define a where "a = nullish (mapGet (wf_attempts s) i) 0 + 1"
  define trail where "trail = nullish (mapGet (wf_trails s) i) [] @ [\<lparr>au_attempt = a, au_status = ''failed'',
    au_errorCategory = er_errorCategory result, au_errorCode = (if truthy (er_error result) then Some ''EXECUTION_ERROR'' else None),
    au_delayMs = None, au_timestamp = now\<rparr>]"
  let ?s1 = "s\<lparr>wf_attempts := mapSet i a (wf_attempts s), wf_trails := mapSet i trail (wf_trails s)\<rparr>"
  have "R s ?s1" by (simp add: R_rest)
  moreover have "R ?s1 (snd (handleStepFailure env exec i st run result now s))"
    unfolding handleStepFailure_def Let_def a_def [symmetric] trail_def [symmetric]
    by (auto intro!: R_intros keeps_policy [THEN keepsD] keeps_intros exec)
  ultimately show "R s (snd (handleStepFailure env exec i st run result now s))" by (rule R_trans)
qed

lemma keeps_completion: "(\<And>i. keeps (exec i)) \<Longrightarrow> keeps (handleStepCompletion env exec i result)"
  unfolding handleStepCompletion_def
  by (rule keeps_withStep, rule keepsI) (auto intro!: R_intros keeps_failure [THEN keepsD] keeps_intros keeps_advance)

lemma keeps_dispatch [simp]: "keeps (dispatchStep env i st sr run c)"
  unfolding dispatchStep_def by (auto intro!: keeps_intros)

lemma keeps_condition:
  assumes "\<And>i. keeps (exec i)"
  shows "keeps (executeConditionStep env exec i)"
proof -
  show ?thesis
    unfolding executeConditionStep_def
    by (intro keeps_withStep keeps_then, simp, rule keepsI)
      (auto simp: Let_def split: option.split intro!: R_intros keeps_intros keeps_goToStep assms)
qed

lemma keeps_branchStep [simp]: "keeps (executeBranchInternalStep env i st steps parent)"
  unfolding executeBranchInternalStep_def by (auto intro!: keeps_intros)

lemma keeps_skipSteps [simp]: "keeps (skipBranchSteps steps runId u)"
proof (induction steps)
  case (Cons st steps)
  show ?case unfolding skipBranchSteps.simps
    by (rule keeps_then [OF _ Cons.IH], rule keepsI) (auto intro!: R_intros keeps_intros split: option.split)
qed simp

lemma keeps_skipBranches [simp]: "keeps (skipBranches branches sel runId u)"
  by (induction branches) (auto intro!: keeps_then)

lemma keeps_branch:
  assumes "\<And>i. keeps (exec i)"
  shows "keeps (executeBranchStep env exec i)"
proof -
  have first: "keeps (case steps of [] \<Rightarrow> advanceToNextStep exec runId st (Some JNull)
      | first # _ \<Rightarrow> (\<lambda>s. case findStepRun (stepRunsOf s runId) (ws_stepId first) of
          None \<Rightarrow> (Inr (), s)
        | Some bsr \<Rightarrow> thenW (setCurrentStepsW runId [ws_stepId first])
            (executeBranchInternalStep env (sr_stepRunId bsr) first steps st) s))" for steps runId st
  proof (cases steps)
    case Cons
    then show ?thesis by (simp, intro keepsI) (auto intro!: R_intros split: option.split)
  qed (simp add: keeps_advance assms)
  show ?thesis
    unfolding executeBranchStep_def Let_def
    by (intro keeps_withStep keeps_then, simp)
      (simp add: keeps_completion assms, rule impI, rule keepsI, rule R_intros, simp, intro keeps_then first, simp_all)
qed

lemma keeps_advanceInBranch: "(\<And>i. keeps (exec i)) \<Longrightarrow> keeps (advanceInBranch env exec runId st steps parent out)"
  unfolding advanceInBranch_def
  by (rule keepsI) (auto intro!: R_intros keeps_advance [THEN keepsD] keeps_intros split: option.split)

lemma keeps_branchCompletion:
  "(\<And>i. keeps (exec i)) \<Longrightarrow> keeps (handleBranchInternalStepCompletion env exec i st steps parent result)"
  unfolding handleBranchInternalStepCompletion_def Let_def
  by (rule keeps_withRun, rule keepsI) (auto intro!: R_intros keeps_intros keeps_advanceInBranch)

lemma keeps_markWait [simp]: "keeps (markWaitW f)"
  by (auto simp: keeps_def markWaitW_def R_rest split: sum.split)

lemma keeps_poll:
  "(\<And>i. keeps (exec i)) \<Longrightarrow> keeps (evaluatePollingCondition env exec i w c ms timeoutAt n)"
  unfolding evaluatePollingCondition_def Let_def
  by (rule keepsI) (auto intro!: R_intros keeps_intros keeps_completion split: option.split)

lemma keeps_pollingWait:
  assumes "\<And>i. keeps (exec i)"
  shows "keeps (executePollingWaitStep env exec i)"
proof -
  have "R s (snd (thenW (wfEmitEvent a b c d) (evaluatePollingCondition env exec i w x y z 0) (s\<lparr>wf_waits := ws\<rparr>)))"
    for s a b c d w x y z ws
    by (rule R_trans [of _ "s\<lparr>wf_waits := ws\<rparr>"]) (auto intro!: R_rest R_intros keeps_poll assms)
  then show ?thesis
    unfolding executePollingWaitStep_def Let_def
    by (intro keeps_withStep keeps_then, simp)
      (simp add: keeps_completion assms, rule impI, rule keeps_bind, simp, rule keepsI, auto split: sum.split)
qed

lemma keeps_startBatch: "(\<And>i. keeps (exec i)) \<Longrightarrow> keeps (startBatch exec ids rej wait)"
proof (induction ids arbitrary: rej wait)
  case (Cons i ids)
  have "R s (snd (exec i s))" "\<And>s rej wait. R s (snd (startBatch exec ids rej wait s))" for s
    using Cons by (auto intro: keepsD)
  then show ?case by (auto simp: keeps_def split: prod.split sum.split) (metis R_trans snd_conv)+
qed simp

lemma keeps_group: "(\<And>i. keeps (exec i)) \<Longrightarrow> keeps (runGroup env exec i ids ps n)"
proof -
  assume exec: "\<And>i. keeps (exec i)"
  have "keeps (finishGroup env exec i ps)"
    unfolding finishGroup_def Let_def
    by (rule keepsI) (auto intro!: keeps_completion [THEN keepsD] exec split: option.split)
  then show ?thesis unfolding runGroup_def
    by (auto intro!: keeps_bind keeps_startBatch exec split: option.split)
qed

lemma keeps_parallel: "(\<And>i. keeps (exec i)) \<Longrightarrow> keeps (executeParallelGroupStep env exec i)"
  unfolding executeParallelGroupStep_def Let_def
  by (intro keeps_withStep keeps_then, simp)
    (simp add: keeps_completion, rule impI, rule keepsI, rule R_intros, simp, rule keeps_group, simp)

lemma keeps_executeStep [simp]: "keeps (executeStep env n i)"
proof (induction n arbitrary: i)
  case (Suc n)
  show ?case unfolding executeStep.simps executeStepBody_def
    by (rule keeps_withStep)
      (auto intro!: keeps_async keeps_condition keeps_branch keeps_parallel keeps_pollingWait Suc)
qed simp

lemma keeps_createDraft: "keeps (createDraft n de steps owner)"
proof -
  have "R s (snd (thenW (wfEmitEvent a b c d) (returnW x) (s\<lparr>wf_drafts := t\<rparr>)))" for s a b c d x t
    by (auto simp: thenW_def bindW_def wfEmitEvent_def emitSessionEvent_def doW_def returnW_def intro: R_rest)
  then show ?thesis unfolding createDraft_def Let_def
    by (intro keeps_bind, simp, intro keepsI) (auto split: sum.split)
qed

lemma keeps_validateDraft: "keeps (validateDraft i)"
  by (rule keepsI) (auto simp: validateDraft_def Let_def thenW_def bindW_def wfEmitEvent_def emitSessionEvent_def doW_def returnW_def
      intro!: R_rest split: option.split sum.split)

lemma publish_respects: "R s (snd (publishDraft i s))"
proof (cases "getDraftById (wf_drafts s) i")
  case (Some draft)
  obtain r s' where v: "validateDraft i s = (r, s')" by fastforce
  have s': "R s s'" using keepsD [OF keeps_validateDraft, of s i] v by simp
  show ?thesis
  proof (cases r)
    case (Inr issues)
    note ok = validateDraft_ok [OF v [unfolded Inr] Some]
    show ?thesis
    proof (cases "draftIssues (dr_steps draft) = []")
      case True
      let ?d = "\<lparr>df_workflowId = ''wf_def_'' @ nat_str (wf_nextId s'), df_name = dr_name draft, df_description = dr_description draft,
             df_version = getNextVersionNumber tenant (dr_name draft) (wf_defs s'), df_steps = dr_steps draft,
             df_ownerUserId = dr_ownerUserId draft, df_status = Published,
             df_publishedFromDraftId = Some i, df_createdAt = wf_now s', df_updatedAt = wf_now s', df_tenantId = tenant\<rparr>"
      let ?s2 = "s'\<lparr>wf_nextId := wf_nextId s' + 1\<rparr>"
      have s2: "R s ?s2" using s' R_rest [of ?s2 s'] by (auto intro: R_trans)
      have new: "R s (?s2\<lparr>wf_defs := t, wf_events := e\<rparr>)" if "createDefinition tenant (wf_now s') ?d (wf_defs s') = Inr (d', t)" for d' t e
      proof -
        have "R ?s2 (?s2\<lparr>wf_defs := t\<rparr>)" using that True by (intro R_newDef [of ?d ?s2 d' t]) simp_all
        moreover have "R (?s2\<lparr>wf_defs := t\<rparr>) (?s2\<lparr>wf_defs := t, wf_events := e\<rparr>)" by (rule R_rest) simp_all
        ultimately show ?thesis using s2 R_trans by blast
      qed
      show ?thesis using Some v Inr ok True s2 new
        by (auto simp: publishDraft_def bindW_def generateId_def thenW_def wfEmitEvent_def emitSessionEvent_def doW_def
            returnW_def Let_def split: sum.split)
    qed (use Some v Inr ok s' in \<open>simp add: publishDraft_def bindW_def throwW_def\<close>)
  qed (use Some v s' in \<open>simp add: publishDraft_def bindW_def\<close>)
qed (simp add: publishDraft_def)

lemma R_bind:
  assumes "R u (snd (m s))" "\<And>x s'. R s' (snd (f x s'))"
  shows "R u (snd (bindW m f s))"
proof (cases "m s")
  case (Pair r s')
  then show ?thesis using assms R_trans [of u s'] by (cases r) (auto simp: bindW_def)
qed

lemma stepRuns_respect: "runOf s runId \<noteq> None \<Longrightarrow> R s (snd (createStepRuns runId inp steps s))"
proof (induction steps arbitrary: s)
  case Nil
  then show ?case by (simp add: returnW_def)
next
  case (Cons st steps)
  let ?s = "s\<lparr>wf_nextId := wf_nextId s + 1\<rparr>"
  have s: "R s ?s" by (rule R_rest) simp_all
  have "R s (snd (bindW (createStepRuns runId inp steps) f (?s\<lparr>wf_stepRuns := t\<rparr>)))"
    if "createStepRun tenant (wf_now s) sr (wf_stepRuns s) = Inr t" "sr_workflowRunId sr = runId" "sr_status sr = ''queued''"
      "\<And>x s. snd (f x s) = s" for sr t and f :: "_ \<Rightarrow> WorkflowStepRunInfo list wf_op"
  proof -
    have "R ?s (?s\<lparr>wf_stepRuns := t\<rparr>)"
      using that Cons.prems by (intro R_newStepRun [of ?s sr t]) (auto simp: runOf_def)
    moreover have "R (?s\<lparr>wf_stepRuns := t\<rparr>) (snd (createStepRuns runId inp steps (?s\<lparr>wf_stepRuns := t\<rparr>)))"
      using Cons.prems by (intro Cons.IH) (simp add: runOf_def)
    ultimately have "R s (snd (createStepRuns runId inp steps (?s\<lparr>wf_stepRuns := t\<rparr>)))" using s R_trans by blast
    then show ?thesis using that(4) by (intro R_bind) simp_all
  qed
  then show ?case using s
    by (auto simp: bindW_def [of "generateId _"] generateId_def returnW_def split: sum.split)
qed

lemma start_respects: "R s (snd (startWorkflowRun env input s))"
proof (cases "defOf s (ri_definitionId input)")
  case (Some d)
  let ?s1 = "s\<lparr>wf_nextId := Suc (wf_nextId s)\<rparr>"
  have s1: "R s ?s1" by (rule R_rest) simp_all
  have "R s (snd (bindW (createStepRuns runId inp steps) f (?s1\<lparr>wf_runs := t\<rparr>)))"
    if "createWorkflowRun tenant (wf_now s) run (wf_runs s) = Inr t" "runId = wr_workflowRunId run"
      "wr_workflowRunId run = ''wf_run_'' @ nat_str (wf_nextId s)" "wr_status run = ''queued''" "wr_workflowId run = df_workflowId d"
      "\<And>x. keeps (f x)" for run t runId inp steps and f :: "_ \<Rightarrow> WorkflowRunResult wf_op"
  proof -
    have "R s (?s1\<lparr>wf_runs := t\<rparr>)"
      using that Some defOf_id [OF Some] R_newRun [of run s t] by simp
    moreover have "R (?s1\<lparr>wf_runs := t\<rparr>) (snd (createStepRuns runId inp steps (?s1\<lparr>wf_runs := t\<rparr>)))"
      using createWorkflowRun_found [OF that(1)] that(2) by (intro stepRuns_respect) (simp add: runOf_def)
    ultimately have "R s (snd (createStepRuns runId inp steps (?s1\<lparr>wf_runs := t\<rparr>)))" using R_trans by blast
    then show ?thesis using keepsD [OF that(6)] by (rule R_bind)
  qed
  note new = this
  show ?thesis
  proof (cases "df_status d = Published")
    case True
    then show ?thesis using Some s1
      by (simp add: startWorkflowRun_def bindW_def [of "generateId _"] generateId_def)
        (auto split: sum.split intro!: new keeps_then split: list.split option.split)
  qed (simp add: startWorkflowRun_def Some)
qed (simp add: startWorkflowRun_def)

lemma keeps_cancelStepRuns [simp]: "keeps (cancelStepRuns srs)"
  by (induction srs) (auto intro: keeps_then)

lemma keeps_cancelActions [simp]: "keeps (cancelActions as)"
proof (induction as)
  case (Cons a as)
  have "R s (snd (cancelActions as (s\<lparr>wf_actions := t\<rparr>)))" for s t
    by (rule R_trans [of _ "s\<lparr>wf_actions := t\<rparr>"]) (auto intro: R_rest keepsD Cons)
  then show ?case using keepsD [OF Cons] by (auto simp: keeps_def split: sum.split)
qed simp

lemma keeps_cancel: "keeps (cancelWorkflowRun i)"
proof (rule keepsI)
  fix s
  have "keeps (\<lambda>s1. thenW (cancelStepRuns (x s1)) (\<lambda>s2. thenW (cancelActions (y s2)) (wfEmitEvent a b c (f s1 s2)) s2) s1)"
    for x y a b c f
    by (rule keepsI, rule R_intros, simp, rule keepsI, rule R_intros) simp_all
  then show "R s (snd (cancelWorkflowRun i s))"
    unfolding cancelWorkflowRun_def Let_def by (auto split: option.split intro!: R_intros)
qed

lemma keeps_settled: "(\<And>r. keeps (h r)) \<Longrightarrow> keeps (settled p h)"
  unfolding settled_def by (cases p) (auto intro!: keeps_async keeps_catch)

lemma R_drop [simp]: "R s (dropPending k s)"
  by (rule R_rest) (simp_all add: dropPending_def)

lemma respects_dropped: "keeps m \<Longrightarrow> R s (snd (m (dropPending k s)))"
  using R_trans [OF R_drop keepsD] .

lemma keeps_compensated: "keeps (compensated env i st run result trail p)"
proof -
  have fail: "keeps (\<lambda>s. handleOnFailureFail i st run result trail (wf_now s) s)"
    by (rule keepsI) (auto intro: keeps_fail [THEN keepsD])
  have goOn: "keeps (\<lambda>s. thenW (wfEmitEvent a b c (f (wf_now s))) (advanceToNextStep (run_step env) r st x) s)" for a b c f r x
    by (rule keepsI) (auto intro!: R_intros keeps_advance)
  show ?thesis unfolding compensated_def Let_def
    by (cases p) (auto split: bool.split intro!: keeps_async keeps_catch keeps_then fail goOn)
qed

lemma event_respects: "R s (wf_step env ev s)"
proof (cases ev)
  case (Settle k p)
  then show ?thesis
    by (auto simp: settlePending_def split: option.split continuation.split
        intro!: respects_dropped keeps_settled keeps_completion keeps_branchCompletion keeps_compensated)
next
  case (Tick k)
  have "R s (s\<lparr>wf_pending := p\<rparr>)" for p by (rule R_rest) simp_all
  then show ?thesis using Tick
    by (auto simp: tick_def Let_def split: option.split continuation.split intro!: respects_dropped keeps_async keeps_poll keeps_group)
next
  case (TimerFires i)
  have "R s (snd (asyncW (run_step env x) (s\<lparr>wf_timers := t\<rparr>)))" for x t
    by (rule R_trans [of _ "s\<lparr>wf_timers := t\<rparr>"]) (auto intro!: R_rest keepsD keeps_async)
  then show ?thesis using TimerFires by (auto simp: timerFires_def split: option.split)
qed (auto intro: keepsD keeps_createDraft keeps_validateDraft publish_respects start_respects keeps_completion [THEN keepsD]
    keeps_cancel R_rest simp: shutdown_def)

lemma events_respect: "R s (fold (wf_step env) evs s)"
  by (induction evs arbitrary: s) (auto intro: R_trans event_respects)

end

section \<open>History\<close>

text \<open>What never changes of a row, and tables that only grow at their end.\<close>

definition runIdentity :: "WorkflowRun \<Rightarrow> string \<times> string \<times> string \<times> string \<times> string option \<times> json option \<times> string" where
  "runIdentity r = (wr_workflowRunId r, wr_workflowId r, wr_workflowVersion r, wr_ownerUserId r, wr_triggerEventId r, wr_inputData r, wr_tenantId r)"

definition stepRunIdentity :: "WorkflowStepRun \<Rightarrow> string \<times> string \<times> string \<times> string \<times> json option \<times> string" where
  "stepRunIdentity r = (sr_stepRunId r, sr_workflowRunId r, sr_stepId r, sr_stepType r, sr_inputData r, sr_tenantId r)"

definition grows :: "'a list \<Rightarrow> 'a list \<Rightarrow> bool" where
  "grows xs ys = (\<exists>zs. ys = xs @ zs)"

definition wf_history :: "wfstate \<Rightarrow> wfstate \<Rightarrow> bool" where
  "wf_history s s' = (grows (wf_defs s) (wf_defs s') \<and> grows (map runIdentity (wf_runs s)) (map runIdentity (wf_runs s')) \<and>
     grows (map stepRunIdentity (wf_stepRuns s)) (map stepRunIdentity (wf_stepRuns s')) \<and> wf_nextId s \<le> wf_nextId s')"

lemma grows_refl [simp]: "grows xs xs"
  by (simp add: grows_def)

lemma grows_snoc [simp]: "grows xs (xs @ ys)"
  by (auto simp: grows_def)

lemma grows_trans: "grows xs ys \<Longrightarrow> grows ys zs \<Longrightarrow> grows xs zs"
  by (auto simp: grows_def)

lemma map_updateWhere: "(\<And>r. g (f r) = g r) \<Longrightarrow> map g (updateWhere P f t) = map g t"
  by (simp add: updateWhere_def)

lemma identity_updates [simp]:
  "map stepRunIdentity (updateStepRunStatus ten now i status t) = map stepRunIdentity t"
  "map stepRunIdentity (saveStepOutput ten now i out t) = map stepRunIdentity t"
  "map runIdentity (updateWorkflowStatus ten now i status rs) = map runIdentity rs"
  "map runIdentity (updateCurrentSteps ten now i stepIds rs) = map runIdentity rs"
  "map runIdentity (saveWorkflowOutput ten now i out rs) = map runIdentity rs"
  by (simp_all add: updateStepRunStatus_def saveStepOutput_def updateWorkflowStatus_def updateCurrentSteps_def saveWorkflowOutput_def
      map_updateWhere stepRunIdentity_def runIdentity_def)

interpretation history: wf_frame wf_history
proof unfold_locales
  show "wf_history s s'" if "wf_history s t" "wf_history t s'" for s t s'
    using that by (auto simp: wf_history_def intro: grows_trans)
qed (auto simp: wf_history_def createWorkflowRun_def createStepRun_def createDefinition_def insertRow_def Let_def split: if_splits)

section \<open>Integrity\<close>

definition endedStates :: "string list" where
  "endedStates = [''completed'', ''failed'', ''cancelled'']"

definition runOk :: "WorkflowDefinition list \<Rightarrow> WorkflowRun \<Rightarrow> bool" where
  "runOk ds r = ((\<exists>d \<in> set ds. df_workflowId d = wr_workflowId r) \<and> wr_tenantId r = tenant \<and>
     (wr_status r \<in> {''queued'', ''running''} \<or> wr_status r \<in> set endedStates \<and> wr_completedAt r \<noteq> None))"

definition stepRunOk :: "WorkflowRun list \<Rightarrow> WorkflowStepRun \<Rightarrow> bool" where
  "stepRunOk rs r = ((\<exists>run \<in> set rs. wr_workflowRunId run = sr_workflowRunId r) \<and> sr_tenantId r = tenant \<and>
     (sr_status r \<in> {''queued'', ''running''} \<or> sr_status r \<in> set endedStates \<and> sr_completedAt r \<noteq> None))"

definition definitionsOk :: "WorkflowDefinition list \<Rightarrow> bool" where
  "definitionsOk ds = ((\<forall>d \<in> set ds. draftIssues (df_steps d) = [] \<and> df_tenantId d = tenant) \<and>
     distinct (map (\<lambda>d. (df_name d, df_version d)) ds))"

definition wfInv :: "wfstate \<Rightarrow> bool" where
  "wfInv s = (definitionsOk (wf_defs s) \<and> distinct (map wr_workflowRunId (wf_runs s)) \<and> distinct (map sr_stepRunId (wf_stepRuns s)) \<and>
     (\<forall>r \<in> set (wf_runs s). runOk (wf_defs s) r) \<and> (\<forall>r \<in> set (wf_stepRuns s). stepRunOk (wf_runs s) r))"

lemma set_updateWhere: "r \<in> set (updateWhere P f t) \<Longrightarrow> \<exists>r' \<in> set t. r = (if P r' then f r' else r')"
  by (auto simp: updateWhere_def)

lemma runIds_update: "wr_workflowRunId ` set (updateWhere P f rs) = wr_workflowRunId ` set rs" if "\<And>r. wr_workflowRunId (f r) = wr_workflowRunId r"
  using map_updateWhere [of wr_workflowRunId f P rs] that by (metis list.set_map)

lemma stepRunOk_ids: "wr_workflowRunId ` set rs = wr_workflowRunId ` set rs' \<Longrightarrow> stepRunOk rs r = stepRunOk rs' r"
proof -
  assume ids: "wr_workflowRunId ` set rs = wr_workflowRunId ` set rs'"
  have "(\<exists>run \<in> set xs. wr_workflowRunId run = i) \<longleftrightarrow> i \<in> wr_workflowRunId ` set xs" for i and xs :: "WorkflowRun list" by auto
  then show ?thesis by (simp add: stepRunOk_def ids)
qed

lemma wfInv_stepRuns:
  assumes "wfInv s" "\<And>r. sr_stepRunId (f r) = sr_stepRunId r"
    "\<And>r. stepRunOk (wf_runs s) r \<Longrightarrow> stepRunOk (wf_runs s) (f r)"
  shows "wfInv (s\<lparr>wf_stepRuns := updateWhere P f (wf_stepRuns s)\<rparr>)"
  using assms by (auto simp: wfInv_def map_updateWhere dest!: set_updateWhere)

lemma wfInv_runs:
  assumes "wfInv s" "\<And>r. wr_workflowRunId (f r) = wr_workflowRunId r"
    "\<And>r. runOk (wf_defs s) r \<Longrightarrow> runOk (wf_defs s) (f r)"
  shows "wfInv (s\<lparr>wf_runs := updateWhere P f (wf_runs s)\<rparr>)"
proof -
  have "stepRunOk (updateWhere P f (wf_runs s)) r = stepRunOk (wf_runs s) r" for r
    by (rule stepRunOk_ids) (simp add: runIds_update assms(2))
  then show ?thesis using assms by (auto simp: wfInv_def map_updateWhere dest!: set_updateWhere)
qed

lemma next_version_fresh:
  assumes "d \<in> set ds" "df_tenantId d = ten" "df_name d = name"
  shows "df_version d < getNextVersionNumber ten name ds"
proof -
  have "v \<in> set vs \<Longrightarrow> v \<le> foldr max vs 0" for v :: nat and vs by (induction vs) auto
  then show ?thesis using assms by (simp add: getNextVersionNumber_def le_imp_less_Suc)
qed

interpretation integrity: wf_frame "\<lambda>s s'. wfInv s \<longrightarrow> wfInv s'"
proof unfold_locales
  fix s :: wfstate and i and status
  assume "status \<in> {''running'', ''completed'', ''failed'', ''cancelled'', ''queued''}"
  then show "wfInv s \<longrightarrow> wfInv (s\<lparr>wf_stepRuns := updateStepRunStatus tenant (wf_now s) i status (wf_stepRuns s)\<rparr>)"
    unfolding updateStepRunStatus_def
    by (intro impI wfInv_stepRuns) (auto simp: stepRunOk_def endedStates_def endedAt_def)
next
  fix s :: wfstate and i and status
  assume "status \<in> {''running'', ''completed'', ''failed'', ''cancelled''}"
  then show "wfInv s \<longrightarrow> wfInv (s\<lparr>wf_runs := updateWorkflowStatus tenant (wf_now s) i status (wf_runs s)\<rparr>)"
    unfolding updateWorkflowStatus_def
    by (intro impI wfInv_runs) (auto simp: runOk_def endedStates_def endedAt_def)
next
  fix s i out
  show "wfInv s \<longrightarrow> wfInv (s\<lparr>wf_stepRuns := saveStepOutput tenant (wf_now s) i out (wf_stepRuns s)\<rparr>)"
    unfolding saveStepOutput_def by (intro impI wfInv_stepRuns) (auto simp: stepRunOk_def)
  show "wfInv s \<longrightarrow> wfInv (s\<lparr>wf_runs := saveWorkflowOutput tenant (wf_now s) i out (wf_runs s)\<rparr>)"
    unfolding saveWorkflowOutput_def by (intro impI wfInv_runs) (auto simp: runOk_def)
next
  fix s i stepIds
  show "wfInv s \<longrightarrow> wfInv (s\<lparr>wf_runs := updateCurrentSteps tenant (wf_now s) i stepIds (wf_runs s)\<rparr>)"
    unfolding updateCurrentSteps_def by (intro impI wfInv_runs) (auto simp: runOk_def)
next
  fix s :: wfstate and run t
  assume new: "wr_status run = ''queued''" "defOf s (wr_workflowId run) \<noteq> None"
    "createWorkflowRun tenant (wf_now s) run (wf_runs s) = Inr t"
  then obtain d where "d \<in> set (wf_defs s)" "df_workflowId d = wr_workflowId run"
    by (auto simp: defOf_def getDefinitionById_def firstRow_eq_find ofDefinition_def dest!: find_Some_in)
  then have "\<exists>d \<in> set (wf_defs s). df_workflowId d = wr_workflowId run" by blast
  then show "wfInv s \<longrightarrow> wfInv (s\<lparr>wf_nextId := wf_nextId s + 1, wf_runs := t\<rparr>)"
    using new(1,3) by (auto simp: createWorkflowRun_def insertRow_def wfInv_def runOk_def stepRunOk_def split: if_splits) blast
next
  fix s :: wfstate and sr ts
  assume new: "runOf s (sr_workflowRunId sr) \<noteq> None" "sr_status sr = ''queued''" "createStepRun tenant (wf_now s) sr (wf_stepRuns s) = Inr ts"
  then have "\<exists>run \<in> set (wf_runs s). wr_workflowRunId run = sr_workflowRunId sr"
    by (auto simp: runOf_def getWorkflowRunById_def firstRow_eq_find ofRun_def dest!: find_Some_in)
  then show "wfInv s \<longrightarrow> wfInv (s\<lparr>wf_stepRuns := ts\<rparr>)"
    using new(2,3) by (auto simp: createStepRun_def insertRow_def wfInv_def stepRunOk_def split: if_splits) blast
next
  fix s :: wfstate and d d' td
  assume "draftIssues (df_steps d) = []" "df_version d = getNextVersionNumber tenant (df_name d) (wf_defs s)"
    "createDefinition tenant (wf_now s) d (wf_defs s) = Inr (d', td)"
  then show "wfInv s \<longrightarrow> wfInv (s\<lparr>wf_defs := td\<rparr>)"
    using next_version_fresh [of _ "wf_defs s" tenant "df_name d"]
    by (fastforce simp: createDefinition_def Let_def insertRow_def wfInv_def definitionsOk_def runOk_def split: if_splits)
qed (auto simp: wfInv_def)

text \<open>C8: The workflow engine keeps its tables consistent: after any sequence of events, every published
  definition has passed the draft checks and has its own (name, version) pair, every run belongs to such a
  definition and every step run to a run, ids are unique, every status is one of the five the engine uses, and
  whatever has ended has an end time.\<close>

theorem workflow_tables_consistent: "wfInv (fold (wf_step env) evs initialState)"
  using integrity.events_respect [of initialState env evs] by (simp add: wfInv_def definitionsOk_def initialState_def)

text \<open>C30: Nothing the engine recorded is rewritten: whatever events follow, the published definitions stay as
  they are, and every run and step run keeps its id, its definition and version, its owner, its trigger, its
  step and its input; rows are only added after them.\<close>

theorem workflow_history_immutable:
  "let s' = fold (wf_step env) evs s in
   (\<exists>new. wf_defs s' = wf_defs s @ new) \<and>
   (\<exists>new. map runIdentity (wf_runs s') = map runIdentity (wf_runs s) @ new) \<and>
   (\<exists>new. map stepRunIdentity (wf_stepRuns s') = map stepRunIdentity (wf_stepRuns s) @ new)"
  using history.events_respect [of s env evs] by (simp add: wf_history_def grows_def Let_def)

end
