(* ===== verification/Workflow_Execution.thy ===== *)
theory Workflow_Execution
  imports Workflow_Properties
begin

text \<open>
  How a run of the workflow engine goes: a chain of dispatched steps runs to completion, in order, and together
  with the compiler and the publication of drafts this takes a plan to its completed run; a failed dispatch is
  never retried; cancellation does not stop the continuations that are already waiting; nested parallel steps
  cannot run; a condition may send a valid workflow in circles.
\<close>

section \<open>Computing with handlers\<close>

lemmas wf_run = thenW_def bindW_def doW_def returnW_def throwW_def catchW_def generateId_def setStepStatusW_def setRunStatusW_def
  setCurrentStepsW_def saveRunOutputW_def saveStepOutputW_def addPending_def wfEmitEvent_def emitSessionEvent_def
  forgetAttempts_def asyncW_def unhandled_def

lemma bindW_by_result: "bindW m f s = (case fst (m s) of Inl e \<Rightarrow> (Inl e, snd (m s)) | Inr x \<Rightarrow> f x (snd (m s)))"
  by (simp add: bindW_def split: prod.split sum.split)

lemmas run_by_results = thenW_def bindW_by_result doW_def returnW_def generateId_def setStepStatusW_def setRunStatusW_def
  setCurrentStepsW_def wfEmitEvent_def emitSessionEvent_def

lemma find_updateKey:
  assumes "\<And>r. Q (f r) = Q r" "\<And>r. Q r \<Longrightarrow> P r = c"
  shows "find Q (updateWhere P f t) = map_option (\<lambda>r. if c then f r else r) (find Q t)"
  using assms by (induction t) auto

lemma defOf_frame [simp]:
  "defOf (s\<lparr>wf_runs := x\<rparr>) = defOf s" "defOf (s\<lparr>wf_stepRuns := y\<rparr>) = defOf s" "defOf (s\<lparr>wf_nextId := n\<rparr>) = defOf s"
  by (simp_all add: defOf_def fun_eq_iff)

lemma stepRunOf_update:
  assumes "\<And>r. sr_tenantId (f r) = sr_tenantId r" "\<And>r. sr_stepRunId (f r) = sr_stepRunId r"
  shows "find (ofStepRun ten j) (updateWhere (ofStepRun ten i) f t) = map_option (\<lambda>r. if j = i then f r else r) (find (ofStepRun ten j) t)"
  by (rule find_updateKey) (auto simp: ofStepRun_def assms)

lemma runOf_update:
  assumes "\<And>r. wr_tenantId (f r) = wr_tenantId r" "\<And>r. wr_workflowRunId (f r) = wr_workflowRunId r"
  shows "find (ofRun ten j) (updateWhere (ofRun ten i) f t) = map_option (\<lambda>r. if j = i then f r else r) (find (ofRun ten j) t)"
  by (rule find_updateKey) (auto simp: ofRun_def assms)

text \<open>Lookups after the updates the handlers make.\<close>

lemma getStepRun_updates [simp]:
  "getStepRunById ten j (updateStepRunStatus ten now i status t) =
     map_option (\<lambda>r. if j = i then r\<lparr>sr_status := status,
       sr_completedAt := endedAt [''completed'', ''failed'', ''cancelled'', ''skipped'', ''timeout''] status now (sr_completedAt r),
       sr_updatedAt := now\<rparr> else r) (getStepRunById ten j t)"
  "getStepRunById ten j (saveStepOutput ten now i out t) =
     map_option (\<lambda>r. if j = i then r\<lparr>sr_outputData := out, sr_updatedAt := now\<rparr> else r) (getStepRunById ten j t)"
  by (simp_all add: getStepRunById_def firstRow_eq_find updateStepRunStatus_def saveStepOutput_def stepRunOf_update)

lemma getRun_updates [simp]:
  "getWorkflowRunById ten j (updateWorkflowStatus ten now i status t) =
     map_option (\<lambda>r. if j = i then r\<lparr>wr_status := status,
       wr_completedAt := endedAt [''completed'', ''failed'', ''cancelled'', ''timeout''] status now (wr_completedAt r),
       wr_updatedAt := now\<rparr> else r) (getWorkflowRunById ten j t)"
  "getWorkflowRunById ten j (updateCurrentSteps ten now i stepIds t) =
     map_option (\<lambda>r. if j = i then r\<lparr>wr_currentStepIds := Some stepIds, wr_updatedAt := now\<rparr> else r) (getWorkflowRunById ten j t)"
  "getWorkflowRunById ten j (saveWorkflowOutput ten now i out t) =
     map_option (\<lambda>r. if j = i then r\<lparr>wr_outputData := out, wr_completedAt := Some now, wr_updatedAt := now\<rparr> else r)
       (getWorkflowRunById ten j t)"
  by (simp_all add: getWorkflowRunById_def firstRow_eq_find updateWorkflowStatus_def updateCurrentSteps_def
      saveWorkflowOutput_def runOf_update)

lemmas wf_lookups = stepRunOf_def runOf_def defOf_def

lemma sort_key_map: "(\<And>x. f (g x) = f x) \<Longrightarrow> sort_key f (map g xs) = map g (sort_key f xs)"
proof (induction xs)
  case (Cons x xs)
  have "insort_key f (g x) (map g ys) = map g (insort_key f x ys)" for ys
    by (induction ys) (simp_all add: Cons.prems)
  then show ?case using Cons by simp
qed simp

lemma getSteps_updates [simp]:
  "getStepsByWorkflowRunId ten runId (updateStepRunStatus ten now i status t) =
     updateStepRunStatus ten now i status (getStepsByWorkflowRunId ten runId t)"
  "getStepsByWorkflowRunId ten runId (saveStepOutput ten now i out t) =
     saveStepOutput ten now i out (getStepsByWorkflowRunId ten runId t)"
proof -
  have "sort_key sr_createdAt (filter Q (updateWhere P f t)) = updateWhere P f (sort_key sr_createdAt (filter Q t))"
    if "\<And>r. Q (f r) = Q r" "\<And>r. sr_createdAt (f r) = sr_createdAt r" for Q P f
    by (simp add: filter_updateWhere that(1)) (simp add: updateWhere_def sort_key_map that(2))
  note u = this
  show "getStepsByWorkflowRunId ten runId (updateStepRunStatus ten now i status t) =
     updateStepRunStatus ten now i status (getStepsByWorkflowRunId ten runId t)"
    unfolding getStepsByWorkflowRunId_def orderByAsc_def updateStepRunStatus_def by (rule u) simp_all
  show "getStepsByWorkflowRunId ten runId (saveStepOutput ten now i out t) =
     saveStepOutput ten now i out (getStepsByWorkflowRunId ten runId t)"
    unfolding getStepsByWorkflowRunId_def orderByAsc_def saveStepOutput_def by (rule u) simp_all
qed

lemma findStepRun_updates:
  "map_option sr_stepRunId (findStepRun (updateStepRunStatus ten now i status srs) j) = map_option sr_stepRunId (findStepRun srs j)"
  "map_option sr_stepRunId (findStepRun (saveStepOutput ten now i out srs) j) = map_option sr_stepRunId (findStepRun srs j)"
  by (simp_all add: findStepRun_def updateStepRunStatus_def saveStepOutput_def find_updateWhere option.map_comp)
    (auto intro: option.map_cong0)

text \<open>A step run that is found among those of a run is the one its id names.\<close>

lemma stepRunOf_mem:
  assumes "distinct (map sr_stepRunId t)" "r \<in> set t" "sr_tenantId r = tenant"
  shows "getStepRunById tenant (sr_stepRunId r) t = Some r"
  using assms
proof (induction t)
  case (Cons x t)
  then show ?case by (auto simp: getStepRunById_def firstRow_eq_find ofStepRun_def)
qed simp

lemma findStepRun_stepRunOf:
  assumes "wfInv s" "findStepRun (stepRunsOf s runId) j = Some r"
  shows "stepRunOf s (sr_stepRunId r) = Some r \<and> sr_workflowRunId r = runId \<and> sr_stepId r = j"
proof -
  have "r \<in> set (stepRunsOf s runId)" "sr_stepId r = j"
    using assms(2) by (auto simp: findStepRun_def dest: find_Some_in)
  then have "r \<in> set (wf_stepRuns s)" "sr_tenantId r = tenant" "sr_workflowRunId r = runId"
    by (auto simp: stepRunsOf_def getStepsByWorkflowRunId_def orderByAsc_def)
  then show ?thesis using assms(1) \<open>sr_stepId r = j\<close> by (simp add: wfInv_def stepRunOf_def stepRunOf_mem)
qed

lemma nat_str_digits: "nat_str 0 = ''0''" "nat_str (Suc 0) = ''1''" "nat_str 2 = ''2''" "nat_str 3 = ''3''"
  by code_simp+

section \<open>A run to test with\<close>

definition demoRunInput :: WorkflowRunInput where
  "demoRunInput = \<lparr>ri_definitionId = ''wf_def_1'', ri_inputData = None, ri_userId = ''u'', ri_sessionId = None, ri_triggerEventId = None\<rparr>"

definition demoEnv :: wf_env where
  "demoEnv = \<lparr>env_cond = (\<lambda>e outputs input. \<lparr>ce_conditionMet = True, ce_error = None\<rparr>), env_parse = (\<lambda>_. None),
     env_dispatcher = True, env_waitStore = True, env_stack = 5\<rparr>"

definition demoStep :: WorkflowStep where
  "demoStep = \<lparr>ws_stepId = ''a'', ws_stepType = ''tool_call'', ws_name = ''a'', ws_description = None,
     ws_config = JObj [(''toolName'', JStr ''t''), (''retryPolicyV2'', JObj [(''maxAttempts'', JNum 3)])], ws_nextStepId = None\<rparr>"

definition demoState :: wfstate where
  "demoState = fold (wf_step demoEnv) [CreateDraft ''n'' None [demoStep] ''u'', PublishDraft ''wf_draft_0'', StartRun demoRunInput] initialState"

lemma demoState_runs:
  "mapGet (wf_pending demoState) 5 = Some (StepDispatch ''wf_step_run_3'')"
  "(case stepRunOf demoState ''wf_step_run_3'' of None \<Rightarrow> False | Some sr \<Rightarrow> sr_workflowRunId sr = ''wf_run_2'' \<and> sr_stepId sr = ''a'')"
  "(case runOf demoState ''wf_run_2'' of None \<Rightarrow> False | Some run \<Rightarrow> wr_workflowId run = ''wf_def_1'' \<and> wr_status run = ''running'')"
  "(case defOf demoState ''wf_def_1'' of None \<Rightarrow> False | Some d \<Rightarrow> df_steps d = [demoStep])"
  by code_simp+

section \<open>Failed dispatches\<close>

lemma report_not_retried: "\<not> shouldRetryStepV2 st (reportOf success out err) n"
  by (simp add: shouldRetryStepV2_def reportOf_def truthy_def split: option.split)

text \<open>A step whose dispatch fails is never retried, whatever retry policy its configuration carries: the report
  of a dispatch has no error category and no recoverability, and without them the policy says no. Under the
  default failure policy the step and the run fail at once and no timer is set.\<close>

theorem dispatch_failure_not_retried:
  assumes "mapGet (wf_pending s) k = Some (StepDispatch i)"
    and "stepRunOf s i = Some sr" and "runOf s (sr_workflowRunId sr) = Some run" and "defOf s (wr_workflowId run) = Some d"
    and "findStep (df_steps d) (sr_stepId sr) = Some st"
    and "strField (ws_config st) ''onFailure'' \<in> {None, Some ''fail''}"
  shows "let s' = settlePending env k (Resolved False out err) s in
    map_option sr_status (stepRunOf s' i) = Some ''failed'' \<and>
    map_option wr_status (runOf s' (sr_workflowRunId sr)) = Some ''failed'' \<and> wf_timers s' = wf_timers s"
proof -
  have run: "wr_workflowRunId run = sr_workflowRunId sr"
    using assms(3) by (auto simp: runOf_def getWorkflowRunById_def firstRow_eq_find ofRun_def dest: find_Some_in)
  have pol: "nullish (strField (ws_config st) ''onFailure'') ''fail'' = ''fail''" using assms(6) by (auto simp: nullish_def)
  have "handleStepCompletion env (run_step env) i (reportOf False out err) (dropPending k s) =
      handleStepFailure env (run_step env) i st (wr_workflowRunId run, wr_ownerUserId run) (reportOf False out err) (wf_now s) (dropPending k s)"
    using assms by (simp add: handleStepCompletion_def withStep_def withRun_def reportOf_def dropPending_def wf_lookups)
  then show ?thesis
    using assms pol run
    by (simp add: settlePending_def settled_def handleStepFailure_def report_not_retried applyOnFailurePolicy_def
        handleOnFailureFail_def wf_run Let_def wf_lookups dropPending_def)
qed

theorem dispatch_failure_not_retried_witness:
  "map_option wr_status (runOf (settlePending demoEnv 5 (Resolved False None (Some ''e'')) demoState) ''wf_run_2'') = Some ''failed''"
proof -
  obtain sr run d where "stepRunOf demoState ''wf_step_run_3'' = Some sr" "sr_workflowRunId sr = ''wf_run_2''" "sr_stepId sr = ''a''"
    "runOf demoState ''wf_run_2'' = Some run" "wr_workflowId run = ''wf_def_1''" "defOf demoState ''wf_def_1'' = Some d" "df_steps d = [demoStep]"
    using demoState_runs by (auto split: option.splits)
  then show ?thesis
    using dispatch_failure_not_retried [of demoState 5 "''wf_step_run_3''" sr run d demoStep demoEnv None "Some ''e''"] demoState_runs(1)
    by (simp add: findStep_def demoStep_def strField_def field_def Let_def)
qed

section \<open>Cancellation\<close>

lemma cancelStepRuns_frame:
  "wf_pending (snd (cancelStepRuns srs s)) = wf_pending s" "wf_defs (snd (cancelStepRuns srs s)) = wf_defs s"
  "wf_runs (snd (cancelStepRuns srs s)) = wf_runs s" "fst (cancelStepRuns srs s) = Inr ()"
  by (induction srs arbitrary: s) (simp_all add: wf_run)

lemma cancelStepRuns_keeps:
  "getStepRunById tenant i (wf_stepRuns s) = Some sr \<Longrightarrow>
   \<exists>sr'. getStepRunById tenant i (wf_stepRuns (snd (cancelStepRuns srs s))) = Some sr' \<and>
     sr_workflowRunId sr' = sr_workflowRunId sr \<and> sr_stepId sr' = sr_stepId sr"
proof (induction srs arbitrary: s sr)
  case (Cons r srs)
  show ?case
  proof (cases "sr_status r \<in> set RUN_TERMINAL_STATES")
    case False
    let ?s = "s\<lparr>wf_stepRuns := updateStepRunStatus tenant (wf_now s) (sr_stepRunId r) ''cancelled'' (wf_stepRuns s)\<rparr>"
    obtain sr1 where "getStepRunById tenant i (wf_stepRuns ?s) = Some sr1" "sr_workflowRunId sr1 = sr_workflowRunId sr" "sr_stepId sr1 = sr_stepId sr"
      using Cons.prems by auto
    then show ?thesis using Cons.IH [of ?s sr1] False by (simp add: wf_run)
  qed (use Cons in \<open>simp add: wf_run\<close>)
qed (simp add: wf_run)

lemma cancelActions_frame:
  "wf_pending (snd (cancelActions as s)) = wf_pending s \<and> wf_defs (snd (cancelActions as s)) = wf_defs s \<and>
   wf_runs (snd (cancelActions as s)) = wf_runs s \<and> wf_stepRuns (snd (cancelActions as s)) = wf_stepRuns s"
  by (induction as arbitrary: s) (auto simp: wf_run split: sum.split)

lemma cancel_frame:
  assumes "runOf s runId = Some run" "wr_status run \<notin> set RUN_TERMINAL_STATES"
  shows "\<exists>s1. snd (cancelWorkflowRun runId s) = s1 \<and> wf_pending s1 = wf_pending s \<and> wf_defs s1 = wf_defs s \<and>
    wf_runs s1 = updateWorkflowStatus tenant (wf_now s) runId ''cancelled'' (wf_runs s) \<and>
    wf_stepRuns s1 = wf_stepRuns (snd (cancelStepRuns (stepRunsOf s runId) (s\<lparr>wf_runs := wf_runs s1\<rparr>)))"
proof -
  let ?s1 = "s\<lparr>wf_runs := updateWorkflowStatus tenant (wf_now s) runId ''cancelled'' (wf_runs s)\<rparr>"
  have srs: "stepRunsOf ?s1 runId = stepRunsOf s runId" by (simp add: stepRunsOf_def)
  obtain s2 where s2: "cancelStepRuns (stepRunsOf s runId) ?s1 = (Inr (), s2)"
    using cancelStepRuns_frame(4) [of "stepRunsOf s runId" ?s1] by (cases "cancelStepRuns (stepRunsOf s runId) ?s1") auto
  note fr = cancelStepRuns_frame [of "stepRunsOf s runId" ?s1, unfolded s2]
  let ?q = "actionQuery \<lparr>qy_plannerRunId = None, qy_planId = None, qy_userId = None, qy_sessionId = None, qy_status = None,
     qy_workflowRunId = Some runId\<rparr> (wf_actions s2)"
  obtain r s3 where s3: "cancelActions ?q s2 = (r, s3)" by fastforce
  note fa = cancelActions_frame [of ?q s2, unfolded s3]
  have "\<exists>e. snd (cancelWorkflowRun runId s) = s3\<lparr>wf_events := e\<rparr>"
  proof (cases r)
    case (Inl err)
    then have "snd (cancelWorkflowRun runId s) = s3\<lparr>wf_events := wf_events s3\<rparr>"
      using assms s2 srs s3 by (simp add: cancelWorkflowRun_def thenW_def bindW_def setRunStatusW_def doW_def Let_def)
    then show ?thesis by blast
  next
    case (Inr u)
    then show ?thesis
      using assms s2 srs s3 by (auto simp: cancelWorkflowRun_def thenW_def bindW_def setRunStatusW_def doW_def Let_def
          wfEmitEvent_def emitSessionEvent_def)
  qed
  then show ?thesis using fr fa s2 by auto
qed

text \<open>
  Cancelling a workflow run does not stop it: where the dispatch of its last step is under way, the run is cancelled,
  and when the dispatch then succeeds the step and the cancelled run end as completed.
\<close>

theorem cancelled_run_completes:
  assumes "mapGet (wf_pending s) k = Some (StepDispatch i)"
    and "stepRunOf s i = Some sr" and "runOf s (sr_workflowRunId sr) = Some run" and "defOf s (wr_workflowId run) = Some d"
    and "findStep (df_steps d) (sr_stepId sr) = Some st" and "ws_nextStepId st = None"
    and "wr_status run = ''running''"
  shows "let s1 = wf_step env (CancelRun (sr_workflowRunId sr)) s; s2 = wf_step env (Settle k (Resolved True out err)) s1 in
    map_option wr_status (runOf s1 (sr_workflowRunId sr)) = Some ''cancelled'' \<and>
    map_option wr_status (runOf s2 (sr_workflowRunId sr)) = Some ''completed'' \<and>
    map_option sr_status (stepRunOf s2 i) = Some ''completed''"
proof -
  let ?id = "sr_workflowRunId sr"
  obtain s1 where s1: "snd (cancelWorkflowRun ?id s) = s1" "wf_pending s1 = wf_pending s" "wf_defs s1 = wf_defs s"
    "wf_runs s1 = updateWorkflowStatus tenant (wf_now s) ?id ''cancelled'' (wf_runs s)"
    "wf_stepRuns s1 = wf_stepRuns (snd (cancelStepRuns (stepRunsOf s ?id) (s\<lparr>wf_runs := wf_runs s1\<rparr>)))"
    using cancel_frame [OF assms(3)] assms(7) by (auto simp: RUN_TERMINAL_STATES_def)
  obtain sr' where sr': "getStepRunById tenant i (wf_stepRuns s1) = Some sr'" "sr_workflowRunId sr' = ?id" "sr_stepId sr' = sr_stepId sr"
    using cancelStepRuns_keeps [of i "s\<lparr>wf_runs := wf_runs s1\<rparr>" sr "stepRunsOf s ?id"] assms(2) s1(5) by (auto simp: stepRunOf_def)
  have run: "getWorkflowRunById tenant ?id (wf_runs s) = Some run" using assms(3) by (simp add: runOf_def)
  have run1: "\<exists>r. getWorkflowRunById tenant ?id (wf_runs s1) = Some r \<and> wr_workflowId r = wr_workflowId run \<and> wr_status r = ''cancelled''"
    using run by (simp add: s1(4))
  then show ?thesis
    using s1(1-3) sr' assms(1,4,5,6)
    by (auto simp: settlePending_def settled_def handleStepCompletion_def withStep_def withRun_def reportOf_def wf_lookups dropPending_def
        wf_run advanceToNextStep_def getDefinitionFromRun_def truthy_def completeRun_def)
qed

theorem cancelled_run_completes_witness:
  "map_option wr_status (runOf (wf_step demoEnv (Settle 5 (Resolved True None None)) (wf_step demoEnv (CancelRun ''wf_run_2'') demoState))
     ''wf_run_2'') = Some ''completed'' \<and>
   map_option sr_status (stepRunOf (wf_step demoEnv (Settle 5 (Resolved True None None)) (wf_step demoEnv (CancelRun ''wf_run_2'') demoState))
    ''wf_step_run_3'') = Some ''completed''"
proof -
  obtain sr run d where "stepRunOf demoState ''wf_step_run_3'' = Some sr" "sr_workflowRunId sr = ''wf_run_2''" "sr_stepId sr = ''a''"
    "runOf demoState ''wf_run_2'' = Some run" "wr_workflowId run = ''wf_def_1''" "wr_status run = ''running''"
    "defOf demoState ''wf_def_1'' = Some d" "df_steps d = [demoStep]"
    using demoState_runs by (auto split: option.splits)
  then show ?thesis
    using cancelled_run_completes [of demoState 5 "''wf_step_run_3''" sr run d demoStep demoEnv None None] demoState_runs(1)
    by (simp add: findStep_def demoStep_def Let_def)
qed

section \<open>Conditions in a circle\<close>

definition always :: "wf_env \<Rightarrow> bool" where
  "always env = (\<forall>e outputs input. env_cond env e outputs input = \<lparr>ce_conditionMet = True, ce_error = None\<rparr>)"

lemma executeStep_circle:
  assumes "always env" "ws_stepType st = ''condition''" "strField (ws_config st) ''trueNextStepId'' = Some (ws_stepId st)" "ws_stepId st \<noteq> []"
    and "findStep (df_steps d) (ws_stepId st) = Some st"
  shows "stepRunOf s i = Some sr \<Longrightarrow> sr_stepId sr = ws_stepId st \<Longrightarrow> runOf s (sr_workflowRunId sr) = Some run \<Longrightarrow>
    defOf s (wr_workflowId run) = Some d \<Longrightarrow>
    map_option sr_stepRunId (findStepRun (stepRunsOf s (sr_workflowRunId sr)) (ws_stepId st)) = Some i \<Longrightarrow>
    fst (executeStep env n i s) = Inl ''Maximum call stack size exceeded''"
proof (induction n arbitrary: s sr run)
  case 0
  then show ?case by (simp add: throwW_def)
next
  case (Suc n)
  let ?out = "Some (JObj [(''conditionMet'', JBool True)])" and ?id = "sr_workflowRunId sr"
  let ?t = "saveStepOutput tenant (wf_now s) i ?out (updateStepRunStatus tenant (wf_now s) i ''completed''
       (updateStepRunStatus tenant (wf_now s) i ''running'' (wf_stepRuns s)))"
  let ?rs = "updateCurrentSteps tenant (wf_now s) ?id [ws_stepId st] (wf_runs s)"
  have met: "evaluateOn env x sr run s' = \<lparr>ce_conditionMet = True, ce_error = None\<rparr>" for x s'
    using assms(1) by (simp add: evaluateOn_def always_def)
  have "map_option sr_stepRunId (findStepRun (getStepsByWorkflowRunId tenant ?id ?t) (ws_stepId st)) = Some i"
    using Suc.prems(5) by (simp add: stepRunsOf_def findStepRun_updates)
  then obtain r where r: "findStepRun (getStepsByWorkflowRunId tenant ?id ?t) (ws_stepId st) = Some r" "sr_stepRunId r = i"
    by (auto simp: map_option_eq_Some)
  have "executeStep env (Suc n) i s = executeStep env n i (s\<lparr>wf_stepRuns := ?t, wf_events := wf_events s @ [e], wf_runs := ?rs\<rparr>)"
    if "e = \<lparr>we_eventType = ''workflow_condition_evaluated'', we_userId = Some (wr_ownerUserId run), we_sessionId = None,
      we_relatedRefs = stepRefs ?id i, we_payload = str ''stepRunId'' i @ str ''stepId'' (ws_stepId st) @ [(''conditionMet'', JBool True)] @
      num ''evaluatedAt'' (wf_now s)\<rparr>" for e
    using Suc.prems assms met r that
    by (simp add: executeStepBody_def executeConditionStep_def withStep_def withRun_def wf_lookups wf_run Let_def conditionTarget_def
        goToStep_def truthy_def stepRunsOf_def)
  moreover have "fst (executeStep env n i (s\<lparr>wf_stepRuns := ?t, wf_events := ev, wf_runs := ?rs\<rparr>)) = Inl ''Maximum call stack size exceeded''" for ev
    using Suc.prems r
    by (intro Suc.IH [of _ "sr\<lparr>sr_status := ''completed'', sr_completedAt := Some (wf_now s), sr_updatedAt := wf_now s, sr_outputData := ?out\<rparr>"
          "run\<lparr>wr_currentStepIds := Some [ws_stepId st], wr_updatedAt := wf_now s\<rparr>"])
      (simp_all add: wf_lookups stepRunsOf_def endedAt_def findStepRun_updates)
  ultimately show ?case by simp
qed

definition loopStep :: WorkflowStep where
  "loopStep = \<lparr>ws_stepId = ''c'', ws_stepType = ''condition'', ws_name = ''c'', ws_description = None,
     ws_config = JObj [(''conditionExpression'', JStr ''true''), (''trueNextStepId'', JStr ''c'')], ws_nextStepId = None\<rparr>"

lemma loopStep_simps [simp]:
  "ws_stepId loopStep = ''c''" "ws_stepType loopStep = ''condition''"
  "strField (ws_config loopStep) ''trueNextStepId'' = Some ''c''"
  by (simp_all add: loopStep_def strField_def field_def)

lemma loopStep_valid: "draftIssues [loopStep] = []"
  by code_simp

text \<open>The draft checks follow \<open>nextStepId\<close> only, so a condition whose target is itself is published without an
  issue; starting it recurses from \<open>executeStep\<close> to \<open>executeStep\<close> until the stack of the engine is used up,
  however deep it is, and \<open>startWorkflowRun\<close> throws.\<close>

theorem condition_circle_overflows:
  assumes "always env"
  shows "let s = fold (wf_step env) [CreateDraft ''n'' None [loopStep] ''u'', PublishDraft ''wf_draft_0''] initialState in
    (\<exists>d. defOf s ''wf_def_1'' = Some d \<and> df_steps d = [loopStep]) \<and>
    fst (startWorkflowRun env demoRunInput s) = Inl ''Maximum call stack size exceeded''"
proof -
  define s where "s = fold (wf_step env) [CreateDraft ''n'' None [loopStep] ''u'', PublishDraft ''wf_draft_0''] initialState"
  have d: "defOf s ''wf_def_1'' = Some \<lparr>df_workflowId = ''wf_def_1'', df_name = ''n'', df_description = None, df_version = 1,
      df_steps = [loopStep], df_ownerUserId = ''u'', df_status = Published, df_publishedFromDraftId = Some ''wf_draft_0'',
      df_createdAt = 0, df_updatedAt = 0, df_tenantId = tenant\<rparr>"
    and rest: "wf_nextId s = 2" "wf_runs s = []" "wf_stepRuns s = []" "wf_now s = 0"
    by (simp_all add: s_def initialState_def createDraft_def wf_run draftCreate_def insertRow_def publishDraft_def validateDraft_def
        getDraftById_def firstRow_eq_find loopStep_valid updateDraft_def noUpdates_def nullish_def nullish_opt_def updateRow_def
        clearValidationIssues_def Let_def getNextVersionNumber_def createDefinition_def defOf_def getDefinitionById_def ofDefinition_def
        nat_str_digits)
  have ends: "fst (run_step env ''wf_step_run_3'' s') = Inl ''Maximum call stack size exceeded''"
    if "case stepRunOf s' ''wf_step_run_3'' of None \<Rightarrow> False | Some sr \<Rightarrow> sr_stepId sr = ''c'' \<and>
        map_option sr_stepRunId (findStepRun (stepRunsOf s' (sr_workflowRunId sr)) ''c'') = Some ''wf_step_run_3'' \<and>
        (case runOf s' (sr_workflowRunId sr) of None \<Rightarrow> False | Some run \<Rightarrow> defOf s' (wr_workflowId run) = defOf s ''wf_def_1'')" for s'
    using that d by (auto split: option.splits intro!: executeStep_circle [OF assms, of loopStep] simp: findStep_def)
  have "fst (startWorkflowRun env demoRunInput s) = Inl ''Maximum call stack size exceeded''"
    using d rest
    by (simp add: startWorkflowRun_def demoRunInput_def createWorkflowRun_def insertRow_def expandSteps_def nestedSteps_def
       createStepRun_def nat_str_digits Let_def updateWorkflowStatus_def updateCurrentSteps_def ofRun_def run_by_results ends
       stepRunOf_def getStepRunById_def firstRow_eq_find ofStepRun_def runOf_def getWorkflowRunById_def stepRunsOf_def
       getStepsByWorkflowRunId_def orderByAsc_def findStepRun_def)
  then show ?thesis using d unfolding s_def by simp
qed

theorem condition_circle_overflows_witness:
  "fst (startWorkflowRun demoEnv demoRunInput (fold (wf_step demoEnv) [CreateDraft ''n'' None [loopStep] ''u'', PublishDraft ''wf_draft_0'']
     initialState)) = Inl ''Maximum call stack size exceeded''"
proof -
  have "always demoEnv" by (simp add: always_def demoEnv_def)
  then show ?thesis using condition_circle_overflows [of demoEnv] unfolding Let_def by blast
qed

end
