(* ===== verification/Workflow_Liveness.thy ===== *)
theory Workflow_Liveness
  imports Workflow_Execution
begin

text \<open>
  Runs that end: when every dispatch of a chain of steps is answered with success, the run completes, its steps
  one after the other; together with the compiler and the publication of drafts, a linear plan is carried out
  to its completed run.
\<close>

section \<open>Ids\<close>

lemma nat_str_value: "foldl (\<lambda>a c. 10 * a + (of_char c - 48)) 0 (nat_str n) = n"
proof (induction n rule: nat_str.induct)
  case (1 n)
  have d: "of_char (char_of (48 + k :: nat)) = 48 + k" if "k < 10" for k :: nat
    using that by (simp add: of_char_of take_bit_eq_mod)
  show ?case
  proof (cases "n < 10")
    case True
    then show ?thesis using d [of n] by (simp add: nat_str.simps [of n])
  next
    case False
    then show ?thesis using 1 d [of "n mod 10"] by (simp add: nat_str.simps [of n])
  qed
qed

lemma nat_str_inj [simp]: "nat_str m = nat_str n \<longleftrightarrow> m = n"
  using nat_str_value by metis

text \<open>The ids the engine will hand out are not in use.\<close>

definition freshIds :: "wfstate \<Rightarrow> bool" where
  "freshIds s = (\<forall>n \<ge> wf_nextId s.
     (\<forall>r \<in> set (wf_runs s). wr_workflowRunId r \<noteq> ''wf_run_'' @ nat_str n) \<and>
     (\<forall>r \<in> set (wf_stepRuns s). sr_stepRunId r \<noteq> ''wf_step_run_'' @ nat_str n \<and> sr_workflowRunId r \<noteq> ''wf_run_'' @ nat_str n) \<and>
     (\<forall>a \<in> set (wf_actions s). ac_actionId a \<noteq> ''act_'' @ nat_str n) \<and>
     (\<forall>(k, c) \<in> set (wf_pending s). k \<noteq> n \<and> c \<noteq> StepDispatch (''wf_step_run_'' @ nat_str n)))"

lemma freshIds_run: "freshIds s \<Longrightarrow> wf_nextId s \<le> n \<Longrightarrow> ''wf_run_'' @ nat_str n \<notin> wr_workflowRunId ` set (wf_runs s)"
proof -
  assume "freshIds s" "wf_nextId s \<le> n"
  then have h: "\<forall>r \<in> set (wf_runs s). wr_workflowRunId r \<noteq> ''wf_run_'' @ nat_str n" by (simp add: freshIds_def)
  show ?thesis
  proof
    assume "''wf_run_'' @ nat_str n \<in> wr_workflowRunId ` set (wf_runs s)"
    then obtain r where "''wf_run_'' @ nat_str n = wr_workflowRunId r" "r \<in> set (wf_runs s)" by (rule imageE)
    then show False using bspec [OF h, of r] by argo
  qed
qed

lemma freshIds_pending:
  assumes "freshIds s" "wf_nextId s \<le> n"
  shows "n \<notin> fst ` set (wf_pending s)"
proof -
  have "\<forall>kc \<in> set (wf_pending s). fst kc \<noteq> n" using assms by (simp add: freshIds_def case_prod_beta)
  then show ?thesis by auto
qed

section \<open>Executing a dispatched step\<close>

definition dispatched :: "WorkflowStep \<Rightarrow> bool" where
  "dispatched st = (ws_stepType st \<notin> {''condition'', ''branch'', ''parallel_group'', ''polling_wait''})"

lemma action_created:
  assumes "freshIds s"
  shows "\<exists>a. wfCreateRuntimeAction runId i u rt act pl s = (Inr a, s\<lparr>wf_nextId := wf_nextId s + 1, wf_actions := wf_actions s @ [rowToRuntimeAction a]\<rparr>) \<and>
    ac_actionId (rowToRuntimeAction a) = ''act_'' @ nat_str (wf_nextId s)"
proof -
  have "''act_'' @ nat_str (wf_nextId s) \<notin> ac_actionId ` set (wf_actions s)" using assms by (auto simp: freshIds_def) (metis order.refl)
  then show ?thesis by (simp add: wfCreateRuntimeAction_def bindW_def generateId_def actionSave_def rowToRuntimeAction_def Let_def)
qed

lemma dispatch_runs:
  assumes "freshIds s" "stepRunOf s i = Some sr" "runOf s (sr_workflowRunId sr) = Some run" "defOf s (wr_workflowId run) = Some d"
    and "findStep (df_steps d) (sr_stepId sr) = Some st" "dispatched st" "env_dispatcher env" "0 < env_stack env"
  shows "\<exists>s' a. run_step env i s = (Inr (), s') \<and> wf_stepRuns s' = updateStepRunStatus tenant (wf_now s) i ''running'' (wf_stepRuns s) \<and>
    wf_runs s' = wf_runs s \<and> wf_defs s' = wf_defs s \<and> wf_pending s' = wf_pending s @ [(wf_nextId s + 1, StepDispatch i)] \<and>
    wf_nextId s' = wf_nextId s + 2 \<and> wf_actions s' = wf_actions s @ [a] \<and> ac_actionId a = ''act_'' @ nat_str (wf_nextId s)"
proof -
  obtain n where n: "env_stack env = Suc n" using assms(8) by (cases "env_stack env") auto
  let ?s1 = "s\<lparr>wf_stepRuns := updateStepRunStatus tenant (wf_now s) i ''running'' (wf_stepRuns s)\<rparr>"
  have "freshIds ?s1"
    using assms(1) by (auto simp: freshIds_def updateStepRunStatus_def dest!: set_updateWhere split: if_splits)
  note act = action_created [OF this, of "sr_workflowRunId sr" i "wr_ownerUserId run" "getTargetRuntimeForStepType (ws_stepType st)"
      "getTargetActionForStepType (ws_stepType st)" "stepPayload i st sr"]
  then obtain a where a: "wfCreateRuntimeAction (sr_workflowRunId sr) i (wr_ownerUserId run) (getTargetRuntimeForStepType (ws_stepType st))
      (getTargetActionForStepType (ws_stepType st)) (stepPayload i st sr) ?s1 =
      (Inr a, ?s1\<lparr>wf_nextId := wf_nextId s + 1, wf_actions := wf_actions s @ [rowToRuntimeAction a]\<rparr>)"
    "ac_actionId (rowToRuntimeAction a) = ''act_'' @ nat_str (wf_nextId s)" by auto
  show ?thesis
    using assms a(1)
    by (intro exI [of _ "snd (run_step env i s)"] exI [of _ "rowToRuntimeAction a"])
      (simp add: n executeStepBody_def withStep_def withRun_def dispatched_def dispatchStep_def wf_run a)
qed

section \<open>The rows of a run\<close>

lemma stepRunsOf_distinct:
  assumes "wfInv s"
  shows "distinct (map sr_stepRunId (stepRunsOf s runId))"
proof -
  have "distinct (map sr_stepRunId (filter P (wf_stepRuns s)))" for P
    using assms by (simp add: wfInv_def distinct_map_filter)
  then show ?thesis
    by (simp add: stepRunsOf_def getStepsByWorkflowRunId_def orderByAsc_def distinct_map)
qed

lemma stepRunsOf_mem: "r \<in> set (stepRunsOf s runId) \<longleftrightarrow> r \<in> set (wf_stepRuns s) \<and> sr_tenantId r = tenant \<and> sr_workflowRunId r = runId"
  by (auto simp: stepRunsOf_def getStepsByWorkflowRunId_def orderByAsc_def)

lemma row_stepRunOf:
  assumes "wfInv s" "k < length (stepRunsOf s runId)"
  shows "stepRunOf s (sr_stepRunId (stepRunsOf s runId ! k)) = Some (stepRunsOf s runId ! k)"
    and "sr_workflowRunId (stepRunsOf s runId ! k) = runId"
proof -
  have "stepRunsOf s runId ! k \<in> set (stepRunsOf s runId)" using assms(2) by simp
  then have m: "stepRunsOf s runId ! k \<in> set (wf_stepRuns s)" "sr_tenantId (stepRunsOf s runId ! k) = tenant"
    "sr_workflowRunId (stepRunsOf s runId ! k) = runId" unfolding stepRunsOf_mem by blast+
  then show "stepRunOf s (sr_stepRunId (stepRunsOf s runId ! k)) = Some (stepRunsOf s runId ! k)"
    using assms(1) by (simp add: wfInv_def stepRunOf_def stepRunOf_mem)
  show "sr_workflowRunId (stepRunsOf s runId ! k) = runId" by (rule m(3))
qed

lemma updateWhere_row:
  assumes "distinct (map sr_stepRunId rows)" "\<forall>r \<in> set rows. sr_tenantId r = ten" "k < length rows"
  shows "updateWhere (ofStepRun ten (sr_stepRunId (rows ! k))) f rows = rows[k := f (rows ! k)]"
proof (rule nth_equalityI)
  fix j assume "j < length (updateWhere (ofStepRun ten (sr_stepRunId (rows ! k))) f rows)"
  then have j: "j < length rows" by simp
  then have "sr_stepRunId (rows ! j) = sr_stepRunId (rows ! k) \<longleftrightarrow> j = k"
    using assms(1,3) nth_eq_iff_index_eq [of "map sr_stepRunId rows" j k] by simp
  then show "updateWhere (ofStepRun ten (sr_stepRunId (rows ! k))) f rows ! j = rows[k := f (rows ! k)] ! j"
    using assms j by (auto simp: updateWhere_def ofStepRun_def nth_list_update)
qed simp

lemma findStep_nth:
  assumes "distinct (map ws_stepId steps)" "k < length steps"
  shows "findStep steps (ws_stepId (steps ! k)) = Some (steps ! k)"
  using assms
proof (induction steps arbitrary: k)
  case (Cons x xs)
  then show ?case by (cases k) (auto simp: findStep_def)
qed simp

lemma findStepRun_nth:
  assumes "distinct (map sr_stepId rows)" "k < length rows"
  shows "findStepRun rows (sr_stepId (rows ! k)) = Some (rows ! k)"
  using assms
proof (induction rows arbitrary: k)
  case (Cons x xs)
  then show ?case by (cases k) (auto simp: findStepRun_def)
qed simp

section \<open>A chain of steps under way\<close>

definition linear :: "WorkflowDefinition \<Rightarrow> bool" where
  "linear d = (df_steps d \<noteq> [] \<and> chained (df_steps d) \<and> distinct (map ws_stepId (df_steps d)) \<and>
     (\<forall>st \<in> set (df_steps d). ws_stepId st \<noteq> [] \<and> dispatched st))"

text \<open>The dispatches of a run that are not answered yet.\<close>

definition dispatchOf :: "wfstate \<Rightarrow> string \<Rightarrow> continuation \<Rightarrow> bool" where
  "dispatchOf s runId c = (case c of StepDispatch i \<Rightarrow> map_option sr_workflowRunId (stepRunOf s i) = Some runId | _ \<Rightarrow> False)"

definition pendingOf :: "wfstate \<Rightarrow> string \<Rightarrow> nat list" where
  "pendingOf s runId = map fst (filter (dispatchOf s runId \<circ> snd) (wf_pending s))"

definition statusesAt :: "nat \<Rightarrow> nat \<Rightarrow> string list" where
  "statusesAt n k = map (\<lambda>j. if j < k then ''completed'' else if j = k then ''running'' else ''queued'') [0..<n]"

definition underWay :: "wfstate \<Rightarrow> string \<Rightarrow> WorkflowDefinition \<Rightarrow> nat \<Rightarrow> bool" where
  "underWay s runId d k = (let srs = stepRunsOf s runId in wfInv s \<and> freshIds s \<and>
     (\<exists>run. runOf s runId = Some run \<and> wr_status run = ''running'' \<and> defOf s (wr_workflowId run) = Some d) \<and>
     map sr_stepId srs = map ws_stepId (df_steps d) \<and> k < length srs \<and> map sr_status srs = statusesAt (length srs) k \<and>
     (\<exists>key. pendingOf s runId = [key] \<and> mapGet (wf_pending s) key = Some (StepDispatch (sr_stepRunId (srs ! k)))))"

lemma freshIds_grow:
  assumes "freshIds s" "wf_nextId s \<le> wf_nextId s'"
    and "\<And>r. r \<in> set (wf_runs s') \<Longrightarrow> wr_workflowRunId r \<in> wr_workflowRunId ` set (wf_runs s) \<or>
      (\<exists>m < wf_nextId s'. wr_workflowRunId r = ''wf_run_'' @ nat_str m)"
    and "\<And>r. r \<in> set (wf_stepRuns s') \<Longrightarrow>
      (\<exists>r0 \<in> set (wf_stepRuns s). sr_stepRunId r = sr_stepRunId r0 \<and> sr_workflowRunId r = sr_workflowRunId r0) \<or>
      (\<exists>m < wf_nextId s'. sr_stepRunId r = ''wf_step_run_'' @ nat_str m) \<and> (\<exists>m < wf_nextId s'. sr_workflowRunId r = ''wf_run_'' @ nat_str m)"
    and "\<And>a. a \<in> set (wf_actions s') \<Longrightarrow> a \<in> set (wf_actions s) \<or> (\<exists>m < wf_nextId s'. ac_actionId a = ''act_'' @ nat_str m)"
    and "\<And>k c. (k, c) \<in> set (wf_pending s') \<Longrightarrow> (k, c) \<in> set (wf_pending s) \<or>
      k < wf_nextId s' \<and> (\<exists>i r. c = StepDispatch i \<and> r \<in> set (wf_stepRuns s') \<and> sr_stepRunId r = i)"
  shows "freshIds s'"
  unfolding freshIds_def
proof (intro allI impI conjI ballI)
  fix n assume n: "wf_nextId s' \<le> n"
  then have old: "wf_nextId s \<le> n" using assms(2) by simp
  have ids: "\<And>r. r \<in> set (wf_runs s) \<Longrightarrow> wr_workflowRunId r \<noteq> ''wf_run_'' @ nat_str n"
    "\<And>r. r \<in> set (wf_stepRuns s) \<Longrightarrow> sr_stepRunId r \<noteq> ''wf_step_run_'' @ nat_str n \<and> sr_workflowRunId r \<noteq> ''wf_run_'' @ nat_str n"
    using assms(1) old by (auto simp: freshIds_def)
  show "wr_workflowRunId r \<noteq> ''wf_run_'' @ nat_str n" if "r \<in> set (wf_runs s')" for r
    using assms(3) [OF that] ids(1) n by auto
  have srs: "sr_stepRunId r \<noteq> ''wf_step_run_'' @ nat_str n \<and> sr_workflowRunId r \<noteq> ''wf_run_'' @ nat_str n" if r: "r \<in> set (wf_stepRuns s')" for r
    using assms(4) [OF r]
  proof (elim disjE bexE)
    fix r0 assume "r0 \<in> set (wf_stepRuns s)" "sr_stepRunId r = sr_stepRunId r0 \<and> sr_workflowRunId r = sr_workflowRunId r0"
    then show ?thesis using ids(2) [of r0] by simp
  qed (use n in auto)
  then show "sr_stepRunId r \<noteq> ''wf_step_run_'' @ nat_str n" "sr_workflowRunId r \<noteq> ''wf_run_'' @ nat_str n" if "r \<in> set (wf_stepRuns s')" for r
    using that by blast+
  show "ac_actionId a \<noteq> ''act_'' @ nat_str n" if "a \<in> set (wf_actions s')" for a
    using assms(5) [OF that] assms(1) old n by (auto simp: freshIds_def)
  show "case kc of (k, c) \<Rightarrow> k \<noteq> n \<and> c \<noteq> StepDispatch (''wf_step_run_'' @ nat_str n)" if "kc \<in> set (wf_pending s')" for kc
    using assms(6) [of "fst kc" "snd kc"] that assms(1) old n srs by (cases kc) (fastforce simp: freshIds_def)
qed

lemma freshIds_later:
  assumes "freshIds s" "wf_nextId s \<le> wf_nextId s'"
    and "wr_workflowRunId ` set (wf_runs s') = wr_workflowRunId ` set (wf_runs s)"
    and "(\<lambda>r. (sr_stepRunId r, sr_workflowRunId r)) ` set (wf_stepRuns s') = (\<lambda>r. (sr_stepRunId r, sr_workflowRunId r)) ` set (wf_stepRuns s)"
    and "\<And>a. a \<in> set (wf_actions s') \<Longrightarrow> a \<in> set (wf_actions s) \<or> (\<exists>m < wf_nextId s'. ac_actionId a = ''act_'' @ nat_str m)"
    and "\<And>k c. (k, c) \<in> set (wf_pending s') \<Longrightarrow> (k, c) \<in> set (wf_pending s) \<or>
      k < wf_nextId s' \<and> (\<exists>i r. c = StepDispatch i \<and> r \<in> set (wf_stepRuns s') \<and> sr_stepRunId r = i)"
  shows "freshIds s'"
proof (rule freshIds_grow [OF assms(1,2) _ _ assms(5,6)])
  show "wr_workflowRunId r \<in> wr_workflowRunId ` set (wf_runs s) \<or> (\<exists>m < wf_nextId s'. wr_workflowRunId r = ''wf_run_'' @ nat_str m)"
    if "r \<in> set (wf_runs s')" for r using that assms(3) by (metis imageI)
  show "(\<exists>r0 \<in> set (wf_stepRuns s). sr_stepRunId r = sr_stepRunId r0 \<and> sr_workflowRunId r = sr_workflowRunId r0) \<or>
      (\<exists>m < wf_nextId s'. sr_stepRunId r = ''wf_step_run_'' @ nat_str m) \<and> (\<exists>m < wf_nextId s'. sr_workflowRunId r = ''wf_run_'' @ nat_str m)"
    if "r \<in> set (wf_stepRuns s')" for r
  proof -
    have "(sr_stepRunId r, sr_workflowRunId r) \<in> (\<lambda>r. (sr_stepRunId r, sr_workflowRunId r)) ` set (wf_stepRuns s)"
      using that assms(4) by (metis (no_types, lifting) imageI)
    then show ?thesis by auto
  qed
qed

lemma image_updateWhere: "(\<And>r. g (f r) = g r) \<Longrightarrow> g ` set (updateWhere P f t) = g ` set t"
  by (metis map_updateWhere list.set_map)

lemma updates_ids [simp]:
  "(\<lambda>r. (sr_stepRunId r, sr_workflowRunId r)) ` set (updateStepRunStatus ten now i status t) = (\<lambda>r. (sr_stepRunId r, sr_workflowRunId r)) ` set t"
  "(\<lambda>r. (sr_stepRunId r, sr_workflowRunId r)) ` set (saveStepOutput ten now i out t) = (\<lambda>r. (sr_stepRunId r, sr_workflowRunId r)) ` set t"
  "wr_workflowRunId ` set (updateWorkflowStatus ten now i status rs) = wr_workflowRunId ` set rs"
  "wr_workflowRunId ` set (updateCurrentSteps ten now i stepIds rs) = wr_workflowRunId ` set rs"
  "wr_workflowRunId ` set (saveWorkflowOutput ten now i out rs) = wr_workflowRunId ` set rs"
  by (simp_all add: updateStepRunStatus_def saveStepOutput_def updateWorkflowStatus_def updateCurrentSteps_def
      saveWorkflowOutput_def image_updateWhere)

lemma fresh_dispatched:
  assumes "freshIds s" "\<exists>r \<in> set (wf_stepRuns s). sr_stepRunId r = i"
    and "wf_stepRuns s' = updateStepRunStatus ten now i status (wf_stepRuns s)" "wf_runs s' = wf_runs s"
    and "wf_pending s' = wf_pending s @ [(wf_nextId s + 1, StepDispatch i)]" "wf_nextId s' = wf_nextId s + 2"
    and "wf_actions s' = wf_actions s @ [a]" "ac_actionId a = ''act_'' @ nat_str (wf_nextId s)"
  shows "freshIds s'"
proof (rule freshIds_later [OF assms(1)])
  have "sr_stepRunId ` set (wf_stepRuns s') = sr_stepRunId ` set (wf_stepRuns s)"
    by (simp add: assms(3) updateStepRunStatus_def image_updateWhere)
  then obtain r where "r \<in> set (wf_stepRuns s')" "sr_stepRunId r = i" using assms(2) by (metis imageE imageI)
  then show "(k, c) \<in> set (wf_pending s) \<or> k < wf_nextId s' \<and> (\<exists>i r. c = StepDispatch i \<and> r \<in> set (wf_stepRuns s') \<and> sr_stepRunId r = i)"
    if "(k, c) \<in> set (wf_pending s')" for k c using that by (auto simp: assms(5,6))
qed (auto simp: assms(3,4,6-8) intro: exI [of _ "wf_nextId s"])

lemma completion_goes_on:
  assumes "stepRunOf s i = Some sr" "runOf s (sr_workflowRunId sr) = Some run" "defOf s (wr_workflowId run) = Some d"
    and "findStep (df_steps d) (sr_stepId sr) = Some st"
  shows "\<exists>s1. handleStepCompletion env exec i (reportOf True out err) s = advanceToNextStep exec (sr_workflowRunId sr) st out s1 \<and>
    wf_stepRuns s1 = saveStepOutput tenant (wf_now s) i out (updateStepRunStatus tenant (wf_now s) i ''completed'' (wf_stepRuns s)) \<and>
    wf_runs s1 = wf_runs s \<and> wf_defs s1 = wf_defs s \<and> wf_pending s1 = wf_pending s \<and> wf_nextId s1 = wf_nextId s \<and>
    wf_actions s1 = wf_actions s \<and> wf_now s1 = wf_now s"
  unfolding handleStepCompletion_def withStep_def withRun_def
  using assms by (simp add: reportOf_def wf_run) (intro exI conjI, rule refl, simp_all)

text \<open>The answer of the dispatch of the step number \<open>k\<close>, up to the point where the engine goes on.\<close>

lemma settle_advances:
  assumes "underWay s runId d k" "linear d" "pendingOf s runId = [key]"
  shows "\<exists>s1. (\<forall>s'. advanceToNextStep (run_step env) runId (df_steps d ! k) out s1 = (Inr (), s') \<longrightarrow>
      wf_step env (Settle key (Resolved True out err)) s = s') \<and>
    wf_stepRuns s1 = saveStepOutput tenant (wf_now s) (sr_stepRunId (stepRunsOf s runId ! k)) out
      (updateStepRunStatus tenant (wf_now s) (sr_stepRunId (stepRunsOf s runId ! k)) ''completed'' (wf_stepRuns s)) \<and>
    wf_runs s1 = wf_runs s \<and> wf_defs s1 = wf_defs s \<and> wf_pending s1 = mapDelete key (wf_pending s) \<and> wf_nextId s1 = wf_nextId s \<and>
    wf_actions s1 = wf_actions s \<and> wf_now s1 = wf_now s"
proof -
  let ?sr = "stepRunsOf s runId ! k"
  have u: "wfInv s" "k < length (stepRunsOf s runId)" "map sr_stepId (stepRunsOf s runId) = map ws_stepId (df_steps d)"
    "mapGet (wf_pending s) key = Some (StepDispatch (sr_stepRunId ?sr))"
    using assms(1,3) by (auto simp: underWay_def Let_def)
  obtain run where run: "runOf s runId = Some run" "defOf s (wr_workflowId run) = Some d"
    using assms(1) by (auto simp: underWay_def Let_def)
  have len: "k < length (df_steps d)" using u(2,3) by (metis length_map)
  have "sr_stepId ?sr = ws_stepId (df_steps d ! k)" using u(2,3) len by (metis nth_map)
  then have st: "findStep (df_steps d) (sr_stepId ?sr) = Some (df_steps d ! k)"
    using findStep_nth [OF _ len] assms(2) by (simp add: linear_def)
  note sr = row_stepRunOf [OF u(1,2)]
  let ?s = "dropPending key s"
  have "stepRunOf ?s (sr_stepRunId ?sr) = Some ?sr" "runOf ?s (sr_workflowRunId ?sr) = Some run" "defOf ?s (wr_workflowId run) = Some d"
    using sr run by (simp_all add: dropPending_def wf_lookups)
  from completion_goes_on [OF this st, of env "run_step env" out err] obtain s1 where
    "handleStepCompletion env (run_step env) (sr_stepRunId ?sr) (reportOf True out err) ?s =
       advanceToNextStep (run_step env) runId (df_steps d ! k) out s1"
    "wf_stepRuns s1 = saveStepOutput tenant (wf_now s) (sr_stepRunId ?sr) out
      (updateStepRunStatus tenant (wf_now s) (sr_stepRunId ?sr) ''completed'' (wf_stepRuns s))"
    "wf_runs s1 = wf_runs s" "wf_defs s1 = wf_defs s" "wf_pending s1 = mapDelete key (wf_pending s)" "wf_nextId s1 = wf_nextId s"
    "wf_actions s1 = wf_actions s" "wf_now s1 = wf_now s"
    using sr(2) by (auto simp: dropPending_def)
  then show ?thesis using u(4) by (intro exI [of _ s1]) (simp add: settlePending_def settled_def asyncW_def catchW_def)
qed

text \<open>Changing the status of step runs changes one row of the run, and nothing of which run owns which step run.\<close>

lemma stepRunsOf_status:
  assumes "wfInv s" "k < length (stepRunsOf s runId)"
    and "rows = stepRunsOf s runId" "i = sr_stepRunId (rows ! k)" "map sr_stepRunId rs = map sr_stepRunId rows" "\<forall>r \<in> set rs. sr_tenantId r = tenant"
  shows "map sr_status (updateStepRunStatus tenant now i status rs) = (map sr_status rs)[k := status]"
    and "map sr_stepId (updateStepRunStatus tenant now i status rs) = map sr_stepId rs"
    and "map sr_stepRunId (updateStepRunStatus tenant now i status rs) = map sr_stepRunId rs"
    and "\<forall>r \<in> set (updateStepRunStatus tenant now i status rs). sr_tenantId r = tenant"
proof -
  have len: "k < length rs" using assms(2,3,5) by (metis length_map)
  have "i = sr_stepRunId (rs ! k)" using assms(2-5) len by (metis nth_map)
  moreover have "distinct (map sr_stepRunId rs)" using assms(3,5) stepRunsOf_distinct [OF assms(1)] by simp
  ultimately have "updateStepRunStatus tenant now i status rs = rs[k := (rs ! k)\<lparr>sr_status := status,
     sr_completedAt := endedAt [''completed'', ''failed'', ''cancelled'', ''skipped'', ''timeout''] status now (sr_completedAt (rs ! k)),
     sr_updatedAt := now\<rparr>]"
    unfolding updateStepRunStatus_def using updateWhere_row [OF _ assms(6) len] by simp
  then show "map sr_status (updateStepRunStatus tenant now i status rs) = (map sr_status rs)[k := status]"
    by (simp add: map_update)
  show "map sr_stepId (updateStepRunStatus tenant now i status rs) = map sr_stepId rs"
    "map sr_stepRunId (updateStepRunStatus tenant now i status rs) = map sr_stepRunId rs"
    by (simp_all add: updateStepRunStatus_def map_updateWhere)
  show "\<forall>r \<in> set (updateStepRunStatus tenant now i status rs). sr_tenantId r = tenant"
    using assms(6) by (auto simp: updateStepRunStatus_def dest!: set_updateWhere)
qed

lemma stepRunsOf_output:
  "map sr_status (saveStepOutput tenant now i out rs) = map sr_status rs" "map sr_stepId (saveStepOutput tenant now i out rs) = map sr_stepId rs"
  "map sr_stepRunId (saveStepOutput tenant now i out rs) = map sr_stepRunId rs"
  "\<forall>r \<in> set rs. sr_tenantId r = tenant \<Longrightarrow> \<forall>r \<in> set (saveStepOutput tenant now i out rs). sr_tenantId r = tenant"
  by (auto simp: saveStepOutput_def map_updateWhere dest!: set_updateWhere)

lemma owner_updates:
  "map_option sr_workflowRunId (getStepRunById tenant j (updateStepRunStatus tenant now i status t)) = map_option sr_workflowRunId (getStepRunById tenant j t)"
  "map_option sr_workflowRunId (getStepRunById tenant j (saveStepOutput tenant now i out t)) = map_option sr_workflowRunId (getStepRunById tenant j t)"
  by (auto simp: option.map_comp intro!: option.map_cong0)

lemma statusesAt_step: "(statusesAt n k)[k := ''completed'', Suc k := ''running''] = (if k < n then statusesAt n (Suc k) else statusesAt n k)"
  by (rule nth_equalityI) (auto simp: statusesAt_def nth_list_update)

lemma statusesAt_last: "(statusesAt (Suc k) k)[k := ''completed''] = replicate (Suc k) ''completed''"
  by (rule nth_equalityI) (auto simp: statusesAt_def nth_list_update simp del: replicate_Suc upt_Suc)

lemma chained_next:
  assumes "chained steps" "k < length steps"
  shows "ws_nextStepId (steps ! k) = (if Suc k < length steps then Some (ws_stepId (steps ! Suc k)) else None)"
proof (cases "Suc k < length steps")
  case True
  then show ?thesis using assms(1) by (auto simp: chained_def successively_conv_nth)
next
  case False
  then have "last steps = steps ! k" using assms(2) by (cases steps) (auto simp: last_conv_nth less_Suc_eq)
  then show ?thesis using assms False by (auto simp: chained_def)
qed

lemma filter_deleted:
  assumes "map fst (filter Q p) = [key]"
  shows "filter Q (mapDelete key p) = []"
proof -
  have "fst x = key" if "x \<in> set p" "Q x" for x
  proof -
    have "fst x \<in> set (map fst (filter Q p))" using that by simp
    then show ?thesis unfolding assms by simp
  qed
  then show ?thesis by (auto simp: mapDelete_filter filter_empty_conv)
qed

lemma settle_last:
  assumes "underWay s runId d k" "linear d" "pendingOf s runId = [key]" "Suc k = length (df_steps d)"
  shows "let s' = wf_step env (Settle key (Resolved True out err)) s in
    map_option wr_status (runOf s' runId) = Some ''completed'' \<and>
    map sr_stepId (stepRunsOf s' runId) = map ws_stepId (df_steps d) \<and>
    map sr_status (stepRunsOf s' runId) = replicate (length (df_steps d)) ''completed'' \<and> pendingOf s' runId = []"
proof -
  let ?rows = "stepRunsOf s runId" and ?i = "sr_stepRunId (stepRunsOf s runId ! k)"
  obtain s1 where s1: "\<And>s'. advanceToNextStep (run_step env) runId (df_steps d ! k) out s1 = (Inr (), s') \<Longrightarrow>
      wf_step env (Settle key (Resolved True out err)) s = s'"
    "wf_stepRuns s1 = saveStepOutput tenant (wf_now s) ?i out (updateStepRunStatus tenant (wf_now s) ?i ''completed'' (wf_stepRuns s))"
    "wf_runs s1 = wf_runs s" "wf_defs s1 = wf_defs s" "wf_pending s1 = mapDelete key (wf_pending s)"
    using settle_advances [OF assms(1-3), of env out err] by blast
  obtain run where run: "runOf s runId = Some run" "defOf s (wr_workflowId run) = Some d"
    and u: "wfInv s" "k < length ?rows" "map sr_status ?rows = statusesAt (length ?rows) k" "map sr_stepId ?rows = map ws_stepId (df_steps d)"
    using assms(1) by (auto simp: underWay_def Let_def)
  have len: "length ?rows = Suc k" using u(4) assms(4) by (metis length_map)
  have "getDefinitionFromRun s1 runId = Some d" using run by (simp add: getDefinitionFromRun_def wf_lookups s1)
  moreover have "ws_nextStepId (df_steps d ! k) = None" using chained_next [of "df_steps d" k] assms(2,4) by (simp add: linear_def)
  ultimately have adv: "advanceToNextStep (run_step env) runId (df_steps d ! k) out s1 = completeRun runId out s1"
    by (simp add: advanceToNextStep_def truthy_def)
  have "\<exists>s'. completeRun runId out s1 = (Inr (), s') \<and> wf_stepRuns s' = wf_stepRuns s1 \<and> wf_pending s' = wf_pending s1 \<and>
      wf_runs s' = updateWorkflowStatus tenant (wf_now s1) runId ''completed'' (saveWorkflowOutput tenant (wf_now s1) runId
        (Some (JObj (opt ''finalOutput'' out))) (wf_runs s1))"
    by (simp add: completeRun_def wf_run)
  then obtain s' where s': "completeRun runId out s1 = (Inr (), s')" "wf_stepRuns s' = wf_stepRuns s1" "wf_pending s' = wf_pending s1"
    "wf_runs s' = updateWorkflowStatus tenant (wf_now s1) runId ''completed'' (saveWorkflowOutput tenant (wf_now s1) runId
        (Some (JObj (opt ''finalOutput'' out))) (wf_runs s1))" by blast
  have eq: "wf_step env (Settle key (Resolved True out err)) s = s'" using s1(1) adv s'(1) by simp
  have "map_option wr_status (runOf s' runId) = Some ''completed''" using run(1) by (simp add: wf_lookups s' s1)
  moreover have "map sr_stepId (stepRunsOf s' runId) = map ws_stepId (df_steps d) \<and>
    map sr_status (stepRunsOf s' runId) = replicate (Suc k) ''completed''"
  proof -
    have rows: "stepRunsOf s' runId = saveStepOutput tenant (wf_now s) ?i out (updateStepRunStatus tenant (wf_now s) ?i ''completed'' ?rows)"
      by (simp add: stepRunsOf_def s' s1)
    have "\<forall>r \<in> set ?rows. sr_tenantId r = tenant" by (simp add: stepRunsOf_mem)
    from stepRunsOf_status(1,2) [OF u(1,2) refl refl refl this, of "wf_now s" "''completed''"] show ?thesis
      using u(3,4) statusesAt_last [of k] by (simp only: rows stepRunsOf_output len simp_thms)
  qed
  moreover have "pendingOf s' runId = []"
  proof -
    have owner: "map_option sr_workflowRunId (stepRunOf s' i) = map_option sr_workflowRunId (stepRunOf s i)" for i
      by (simp only: stepRunOf_def s' s1 owner_updates)
    then have "dispatchOf s' runId = dispatchOf s runId" by (simp only: dispatchOf_def [abs_def])
    then show ?thesis using filter_deleted [OF assms(3) [unfolded pendingOf_def]] by (simp add: pendingOf_def s' s1)
  qed
  ultimately show ?thesis using assms(4) by (simp add: eq Let_def del: wf_step.simps)
qed

lemma settle_next:
  assumes "underWay s runId d k" "linear d" "pendingOf s runId = [key]" "Suc k < length (df_steps d)" "env_dispatcher env" "0 < env_stack env"
  shows "underWay (wf_step env (Settle key (Resolved True out err)) s) runId d (Suc k)"
proof -
  let ?rows = "stepRunsOf s runId" and ?i = "sr_stepRunId (stepRunsOf s runId ! k)" and ?j = "sr_stepRunId (stepRunsOf s runId ! Suc k)"
  let ?t = "saveStepOutput tenant (wf_now s) ?i out (updateStepRunStatus tenant (wf_now s) ?i ''completed'' (wf_stepRuns s))"
  obtain s1 where s1: "\<And>s'. advanceToNextStep (run_step env) runId (df_steps d ! k) out s1 = (Inr (), s') \<Longrightarrow>
      wf_step env (Settle key (Resolved True out err)) s = s'"
    "wf_stepRuns s1 = ?t" "wf_runs s1 = wf_runs s" "wf_defs s1 = wf_defs s" "wf_pending s1 = mapDelete key (wf_pending s)"
    "wf_nextId s1 = wf_nextId s" "wf_actions s1 = wf_actions s"
    using settle_advances [OF assms(1-3), of env out err] by blast
  obtain run where run: "runOf s runId = Some run" "defOf s (wr_workflowId run) = Some d" "wr_status run = ''running''"
    and u: "wfInv s" "freshIds s" "k < length ?rows" "map sr_status ?rows = statusesAt (length ?rows) k" "map sr_stepId ?rows = map ws_stepId (df_steps d)"
    using assms(1) by (auto simp: underWay_def Let_def)
  have len: "length ?rows = length (df_steps d)" using u(5) by (metis length_map)
  then have k: "Suc k < length ?rows" using assms(4) by simp
  have lin: "distinct (map ws_stepId (df_steps d))" "chained (df_steps d)" "ws_stepId (df_steps d ! Suc k) \<noteq> []" "dispatched (df_steps d ! Suc k)"
    using assms(2,4) by (auto simp: linear_def)
  let ?s2 = "s1\<lparr>wf_runs := updateCurrentSteps tenant (wf_now s1) runId [ws_stepId (df_steps d ! Suc k)] (wf_runs s1)\<rparr>"
  have rows1: "stepRunsOf s1 runId = saveStepOutput tenant (wf_now s) ?i out (updateStepRunStatus tenant (wf_now s) ?i ''completed'' ?rows)"
    by (simp add: stepRunsOf_def s1)
  have ids: "map sr_stepId (stepRunsOf s1 runId) = map ws_stepId (df_steps d)" "map sr_stepRunId (stepRunsOf s1 runId) = map sr_stepRunId ?rows"
    and stat: "map sr_status (stepRunsOf s1 runId) = (statusesAt (length ?rows) k)[k := ''completed'']"
    and ten: "\<forall>r \<in> set (stepRunsOf s1 runId). sr_tenantId r = tenant"
  proof -
    have "\<forall>r \<in> set ?rows. sr_tenantId r = tenant" by (simp add: stepRunsOf_mem)
    note st = stepRunsOf_status [OF u(1,3) refl refl refl this, of "wf_now s" "''completed''"]
    show "map sr_stepId (stepRunsOf s1 runId) = map ws_stepId (df_steps d)" "map sr_stepRunId (stepRunsOf s1 runId) = map sr_stepRunId ?rows"
      "map sr_status (stepRunsOf s1 runId) = (statusesAt (length ?rows) k)[k := ''completed'']"
      "\<forall>r \<in> set (stepRunsOf s1 runId). sr_tenantId r = tenant"
      using st u(4,5) by (simp_all add: rows1 stepRunsOf_output)
  qed
  let ?st = "df_steps d ! Suc k"
  have j: "sr_stepRunId (stepRunsOf s1 runId ! Suc k) = ?j" using ids(2) k by (metis length_map nth_map)
  have find: "findStepRun (stepRunsOf s1 runId) (ws_stepId ?st) = Some (stepRunsOf s1 runId ! Suc k)"
    using findStepRun_nth [of "stepRunsOf s1 runId" "Suc k"] ids(1) lin(1) assms(4) by (metis length_map nth_map)
  have "getDefinitionFromRun s1 runId = Some d" using run by (simp add: getDefinitionFromRun_def wf_lookups s1)
  then have adv: "advanceToNextStep (run_step env) runId (df_steps d ! k) out s1 = run_step env ?j ?s2"
    using chained_next [OF lin(2), of k] assms(4) lin(3) findStep_nth [OF lin(1) assms(4)] find
    by (simp add: advanceToNextStep_def truthy_def goToStep_def wf_run j)
  have fresh2: "freshIds ?s2"
    by (rule freshIds_later [OF u(2)]) (auto simp: s1 mapDelete_filter)
  note row = row_stepRunOf [OF u(1) k]
  have "sr_stepId (?rows ! Suc k) = ws_stepId ?st" using u(5) k assms(4) by (metis nth_map)
  then obtain sr where sr: "stepRunOf ?s2 ?j = Some sr" "sr_workflowRunId sr = runId" "sr_stepId sr = ws_stepId ?st"
    using row by (auto simp: wf_lookups s1)
  obtain run' where run': "runOf ?s2 runId = Some run'" "wr_workflowId run' = wr_workflowId run" "wr_status run' = ''running''"
    using run by (auto simp: wf_lookups s1)
  have "defOf ?s2 (wr_workflowId run') = Some d" using run run' by (simp add: wf_lookups s1)
  from dispatch_runs [OF fresh2 sr(1), unfolded sr(2,3), OF run'(1) this findStep_nth [OF lin(1) assms(4)] lin(4) assms(5,6)]
  obtain s' a where s': "run_step env ?j ?s2 = (Inr (), s')" "wf_stepRuns s' = updateStepRunStatus tenant (wf_now s1) ?j ''running'' ?t"
    "wf_runs s' = wf_runs ?s2" "wf_defs s' = wf_defs s" "wf_pending s' = mapDelete key (wf_pending s) @ [(wf_nextId s + 1, StepDispatch ?j)]"
    "wf_nextId s' = wf_nextId s + 2" "wf_actions s' = wf_actions s @ [a]" "ac_actionId a = ''act_'' @ nat_str (wf_nextId s)"
    by (auto simp: s1)
  have eq: "wf_step env (Settle key (Resolved True out err)) s = s'" using s1(1) adv s'(1) by presburger
  have inv: "wfInv s'" using integrity.event_respects [of s env "Settle key (Resolved True out err)"] u(1) unfolding eq by blast
  have "?rows ! Suc k \<in> set (wf_stepRuns s)" using k nth_mem [OF k] by (simp add: stepRunsOf_mem)
  then have "?j \<in> sr_stepRunId ` set (wf_stepRuns s)" by blast
  then have jmem: "\<exists>r \<in> set (wf_stepRuns s'). sr_stepRunId r = ?j"
  proof -
    have "sr_stepRunId ` set (wf_stepRuns s') = sr_stepRunId ` set (wf_stepRuns s)"
      by (simp add: s'(2) updateStepRunStatus_def saveStepOutput_def image_updateWhere)
    then show ?thesis using \<open>?j \<in> sr_stepRunId ` set (wf_stepRuns s)\<close> by (metis imageE)
  qed
  have fresh: "freshIds s'"
    by (rule freshIds_later [OF u(2)])
      (use jmem in \<open>auto simp: s' s1 mapDelete_filter intro: exI [of _ "wf_nextId s"]\<close>)
  have rows': "stepRunsOf s' runId = updateStepRunStatus tenant (wf_now s1) ?j ''running'' (stepRunsOf s1 runId)"
    by (simp add: stepRunsOf_def s' s1)
  note st' = stepRunsOf_status [OF u(1) k refl refl ids(2) ten, of "wf_now s1" "''running''"]
  have stat': "map sr_status (stepRunsOf s' runId) = statusesAt (length ?rows) (Suc k)"
    using st'(1) statusesAt_step [of "length ?rows" k] u(3) by (simp only: rows' stat if_True)
  have j': "sr_stepRunId (stepRunsOf s' runId ! Suc k) = ?j" using st'(3) ids(2) k by (metis rows' length_map nth_map)
  have owner: "map_option sr_workflowRunId (stepRunOf s' i) = map_option sr_workflowRunId (stepRunOf s i)" for i
    by (simp only: stepRunOf_def s'(2) owner_updates)
  then have same: "dispatchOf s' runId = dispatchOf s runId" by (simp only: dispatchOf_def [abs_def])
  have old: "filter (dispatchOf s' runId \<circ> snd) (mapDelete key (wf_pending s)) = []"
    using filter_deleted [OF assms(3) [unfolded pendingOf_def]] by (simp only: same)
  have new: "dispatchOf s runId (StepDispatch ?j)" using row by (simp add: dispatchOf_def)
  have "pendingOf s' runId = [wf_nextId s + 1]"
    using old row by (simp add: pendingOf_def s'(5) same new)
  moreover have "mapGet (wf_pending s') (wf_nextId s + 1) = Some (StepDispatch (sr_stepRunId (stepRunsOf s' runId ! Suc k)))"
  proof -
    have "wf_nextId s + 1 \<notin> fst ` set (wf_pending s)" using freshIds_pending [OF u(2)] by simp
    then have "mapGet (mapDelete key (wf_pending s)) (wf_nextId s + 1) = None" by (simp add: map_of_eq_None_iff)
    then show ?thesis by (simp add: s'(5) j' map_add_def)
  qed
  moreover have "\<exists>run. runOf s' runId = Some run \<and> wr_status run = ''running'' \<and> defOf s' (wr_workflowId run) = Some d"
    using run run' by (simp add: wf_lookups s' s1)
  moreover have "map sr_stepId (stepRunsOf s' runId) = map ws_stepId (df_steps d)" using st'(2) ids(1) by (simp only: rows')
  moreover have "length (stepRunsOf s' runId) = length ?rows" using st'(3) ids(2) by (metis rows' length_map)
  ultimately show ?thesis using inv fresh stat' k by (simp add: underWay_def Let_def eq del: wf_step.simps)
qed

section \<open>Starting a run\<close>

lemma createStepRuns_rows:
  assumes "\<And>n r. wf_nextId s \<le> n \<Longrightarrow> r \<in> set (wf_stepRuns s) \<Longrightarrow> sr_stepRunId r \<noteq> ''wf_step_run_'' @ nat_str n"
  shows "\<exists>infos s' rows. createStepRuns runId inp steps s = (Inr infos, s') \<and> wf_stepRuns s' = wf_stepRuns s @ rows \<and>
    wf_nextId s' = wf_nextId s + length steps \<and> wf_runs s' = wf_runs s \<and> wf_defs s' = wf_defs s \<and> wf_pending s' = wf_pending s \<and>
    wf_actions s' = wf_actions s \<and> wf_now s' = wf_now s \<and> map si_stepId infos = map ws_stepId steps \<and>
    map si_stepRunId infos = map sr_stepRunId rows \<and> map sr_stepId rows = map ws_stepId steps \<and>
    map sr_stepRunId rows = map (\<lambda>j. ''wf_step_run_'' @ nat_str j) [wf_nextId s ..< wf_nextId s + length steps] \<and>
    (\<forall>r \<in> set rows. sr_status r = ''queued'' \<and> sr_workflowRunId r = runId \<and> sr_tenantId r = tenant \<and> sr_createdAt r = wf_now s)"
  using assms
proof (induction steps arbitrary: s)
  case Nil
  show ?case by (rule exI, rule exI, rule exI [of _ "[]"]) (simp add: returnW_def)
next
  case (Cons st steps)
  define row where "row = (\<lparr>sr_stepRunId = ''wf_step_run_'' @ nat_str (wf_nextId s), sr_workflowRunId = runId, sr_stepId = ws_stepId st,
         sr_stepType = ws_stepType st, sr_status = ''queued'', sr_kernelRunId = None, sr_subagentRunId = None, sr_toolCallId = None,
         sr_approvalId = None, sr_inputData = keepValue (Some (buildStepInput st inp)), sr_outputData = keepValue None, sr_errorMessage = None,
         sr_startedAt = None, sr_completedAt = None, sr_createdAt = wf_now s, sr_updatedAt = wf_now s, sr_tenantId = tenant\<rparr>)"
  let ?s = "s\<lparr>wf_nextId := wf_nextId s + 1, wf_stepRuns := wf_stepRuns s @ [row]\<rparr>"
  have "sr_stepRunId r \<noteq> ''wf_step_run_'' @ nat_str n" if "wf_nextId ?s \<le> n" "r \<in> set (wf_stepRuns ?s)" for n r
    using that Cons.prems by (auto simp: row_def)
  from Cons.IH [OF this] obtain infos s' rows where ih: "createStepRuns runId inp steps ?s = (Inr infos, s')"
    "wf_stepRuns s' = wf_stepRuns ?s @ rows" "wf_nextId s' = wf_nextId ?s + length steps" "wf_runs s' = wf_runs ?s" "wf_defs s' = wf_defs ?s"
    "wf_pending s' = wf_pending ?s" "wf_actions s' = wf_actions ?s" "wf_now s' = wf_now ?s" "map si_stepId infos = map ws_stepId steps"
    "map si_stepRunId infos = map sr_stepRunId rows" "map sr_stepId rows = map ws_stepId steps"
    "map sr_stepRunId rows = map (\<lambda>j. ''wf_step_run_'' @ nat_str j) [wf_nextId ?s ..< wf_nextId ?s + length steps]"
    "\<forall>r \<in> set rows. sr_status r = ''queued'' \<and> sr_workflowRunId r = runId \<and> sr_tenantId r = tenant \<and> sr_createdAt r = wf_now ?s"
    by blast
  let ?info = "\<lparr>si_stepRunId = ''wf_step_run_'' @ nat_str (wf_nextId s), si_stepId = ws_stepId st, si_stepType = ws_stepType st, si_status = ''queued''\<rparr>"
  have "''wf_step_run_'' @ nat_str (wf_nextId s) \<notin> sr_stepRunId ` set (wf_stepRuns s)" using Cons.prems by fastforce
  then have "createStepRuns runId inp (st # steps) s = (Inr (?info # infos), s')"
    using ih(1) by (simp add: bindW_def generateId_def createStepRun_def insertRow_def returnW_def row_def)
  then show ?case
    using ih by (intro exI [of _ "?info # infos"] exI [of _ s'] exI [of _ "row # rows"])
      (simp add: row_def upt_rec [of "wf_nextId s"] Suc_le_eq del: createStepRuns.simps)
qed

lemma expand_dispatched: "\<forall>st \<in> set steps. dispatched st \<Longrightarrow> expandSteps steps = steps"
  by (induction steps) (auto simp: expandSteps_def nestedSteps_def dispatched_def)

text \<open>The rows a new run finds in the tables, just before its first step is executed.\<close>

lemma new_run_rows:
  assumes "wfInv s" "freshIds s" "runId = ''wf_run_'' @ nat_str (wf_nextId s)"
    and "wf_stepRuns s' = wf_stepRuns s @ rows"
    and "map sr_stepRunId rows = map (\<lambda>j. ''wf_step_run_'' @ nat_str j) [wf_nextId s + 1 ..< wf_nextId s + 1 + n]"
    and "\<forall>r \<in> set rows. sr_status r = ''queued'' \<and> sr_workflowRunId r = runId \<and> sr_tenantId r = tenant \<and> sr_createdAt r = now"
  shows "stepRunsOf s' runId = rows" and "r \<in> set rows \<Longrightarrow> stepRunOf s' (sr_stepRunId r) = Some r"
    and "map_option sr_workflowRunId (stepRunOf s' i) = (case stepRunOf s i of Some r \<Rightarrow> Some (sr_workflowRunId r)
      | None \<Rightarrow> if i \<in> sr_stepRunId ` set rows then Some runId else None)"
proof -
  have old: "sr_workflowRunId r \<noteq> runId" if "r \<in> set (wf_stepRuns s)" for r
    using assms(2,3) that by (auto simp: freshIds_def)
  have "map sr_createdAt rows = map (\<lambda>_. now) rows" using assms(6) by simp
  then have "sort_key sr_createdAt rows = rows" by (intro sort_key_sorted) (simp add: map_replicate_const)
  moreover have "filter (\<lambda>r. sr_tenantId r = tenant \<and> sr_workflowRunId r = runId) (wf_stepRuns s) = []"
    using old by (auto simp: filter_empty_conv)
  moreover have "filter (\<lambda>r. sr_tenantId r = tenant \<and> sr_workflowRunId r = runId) rows = rows"
    using assms(6) by (auto simp: filter_id_conv)
  ultimately show "stepRunsOf s' runId = rows" by (simp add: stepRunsOf_def getStepsByWorkflowRunId_def orderByAsc_def assms(4))
  have "distinct (map sr_stepRunId rows)" unfolding assms(5) by (simp add: distinct_map inj_on_def)
  moreover have disj: "sr_stepRunId ` set rows \<inter> sr_stepRunId ` set (wf_stepRuns s) = {}"
  proof -
    have "sr_stepRunId ` set rows = (\<lambda>j. ''wf_step_run_'' @ nat_str j) ` {wf_nextId s + 1 ..< wf_nextId s + 1 + n}"
      using arg_cong [OF assms(5), of set] by (simp only: list.set_map set_upt)
    moreover have "sr_stepRunId r \<noteq> ''wf_step_run_'' @ nat_str j" if "r \<in> set (wf_stepRuns s)" "wf_nextId s \<le> j" for r j
      using assms(2) that by (auto simp: freshIds_def)
    ultimately show ?thesis by (auto simp del: append_Cons) (metis Suc_leD)
  qed
  ultimately have dis: "distinct (map sr_stepRunId (wf_stepRuns s'))" using assms(1) by (auto simp: assms(4) wfInv_def)
  show "stepRunOf s' (sr_stepRunId r) = Some r" if "r \<in> set rows" for r
    using stepRunOf_mem [OF dis] that assms(4,6) by (simp add: stepRunOf_def)
  show "map_option sr_workflowRunId (stepRunOf s' i) = (case stepRunOf s i of Some r \<Rightarrow> Some (sr_workflowRunId r)
      | None \<Rightarrow> if i \<in> sr_stepRunId ` set rows then Some runId else None)"
  proof (cases "stepRunOf s i")
    case None
    then have "stepRunOf s' i = find (ofStepRun tenant i) rows"
      by (simp add: stepRunOf_def getStepRunById_def firstRow_eq_find assms(4) find_append)
    then show ?thesis using None assms(6)
      by (cases "find (ofStepRun tenant i) rows") (auto simp: find_None_iff ofStepRun_def dest!: find_Some_in)
  qed (simp add: stepRunOf_def getStepRunById_def firstRow_eq_find assms(4) find_append)
qed

lemma start_under_way:
  assumes "wfInv s" "freshIds s" "defOf s (ri_definitionId input) = Some d" "df_status d = Published" "linear d"
    and "env_dispatcher env" "0 < env_stack env"
  shows "underWay (wf_step env (StartRun input) s) (''wf_run_'' @ nat_str (wf_nextId s)) d 0"
proof -
  define runId where "runId = ''wf_run_'' @ nat_str (wf_nextId s)"
  let ?n = "wf_nextId s" and ?steps = "df_steps d"
  define run where "run = \<lparr>wr_workflowRunId = runId, wr_workflowId = df_workflowId d,
           wr_workflowVersion = nat_str (df_version d), wr_ownerUserId = ri_userId input, wr_triggerEventId = ri_triggerEventId input,
           wr_status = ''queued'', wr_currentStepIds = Some [], wr_inputData = keepValue (ri_inputData input), wr_outputData = keepValue None,
           wr_contextData = keepValue None, wr_startedAt = Some (nullish None (wf_now s)), wr_completedAt = None, wr_createdAt = wf_now s,
           wr_updatedAt = wf_now s, wr_tenantId = tenant\<rparr>"
  let ?s1 = "s\<lparr>wf_nextId := ?n + 1, wf_runs := wf_runs s @ [run]\<rparr>"
  have lin: "?steps \<noteq> []" "distinct (map ws_stepId ?steps)" "\<forall>st \<in> set ?steps. dispatched st" using assms(5) by (auto simp: linear_def)
  then obtain first rest where first: "?steps = first # rest" by (cases ?steps) auto
  have did: "df_workflowId d = ri_definitionId input" using defOf_id [OF assms(3)] .
  have oldRun: "runId \<notin> wr_workflowRunId ` set (wf_runs s)" using freshIds_run [OF assms(2)] by (simp add: runId_def)
  have "\<exists>infos s2 rows. createStepRuns runId (ri_inputData input) ?steps ?s1 = (Inr infos, s2) \<and>
      wf_stepRuns s2 = wf_stepRuns s @ rows \<and> wf_nextId s2 = ?n + 1 + length ?steps \<and> wf_runs s2 = wf_runs s @ [run] \<and> wf_defs s2 = wf_defs s \<and>
      wf_pending s2 = wf_pending s \<and> wf_actions s2 = wf_actions s \<and> wf_now s2 = wf_now s \<and>
      map si_stepId infos = map ws_stepId ?steps \<and> map si_stepRunId infos = map sr_stepRunId rows \<and> map sr_stepId rows = map ws_stepId ?steps \<and>
      map sr_stepRunId rows = map (\<lambda>j. ''wf_step_run_'' @ nat_str j) [?n + 1 ..< ?n + 1 + length ?steps] \<and>
      (\<forall>r \<in> set rows. sr_status r = ''queued'' \<and> sr_workflowRunId r = runId \<and> sr_tenantId r = tenant \<and> sr_createdAt r = wf_now s)"
    using createStepRuns_rows [of ?s1 runId "ri_inputData input" ?steps] assms(2)
    by (simp add: freshIds_def)
  then obtain infos s2 rows where cr: "createStepRuns runId (ri_inputData input) ?steps ?s1 = (Inr infos, s2)"
    and s2: "wf_stepRuns s2 = wf_stepRuns s @ rows" "wf_nextId s2 = ?n + 1 + length ?steps" "wf_runs s2 = wf_runs s @ [run]" "wf_defs s2 = wf_defs s"
      "wf_pending s2 = wf_pending s" "wf_actions s2 = wf_actions s" "wf_now s2 = wf_now s"
    and infos: "map si_stepId infos = map ws_stepId ?steps" "map si_stepRunId infos = map sr_stepRunId rows"
    and rows: "map sr_stepId rows = map ws_stepId ?steps"
      "map sr_stepRunId rows = map (\<lambda>j. ''wf_step_run_'' @ nat_str j) [?n + 1 ..< ?n + 1 + length ?steps]"
      "\<forall>r \<in> set rows. sr_status r = ''queued'' \<and> sr_workflowRunId r = runId \<and> sr_tenantId r = tenant \<and> sr_createdAt r = wf_now s"
    by blast
  obtain info infos' row rows' where hd: "infos = info # infos'" "rows = row # rows'" "si_stepId info = ws_stepId first"
    "si_stepRunId info = sr_stepRunId row" "sr_stepId row = ws_stepId first"
    using infos rows(1) first by (auto simp: map_eq_Cons_conv Cons_eq_map_conv)
  let ?s3 = "s2\<lparr>wf_runs := updateCurrentSteps tenant (wf_now s) runId [ws_stepId first] (updateWorkflowStatus tenant (wf_now s) runId ''running'' (wf_runs s2))\<rparr>"
  have created: "createWorkflowRun tenant (wf_now s) \<lparr>wr_workflowRunId = runId, wr_workflowId = df_workflowId d,
      wr_workflowVersion = nat_str (df_version d), wr_ownerUserId = ri_userId input, wr_triggerEventId = ri_triggerEventId input,
      wr_status = ''queued'', wr_currentStepIds = Some [], wr_inputData = ri_inputData input, wr_outputData = None, wr_contextData = None,
      wr_startedAt = None, wr_completedAt = None, wr_createdAt = wf_now s, wr_updatedAt = wf_now s, wr_tenantId = tenant\<rparr> (wf_runs s) =
    Inr (wf_runs s @ [run])"
    using oldRun by (simp add: createWorkflowRun_def insertRow_def run_def)
  have start: "\<exists>ev. wf_step env (StartRun input) s = s4\<lparr>wf_events := ev\<rparr>" if "run_step env (sr_stepRunId row) ?s3 = (Inr (), s4)" for s4
    using assms(3,4) did first cr [unfolded first] that hd s2(3,7) created lin(3) [unfolded first]
    by (simp add: startWorkflowRun_def bindW_by_result thenW_def generateId_def runId_def [unfolded append_Cons append_Nil, symmetric] expand_dispatched
        setRunStatusW_def setCurrentStepsW_def doW_def emitSessionEvent_def returnW_def
        del: createStepRuns.simps) blast
  have steps3: "wf_stepRuns ?s3 = wf_stepRuns s @ rows" by (simp add: s2)
  note nr = new_run_rows [OF assms(1,2) runId_def steps3 rows(2,3)]
  have row: "stepRunOf ?s3 (sr_stepRunId row) = Some row" "sr_workflowRunId row = runId" using nr(2) rows(3) by (simp_all add: hd(2))
  obtain run' where run': "runOf ?s3 runId = Some run'" "wr_workflowId run' = ri_definitionId input" "wr_status run' = ''running''"
  proof -
    have "getWorkflowRunById tenant runId (wf_runs s @ [run]) = Some run"
      using oldRun by (auto simp: getWorkflowRunById_def firstRow_eq_find find_append ofRun_def find_None_iff run_def split: option.split dest!: find_Some_in)
    then show ?thesis using that did by (simp add: runOf_def s2 run_def)
  qed
  have defs: "defOf s' = defOf s" if "wf_defs s' = wf_defs s" for s' using that by (simp add: defOf_def fun_eq_iff)
  have d3: "defOf ?s3 (wr_workflowId run') = Some d" using assms(3) run'(2) defs [of ?s3] by (simp add: s2)
  have firstStep: "findStep ?steps (sr_stepId row) = Some first" "dispatched first" using lin(3) by (simp_all add: first hd(5) findStep_def)
  have fresh3: "freshIds ?s3"
  proof (rule freshIds_grow [OF assms(2)])
    show "wr_workflowRunId r \<in> wr_workflowRunId ` set (wf_runs s) \<or> (\<exists>m < wf_nextId ?s3. wr_workflowRunId r = ''wf_run_'' @ nat_str m)"
      if "r \<in> set (wf_runs ?s3)" for r
    proof -
      have ids: "wr_workflowRunId ` set (wf_runs ?s3) = insert runId (wr_workflowRunId ` set (wf_runs s))" by (simp add: s2 run_def)
      have "wr_workflowRunId r \<in> insert runId (wr_workflowRunId ` set (wf_runs s))" unfolding ids [symmetric] using that by (rule imageI)
      moreover have "?n < wf_nextId ?s3" by (simp add: s2)
      ultimately show ?thesis unfolding runId_def by (elim insertE) blast+
    qed
    show "(\<exists>r0 \<in> set (wf_stepRuns s). sr_stepRunId r = sr_stepRunId r0 \<and> sr_workflowRunId r = sr_workflowRunId r0) \<or>
        (\<exists>m < wf_nextId ?s3. sr_stepRunId r = ''wf_step_run_'' @ nat_str m) \<and> (\<exists>m < wf_nextId ?s3. sr_workflowRunId r = ''wf_run_'' @ nat_str m)"
      if "r \<in> set (wf_stepRuns ?s3)" for r
    proof (cases "r \<in> set rows")
      case True
      then have "sr_stepRunId r \<in> (\<lambda>j. ''wf_step_run_'' @ nat_str j) ` {?n + 1 ..< ?n + 1 + length ?steps}"
        using arg_cong [OF rows(2), of set] by (simp only: list.set_map set_upt) (metis imageI)
      then have "\<exists>m < wf_nextId ?s3. sr_stepRunId r = ''wf_step_run_'' @ nat_str m" by (elim imageE) (auto simp: s2)
      moreover have "\<exists>m < wf_nextId ?s3. sr_workflowRunId r = ''wf_run_'' @ nat_str m"
        using rows(3) True by (intro exI [of _ ?n]) (simp add: s2 runId_def)
      ultimately show ?thesis by blast
    next
      case False
      then have "r \<in> set (wf_stepRuns s)" using that by (simp add: steps3)
      then show ?thesis by blast
    qed
  qed (simp_all add: s2)
  from dispatch_runs [OF fresh3 row(1), unfolded row(2), OF run'(1) d3 firstStep assms(6,7)]
  obtain s4 a where s4: "run_step env (sr_stepRunId row) ?s3 = (Inr (), s4)"
    "wf_stepRuns s4 = updateStepRunStatus tenant (wf_now ?s3) (sr_stepRunId row) ''running'' (wf_stepRuns ?s3)"
    "wf_runs s4 = wf_runs ?s3" "wf_defs s4 = wf_defs ?s3" "wf_pending s4 = wf_pending ?s3 @ [(wf_nextId ?s3 + 1, StepDispatch (sr_stepRunId row))]"
    "wf_nextId s4 = wf_nextId ?s3 + 2" "wf_actions s4 = wf_actions ?s3 @ [a]" "ac_actionId a = ''act_'' @ nat_str (wf_nextId ?s3)"
    by blast
  obtain ev where eq: "wf_step env (StartRun input) s = s4\<lparr>wf_events := ev\<rparr>" using start [OF s4(1)] by blast
  let ?s4 = "s4\<lparr>wf_events := ev\<rparr>"
  have "wfInv ?s4" using integrity.event_respects [of s env "StartRun input"] assms(1) unfolding eq by blast
  moreover have "freshIds ?s4"
    using fresh_dispatched [OF fresh3, of "sr_stepRunId row" ?s4 tenant "wf_now ?s3" "''running''" a] s4 by (auto simp: steps3 hd(2))
  moreover have "\<exists>run. runOf ?s4 runId = Some run \<and> wr_status run = ''running'' \<and> defOf ?s4 (wr_workflowId run) = Some d"
  proof (intro exI [of _ run'] conjI)
    have "wf_runs ?s4 = wf_runs ?s3" using s4(3) by simp
    then show "runOf ?s4 runId = Some run'" using run'(1) unfolding runOf_def by (simp only:)
    show "defOf ?s4 (wr_workflowId run') = Some d" using run'(2) assms(3) defs [of ?s4] s4(4) by (simp add: s2)
  qed (rule run'(3))
  moreover have rows4: "stepRunsOf ?s4 runId = updateStepRunStatus tenant (wf_now s) (sr_stepRunId row) ''running'' rows"
    using nr(1) by (simp add: stepRunsOf_def s4 s2)
  moreover have stat: "map sr_status (updateStepRunStatus tenant (wf_now s) (sr_stepRunId row) ''running'' rows) = statusesAt (length rows) 0"
  proof -
    have "distinct (map sr_stepRunId rows)" unfolding rows(2) by (simp add: distinct_map inj_on_def)
    then have "updateStepRunStatus tenant (wf_now s) (sr_stepRunId row) ''running'' rows = rows[0 := row\<lparr>sr_status := ''running'',
       sr_completedAt := endedAt [''completed'', ''failed'', ''cancelled'', ''skipped'', ''timeout''] ''running'' (wf_now s) (sr_completedAt row),
       sr_updatedAt := wf_now s\<rparr>]"
      unfolding updateStepRunStatus_def using updateWhere_row [of rows tenant 0] rows(3) by (simp add: hd(2) ofStepRun_def)
    then have "map sr_status (updateStepRunStatus tenant (wf_now s) (sr_stepRunId row) ''running'' rows) = ''running'' # map sr_status rows'"
      by (simp add: hd(2))
    also have "\<dots> = ''running'' # replicate (length rows') ''queued''" using rows(3) by (simp add: hd(2) map_replicate_const cong: map_cong)
    also have "\<dots> = statusesAt (length rows) 0"
      by (rule nth_equalityI) (auto simp: statusesAt_def hd(2) nth_Cons' simp del: upt_Suc)
    finally show ?thesis .
  qed
  moreover have "map sr_stepId (updateStepRunStatus tenant (wf_now s) (sr_stepRunId row) ''running'' rows) = map ws_stepId ?steps"
    using rows(1) by (simp add: updateStepRunStatus_def map_updateWhere)
  moreover have "length (updateStepRunStatus tenant (wf_now s) (sr_stepRunId row) ''running'' rows) = length rows"
    by (simp add: updateStepRunStatus_def)
  moreover have "sr_stepRunId (updateStepRunStatus tenant (wf_now s) (sr_stepRunId row) ''running'' rows ! 0) = sr_stepRunId row"
    by (simp add: hd(2) updateStepRunStatus_def updateWhere_def)
  moreover have "pendingOf ?s4 runId = [wf_nextId s2 + 1]"
  proof -
    have owner: "map_option sr_workflowRunId (stepRunOf ?s4 i) = map_option sr_workflowRunId (stepRunOf ?s3 i)" for i
    proof -
      have "wf_stepRuns ?s4 = updateStepRunStatus tenant (wf_now ?s3) (sr_stepRunId row) ''running'' (wf_stepRuns ?s3)" using s4(2) by simp
      then show ?thesis unfolding stepRunOf_def by (simp only: owner_updates)
    qed
    have "\<not> dispatchOf ?s4 runId c" if c: "(k, c) \<in> set (wf_pending s)" for k c
    proof
      assume "dispatchOf ?s4 runId c"
      then obtain i where i: "c = StepDispatch i" "map_option sr_workflowRunId (stepRunOf ?s3 i) = Some runId"
        unfolding dispatchOf_def owner by (cases c) auto
      have "\<forall>kc \<in> set (wf_pending s). \<forall>n \<ge> ?n. snd kc \<noteq> StepDispatch (''wf_step_run_'' @ nat_str n)"
        using assms(2) by (simp add: freshIds_def case_prod_beta)
      then have pend: "i \<noteq> ''wf_step_run_'' @ nat_str n" if "?n \<le> n" for n using c i(1) that by force
      show False
      proof (cases "stepRunOf s i")
        case None
        then have "i \<in> sr_stepRunId ` set rows" using i(2) unfolding nr(3) by (simp split: if_splits)
        then have "i \<in> (\<lambda>j. ''wf_step_run_'' @ nat_str j) ` {?n + 1 ..< ?n + 1 + length ?steps}"
          using arg_cong [OF rows(2), of set] by (simp only: list.set_map set_upt)
        then obtain j where "i = ''wf_step_run_'' @ nat_str j" "j \<in> {?n + 1 ..< ?n + 1 + length ?steps}" by (rule imageE)
        then show False using pend [of j] by simp
      next
        case (Some r)
        then have "r \<in> set (wf_stepRuns s)" "sr_workflowRunId r = runId"
          using i(2) unfolding nr(3) by (auto simp: stepRunOf_def getStepRunById_def firstRow_eq_find dest: find_Some_in)
        then show False using assms(2) unfolding runId_def freshIds_def by blast
      qed
    qed
    then have "filter (dispatchOf ?s4 runId \<circ> snd) (wf_pending s) = []" by (auto simp: filter_empty_conv)
    moreover have "dispatchOf ?s4 runId (StepDispatch (sr_stepRunId row))" using row by (simp add: dispatchOf_def owner)
    ultimately show ?thesis by (simp add: pendingOf_def s4 s2(2,5))
  qed
  moreover have "mapGet (wf_pending ?s4) (wf_nextId s2 + 1) = Some (StepDispatch (sr_stepRunId row))"
  proof -
    have "wf_nextId s2 + 1 \<notin> fst ` set (wf_pending s)" using freshIds_pending [OF assms(2), of "wf_nextId s2 + 1"] by (simp add: s2)
    then show ?thesis by (simp add: s4 s2 map_add_def map_of_eq_None_iff [THEN iffD2] split: option.split)
  qed
  moreover have "updateStepRunStatus tenant (wf_now s) (sr_stepRunId row) ''running'' rows \<noteq> []"
    by (simp add: hd(2) updateStepRunStatus_def updateWhere_def)
  ultimately show ?thesis unfolding eq runId_def [symmetric] by (simp add: underWay_def Let_def hd(2))
qed

section \<open>Runs that complete\<close>

text \<open>The dispatches of a run are answered with success, one after the other.\<close>

primrec answerAll :: "wf_env \<Rightarrow> string \<Rightarrow> json option list \<Rightarrow> wfstate \<Rightarrow> wfstate" where
  "answerAll env runId [] s = s"
| "answerAll env runId (out # outs) s = answerAll env runId outs (case pendingOf s runId of
     [] \<Rightarrow> s | key # _ \<Rightarrow> wf_step env (Settle key (Resolved True out None)) s)"

lemma underWay_pending: "underWay s runId d k \<Longrightarrow> \<exists>key. pendingOf s runId = [key]"
  by (auto simp: underWay_def Let_def)

lemma underWay_answers:
  assumes "linear d" "env_dispatcher env" "0 < env_stack env"
  shows "underWay s runId d k \<Longrightarrow> k + length outs < length (df_steps d) \<Longrightarrow> underWay (answerAll env runId outs s) runId d (k + length outs)"
proof (induction outs arbitrary: s k)
  case (Cons out outs)
  obtain key where key: "pendingOf s runId = [key]" using underWay_pending [OF Cons.prems(1)] by blast
  show ?case
    using Cons.IH [OF settle_next [OF Cons.prems(1) assms(1) key _ assms(2,3)]] Cons.prems(2) by (simp add: key del: wf_step.simps)
qed simp

lemma underWay_completes:
  assumes "linear d" "env_dispatcher env" "0 < env_stack env" "underWay s runId d k" "k + length outs = length (df_steps d)"
  shows "let s' = answerAll env runId outs s in map_option wr_status (runOf s' runId) = Some ''completed'' \<and>
    map sr_stepId (stepRunsOf s' runId) = map ws_stepId (df_steps d) \<and>
    map sr_status (stepRunsOf s' runId) = replicate (length (df_steps d)) ''completed'' \<and> pendingOf s' runId = []"
proof -
  have "k < length (df_steps d)" using assms(4) by (auto simp: underWay_def Let_def) (metis length_map)
  then obtain outs' out where outs: "outs = outs' @ [out]" using assms(5) by (cases outs rule: rev_cases) auto
  have app: "answerAll env runId (xs @ ys) t = answerAll env runId ys (answerAll env runId xs t)" for xs ys t
    by (induction xs arbitrary: t) (simp_all del: wf_step.simps)
  let ?s = "answerAll env runId outs' s"
  have u: "underWay ?s runId d (k + length outs')" using underWay_answers [OF assms(1-4), of outs'] assms(5) outs by simp
  obtain key where key: "pendingOf ?s runId = [key]" using underWay_pending [OF u] by blast
  show ?thesis
    using settle_last [OF u assms(1) key, of env out None] assms(5) outs by (simp add: app key del: wf_step.simps)
qed

text \<open>C9: A run of a chain of dispatched steps completes, and in order: in whatever consistent state of the engine it
  is started, as long as its dispatches are answered with success there is exactly one of them under way, the
  steps answered so far are completed, the next one is running and the others wait; after the last answer the
  run and all its steps are completed and nothing of it is left under way.\<close>

theorem chain_runs_in_order_and_completes:
  assumes "wfInv s" "freshIds s" "defOf s (ri_definitionId input) = Some d" "df_status d = Published" "linear d"
    and "env_dispatcher env" "0 < env_stack env"
  shows "let runId = ''wf_run_'' @ nat_str (wf_nextId s); n = length (df_steps d);
      s' = answerAll env runId outs (wf_step env (StartRun input) s) in
    (length outs < n \<longrightarrow> length (pendingOf s' runId) = 1 \<and> map_option wr_status (runOf s' runId) = Some ''running'' \<and>
       map sr_status (stepRunsOf s' runId) = map (\<lambda>j. if j < length outs then ''completed'' else if j = length outs then ''running'' else ''queued'') [0..<n]) \<and>
    (length outs = n \<longrightarrow> pendingOf s' runId = [] \<and> map_option wr_status (runOf s' runId) = Some ''completed'' \<and>
       map sr_status (stepRunsOf s' runId) = replicate n ''completed'')"
proof -
  note start = start_under_way [OF assms]
  note goesOn = underWay_answers [OF assms(5-7) start, of outs] and ends = underWay_completes [OF assms(5-7) start, of outs]
  show ?thesis
    unfolding Let_def
  proof (intro conjI impI)
    let ?s = "answerAll env (''wf_run_'' @ nat_str (wf_nextId s)) outs (wf_step env (StartRun input) s)" and ?r = "''wf_run_'' @ nat_str (wf_nextId s)"
    assume "length outs < length (df_steps d)"
    then have u: "underWay ?s ?r d (length outs)" using goesOn by simp
    then have len: "length (stepRunsOf ?s ?r) = length (df_steps d)" unfolding underWay_def Let_def by (metis length_map)
    show "length (pendingOf ?s ?r) = 1" using underWay_pending [OF u] by auto
    show "map_option wr_status (runOf ?s ?r) = Some ''running''" using u by (auto simp: underWay_def Let_def simp del: wf_step.simps)
    have "map sr_status (stepRunsOf ?s ?r) = statusesAt (length (stepRunsOf ?s ?r)) (length outs)" using u unfolding underWay_def Let_def by blast
    then show "map sr_status (stepRunsOf ?s ?r) =
        map (\<lambda>j. if j < length outs then ''completed'' else if j = length outs then ''running'' else ''queued'') [0..<length (df_steps d)]"
      unfolding len statusesAt_def .
  qed (use ends in \<open>simp_all add: Let_def del: wf_step.simps\<close>)
qed

section \<open>From a plan to its completed run\<close>

lemma published_state:
  assumes "draftIssues steps = []" "s = fold (wf_step env) [CreateDraft name descr steps owner, PublishDraft ''wf_draft_0''] initialState"
  shows "\<exists>d. defOf s ''wf_def_1'' = Some d \<and> df_status d = Published \<and> df_steps d = steps" "freshIds s" "wfInv s" "wf_nextId s = 2"
proof -
  have facts: "defOf s ''wf_def_1'' = Some \<lparr>df_workflowId = ''wf_def_1'', df_name = name, df_description = descr, df_version = 1,
      df_steps = steps, df_ownerUserId = owner, df_status = Published, df_publishedFromDraftId = Some ''wf_draft_0'',
      df_createdAt = 0, df_updatedAt = 0, df_tenantId = tenant\<rparr>"
    "wf_nextId s = 2" "wf_runs s = []" "wf_stepRuns s = []" "wf_actions s = []" "wf_pending s = []"
    by (simp_all add: assms initialState_def createDraft_def wf_run draftCreate_def insertRow_def publishDraft_def validateDraft_def
        getDraftById_def firstRow_eq_find updateDraft_def noUpdates_def nullish_def nullish_opt_def updateRow_def
        clearValidationIssues_def Let_def getNextVersionNumber_def createDefinition_def defOf_def getDefinitionById_def ofDefinition_def
        nat_str_digits)
  show "\<exists>d. defOf s ''wf_def_1'' = Some d \<and> df_status d = Published \<and> df_steps d = steps" by (simp add: facts)
  show "freshIds s" by (simp add: freshIds_def facts)
  show "wf_nextId s = 2" by (simp add: facts)
  have "wfInv initialState" by (simp add: wfInv_def definitionsOk_def initialState_def)
  then show "wfInv s"
    unfolding assms(2) using integrity.events_respect [of initialState env] by blast
qed

theorem chain_runs_in_order_and_completes_witness:
  "\<exists>s'. map_option wr_status (runOf s' ''wf_run_2'') = Some ''completed'' \<and> pendingOf s' ''wf_run_2'' = [] \<and>
     s' = answerAll demoEnv ''wf_run_2'' [None] (wf_step demoEnv (StartRun demoRunInput)
       (fold (wf_step demoEnv) [CreateDraft ''n'' None [demoStep] ''u'', PublishDraft ''wf_draft_0''] initialState))"
proof -
  define s where "s = fold (wf_step demoEnv) [CreateDraft ''n'' None [demoStep] ''u'', PublishDraft ''wf_draft_0''] initialState"
  have "draftIssues [demoStep] = []" by code_simp
  note p = published_state [OF this s_def]
  obtain d where d: "defOf s ''wf_def_1'' = Some d" "df_status d = Published" "df_steps d = [demoStep]" using p(1) by blast
  have "linear d" by (simp add: linear_def d(3) chained_def dispatched_def demoStep_def)
  then show ?thesis
    using chain_runs_in_order_and_completes [of s demoRunInput d demoEnv "[None]"] p(2-4) d nat_str_digits
    unfolding s_def [symmetric] by (simp add: demoRunInput_def demoEnv_def Let_def del: wf_step.simps)
qed

end
