(* ===== verification/File_Patches.thy ===== *)
theory File_Patches
  imports Workdir_Paths
begin

text \<open>
  The patch language of the file tools (\<open>tools/builtins/patch-parser.ts\<close>): the parser of patch texts, the checks
  of the operations of a patch, and the replacement the patch tool applies to a file, which is JavaScript's
  \<open>String.prototype.replace\<close> with its replacement patterns. The parser walks over the lines with an index; here
  it is given the lines that are left and the index they start at.
\<close>

section \<open>Operations\<close>

record FilePatchOperation =
  fp_type :: string
  fp_filePath :: string
  fp_content :: "string option"
  fp_oldString :: "string option"
  fp_newString :: "string option"
  fp_expectedHash :: "string option"

record ParsedPatch =
  pp_operations :: "FilePatchOperation list"
  pp_warnings :: "string list"

abbreviation newline :: char where
  "newline \<equiv> CHR 0x0A"

definition quoted :: "string \<Rightarrow> string" where
  "quoted s = [CHR 0x22] @ s @ [CHR 0x22]"

definition atLine :: "nat \<Rightarrow> string" where
  "atLine i = ''Line '' @ nat_str i @ '': ''"

definition addOp :: "string \<Rightarrow> string \<Rightarrow> FilePatchOperation" where
  "addOp p content = \<lparr>fp_type = ''add'', fp_filePath = p, fp_content = Some content, fp_oldString = None, fp_newString = None,
     fp_expectedHash = None\<rparr>"

definition updateOp :: "string \<Rightarrow> string \<Rightarrow> string \<Rightarrow> FilePatchOperation" where
  "updateOp p old new = \<lparr>fp_type = ''update'', fp_filePath = p, fp_content = None, fp_oldString = Some old, fp_newString = Some new,
     fp_expectedHash = None\<rparr>"

definition deleteOp :: "string \<Rightarrow> FilePatchOperation" where
  "deleteOp p = \<lparr>fp_type = ''delete'', fp_filePath = p, fp_content = None, fp_oldString = None, fp_newString = None,
     fp_expectedHash = None\<rparr>"

section \<open>The parser\<close>

definition plusLine :: "string \<Rightarrow> bool" where
  "plusLine l = startsWith l ''+''"

definition minusLine :: "string \<Rightarrow> bool" where
  "minusLine l = startsWith l ''-''"

definition changeLine :: "string \<Rightarrow> bool" where
  "changeLine l = (minusLine l \<or> plusLine l)"

text \<open>
  One operation: what is left of the lines, the index of their first, the operation and the warnings. The branch
  for an empty path is the source's; a trimmed line that starts with a prefix ending in a space never takes it.
\<close>

definition parseAdd :: "nat \<Rightarrow> string \<Rightarrow> string list \<Rightarrow> string + (string list \<times> nat \<times> FilePatchOperation \<times> string list)" where
  "parseAdd i line ls = (let filePath = trim (drop (length ''*** Add File: '') line) in
     if filePath = [] then Inl (atLine (i + 1) @ ''Add File missing file path'')
     else (let contentLines = takeWhile plusLine ls; i' = i + 1 + length contentLines in
       if contentLines = [] then Inl (atLine i' @ ''Add File '' @ quoted filePath @ '' has no content lines (must start with +)'')
       else Inr (dropWhile plusLine ls, i', addOp filePath (joinWith [newline] (map tl contentLines)), [])))"

definition parseUpdate :: "nat \<Rightarrow> string \<Rightarrow> string list \<Rightarrow> string + (string list \<times> nat \<times> FilePatchOperation \<times> string list)" where
  "parseUpdate i line ls = (let filePath = trim (drop (length ''*** Update File: '') line) in
     if filePath = [] then Inl (atLine (i + 1) @ ''Update File missing file path'')
     else (case ls of
         [] \<Rightarrow> Inl (atLine (i + 2) @ ''Update File '' @ quoted filePath @ '' missing @@ marker'')
       | marker # rest \<Rightarrow>
         if trim marker \<noteq> ''@@'' then Inl (atLine (i + 2) @ ''Update File '' @ quoted filePath @ '' missing @@ marker'')
         else (let block = takeWhile changeLine rest; i' = i + 2 + length block;
                   oldLines = map tl (filter minusLine block); newLines = map tl (filter plusLine block) in
           if oldLines = [] then Inl (atLine i' @ ''Update File '' @ quoted filePath @ '' has no old content lines (must start with -)'')
           else if newLines = [] then Inl (atLine i' @ ''Update File '' @ quoted filePath @ '' has no new content lines (must start with +)'')
           else Inr (dropWhile changeLine rest, i', updateOp filePath (joinWith [newline] oldLines) (joinWith [newline] newLines), []))))"

definition parseDelete :: "nat \<Rightarrow> string \<Rightarrow> string list \<Rightarrow> string + (string list \<times> nat \<times> FilePatchOperation \<times> string list)" where
  "parseDelete i line ls = (let filePath = trim (drop (length ''*** Delete File: '') line) in
     if filePath = [] then Inl (atLine (i + 1) @ ''Delete File missing file path'')
     else Inr (ls, i + 1, deleteOp filePath,
       (case ls of l # _ \<Rightarrow> if changeLine l then [''Delete File '' @ quoted filePath @ '' has unexpected content lines - ignoring''] else []
        | [] \<Rightarrow> [])))"

definition parseStep :: "nat \<Rightarrow> string \<Rightarrow> string list \<Rightarrow> string + (string list \<times> nat \<times> FilePatchOperation option \<times> string list)" where
  "parseStep i l ls = (let line = trim l; op = map_sum id (\<lambda>(ls', i', x, ws). (ls', i', Some x, ws)) in
     if line = [] then Inr (ls, i + 1, None, [])
     else if startsWith line ''*** Add File: '' then op (parseAdd i line ls)
     else if startsWith line ''*** Update File: '' then op (parseUpdate i line ls)
     else if startsWith line ''*** Delete File: '' then op (parseDelete i line ls)
     else Inr (ls, i + 1, None, [atLine (i + 1) @ ''Unknown line '' @ quoted line @ '' - skipping'']))"

lemma parseStep_shrinks: "parseStep i l ls = Inr (ls', r) \<Longrightarrow> length ls' \<le> length ls"
  by (auto simp: parseStep_def parseAdd_def parseUpdate_def parseDelete_def Let_def split: if_splits list.splits
      intro: le_SucI length_dropWhile_le)

function parseLoop :: "nat \<Rightarrow> string list \<Rightarrow> ParsedPatch \<Rightarrow> string + ParsedPatch" where
  "parseLoop i [] p = Inr p"
| "parseLoop i (l # ls) p =
     (if trim l = ''*** End Patch'' then Inr p
      else case parseStep i l ls of
        Inl e \<Rightarrow> Inl e
      | Inr (ls', i', x, ws) \<Rightarrow> parseLoop i' ls'
          (p\<lparr>pp_operations := pp_operations p @ (case x of None \<Rightarrow> [] | Some op \<Rightarrow> [op]), pp_warnings := pp_warnings p @ ws\<rparr>))"
  by pat_completeness auto

termination
  by (relation "measure (\<lambda>(i, ls, p). length ls)") (auto dest: parseStep_shrinks)

definition parsePatchText :: "string \<Rightarrow> string + ParsedPatch" where
  "parsePatchText patch = (let lines = splitOn newline patch in
     if trim (hd lines) \<noteq> ''*** Begin Patch'' then Inl (''Patch must start with '' @ quoted ''*** Begin Patch'')
     else if trim (hd (filter (\<lambda>l. trim l \<noteq> []) (rev lines))) \<noteq> ''*** End Patch''
       then Inl (''Patch must end with '' @ quoted ''*** End Patch'')
     else parseLoop 1 (tl lines) \<lparr>pp_operations = [], pp_warnings = []\<rparr>)"

section \<open>Checking the operations\<close>

record PatchValidationError =
  ve_index :: nat
  ve_code :: string
  ve_message :: string

definition operationErrors :: "nat \<Rightarrow> FilePatchOperation \<Rightarrow> PatchValidationError list" where
  "operationErrors i op = (let name = quoted (fp_filePath op);
       err = (\<lambda>code m. [\<lparr>ve_index = i, ve_code = code, ve_message = m\<rparr>]);
       field = (\<lambda>v kind what. if truthy v then err ''INVALID_FIELD'' (kind @ '' operation for '' @ name @ '' should not have '' @ what) else []) in
     if fp_type op = ''add'' then
       (if fp_content op = None then err ''MISSING_CONTENT'' (''Add operation for '' @ name @ '' missing content field'') else []) @
       field (fp_oldString op) ''Add'' ''oldString'' @ field (fp_newString op) ''Add'' ''newString''
     else if fp_type op = ''update'' then
       (if fp_oldString op = None then err ''MISSING_OLD_STRING'' (''Update operation for '' @ name @ '' missing oldString field'') else []) @
       (if fp_newString op = None then err ''MISSING_NEW_STRING'' (''Update operation for '' @ name @ '' missing newString field'') else []) @
       field (fp_content op) ''Update'' ''content''
     else if fp_type op = ''delete'' then
       field (fp_content op) ''Delete'' ''content'' @ field (fp_oldString op) ''Delete'' ''oldString'' @
       field (fp_newString op) ''Delete'' ''newString''
     else err ''INVALID_TYPE'' (''Unknown operation type: '' @ fp_type op))"

definition validateOperations :: "FilePatchOperation list \<Rightarrow> PatchValidationError list" where
  "validateOperations ops = concat (map (\<lambda>(i, op). operationErrors i op) (enumerate 0 ops))"

section \<open>Replacement\<close>

text \<open>
  \<open>s.replace(old, new)\<close> with a string pattern: the first occurrence is replaced by \<open>new\<close>, in which two dollar
  signs stand for one, a dollar sign before an ampersand, a backquote or a quote for the match, the part before
  it and the part after it; there are no groups, so every other dollar sign stands for itself.
\<close>

fun expandReplacement :: "string \<Rightarrow> string \<Rightarrow> string \<Rightarrow> string \<Rightarrow> string" where
  "expandReplacement before match after (c # d # cs) =
     (if c = CHR ''$'' then
        (if d = CHR ''$'' then CHR ''$'' # expandReplacement before match after cs
         else if d = CHR ''&'' then match @ expandReplacement before match after cs
         else if d = CHR 0x60 then before @ expandReplacement before match after cs
         else if d = CHR 0x27 then after @ expandReplacement before match after cs
         else c # expandReplacement before match after (d # cs))
      else c # expandReplacement before match after (d # cs))"
| "expandReplacement before match after cs = cs"

definition replaceString :: "string \<Rightarrow> string \<Rightarrow> string \<Rightarrow> string" where
  "replaceString s old new = (case indexOf s old of None \<Rightarrow> s
     | Some i \<Rightarrow> take i s @ expandReplacement (take i s) old (drop (i + length old) s) new @ drop (i + length old) s)"

section \<open>What the parser reads is what was printed\<close>

text \<open>The documented format of an operation and of a patch.\<close>

definition printOp :: "FilePatchOperation \<Rightarrow> string list" where
  "printOp op =
     (if fp_type op = ''add'' then (''*** Add File: '' @ fp_filePath op) # map ((#) CHR ''+'') (splitOn newline (the (fp_content op)))
      else if fp_type op = ''update'' then [''*** Update File: '' @ fp_filePath op, ''@@''] @
        map ((#) CHR ''-'') (splitOn newline (the (fp_oldString op))) @ map ((#) CHR ''+'') (splitOn newline (the (fp_newString op)))
      else [''*** Delete File: '' @ fp_filePath op])"

definition printPatch :: "FilePatchOperation list \<Rightarrow> string" where
  "printPatch ops = joinWith [newline] ([''*** Begin Patch''] @ concat (map printOp ops) @ [''*** End Patch''])"

definition cleanPath :: "string \<Rightarrow> bool" where
  "cleanPath p = (p \<noteq> [] \<and> trim p = p \<and> newline \<notin> set p)"

definition patchOp :: "FilePatchOperation \<Rightarrow> bool" where
  "patchOp op = (cleanPath (fp_filePath op) \<and> op \<in> {addOp (fp_filePath op) (the (fp_content op)),
     updateOp (fp_filePath op) (the (fp_oldString op)) (the (fp_newString op)), deleteOp (fp_filePath op)})"

lemma joinWith_splitOn: "joinWith [d] (splitOn d s) = s"
proof (induction s)
  case (Cons c s)
  obtain w ws where w: "splitOn d s = w # ws" by (cases "splitOn d s") auto
  show ?case
  proof (cases "c = d")
    case True
    then show ?thesis using Cons w by simp
  next
    case False
    then show ?thesis using Cons w by (cases ws) auto
  qed
qed simp

lemma trim_last:
  assumes "trim p = p" "p \<noteq> []"
  shows "\<not> is_space (last p)"
proof -
  have q: "rev p = dropWhile is_space (rev (dropWhile is_space p))" using arg_cong [OF assms(1), of rev] by (simp add: trim_def)
  then have "dropWhile is_space (rev (dropWhile is_space p)) \<noteq> []" using assms(2) by (metis rev_is_Nil_conv)
  from hd_dropWhile [OF this] show ?thesis using q by (metis hd_rev)
qed

lemma trim_id:
  assumes "s \<noteq> []" "\<not> is_space (hd s)" "\<not> is_space (last s)"
  shows "trim s = s"
proof -
  have "dropWhile is_space s = s" using assms(1,2) by (cases s) auto
  moreover have "dropWhile is_space (rev s) = rev s" using assms(1,3) by (cases s rule: rev_cases) auto
  ultimately show ?thesis by (simp add: trim_def)
qed

lemma trim_header: "cleanPath p \<Longrightarrow> h \<noteq> [] \<Longrightarrow> \<not> is_space (hd h) \<Longrightarrow> trim (h @ p) = h @ p"
  by (intro trim_id) (auto simp: cleanPath_def trim_last)

lemma block_then_rest:
  assumes "\<forall>l \<in> set block. P l" "rest \<noteq> []" "\<not> P (hd rest)"
  shows "takeWhile P (block @ rest) = block" and "dropWhile P (block @ rest) = rest"
  using assms by (cases rest; auto simp: takeWhile_append2 dropWhile_append2)+

lemma change_lines:
  "\<forall>l \<in> set (map ((#) CHR ''+'') ls). plusLine l \<and> changeLine l \<and> \<not> minusLine l"
  "\<forall>l \<in> set (map ((#) CHR ''-'') ls). minusLine l \<and> changeLine l \<and> \<not> plusLine l"
  by (auto simp: plusLine_def minusLine_def changeLine_def)

lemma parseStep_printed:
  assumes "patchOp op" "rest \<noteq> []" "\<not> changeLine (hd rest)" "printOp op = l # ls"
  shows "trim l = l" "l \<noteq> ''*** End Patch''" "parseStep i l (ls @ rest) = Inr (rest, i + length (printOp op), Some op, [])"
proof -
  obtain q where path: "cleanPath q" "q \<noteq> []" "trim q = q" and q: "q = fp_filePath op"
    using assms(1) by (auto simp: patchOp_def cleanPath_def)
  have notPlus: "\<not> plusLine (hd rest)" using assms(3) by (simp add: changeLine_def)
  consider (add) c where "op = addOp q c" | (update) old new where "op = updateOp q old new" | (delete) "op = deleteOp q"
    using assms(1) unfolding patchOp_def q [symmetric] by blast
  then have "trim l = l \<and> l \<noteq> ''*** End Patch'' \<and> parseStep i l (ls @ rest) = Inr (rest, i + length (printOp op), Some op, [])"
  proof cases
    case add
    have l: "l = ''*** Add File: '' @ q" "ls = map ((#) CHR ''+'') (splitOn newline c)"
      using assms(4) add by (simp_all add: printOp_def addOp_def)
    have t: "trim l = l" unfolding l by (rule trim_header [OF path(1)]) (simp_all add: is_space_def)
    note tw = block_then_rest [of ls plusLine rest]
    have "\<forall>x \<in> set ls. plusLine x" using change_lines(1) l(2) by blast
    then have "takeWhile plusLine (ls @ rest) = ls" "dropWhile plusLine (ls @ rest) = rest" using tw assms(2) notPlus by blast+
    moreover have "map tl ls = splitOn newline c" by (simp add: l(2) comp_def)
    ultimately have "parseAdd i l (ls @ rest) = Inr (rest, i + 1 + length ls, op, [])"
      using path add joinWith_splitOn by (simp add: parseAdd_def l(1) Let_def) (auto simp: l(2))
    then show ?thesis using t assms(4) by (simp add: parseStep_def Let_def l(1))
  next
    case update
    define olds where "olds = map ((#) CHR ''-'') (splitOn newline old)"
    define news where "news = map ((#) CHR ''+'') (splitOn newline new)"
    have l: "l = ''*** Update File: '' @ q" "ls = ''@@'' # olds @ news"
      using assms(4) update by (simp_all add: printOp_def updateOp_def olds_def news_def)
    have t: "trim l = l" unfolding l by (rule trim_header [OF path(1)]) (simp_all add: is_space_def)
    have "\<forall>x \<in> set (olds @ news). changeLine x" using change_lines by (auto simp: olds_def news_def)
    then have "takeWhile changeLine (olds @ news @ rest) = olds @ news" "dropWhile changeLine (olds @ news @ rest) = rest"
      using block_then_rest [of "olds @ news" changeLine rest] assms(2,3) by simp_all
    moreover have "filter minusLine (olds @ news) = olds" "filter plusLine (olds @ news) = news"
      using change_lines by (auto simp: olds_def news_def filter_empty_conv filter_id_conv plusLine_def minusLine_def)
    moreover have "map tl olds = splitOn newline old" "map tl news = splitOn newline new" by (simp_all add: olds_def news_def comp_def)
    moreover have "olds \<noteq> []" "news \<noteq> []" by (simp_all add: olds_def news_def)
    moreover have "trim ''@@'' = ''@@''" by code_simp
    ultimately have "parseUpdate i l (ls @ rest) = Inr (rest, i + 1 + length ls, op, [])"
      using path update joinWith_splitOn by (simp add: parseUpdate_def l Let_def del: filter_append)
    then show ?thesis using t assms(4) by (simp add: parseStep_def Let_def l(1))
  next
    case delete
    have l: "l = ''*** Delete File: '' @ q" "ls = []"
      using assms(4) delete by (simp_all add: printOp_def deleteOp_def)
    have t: "trim l = l" unfolding l by (rule trim_header [OF path(1)]) (simp_all add: is_space_def)
    have "parseDelete i l rest = Inr (rest, i + 1, op, [])"
      using path delete assms(2,3) by (cases rest) (simp_all add: parseDelete_def l(1) Let_def)
    then show ?thesis using t assms(4) by (simp add: parseStep_def Let_def l)
  qed
  then show "trim l = l" "l \<noteq> ''*** End Patch''" "parseStep i l (ls @ rest) = Inr (rest, i + length (printOp op), Some op, [])" by blast+
qed

lemma printOp_lines_free:
  assumes "patchOp op" "l \<in> set (printOp op)"
  shows "newline \<notin> set l"
proof -
  have free: "newline \<notin> set w" if "w \<in> set (splitOn newline s)" for w s using splitOn_parts_free that by blast
  have path: "newline \<notin> set (fp_filePath op)" using assms(1) by (simp add: patchOp_def cleanPath_def)
  show ?thesis using assms(2) path free by (auto simp: printOp_def split: if_splits)
qed

lemma printOp_Cons: "\<exists>l ls. printOp op = l # ls \<and> \<not> changeLine l"
  by (simp add: printOp_def changeLine_def minusLine_def plusLine_def)

lemma printed_rest: "concat (map printOp ops) @ [''*** End Patch''] \<noteq> []"
  "\<not> changeLine (hd (concat (map printOp ops) @ [''*** End Patch'']))"
proof -
  show "\<not> changeLine (hd (concat (map printOp ops) @ [''*** End Patch'']))"
  proof (cases ops)
    case Nil
    then show ?thesis by (simp add: changeLine_def minusLine_def plusLine_def)
  next
    case (Cons op ops')
    then show ?thesis using printOp_Cons [of op] by auto
  qed
qed simp

lemma trim_markers [simp]: "trim ''*** End Patch'' = ''*** End Patch''" "trim ''*** Begin Patch'' = ''*** Begin Patch''"
  by code_simp+

lemma parseLoop_printed:
  "\<forall>op \<in> set ops. patchOp op \<Longrightarrow>
   parseLoop i (concat (map printOp ops) @ [''*** End Patch'']) p = Inr (p\<lparr>pp_operations := pp_operations p @ ops\<rparr>)"
proof (induction ops arbitrary: i p)
  case (Cons op ops)
  define rest where "rest = concat (map printOp ops) @ [''*** End Patch'']"
  obtain l ls where l: "printOp op = l # ls" using printOp_Cons by blast
  have op: "patchOp op" using Cons.prems by simp
  have rest: "rest \<noteq> []" "\<not> changeLine (hd rest)" unfolding rest_def by (rule printed_rest)+
  note st = parseStep_printed [OF op rest l]
  have "parseLoop i (l # ls @ rest) p = parseLoop (i + length (printOp op)) rest (p\<lparr>pp_operations := pp_operations p @ [op]\<rparr>)"
    using st by simp
  also have "\<dots> = Inr (p\<lparr>pp_operations := pp_operations p @ op # ops\<rparr>)"
    unfolding rest_def using Cons.IH Cons.prems by simp
  finally show ?case by (simp add: l rest_def)
qed simp

text \<open>
  C38: What is printed in the documented patch format (every operation an addition, an update or a deletion with a
  trimmed path on one line, contents arbitrary) is read back by the parser as exactly those operations, in order
  and without warnings, for any contents, several lines or empty.
\<close>
theorem patch_text_roundtrip:
  assumes "\<forall>op \<in> set ops. patchOp op"
  shows "parsePatchText (printPatch ops) = Inr \<lparr>pp_operations = ops, pp_warnings = []\<rparr>"
proof -
  define ls where "ls = ''*** Begin Patch'' # concat (map printOp ops) @ [''*** End Patch'']"
  have "\<forall>l \<in> set ls. newline \<notin> set l" using assms printOp_lines_free by (auto simp: ls_def)
  then have "splitOn newline (printPatch ops) = ls" using splitOn_joinWith [of ls newline] by (simp add: printPatch_def ls_def)
  then show ?thesis using parseLoop_printed [OF assms, of 1] by (simp add: parsePatchText_def Let_def ls_def)
qed

theorem patch_text_roundtrip_witness:
  "let ops = [addOp ''src/a.ts'' ''x'', updateOp ''b.ts'' ''p'' [CHR ''q'', newline, newline], deleteOp ''c d.ts''] in
   parsePatchText (printPatch ops) = Inr \<lparr>pp_operations = ops, pp_warnings = []\<rparr>"
proof -
  have "\<forall>op \<in> set [addOp ''src/a.ts'' ''x'', updateOp ''b.ts'' ''p'' [CHR ''q'', newline, newline], deleteOp ''c d.ts'']. patchOp op"
    unfolding patchOp_def cleanPath_def by code_simp
  from patch_text_roundtrip [OF this] show ?thesis by simp
qed

section \<open>What the parser accepts\<close>

lemma takeWhile_Nil_hd: "takeWhile P xs \<noteq> [] \<Longrightarrow> P (hd (takeWhile P xs))"
  by (cases xs) auto

definition parsedOp :: "FilePatchOperation \<Rightarrow> bool" where
  "parsedOp op = (fp_filePath op \<noteq> [] \<and> trim (fp_filePath op) = fp_filePath op \<and> fp_expectedHash op = None \<and>
     op \<in> {addOp (fp_filePath op) (the (fp_content op)),
       updateOp (fp_filePath op) (the (fp_oldString op)) (the (fp_newString op)), deleteOp (fp_filePath op)})"

lemma trim_ends: "trim s \<noteq> [] \<Longrightarrow> \<not> is_space (hd (trim s)) \<and> \<not> is_space (last (trim s))"
proof -
  assume ne: "trim s \<noteq> []"
  define d where "d = dropWhile is_space s"
  have t: "trim s = rev (dropWhile is_space (rev d))" by (simp add: trim_def d_def)
  then have ne': "dropWhile is_space (rev d) \<noteq> []" using ne by simp
  have last: "\<not> is_space (last (trim s))" using hd_dropWhile [OF ne'] t ne' by (simp add: last_rev)
  obtain ys where "rev d = ys @ dropWhile is_space (rev d)" using takeWhile_dropWhile_id by metis
  then have "d = trim s @ rev ys" using t by (metis rev_append rev_rev_ident)
  then have "hd d = hd (trim s)" "d \<noteq> []" using ne by auto
  then show ?thesis using last hd_dropWhile [of is_space s] by (simp add: d_def)
qed

lemma trim_trim [simp]: "trim (trim s) = trim s"
proof (cases "trim s = []")
  case True
  have "trim [] = []" by (simp add: trim_def)
  with True show ?thesis by simp
next
  case False
  then show ?thesis using trim_ends [of s] trim_id [of "trim s"] by simp
qed

lemma parsedOp_ops [intro]:
  "p \<noteq> [] \<Longrightarrow> trim p = p \<Longrightarrow> parsedOp (addOp p c)"
  "p \<noteq> [] \<Longrightarrow> trim p = p \<Longrightarrow> parsedOp (updateOp p old new)"
  "p \<noteq> [] \<Longrightarrow> trim p = p \<Longrightarrow> parsedOp (deleteOp p)"
  by (simp_all add: parsedOp_def addOp_def updateOp_def deleteOp_def)

lemma parseAdd_parsed: "parseAdd i line ls = Inr (ls', i', op, ws) \<Longrightarrow> parsedOp op"
  unfolding parseAdd_def Let_def by (auto split: if_splits)

lemma parseUpdate_parsed: "parseUpdate i line ls = Inr (ls', i', op, ws) \<Longrightarrow> parsedOp op"
  unfolding parseUpdate_def Let_def by (auto split: if_splits list.splits)

lemma parseDelete_parsed: "parseDelete i line ls = Inr (ls', i', op, ws) \<Longrightarrow> parsedOp op"
  unfolding parseDelete_def Let_def by (auto split: if_splits)

lemma parseStep_parsed:
  assumes "parseStep i l ls = Inr (ls', i', Some op, ws)"
  shows "parsedOp op"
proof -
  have wrapped: "map_sum id (\<lambda>(ls', i', x, ws). (ls', i', Some x, ws)) r = Inr (ls', i', Some op, ws) \<Longrightarrow> r = Inr (ls', i', op, ws)"
    for r :: "string + string list \<times> nat \<times> FilePatchOperation \<times> string list" by (cases r) auto
  have "parseAdd i (trim l) ls = Inr (ls', i', op, ws) \<or> parseUpdate i (trim l) ls = Inr (ls', i', op, ws) \<or>
      parseDelete i (trim l) ls = Inr (ls', i', op, ws)"
    using assms unfolding parseStep_def Let_def by (simp split: if_splits) (drule wrapped, blast)+
  then show ?thesis by (elim disjE) (erule parseAdd_parsed parseUpdate_parsed parseDelete_parsed)+
qed

lemma parseLoop_parsed:
  "parseLoop i ls p = Inr q \<Longrightarrow> \<forall>op \<in> set (pp_operations p). parsedOp op \<Longrightarrow> \<forall>op \<in> set (pp_operations q). parsedOp op"
proof (induction i ls p rule: parseLoop.induct)
  case (2 i l ls p)
  show ?case
  proof (cases "trim l = ''*** End Patch''")
    case False
    have loop: "(case parseStep i l ls of Inl e \<Rightarrow> Inl e
      | Inr (ls', i', x, ws) \<Rightarrow> parseLoop i' ls' (p\<lparr>pp_operations := pp_operations p @ (case x of None \<Rightarrow> [] | Some op \<Rightarrow> [op]),
          pp_warnings := pp_warnings p @ ws\<rparr>)) = Inr q"
      using 2(2) False by (simp only: parseLoop.simps if_False)
    then obtain ls' i' x ws where st: "parseStep i l ls = Inr (ls', i', x, ws)"
      by (cases "parseStep i l ls") auto
    with loop have rest: "parseLoop i' ls' (p\<lparr>pp_operations := pp_operations p @ (case x of None \<Rightarrow> [] | Some op \<Rightarrow> [op]),
        pp_warnings := pp_warnings p @ ws\<rparr>) = Inr q"
      by (simp only: sum.case prod.case)
    have "\<forall>op \<in> set (case x of None \<Rightarrow> [] | Some op \<Rightarrow> [op]). parsedOp op"
      using parseStep_parsed st by (cases x) auto
    then show ?thesis using 2(1) [OF False st refl refl refl rest] 2(3) by auto
  qed (use 2 in simp)
qed simp

lemma operationErrors_ops:
  "operationErrors i (addOp p c) = []" "operationErrors i (updateOp p old new) = []" "operationErrors i (deleteOp p) = []"
  by (simp_all add: operationErrors_def addOp_def updateOp_def deleteOp_def Let_def truthy_def)

text \<open>
  The two stages of the patch tool fit: whatever text the parser accepts, every operation it returns has a
  trimmed, non-empty path, no expected hash, and exactly the fields of its kind, so the check of the operations that
  follows finds nothing to object to, and no operation of a patch text is guarded by a hash.
\<close>
theorem parsed_patch_validates:
  assumes "parsePatchText patch = Inr p"
  shows "validateOperations (pp_operations p) = [] \<and> (\<forall>op \<in> set (pp_operations p). parsedOp op)"
proof -
  have ops: "\<forall>op \<in> set (pp_operations p). parsedOp op"
    using assms parseLoop_parsed by (auto simp: parsePatchText_def Let_def split: if_splits)
  have "operationErrors i op = []" if "parsedOp op" for i op
    using that operationErrors_ops unfolding parsedOp_def by (metis empty_iff insert_iff)
  then have "validateOperations (pp_operations p) = []"
    using ops by (auto simp: validateOperations_def in_set_enumerate_eq dest: nth_mem)
  with ops show ?thesis by blast
qed

theorem parsed_patch_validates_witness:
  "\<exists>p. parsePatchText (printPatch [deleteOp ''a.ts'', addOp ''b.ts'' ''x'']) = Inr p \<and> length (pp_operations p) = 2 \<and>
     validateOperations (pp_operations p) = []"
proof -
  have "parsePatchText (printPatch [deleteOp ''a.ts'', addOp ''b.ts'' ''x'']) =
      Inr \<lparr>pp_operations = [deleteOp ''a.ts'', addOp ''b.ts'' ''x''], pp_warnings = []\<rparr>"
    by code_simp
  from parsed_patch_validates [OF this] this show ?thesis by simp
qed

text \<open>
  A header whose path is missing does not end the parse with the error written for it: trimming takes the blank off
  the prefix, so the line is taken for an unknown one and skipped with a warning.
\<close>
lemma header_without_path_skipped:
  "trim l \<in> {''*** Add File:'', ''*** Update File:'', ''*** Delete File:''} \<Longrightarrow>
   parseStep i l ls = Inr (ls, i + 1, None, [atLine (i + 1) @ ''Unknown line '' @ quoted (trim l) @ '' - skipping''])"
  unfolding parseStep_def Let_def by (elim insertE emptyE) (simp_all del: atLine_def)

section \<open>What a replacement writes\<close>

lemma expandReplacement_plain: "CHR ''$'' \<notin> set new \<Longrightarrow> expandReplacement before match after new = new"
  by (induction before match after new rule: expandReplacement.induct) auto

lemma replaceString_plain:
  assumes "CHR ''$'' \<notin> set new" "indexOf s old = Some i"
  shows "replaceString s old new = take i s @ new @ drop (i + length old) s"
  using assms by (simp add: replaceString_def expandReplacement_plain)

text \<open>A new text that is the match pattern leaves the content as it was; two dollar signs come out as one.\<close>

lemma replaceString_match_pattern: "replaceString s old ''$&'' = s"
proof (cases "indexOf s old")
  case (Some i)
  have "s = take i s @ old @ drop (i + length old) s" using indexOf_Some [OF Some] by blast
  then show ?thesis using Some by (simp add: replaceString_def)
qed (simp add: replaceString_def)

end
