(* ===== verification/File_Tools.thy ===== *)
theory File_Tools
  imports File_Patches
begin

text \<open>
  The tools that write files (\<open>tools/builtins\<close>): the path checks (\<open>safe-file-write.ts\<close>, \<open>safe-paths.ts\<close>), the
  atomic write, and the handlers \<open>file_write\<close> (\<open>file-write.ts\<close>), \<open>file_edit\<close> (\<open>file-edit.ts\<close>) and
  \<open>file_apply_patch\<close> (\<open>file-apply-patch.ts\<close>). The disk is a parameter: a world of an arbitrary type with Node's
  operations on it (\<open>file_env\<close>), each of which may fail in any way and may leave any world behind; the state adds
  the calls that change the disk, in the order they were made. An error is represented by its code, a result by
  its structured data; messages and previews are left out.
\<close>

section \<open>Path safety\<close>

definition basename :: "string \<Rightarrow> string" where
  "basename p = (case filter (\<lambda>s. s \<noteq> []) (splitOn CHR ''/'' p) of [] \<Rightarrow> [] | ss \<Rightarrow> last ss)"

text \<open>\<open>resolve(root, p)\<close>.\<close>

definition resolveFrom :: "string \<Rightarrow> string \<Rightarrow> string \<Rightarrow> string" where
  "resolveFrom cwd root p = resolvePath cwd (if isAbsolute p then p else if root = [] then p else root @ ''/'' @ p)"

text \<open>The regular expressions, in the order of the list; a dot in one does not match a line terminator.\<close>

definition lineEnd :: "char \<Rightarrow> bool" where
  "lineEnd c = (c = CHR 0x0A \<or> c = CHR 0x0D)"

definition SENSITIVE_FILE_PATTERNS :: "(string \<Rightarrow> bool) list" where
  "SENSITIVE_FILE_PATTERNS =
     [\<lambda>s. s = ''.env'', \<lambda>s. startsWith s ''.env.'' \<and> length s > 5 \<and> list_all (\<lambda>c. \<not> lineEnd c) (drop 5 s),
      \<lambda>s. endsWith s ''.pem'', \<lambda>s. endsWith s ''.key'', \<lambda>s. endsWith s ''.p12'', \<lambda>s. endsWith s ''.pfx'',
      \<lambda>s. s = ''id_rsa'', \<lambda>s. s = ''id_ed25519'', \<lambda>s. s = ''id_dsa'', \<lambda>s. s = ''id_ecdsa'',
      \<lambda>s. endsWith s ''.sqlite'', \<lambda>s. endsWith s ''.sqlite3'', \<lambda>s. endsWith s ''.db'',
      \<lambda>s. startsWith s ''data/'' \<and> endsWith (drop 5 s) ''.db'' \<and> list_all (\<lambda>c. \<not> lineEnd c) (drop 5 s)]"

definition BINARY_EXTENSIONS :: "string list" where
  "BINARY_EXTENSIONS =
     [''.exe'', ''.dll'', ''.so'', ''.dylib'', ''.bin'', ''.dat'', ''.png'', ''.jpg'', ''.jpeg'', ''.gif'', ''.bmp'', ''.ico'',
      ''.svg'', ''.webp'', ''.mp3'', ''.mp4'', ''.avi'', ''.mov'', ''.wmv'', ''.flv'', ''.wav'', ''.ogg'', ''.zip'', ''.tar'',
      ''.gz'', ''.7z'', ''.rar'', ''.bz2'', ''.xz'', ''.pdf'', ''.doc'', ''.docx'', ''.xls'', ''.xlsx'', ''.ppt'', ''.pptx'',
      ''.iso'', ''.dmg'', ''.apk'', ''.aab'', ''.jar'', ''.war'']"

definition sensitive :: "string \<Rightarrow> bool" where
  "sensitive rel = list_ex (\<lambda>pattern. pattern rel \<or> pattern (basename rel)) SENSITIVE_FILE_PATTERNS"

definition binaryName :: "string \<Rightarrow> bool" where
  "binaryName rel = (let ext = toLowerCase (last (splitOn CHR ''.'' (basename rel))) in
     ext \<noteq> [] \<and> ''.'' @ ext \<in> set BINARY_EXTENSIONS)"

fun workdirCode :: "WorkdirPathErrorCode \<Rightarrow> string" where
  "workdirCode WORKDIR_PATH_TRAVERSAL = ''WORKDIR_PATH_TRAVERSAL''"
| "workdirCode WORKDIR_ESCAPE = ''WORKDIR_ESCAPE''"
| "workdirCode WORKDIR_INVALID_ID = ''WORKDIR_INVALID_ID''"
| "workdirCode WORKDIR_ID_TOO_LONG = ''WORKDIR_ID_TOO_LONG''"
| "workdirCode WORKDIR_DEPTH_EXCEEDED = ''WORKDIR_DEPTH_EXCEEDED''"
| "workdirCode WORKDIR_SYMLINK_ESCAPE = ''WORKDIR_SYMLINK_ESCAPE''"
| "workdirCode WORKDIR_ROOT_UNRESOLVABLE = ''WORKDIR_ROOT_UNRESOLVABLE''"
| "workdirCode WORKDIR_HARDLINK_BOUNDARY = ''WORKDIR_HARDLINK_BOUNDARY''"

text \<open>
  The result of a check is the canonical and the relative path, or the code of the error (the inner sum);
  \<open>realpathSync\<close> of an absolute path may throw instead (the outer sum). \<open>canonicalTarget\<close> is the resolution step.
\<close>

definition canonicalTarget :: "filesystem \<Rightarrow> string \<Rightarrow> string \<Rightarrow> string option" where
  "canonicalTarget fs filePath root =
     (if isAbsolute filePath then (if fs_exists fs filePath then fs_realpath fs filePath else Some filePath)
      else Some (resolveFrom (fs_cwd fs) root filePath))"

definition checkParent :: "filesystem \<Rightarrow> string \<Rightarrow> string \<Rightarrow> string option" where
  "checkParent fs root canonicalPath = (let parentDir = dirname canonicalPath in
     if \<not> fs_exists fs parentDir then None
     else case fs_realpath fs parentDir of
       None \<Rightarrow> Some ''PATH_UNSAFE''
     | Some parentCanonical \<Rightarrow> if outside (relativePath (fs_cwd fs) root parentCanonical) then Some ''OUTSIDE_WORKSPACE'' else None)"

definition validateWritePathSafety :: "filesystem \<Rightarrow> string \<Rightarrow> string \<Rightarrow> bool \<Rightarrow> bool \<Rightarrow> string + string + (string \<times> string)" where
  "validateWritePathSafety fs filePath root allowNew enforceWorkdirBoundary =
     (if str_includes filePath ''..'' then Inr (Inl ''PATH_ESCAPE'')
      else case canonicalTarget fs filePath root of
        None \<Rightarrow> Inl ''REALPATH_ERROR''
      | Some canonicalPath \<Rightarrow> (let rel = relativePath (fs_cwd fs) root canonicalPath in
          if outside rel then Inr (Inl ''OUTSIDE_WORKSPACE'')
          else case (if enforceWorkdirBoundary then validateWorkdirWritePath fs canonicalPath root else Inr (canonicalPath, rel)) of
            Inl e \<Rightarrow> Inr (Inl (workdirCode e))
          | Inr _ \<Rightarrow>
            if sensitive rel then Inr (Inl ''SENSITIVE_FILE'')
            else if binaryName rel then Inr (Inl ''BINARY_FILE'')
            else case (if \<not> fs_exists fs canonicalPath \<and> allowNew then checkParent fs root canonicalPath else None) of
              Some e \<Rightarrow> Inr (Inl e)
            | None \<Rightarrow> Inr (Inr (canonicalPath, rel))))"

section \<open>The disk\<close>

datatype FsCall = Mkdir string | WriteFile string string | Rename string string | Unlink string

record 'w file_env =
  fe_view :: "'w \<Rightarrow> filesystem"
  fe_readFile :: "'w \<Rightarrow> string \<Rightarrow> string + string"
  fe_size :: "'w \<Rightarrow> string \<Rightarrow> string + nat"
  fe_call :: "FsCall \<Rightarrow> 'w \<Rightarrow> string option \<times> 'w"
  fe_sha256 :: "string \<Rightarrow> string"
  fe_randomId :: "'w \<Rightarrow> string"

record 'w file_state =
  fl_world :: 'w
  fl_log :: "FsCall list"

definition perform :: "'w file_env \<Rightarrow> FsCall \<Rightarrow> 'w file_state \<Rightarrow> string option \<times> 'w file_state" where
  "perform env c s = (case fe_call env c (fl_world s) of (e, w) \<Rightarrow> (e, \<lparr>fl_world = w, fl_log = fl_log s @ [c]\<rparr>))"

definition existsSync :: "'w file_env \<Rightarrow> 'w file_state \<Rightarrow> string \<Rightarrow> bool" where
  "existsSync env s p = fs_exists (fe_view env (fl_world s)) p"

definition byteLength :: "string \<Rightarrow> nat" where
  "byteLength s = sum_list (map (\<lambda>c. if (of_char c :: nat) < 128 then 1 else 2) s)"

definition MAX_FILE_WRITE_BYTES :: nat where "MAX_FILE_WRITE_BYTES = 512 * 1024"
definition MAX_FILE_EDIT_BYTES :: nat where "MAX_FILE_EDIT_BYTES = 512 * 1024"

section \<open>The atomic write\<close>

record WriteTextFileAtomicParams =
  wp_filePath :: string
  wp_content :: string
  wp_root :: string
  wp_expectedHash :: "string option"
  wp_createDirs :: bool
  wp_enforce :: bool

record WriteTextFileAtomicResult =
  wr_filePath :: string
  wr_bytesWritten :: nat
  wr_newHash :: string
  wr_previousHash :: "string option"
  wr_created :: bool

text \<open>Everything before the first change: the target, its relative path and the hash of what it holds, if it exists.\<close>

definition prepareWrite :: "'w file_env \<Rightarrow> WriteTextFileAtomicParams \<Rightarrow> 'w \<Rightarrow> string + (string \<times> string \<times> string option)" where
  "prepareWrite env p w =
     (if str_includes (wp_content p) [CHR 0x00] then Inl ''BINARY_CONTENT''
      else if byteLength (wp_content p) > MAX_FILE_WRITE_BYTES then Inl ''CONTENT_TOO_LARGE''
      else case validateWritePathSafety (fe_view env w) (wp_filePath p) (wp_root p) True (wp_enforce p) of
        Inl e \<Rightarrow> Inl e
      | Inr (Inl code) \<Rightarrow> Inl code
      | Inr (Inr (target, rel)) \<Rightarrow>
          if fs_exists (fe_view env w) target
          then (case fe_readFile env w target of
                  Inl e \<Rightarrow> Inl e
                | Inr existing \<Rightarrow> (let previousHash = fe_sha256 env existing in
                    if wp_expectedHash p \<noteq> None \<and> wp_expectedHash p \<noteq> Some previousHash then Inl ''HASH_MISMATCH''
                    else Inr (target, rel, Some previousHash)))
          else if wp_expectedHash p \<noteq> None then Inl ''HASH_MISMATCH''
          else Inr (target, rel, None))"

definition tempPath :: "'w file_env \<Rightarrow> 'w \<Rightarrow> string \<Rightarrow> string" where
  "tempPath env w target = joinPath [dirname target, ''.'' @ basename target @ ''.tmp-'' @ fe_randomId env w]"

definition cleanUp :: "'w file_env \<Rightarrow> string \<Rightarrow> 'w file_state \<Rightarrow> 'w file_state" where
  "cleanUp env temp s = (if existsSync env s temp then snd (perform env (Unlink temp) s) else s)"

definition commitWrite :: "'w file_env \<Rightarrow> string \<Rightarrow> string \<Rightarrow> 'w file_state \<Rightarrow> string option \<times> 'w file_state" where
  "commitWrite env target content s = (let temp = tempPath env (fl_world s) target in
     case perform env (WriteFile temp content) s of
       (Some e, s1) \<Rightarrow> (Some ''WRITE_ERROR'', cleanUp env temp s1)
     | (None, s1) \<Rightarrow> (case perform env (Rename temp target) s1 of
         (Some e, s2) \<Rightarrow> (Some ''WRITE_ERROR'', cleanUp env temp s2)
       | (None, s2) \<Rightarrow> (None, s2)))"

definition makeParent :: "'w file_env \<Rightarrow> string \<Rightarrow> bool \<Rightarrow> 'w file_state \<Rightarrow> string option \<times> 'w file_state" where
  "makeParent env target createDirs s =
     (if existsSync env s (dirname target) then (None, s)
      else if createDirs then perform env (Mkdir (dirname target)) s
      else (Some ''PARENT_DIR_NOT_FOUND'', s))"

definition writeTextFileAtomic :: "'w file_env \<Rightarrow> WriteTextFileAtomicParams \<Rightarrow> 'w file_state \<Rightarrow> (string + WriteTextFileAtomicResult) \<times> 'w file_state" where
  "writeTextFileAtomic env p s = (case prepareWrite env p (fl_world s) of
       Inl e \<Rightarrow> (Inl e, s)
     | Inr (target, rel, previousHash) \<Rightarrow> (case makeParent env target (wp_createDirs p) s of
         (Some e, s1) \<Rightarrow> (Inl e, s1)
       | (None, s1) \<Rightarrow> (case commitWrite env target (wp_content p) s1 of
           (Some e, s2) \<Rightarrow> (Inl e, s2)
         | (None, s2) \<Rightarrow> (Inr \<lparr>wr_filePath = rel, wr_bytesWritten = byteLength (wp_content p),
             wr_newHash = fe_sha256 env (wp_content p), wr_previousHash = previousHash, wr_created = (previousHash = None)\<rparr>, s2))))"

text \<open>The read before an edit: content, hash and whether the file exists.\<close>

definition readTextFileForEdit :: "'w file_env \<Rightarrow> string \<Rightarrow> string \<Rightarrow> bool \<Rightarrow> 'w \<Rightarrow> string + (string \<times> string \<times> bool)" where
  "readTextFileForEdit env filePath root enforce w =
     (case validateWritePathSafety (fe_view env w) filePath root True enforce of
        Inl e \<Rightarrow> Inl e
      | Inr (Inl code) \<Rightarrow> Inl code
      | Inr (Inr (target, rel)) \<Rightarrow>
          if \<not> fs_exists (fe_view env w) target then Inr ([], fe_sha256 env [], False)
          else case fe_size env w target of
            Inl e \<Rightarrow> Inl e
          | Inr n \<Rightarrow>
              if n > MAX_FILE_EDIT_BYTES then Inl ''CONTENT_TOO_LARGE''
              else case fe_readFile env w target of
                Inl e \<Rightarrow> Inl e
              | Inr content \<Rightarrow> Inr (content, fe_sha256 env content, True))"

section \<open>The handlers\<close>

record 'd tool_result =
  tr_success :: bool
  tr_data :: "'d option"
  tr_error :: "(string \<times> bool) option"

definition toolError :: "string \<Rightarrow> bool \<Rightarrow> 'd tool_result" where
  "toolError code recoverable = \<lparr>tr_success = False, tr_data = None, tr_error = Some (code, recoverable)\<rparr>"

definition toolSuccess :: "'d \<Rightarrow> 'd tool_result" where
  "toolSuccess d = \<lparr>tr_success = True, tr_data = Some d, tr_error = None\<rparr>"

text \<open>The root the tools work in: the managed directory of the context, or the real path of the current directory.\<close>

definition workspaceRoot :: "filesystem \<Rightarrow> string option \<Rightarrow> string option" where
  "workspaceRoot fs workDirRoot = (case workDirRoot of Some r \<Rightarrow> Some r | None \<Rightarrow> fs_realpath fs (fs_cwd fs))"

record FileWriteParams =
  fwp_filePath :: "string option"
  fwp_content :: "string option"
  fwp_overwrite :: "bool option"
  fwp_createDirs :: "bool option"
  fwp_expectedHash :: "string option"

text \<open>A handler ends by throwing (\<open>Inl\<close>) or with a result.\<close>

definition fileWrite :: "'w file_env \<Rightarrow> FileWriteParams \<Rightarrow> string option \<Rightarrow> 'w file_state \<Rightarrow>
    (string + WriteTextFileAtomicResult tool_result) \<times> 'w file_state" where
  "fileWrite env p workDirRoot s = (let fs = fe_view env (fl_world s); enforce = truthy workDirRoot in
     if \<not> truthy (fwp_filePath p) then (Inr (toolError ''MISSING_FILE_PATH'' True), s)
     else if fwp_content p = None then (Inr (toolError ''MISSING_CONTENT'' True), s)
     else case workspaceRoot fs workDirRoot of
       None \<Rightarrow> (Inl ''REALPATH_ERROR'', s)
     | Some root \<Rightarrow> (case validateWritePathSafety fs (the (fwp_filePath p)) root True enforce of
         Inl e \<Rightarrow> (Inl e, s)
       | Inr (Inl code) \<Rightarrow> (Inr (toolError code False), s)
       | Inr (Inr (target, rel)) \<Rightarrow>
           if fs_exists fs target \<and> fwp_overwrite p \<noteq> Some True then (Inr (toolError ''FILE_EXISTS'' True), s)
           else (case writeTextFileAtomic env \<lparr>wp_filePath = the (fwp_filePath p), wp_content = the (fwp_content p), wp_root = root,
               wp_expectedHash = fwp_expectedHash p, wp_createDirs = (fwp_createDirs p = Some True), wp_enforce = enforce\<rparr> s of
             (Inl e, s') \<Rightarrow> (Inr (toolError e (e = ''HASH_MISMATCH'' \<or> e = ''PARENT_DIR_NOT_FOUND'')), s')
           | (Inr r, s') \<Rightarrow> (Inr (toolSuccess r), s'))))"

record FileEditParams =
  fep_filePath :: "string option"
  fep_oldString :: "string option"
  fep_newString :: "string option"
  fep_replaceAll :: "bool option"
  fep_expectedHash :: "string option"

record FileEditResult =
  fer_filePath :: string
  fer_replaced :: nat
  fer_newHash :: string

text \<open>
  The matches are counted by searching again one position after the last match, so they may overlap; all of them are
  replaced by splitting at the old text, which finds only those that do not.
\<close>

fun countMatches :: "string \<Rightarrow> string \<Rightarrow> nat" where
  "countMatches [] old = (if old = [] then 1 else 0)"
| "countMatches (c # cs) old = (if startsWith (c # cs) old then 1 else 0) + countMatches cs old"

function splitAt :: "string \<Rightarrow> string \<Rightarrow> string list" where
  "splitAt s sep = (if sep = [] then map (\<lambda>c. [c]) s
     else case indexOf s sep of None \<Rightarrow> [s] | Some i \<Rightarrow> take i s # splitAt (drop (i + length sep) s) sep)"
  by pat_completeness auto

termination
proof (relation "measure (\<lambda>(s, sep). length s)")
  fix s sep :: string and i
  assume "sep \<noteq> []" "indexOf s sep = Some i"
  moreover from this obtain k where "length sep = Suc k" by (cases sep) auto
  moreover have "i + length sep \<le> length s" using indexOf_Some calculation(2) by blast
  ultimately show "((drop (i + length sep) s, sep), s, sep) \<in> measure (\<lambda>(s, sep). length s)" by simp
qed simp

declare splitAt.simps [simp del]

definition editContent :: "string \<Rightarrow> string \<Rightarrow> string \<Rightarrow> bool \<Rightarrow> string" where
  "editContent content old new replaceAll =
     (if replaceAll then joinWith new (splitAt content old)
      else case indexOf content old of None \<Rightarrow> content
        | Some i \<Rightarrow> take i content @ new @ drop (i + length old) content)"

definition fileEdit :: "'w file_env \<Rightarrow> FileEditParams \<Rightarrow> string option \<Rightarrow> 'w file_state \<Rightarrow>
    (string + FileEditResult tool_result) \<times> 'w file_state" where
  "fileEdit env p workDirRoot s = (let fs = fe_view env (fl_world s); enforce = truthy workDirRoot; replaceAll = (fep_replaceAll p = Some True) in
     if \<not> truthy (fep_filePath p) then (Inr (toolError ''MISSING_FILE_PATH'' True), s)
     else case fep_oldString p of
       None \<Rightarrow> (Inr (toolError ''MISSING_OLD_STRING'' True), s)
     | Some old \<Rightarrow> (case fep_newString p of
         None \<Rightarrow> (Inr (toolError ''MISSING_NEW_STRING'' True), s)
       | Some new \<Rightarrow>
         if old = [] then (Inr (toolError ''EMPTY_OLD_STRING'' False), s)
         else (case workspaceRoot fs workDirRoot of
           None \<Rightarrow> (Inl ''REALPATH_ERROR'', s)
         | Some root \<Rightarrow> (case validateWritePathSafety fs (the (fep_filePath p)) root False enforce of
             Inl e \<Rightarrow> (Inl e, s)
           | Inr (Inl code) \<Rightarrow> (Inr (toolError code False), s)
           | Inr (Inr _) \<Rightarrow> (case readTextFileForEdit env (the (fep_filePath p)) root enforce (fl_world s) of
               Inl e \<Rightarrow> (Inr (toolError e False), s)
             | Inr (content, hash, ex) \<Rightarrow>
               if \<not> ex then (Inr (toolError ''FILE_NOT_FOUND'' True), s)
               else if fep_expectedHash p \<noteq> None \<and> fep_expectedHash p \<noteq> Some hash then (Inr (toolError ''HASH_MISMATCH'' True), s)
               else if countMatches content old = 0 then (Inr (toolError ''NO_MATCH'' True), s)
               else if countMatches content old > 1 \<and> \<not> replaceAll then (Inr (toolError ''AMBIGUOUS_MATCH'' True), s)
               else (case writeTextFileAtomic env \<lparr>wp_filePath = the (fep_filePath p), wp_content = editContent content old new replaceAll,
                   wp_root = root, wp_expectedHash = Some hash, wp_createDirs = False, wp_enforce = enforce\<rparr> s of
                 (Inl e, s') \<Rightarrow> (Inr (toolError e False), s')
               | (Inr r, s') \<Rightarrow> (Inr (toolSuccess \<lparr>fer_filePath = wr_filePath r,
                   fer_replaced = (if replaceAll then countMatches content old else 1), fer_newHash = wr_newHash r\<rparr>), s')))))))"

section \<open>Applying a patch\<close>

record OperationResult =
  or_filePath :: string
  or_type :: string
  or_status :: string
  or_error :: "string option"

record PatchProgress =
  pg_applied :: nat
  pg_failed :: nat
  pg_results :: "OperationResult list"

definition appliedOp :: "FilePatchOperation \<Rightarrow> OperationResult" where
  "appliedOp op = \<lparr>or_filePath = fp_filePath op, or_type = fp_type op, or_status = ''applied'', or_error = None\<rparr>"

definition failedOp :: "FilePatchOperation \<Rightarrow> string \<Rightarrow> OperationResult" where
  "failedOp op e = \<lparr>or_filePath = fp_filePath op, or_type = fp_type op, or_status = ''failed'', or_error = Some e\<rparr>"

definition skippedOp :: "FilePatchOperation \<Rightarrow> OperationResult" where
  "skippedOp op = \<lparr>or_filePath = fp_filePath op, or_type = fp_type op, or_status = ''skipped'',
     or_error = Some ''Dry run - no changes made''\<rparr>"

text \<open>The counters go up where the source pushes the result.\<close>

definition pushResult :: "OperationResult \<Rightarrow> PatchProgress \<Rightarrow> PatchProgress" where
  "pushResult r g = g\<lparr>pg_applied := pg_applied g + (if or_status r = ''applied'' then 1 else 0),
     pg_failed := pg_failed g + (if or_status r = ''failed'' then 1 else 0), pg_results := pg_results g @ [r]\<rparr>"

text \<open>
  One operation on a checked target. The flag tells that the loop stops: only an exception stops it, because the
  \<open>break\<close> of the other failures leaves the \<open>switch\<close> and not the loop.
\<close>

definition writeOp :: "'w file_env \<Rightarrow> FilePatchOperation \<Rightarrow> WriteTextFileAtomicParams \<Rightarrow> 'w file_state \<Rightarrow>
    OperationResult \<times> bool \<times> 'w file_state" where
  "writeOp env op p s = (case writeTextFileAtomic env p s of
     (Inl e, s') \<Rightarrow> (failedOp op e, True, s')
   | (Inr r, s') \<Rightarrow> (appliedOp op, False, s'))"

definition applyAdd :: "'w file_env \<Rightarrow> string \<Rightarrow> bool \<Rightarrow> FilePatchOperation \<Rightarrow> string \<Rightarrow> 'w file_state \<Rightarrow>
    OperationResult \<times> bool \<times> 'w file_state" where
  "applyAdd env root enforce op target s =
     (if existsSync env s target \<and> \<not> truthy (fp_expectedHash op) then (failedOp op ''File already exists'', False, s)
      else writeOp env op \<lparr>wp_filePath = fp_filePath op, wp_content = the (fp_content op), wp_root = root,
        wp_expectedHash = fp_expectedHash op, wp_createDirs = True, wp_enforce = enforce\<rparr> s)"

definition applyUpdate :: "'w file_env \<Rightarrow> string \<Rightarrow> bool \<Rightarrow> FilePatchOperation \<Rightarrow> 'w file_state \<Rightarrow>
    OperationResult \<times> bool \<times> 'w file_state" where
  "applyUpdate env root enforce op s = (case readTextFileForEdit env (fp_filePath op) root enforce (fl_world s) of
       Inl e \<Rightarrow> (failedOp op e, True, s)
     | Inr (content, hash, ex) \<Rightarrow>
         if \<not> ex then (failedOp op ''File not found'', False, s)
         else if truthy (fp_expectedHash op) \<and> fp_expectedHash op \<noteq> Some hash then (failedOp op ''Hash mismatch'', False, s)
         else if \<not> str_includes content (the (fp_oldString op)) then (failedOp op ''oldString not found in file'', False, s)
         else writeOp env op \<lparr>wp_filePath = fp_filePath op,
           wp_content = replaceString content (the (fp_oldString op)) (the (fp_newString op)), wp_root = root,
           wp_expectedHash = Some hash, wp_createDirs = False, wp_enforce = enforce\<rparr> s)"

definition applyDelete :: "'w file_env \<Rightarrow> FilePatchOperation \<Rightarrow> string \<Rightarrow> 'w file_state \<Rightarrow> OperationResult \<times> bool \<times> 'w file_state" where
  "applyDelete env op target s =
     (if \<not> existsSync env s target then (failedOp op ''File not found'', False, s)
      else case perform env (Unlink target) s of
        (Some e, s') \<Rightarrow> (failedOp op e, False, s')
      | (None, s') \<Rightarrow> (appliedOp op, False, s'))"

definition applyChange :: "'w file_env \<Rightarrow> string \<Rightarrow> bool \<Rightarrow> FilePatchOperation \<Rightarrow> string \<Rightarrow> 'w file_state \<Rightarrow>
    OperationResult \<times> bool \<times> 'w file_state" where
  "applyChange env root enforce op target s =
     (if fp_type op = ''add'' then applyAdd env root enforce op target s
      else if fp_type op = ''update'' then applyUpdate env root enforce op s
      else applyDelete env op target s)"

text \<open>\<open>Inl\<close>: the path check itself throws, outside the handler's \<open>try\<close>.\<close>

fun applyOps :: "'w file_env \<Rightarrow> string \<Rightarrow> bool \<Rightarrow> bool \<Rightarrow> FilePatchOperation list \<Rightarrow> PatchProgress \<Rightarrow> 'w file_state \<Rightarrow>
    (string + PatchProgress) \<times> 'w file_state" where
  "applyOps env root enforce dryRun [] g s = (Inr g, s)"
| "applyOps env root enforce dryRun (op # ops) g s =
     (case validateWritePathSafety (fe_view env (fl_world s)) (fp_filePath op) root True enforce of
        Inl e \<Rightarrow> (Inl e, s)
      | Inr (Inl code) \<Rightarrow> (Inr (pushResult (failedOp op code) g), s)
      | Inr (Inr (target, rel)) \<Rightarrow>
          if dryRun then applyOps env root enforce dryRun ops (pushResult (skippedOp op) g) s
          else case applyChange env root enforce op target s of
            (r, stop, s') \<Rightarrow> if stop then (Inr (pushResult r g), s')
              else applyOps env root enforce dryRun ops (pushResult r g) s')"

record FileApplyPatchParams =
  fpp_operations :: "FilePatchOperation list option"
  fpp_patch :: "string option"
  fpp_dryRun :: "bool option"

definition patchOperations :: "FileApplyPatchParams \<Rightarrow> string + FilePatchOperation list" where
  "patchOperations p = (if truthy (fpp_patch p) then map_sum id pp_operations (parsePatchText (the (fpp_patch p)))
     else Inr (the (fpp_operations p)))"

definition fileApplyPatch :: "'w file_env \<Rightarrow> FileApplyPatchParams \<Rightarrow> string option \<Rightarrow> 'w file_state \<Rightarrow>
    (string + PatchProgress tool_result) \<times> 'w file_state" where
  "fileApplyPatch env p workDirRoot s =
     (if fpp_operations p \<noteq> None \<and> truthy (fpp_patch p) then (Inr (toolError ''CONFLICTING_INPUT'' False), s)
      else if fpp_operations p = None \<and> \<not> truthy (fpp_patch p) then (Inr (toolError ''MISSING_INPUT'' True), s)
      else case patchOperations p of
        Inl e \<Rightarrow> (Inr (toolError ''INVALID_PATCH_FORMAT'' False), s)
      | Inr ops \<Rightarrow>
          if validateOperations ops \<noteq> [] then (Inr (toolError ''VALIDATION_FAILED'' False), s)
          else case workspaceRoot (fe_view env (fl_world s)) workDirRoot of
            None \<Rightarrow> (Inl ''REALPATH_ERROR'', s)
          | Some root \<Rightarrow> (case applyOps env root (truthy workDirRoot) (fpp_dryRun p = Some True) ops
                \<lparr>pg_applied = 0, pg_failed = 0, pg_results = []\<rparr> s of
              (Inl e, s') \<Rightarrow> (Inl e, s')
            | (Inr g, s') \<Rightarrow> (Inr \<lparr>tr_success = (pg_failed g = 0), tr_data = Some g,
                tr_error = (if pg_failed g > 0 then Some (''OPERATIONS_FAILED'', True) else None)\<rparr>, s')))"

section \<open>What the tools change\<close>

text \<open>The changes made for a target: its directory, a temporary file beside it, and the target itself.\<close>

definition changeFor :: "'w file_env \<Rightarrow> string \<Rightarrow> FsCall \<Rightarrow> bool" where
  "changeFor env target c = (c = Mkdir (dirname target) \<or> c = Unlink target \<or>
     (\<exists>w content. c \<in> {WriteFile (tempPath env w target) content, Rename (tempPath env w target) target, Unlink (tempPath env w target)}))"

definition allowedTarget :: "filesystem \<Rightarrow> string \<Rightarrow> bool \<Rightarrow> string \<Rightarrow> bool" where
  "allowedTarget fs root enforce target =
     (prefix (resolveSegs (fs_cwd fs) root) (resolveSegs (fs_cwd fs) target) \<and>
      \<not> sensitive (relativePath (fs_cwd fs) root target) \<and> \<not> binaryName (relativePath (fs_cwd fs) root target) \<and>
      (enforce \<longrightarrow> isWithinWorkdir fs target root \<and> (\<forall>a. resolveNearestExistingAncestor fs target target = Some a \<longrightarrow>
         (\<exists>ra. fs_realpath fs a = Some ra \<and> prefix (resolveSegs (fs_cwd fs) root) (resolveSegs (fs_cwd fs) ra)))))"

definition sanctioned :: "'w file_env \<Rightarrow> string \<Rightarrow> bool \<Rightarrow> FsCall \<Rightarrow> bool" where
  "sanctioned env root enforce c = (\<exists>w target. allowedTarget (fe_view env w) root enforce target \<and> changeFor env target c)"

definition onlySanctioned :: "'w file_env \<Rightarrow> string \<Rightarrow> bool \<Rightarrow> 'w file_state \<Rightarrow> 'w file_state \<Rightarrow> bool" where
  "onlySanctioned env root enforce s s' = (\<exists>calls. fl_log s' = fl_log s @ calls \<and> list_all (sanctioned env root enforce) calls)"

text \<open>The targets the path check of the tools gives for the paths asked for, and the changes made for such targets.\<close>

definition checkedTarget :: "'w file_env \<Rightarrow> string set \<Rightarrow> string \<Rightarrow> bool \<Rightarrow> 'w \<Rightarrow> string \<Rightarrow> bool" where
  "checkedTarget env paths root enforce w target =
     (\<exists>path\<in>paths. \<exists>rel. validateWritePathSafety (fe_view env w) path root True enforce = Inr (Inr (target, rel)))"

definition onlyTargeted :: "'w file_env \<Rightarrow> string set \<Rightarrow> string \<Rightarrow> bool \<Rightarrow> 'w file_state \<Rightarrow> 'w file_state \<Rightarrow> bool" where
  "onlyTargeted env paths root enforce s s' = (\<exists>calls. fl_log s' = fl_log s @ calls \<and>
     (\<forall>c\<in>set calls. \<exists>w target. checkedTarget env paths root enforce w target \<and> changeFor env target c))"

lemma safe_target_allowed:
  assumes "validateWritePathSafety fs filePath root allowNew enforce = Inr (Inr (target, rel))"
  shows "allowedTarget fs root enforce target" "rel = relativePath (fs_cwd fs) root target"
proof -
  have rel: "rel = relativePath (fs_cwd fs) root target" "\<not> outside rel" "\<not> sensitive rel" "\<not> binaryName rel"
    and wd: "enforce \<longrightarrow> (\<exists>r. validatePath fs target root True = Inr r)"
    using assms by (auto simp: validateWritePathSafety_def validateWorkdirWritePath_def Let_def split: if_splits option.splits sum.splits)
  then show "allowedTarget fs root enforce target"
    using validated_path_in [of fs target root True] inside_prefix by (auto simp: allowedTarget_def)
  show "rel = relativePath (fs_cwd fs) root target" by (rule rel)
qed

lemma targeted_sanctioned: "onlyTargeted env paths root enforce s s' \<Longrightarrow> onlySanctioned env root enforce s s'"
  unfolding onlyTargeted_def onlySanctioned_def list_all_iff sanctioned_def checkedTarget_def using safe_target_allowed(1) by meson

lemma onlyTargeted_refl [simp]: "onlyTargeted env paths root enforce s s"
  by (simp add: onlyTargeted_def)

lemma onlyTargeted_trans:
  "onlyTargeted env paths root enforce s s' \<Longrightarrow> onlyTargeted env paths root enforce s' s'' \<Longrightarrow> onlyTargeted env paths root enforce s s''"
  unfolding onlyTargeted_def by (metis (no_types, lifting) Un_iff append.assoc set_append)

lemma onlyTargeted_mono: "onlyTargeted env paths root enforce s s' \<Longrightarrow> paths \<subseteq> paths' \<Longrightarrow> onlyTargeted env paths' root enforce s s'"
  unfolding onlyTargeted_def checkedTarget_def by (meson subsetD)

lemma perform_log: "perform env c s = (e, s') \<Longrightarrow> fl_log s' = fl_log s @ [c]"
  by (auto simp: perform_def split: prod.splits)

lemma perform_targeted:
  "checkedTarget env paths root enforce w target \<Longrightarrow> changeFor env target c \<Longrightarrow> perform env c s = (e, s') \<Longrightarrow>
   onlyTargeted env paths root enforce s s'"
  unfolding onlyTargeted_def using perform_log by fastforce

lemma commitWrite_log:
  assumes "commitWrite env target content s = (r, s')"
  shows "\<exists>calls temp. fl_log s' = fl_log s @ calls \<and> temp = tempPath env (fl_world s) target \<and>
     (if r = None then calls = [WriteFile temp content, Rename temp target]
      else r = Some ''WRITE_ERROR'' \<and> (\<exists>u. u \<in> {[], [Unlink temp]} \<and> calls \<in> {WriteFile temp content # u, WriteFile temp content # Rename temp target # u}))"
proof -
  define temp where "temp = tempPath env (fl_world s) target"
  have clean: "\<exists>u \<in> {[], [Unlink temp]}. fl_log (cleanUp env temp t) = fl_log t @ u" for t
    by (simp add: cleanUp_def perform_def split: prod.split)
  obtain e1 s1 where w: "perform env (WriteFile temp content) s = (e1, s1)" by fastforce
  obtain e2 s2 where m: "perform env (Rename temp target) s1 = (e2, s2)" by fastforce
  note logs = perform_log [OF w] perform_log [OF m]
  have r: "(r, s') = (case e1 of Some e \<Rightarrow> (Some ''WRITE_ERROR'', cleanUp env temp s1)
      | None \<Rightarrow> (case e2 of Some e \<Rightarrow> (Some ''WRITE_ERROR'', cleanUp env temp s2) | None \<Rightarrow> (None, s2)))"
    using assms w m by (simp add: commitWrite_def temp_def [symmetric] split: option.splits)
  consider (ok) "e1 = None" "e2 = None" | (first) e where "e1 = Some e" | (second) e where "e1 = None" "e2 = Some e" by fastforce
  then show ?thesis
  proof cases
    case ok
    then show ?thesis using r logs by (simp add: temp_def)
  next
    case first
    obtain u where "u \<in> {[], [Unlink temp]}" "fl_log (cleanUp env temp s1) = fl_log s1 @ u" using clean by blast
    then show ?thesis using r first logs
      by (intro exI [of _ "WriteFile temp content # u"] exI [of _ temp]) (auto simp: temp_def)
  next
    case second
    obtain u where "u \<in> {[], [Unlink temp]}" "fl_log (cleanUp env temp s2) = fl_log s2 @ u" using clean by blast
    then show ?thesis using r second logs
      by (intro exI [of _ "WriteFile temp content # Rename temp target # u"] exI [of _ temp]) (auto simp: temp_def)
  qed
qed

lemma commitWrite_targeted:
  assumes "commitWrite env target content s = (r, s')" "checkedTarget env paths root enforce w target"
  shows "onlyTargeted env paths root enforce s s'"
proof -
  define temp where "temp = tempPath env (fl_world s) target"
  obtain calls where calls: "fl_log s' = fl_log s @ calls"
    "set calls \<subseteq> {WriteFile temp content, Rename temp target, Unlink temp}"
    using commitWrite_log [OF assms(1)] by (auto simp: temp_def split: if_splits)
  have "changeFor env target c" if "c \<in> {WriteFile temp content, Rename temp target, Unlink temp}" for c
    using that unfolding changeFor_def temp_def by blast
  then have "\<forall>c\<in>set calls. changeFor env target c" using calls(2) by (meson subsetD)
  then show ?thesis unfolding onlyTargeted_def using assms(2) calls(1) by (intro exI [of _ calls]) (meson assms(2))
qed

lemma makeParent_targeted:
  assumes "makeParent env target d s = (r, s')" "checkedTarget env paths root enforce w target"
  shows "onlyTargeted env paths root enforce s s'"
  using assms perform_targeted [OF assms(2), of "Mkdir (dirname target)" s]
  by (auto simp: makeParent_def changeFor_def split: if_splits)

lemma prepareWrite_target:
  assumes "prepareWrite env p w = Inr (target, rel, prev)"
  shows "validateWritePathSafety (fe_view env w) (wp_filePath p) (wp_root p) True (wp_enforce p) = Inr (Inr (target, rel))"
    "\<not> str_includes (wp_content p) [CHR 0x00]" "byteLength (wp_content p) \<le> MAX_FILE_WRITE_BYTES"
    "if fs_exists (fe_view env w) target then (\<exists>existing. fe_readFile env w target = Inr existing \<and> prev = Some (fe_sha256 env existing) \<and>
         wp_expectedHash p \<in> {None, prev})
     else prev = None \<and> wp_expectedHash p = None"
  using assms by (auto simp: prepareWrite_def Let_def split: if_splits sum.splits)

lemma writeTextFileAtomic_targeted:
  assumes "writeTextFileAtomic env p s = (r, s')"
  shows "onlyTargeted env {wp_filePath p} (wp_root p) (wp_enforce p) s s'"
proof (cases "prepareWrite env p (fl_world s)")
  case (Inr t)
  obtain target rel prev where t: "prepareWrite env p (fl_world s) = Inr (target, rel, prev)" using Inr by (cases t) auto
  have al: "checkedTarget env {wp_filePath p} (wp_root p) (wp_enforce p) (fl_world s) target"
    using prepareWrite_target(1) [OF t] by (auto simp: checkedTarget_def)
  obtain e1 s1 where mp: "makeParent env target (wp_createDirs p) s = (e1, s1)" by fastforce
  obtain e2 s2 where cw: "commitWrite env target (wp_content p) s1 = (e2, s2)" by fastforce
  have "s' = s1 \<or> s' = s2" using assms t mp cw by (auto simp: writeTextFileAtomic_def split: option.splits)
  then show ?thesis
    using makeParent_targeted [OF mp al] commitWrite_targeted [OF cw al] onlyTargeted_trans by blast
qed (use assms in \<open>simp add: writeTextFileAtomic_def\<close>)

lemma writeTextFileAtomic_sanctioned: "writeTextFileAtomic env p s = (r, s') \<Longrightarrow> onlySanctioned env (wp_root p) (wp_enforce p) s s'"
  by (rule targeted_sanctioned [OF writeTextFileAtomic_targeted])

lemma onlySanctioned_refl [simp]: "onlySanctioned env root enforce s s"
  by (simp add: onlySanctioned_def)

lemma fileWrite_sanctioned:
  assumes "fileWrite env p (Some root) s = (r, s')"
  shows "onlySanctioned env root (root \<noteq> []) s s'"
  using assms writeTextFileAtomic_sanctioned
  by (fastforce simp: fileWrite_def workspaceRoot_def truthy_def Let_def split: if_splits option.splits sum.splits prod.splits)

lemma writeOp_targeted:
  "writeOp env op p s = (r, stop, s') \<Longrightarrow> onlyTargeted env {wp_filePath p} (wp_root p) (wp_enforce p) s s'"
  using writeTextFileAtomic_targeted by (fastforce simp: writeOp_def split: prod.splits sum.splits)

lemma fileEdit_sanctioned:
  assumes "fileEdit env p (Some root) s = (r, s')"
  shows "onlySanctioned env root (root \<noteq> []) s s'"
  using assms writeTextFileAtomic_sanctioned
  by (fastforce simp: fileEdit_def workspaceRoot_def truthy_def Let_def split: if_splits option.splits sum.splits prod.splits)

lemma applyChange_targeted:
  assumes "applyChange env root enforce op target s = (r, stop, s')" "checkedTarget env {fp_filePath op} root enforce w target"
  shows "onlyTargeted env {fp_filePath op} root enforce s s'"
proof -
  have add: "applyAdd env root enforce op target s = (r, stop, s') \<Longrightarrow> ?thesis"
    using writeOp_targeted by (fastforce simp: applyAdd_def split: if_splits)
  have update: "applyUpdate env root enforce op s = (r, stop, s') \<Longrightarrow> ?thesis"
    using writeOp_targeted by (fastforce simp: applyUpdate_def split: if_splits sum.splits prod.splits)
  have delete: "applyDelete env op target s = (r, stop, s') \<Longrightarrow> ?thesis"
    using perform_targeted [OF assms(2), of "Unlink target" s]
    by (auto simp: applyDelete_def changeFor_def split: if_splits prod.splits option.splits)
  show ?thesis using assms(1) add update delete by (auto simp only: applyChange_def split: if_splits)
qed

lemma applyOps_targeted:
  "applyOps env root enforce dryRun ops g s = (r, s') \<Longrightarrow> onlyTargeted env (fp_filePath ` set ops) root enforce s s'"
proof (induction env root enforce dryRun ops g s rule: applyOps.induct)
  case (2 env root enforce dryRun op ops g s)
  show ?case
  proof (cases "\<exists>target rel. validateWritePathSafety (fe_view env (fl_world s)) (fp_filePath op) root True enforce = Inr (Inr (target, rel))")
    case True
    then obtain target rel where v: "validateWritePathSafety (fe_view env (fl_world s)) (fp_filePath op) root True enforce = Inr (Inr (target, rel))"
      by blast
    show ?thesis
    proof (cases dryRun)
      case True
      then show ?thesis using onlyTargeted_mono [OF 2(1) [OF v refl refl True]] 2(3) v by auto
    next
      case False
      obtain x stop s1 where c: "applyChange env root enforce op target s = (x, stop, s1)" by (cases "applyChange env root enforce op target s")
      have "checkedTarget env {fp_filePath op} root enforce (fl_world s) target" using v by (auto simp: checkedTarget_def)
      then have one: "onlyTargeted env (fp_filePath ` set (op # ops)) root enforce s s1"
        using onlyTargeted_mono [OF applyChange_targeted [OF c]] by auto
      show ?thesis
      proof (cases stop)
        case True
        then show ?thesis using 2(3) v False c one by simp
      next
        case go: False
        have rest: "applyOps env root enforce dryRun ops (pushResult x g) s1 = (r, s')" using 2(3) v False c go by simp
        have "onlyTargeted env (fp_filePath ` set (op # ops)) root enforce s1 s'"
          by (rule onlyTargeted_mono [OF 2(2) [OF v refl refl False c [symmetric] refl go rest]]) auto
        with one show ?thesis by (rule onlyTargeted_trans)
      qed
    qed
  next
    case False
    then show ?thesis using 2(3) by (auto split: sum.splits)
  qed
qed simp

lemma fileApplyPatch_targeted:
  assumes "fileApplyPatch env p (Some root) s = (r, s')"
  shows "s' = s \<or> (\<exists>ops. patchOperations p = Inr ops \<and> (fpp_operations p = None) = truthy (fpp_patch p) \<and>
    onlyTargeted env (fp_filePath ` set ops) root (root \<noteq> []) s s')"
  using assms applyOps_targeted
  by (fastforce simp: fileApplyPatch_def workspaceRoot_def truthy_def split: if_splits option.splits sum.splits prod.splits)

lemma fileApplyPatch_sanctioned:
  assumes "fileApplyPatch env p (Some root) s = (r, s')"
  shows "onlySanctioned env root (root \<noteq> []) s s'"
  using fileApplyPatch_targeted [OF assms] targeted_sanctioned by auto

text \<open>
  C19: The file tools stay in the working directory: whatever \<open>file_write\<close>, \<open>file_edit\<close> and \<open>file_apply_patch\<close> are asked
  to do under a managed directory, and whatever the disk answers, every change they make is one for a checked target
  (its directory, a temporary file beside it, the target itself) that lies below the root, whose nearest existing
  ancestor really resolves below the root, and which is neither a sensitive nor a binary file.
\<close>
theorem file_tools_stay_in_workdir:
  "onlySanctioned env root (root \<noteq> []) s (snd (fileWrite env w (Some root) s)) \<and>
   onlySanctioned env root (root \<noteq> []) s (snd (fileEdit env e (Some root) s)) \<and>
   onlySanctioned env root (root \<noteq> []) s (snd (fileApplyPatch env p (Some root) s))"
  by (intro conjI, rule fileWrite_sanctioned [OF prod.collapse [symmetric]], rule fileEdit_sanctioned [OF prod.collapse [symmetric]],
    rule fileApplyPatch_sanctioned [OF prod.collapse [symmetric]])

section \<open>The atomic write\<close>

text \<open>A disk of plain files below one directory, for concrete runs.\<close>

definition demoDiskView :: "(string \<times> string) list \<Rightarrow> filesystem" where
  "demoDiskView w = \<lparr>fs_cwd = ''/'', fs_exists = (\<lambda>p. p \<in> {''/'', ''/wd''} \<union> fst ` set w), fs_realpath = Some, fs_fileLinks = (\<lambda>p. None)\<rparr>"

fun demoCall :: "FsCall \<Rightarrow> (string \<times> string) list \<Rightarrow> string option \<times> (string \<times> string) list" where
  "demoCall (Mkdir p) w = (None, w)"
| "demoCall (WriteFile p c) w = (None, AList.update p c w)"
| "demoCall (Rename p q) w = (case map_of w p of None \<Rightarrow> (Some ''ENOENT'', w) | Some c \<Rightarrow> (None, AList.update q c (AList.delete p w)))"
| "demoCall (Unlink p) w = (None, AList.delete p w)"

definition demoDisk :: "(string \<times> string) list file_env" where
  "demoDisk = \<lparr>fe_view = demoDiskView, fe_readFile = (\<lambda>w p. case map_of w p of None \<Rightarrow> Inl ''ENOENT'' | Some c \<Rightarrow> Inr c),
     fe_size = (\<lambda>w p. case map_of w p of None \<Rightarrow> Inl ''ENOENT'' | Some c \<Rightarrow> Inr (byteLength c)), fe_call = demoCall,
     fe_sha256 = id, fe_randomId = (\<lambda>w. ''0a'')\<rparr>"

lemma makeParent_log:
  "makeParent env target d s = (r, s') \<Longrightarrow> \<exists>mk. fl_log s' = fl_log s @ mk \<and> mk \<in> {[], [Mkdir (dirname target)]}"
  using perform_log by (fastforce simp: makeParent_def split: if_splits)

text \<open>Calls to the disk in order, with the outcome of each and the disk after them.\<close>

fun fsRun :: "'w file_env \<Rightarrow> FsCall list \<Rightarrow> 'w \<Rightarrow> string option list \<times> 'w" where
  "fsRun env [] w = ([], w)"
| "fsRun env (c # cs) w = (case fe_call env c w of (e, w1) \<Rightarrow> (case fsRun env cs w1 of (es, w2) \<Rightarrow> (e # es, w2)))"

definition did :: "'w file_env \<Rightarrow> 'w file_state \<Rightarrow> FsCall list \<Rightarrow> string option list \<Rightarrow> 'w file_state \<Rightarrow> bool" where
  "did env s calls outcomes s' = (fl_log s' = fl_log s @ calls \<and> fsRun env calls (fl_world s) = (outcomes, fl_world s'))"

lemma fsRun_append: "fsRun env (cs @ ds) w = (case fsRun env cs w of (es, w1) \<Rightarrow> (case fsRun env ds w1 of (fs, w2) \<Rightarrow> (es @ fs, w2)))"
  by (induction cs arbitrary: w) (auto split: prod.split)

lemma did_refl [simp]: "did env s [] [] s"
  by (simp add: did_def)

lemma did_perform: "perform env c s = (e, s') \<Longrightarrow> did env s [c] [e] s'"
  by (auto simp: did_def perform_def split: prod.splits)

lemma did_trans: "did env s cs es s1 \<Longrightarrow> did env s1 ds fs s2 \<Longrightarrow> did env s (cs @ ds) (es @ fs) s2"
  by (simp add: did_def fsRun_append)

lemma did_step: "did env s cs es s1 \<Longrightarrow> perform env c s1 = (e, s2) \<Longrightarrow> did env s (cs @ [c]) (es @ [e]) s2"
  using did_trans did_perform by blast

lemma cleanUp_did: "\<exists>u out. u \<in> {[], [Unlink temp]} \<and> length out = length u \<and> did env s u out (cleanUp env temp s)"
proof (cases "existsSync env s temp")
  case True
  obtain e s1 where p: "perform env (Unlink temp) s = (e, s1)" by fastforce
  then show ?thesis using True did_perform [OF p] by (intro exI [of _ "[Unlink temp]"] exI [of _ "[e]"]) (simp add: cleanUp_def)
qed (auto simp: cleanUp_def)

lemma makeParent_did:
  assumes "makeParent env target c s = (r, s')"
  shows "\<exists>mk out. mk \<in> {[], [Mkdir (dirname target)]} \<and> length out = length mk \<and> did env s mk out s' \<and> (r = None \<longrightarrow> set out \<subseteq> {None})"
proof (cases "existsSync env s (dirname target) \<or> \<not> c")
  case True
  then show ?thesis using assms by (auto simp: makeParent_def split: if_splits)
next
  case False
  then have p: "perform env (Mkdir (dirname target)) s = (r, s')" using assms by (simp add: makeParent_def)
  then show ?thesis using did_perform [OF p] by (intro exI [of _ "[Mkdir (dirname target)]"] exI [of _ "[r]"]) auto
qed

definition besideTarget :: "string \<Rightarrow> string \<Rightarrow> string" where
  "besideTarget target i = joinPath [dirname target, ''.'' @ basename target @ ''.tmp-'' @ i]"

text \<open>The calls of a write that failed on the way: no rename among them succeeded.\<close>

definition brokenOff :: "string \<Rightarrow> string \<Rightarrow> string \<Rightarrow> FsCall list \<Rightarrow> string option list \<Rightarrow> bool" where
  "brokenOff temp target content calls outcomes =
     (calls \<in> {WriteFile temp content # u | u. u \<in> {[], [Unlink temp]}} \<union>
        {WriteFile temp content # Rename temp target # u | u. u \<in> {[], [Unlink temp]}} \<and>
      list_all2 (\<lambda>c out. (\<exists>a b. c = Rename a b) \<longrightarrow> out \<noteq> None) calls outcomes)"

lemma commitWrite_did:
  assumes "commitWrite env target content s = (r, s')"
  shows "\<exists>i calls out. did env s calls out s' \<and>
     (if r = None then calls = [WriteFile (besideTarget target i) content, Rename (besideTarget target i) target] \<and> out = [None, None]
      else r = Some ''WRITE_ERROR'' \<and> brokenOff (besideTarget target i) target content calls out)"
proof -
  define temp where "temp = tempPath env (fl_world s) target"
  have beside: "temp = besideTarget target (fe_randomId env (fl_world s))" by (simp add: temp_def tempPath_def besideTarget_def)
  obtain e1 s1 where w: "perform env (WriteFile temp content) s = (e1, s1)" by fastforce
  obtain e2 s2 where m: "perform env (Rename temp target) s1 = (e2, s2)" by fastforce
  note dw = did_perform [OF w] and dm = did_step [OF did_perform [OF w] m]
  have r: "(r, s') = (case e1 of Some e \<Rightarrow> (Some ''WRITE_ERROR'', cleanUp env temp s1)
      | None \<Rightarrow> (case e2 of Some e \<Rightarrow> (Some ''WRITE_ERROR'', cleanUp env temp s2) | None \<Rightarrow> (None, s2)))"
    using assms w m by (simp add: commitWrite_def temp_def [symmetric] split: option.splits)
  consider (ok) "e1 = None" "e2 = None" | (first) e where "e1 = Some e" | (second) e where "e1 = None" "e2 = Some e" by fastforce
  then have "\<exists>calls out. did env s calls out s' \<and> (if r = None then calls = [WriteFile temp content, Rename temp target] \<and> out = [None, None]
      else r = Some ''WRITE_ERROR'' \<and> brokenOff temp target content calls out)"
  proof cases
    case ok
    then show ?thesis using r dm by (intro exI [of _ "[WriteFile temp content, Rename temp target]"] exI [of _ "[None, None]"]) simp
  next
    case first
    obtain u out where u: "u \<in> {[], [Unlink temp]}" "length out = length u" "did env s1 u out (cleanUp env temp s1)" using cleanUp_did by blast
    have "did env s (WriteFile temp content # u) (e1 # out) s'" using did_trans [OF dw u(3)] r first by simp
    moreover have "brokenOff temp target content (WriteFile temp content # u) (e1 # out)"
      using u(1,2) by (auto simp: brokenOff_def length_Suc_conv)
    ultimately show ?thesis using r first by auto
  next
    case second
    obtain u out where u: "u \<in> {[], [Unlink temp]}" "length out = length u" "did env s2 u out (cleanUp env temp s2)" using cleanUp_did by blast
    have "did env s (WriteFile temp content # Rename temp target # u) (e1 # e2 # out) s'" using did_trans [OF dm u(3)] r second by simp
    moreover have "brokenOff temp target content (WriteFile temp content # Rename temp target # u) (e1 # e2 # out)"
      using u(1,2) second by (auto simp: brokenOff_def length_Suc_conv)
    ultimately show ?thesis using r second by auto
  qed
  then show ?thesis unfolding beside by blast
qed

text \<open>
  C22: The atomic write either replaces the file asked for or leaves it alone. When it succeeds the content has no NUL byte and at
  most 512 KiB, an expected hash is that of what the checked target of the requested path held, and the disk was asked, with success,
  to create the target's directory if need be, to write the whole content to a temporary file beside the target and to rename that
  to the target, and for nothing else. When it fails it changed nothing or at most the target's directory and that temporary file:
  no rename was made, or the one to the target failed.
\<close>
theorem atomic_write_all_or_nothing:
  assumes "writeTextFileAtomic env p s = (r, s')"
  shows "\<exists>calls outcomes. fl_log s' = fl_log s @ calls \<and> fsRun env calls (fl_world s) = (outcomes, fl_world s') \<and>
     (case r of
        Inr res \<Rightarrow> \<exists>target rel i mk.
          validateWritePathSafety (fe_view env (fl_world s)) (wp_filePath p) (wp_root p) True (wp_enforce p) = Inr (Inr (target, rel)) \<and>
          mk \<in> {[], [Mkdir (dirname target)]} \<and>
          calls = mk @ [WriteFile (besideTarget target i) (wp_content p), Rename (besideTarget target i) target] \<and> set outcomes = {None} \<and>
          wr_newHash res = fe_sha256 env (wp_content p) \<and> CHR 0x00 \<notin> set (wp_content p) \<and> byteLength (wp_content p) \<le> 524288 \<and>
          (wp_expectedHash p = None \<or> (\<exists>existing. fe_readFile env (fl_world s) target = Inr existing \<and>
             wp_expectedHash p = Some (fe_sha256 env existing)))
      | Inl e \<Rightarrow> calls = [] \<or> (\<exists>target rel i mk out rest restOut.
          validateWritePathSafety (fe_view env (fl_world s)) (wp_filePath p) (wp_root p) True (wp_enforce p) = Inr (Inr (target, rel)) \<and>
          mk \<in> {[], [Mkdir (dirname target)]} \<and> calls = mk @ rest \<and> outcomes = out @ restOut \<and> length out = length mk \<and>
          (rest = [] \<or> e = ''WRITE_ERROR'' \<and> brokenOff (besideTarget target i) target (wp_content p) rest restOut)))"
proof (cases "prepareWrite env p (fl_world s)")
  case (Inl e)
  then show ?thesis using assms by (auto simp: writeTextFileAtomic_def)
next
  case (Inr t)
  obtain target rel prev where t: "prepareWrite env p (fl_world s) = Inr (target, rel, prev)" using Inr by (cases t) auto
  note prep = prepareWrite_target [OF t]
  obtain e1 s1 where mp: "makeParent env target (wp_createDirs p) s = (e1, s1)" by fastforce
  obtain mk out where mk: "mk \<in> {[], [Mkdir (dirname target)]}" "length out = length mk" "did env s mk out s1" "e1 = None \<longrightarrow> set out \<subseteq> {None}"
    using makeParent_did [OF mp] by blast
  obtain e2 s2 where cw: "commitWrite env target (wp_content p) s1 = (e2, s2)" by fastforce
  obtain i calls couts where c: "did env s1 calls couts s2"
    "if e2 = None then calls = [WriteFile (besideTarget target i) (wp_content p), Rename (besideTarget target i) target] \<and> couts = [None, None]
     else e2 = Some ''WRITE_ERROR'' \<and> brokenOff (besideTarget target i) target (wp_content p) calls couts"
    using commitWrite_did [OF cw] by blast
  note all = did_trans [OF mk(3) c(1), unfolded did_def]
  consider (dir) e where "e1 = Some e" | (failed) e where "e1 = None" "e2 = Some e" | (ok) "e1 = None" "e2 = None" by fastforce
  then show ?thesis
  proof cases
    case dir
    then have r: "r = Inl e" "s' = s1" using assms t mp by (simp_all add: writeTextFileAtomic_def)
    show ?thesis unfolding r sum.case using mk(1-3) prep(1) unfolding did_def by force
  next
    case failed
    then have r: "r = Inl e" "s' = s2" using assms t mp cw by (simp_all add: writeTextFileAtomic_def)
    have e: "e = ''WRITE_ERROR''" "brokenOff (besideTarget target i) target (wp_content p) calls couts" using c(2) failed by auto
    show ?thesis unfolding r sum.case using all mk(1,2) prep(1) e by blast
  next
    case ok
    then obtain res where r: "r = Inr res" "wr_newHash res = fe_sha256 env (wp_content p)" "s' = s2"
      using assms t mp cw by (auto simp: writeTextFileAtomic_def)
    have cs: "calls = [WriteFile (besideTarget target i) (wp_content p), Rename (besideTarget target i) target]" "couts = [None, None]"
      using c(2) ok by simp_all
    have outs: "set (out @ couts) = {None}" using mk(4) ok cs(2) by auto
    have nul: "CHR 0x00 \<notin> set (wp_content p)" using prep(2) indexOf_single by (auto simp: str_includes_def)
    have hash: "wp_expectedHash p = None \<or> (\<exists>existing. fe_readFile env (fl_world s) target = Inr existing \<and>
             wp_expectedHash p = Some (fe_sha256 env existing))" using prep(4) by (auto split: if_splits)
    have size: "byteLength (wp_content p) \<le> 524288" using prep(3) by (simp add: MAX_FILE_WRITE_BYTES_def)
    show ?thesis unfolding r(1,3) sum.case
      by (rule exI [of _ "mk @ calls"], rule exI [of _ "out @ couts"])
        (use all prep(1) mk(1) cs(1) outs nul hash size r(2) in blast)
  qed
qed

definition demoWrite :: WriteTextFileAtomicParams where
  "demoWrite = \<lparr>wp_filePath = ''/wd/a.ts'', wp_content = ''new'', wp_root = ''/wd'', wp_expectedHash = Some ''old'',
     wp_createDirs = False, wp_enforce = True\<rparr>"

definition demoDir :: "(string \<times> string) list file_state" where
  "demoDir = \<lparr>fl_world = [(''/wd/a.ts'', ''old'')], fl_log = []\<rparr>"

lemmas file_eval = validateWritePathSafety_def canonicalTarget_def resolveFrom_def checkParent_def sensitive_def binaryName_def
  basename_def SENSITIVE_FILE_PATTERNS_def BINARY_EXTENSIONS_def endsWith_def lineEnd_def toLowerCase_def lower_char_def
  demoDiskView_def

lemma demo_names: "\<not> sensitive ''a.ts''" "\<not> binaryName ''a.ts''"
  by (simp_all add: file_eval Let_def)

lemma demo_workdir: "validateWorkdirWritePath (demoDiskView [(''/wd/a.ts'', c)]) ''/wd/a.ts'' ''/wd'' = Inr (''/wd/a.ts'', ''a.ts'')"
  by (simp add: path_eval demoDiskView_def)

lemma demo_canonical:
  assumes "f \<in> {''/wd/a.ts'', ''a.ts''}"
  shows "canonicalTarget (demoDiskView [(''/wd/a.ts'', c)]) f ''/wd'' = Some ''/wd/a.ts''" "\<not> str_includes f ''..''"
  using assms by (elim insertE emptyE; simp add: canonicalTarget_def resolveFrom_def path_eval demoDiskView_def)+

lemma demo_relative: "relativePath ''/'' ''/wd'' ''/wd/a.ts'' = ''a.ts''" "\<not> outside ''a.ts''"
  by (simp_all add: path_eval)

lemma demo_target:
  assumes "f \<in> {''/wd/a.ts'', ''a.ts''}"
  shows "validateWritePathSafety (demoDiskView [(''/wd/a.ts'', c)]) f ''/wd'' a True = Inr (Inr (''/wd/a.ts'', ''a.ts''))"
proof -
  have "fs_exists (demoDiskView [(''/wd/a.ts'', c)]) ''/wd/a.ts''" "fs_cwd (demoDiskView [(''/wd/a.ts'', c)]) = ''/''"
    by (simp_all add: demoDiskView_def)
  then show ?thesis
    unfolding validateWritePathSafety_def by (simp only: demo_canonical [OF assms] demo_relative demo_names demo_workdir Let_def
      option.case sum.case if_True if_False simp_thms)
qed

lemma demo_atomic_run:
  "writeTextFileAtomic demoDisk demoWrite demoDir = (Inr \<lparr>wr_filePath = ''a.ts'', wr_bytesWritten = 3, wr_newHash = ''new'',
      wr_previousHash = Some ''old'', wr_created = False\<rparr>,
     \<lparr>fl_world = [(''/wd/a.ts'', ''new'')],
      fl_log = [WriteFile ''/wd/.a.ts.tmp-0a'' ''new'', Rename ''/wd/.a.ts.tmp-0a'' ''/wd/a.ts'']\<rparr>)"
  unfolding writeTextFileAtomic_def prepareWrite_def demoWrite_def demoDir_def
  by (simp add: demoDisk_def demo_target) (simp add: makeParent_def commitWrite_def existsSync_def perform_def tempPath_def path_eval
    joinPath_def normalize_def demoDiskView_def byteLength_def endsWith_def basename_def MAX_FILE_WRITE_BYTES_def demoDisk_def)

theorem atomic_write_all_or_nothing_witness:
  "\<exists>i. fl_log (snd (writeTextFileAtomic demoDisk demoWrite demoDir)) =
     [WriteFile (besideTarget ''/wd/a.ts'' i) ''new'', Rename (besideTarget ''/wd/a.ts'' i) ''/wd/a.ts'']"
proof -
  have logged: "fl_log demoDir = []" by (simp add: demoDir_def)
  show ?thesis using atomic_write_all_or_nothing [OF demo_atomic_run] unfolding demo_atomic_run snd_conv logged append_Nil
    by (fastforce simp: demoWrite_def)
qed

section \<open>What an edit writes\<close>

lemma startsWith_Nil_iff [simp]: "startsWith [] old \<longleftrightarrow> old = []"
  by (cases old) auto

lemma no_matches: "countMatches s old = 0 \<Longrightarrow> \<not> startsWith (drop j s) old"
proof (induction s arbitrary: j)
  case Nil
  then show ?case by (auto split: if_splits)
next
  case (Cons c s)
  then show ?case by (cases j) (auto split: if_splits)
qed

lemma one_match:
  assumes "countMatches s old = 1" "old \<noteq> []"
  shows "\<exists>i. indexOf s old = Some i \<and> (\<forall>j. startsWith (drop j s) old \<longleftrightarrow> j = i)"
  using assms(1)
proof (induction s)
  case Nil
  then show ?case using assms(2) by simp
next
  case (Cons c s)
  show ?case
  proof (cases "startsWith (c # s) old")
    case True
    then have "countMatches s old = 0" using Cons.prems by simp
    then have "startsWith (drop j (c # s)) old \<longleftrightarrow> j = 0" for j using True no_matches [of s old] by (cases j) auto
    then show ?thesis using True by auto
  next
    case False
    then obtain i where i: "indexOf s old = Some i" "\<And>j. startsWith (drop j s) old \<longleftrightarrow> j = i" using Cons by auto
    have "startsWith (drop j (c # s)) old \<longleftrightarrow> j = Suc i" for j using False i(2) by (cases j) auto
    then show ?thesis using False i(1) by auto
  qed
qed

lemma readTextFileForEdit_reads:
  assumes "readTextFileForEdit env filePath root enforce w = Inr (content, hash, True)"
  shows "\<exists>target rel. validateWritePathSafety (fe_view env w) filePath root True enforce = Inr (Inr (target, rel)) \<and>
     fe_readFile env w target = Inr content \<and> hash = fe_sha256 env content"
  using assms by (auto simp: readTextFileForEdit_def split: sum.splits if_splits)

lemma commit_target:
  assumes "writeTextFileAtomic env p s = (Inr res, s')" "\<not> wp_createDirs p"
    "validateWritePathSafety (fe_view env (fl_world s)) (wp_filePath p) (wp_root p) True (wp_enforce p) = Inr (Inr (target, rel))"
  shows "\<exists>temp. fl_log s' = fl_log s @ [WriteFile temp (wp_content p), Rename temp target]"
proof -
  obtain target' rel' prev where t: "prepareWrite env p (fl_world s) = Inr (target', rel', prev)"
    using assms(1) by (auto simp: writeTextFileAtomic_def split: sum.splits)
  have same: "target' = target" using prepareWrite_target(1) [OF t] assms(3) by simp
  obtain e1 s1 where mp: "makeParent env target (wp_createDirs p) s = (e1, s1)" by fastforce
  obtain e2 s2 where cw: "commitWrite env target (wp_content p) s1 = (e2, s2)" by fastforce
  have "e1 = None" "e2 = None" "s' = s2" using assms(1) t same mp cw by (auto simp: writeTextFileAtomic_def split: option.splits)
  moreover have "s1 = s" using mp assms(2) \<open>e1 = None\<close> by (auto simp: makeParent_def split: if_splits)
  ultimately show ?thesis using commitWrite_log [OF cw] by auto
qed

text \<open>
  C23: An edit that succeeds without \<open>replaceAll\<close> replaces the one occurrence of the old text: the target held the old
  text at exactly one position, nothing but that occurrence differs in what is written, the whole new content goes to a
  temporary file that is renamed to the target, and these are the only changes.
\<close>
theorem edit_replaces_only_occurrence:
  assumes "fileEdit env p workDirRoot s = (Inr r, s')" "tr_success r" "fep_replaceAll p \<noteq> Some True"
  shows "\<exists>before after target temp. let old = the (fep_oldString p); content = before @ old @ after in
     fe_readFile env (fl_world s) target = Inr content \<and> {j. startsWith (drop j content) old} = {length before} \<and>
     fl_log s' = fl_log s @ [WriteFile temp (before @ the (fep_newString p) @ after), Rename temp target]"
proof -
  define enforce where "enforce = truthy workDirRoot"
  obtain old new root content hash res where old: "fep_oldString p = Some old" "fep_newString p = Some new" "old \<noteq> []"
    and rd: "readTextFileForEdit env (the (fep_filePath p)) root enforce (fl_world s) = Inr (content, hash, True)"
    and once: "countMatches content old = 1"
    and wr: "writeTextFileAtomic env \<lparr>wp_filePath = the (fep_filePath p), wp_content = editContent content old new False,
        wp_root = root, wp_expectedHash = Some hash, wp_createDirs = False, wp_enforce = enforce\<rparr> s = (Inr res, s')"
    using assms unfolding fileEdit_def Let_def enforce_def
    by (auto simp: toolError_def split: if_splits option.splits sum.splits prod.splits)
  obtain target rel where t: "validateWritePathSafety (fe_view env (fl_world s)) (the (fep_filePath p)) root True enforce = Inr (Inr (target, rel))"
    and held: "fe_readFile env (fl_world s) target = Inr content"
    using readTextFileForEdit_reads [OF rd] by blast
  obtain i where i: "indexOf content old = Some i" and only: "\<And>j. startsWith (drop j content) old \<longleftrightarrow> j = i"
    using one_match [OF once old(3)] by blast
  have split: "content = take i content @ old @ drop (i + length old) content" "i + length old \<le> length content"
    using indexOf_Some [OF i] by blast+
  obtain temp where "fl_log s' = fl_log s @ [WriteFile temp (editContent content old new False), Rename temp target]"
    using commit_target [OF wr] t by auto
  then have "fl_log s' = fl_log s @ [WriteFile temp (take i content @ new @ drop (i + length old) content), Rename temp target]"
    by (simp add: editContent_def i)
  moreover have "{j. startsWith (drop j content) old} = {length (take i content)}" using only split(2) by auto
  ultimately show ?thesis using held old split(1) unfolding Let_def by (metis option.sel)
qed

definition demoEdit :: FileEditParams where
  "demoEdit = \<lparr>fep_filePath = Some ''a.ts'', fep_oldString = Some ''l'', fep_newString = Some ''$&'', fep_replaceAll = None,
     fep_expectedHash = None\<rparr>"

theorem edit_replaces_only_occurrence_witness:
  "\<exists>before after target temp. {j. startsWith (drop j (before @ ''l'' @ after)) ''l''} = {length before} \<and>
     fl_log (snd (fileEdit demoDisk demoEdit (Some ''/wd'') demoDir)) = [WriteFile temp (before @ ''$&'' @ after), Rename temp target]"
proof -
  have run: "fileEdit demoDisk demoEdit (Some ''/wd'') demoDir =
      (Inr (toolSuccess \<lparr>fer_filePath = ''a.ts'', fer_replaced = 1, fer_newHash = ''o$&d''\<rparr>),
       \<lparr>fl_world = [(''/wd/a.ts'', ''o$&d'')],
        fl_log = [WriteFile ''/wd/.a.ts.tmp-0a'' ''o$&d'', Rename ''/wd/.a.ts.tmp-0a'' ''/wd/a.ts'']\<rparr>)"
    unfolding fileEdit_def writeTextFileAtomic_def prepareWrite_def demoEdit_def demoDir_def readTextFileForEdit_def
    by (simp add: demoDisk_def demo_target js_simps workspaceRoot_def) (simp add: makeParent_def commitWrite_def existsSync_def perform_def
      tempPath_def path_eval joinPath_def normalize_def demoDiskView_def byteLength_def endsWith_def basename_def MAX_FILE_WRITE_BYTES_def
      demoDisk_def editContent_def MAX_FILE_EDIT_BYTES_def)
  have "tr_success (toolSuccess \<lparr>fer_filePath = ''a.ts'', fer_replaced = 1, fer_newHash = ''o$&d''\<rparr>)" "fep_replaceAll demoEdit \<noteq> Some True"
    by (simp_all add: toolSuccess_def demoEdit_def)
  from edit_replaces_only_occurrence [OF run this] obtain before after target temp where
    "{j. startsWith (drop j (before @ ''l'' @ after)) ''l''} = {length before}"
    "[WriteFile ''/wd/.a.ts.tmp-0a'' ''o$&d'', Rename ''/wd/.a.ts.tmp-0a'' ''/wd/a.ts''] = [WriteFile temp (before @ ''$&'' @ after), Rename temp target]"
    unfolding Let_def demoEdit_def demoDir_def file_state.simps FileEditParams.simps option.sel append_Nil by blast
  then show ?thesis unfolding run snd_conv file_state.simps by blast
qed

text \<open>Overlapping matches are counted, but only those that do not overlap are replaced: the count reported is too high.\<close>

lemma overlapping_matches_counted: "countMatches ''aaa'' ''aa'' = 2 \<and> editContent ''aaa'' ''aa'' ''b'' True = ''ba''"
  by code_simp

section \<open>What a patch reports\<close>

definition withStatus :: "string \<Rightarrow> OperationResult list \<Rightarrow> nat" where
  "withStatus st rs = length (filter (\<lambda>r. or_status r = st) rs)"

definition reports :: "FilePatchOperation \<Rightarrow> OperationResult \<Rightarrow> bool" where
  "reports op r = (or_filePath r = fp_filePath op \<and> or_type r = fp_type op \<and> or_status r \<in> {''applied'', ''failed'', ''skipped''})"

lemma result_ops [simp]: "reports op (appliedOp op)" "reports op (failedOp op e)" "reports op (skippedOp op)"
  "or_status (appliedOp op) = ''applied''" "or_status (failedOp op e) = ''failed''" "or_status (skippedOp op) = ''skipped''"
  by (simp_all add: reports_def appliedOp_def failedOp_def skippedOp_def)

lemma writeOp_reports: "writeOp env op p s = (r, stop, s') \<Longrightarrow> reports op r \<and> (stop \<longrightarrow> or_status r = ''failed'')"
  by (auto simp: writeOp_def split: prod.splits sum.splits)

lemma applyChange_reports:
  assumes "applyChange env root enforce op target s = (r, stop, s')"
  shows "reports op r \<and> (stop \<longrightarrow> or_status r = ''failed'')"
proof -
  have "applyAdd env root enforce op target s = (r, stop, s') \<Longrightarrow> ?thesis"
    using writeOp_reports by (fastforce simp: applyAdd_def split: if_splits)
  moreover have "applyUpdate env root enforce op s = (r, stop, s') \<Longrightarrow> ?thesis"
    using writeOp_reports by (fastforce simp: applyUpdate_def split: if_splits sum.splits prod.splits)
  moreover have "applyDelete env op target s = (r, stop, s') \<Longrightarrow> ?thesis"
    by (auto simp: applyDelete_def split: if_splits prod.splits option.splits)
  ultimately show ?thesis using assms by (auto simp only: applyChange_def split: if_splits)
qed

definition faithfulReport :: "FilePatchOperation list \<Rightarrow> PatchProgress \<Rightarrow> PatchProgress \<Rightarrow> bool" where
  "faithfulReport ops g g' = (\<exists>rs. pg_results g' = pg_results g @ rs \<and> list_all2 reports (take (length rs) ops) rs \<and>
     pg_applied g' = pg_applied g + withStatus ''applied'' rs \<and> pg_failed g' = pg_failed g + withStatus ''failed'' rs \<and>
     (length rs < length ops \<longrightarrow> 0 < withStatus ''failed'' rs))"

lemma pushResult_report:
  "reports op r \<Longrightarrow> or_status r = ''failed'' \<Longrightarrow> faithfulReport (op # ops) g (pushResult r g)"
  unfolding faithfulReport_def by (rule exI [of _ "[r]"]) (simp add: pushResult_def withStatus_def)

lemma pushResult_report_Cons:
  assumes "reports op r" "faithfulReport ops (pushResult r g) g'"
  shows "faithfulReport (op # ops) g g'"
proof -
  obtain rs where "pg_results g' = pg_results g @ r # rs" "list_all2 reports (take (length rs) ops) rs"
    "pg_applied g' = pg_applied g + withStatus ''applied'' (r # rs)" "pg_failed g' = pg_failed g + withStatus ''failed'' (r # rs)"
    "length rs < length ops \<longrightarrow> 0 < withStatus ''failed'' rs"
    using assms(2) by (auto simp: faithfulReport_def pushResult_def withStatus_def)
  then show ?thesis unfolding faithfulReport_def using assms(1)
    by (intro exI [of _ "r # rs"]) (simp add: withStatus_def)
qed

lemma applyOps_report:
  "applyOps env root enforce dryRun ops g s = (Inr g', s') \<Longrightarrow> faithfulReport ops g g' \<and> (dryRun \<longrightarrow> s' = s \<and> pg_applied g' = pg_applied g)"
proof (induction env root enforce dryRun ops g s rule: applyOps.induct)
  case (1 env root enforce dryRun g s)
  then show ?case by (auto simp: faithfulReport_def withStatus_def)
next
  case (2 env root enforce dryRun op ops g s)
  let ?v = "validateWritePathSafety (fe_view env (fl_world s)) (fp_filePath op) root True enforce"
  consider (thrown) e where "?v = Inl e" | (unsafe) code where "?v = Inr (Inl code)" | (safe) target rel where "?v = Inr (Inr (target, rel))"
    by (metis old.sum.exhaust surj_pair)
  then show ?case
  proof cases
    case thrown
    then show ?thesis using 2(3) by simp
  next
    case unsafe
    then have "g' = pushResult (failedOp op code) g" "s' = s" using 2(3) by simp_all
    then show ?thesis using pushResult_report [of op "failedOp op code"] by (simp add: pushResult_def)
  next
    case safe
    show ?thesis
    proof (cases dryRun)
      case True
      have "applyOps env root enforce dryRun ops (pushResult (skippedOp op) g) s = (Inr g', s')" using 2(3) safe True by simp
      from 2(1) [OF safe refl refl True this] show ?thesis using pushResult_report_Cons [of op "skippedOp op" ops g g'] True
        by (simp add: pushResult_def)
    next
      case False
      obtain x stop s1 where c: "applyChange env root enforce op target s = (x, stop, s1)" by (cases "applyChange env root enforce op target s")
      note rep = applyChange_reports [OF c]
      show ?thesis
      proof (cases stop)
        case True
        then have "g' = pushResult x g" using 2(3) safe False c by simp
        then show ?thesis using pushResult_report [of op x] rep True False by simp
      next
        case go: False
        have "applyOps env root enforce dryRun ops (pushResult x g) s1 = (Inr g', s')" using 2(3) safe False c go by simp
        from 2(2) [OF safe refl refl False c [symmetric] refl go this] show ?thesis
          using pushResult_report_Cons rep False by blast
      qed
    qed
  qed
qed

text \<open>
  A patch reports what it did: the results are those of the first operations of the patch, in order, each with its
  path and kind; the counters are the numbers of applied and failed ones; an operation is left out only after a failure,
  so the tool succeeds exactly if every operation was reported and none failed; and a dry run applies none and leaves the
  disk and the list of changes as they were.
\<close>
theorem patch_report_faithful:
  assumes "fileApplyPatch env p workDirRoot s = (Inr r, s')" "tr_data r = Some g"
  shows "\<exists>ops. patchOperations p = Inr ops \<and> list_all2 reports (take (length (pg_results g)) ops) (pg_results g) \<and>
     pg_applied g = withStatus ''applied'' (pg_results g) \<and> pg_failed g = withStatus ''failed'' (pg_results g) \<and>
     (tr_success r \<longleftrightarrow> list_all2 reports ops (pg_results g) \<and> withStatus ''failed'' (pg_results g) = 0) \<and>
     (fpp_dryRun p = Some True \<longrightarrow> s' = s \<and> pg_applied g = 0)"
proof -
  obtain ops root where ops: "patchOperations p = Inr ops" and success: "tr_success r = (pg_failed g = 0)"
    and run: "applyOps env root (truthy workDirRoot) (fpp_dryRun p = Some True) ops \<lparr>pg_applied = 0, pg_failed = 0, pg_results = []\<rparr> s = (Inr g, s')"
    using assms by (auto simp: fileApplyPatch_def toolError_def split: if_splits sum.splits option.splits prod.splits)
  have report: "faithfulReport ops \<lparr>pg_applied = 0, pg_failed = 0, pg_results = []\<rparr> g"
    and dry: "fpp_dryRun p = Some True \<longrightarrow> s' = s \<and> pg_applied g = 0"
    using applyOps_report [OF run] by simp_all
  have prefix_ok: "list_all2 reports (take (length (pg_results g)) ops) (pg_results g)"
    and counts: "pg_applied g = withStatus ''applied'' (pg_results g)" "pg_failed g = withStatus ''failed'' (pg_results g)"
    and short: "length (pg_results g) < length ops \<longrightarrow> 0 < withStatus ''failed'' (pg_results g)"
    using report by (auto simp: faithfulReport_def)
  have "list_all2 reports ops (pg_results g)" if "withStatus ''failed'' (pg_results g) = 0"
    using that short prefix_ok by simp
  then show ?thesis using ops prefix_ok counts success dry by auto
qed

definition demoPatch :: FileApplyPatchParams where
  "demoPatch = \<lparr>fpp_operations = Some [deleteOp ''../x'', deleteOp ''y''], fpp_patch = None, fpp_dryRun = Some True\<rparr>"

theorem patch_report_faithful_witness:
  "fileApplyPatch demoDisk demoPatch (Some ''/wd'') demoDir =
     (Inr \<lparr>tr_success = False, tr_data = Some \<lparr>pg_applied = 0, pg_failed = 1, pg_results = [failedOp (deleteOp ''../x'') ''PATH_ESCAPE'']\<rparr>,
        tr_error = Some (''OPERATIONS_FAILED'', True)\<rparr>, demoDir) \<and> withStatus ''failed'' [failedOp (deleteOp ''../x'') ''PATH_ESCAPE''] = 1"
proof -
  have run: "fileApplyPatch demoDisk demoPatch (Some ''/wd'') demoDir =
     (Inr \<lparr>tr_success = False, tr_data = Some \<lparr>pg_applied = 0, pg_failed = 1, pg_results = [failedOp (deleteOp ''../x'') ''PATH_ESCAPE'']\<rparr>,
        tr_error = Some (''OPERATIONS_FAILED'', True)\<rparr>, demoDir)"
    by (simp add: fileApplyPatch_def demoPatch_def patchOperations_def truthy_def validateOperations_def operationErrors_ops workspaceRoot_def
        validateWritePathSafety_def deleteOp_def operationErrors_def Let_def str_includes_def pushResult_def failedOp_def)
  from patch_report_faithful [OF run] run show ?thesis by auto
qed

end
