(* ===== verification/Tool_Plane.thy ===== *)
theory Tool_Plane
  imports File_Tools Access_Control Plan_Generation Workflow_Stores
begin

text \<open>
  What the tool executor works with: tool names (\<open>tools/tool-name.ts\<close>), the registry and the tool pool
  (\<open>tools/tool-registry.ts\<close>), the table of tool executions (\<open>storage/tool-execution-store.ts\<close>), the check of the
  parameters against the schema of a tool, and the resource and operation type a call is checked for
  (\<open>tools/tool-executor.ts\<close>). A handler is an argument: a function of the parameters and an arbitrary world that
  throws or returns a result. Parameters are JSON values.
\<close>

section \<open>Tool names\<close>

definition TOOL_NAME_MAX_LENGTH :: nat where "TOOL_NAME_MAX_LENGTH = 64"

definition legalNameChar :: "char \<Rightarrow> bool" where
  "legalNameChar c = (alnum c \<or> c = CHR ''_'' \<or> c = CHR ''-'')"

definition isValidToolName :: "string \<Rightarrow> bool" where
  "isValidToolName name = (1 \<le> length name \<and> length name \<le> 64 \<and> list_all legalNameChar name)"

text \<open>A global replacement of every run of matching characters by one underscore.\<close>

function replaceRuns :: "(char \<Rightarrow> bool) \<Rightarrow> string \<Rightarrow> string" where
  "replaceRuns P [] = []"
| "replaceRuns P (c # cs) = (if P c then CHR ''_'' # replaceRuns P (dropWhile P cs) else c # replaceRuns P cs)"
  by pat_completeness auto

termination
  by (relation "measure (\<lambda>(P, s). length s)") (auto intro: le_imp_less_Suc length_dropWhile_le)

definition stripUnderscores :: "string \<Rightarrow> string" where
  "stripUnderscores s = rev (dropWhile (\<lambda>c. c = CHR ''_'') (rev (dropWhile (\<lambda>c. c = CHR ''_'') s)))"

definition sanitizeToolName :: "string \<Rightarrow> string" where
  "sanitizeToolName name = (let sanitized = take TOOL_NAME_MAX_LENGTH
       (stripUnderscores (replaceRuns (\<lambda>c. c = CHR ''_'') (replaceRuns (\<lambda>c. \<not> legalNameChar c) name))) in
     if sanitized = [] then ''tool'' else sanitized)"

section \<open>Tools and the registry\<close>

record ToolSchema =
  sc_type :: string
  sc_properties :: "(string \<times> json) list option"
  sc_required :: "string list option"

record RuntimeContextDelta =
  cd_runId :: "string option"
  cd_source :: "string option"
  cd_content :: json

record ToolExecutionEvent =
  tev_eventType :: string
  tev_payload :: json
  tev_timestamp :: timestamp

record ToolExecutionResult =
  ter_success :: bool
  ter_error :: "(string \<times> string \<times> bool) option"
  ter_resultPreview :: "string option"
  ter_resultRef :: "string option"
  ter_structuredContent :: "json option"
  ter_contextDelta :: "RuntimeContextDelta option"
  ter_events :: "ToolExecutionEvent list"

record ToolExecutionContext =
  txc_toolCallId :: string
  txc_toolName :: string
  txc_userId :: string
  txc_sessionId :: "string option"
  txc_kernelRunId :: "string option"
  txc_agentType :: "string option"
  txc_workDirRoot :: "string option"
  txc_workDirId :: "string option"

record 'w ToolDefinition =
  td_name :: string
  td_description :: string
  td_category :: string
  td_sensitivity :: string
  td_schema :: ToolSchema
  td_handler :: "json \<Rightarrow> ToolExecutionContext \<Rightarrow> 'w \<Rightarrow> (string + ToolExecutionResult) \<times> 'w"

type_synonym 'w toolMap = "(string, 'w ToolDefinition) jsmap"

definition registerTool :: "'w ToolDefinition \<Rightarrow> bool \<Rightarrow> 'w toolMap \<Rightarrow> string + 'w toolMap" where
  "registerTool definition overwriteExisting tools =
     (if \<not> isValidToolName (td_name definition) then Inl (''Invalid tool name: '' @ quoted (td_name definition))
      else if mapHas tools (td_name definition) \<and> \<not> overwriteExisting then Inl (''Tool already registered: '' @ td_name definition)
      else Inr (mapSet (td_name definition) definition tools))"

definition getTool :: "'w toolMap \<Rightarrow> string \<Rightarrow> 'w ToolDefinition option" where
  "getTool tools name = mapGet tools name"

definition listTools :: "'w toolMap \<Rightarrow> 'w ToolDefinition list" where
  "listTools tools = map snd tools"

definition listToolsByCategory :: "'w toolMap \<Rightarrow> string \<Rightarrow> 'w ToolDefinition list" where
  "listToolsByCategory tools category = filter (\<lambda>t. td_category t = category) (listTools tools)"

definition unregisterTool :: "string \<Rightarrow> 'w toolMap \<Rightarrow> bool \<times> 'w toolMap" where
  "unregisterTool name tools = (mapHas tools name, mapDelete name tools)"

record ToolPoolAssemblyOptions =
  tpo_includeCategories :: "string list option"
  tpo_excludeTools :: "string list option"
  tpo_maxTools :: "nat option"

definition assembleToolPool :: "'w toolMap \<Rightarrow> ToolPoolAssemblyOptions \<Rightarrow> 'w ToolDefinition list \<times> (string, nat) jsmap" where
  "assembleToolPool registry options = (let
     tools = listTools registry;
     tools = (if nullish (tpo_includeCategories options) [] \<noteq> [] then filter (\<lambda>t. td_category t \<in> set (the (tpo_includeCategories options))) tools else tools);
     tools = (if nullish (tpo_excludeTools options) [] \<noteq> [] then filter (\<lambda>t. td_name t \<notin> set (the (tpo_excludeTools options))) tools else tools);
     maxTools = nullish (tpo_maxTools options) 0;
     tools = (if maxTools \<noteq> 0 \<and> length tools > maxTools then take maxTools tools else tools)
     in (tools, fold (\<lambda>t counts. mapSet (td_category t) (nullish (mapGet counts (td_category t)) 0 + 1) counts) tools []))"

section \<open>The table of executions\<close>

record ToolExecution =
  tx_toolCallId :: string
  tx_toolName :: string
  tx_userId :: string
  tx_sessionId :: "string option"
  tx_kernelRunId :: "string option"
  tx_status :: string
  tx_params :: "json option"
  tx_resultPreview :: "string option"
  tx_resultRef :: "string option"
  tx_structuredContent :: "json option"
  tx_sensitivity :: string
  tx_errorMessage :: "string option"
  tx_startedAt :: timestamp
  tx_completedAt :: "timestamp option"
  tx_terminal :: bool
  tx_tenantId :: string

type_synonym executionTable = "ToolExecution list"

definition TERMINAL_TOOL_STATES :: "string list" where
  "TERMINAL_TOOL_STATES = [''completed'', ''failed'', ''denied'', ''aborted'', ''cancelled'', ''discarded'', ''timeout'']"

definition isTerminalToolState :: "string \<Rightarrow> bool" where
  "isTerminalToolState status = (status \<in> set TERMINAL_TOOL_STATES)"

text \<open>\<open>tool_call_id\<close> is the primary key, across tenants: a second row with it is a constraint error.\<close>

definition createExecution :: "timestamp \<Rightarrow> ToolExecution \<Rightarrow> executionTable \<Rightarrow> string + executionTable" where
  "createExecution now x t =
     (if list_ex (\<lambda>r. tx_toolCallId r = tx_toolCallId x) t then Inl ''UNIQUE constraint failed: tool_executions.tool_call_id''
      else Inr (t @ [x\<lparr>tx_startedAt := now, tx_completedAt := (if isTerminalToolState (tx_status x) then Some now else None),
        tx_terminal := isTerminalToolState (tx_status x)\<rparr>]))"

definition atRow :: "string \<Rightarrow> string \<Rightarrow> (ToolExecution \<Rightarrow> ToolExecution) \<Rightarrow> executionTable \<Rightarrow> executionTable" where
  "atRow toolCallId tenantId f t = map (\<lambda>r. if tx_toolCallId r = toolCallId \<and> tx_tenantId r = tenantId then f r else r) t"

definition updateExecutionStatus :: "timestamp \<Rightarrow> string \<Rightarrow> string \<Rightarrow> string \<Rightarrow> string option \<Rightarrow> executionTable \<Rightarrow> executionTable" where
  "updateExecutionStatus now toolCallId status tenantId errorMessage = atRow toolCallId tenantId
     (\<lambda>r. r\<lparr>tx_status := status, tx_errorMessage := nullish_opt errorMessage (tx_errorMessage r),
        tx_completedAt := (if isTerminalToolState status then Some now else tx_completedAt r), tx_terminal := isTerminalToolState status\<rparr>)"

definition saveExecutionResult :: "string \<Rightarrow> string option \<Rightarrow> string option \<Rightarrow> json option \<Rightarrow> string \<Rightarrow> executionTable \<Rightarrow> executionTable" where
  "saveExecutionResult toolCallId preview ref content tenantId = atRow toolCallId tenantId
     (\<lambda>r. r\<lparr>tx_resultPreview := preview, tx_resultRef := ref, tx_structuredContent := content\<rparr>)"

definition getExecutionById :: "executionTable \<Rightarrow> string \<Rightarrow> string \<Rightarrow> ToolExecution option" where
  "getExecutionById t toolCallId tenantId = find (\<lambda>r. tx_toolCallId r = toolCallId \<and> tx_tenantId r = tenantId) t"

definition executionsWhere :: "(ToolExecution \<Rightarrow> bool) \<Rightarrow> executionTable \<Rightarrow> string \<Rightarrow> ToolExecution list" where
  "executionsWhere P t tenantId = orderByDesc tx_startedAt (filter (\<lambda>r. P r \<and> tx_tenantId r = tenantId) t)"

definition getByToolName :: "executionTable \<Rightarrow> string \<Rightarrow> string \<Rightarrow> ToolExecution list" where
  "getByToolName t toolName = executionsWhere (\<lambda>r. tx_toolName r = toolName) t"

definition getExecutionsBySession :: "executionTable \<Rightarrow> string \<Rightarrow> string \<Rightarrow> ToolExecution list" where
  "getExecutionsBySession t sessionId = executionsWhere (\<lambda>r. tx_sessionId r = Some sessionId) t"

definition getBySensitivity :: "executionTable \<Rightarrow> string \<Rightarrow> string \<Rightarrow> ToolExecution list" where
  "getBySensitivity t sensitivity = executionsWhere (\<lambda>r. tx_sensitivity r = sensitivity) t"

definition getPendingByKernelRunId :: "executionTable \<Rightarrow> string \<Rightarrow> string \<Rightarrow> ToolExecution list" where
  "getPendingByKernelRunId t kernelRunId = executionsWhere (\<lambda>r. tx_kernelRunId r = Some kernelRunId \<and> \<not> tx_terminal r) t"

definition getExecutionsByStatus :: "executionTable \<Rightarrow> string \<Rightarrow> string \<Rightarrow> ToolExecution list" where
  "getExecutionsByStatus t status = executionsWhere (\<lambda>r. tx_status r = status) t"

section \<open>The schema check\<close>

fun typeName :: "json \<Rightarrow> string" where
  "typeName JNull = ''null''"
| "typeName (JBool b) = ''boolean''"
| "typeName (JNum n) = ''number''"
| "typeName (JStr s) = ''string''"
| "typeName (JArr xs) = ''array''"
| "typeName (JObj kvs) = ''object''"

text \<open>
  The names the \<open>in\<close> operator finds on every plain object and on every array besides their own properties (the
  string-named ones of the prototypes in the Node versions the package asks for), and the entries of a value of type
  \<open>object\<close>. An array also has its length as a property of its own, which is no entry.
\<close>

definition OBJECT_PROTOTYPE :: "string list" where
  "OBJECT_PROTOTYPE = [''constructor'', ''__defineGetter__'', ''__defineSetter__'', ''hasOwnProperty'', ''__lookupGetter__'',
     ''__lookupSetter__'', ''isPrototypeOf'', ''propertyIsEnumerable'', ''toString'', ''valueOf'', ''__proto__'', ''toLocaleString'']"

definition ARRAY_PROTOTYPE :: "string list" where
  "ARRAY_PROTOTYPE = [''at'', ''concat'', ''copyWithin'', ''entries'', ''every'', ''fill'', ''filter'', ''find'', ''findIndex'', ''findLast'',
     ''findLastIndex'', ''flat'', ''flatMap'', ''forEach'', ''includes'', ''indexOf'', ''join'', ''keys'', ''lastIndexOf'', ''map'', ''pop'', ''push'',
     ''reduce'', ''reduceRight'', ''reverse'', ''shift'', ''slice'', ''some'', ''sort'', ''splice'', ''toReversed'', ''toSorted'', ''toSpliced'',
     ''unshift'', ''values'', ''with'']"

definition entries :: "json \<Rightarrow> (string \<times> json) list" where
  "entries v = (case v of JObj kvs \<Rightarrow> kvs | JArr xs \<Rightarrow> map (\<lambda>(i, x). (nat_str i, x)) (enumerate 0 xs) | _ \<Rightarrow> [])"

definition hasProperty :: "string \<Rightarrow> json \<Rightarrow> bool" where
  "hasProperty k v = (k \<in> set (map fst (entries v)) \<or> k \<in> set OBJECT_PROTOTYPE \<or>
     (typeName v = ''array'' \<and> (k = ''length'' \<or> k \<in> set ARRAY_PROTOTYPE)))"

definition CHECKED_TYPES :: "string list" where
  "CHECKED_TYPES = [''number'', ''string'', ''boolean'', ''array'', ''object'']"

definition inQuotes :: "string \<Rightarrow> string" where
  "inQuotes s = [CHR 0x27] @ s @ [CHR 0x27]"

definition typeError :: "(string \<times> json) list \<Rightarrow> string \<times> json \<Rightarrow> string list" where
  "typeError properties kv = (case map_of properties (fst kv) of
     Some (JObj propertySchema) \<Rightarrow> (case map_of propertySchema ''type'' of
         Some (JStr expectedType) \<Rightarrow>
           if expectedType \<in> set CHECKED_TYPES \<and> typeName (snd kv) \<noteq> expectedType
           then [''Field '' @ inQuotes (fst kv) @ '' must be of type '' @ inQuotes expectedType @ '', got '' @ inQuotes (typeName (snd kv))] else []
       | _ \<Rightarrow> [])
   | _ \<Rightarrow> [])"

definition validateParams :: "json \<Rightarrow> ToolSchema \<Rightarrow> string list" where
  "validateParams params schema =
     (if sc_type schema \<noteq> ''object'' then []
      else if typeName params \<notin> {''object'', ''array''} then [''Params must be an object'']
      else map (\<lambda>r. ''Missing required field: '' @ r) (filter (\<lambda>r. \<not> hasProperty r params) (nullish (sc_required schema) [])) @
        (case sc_properties schema of None \<Rightarrow> [] | Some ps \<Rightarrow> concat (map (typeError ps) (entries params))))"

section \<open>What a call is checked for\<close>

definition categoryToOperationType :: "string \<Rightarrow> string" where
  "categoryToOperationType category =
     (if category \<in> {''read'', ''search'', ''internal''} then ''read''
      else if category \<in> {''write'', ''send''} then ''write''
      else if category = ''delete'' then ''delete''
      else if category \<in> {''execute'', ''automation''} then ''execute''
      else if category \<in> {''admin'', ''connector''} then ''admin''
      else ''read'')"

definition collectPatchOperationPaths :: "json \<Rightarrow> string list" where
  "collectPatchOperationPaths params =
     (if \<not> isRecord params then []
      else case field params ''operations'' of
        Some (JArr operations) \<Rightarrow> List.map_filter (\<lambda>operation. textProp operation ''filePath'') operations
      | _ \<Rightarrow> (case textProp params ''patch'' of
          None \<Rightarrow> []
        | Some patch \<Rightarrow> (case parsePatchText patch of Inl e \<Rightarrow> [] | Inr p \<Rightarrow> map fp_filePath (pp_operations p))))"

definition derivePatchPermissionResource :: "filesystem \<Rightarrow> json \<Rightarrow> string \<Rightarrow> string" where
  "derivePatchPermissionResource fs params workDirRoot = (let rawPaths = collectPatchOperationPaths params in
     if rawPaths = [] then ''file_apply_patch''
     else let resolvedPaths = map (\<lambda>rawPath. if isAbsolute rawPath then rawPath else resolveFrom (fs_cwd fs) workDirRoot rawPath) rawPaths in
       (case find (\<lambda>resolvedPath. \<not> isWithinWorkdir fs resolvedPath workDirRoot) resolvedPaths of
          Some outsidePath \<Rightarrow> (if outsidePath \<noteq> [] then outsidePath else workDirRoot)
        | None \<Rightarrow> workDirRoot))"

definition derivePermissionResource :: "filesystem \<Rightarrow> string \<Rightarrow> json \<Rightarrow> string option \<Rightarrow> string" where
  "derivePermissionResource fs toolName params workDirRoot =
     (if \<not> truthy workDirRoot \<or> \<not> isWorkdirFileTool toolName then toolName
      else if toolName = ''file_apply_patch'' then derivePatchPermissionResource fs params (the workDirRoot)
      else case nullish_opt (textProp params ''filePath'') (textProp params ''path'') of
        None \<Rightarrow> toolName
      | Some rawPath \<Rightarrow>
          if rawPath = [] then toolName
          else if isAbsolute rawPath then rawPath
          else resolveFrom (fs_cwd fs) (the workDirRoot) rawPath)"

section \<open>Properties\<close>

lemma replaceRuns_legal:
  "(\<And>c. \<not> P c \<Longrightarrow> c \<in> set s \<Longrightarrow> legalNameChar c) \<Longrightarrow> list_all legalNameChar (replaceRuns P s)"
proof (induction P s rule: replaceRuns.induct)
  case (2 P c cs)
  have "legalNameChar CHR ''_''" by (simp add: legalNameChar_def)
  then show ?case using 2 by (cases "P c") (auto dest: set_dropWhileD)
qed simp

lemma list_all_strip: "list_all P s \<Longrightarrow> list_all P (stripUnderscores s)"
  by (auto simp: stripUnderscores_def list_all_iff dest!: set_dropWhileD)

text \<open>
  C37: Every name the bridges generate is legal: whatever the string, its sanitised form is a valid tool name, so that
  registering a tool under it fails only if the name is taken.
\<close>
theorem sanitized_names_legal:
  "isValidToolName (sanitizeToolName name) \<and>
   (registerTool (td\<lparr>td_name := sanitizeToolName name\<rparr>) overwrite tools =
      (if mapHas tools (sanitizeToolName name) \<and> \<not> overwrite then Inl (''Tool already registered: '' @ sanitizeToolName name)
       else Inr (mapSet (sanitizeToolName name) (td\<lparr>td_name := sanitizeToolName name\<rparr>) tools)))"
proof -
  define t where "t = stripUnderscores (replaceRuns (\<lambda>c. c = CHR ''_'') (replaceRuns (\<lambda>c. \<not> legalNameChar c) name))"
  have runs: "list_all legalNameChar (replaceRuns (\<lambda>c. \<not> legalNameChar c) name)" by (rule replaceRuns_legal) simp
  have "list_all legalNameChar t"
    unfolding t_def using runs by (intro list_all_strip replaceRuns_legal) (auto simp: list_all_iff)
  then have "list_all legalNameChar (take 64 t)" by (auto simp: list_all_iff dest: in_set_takeD)
  moreover have "isValidToolName ''tool''" by (simp add: isValidToolName_def legalNameChar_def alnum_def)
  ultimately have "isValidToolName (sanitizeToolName name)"
    unfolding sanitizeToolName_def TOOL_NAME_MAX_LENGTH_def t_def [symmetric] Let_def
    by (cases "take 64 t = []") (auto simp: isValidToolName_def Suc_le_eq)
  then show ?thesis by (simp add: registerTool_def)
qed

lemma typeName_cases:
  "typeName v = ''number'' \<longleftrightarrow> (\<exists>n. v = JNum n)" "typeName v = ''string'' \<longleftrightarrow> (\<exists>t. v = JStr t)"
  "typeName v = ''boolean'' \<longleftrightarrow> (\<exists>b. v = JBool b)" "typeName v = ''array'' \<longleftrightarrow> (\<exists>xs. v = JArr xs)"
  "typeName v = ''object'' \<longleftrightarrow> (\<exists>kvs. v = JObj kvs)"
  by (cases v; simp)+

lemma typeError_none:
  "typeError ps kv = [] \<longleftrightarrow> (\<forall>propertySchema expectedType. map_of ps (fst kv) = Some (JObj propertySchema) \<and>
     map_of propertySchema ''type'' = Some (JStr expectedType) \<longrightarrow>
     (expectedType = ''number'' \<longrightarrow> (\<exists>n. snd kv = JNum n)) \<and> (expectedType = ''string'' \<longrightarrow> (\<exists>t. snd kv = JStr t)) \<and>
     (expectedType = ''boolean'' \<longrightarrow> (\<exists>b. snd kv = JBool b)) \<and> (expectedType = ''array'' \<longrightarrow> (\<exists>xs. snd kv = JArr xs)) \<and>
     (expectedType = ''object'' \<longrightarrow> (\<exists>kvs. snd kv = JObj kvs)))"
proof (cases "\<exists>propertySchema expectedType. map_of ps (fst kv) = Some (JObj propertySchema) \<and> map_of propertySchema ''type'' = Some (JStr expectedType)")
  case True
  then obtain propertySchema expectedType where t: "map_of ps (fst kv) = Some (JObj propertySchema)" "map_of propertySchema ''type'' = Some (JStr expectedType)"
    by blast
  have "typeError ps kv = [] \<longleftrightarrow> (expectedType \<in> set CHECKED_TYPES \<longrightarrow> typeName (snd kv) = expectedType)" by (simp add: typeError_def t)
  then show ?thesis unfolding typeName_cases [symmetric] by (simp add: t CHECKED_TYPES_def)
next
  case False
  then have "typeError ps kv = []" by (auto simp: typeError_def split: option.splits json.splits)
  then show ?thesis using False by blast
qed

text \<open>
  C33: The schema check accepts exactly the conforming parameters. A schema of another type than \<open>object\<close> accepts
  everything. Otherwise the parameters are an object or an array; every required name is one of their own entries, the length of
  an array or an inherited name; and every entry whose schema asks for a number, a string, a boolean, an array or an object is
  one, where an array is no object and null is none of them.
\<close>
theorem schema_check_exact:
  "validateParams params schema = [] \<longleftrightarrow> sc_type schema \<noteq> ''object'' \<or>
     ((\<exists>kvs. params = JObj kvs) \<or> (\<exists>xs. params = JArr xs)) \<and>
     (\<forall>r \<in> set (nullish (sc_required schema) []). (\<exists>v. (r, v) \<in> set (entries params)) \<or> r \<in> set OBJECT_PROTOTYPE \<or>
        (\<exists>xs. params = JArr xs) \<and> (r = ''length'' \<or> r \<in> set ARRAY_PROTOTYPE)) \<and>
     (\<forall>(k, v) \<in> set (entries params). \<forall>ps propertySchema expectedType. sc_properties schema = Some ps \<and>
        map_of ps k = Some (JObj propertySchema) \<and> map_of propertySchema ''type'' = Some (JStr expectedType) \<longrightarrow>
        (expectedType = ''number'' \<longrightarrow> (\<exists>n. v = JNum n)) \<and> (expectedType = ''string'' \<longrightarrow> (\<exists>t. v = JStr t)) \<and>
        (expectedType = ''boolean'' \<longrightarrow> (\<exists>b. v = JBool b)) \<and> (expectedType = ''array'' \<longrightarrow> (\<exists>xs. v = JArr xs)) \<and>
        (expectedType = ''object'' \<longrightarrow> (\<exists>kvs. v = JObj kvs)))"
proof -
  have types: "((case sc_properties schema of None \<Rightarrow> [] | Some ps \<Rightarrow> concat (map (typeError ps) (entries params))) = []) =
      (\<forall>kv \<in> set (entries params). \<forall>ps. sc_properties schema = Some ps \<longrightarrow> typeError ps kv = [])"
    by (cases "sc_properties schema") auto
  have has: "hasProperty r params \<longleftrightarrow> (\<exists>v. (r, v) \<in> set (entries params)) \<or> r \<in> set OBJECT_PROTOTYPE \<or>
      (\<exists>xs. params = JArr xs) \<and> (r = ''length'' \<or> r \<in> set ARRAY_PROTOTYPE)" for r
    by (force simp: hasProperty_def typeName_cases)
  have shape: "typeName params \<in> {''object'', ''array''} \<longleftrightarrow> (\<exists>kvs. params = JObj kvs) \<or> (\<exists>xs. params = JArr xs)"
    using typeName_cases(4,5) [of params] by simp
  have "validateParams params schema = [] \<longleftrightarrow> sc_type schema \<noteq> ''object'' \<or> typeName params \<in> {''object'', ''array''} \<and>
      (\<forall>r \<in> set (nullish (sc_required schema) []). hasProperty r params) \<and>
      (\<forall>(k, v) \<in> set (entries params). \<forall>ps. sc_properties schema = Some ps \<longrightarrow> typeError ps (k, v) = [])"
    unfolding validateParams_def using types by (simp add: filter_empty_conv split_beta del: insert_iff)
  moreover have "(\<forall>ps. sc_properties schema = Some ps \<longrightarrow> (\<forall>a b. P ps a b \<longrightarrow> Q a b)) \<longleftrightarrow> (\<forall>ps a b. sc_properties schema = Some ps \<and> P ps a b \<longrightarrow> Q a b)"
    for P :: "(string \<times> json) list \<Rightarrow> (string \<times> json) list \<Rightarrow> string \<Rightarrow> bool" and Q by blast
  ultimately show ?thesis unfolding shape has typeError_none fst_conv snd_conv by (simp only: split_conv)
qed

theorem schema_check_exact_witness:
  "validateParams (JObj [(''filePath'', JStr ''a''), (''overwrite'', JNum 1)])
     \<lparr>sc_type = ''object'', sc_properties = Some [(''overwrite'', JObj [(''type'', JStr ''boolean'')])], sc_required = Some [''filePath'']\<rparr> \<noteq> [] \<and>
   validateParams (JObj [(''filePath'', JStr ''a''), (''overwrite'', JBool True)])
     \<lparr>sc_type = ''object'', sc_properties = Some [(''overwrite'', JObj [(''type'', JStr ''boolean'')])], sc_required = Some [''filePath'']\<rparr> = []"
  (is "validateParams ?p ?s \<noteq> [] \<and> validateParams ?q ?s = []")
  unfolding schema_check_exact by (simp add: entries_def nullish_def) blast

section \<open>The paths a patch is checked for\<close>

text \<open>The parameters of \<open>file_apply_patch\<close> as the JSON value the executor is given: a field that is undefined is left out.\<close>

definition definedField :: "string \<Rightarrow> json option \<Rightarrow> (string \<times> json) list" where
  "definedField k v = (case v of None \<Rightarrow> [] | Some x \<Rightarrow> [(k, x)])"

definition operationJson :: "FilePatchOperation \<Rightarrow> json" where
  "operationJson op = JObj ([(''type'', JStr (fp_type op)), (''filePath'', JStr (fp_filePath op))] @
     definedField ''content'' (map_option JStr (fp_content op)) @ definedField ''oldString'' (map_option JStr (fp_oldString op)) @
     definedField ''newString'' (map_option JStr (fp_newString op)) @ definedField ''expectedHash'' (map_option JStr (fp_expectedHash op)))"

definition patchJson :: "FileApplyPatchParams \<Rightarrow> json" where
  "patchJson p = JObj (definedField ''operations'' (map_option (\<lambda>ops. JArr (map operationJson ops)) (fpp_operations p)) @
     definedField ''patch'' (map_option JStr (fpp_patch p)) @ definedField ''dryRun'' (map_option JBool (fpp_dryRun p)))"

lemma operationJson_path: "textProp (operationJson op) ''filePath'' = Some (fp_filePath op)"
  by (simp add: operationJson_def textProp_def field_def)

lemma checked_paths:
  assumes "patchOperations p = Inr ops" "(fpp_operations p = None) = truthy (fpp_patch p)"
  shows "collectPatchOperationPaths (patchJson p) = map fp_filePath ops"
proof (cases "fpp_operations p")
  case None
  then obtain t where t: "fpp_patch p = Some t" "t \<noteq> []" using assms(2) by (auto simp: truthy_def split: option.splits)
  have "textProp (patchJson p) ''patch'' = Some t" "field (patchJson p) ''operations'' = None" "isRecord (patchJson p)"
    using None t by (auto simp: patchJson_def definedField_def textProp_def field_def isRecord_def split: option.splits)
  then show ?thesis using assms(1) t
    by (auto simp: collectPatchOperationPaths_def patchOperations_def truthy_def map_sum_def split: sum.splits)
next
  case (Some os)
  then have "ops = os" using assms by (auto simp: patchOperations_def)
  moreover have "field (patchJson p) ''operations'' = Some (JArr (map operationJson os))" "isRecord (patchJson p)"
    using Some by (simp_all add: patchJson_def definedField_def field_def isRecord_def)
  ultimately show ?thesis
    by (simp add: collectPatchOperationPaths_def List.map_filter_def comp_def operationJson_path)
qed

lemma resource_covers_paths:
  assumes "isWithinWorkdir fs (derivePermissionResource fs ''file_apply_patch'' params (Some wd)) wd" "wd \<noteq> []"
    "p \<in> set (collectPatchOperationPaths params)"
  shows "isWithinWorkdir fs (if isAbsolute p then p else resolveFrom (fs_cwd fs) wd p) wd"
proof -
  let ?r = "\<lambda>p. if isAbsolute p then p else resolveFrom (fs_cwd fs) wd p"
  have ne: "[] \<notin> ?r ` X" for X by (auto simp: isAbsolute_def resolveFrom_def resolvePath_def)
  have resource: "derivePermissionResource fs ''file_apply_patch'' params (Some wd) =
      (case find (\<lambda>q. \<not> isWithinWorkdir fs q wd) (map ?r (collectPatchOperationPaths params)) of Some q \<Rightarrow> (if q \<noteq> [] then q else wd) | None \<Rightarrow> wd)"
    using assms(2,3) by (auto simp: derivePermissionResource_def derivePatchPermissionResource_def truthy_def isWorkdirFileTool_def
        WORKDIR_FILE_TOOL_IDS_def Let_def)
  show ?thesis
  proof (cases "find (\<lambda>q. \<not> isWithinWorkdir fs q wd) (map ?r (collectPatchOperationPaths params))")
    case None
    then show ?thesis using assms(3) by (auto simp: find_None_iff)
  next
    case (Some q)
    then have "\<not> isWithinWorkdir fs q wd" "q \<in> ?r ` set (collectPatchOperationPaths params)"
      by (auto simp: find_Some_iff dest: nth_mem)
    moreover from this have "q \<noteq> []" using ne by blast
    ultimately show ?thesis using assms(1) resource Some by simp
  qed
qed

text \<open>
  C29: The permission check of a patch speaks for every change the patch makes. If the resource the engine is asked
  about lies in the working directory, as the check the engine uses (\<open>isWithinWorkdir\<close>: by the real path of what exists, by name of
  what does not) sees it, then each change \<open>file_apply_patch\<close> makes to the disk is one for the target of a path that this
  check also found in the working directory: the paths the executor collects from the parameters, operations or patch text,
  are all the handler acts on. The target is what the handler's own path check made of the path when it ran.
\<close>
theorem patch_changes_checked_paths:
  assumes "isWithinWorkdir fs (derivePermissionResource fs ''file_apply_patch'' (patchJson p) (Some wd)) wd" "wd \<noteq> []"
    "fileApplyPatch env p (Some wd) s = (r, s')"
  shows "\<exists>calls. fl_log s' = fl_log s @ calls \<and>
    (\<forall>c\<in>set calls. \<exists>path w target rel. isWithinWorkdir fs (if isAbsolute path then path else resolveFrom (fs_cwd fs) wd path) wd \<and>
       validateWritePathSafety (fe_view env w) path wd True True = Inr (Inr (target, rel)) \<and> changeFor env target c)"
  using fileApplyPatch_targeted [OF assms(3)]
proof
  assume "\<exists>ops. patchOperations p = Inr ops \<and> (fpp_operations p = None) = truthy (fpp_patch p) \<and>
    onlyTargeted env (fp_filePath ` set ops) wd (wd \<noteq> []) s s'"
  then obtain ops where ops: "patchOperations p = Inr ops" "(fpp_operations p = None) = truthy (fpp_patch p)"
    and t: "onlyTargeted env (fp_filePath ` set ops) wd True s s'" using assms(2) by auto
  have "isWithinWorkdir fs (if isAbsolute path then path else resolveFrom (fs_cwd fs) wd path) wd" if "path \<in> fp_filePath ` set ops" for path
    using resource_covers_paths [OF assms(1,2)] checked_paths [OF ops] that by simp
  then show ?thesis using t unfolding onlyTargeted_def checkedTarget_def by meson
qed simp

definition demoDelete :: FileApplyPatchParams where
  "demoDelete = \<lparr>fpp_operations = Some [deleteOp ''a.ts''], fpp_patch = None, fpp_dryRun = None\<rparr>"

lemma demo_delete_run: "fl_log (snd (fileApplyPatch demoDisk demoDelete (Some ''/wd'') demoDir)) = [Unlink ''/wd/a.ts'']"
proof -
  let ?op = "deleteOp ''a.ts''"
  have safe: "validateWritePathSafety (fe_view demoDisk (fl_world demoDir)) (fp_filePath ?op) ''/wd'' True True = Inr (Inr (''/wd/a.ts'', ''a.ts''))"
    by (simp add: demoDisk_def demoDir_def deleteOp_def demo_target)
  have change: "applyChange demoDisk ''/wd'' True ?op ''/wd/a.ts'' demoDir = (appliedOp ?op, False, \<lparr>fl_world = [], fl_log = [Unlink ''/wd/a.ts'']\<rparr>)"
    by (simp add: applyChange_def applyDelete_def existsSync_def perform_def demoDisk_def demoDir_def demoDiskView_def deleteOp_def)
  have valid: "validateOperations [?op] = []" "truthy (Some ''/wd'')" "patchOperations demoDelete = Inr [?op]"
    by (simp_all add: validateOperations_def operationErrors_ops operationErrors_def deleteOp_def truthy_def demoDelete_def patchOperations_def)
  show ?thesis
    by (simp add: fileApplyPatch_def valid workspaceRoot_def safe change)
      (simp add: demoDelete_def truthy_def)
qed

theorem patch_changes_checked_paths_witness:
  "fl_log (snd (fileApplyPatch demoDisk demoDelete (Some ''/wd'') demoDir)) = [Unlink ''/wd/a.ts''] \<and>
   (\<exists>path w target rel. isWithinWorkdir demoFs (if isAbsolute path then path else resolveFrom ''/'' ''/wd'' path) ''/wd'' \<and>
      validateWritePathSafety (demoDiskView w) path ''/wd'' True True = Inr (Inr (target, rel)) \<and> changeFor demoDisk target (Unlink ''/wd/a.ts''))"
proof -
  have paths: "collectPatchOperationPaths (patchJson demoDelete) = [''a.ts'']"
    using checked_paths [of demoDelete "[deleteOp ''a.ts'']"] by (simp add: demoDelete_def patchOperations_def truthy_def deleteOp_def)
  have inside: "isWithinWorkdir demoFs (resolveFrom ''/'' ''/wd'' ''a.ts'') ''/wd''" "isWithinWorkdir demoFs ''/wd'' ''/wd''" "fs_cwd demoFs = ''/''"
    "\<not> isAbsolute ''a.ts''"
    by (simp_all add: isWithinWorkdir_def resolveFrom_def path_eval)
  then have res: "isWithinWorkdir demoFs (derivePermissionResource demoFs ''file_apply_patch'' (patchJson demoDelete) (Some ''/wd'')) ''/wd''"
    by (simp add: derivePermissionResource_def derivePatchPermissionResource_def paths truthy_def isWorkdirFileTool_def WORKDIR_FILE_TOOL_IDS_def)
  obtain r s' where run: "fileApplyPatch demoDisk demoDelete (Some ''/wd'') demoDir = (r, s')"
    by (cases "fileApplyPatch demoDisk demoDelete (Some ''/wd'') demoDir")
  have log: "fl_log s' = [Unlink ''/wd/a.ts'']" "fl_log demoDir = []" "fe_view demoDisk = demoDiskView"
    using demo_delete_run run by (simp_all add: demoDir_def demoDisk_def)
  obtain calls where calls: "fl_log s' = fl_log demoDir @ calls"
    "\<forall>c\<in>set calls. \<exists>path w target rel. isWithinWorkdir demoFs (if isAbsolute path then path else resolveFrom (fs_cwd demoFs) ''/wd'' path) ''/wd'' \<and>
       validateWritePathSafety (fe_view demoDisk w) path ''/wd'' True True = Inr (Inr (target, rel)) \<and> changeFor demoDisk target c"
    using patch_changes_checked_paths [OF res _ run] by auto
  then have "\<exists>path w target rel. isWithinWorkdir demoFs (if isAbsolute path then path else resolveFrom (fs_cwd demoFs) ''/wd'' path) ''/wd'' \<and>
      validateWritePathSafety (fe_view demoDisk w) path ''/wd'' True True = Inr (Inr (target, rel)) \<and> changeFor demoDisk target (Unlink ''/wd/a.ts'')"
    by - (rule bspec [OF calls(2)], use log(1,2) calls(1) in \<open>metis append_Nil list.set_intros(1)\<close>)
  then show ?thesis unfolding log(3) inside(3) using demo_delete_run by blast
qed

end
