(* ===== verification/Tool_Executor.thy ===== *)
theory Tool_Executor
  imports Tool_Plane
begin

text \<open>
  The execution of a tool call (\<open>tools/tool-executor.ts\<close>): lookup, envelope, schema and permission checks, the
  handler, and what is recorded of all of them. The permission engine is the one of theory
  \<^theory_text>\<open>Permissions\<close>. Arguments: the clock and the ids of the call, the abort signal before and after the handler,
  the sanitiser of persisted error texts, and whether applying a context delta throws. Between its awaits an
  execution is taken to be undisturbed. The list of handler calls is an addition of the model.
\<close>

section \<open>Requests and state\<close>

record ToolExecutionRequest =
  trq_toolCallId :: string
  trq_toolName :: string
  trq_params :: json
  trq_userId :: string
  trq_sessionId :: "string option"
  trq_kernelRunId :: "string option"
  trq_permissionContext :: PermissionContext
  trq_agentType :: "string option"
  trq_workDirRoot :: "string option"
  trq_workDirId :: "string option"

record ToolSpan =
  tsp_spanId :: string
  tsp_traceId :: string
  tsp_operation :: string
  tsp_status :: string
  tsp_error :: "string option"

record ToolCallAudit =
  tca_toolCallId :: string
  tca_toolName :: string
  tca_result :: "string option"
  tca_status :: string
  tca_workdirAutoAllow :: bool

record 'w tool_state =
  ts_executions :: executionTable
  ts_permissions :: pstate
  ts_world :: 'w
  ts_handled :: "(string \<times> json) list"
  ts_deltas :: "RuntimeContextDelta list"
  ts_audit :: "ToolCallAudit list option"
  ts_spans :: "ToolSpan list option"
  ts_events :: "ToolExecutionEvent list option"

record 'w tool_env =
  te_config :: PermissionEngineConfig
  te_regexTest :: "string \<Rightarrow> string \<Rightarrow> string + bool"
  te_filesystem :: "'w \<Rightarrow> filesystem"
  te_fresh :: fresh
  te_now :: timestamp
  te_sanitize :: "string \<Rightarrow> string"
  te_envelopes :: bool
  te_applyDelta :: "(RuntimeContextDelta \<Rightarrow> string option) option"
  te_abortedBefore :: bool
  te_abortedAfter :: bool

definition errorResult :: "string \<Rightarrow> string \<Rightarrow> bool \<Rightarrow> ToolExecutionResult" where
  "errorResult code message recoverable = \<lparr>ter_success = False, ter_error = Some (code, message, recoverable), ter_resultPreview = None,
     ter_resultRef = None, ter_structuredContent = None, ter_contextDelta = None, ter_events = []\<rparr>"

definition formatPersistedError :: "'w tool_env \<Rightarrow> string \<Rightarrow> string \<Rightarrow> string" where
  "formatPersistedError env code rawMessage = ''['' @ code @ ''] '' @ te_sanitize env rawMessage"

definition startToolSpan :: "ToolExecutionRequest \<Rightarrow> 'w tool_state \<Rightarrow> 'w tool_state" where
  "startToolSpan rq s = s\<lparr>ts_spans := map_option (\<lambda>sps. sps @ [\<lparr>tsp_spanId = ''span_'' @ trq_toolCallId rq,
     tsp_traceId = or_else (trq_kernelRunId rq) (trq_toolCallId rq), tsp_operation = trq_toolName rq, tsp_status = ''started'',
     tsp_error = None\<rparr>]) (ts_spans s)\<rparr>"

definition endToolSpan :: "ToolExecutionRequest \<Rightarrow> string \<Rightarrow> string option \<Rightarrow> 'w tool_state \<Rightarrow> 'w tool_state" where
  "endToolSpan rq status err s = s\<lparr>ts_spans := map_option (map (\<lambda>sp. if tsp_spanId sp = ''span_'' @ trq_toolCallId rq
     then sp\<lparr>tsp_status := status, tsp_error := nullish_opt err (tsp_error sp)\<rparr> else sp)) (ts_spans s)\<rparr>"

definition setToolStatus :: "'w tool_env \<Rightarrow> ToolExecutionRequest \<Rightarrow> string \<Rightarrow> string option \<Rightarrow> 'w tool_state \<Rightarrow> 'w tool_state" where
  "setToolStatus env rq status err s =
     s\<lparr>ts_executions := updateExecutionStatus (te_now env) (trq_toolCallId rq) status DEFAULT_TENANT_ID err (ts_executions s)\<rparr>"

definition saveResult :: "ToolExecutionRequest \<Rightarrow> ToolExecutionResult \<Rightarrow> 'w tool_state \<Rightarrow> 'w tool_state" where
  "saveResult rq r s = s\<lparr>ts_executions := saveExecutionResult (trq_toolCallId rq) (ter_resultPreview r) (ter_resultRef r)
     (ter_structuredContent r) DEFAULT_TENANT_ID (ts_executions s)\<rparr>"

definition newExecution :: "ToolExecutionRequest \<Rightarrow> string \<Rightarrow> json option \<Rightarrow> string \<Rightarrow> string option \<Rightarrow> ToolExecution" where
  "newExecution rq status params sensitivity err = \<lparr>tx_toolCallId = trq_toolCallId rq, tx_toolName = trq_toolName rq,
     tx_userId = trq_userId rq, tx_sessionId = trq_sessionId rq, tx_kernelRunId = trq_kernelRunId rq, tx_status = status,
     tx_params = params, tx_resultPreview = None, tx_resultRef = None, tx_structuredContent = None, tx_sensitivity = sensitivity,
     tx_errorMessage = err, tx_startedAt = 0, tx_completedAt = None, tx_terminal = False, tx_tenantId = DEFAULT_TENANT_ID\<rparr>"

section \<open>The stages\<close>

text \<open>
  A stage throws (\<open>Inl\<close> the message) or ends with the result of the call. \<open>exec.params ? .. : null\<close>: falsy
  parameters are not stored.
\<close>

type_synonym 'w outcome = "(string + ToolExecutionResult) \<times> 'w tool_state"

definition storedParams :: "json \<Rightarrow> json option" where
  "storedParams v = (if v \<in> {JNull, JBool False, JNum 0, JStr []} then None else Some v)"

definition refuse :: "'w tool_env \<Rightarrow> ToolExecutionRequest \<Rightarrow> string \<Rightarrow> string \<Rightarrow> string \<Rightarrow> string \<Rightarrow> string \<Rightarrow> 'w tool_state \<Rightarrow> 'w outcome" where
  "refuse env rq status sensitivity stored code message s =
     (case createExecution (te_now env) (newExecution rq status None sensitivity (Some stored)) (ts_executions s) of
        Inl e \<Rightarrow> (Inl e, s)
      | Inr t \<Rightarrow> (Inr (errorResult code message False), endToolSpan rq ''failed'' (Some stored) (s\<lparr>ts_executions := t\<rparr>)))"

definition envelopeError :: "'w tool_env \<Rightarrow> ToolExecutionRequest \<Rightarrow> 'w ToolDefinition \<Rightarrow> string option" where
  "envelopeError env rq tool =
     (if \<not> te_envelopes env then None
      else if \<not> truthy (trq_agentType rq) then Some ''[ENVELOPE_DENIED] Missing agentType for envelope enforcement''
      else let agentType = the (trq_agentType rq) in
        if mapGet envelopeMap agentType = None then Some (''[ENVELOPE_DENIED] No envelope for agentType: '' @ agentType)
        else if \<not> isToolAllowedByEnvelope agentType (trq_toolName rq) (td_category tool)
          then Some (''[ENVELOPE_DENIED] Tool '' @ quoted (trq_toolName rq) @ '' (category: '' @ td_category tool @ '') is outside the '' @
            agentType @ '' envelope boundary'')
        else None)"

definition permissionRequest :: "filesystem \<Rightarrow> ToolExecutionRequest \<Rightarrow> 'w ToolDefinition \<Rightarrow> PermissionCheckRequest" where
  "permissionRequest fs rq tool = \<lparr>rq_context = trq_permissionContext rq, rq_actionType = ''tool:'' @ trq_toolName rq,
     rq_resource = Some (derivePermissionResource fs (trq_toolName rq) (trq_params rq) (trq_workDirRoot rq)),
     rq_operationType = categoryToOperationType (td_category tool), rq_justification = Some (''Execute tool: '' @ td_description tool),
     rq_pendingActionId = None, rq_connectorId = None, rq_connectorResource = None, rq_connectorAction = None, rq_riskLevel = None,
     rq_scopeType = None, rq_scopeRef = None, rq_workDirRoot = trq_workDirRoot rq, rq_workDirId = trq_workDirId rq\<rparr>"

definition failWith :: "'w tool_env \<Rightarrow> ToolExecutionRequest \<Rightarrow> string \<Rightarrow> string \<Rightarrow> string \<Rightarrow> bool \<Rightarrow> 'w tool_state \<Rightarrow> 'w outcome" where
  "failWith env rq status code message recoverable s = (Inr (errorResult code message recoverable),
     endToolSpan rq ''failed'' (Some (te_sanitize env message)) (setToolStatus env rq status (Some (formatPersistedError env code message)) s))"

definition cancelCall :: "'w tool_env \<Rightarrow> ToolExecutionRequest \<Rightarrow> 'w tool_state \<Rightarrow> 'w outcome" where
  "cancelCall env rq s = (Inr (errorResult ''CANCELLED'' ''Tool execution was cancelled'' True),
     endToolSpan rq ''failed'' (Some ''Tool execution was cancelled'')
       (setToolStatus env rq ''failed'' (Some ''CANCELLED: Tool execution was cancelled'') s))"

definition normalizeContextDelta :: "string option \<Rightarrow> RuntimeContextDelta \<Rightarrow> RuntimeContextDelta" where
  "normalizeContextDelta kernelRunId delta = delta\<lparr>cd_runId := Some (or_else (cd_runId delta) (or_else kernelRunId ''unknown'')),
     cd_source := Some (or_else (cd_source delta) ''tool_result'')\<rparr>"

definition failureText :: "ToolExecutionResult \<Rightarrow> string" where
  "failureText r = or_else (map_option (fst \<circ> snd) (ter_error r)) ''Tool execution returned failure''"

definition applyDelta :: "'w tool_env \<Rightarrow> ToolExecutionResult \<Rightarrow> 'w tool_state \<Rightarrow> string option \<times> 'w tool_state" where
  "applyDelta env r s = (case (ter_contextDelta r, te_applyDelta env) of
     (Some delta, Some f) \<Rightarrow> (case f delta of Some e \<Rightarrow> (Some e, s) | None \<Rightarrow> (None, s\<lparr>ts_deltas := ts_deltas s @ [delta]\<rparr>))
   | _ \<Rightarrow> (None, s))"

definition recordOutcome :: "'w tool_env \<Rightarrow> ToolExecutionRequest \<Rightarrow> PermissionDecision \<Rightarrow> ToolExecutionResult \<Rightarrow> 'w tool_state \<Rightarrow> 'w outcome" where
  "recordOutcome env rq decision r s = (let
     s1 = saveResult rq r (if ter_success r then setToolStatus env rq ''completed'' None s
       else setToolStatus env rq ''failed'' (Some (formatPersistedError env ''EXECUTION_FAILED'' (failureText r))) s) in
     case applyDelta env r s1 of
       (Some e, s2) \<Rightarrow> (Inl e, s2)
     | (None, s2) \<Rightarrow> (Inr r, (endToolSpan rq (if ter_success r then ''completed'' else ''failed'')
           (if ter_success r then None else Some (te_sanitize env (failureText r))) (s2\<lparr>ts_audit := map_option (\<lambda>as. as @
             [\<lparr>tca_toolCallId = trq_toolCallId rq, tca_toolName = trq_toolName rq, tca_result = ter_resultPreview r,
               tca_status = (if ter_success r then ''success'' else ''failure''), tca_workdirAutoAllow = (pd_workdirAutoAllow decision \<noteq> None)\<rparr>])
             (ts_audit s2)\<rparr>))
         \<lparr>ts_events := map_option (\<lambda>es. es @ ter_events r) (ts_events s2)\<rparr>))"

definition executionContext :: "ToolExecutionRequest \<Rightarrow> ToolExecutionContext" where
  "executionContext rq = \<lparr>txc_toolCallId = trq_toolCallId rq, txc_toolName = trq_toolName rq, txc_userId = trq_userId rq,
     txc_sessionId = trq_sessionId rq, txc_kernelRunId = trq_kernelRunId rq, txc_agentType = trq_agentType rq,
     txc_workDirRoot = trq_workDirRoot rq, txc_workDirId = trq_workDirId rq\<rparr>"

definition runHandler :: "'w tool_env \<Rightarrow> ToolExecutionRequest \<Rightarrow> 'w ToolDefinition \<Rightarrow> PermissionDecision \<Rightarrow> 'w tool_state \<Rightarrow> 'w outcome" where
  "runHandler env rq tool decision s0 = (let s = setToolStatus env rq ''executing'' None s0 in
     if te_abortedBefore env then cancelCall env rq s
     else case td_handler tool (trq_params rq) (executionContext rq) (ts_world s) of
       (outcome, w) \<Rightarrow> (let s1 = s\<lparr>ts_world := w, ts_handled := ts_handled s @ [(trq_toolName rq, trq_params rq)]\<rparr> in
         case outcome of
           Inl e \<Rightarrow> (Inl e, s1)
         | Inr r \<Rightarrow> if te_abortedAfter env then cancelCall env rq s1
             else recordOutcome env rq decision
               (r\<lparr>ter_contextDelta := map_option (normalizeContextDelta (trq_kernelRunId rq)) (ter_contextDelta r)\<rparr>) s1))"

definition approvalNeeded :: "PermissionDecision \<Rightarrow> bool" where
  "approvalNeeded d = (pd_status d = DecRequiresApproval \<or> pd_status d = DecPendingApproval)"

text \<open>The structured content of the answer also carries the approval request, which is left out here.\<close>

definition requireApproval :: "'w tool_env \<Rightarrow> ToolExecutionRequest \<Rightarrow> PermissionDecision \<Rightarrow> string \<Rightarrow> 'w tool_state \<Rightarrow> 'w outcome" where
  "requireApproval env rq decision reason s = (case failWith env rq ''waiting_for_approval'' ''APPROVAL_REQUIRED'' reason True s of
     (r, s') \<Rightarrow> (map_sum id (\<lambda>x. x\<lparr>ter_structuredContent := Some (JObj ((''status'', JStr ''requires_approval'') #
       (case pd_requestId decision of None \<Rightarrow> [] | Some i \<Rightarrow> [(''requestId'', JStr i)])))\<rparr>) r, s'))"

definition checkPermissionStage :: "'w tool_env \<Rightarrow> ToolExecutionRequest \<Rightarrow> 'w ToolDefinition \<Rightarrow> 'w tool_state \<Rightarrow> 'w outcome" where
  "checkPermissionStage env rq tool s0 = (let s = setToolStatus env rq ''permission_checking'' None s0; fs = te_filesystem env (ts_world s) in
     case checkPermission (te_config env) (te_regexTest env) fs (te_fresh env) (permissionRequest fs rq tool) (ts_permissions s) of
       (Inl e, ps) \<Rightarrow> (Inl e, s\<lparr>ts_permissions := ps\<rparr>)
     | (Inr decision, ps) \<Rightarrow> (let s1 = s\<lparr>ts_permissions := ps\<rparr>; reason = or_else (Some (pd_reason decision)) ''Permission denied'' in
         if pd_allowed decision then runHandler env rq tool decision s1
         else if approvalNeeded decision then requireApproval env rq decision reason s1
         else failWith env rq ''denied'' ''PERMISSION_DENIED'' reason False s1))"

definition joinErrors :: "string list \<Rightarrow> string" where
  "joinErrors errors = joinWith '', '' errors"

definition validateStage :: "'w tool_env \<Rightarrow> ToolExecutionRequest \<Rightarrow> 'w ToolDefinition \<Rightarrow> 'w tool_state \<Rightarrow> 'w outcome" where
  "validateStage env rq tool s =
     (case createExecution (te_now env) (newExecution rq ''schema_validating'' (storedParams (trq_params rq)) (td_sensitivity tool) None)
         (ts_executions s) of
        Inl e \<Rightarrow> (Inl e, s)
      | Inr t \<Rightarrow> (let s1 = s\<lparr>ts_executions := t\<rparr>; errors = validateParams (trq_params rq) (td_schema tool) in
          if errors \<noteq> [] then failWith env rq ''failed'' ''SCHEMA_VALIDATION_FAILED'' (''Schema validation failed: '' @ joinErrors errors) False s1
          else checkPermissionStage env rq tool s1))"

definition executeStages :: "'w tool_env \<Rightarrow> 'w toolMap \<Rightarrow> ToolExecutionRequest \<Rightarrow> 'w tool_state \<Rightarrow> 'w outcome" where
  "executeStages env tools rq s = (case getTool tools (trq_toolName rq) of
     None \<Rightarrow> refuse env rq ''failed'' ''low'' (''[TOOL_NOT_FOUND] Tool not found: '' @ trq_toolName rq) ''TOOL_NOT_FOUND''
       (''Tool not found: '' @ trq_toolName rq) s
   | Some tool \<Rightarrow> (case envelopeError env rq tool of
       Some e \<Rightarrow> refuse env rq ''denied'' (td_sensitivity tool) e ''ENVELOPE_DENIED'' e s
     | None \<Rightarrow> validateStage env rq tool s))"

definition executeTool :: "'w tool_env \<Rightarrow> 'w toolMap \<Rightarrow> ToolExecutionRequest \<Rightarrow> 'w tool_state \<Rightarrow> ToolExecutionResult \<times> 'w tool_state" where
  "executeTool env tools rq s = (case executeStages env tools rq (startToolSpan rq s) of
     (Inr r, s') \<Rightarrow> (r, s')
   | (Inl e, s') \<Rightarrow> (errorResult ''EXECUTION_FAILED'' e False, endToolSpan rq ''failed'' (Some (te_sanitize env e))
       (setToolStatus env rq ''failed'' (Some (formatPersistedError env ''EXECUTION_FAILED'' e)) s')))"

section \<open>What an execution does\<close>

lemmas stage_defs = failWith_def cancelCall_def setToolStatus_def endToolSpan_def saveResult_def

lemma worlds_kept [simp]:
  "ts_world (setToolStatus env rq st e s) = ts_world s" "ts_handled (setToolStatus env rq st e s) = ts_handled s"
  "ts_world (endToolSpan rq st e s) = ts_world s" "ts_handled (endToolSpan rq st e s) = ts_handled s"
  "ts_world (saveResult rq r s) = ts_world s" "ts_handled (saveResult rq r s) = ts_handled s"
  "ts_world (startToolSpan rq s) = ts_world s" "ts_handled (startToolSpan rq s) = ts_handled s"
  "ts_permissions (setToolStatus env rq st e s) = ts_permissions s" "ts_permissions (startToolSpan rq s) = ts_permissions s"
  by (simp_all add: stage_defs startToolSpan_def)

lemma failWith_world: "failWith env rq st c m b s = (r, s') \<Longrightarrow> ts_world s' = ts_world s \<and> ts_handled s' = ts_handled s"
  by (auto simp: failWith_def)

lemma requireApproval_world: "requireApproval env rq d m s = (r, s') \<Longrightarrow> ts_world s' = ts_world s \<and> ts_handled s' = ts_handled s"
  by (auto simp: requireApproval_def split: prod.splits dest: failWith_world)

lemma refuse_world: "refuse env rq st sens m c t s = (r, s') \<Longrightarrow> ts_world s' = ts_world s \<and> ts_handled s' = ts_handled s"
  by (auto simp: refuse_def split: sum.splits)

lemma recordOutcome_world: "recordOutcome env rq d r s = (x, s') \<Longrightarrow> ts_world s' = ts_world s \<and> ts_handled s' = ts_handled s"
  by (auto simp: recordOutcome_def applyDelta_def Let_def split: option.splits prod.splits if_splits)

lemma runHandler_world:
  assumes "runHandler env rq tool d s = (r, s')"
  shows "if te_abortedBefore env then ts_world s' = ts_world s \<and> ts_handled s' = ts_handled s
     else ts_world s' = snd (td_handler tool (trq_params rq) (executionContext rq) (ts_world s)) \<and>
       ts_handled s' = ts_handled s @ [(trq_toolName rq, trq_params rq)]"
  using assms by (auto simp: runHandler_def cancelCall_def Let_def split: prod.splits sum.splits if_splits dest!: recordOutcome_world)

definition engineAllows :: "'w tool_env \<Rightarrow> ToolExecutionRequest \<Rightarrow> 'w ToolDefinition \<Rightarrow> 'w tool_state \<Rightarrow> bool" where
  "engineAllows env rq tool s = (let fs = te_filesystem env (ts_world s) in
     case fst (checkPermission (te_config env) (te_regexTest env) fs (te_fresh env) (permissionRequest fs rq tool) (ts_permissions s)) of
       Inl e \<Rightarrow> False | Inr decision \<Rightarrow> pd_allowed decision)"

lemma checkPermissionStage_world:
  assumes "checkPermissionStage env rq tool s = (r, s')"
  shows "if engineAllows env rq tool s \<and> \<not> te_abortedBefore env
     then ts_world s' = snd (td_handler tool (trq_params rq) (executionContext rq) (ts_world s)) \<and>
       ts_handled s' = ts_handled s @ [(trq_toolName rq, trq_params rq)]
     else ts_world s' = ts_world s \<and> ts_handled s' = ts_handled s"
  using assms by (auto simp: checkPermissionStage_def engineAllows_def Let_def split: prod.splits sum.splits if_splits
    dest!: runHandler_world failWith_world requireApproval_world)

definition mayRun :: "'w tool_env \<Rightarrow> 'w toolMap \<Rightarrow> ToolExecutionRequest \<Rightarrow> 'w tool_state \<Rightarrow> 'w ToolDefinition \<Rightarrow> bool" where
  "mayRun env tools rq s tool = (getTool tools (trq_toolName rq) = Some tool \<and> envelopeError env rq tool = None \<and>
     \<not> list_ex (\<lambda>x. tx_toolCallId x = trq_toolCallId rq) (ts_executions s) \<and> validateParams (trq_params rq) (td_schema tool) = [] \<and>
     engineAllows env rq tool s \<and> \<not> te_abortedBefore env)"

lemma executeTool_world:
  "(case getTool tools (trq_toolName rq) of
      Some tool \<Rightarrow> if mayRun env tools rq s tool
        then ts_handled (snd (executeTool env tools rq s)) = ts_handled s @ [(trq_toolName rq, trq_params rq)] \<and>
          ts_world (snd (executeTool env tools rq s)) = snd (td_handler tool (trq_params rq) (executionContext rq) (ts_world s))
        else ts_handled (snd (executeTool env tools rq s)) = ts_handled s \<and> ts_world (snd (executeTool env tools rq s)) = ts_world s
    | None \<Rightarrow> ts_handled (snd (executeTool env tools rq s)) = ts_handled s \<and> ts_world (snd (executeTool env tools rq s)) = ts_world s)"
proof -
  obtain o1 s1 where run: "executeStages env tools rq (startToolSpan rq s) = (o1, s1)" by fastforce
  have final: "ts_world (snd (executeTool env tools rq s)) = ts_world s1 \<and> ts_handled (snd (executeTool env tools rq s)) = ts_handled s1"
    by (cases o1) (simp_all add: executeTool_def run)
  show ?thesis
  proof (cases "getTool tools (trq_toolName rq)")
    case None
    then show ?thesis using run final by (auto simp: executeStages_def dest: refuse_world)
  next
    case (Some tool)
    show ?thesis
    proof (cases "envelopeError env rq tool")
      case (Some e)
      then show ?thesis using run final \<open>getTool tools (trq_toolName rq) = Some tool\<close>
        by (auto simp: executeStages_def mayRun_def dest: refuse_world)
    next
      case None
      have v: "validateStage env rq tool (startToolSpan rq s) = (o1, s1)" using run Some None by (simp add: executeStages_def)
      have rows: "ts_executions (startToolSpan rq s) = ts_executions s" by (simp add: startToolSpan_def)
      have same: "engineAllows env rq tool (x\<lparr>ts_executions := t\<rparr>) = engineAllows env rq tool x" for x t by (simp add: engineAllows_def)
      have span: "engineAllows env rq tool (startToolSpan rq s) = engineAllows env rq tool s" by (simp add: engineAllows_def)
      show ?thesis using v final Some None
        by (auto simp: validateStage_def createExecution_def newExecution_def rows mayRun_def Let_def same span split: if_splits
            dest!: failWith_world checkPermissionStage_world)
    qed
  qed
qed

text \<open>
  C5: A tool's handler runs only when it is cleared: it is called exactly once, with the parameters and the context of
  the request, exactly if the tool is registered, the agent's envelope admits it, no call with the same id was recorded
  before, the parameters conform to its schema, the permission engine allows the request made for them, and the call
  was not aborted; in every other case nothing is called and the world stays as it was.
\<close>
theorem handler_runs_only_when_cleared:
  "(case getTool tools (trq_toolName rq) of
      Some tool \<Rightarrow> if mayRun env tools rq s tool
        then ts_handled (snd (executeTool env tools rq s)) = ts_handled s @ [(trq_toolName rq, trq_params rq)] \<and>
          ts_world (snd (executeTool env tools rq s)) = snd (td_handler tool (trq_params rq) (executionContext rq) (ts_world s))
        else ts_handled (snd (executeTool env tools rq s)) = ts_handled s \<and> ts_world (snd (executeTool env tools rq s)) = ts_world s
    | None \<Rightarrow> ts_handled (snd (executeTool env tools rq s)) = ts_handled s \<and> ts_world (snd (executeTool env tools rq s)) = ts_world s)"
  by (rule executeTool_world)

section \<open>What is recorded\<close>

text \<open>The table is the old one with one row for the call, in one of the states an execution can end in.\<close>

definition recordedAs :: "ToolExecutionRequest \<Rightarrow> executionTable \<Rightarrow> (string \<Rightarrow> bool) \<Rightarrow> executionTable \<Rightarrow> bool" where
  "recordedAs rq t P t' = (\<exists>row. t' = t @ [row] \<and> tx_toolCallId row = trq_toolCallId rq \<and> tx_tenantId row = DEFAULT_TENANT_ID \<and>
     tx_terminal row = isTerminalToolState (tx_status row) \<and> P (tx_status row))"

definition newId :: "ToolExecutionRequest \<Rightarrow> executionTable \<Rightarrow> bool" where
  "newId rq t = (\<forall>r \<in> set t. tx_toolCallId r \<noteq> trq_toolCallId rq)"

lemma atRow_append: "newId rq t \<Longrightarrow> tx_toolCallId row = trq_toolCallId rq \<Longrightarrow> tx_tenantId row = tenant \<Longrightarrow>
    atRow (trq_toolCallId rq) tenant f (t @ [row]) = t @ [f row]"
  by (auto simp: atRow_def newId_def intro!: map_idI)

lemma setToolStatus_recorded:
  "newId rq t \<Longrightarrow> recordedAs rq t P (ts_executions s) \<Longrightarrow> Q st \<Longrightarrow> recordedAs rq t Q (ts_executions (setToolStatus env rq st e s))"
  unfolding recordedAs_def setToolStatus_def updateExecutionStatus_def by (auto simp: atRow_append)

lemma saveResult_recorded:
  "newId rq t \<Longrightarrow> recordedAs rq t P (ts_executions s) \<Longrightarrow> recordedAs rq t P (ts_executions (saveResult rq r s))"
  unfolding recordedAs_def saveResult_def saveExecutionResult_def by (auto simp: atRow_append)

lemma endToolSpan_executions [simp]: "ts_executions (endToolSpan rq st e s) = ts_executions s"
  by (simp add: endToolSpan_def)

lemma createExecution_recorded:
  "newId rq t \<Longrightarrow> \<exists>t'. createExecution now (newExecution rq st ps sens e) t = Inr t' \<and> recordedAs rq t (\<lambda>x. x = st) t'"
  unfolding newId_def by (auto simp: createExecution_def newExecution_def recordedAs_def list_ex_iff)

definition agrees :: "ToolExecutionResult \<Rightarrow> string \<Rightarrow> bool" where
  "agrees r st = ((ter_success r \<longleftrightarrow> st = ''completed'') \<and> (st = ''waiting_for_approval'' \<longrightarrow> map_option fst (ter_error r) = Some ''APPROVAL_REQUIRED'') \<and>
     st \<in> {''completed'', ''failed'', ''denied'', ''waiting_for_approval''})"

definition goodOutcome :: "ToolExecutionRequest \<Rightarrow> executionTable \<Rightarrow> 'w outcome \<Rightarrow> bool" where
  "goodOutcome rq t x = recordedAs rq t (case fst x of Inl e \<Rightarrow> (\<lambda>st. True) | Inr r \<Rightarrow> agrees r) (ts_executions (snd x))"

lemma goodOutcome_thrown: "recordedAs rq t P (ts_executions s) \<Longrightarrow> goodOutcome rq t (Inl e, s)"
  by (auto simp: goodOutcome_def recordedAs_def)

lemma failWith_good:
  "newId rq t \<Longrightarrow> recordedAs rq t P (ts_executions s) \<Longrightarrow> st \<in> {''failed'', ''denied''} \<or> (st = ''waiting_for_approval'' \<and> c = ''APPROVAL_REQUIRED'') \<Longrightarrow>
   goodOutcome rq t (failWith env rq st c m b s)"
  unfolding goodOutcome_def failWith_def by (auto simp: agrees_def errorResult_def intro!: setToolStatus_recorded [where P = P])

lemma requireApproval_good:
  assumes "newId rq t" "recordedAs rq t P (ts_executions s)"
  shows "goodOutcome rq t (requireApproval env rq d m s)"
proof -
  have "goodOutcome rq t (failWith env rq ''waiting_for_approval'' ''APPROVAL_REQUIRED'' m True s)"
    by (rule failWith_good [OF assms]) simp
  then show ?thesis by (auto simp: goodOutcome_def requireApproval_def failWith_def agrees_def recordedAs_def)
qed

lemma cancelCall_good:
  "newId rq t \<Longrightarrow> recordedAs rq t P (ts_executions s) \<Longrightarrow> goodOutcome rq t (cancelCall env rq s)"
  unfolding goodOutcome_def cancelCall_def by (auto simp: agrees_def errorResult_def intro!: setToolStatus_recorded [where P = P])

lemma applyDelta_executions: "applyDelta env r s = (x, s') \<Longrightarrow> ts_executions s' = ts_executions s"
  by (auto simp: applyDelta_def split: option.splits)

lemma recordOutcome_good:
  assumes "newId rq t" "recordedAs rq t P (ts_executions s)"
  shows "goodOutcome rq t (recordOutcome env rq d r s)"
proof -
  define s1 where "s1 = saveResult rq r (if ter_success r then setToolStatus env rq ''completed'' None s
       else setToolStatus env rq ''failed'' (Some (formatPersistedError env ''EXECUTION_FAILED'' (failureText r))) s)"
  have rec: "recordedAs rq t (agrees r) (ts_executions s1)"
    unfolding s1_def by (auto simp: agrees_def intro!: saveResult_recorded [OF assms(1)] setToolStatus_recorded [OF assms])
  obtain x s2 where d: "applyDelta env r s1 = (x, s2)" by fastforce
  show ?thesis
    using rec applyDelta_executions [OF d] d
    by (auto simp: recordOutcome_def s1_def [symmetric] Let_def goodOutcome_def recordedAs_def split: option.splits)
qed

lemma runHandler_good:
  assumes "newId rq t" "recordedAs rq t P (ts_executions s)"
  shows "goodOutcome rq t (runHandler env rq tool d s)"
proof -
  have exec: "recordedAs rq t (\<lambda>st. True) (ts_executions (setToolStatus env rq ''executing'' None s))" by (rule setToolStatus_recorded [OF assms]) simp
  note good = cancelCall_good [OF assms(1)] recordOutcome_good [OF assms(1)] goodOutcome_thrown
  show ?thesis using exec by (auto simp: runHandler_def Let_def split: prod.split sum.split intro!: good)
qed

lemma checkPermissionStage_good:
  assumes "newId rq t" "recordedAs rq t P (ts_executions s)"
  shows "goodOutcome rq t (checkPermissionStage env rq tool s)"
proof -
  have exec: "recordedAs rq t (\<lambda>st. True) (ts_executions (setToolStatus env rq ''permission_checking'' None s))" by (rule setToolStatus_recorded [OF assms]) simp
  note good = runHandler_good [OF assms(1)] failWith_good [OF assms(1)] requireApproval_good [OF assms(1)] goodOutcome_thrown
  show ?thesis using exec by (auto simp: checkPermissionStage_def Let_def split: prod.split sum.split intro!: good)
qed

lemma executeStages_good:
  assumes "newId rq (ts_executions s)"
  shows "goodOutcome rq (ts_executions s) (executeStages env tools rq s)"
proof -
  have refused: "goodOutcome rq (ts_executions s) (refuse env rq st sens m c x s)" if "st \<in> {''failed'', ''denied''}" for st sens m c x
  proof -
    obtain t' where t': "createExecution (te_now env) (newExecution rq st None sens (Some m)) (ts_executions s) = Inr t'"
      "recordedAs rq (ts_executions s) (\<lambda>y. y = st) t'" using createExecution_recorded [OF assms] by blast
    then show ?thesis using that by (auto simp: refuse_def goodOutcome_def agrees_def errorResult_def recordedAs_def)
  qed
  have validated: "goodOutcome rq (ts_executions s) (validateStage env rq tool s)" for tool
  proof -
    obtain t' where t': "createExecution (te_now env) (newExecution rq ''schema_validating'' (storedParams (trq_params rq)) (td_sensitivity tool) None)
        (ts_executions s) = Inr t'" "recordedAs rq (ts_executions s) (\<lambda>y. y = ''schema_validating'') t'"
      using createExecution_recorded [OF assms] by blast
    then have "recordedAs rq (ts_executions s) (\<lambda>y. y = ''schema_validating'') (ts_executions (s\<lparr>ts_executions := t'\<rparr>))" by simp
    note good = failWith_good [OF assms this] checkPermissionStage_good [OF assms this]
    show ?thesis using t'(1) by (auto simp: validateStage_def Let_def intro!: good)
  qed
  show ?thesis by (auto simp: executeStages_def split: option.split intro!: refused validated)
qed

text \<open>
  C24: The record of a call tells its outcome: a call with a new id leaves exactly one new row. It is \<open>completed\<close> exactly if
  the result is a success, and otherwise \<open>failed\<close>, \<open>denied\<close> or \<open>waiting_for_approval\<close> (only with the answer that an
  approval is required), and it is marked terminal unless it waits; this holds however the handler ends and even if
  applying the context change throws.
\<close>
theorem execution_recorded_as_it_ended:
  assumes "newId rq (ts_executions s)" "executeTool env tools rq s = (r, s')"
  shows "recordedAs rq (ts_executions s) (agrees r) (ts_executions s')"
proof -
  have rows: "ts_executions (startToolSpan rq s) = ts_executions s" by (simp add: startToolSpan_def)
  obtain x s1 where run: "executeStages env tools rq (startToolSpan rq s) = (x, s1)" by fastforce
  have good: "goodOutcome rq (ts_executions s) (x, s1)"
    using executeStages_good [of rq "startToolSpan rq s" env tools] assms(1) by (simp add: rows run)
  show ?thesis
  proof (cases x)
    case (Inl e)
    then have "recordedAs rq (ts_executions s) (\<lambda>st. True) (ts_executions s1)" using good by (simp add: goodOutcome_def)
    moreover have "agrees r ''failed''" using assms(2) run Inl by (auto simp: executeTool_def agrees_def errorResult_def)
    ultimately show ?thesis
      using assms(2) run Inl setToolStatus_recorded [OF assms(1)] by (fastforce simp: executeTool_def)
  next
    case (Inr y)
    then show ?thesis using good assms(2) run by (simp add: executeTool_def goodOutcome_def)
  qed
qed

text \<open>A reading tool called by a main agent without a working directory.\<close>

definition echoTool :: "nat ToolDefinition" where
  "echoTool = \<lparr>td_name = ''echo'', td_description = ''echo'', td_category = ''read'', td_sensitivity = ''low'',
     td_schema = \<lparr>sc_type = ''object'', sc_properties = Some [(''text'', JObj [(''type'', JStr ''string'')])], sc_required = Some [''text'']\<rparr>,
     td_handler = (\<lambda>p ctx n. (Inr \<lparr>ter_success = True, ter_error = None, ter_resultPreview = textProp p ''text'', ter_resultRef = None,
       ter_structuredContent = None, ter_contextDelta = None, ter_events = []\<rparr>, n + 1))\<rparr>"

definition echoCall :: ToolExecutionRequest where
  "echoCall = \<lparr>trq_toolCallId = ''c1'', trq_toolName = ''echo'', trq_params = JObj [(''text'', JStr ''hi'')], trq_userId = ''u'',
     trq_sessionId = None, trq_kernelRunId = None, trq_permissionContext = createPermissionContext ''u'' ''s'' ModeReadOnly [],
     trq_agentType = Some ''main'', trq_workDirRoot = None, trq_workDirId = None\<rparr>"

definition echoEnv :: "nat tool_env" where
  "echoEnv = \<lparr>te_config = DEFAULT_PERMISSION_ENGINE_CONFIG, te_regexTest = (\<lambda>p s. Inr False), te_filesystem = (\<lambda>n. demoFs),
     te_fresh = \<lparr>fr_now = 0, fr_correlationId = [], fr_spanId = [], fr_approvalId = [], fr_approvalCorrelationId = []\<rparr>, te_now = 0,
     te_sanitize = id, te_envelopes = True, te_applyDelta = None, te_abortedBefore = False, te_abortedAfter = False\<rparr>"

definition echoState :: "nat tool_state" where
  "echoState = \<lparr>ts_executions = [], ts_permissions = \<lparr>ps_approvals = [], ps_policies = None, ps_events = [], ps_spans = None, ps_audit = None\<rparr>,
     ts_world = 0, ts_handled = [], ts_deltas = [], ts_audit = None, ts_spans = None, ts_events = None\<rparr>"

theorem execution_recorded_as_it_ended_witness:
  "ter_success (fst (executeTool echoEnv [(''echo'', echoTool)] echoCall echoState)) \<and>
   (\<exists>row. ts_executions (snd (executeTool echoEnv [(''echo'', echoTool)] echoCall echoState)) = [row] \<and> tx_status row = ''completed'')"
proof -
  have "newId echoCall (ts_executions echoState)" by (simp add: newId_def echoState_def)
  from execution_recorded_as_it_ended [OF this prod.collapse [symmetric], of echoEnv "[(''echo'', echoTool)]"]
  have rec: "recordedAs echoCall [] (agrees (fst (executeTool echoEnv [(''echo'', echoTool)] echoCall echoState)))
      (ts_executions (snd (executeTool echoEnv [(''echo'', echoTool)] echoCall echoState)))"
    by (simp add: echoState_def)
  have "ter_success (fst (executeTool echoEnv [(''echo'', echoTool)] echoCall echoState))" by code_simp
  with rec show ?thesis by (auto simp: recordedAs_def agrees_def)
qed

text \<open>
  A reused call id loses the record of the first call: the insertion of a row with an id that exists throws, and
  the handler of exceptions then marks the existing row as failed, also if that call had completed; the tool is not run.
\<close>
theorem reused_call_id_fails_first_call:
  assumes "list_ex (\<lambda>x. tx_toolCallId x = trq_toolCallId rq) (ts_executions s)" "executeTool env tools rq s = (r, s')"
  shows "map_option fst (ter_error r) = Some ''EXECUTION_FAILED'' \<and> ts_world s' = ts_world s \<and> length (ts_executions s') = length (ts_executions s) \<and>
     (\<forall>x \<in> set (ts_executions s'). tx_toolCallId x = trq_toolCallId rq \<and> tx_tenantId x = DEFAULT_TENANT_ID \<longrightarrow> tx_status x = ''failed'')"
proof -
  have rows: "ts_executions (startToolSpan rq s) = ts_executions s" by (simp add: startToolSpan_def)
  have dup: "createExecution now (newExecution rq st ps sens e) (ts_executions s) = Inl ''UNIQUE constraint failed: tool_executions.tool_call_id''"
    for now st ps sens e using assms(1) by (simp add: createExecution_def newExecution_def)
  have "\<exists>e. executeStages env tools rq (startToolSpan rq s) = (Inl e, startToolSpan rq s)"
    using dup rows by (auto simp: executeStages_def refuse_def validateStage_def split: option.splits)
  then obtain e where stages: "executeStages env tools rq (startToolSpan rq s) = (Inl e, startToolSpan rq s)" by blast
  have "r = errorResult ''EXECUTION_FAILED'' e False"
    "s' = endToolSpan rq ''failed'' (Some (te_sanitize env e))
       (setToolStatus env rq ''failed'' (Some (formatPersistedError env ''EXECUTION_FAILED'' e)) (startToolSpan rq s))"
    using assms(2) stages by (simp_all add: executeTool_def)
  moreover from this have "ts_executions s' = updateExecutionStatus (te_now env) (trq_toolCallId rq) ''failed'' DEFAULT_TENANT_ID
      (Some (formatPersistedError env ''EXECUTION_FAILED'' e)) (ts_executions s)" by (simp add: setToolStatus_def rows)
  ultimately show ?thesis by (auto simp: errorResult_def updateExecutionStatus_def atRow_def)
qed

theorem reused_call_id_fails_first_call_witness:
  "map_option fst (ter_error (fst (executeTool echoEnv [(''echo'', echoTool)] echoCall
     (snd (executeTool echoEnv [(''echo'', echoTool)] echoCall echoState))))) = Some ''EXECUTION_FAILED''"
proof -
  have "list_ex (\<lambda>x. tx_toolCallId x = trq_toolCallId echoCall) (ts_executions (snd (executeTool echoEnv [(''echo'', echoTool)] echoCall echoState)))"
    by code_simp
  from reused_call_id_fails_first_call [OF this prod.collapse [symmetric]] show ?thesis by blast
qed

section \<open>The file tools as tools\<close>

text \<open>The parameters a handler reads from a JSON value that conforms to the schema, and its result.\<close>

definition boolProp :: "json \<Rightarrow> string \<Rightarrow> bool option" where
  "boolProp v k = (case field v k of Some (JBool b) \<Rightarrow> Some b | _ \<Rightarrow> None)"

definition handlerResult :: "(string + 'd tool_result) \<times> 'w \<Rightarrow> (string + ToolExecutionResult) \<times> 'w" where
  "handlerResult x = (map_sum id (\<lambda>r. \<lparr>ter_success = tr_success r, ter_error = map_option (\<lambda>(code, rec). (code, code, rec)) (tr_error r),
     ter_resultPreview = None, ter_resultRef = None, ter_structuredContent = None, ter_contextDelta = None, ter_events = []\<rparr>) (fst x), snd x)"

definition fileWriteTool :: "'w file_env \<Rightarrow> 'w file_state ToolDefinition" where
  "fileWriteTool env = \<lparr>td_name = ''file_write'',
     td_description = ''Write content to a file in the workspace with atomic write, hash verification, and safety checks'',
     td_category = ''write'', td_sensitivity = ''high'',
     td_schema = \<lparr>sc_type = ''object'', sc_properties = Some [(''filePath'', JObj [(''type'', JStr ''string'')]),
       (''content'', JObj [(''type'', JStr ''string'')]), (''overwrite'', JObj [(''type'', JStr ''boolean'')]),
       (''createDirs'', JObj [(''type'', JStr ''boolean'')]), (''expectedHash'', JObj [(''type'', JStr ''string'')])],
       sc_required = Some [''filePath'', ''content'']\<rparr>,
     td_handler = (\<lambda>p ctx s. handlerResult (fileWrite env \<lparr>fwp_filePath = textProp p ''filePath'', fwp_content = textProp p ''content'',
       fwp_overwrite = boolProp p ''overwrite'', fwp_createDirs = boolProp p ''createDirs'', fwp_expectedHash = textProp p ''expectedHash''\<rparr>
       (txc_workDirRoot ctx) s))\<rparr>"

definition fileEditTool :: "'w file_env \<Rightarrow> 'w file_state ToolDefinition" where
  "fileEditTool env = \<lparr>td_name = ''file_edit'', td_description = ''Edit a file by replacing a specific string in the workspace'',
     td_category = ''write'', td_sensitivity = ''high'',
     td_schema = \<lparr>sc_type = ''object'', sc_properties = Some [(''filePath'', JObj [(''type'', JStr ''string'')]),
       (''oldString'', JObj [(''type'', JStr ''string'')]), (''newString'', JObj [(''type'', JStr ''string'')]),
       (''replaceAll'', JObj [(''type'', JStr ''boolean'')]), (''expectedHash'', JObj [(''type'', JStr ''string'')])],
       sc_required = Some [''filePath'', ''oldString'', ''newString'']\<rparr>,
     td_handler = (\<lambda>p ctx s. handlerResult (fileEdit env \<lparr>fep_filePath = textProp p ''filePath'', fep_oldString = textProp p ''oldString'',
       fep_newString = textProp p ''newString'', fep_replaceAll = boolProp p ''replaceAll'', fep_expectedHash = textProp p ''expectedHash''\<rparr>
       (txc_workDirRoot ctx) s))\<rparr>"

definition fileToolRegistry :: "'w file_env \<Rightarrow> 'w file_state toolMap" where
  "fileToolRegistry env = [(''file_write'', fileWriteTool env), (''file_edit'', fileEditTool env)]"

text \<open>
  C20: From a tool call to the disk: a call of \<open>file_write\<close> or \<open>file_edit\<close> with a working directory changes nothing but
  checked targets below that directory, and nothing at all if the session denies everything, if the agent's envelope
  excludes the tool, or if the engine asks for an approval first.
\<close>
theorem tool_calls_stay_in_workdir:
  assumes "trq_workDirRoot rq = Some wd"
  shows "onlySanctioned fenv wd (wd \<noteq> []) (ts_world s) (ts_world (snd (executeTool env (fileToolRegistry fenv) rq s))) \<and>
    (\<not> list_ex (mayRun env (fileToolRegistry fenv) rq s) [fileWriteTool fenv, fileEditTool fenv] \<longrightarrow>
       ts_world (snd (executeTool env (fileToolRegistry fenv) rq s)) = ts_world s) \<and>
    (pc_mode (trq_permissionContext rq) = ModeHardDeny \<longrightarrow> ts_world (snd (executeTool env (fileToolRegistry fenv) rq s)) = ts_world s)"
proof -
  let ?w = "ts_world (snd (executeTool env (fileToolRegistry fenv) rq s))"
  have tools: "getTool (fileToolRegistry fenv) (trq_toolName rq) = Some tool \<Longrightarrow> tool \<in> {fileWriteTool fenv, fileEditTool fenv}" for tool
    by (auto simp: getTool_def fileToolRegistry_def split: if_splits)
  have handler: "onlySanctioned fenv wd (wd \<noteq> []) t (snd (td_handler tool p (executionContext rq) t))"
    if "tool \<in> {fileWriteTool fenv, fileEditTool fenv}" for tool p t
    using that assms fileWrite_sanctioned [OF prod.collapse [symmetric]] fileEdit_sanctioned [OF prod.collapse [symmetric]]
    by (auto simp: fileWriteTool_def fileEditTool_def handlerResult_def executionContext_def)
  have outcome: "?w = ts_world s \<or> (\<exists>tool. tool \<in> {fileWriteTool fenv, fileEditTool fenv} \<and> mayRun env (fileToolRegistry fenv) rq s tool \<and>
      ?w = snd (td_handler tool (trq_params rq) (executionContext rq) (ts_world s)))"
    using executeTool_world [of env "fileToolRegistry fenv" rq s] tools by (auto split: option.splits if_splits)
  have "\<not> mayRun env (fileToolRegistry fenv) rq s tool" if "pc_mode (trq_permissionContext rq) = ModeHardDeny" for tool
    using that by (auto simp: mayRun_def engineAllows_def checkPermission_def hardDeny_def finishDecision_def createDeniedDecision_def
      permissionRequest_def Let_def)
  then show ?thesis using outcome handler by auto
qed

definition diskToolEnv :: "(string \<times> string) list file_state tool_env" where
  "diskToolEnv = \<lparr>te_config = DEFAULT_PERMISSION_ENGINE_CONFIG, te_regexTest = (\<lambda>p s. Inr False),
     te_filesystem = (\<lambda>d. demoDiskView (fl_world d)),
     te_fresh = \<lparr>fr_now = 0, fr_correlationId = [], fr_spanId = [], fr_approvalId = [], fr_approvalCorrelationId = []\<rparr>, te_now = 0,
     te_sanitize = id, te_envelopes = True, te_applyDelta = None, te_abortedBefore = False, te_abortedAfter = False\<rparr>"

definition diskToolState :: "(string \<times> string) list file_state tool_state" where
  "diskToolState = \<lparr>ts_executions = [], ts_permissions = \<lparr>ps_approvals = [], ps_policies = None, ps_events = [], ps_spans = None, ps_audit = None\<rparr>,
     ts_world = demoDir, ts_handled = [], ts_deltas = [], ts_audit = None, ts_spans = None, ts_events = None\<rparr>"

definition deniedWrite :: ToolExecutionRequest where
  "deniedWrite = \<lparr>trq_toolCallId = ''c1'', trq_toolName = ''file_write'', trq_params = JObj [(''filePath'', JStr ''a.ts''), (''content'', JStr ''hi'')],
     trq_userId = ''u'', trq_sessionId = None, trq_kernelRunId = None,
     trq_permissionContext = createPermissionContext ''u'' ''s'' ModeHardDeny [], trq_agentType = Some ''main'', trq_workDirRoot = Some ''/wd'',
     trq_workDirId = None\<rparr>"

theorem tool_calls_stay_in_workdir_witness:
  "ts_world (snd (executeTool diskToolEnv (fileToolRegistry demoDisk) deniedWrite diskToolState)) = demoDir"
proof -
  have "trq_workDirRoot deniedWrite = Some ''/wd''" "pc_mode (trq_permissionContext deniedWrite) = ModeHardDeny"
    by (simp_all add: deniedWrite_def createPermissionContext_def)
  with tool_calls_stay_in_workdir [of deniedWrite "''/wd''" demoDisk diskToolState diskToolEnv] show ?thesis
    by (simp add: diskToolState_def)
qed

end
