(* ===== verification/Dead_Letters.thy ===== *)
theory Dead_Letters
  imports Stores Plan_Generation
begin

text \<open>
  The dead-letter queue (\<open>dead-letter/dead-letter-queue.ts\<close>) over its table (\<open>dead-letter/dead-letter-store.ts\<close>).
  A retry has two halves around the asynchronous handler: the first marks the record and calls the handler, the
  second records how the handler ended. The step relation interleaves the halves of any number of retries with
  enqueues and discards; the multiset-like list of handler calls under way belongs to the model.
\<close>

section \<open>The table\<close>

datatype DeadLetterStatus = DlqPending | DlqRetrying | DlqDiscarded | DlqResolved

record DeadLetterRecord =
  dl_eventId :: string
  dl_sourceModule :: string
  dl_sourceId :: string
  dl_reason :: string
  dl_payload :: "json option"
  dl_status :: DeadLetterStatus
  dl_failureCount :: nat
  dl_lastError :: "string option"
  dl_enqueuedAt :: timestamp
  dl_updatedAt :: timestamp
  dl_discardedAt :: "timestamp option"
  dl_resolvedAt :: "timestamp option"

record DeadLetterListFilters =
  dlf_module :: "string option"
  dlf_status :: "DeadLetterStatus option"

type_synonym deadLetterTable = "DeadLetterRecord list"

definition dlqInsert :: "DeadLetterRecord \<Rightarrow> deadLetterTable \<Rightarrow> deadLetterTable" where
  "dlqInsert record t = (if list_ex (\<lambda>r. dl_eventId r = dl_eventId record) t then t else t @ [record])"

definition findByEventId :: "deadLetterTable \<Rightarrow> string \<Rightarrow> DeadLetterRecord option" where
  "findByEventId t eventId = find (\<lambda>r. dl_eventId r = eventId) t"

definition dlqMatches :: "DeadLetterListFilters \<Rightarrow> DeadLetterRecord \<Rightarrow> bool" where
  "dlqMatches filters r = (dlf_module filters \<in> {None, Some (dl_sourceModule r)} \<and> dlf_status filters \<in> {None, Some (dl_status r)})"

definition dlqList :: "deadLetterTable \<Rightarrow> DeadLetterListFilters \<Rightarrow> DeadLetterRecord list" where
  "dlqList t filters = orderByDesc dl_enqueuedAt (filter (dlqMatches filters) t)"

definition dlqCount :: "deadLetterTable \<Rightarrow> DeadLetterListFilters \<Rightarrow> nat" where
  "dlqCount t filters = length (filter (dlqMatches filters) t)"

definition dlqUpdateStatus :: "timestamp \<Rightarrow> string \<Rightarrow> DeadLetterStatus \<Rightarrow> string option \<Rightarrow> deadLetterTable \<Rightarrow> deadLetterTable" where
  "dlqUpdateStatus now eventId status err = map (\<lambda>r. if dl_eventId r \<noteq> eventId then r
     else r\<lparr>dl_status := status, dl_failureCount := dl_failureCount r + (if status = DlqRetrying then 1 else 0),
       dl_lastError := nullish_opt err (dl_lastError r), dl_updatedAt := now,
       dl_discardedAt := (if status = DlqDiscarded then Some now else dl_discardedAt r),
       dl_resolvedAt := (if status = DlqResolved then Some now else dl_resolvedAt r)\<rparr>)"

section \<open>The queue\<close>

record DeadLetterRetryResult =
  rr_success :: bool
  rr_error :: "string option"

text \<open>How the handler ends: it throws a message or returns a result.\<close>

type_synonym handlerEnd = "string + DeadLetterRetryResult"

record dlq =
  dq_table :: deadLetterTable
  dq_underWay :: "string list"

definition newDeadLetter :: "timestamp \<Rightarrow> string \<Rightarrow> string \<Rightarrow> string \<Rightarrow> string \<Rightarrow> json option \<Rightarrow> DeadLetterRecord" where
  "newDeadLetter now eventId sourceModule sourceId reason payload = \<lparr>dl_eventId = eventId, dl_sourceModule = sourceModule,
     dl_sourceId = sourceId, dl_reason = reason, dl_payload = payload, dl_status = DlqPending, dl_failureCount = 0,
     dl_lastError = None, dl_enqueuedAt = now, dl_updatedAt = now, dl_discardedAt = None, dl_resolvedAt = None\<rparr>"

definition dlqEnqueue :: "timestamp \<Rightarrow> string \<Rightarrow> string \<Rightarrow> string \<Rightarrow> string \<Rightarrow> json option \<Rightarrow> dlq \<Rightarrow> DeadLetterRecord \<times> dlq" where
  "dlqEnqueue now eventId sourceModule sourceId reason payload q =
     (let record = newDeadLetter now eventId sourceModule sourceId reason payload in
      (record, q\<lparr>dq_table := dlqInsert record (dq_table q)\<rparr>))"

text \<open>\<open>Inl\<close>: the retry answers at once; \<open>Inr\<close>: the handler has been called with the record as it was read.\<close>

definition retryBegin :: "timestamp \<Rightarrow> string \<Rightarrow> dlq \<Rightarrow> (DeadLetterRetryResult + DeadLetterRecord) \<times> dlq" where
  "retryBegin now eventId q = (case findByEventId (dq_table q) eventId of
     None \<Rightarrow> (Inl \<lparr>rr_success = False, rr_error = Some ''Record not found''\<rparr>, q)
   | Some record \<Rightarrow>
       if dl_status record = DlqDiscarded then (Inl \<lparr>rr_success = False, rr_error = Some ''Cannot retry discarded record''\<rparr>, q)
       else (Inr record, q\<lparr>dq_table := dlqUpdateStatus now eventId DlqRetrying None (dq_table q), dq_underWay := eventId # dq_underWay q\<rparr>))"

definition retryEnd :: "timestamp \<Rightarrow> string \<Rightarrow> handlerEnd \<Rightarrow> dlq \<Rightarrow> DeadLetterRetryResult \<times> dlq" where
  "retryEnd now eventId outcome q = (let q' = q\<lparr>dq_underWay := remove1 eventId (dq_underWay q)\<rparr> in
     case outcome of
       Inl e \<Rightarrow> (\<lparr>rr_success = False, rr_error = Some e\<rparr>, q'\<lparr>dq_table := dlqUpdateStatus now eventId DlqPending (Some e) (dq_table q)\<rparr>)
     | Inr r \<Rightarrow>
         if rr_success r then (\<lparr>rr_success = True, rr_error = None\<rparr>, q'\<lparr>dq_table := dlqUpdateStatus now eventId DlqResolved None (dq_table q)\<rparr>)
         else (r, q'\<lparr>dq_table := dlqUpdateStatus now eventId DlqPending (rr_error r) (dq_table q)\<rparr>))"

definition dlqDiscard :: "timestamp \<Rightarrow> string \<Rightarrow> dlq \<Rightarrow> dlq" where
  "dlqDiscard now eventId q = (case findByEventId (dq_table q) eventId of None \<Rightarrow> q
     | Some record \<Rightarrow> q\<lparr>dq_table := dlqUpdateStatus now eventId DlqDiscarded None (dq_table q)\<rparr>)"

section \<open>Interleavings\<close>

datatype dlq_event =
    EnqueueEv timestamp string string string string "json option"
  | BeginEv timestamp string
  | EndEv timestamp string handlerEnd
  | DiscardEv timestamp string

fun dlqEffect :: "dlq_event \<Rightarrow> dlq \<Rightarrow> dlq" where
  "dlqEffect (EnqueueEv now i m s r p) q = snd (dlqEnqueue now i m s r p q)"
| "dlqEffect (BeginEv now i) q = snd (retryBegin now i q)"
| "dlqEffect (EndEv now i outcome) q = snd (retryEnd now i outcome q)"
| "dlqEffect (DiscardEv now i) q = dlqDiscard now i q"

text \<open>A handler ends only where one was called.\<close>

inductive dlq_step :: "dlq \<Rightarrow> dlq_event \<Rightarrow> dlq \<Rightarrow> bool" where
  step: "(\<forall>now i outcome. ev = EndEv now i outcome \<longrightarrow> i \<in> set (dq_underWay q)) \<Longrightarrow> dlq_step q ev (dlqEffect ev q)"

inductive dlq_run :: "dlq \<Rightarrow> dlq_event list \<Rightarrow> dlq \<Rightarrow> bool" where
  stop: "dlq_run q [] q"
| go: "dlq_step q ev q' \<Longrightarrow> dlq_run q' evs q'' \<Longrightarrow> dlq_run q (ev # evs) q''"

inductive_cases dlq_stepE: "dlq_step q ev q'"
inductive_cases dlq_runE: "dlq_run q (ev # evs) q'"

definition emptyDlq :: dlq where
  "emptyDlq = \<lparr>dq_table = [], dq_underWay = []\<rparr>"

section \<open>What every run keeps\<close>

lemma ids_update [simp]: "map dl_eventId (dlqUpdateStatus now i st e t) = map dl_eventId t"
  by (auto simp: dlqUpdateStatus_def)

lemma ids_insert: "distinct (map dl_eventId t) \<Longrightarrow> distinct (map dl_eventId (dlqInsert r t))"
  by (auto simp: dlqInsert_def list_ex_iff)

text \<open>The identity and the origin of a record, and how often it was given to the handler, up to an event.\<close>

definition identity :: "DeadLetterRecord \<Rightarrow> string \<times> string \<times> string \<times> string \<times> json option \<times> timestamp" where
  "identity r = (dl_eventId r, dl_sourceModule r, dl_sourceId r, dl_reason r, dl_payload r, dl_enqueuedAt r)"

definition evolves :: "DeadLetterRecord \<Rightarrow> DeadLetterRecord \<Rightarrow> bool" where
  "evolves r r' = (identity r' = identity r \<and> dl_failureCount r \<le> dl_failureCount r')"

lemma update_evolves: "list_all2 evolves t (dlqUpdateStatus now i st e t)"
  by (auto simp: dlqUpdateStatus_def list_all2_conv_all_nth evolves_def identity_def)

lemma evolves_refl: "list_all2 evolves t t"
  by (auto simp: list_all2_conv_all_nth evolves_def)

definition extends :: "deadLetterTable \<Rightarrow> deadLetterTable \<Rightarrow> bool" where
  "extends t t' = (\<exists>old new. t' = old @ new \<and> list_all2 evolves t old)"

lemma extends_refl: "extends t t"
  unfolding extends_def using evolves_refl [of t] by (intro exI [of _ t] exI [of _ "[]"]) simp

lemma extends_update: "extends t (dlqUpdateStatus now i st e t)"
  unfolding extends_def using update_evolves by (intro exI [of _ "dlqUpdateStatus now i st e t"] exI [of _ "[]"]) simp

lemma extends_insert: "extends t (dlqInsert r t)"
  unfolding extends_def dlqInsert_def using evolves_refl [of t] by (cases "list_ex (\<lambda>x. dl_eventId x = dl_eventId r) t") auto

lemma extends_trans:
  assumes "extends t t'" "extends t' t''"
  shows "extends t t''"
proof -
  obtain old new where t': "t' = old @ new" "list_all2 evolves t old" using assms(1) by (auto simp: extends_def)
  obtain old' new' where t'': "t'' = old' @ new'" "list_all2 evolves t' old'" using assms(2) by (auto simp: extends_def)
  obtain a b where ab: "old' = a @ b" "list_all2 evolves old a" using t''(2) t'(1) by (auto simp: list_all2_append1)
  have "list_all2 evolves t a" using t'(2) ab(2) by (rule list_all2_trans [rotated 1]) (auto simp: evolves_def)
  then show ?thesis unfolding extends_def using t'' ab by auto
qed

text \<open>What an event can do to the table: nothing, an insertion, an update of the status of one record.\<close>

definition changed :: "deadLetterTable \<Rightarrow> deadLetterTable \<Rightarrow> bool" where
  "changed t t' = (t' = t \<or> (\<exists>r. t' = dlqInsert r t) \<or> (\<exists>now i st e. t' = dlqUpdateStatus now i st e t))"

lemma changedI [intro!, simp]: "changed t t" "changed t (dlqInsert r t)" "changed t (dlqUpdateStatus now i st e t)"
  unfolding changed_def by blast+

lemma effect_changed: "changed (dq_table q) (dq_table (dlqEffect ev q))"
proof (cases ev)
  case (EndEv now i outcome)
  then show ?thesis by (cases outcome) (simp_all add: retryEnd_def Let_def)
qed (simp_all add: dlqEnqueue_def retryBegin_def dlqDiscard_def Let_def split: option.split)

lemma effect_extends: "extends (dq_table q) (dq_table (dlqEffect ev q))"
  using effect_changed [of q ev] unfolding changed_def by (elim disjE exE) (simp_all add: extends_refl extends_insert extends_update)

lemma effect_distinct: "distinct (map dl_eventId (dq_table q)) \<Longrightarrow> distinct (map dl_eventId (dq_table (dlqEffect ev q)))"
  using effect_changed [of q ev] unfolding changed_def by (elim disjE exE) (simp_all add: ids_insert)

lemma dlq_go:
  "(\<forall>now i outcome. ev = EndEv now i outcome \<longrightarrow> i \<in> set (dq_underWay q)) \<Longrightarrow> dlq_run (dlqEffect ev q) evs q' \<Longrightarrow> dlq_run q (ev # evs) q'"
  by (rule dlq_run.go [OF dlq_step.step])

text \<open>
  C26: The queue loses nothing: however enqueues, retries and discards interleave, event ids stay unique, every record
  stays in its place with the same id, source, reason and payload, and its failure count never falls.
\<close>
theorem dead_letters_never_lost:
  assumes "dlq_run q evs q'" "distinct (map dl_eventId (dq_table q))"
  shows "distinct (map dl_eventId (dq_table q')) \<and> extends (dq_table q) (dq_table q')"
  using assms
proof (induction rule: dlq_run.induct)
  case (stop q)
  then show ?case by (simp add: extends_refl)
next
  case (go q ev q' evs q'')
  have "q' = dlqEffect ev q" using go.hyps(1) by (elim dlq_stepE)
  then show ?case using go.IH go.prems effect_distinct effect_extends extends_trans by blast
qed

theorem dead_letters_never_lost_witness:
  "let q = snd (dlqEnqueue 0 ''e1'' ''m'' ''s'' ''r'' None emptyDlq) in
   extends (dq_table q) (dq_table (dlqEffect (EndEv 2 ''e1'' (Inr \<lparr>rr_success = True, rr_error = None\<rparr>)) (dlqEffect (BeginEv 1 ''e1'') q)))"
proof -
  let ?q = "snd (dlqEnqueue 0 ''e1'' ''m'' ''s'' ''r'' None emptyDlq)"
  let ?fin = "EndEv 2 ''e1'' (Inr \<lparr>rr_success = True, rr_error = None\<rparr>)"
  have table: "dq_table ?q = [newDeadLetter 0 ''e1'' ''m'' ''s'' ''r'' None]"
    by (simp add: dlqEnqueue_def emptyDlq_def dlqInsert_def Let_def)
  then have under: "''e1'' \<in> set (dq_underWay (dlqEffect (BeginEv 1 ''e1'') ?q))"
    by (simp add: retryBegin_def findByEventId_def newDeadLetter_def)
  have "dlq_run ?q [BeginEv 1 ''e1'', ?fin] (dlqEffect ?fin (dlqEffect (BeginEv 1 ''e1'') ?q))"
    by (rule dlq_go, simp, rule dlq_go, use under in simp, rule dlq_run.stop)
  from dead_letters_never_lost [OF this] table show ?thesis by (simp add: Let_def)
qed

text \<open>The status of the record with an id.\<close>

definition deadLetterStatusOf :: "deadLetterTable \<Rightarrow> string \<Rightarrow> DeadLetterStatus option" where
  "deadLetterStatusOf t i = map_option dl_status (findByEventId t i)"

lemma deadLetterStatusOf_simps [simp]: "deadLetterStatusOf [] i = None"
  "deadLetterStatusOf (r # t) i = (if dl_eventId r = i then Some (dl_status r) else deadLetterStatusOf t i)"
  by (simp_all add: deadLetterStatusOf_def findByEventId_def)

lemma update_Cons: "\<exists>r'. dlqUpdateStatus now j st e (r # t) = r' # dlqUpdateStatus now j st e t \<and> dl_eventId r' = dl_eventId r \<and>
    dl_status r' = (if dl_eventId r = j then st else dl_status r)"
  by (simp add: dlqUpdateStatus_def)

lemma deadLetterStatusOf_update: "deadLetterStatusOf (dlqUpdateStatus now j st e t) i = (if i = j \<and> deadLetterStatusOf t i \<noteq> None then Some st else deadLetterStatusOf t i)"
proof (induction t)
  case (Cons r t)
  then show ?case using update_Cons [of now j st e r t] by auto
qed (simp add: dlqUpdateStatus_def)

lemma deadLetterStatusOf_append: "deadLetterStatusOf t i \<noteq> None \<Longrightarrow> deadLetterStatusOf (t @ u) i = deadLetterStatusOf t i"
  by (induction t) auto

lemma deadLetterStatusOf_insert: "deadLetterStatusOf t i \<noteq> None \<Longrightarrow> deadLetterStatusOf (dlqInsert r t) i = deadLetterStatusOf t i"
  by (simp add: dlqInsert_def deadLetterStatusOf_append)

lemma discarded_stays:
  assumes "deadLetterStatusOf (dq_table q) i = Some DlqDiscarded" "i \<notin> set (dq_underWay q)" "dlq_step q ev q'"
  shows "deadLetterStatusOf (dq_table q') i = Some DlqDiscarded \<and> i \<notin> set (dq_underWay q')"
proof -
  have q': "q' = dlqEffect ev q" and fin: "\<And>now j outcome. ev = EndEv now j outcome \<Longrightarrow> j \<in> set (dq_underWay q)"
    using assms(3) by (auto elim!: dlq_stepE)
  show ?thesis
  proof (cases ev)
    case (EnqueueEv now j m s r p)
    then show ?thesis using assms(1,2) q' deadLetterStatusOf_insert [of "dq_table q" i] by (simp add: dlqEnqueue_def Let_def)
  next
    case (BeginEv now j)
    have "dl_status r = DlqDiscarded" if "findByEventId (dq_table q) i = Some r" for r
      using that assms(1) by (simp add: deadLetterStatusOf_def)
    then show ?thesis using assms(1,2) q' BeginEv
      by (cases "j = i") (auto simp: retryBegin_def deadLetterStatusOf_update split: option.split)
  next
    case (EndEv now j outcome)
    then have "j \<noteq> i" using fin assms(2) by blast
    then show ?thesis using assms(1,2) q' EndEv
      by (cases outcome) (auto simp: retryEnd_def Let_def deadLetterStatusOf_update)
  next
    case (DiscardEv now j)
    then show ?thesis using assms(1,2) q' by (auto simp: dlqDiscard_def deadLetterStatusOf_update split: option.splits)
  qed
qed

text \<open>
  A discard holds if nothing is under way: a record discarded while no retry of it is running stays discarded and is
  never given to the handler again, whatever happens to the queue afterwards.
\<close>
theorem discard_is_final_when_idle:
  assumes "dlq_run q evs q'" "deadLetterStatusOf (dq_table q) i = Some DlqDiscarded" "i \<notin> set (dq_underWay q)"
  shows "deadLetterStatusOf (dq_table q') i = Some DlqDiscarded \<and> i \<notin> set (dq_underWay q')"
  using assms discarded_stays by (induction rule: dlq_run.induct) blast+

definition discardedDlq :: dlq where
  "discardedDlq = dlqDiscard 1 ''e1'' (snd (dlqEnqueue 0 ''e1'' ''m'' ''s'' ''r'' None emptyDlq))"

theorem discard_is_final_when_idle_witness:
  "deadLetterStatusOf (dq_table (dlqEffect (BeginEv 2 ''e1'') discardedDlq)) ''e1'' = Some DlqDiscarded"
proof -
  have run: "dlq_run discardedDlq [BeginEv 2 ''e1''] (dlqEffect (BeginEv 2 ''e1'') discardedDlq)"
    by (rule dlq_go, simp, rule dlq_run.stop)
  have "deadLetterStatusOf (dq_table discardedDlq) ''e1'' = Some DlqDiscarded" "''e1'' \<notin> set (dq_underWay discardedDlq)"
    by code_simp+
  from discard_is_final_when_idle [OF run this] show ?thesis by blast
qed

text \<open>
  A discard does not stop a retry under way, and retries of one record are not exclusive: there is a run in which a
  record is given to the handler twice at the same time, is then discarded, and ends as resolved; the record of the
  discard stays beside it.
\<close>
theorem discard_lost_to_running_retry:
  "\<exists>evs q. dlq_run emptyDlq evs q \<and> deadLetterStatusOf (dq_table q) ''e1'' = Some DlqResolved \<and> DiscardEv 3 ''e1'' \<in> set evs \<and>
     (\<exists>q1. dlq_run emptyDlq (take 3 evs) q1 \<and> count_list (dq_underWay q1) ''e1'' = 2)"
proof -
  let ?e1 = "EnqueueEv 0 ''e1'' ''m'' ''s'' ''r'' None" and ?e2 = "BeginEv 1 ''e1''" and ?e3 = "BeginEv 2 ''e1''"
    and ?e4 = "DiscardEv 3 ''e1''" and ?e5 = "EndEv 4 ''e1'' (Inr \<lparr>rr_success = True, rr_error = None\<rparr>)"
  define q1 where "q1 = dlqEffect ?e3 (dlqEffect ?e2 (dlqEffect ?e1 emptyDlq))"
  have under: "''e1'' \<in> set (dq_underWay (dlqEffect ?e4 q1))" "count_list (dq_underWay q1) ''e1'' = 2"
    "deadLetterStatusOf (dq_table (dlqEffect ?e5 (dlqEffect ?e4 q1))) ''e1'' = Some DlqResolved"
    unfolding q1_def by code_simp+
  have "dlq_run emptyDlq [?e1, ?e2, ?e3] q1"
    unfolding q1_def by (rule dlq_go, simp, rule dlq_go, simp, rule dlq_go, simp, rule dlq_run.stop)
  moreover have "dlq_run emptyDlq [?e1, ?e2, ?e3, ?e4, ?e5] (dlqEffect ?e5 (dlqEffect ?e4 q1))"
    by (rule dlq_go, simp, rule dlq_go, simp, rule dlq_go, simp, fold q1_def, rule dlq_go, simp, rule dlq_go, use under(1) in simp, rule dlq_run.stop)
  ultimately show ?thesis using under
    by (intro exI [of _ "[?e1, ?e2, ?e3, ?e4, ?e5]"] exI [of _ "dlqEffect ?e5 (dlqEffect ?e4 q1)"]) auto
qed

end
