(* ===== verification/Agent_Kernel.thy ===== *)
theory Agent_Kernel
  imports Context_Compaction Stores
begin

text \<open>
  The agent kernel (\<open>kernel/agent-kernel.ts\<close>): the loop that asks the model, runs the tools it calls and asks again,
  with the guard that pairs calls and results (\<open>kernel/tool-result-pairing-guard.ts\<close>) and the compaction of the context.
  The world is an arbitrary type that every call to the outside may change; what lies outside is a parameter
  (\<open>kernel_env\<close>): the abort signal and the clock as they are read, the ids of new context items, the building of the request
  from the messages, the model with and without streaming, \<open>JSON.parse\<close>, the internal handlers, the dispatcher, the
  context manager, the compact executor and the check of the final content. An exception is the message it carries. Live broadcasts,
  token counts of the provider, metrics, snapshots of the model input and the decision trace are left out; the result is read off the
  state (\<open>iterationsUsed\<close>, \<open>toolCalls\<close>, \<open>transcript\<close>).
\<close>

section \<open>Data\<close>

record ToolUseRequest =
  tu_toolCallId :: string
  tu_toolName :: string
  tu_params :: json

type_synonym toolFailure = "string \<times> string \<times> bool"

record ToolUseResult =
  ur_toolCallId :: string
  ur_result :: "json option"
  ur_error :: "toolFailure option"
  ur_terminate :: bool

record LLMToolCall =
  lc_id :: string
  lc_name :: string
  lc_arguments :: string

record LLMResponse =
  lr_content :: "string option"
  lr_toolCalls :: "LLMToolCall list option"
  lr_finishReason :: string
  lr_reasoningContent :: "string option"

text \<open>What the transcript records of a compaction: the ids of the trigger, and what the executor gave.\<close>

record CompactTrigger =
  ct_candidateItemIds :: "string list option"
  ct_mustKeepItemIds :: "string list option"
  ct_executionResult :: "CompactExecutorResult option"

datatype entryContent =
    LlmRequestEntry
  | LlmResponseEntry LLMResponse
  | ToolCallEntry ToolUseRequest
  | ToolResultEntry ToolUseResult
  | CompactEntry CompactTrigger
  | ErrorEntry "string option" string

record KernelTranscriptEntry =
  kt_iteration :: nat
  kt_content :: entryContent

section \<open>The pairing guard\<close>

record pairingGuard =
  pg_pendingCalls :: "(string, ToolUseRequest) jsmap"
  pg_completedResults :: "(string, ToolUseResult) jsmap"

definition newGuard :: pairingGuard where
  "newGuard = \<lparr>pg_pendingCalls = [], pg_completedResults = []\<rparr>"

definition trackAssistantToolCalls :: "ToolUseRequest list \<Rightarrow> pairingGuard \<Rightarrow> pairingGuard" where
  "trackAssistantToolCalls requests g =
     g\<lparr>pg_pendingCalls := fold (\<lambda>req m. mapSet (tu_toolCallId req) req m) requests (pg_pendingCalls g)\<rparr>"

definition acceptToolResult :: "ToolUseResult \<Rightarrow> pairingGuard \<Rightarrow> pairingGuard" where
  "acceptToolResult r g = g\<lparr>pg_completedResults := mapSet (ur_toolCallId r) r (pg_completedResults g),
     pg_pendingCalls := mapDelete (ur_toolCallId r) (pg_pendingCalls g)\<rparr>"

definition missingResult :: "string \<Rightarrow> string \<times> ToolUseRequest \<Rightarrow> ToolUseResult" where
  "missingResult reason p = \<lparr>ur_toolCallId = fst p, ur_result = Some JNull, ur_error = Some (''MISSING_TOOL_RESULT'',
     ''Tool call '' @ tu_toolName (snd p) @ '' ('' @ fst p @ '') had no matching result ('' @ reason @ '')'', True), ur_terminate = False\<rparr>"

definition flushMissingResults :: "string \<Rightarrow> pairingGuard \<Rightarrow> ToolUseResult list \<times> pairingGuard" where
  "flushMissingResults reason g = (map (missingResult reason) (pg_pendingCalls g), g\<lparr>pg_pendingCalls := []\<rparr>)"

definition hasPendingCalls :: "pairingGuard \<Rightarrow> bool" where
  "hasPendingCalls g = (length (pg_pendingCalls g) > 0)"

definition getPendingCallIds :: "pairingGuard \<Rightarrow> string list" where
  "getPendingCallIds g = mapKeys (pg_pendingCalls g)"

datatype PairingGuardWarning = MissingResultWarning string | OrphanResultWarning string

record PairingGuardResult =
  pr_valid :: bool
  pr_warnings :: "PairingGuardWarning list"

definition guardResult :: "PairingGuardWarning list \<Rightarrow> PairingGuardResult" where
  "guardResult warnings = \<lparr>pr_valid = (length warnings = 0), pr_warnings = warnings\<rparr>"

definition validateGuard :: "pairingGuard \<Rightarrow> PairingGuardResult" where
  "validateGuard g = guardResult (map MissingResultWarning (getPendingCallIds g))"

text \<open>A \<open>Set\<close> of ids in order of first occurrence.\<close>

definition callIds :: "KernelTranscriptEntry list \<Rightarrow> string list" where
  "callIds t = rev (remdups (rev (List.map_filter (\<lambda>e. case kt_content e of ToolCallEntry c \<Rightarrow> Some (tu_toolCallId c) | _ \<Rightarrow> None) t)))"

definition resultIds :: "KernelTranscriptEntry list \<Rightarrow> string list" where
  "resultIds t = rev (remdups (rev (List.map_filter (\<lambda>e. case kt_content e of ToolResultEntry r \<Rightarrow> Some (ur_toolCallId r) | _ \<Rightarrow> None) t)))"

definition validateToolResultPairing :: "KernelTranscriptEntry list \<Rightarrow> PairingGuardResult" where
  "validateToolResultPairing t = guardResult (map MissingResultWarning (filter (\<lambda>i. i \<notin> set (resultIds t)) (callIds t)) @
     map OrphanResultWarning (filter (\<lambda>i. i \<notin> set (callIds t)) (resultIds t)))"

section \<open>The state of a run\<close>

text \<open>
  Two fields are the log of what the run asked of the outside: the batches handed to the dispatcher and the calls of the
  model, written where \<open>streamComplete\<close> and \<open>complete\<close> of the adapter are called.
\<close>

datatype modelCall = StreamCall | CompleteCall

record 'k kernel =
  k_iteration :: nat
  k_status :: string
  k_toolCalls :: "ToolUseRequest list"
  k_transcript :: "KernelTranscriptEntry list"
  k_contextItems :: "ContextItem list"
  k_compactedItemIds :: "string list"
  k_compactedToolCallIds :: "string list"
  k_lastCompactSummaryItem :: "ContextItem option"
  k_guard :: pairingGuard
  k_dispatched :: "ToolUseRequest list list"
  k_asked :: "modelCall list"
  k_world :: 'k

text \<open>What the dispatcher returns, and a tool execution result in it.\<close>

record KernelDispatchResult =
  dr_status :: string
  dr_error :: "toolFailure option"
  dr_result :: "json option"

record KernelExecResult =
  xr_success :: bool
  xr_data :: "json option"
  xr_error :: "toolFailure option"

record KernelRunResult =
  kr_finalStatus :: string
  kr_error :: "(string \<times> string) option"
  kr_finalResponse :: "string option"
  kr_structuredResult :: "json option"

datatype KernelMessage =
    AssistantMessage string "LLMToolCall list option" "string option"
  | ToolMessage "string option" string

record 'k kernel_env =
  ke_bundle :: ContextBundle
  ke_compactThreshold :: "real option"
  ke_toolLoopV2 :: bool
  ke_aborted :: "'k \<Rightarrow> bool"
  ke_timedOut :: "'k \<Rightarrow> bool"
  ke_remaining :: "'k \<Rightarrow> int"
  ke_newItemId :: "'k \<Rightarrow> string \<times> 'k"
  ke_buildRequest :: "ContextBundleData \<Rightarrow> KernelMessage list \<Rightarrow> 'k \<Rightarrow> string option \<times> 'k"
  ke_streaming :: bool
  ke_stream :: "'k \<Rightarrow> (string + bool \<times> LLMResponse) \<times> 'k"
  ke_complete :: "'k \<Rightarrow> (string + (string \<times> string) + LLMResponse) \<times> 'k"
  ke_parse :: "string \<Rightarrow> string + json"
  ke_internal :: "string \<Rightarrow> (ToolUseRequest \<Rightarrow> 'k \<Rightarrow> (string + ToolUseResult \<times> bool \<times> json option) \<times> 'k) option"
  ke_projected :: "string list option"
  ke_agentType :: string
  ke_dispatch :: "ToolUseRequest list \<Rightarrow> 'k \<Rightarrow> (string + KernelDispatchResult) \<times> 'k"
  ke_applyDelta :: "json \<Rightarrow> 'k \<Rightarrow> string option \<times> 'k"
  ke_replaceItems :: "ContextItem \<Rightarrow> string list \<Rightarrow> 'k \<Rightarrow> string option \<times> 'k"
  ke_compactExecutor :: "(string list \<Rightarrow> string list \<Rightarrow> ContextItem list \<Rightarrow> 'k \<Rightarrow> (string + CompactExecutorResult) \<times> 'k) option"
  ke_validateContent :: "string \<Rightarrow> (string \<times> string) + json option"

text \<open>How a part of the loop ends: it goes on, the run is over, or it throws.\<close>

datatype kflow = KContinue | KDone KernelRunResult | KThrow string

definition commitTranscript :: "entryContent \<Rightarrow> 'k kernel \<Rightarrow> 'k kernel" where
  "commitTranscript c k = k\<lparr>k_transcript := k_transcript k @ [\<lparr>kt_iteration = k_iteration k, kt_content = c\<rparr>]\<rparr>"

definition mergedContent :: "ToolUseRequest \<Rightarrow> ToolUseResult \<Rightarrow> string" where
  "mergedContent rq r = ''Tool '' @ tu_toolName rq @ (case ur_error r of Some (code, message, recoverable) \<Rightarrow> '' failed: '' @ message
     | None \<Rightarrow> '' result: '' @ (case ur_result r of Some v \<Rightarrow> stringify v | None \<Rightarrow> ''undefined''))"

definition toolResultItem :: "string \<Rightarrow> ToolUseRequest \<Rightarrow> string \<Rightarrow> ContextItem" where
  "toolResultItem i rq content = \<lparr>ci_itemId = ''tool-result-'' @ i, ci_sourceType = ''tool_result'', ci_semanticType = ''tool_output'',
     ci_content = content, ci_structuredPayload = Some (ToolResultPayload (tu_toolCallId rq)), ci_estimatedTokens = Some (estimateTokens content),
     ci_isPinned = None, ci_isCompressible = None, ci_isReplaceableByRef = None\<rparr>"

definition mergeToolResult :: "'k kernel_env \<Rightarrow> ToolUseRequest \<Rightarrow> ToolUseResult \<Rightarrow> 'k kernel \<Rightarrow> 'k kernel" where
  "mergeToolResult env rq r k = (case ke_newItemId env (k_world k) of (i, w) \<Rightarrow>
     k\<lparr>k_contextItems := k_contextItems k @ [toolResultItem i rq (mergedContent rq r)], k_world := w\<rparr>)"

text \<open>The three calls the loop makes for every result it obtains.\<close>

definition recordResult :: "'k kernel_env \<Rightarrow> ToolUseRequest \<Rightarrow> ToolUseResult \<Rightarrow> 'k kernel \<Rightarrow> 'k kernel" where
  "recordResult env rq r k = mergeToolResult env rq r (commitTranscript (ToolResultEntry r) (k\<lparr>k_guard := acceptToolResult r (k_guard k)\<rparr>))"

definition errorFor :: "ToolUseRequest \<Rightarrow> string \<Rightarrow> string \<Rightarrow> bool \<Rightarrow> ToolUseResult" where
  "errorFor rq code message recoverable = \<lparr>ur_toolCallId = tu_toolCallId rq, ur_result = Some JNull,
     ur_error = Some (code, message, recoverable), ur_terminate = False\<rparr>"

definition syntheticRequest :: "'k kernel \<Rightarrow> string \<Rightarrow> ToolUseRequest" where
  "syntheticRequest k i = \<lparr>tu_toolCallId = i, tu_toolName = (case find (\<lambda>tc. tu_toolCallId tc = i) (k_toolCalls k) of
     None \<Rightarrow> ''unknown'' | Some known \<Rightarrow> tu_toolName known), tu_params = JObj []\<rparr>"

definition flushPairingGuard :: "'k kernel_env \<Rightarrow> string \<Rightarrow> 'k kernel \<Rightarrow> 'k kernel" where
  "flushPairingGuard env reason k =
     (if \<not> hasPendingCalls (k_guard k) then k
      else case flushMissingResults reason (k_guard k) of
        (missing, g) \<Rightarrow> fold (\<lambda>r k. mergeToolResult env (syntheticRequest k (ur_toolCallId r)) r (commitTranscript (ToolResultEntry r) k))
          missing (k\<lparr>k_guard := g\<rparr>))"

definition endRun :: "string \<Rightarrow> string \<Rightarrow> (string \<times> string) option \<Rightarrow> string option \<Rightarrow> json option \<Rightarrow> 'k kernel \<Rightarrow> kflow \<times> 'k kernel" where
  "endRun status finalStatus err response structured k = (KDone \<lparr>kr_finalStatus = finalStatus, kr_error = err,
     kr_finalResponse = response, kr_structuredResult = structured\<rparr>, k\<lparr>k_status := status\<rparr>)"

definition cancelRun :: "'k kernel_env \<Rightarrow> 'k kernel \<Rightarrow> kflow \<times> 'k kernel" where
  "cancelRun env k = endRun ''cancelled'' ''cancelled'' None None None (flushPairingGuard env ''cancelled'' k)"

section \<open>Dispatching a batch\<close>

definition isCallableProjectedTool :: "'k kernel_env \<Rightarrow> string \<Rightarrow> bool" where
  "isCallableProjectedTool env toolName = (case ke_projected env of None \<Rightarrow> False
     | Some tools \<Rightarrow> toolName \<in> set tools \<and> ke_agentType env \<noteq> ''remote'')"

definition isRuntimeContextDelta :: "json \<Rightarrow> bool" where
  "isRuntimeContextDelta v = (textProp v ''runId'' \<noteq> None \<and> textProp v ''source'' \<noteq> None \<and> arrayProp v ''items'' \<noteq> None)"

definition isToolExecutionResult :: "json \<Rightarrow> bool" where
  "isToolExecutionResult v = (case field v ''success'' of Some (JBool b) \<Rightarrow> True | _ \<Rightarrow> False)"

definition extractContextDeltas :: "json option \<Rightarrow> json list" where
  "extractContextDeltas result = (case result of
     None \<Rightarrow> []
   | Some (JArr items) \<Rightarrow> filter isRuntimeContextDelta (List.map_filter (\<lambda>v. if isToolExecutionResult v then field v ''contextDelta'' else None) items)
   | Some v \<Rightarrow> (case field v ''contextDelta'' of Some d \<Rightarrow> if isRuntimeContextDelta d then [d] else [] | None \<Rightarrow> []))"

fun applyDeltas :: "'k kernel_env \<Rightarrow> json list \<Rightarrow> 'k \<Rightarrow> string option \<times> 'k" where
  "applyDeltas env [] w = (None, w)"
| "applyDeltas env (d # ds) w = (case ke_applyDelta env d w of (Some e, w') \<Rightarrow> (Some e, w') | (None, w') \<Rightarrow> applyDeltas env ds w')"

text \<open>The fields of a tool execution result as its type declares them.\<close>

definition failureOf :: "json \<Rightarrow> toolFailure option" where
  "failureOf e = (if e = JNull then None
     else Some (nullish (textProp e ''code'') [], nullish (textProp e ''message'') [], field e ''recoverable'' = Some (JBool True)))"

definition execResultOf :: "json \<Rightarrow> KernelExecResult" where
  "execResultOf v = \<lparr>xr_success = (field v ''success'' = Some (JBool True)), xr_data = field v ''data'', xr_error = Option.bind (field v ''error'') failureOf\<rparr>"

definition rawResults :: "json option \<Rightarrow> json option list" where
  "rawResults result = (case result of Some (JArr items) \<Rightarrow> map Some items | _ \<Rightarrow> [result])"

definition resultKey :: "ToolUseRequest \<Rightarrow> json \<Rightarrow> string" where
  "resultKey rq raw = nullish (Option.bind (field raw ''data'') (\<lambda>v. textProp v ''toolCallId'')) (tu_toolCallId rq)"

definition execResultMap :: "ToolUseRequest list \<Rightarrow> json option \<Rightarrow> (string, KernelExecResult) jsmap" where
  "execResultMap batch result = fold (\<lambda>(rq, raw) m. case raw of None \<Rightarrow> m
       | Some v \<Rightarrow> if isToolExecutionResult v then mapSet (resultKey rq v) (execResultOf v) m else m)
     (zip batch (rawResults result)) []"

definition toolResultOf :: "ToolUseRequest list \<Rightarrow> KernelDispatchResult \<Rightarrow> ToolUseRequest \<Rightarrow> ToolUseResult" where
  "toolResultOf batch dispatched rq = (case mapGet (execResultMap batch (dr_result dispatched)) (tu_toolCallId rq) of
     Some x \<Rightarrow> \<lparr>ur_toolCallId = tu_toolCallId rq, ur_result = (if xr_success x then xr_data x else Some JNull), ur_error = xr_error x,
       ur_terminate = (Option.bind (xr_data x) (\<lambda>v. field v ''terminate'') = Some (JBool True))\<rparr>
   | None \<Rightarrow> if dr_status dispatched = ''completed'' \<and> dr_error dispatched = None
       then \<lparr>ur_toolCallId = tu_toolCallId rq, ur_result = dr_result dispatched, ur_error = None, ur_terminate = False\<rparr>
       else \<lparr>ur_toolCallId = tu_toolCallId rq, ur_result = Some JNull,
         ur_error = Some (nullish (dr_error dispatched) (''DISPATCH_FAILED'', ''Tool dispatch failed'', False)), ur_terminate = False\<rparr>)"

text \<open>\<open>Inl\<close>: applying a context delta throws; otherwise whether all tools of the batch asked to terminate.\<close>

definition dispatchExternalBatch :: "'k kernel_env \<Rightarrow> ToolUseRequest list \<Rightarrow> 'k kernel \<Rightarrow> (string + bool) \<times> 'k kernel" where
  "dispatchExternalBatch env batch k0 =
     (if batch = [] then (Inr False, k0)
      else let k = k0\<lparr>k_dispatched := k_dispatched k0 @ [batch]\<rparr> in
        case ke_dispatch env batch (k_world k) of
          (Inl e, w) \<Rightarrow> (Inr False, fold (\<lambda>rq. recordResult env rq (errorFor rq ''DISPATCH_ERROR'' e True)) batch (k\<lparr>k_world := w\<rparr>))
        | (Inr dispatched, w) \<Rightarrow> (case applyDeltas env (extractContextDeltas (dr_result dispatched)) w of
            (Some e, w') \<Rightarrow> (Inl e, k\<lparr>k_world := w'\<rparr>)
          | (None, w') \<Rightarrow> (Inr (list_all (\<lambda>rq. ur_terminate (toolResultOf batch dispatched rq)) batch),
              fold (\<lambda>rq. recordResult env rq (toolResultOf batch dispatched rq)) batch (k\<lparr>k_world := w'\<rparr>))))"

section \<open>The tool calls of a response\<close>

definition hasToolCalls :: "LLMResponse \<Rightarrow> bool" where
  "hasToolCalls r = (case lr_toolCalls r of None \<Rightarrow> False | Some cs \<Rightarrow> length cs > 0)"

definition parseToolUseRequests :: "'k kernel_env \<Rightarrow> LLMResponse \<Rightarrow> ToolUseRequest list \<times> (string, string) jsmap" where
  "parseToolUseRequests env r = (let calls = nullish (lr_toolCalls r) [] in
     (map (\<lambda>c. \<lparr>tu_toolCallId = lc_id c, tu_toolName = lc_name c, tu_params = (case ke_parse env (lc_arguments c) of Inr v \<Rightarrow> v | Inl e \<Rightarrow> JObj [])\<rparr>) calls,
      fold (\<lambda>c m. case ke_parse env (lc_arguments c) of Inr v \<Rightarrow> m | Inl e \<Rightarrow> mapSet (lc_id c) e m) calls []))"

definition truncatedResult :: "ToolUseRequest \<Rightarrow> ToolUseResult" where
  "truncatedResult rq = errorFor rq ''TRUNCATED_TOOL_CALL'' (''Tool call '' @ tu_toolName rq @
     '' arguments may be truncated because the model response reached the token length limit. Please re-issue the tool call with complete arguments.'') True"

definition refuseTruncated :: "'k kernel_env \<Rightarrow> ToolUseRequest list \<Rightarrow> 'k kernel \<Rightarrow> 'k kernel" where
  "refuseTruncated env requests k = flushPairingGuard env ''iteration_end''
     (fold (\<lambda>rq k. recordResult env rq (truncatedResult rq) (commitTranscript (ToolCallEntry rq) k)) requests k)"

text \<open>An internal handler: the buffered batch goes first. The flow is \<open>KContinue\<close> where the loop over the calls goes on.\<close>

definition runInternal :: "'k kernel_env \<Rightarrow> (ToolUseRequest \<Rightarrow> 'k \<Rightarrow> (string + ToolUseResult \<times> bool \<times> json option) \<times> 'k) \<Rightarrow>
    ToolUseRequest \<Rightarrow> 'k kernel \<Rightarrow> kflow \<times> 'k kernel" where
  "runInternal env handler rq k = (case handler rq (k_world k) of
     (outcome, w) \<Rightarrow> (let k1 = k\<lparr>k_world := w\<rparr> in
       case outcome of
         Inr (r, True, structured) \<Rightarrow> endRun ''completed'' ''completed'' None None structured
           (flushPairingGuard env ''internal_handler_stop'' (recordResult env rq r k1))
       | _ \<Rightarrow> (let k2 = (case outcome of Inr (r, _) \<Rightarrow> recordResult env rq r k1
             | Inl e \<Rightarrow> recordResult env rq (errorFor rq ''INTERNAL_HANDLER_ERROR'' e True) k1) in
           if ke_aborted env (k_world k2) then cancelRun env k2 else (KContinue, k2))))"

fun callTools :: "'k kernel_env \<Rightarrow> (string, string) jsmap \<Rightarrow> ToolUseRequest list \<Rightarrow> ToolUseRequest list \<Rightarrow> 'k kernel \<Rightarrow>
    kflow \<times> ToolUseRequest list \<times> 'k kernel" where
  "callTools env invalidArgs batch [] k = (KContinue, batch, k)"
| "callTools env invalidArgs batch (rq # rqs) k0 = (let k = commitTranscript (ToolCallEntry rq) k0 in
     case mapGet invalidArgs (tu_toolCallId rq) of
       Some e \<Rightarrow> callTools env invalidArgs batch rqs (recordResult env rq (errorFor rq ''INVALID_TOOL_ARGUMENTS''
         (''Tool call '' @ tu_toolName rq @ '' has invalid JSON arguments: '' @ e) True) k)
     | None \<Rightarrow> (case ke_internal env (tu_toolName rq) of
         Some handler \<Rightarrow> (case dispatchExternalBatch env batch k of
             (Inl e, k1) \<Rightarrow> (KThrow e, [], k1)
           | (Inr _, k1) \<Rightarrow> (case runInternal env handler rq k1 of
               (KContinue, k2) \<Rightarrow> callTools env invalidArgs [] rqs k2
             | (flow, k2) \<Rightarrow> (flow, [], k2)))
       | None \<Rightarrow>
           if \<not> isCallableProjectedTool env (tu_toolName rq)
           then callTools env invalidArgs batch rqs (recordResult env rq (errorFor rq ''UNPROJECTED_TOOL_CALL''
             (''Tool '' @ tu_toolName rq @ '' was not projected as callable for this kernel run'') False) k)
           else callTools env invalidArgs (batch @ [rq]) rqs k))"

section \<open>Compaction\<close>

definition usedTokens :: "ContextItem list \<Rightarrow> nat" where
  "usedTokens items = sum_list (map (\<lambda>i. nullish (ci_estimatedTokens i) 0) items)"

text \<open>\<open>None\<close>: no compaction is due.\<close>

definition checkCompactTrigger :: "'k kernel_env \<Rightarrow> 'k kernel \<Rightarrow> CompactHints option" where
  "checkCompactTrigger env k = (let bundle = ke_bundle env;
       budget = nullish (cb_contextWindow bundle) (cb_tokenEstimate bundle);
       utilizationRatio = real (usedTokens (k_contextItems k)) / real (if budget = 0 then 1 else budget) in
     if utilizationRatio > nullish (ke_compactThreshold env) (8 / 10)
     then (case cb_compactHints bundle of Some hints \<Rightarrow> if ch_shouldCompactSoon hints then Some hints else None | None \<Rightarrow> None)
     else None)"

definition protectedItem :: "ContextItem \<Rightarrow> bool" where
  "protectedItem i = (ci_isPinned i = Some True \<or> ci_isCompressible i = Some False)"

definition payloadCallId :: "ContextItem \<Rightarrow> string option" where
  "payloadCallId i = (case ci_structuredPayload i of Some (ToolResultPayload c) \<Rightarrow> Some c | Some (OtherPayload v) \<Rightarrow> textProp v ''toolCallId'' | _ \<Rightarrow> None)"

definition applyCompaction :: "string list \<Rightarrow> ContextItem \<Rightarrow> 'k kernel \<Rightarrow> 'k kernel" where
  "applyCompaction ids summaryItem k =
     k\<lparr>k_compactedToolCallIds := k_compactedToolCallIds k @ filter (\<lambda>c. c \<noteq> [])
         (List.map_filter payloadCallId (filter (\<lambda>i. ci_itemId i \<in> set ids) (k_contextItems k))),
       k_contextItems := filter (\<lambda>i. ci_itemId i \<notin> set ids) (k_contextItems k) @ [summaryItem],
       k_compactedItemIds := k_compactedItemIds k @ ids,
       k_lastCompactSummaryItem := Some summaryItem\<rparr>"

text \<open>An exception of the executor or of the context manager becomes a skipped compaction.\<close>

definition executeCompact :: "'k kernel_env \<Rightarrow> (string list \<Rightarrow> string list \<Rightarrow> ContextItem list \<Rightarrow> 'k \<Rightarrow> (string + CompactExecutorResult) \<times> 'k) \<Rightarrow>
    string list \<Rightarrow> string list \<Rightarrow> 'k kernel \<Rightarrow> CompactExecutorResult \<times> 'k kernel" where
  "executeCompact env executor candidateItemIds mustKeepItemIds k = (case executor candidateItemIds mustKeepItemIds (k_contextItems k) (k_world k) of
     (Inl e, w) \<Rightarrow> (CompactSkipped ''executor error'', k\<lparr>k_world := w\<rparr>)
   | (Inr (CompactApplied ids summaryItem ratio), w) \<Rightarrow>
       if list_ex (\<lambda>i. i \<in> set mustKeepItemIds \<or> list_ex (\<lambda>item. protectedItem item \<and> ci_itemId item = i) (k_contextItems k)) ids
       then (CompactSkipped ''protected items in compacted set'', k\<lparr>k_world := w\<rparr>)
       else (let k1 = applyCompaction ids summaryItem (k\<lparr>k_world := w\<rparr>) in case ke_replaceItems env summaryItem ids w of
           (Some e, w') \<Rightarrow> (CompactSkipped ''executor error'', k1\<lparr>k_world := w'\<rparr>)
         | (None, w') \<Rightarrow> (CompactApplied ids summaryItem ratio, k1\<lparr>k_world := w'\<rparr>))
   | (Inr result, w) \<Rightarrow> (result, k\<lparr>k_world := w\<rparr>))"

definition compactStage :: "'k kernel_env \<Rightarrow> 'k kernel \<Rightarrow> 'k kernel" where
  "compactStage env k = (case checkCompactTrigger env k of
     None \<Rightarrow> k
   | Some hints \<Rightarrow> (case (case ke_compactExecutor env of
         None \<Rightarrow> (None, k)
       | Some executor \<Rightarrow> (case executeCompact env executor (nullish (ch_candidateItemIds hints) []) (nullish (ch_mustKeepItemIds hints) []) k of
           (r, k') \<Rightarrow> (Some r, k'))) of
       (result, k1) \<Rightarrow> commitTranscript (CompactEntry \<lparr>ct_candidateItemIds = ch_candidateItemIds hints,
         ct_mustKeepItemIds = ch_mustKeepItemIds hints, ct_executionResult = result\<rparr>) k1))"

section \<open>The calls of a response, one after the other\<close>

definition runTools :: "'k kernel_env \<Rightarrow> LLMResponse \<Rightarrow> 'k kernel \<Rightarrow> kflow \<times> 'k kernel" where
  "runTools env response k0 = (case parseToolUseRequests env response of
     (requests, invalidArgs) \<Rightarrow> (let k = k0\<lparr>k_toolCalls := k_toolCalls k0 @ requests, k_guard := trackAssistantToolCalls requests (k_guard k0)\<rparr> in
       if lr_finishReason response = ''length'' then (KContinue, refuseTruncated env requests k)
       else case callTools env invalidArgs [] requests k of
         (KContinue, batch, k1) \<Rightarrow> (case dispatchExternalBatch env batch k1 of
             (Inl e, k2) \<Rightarrow> (KThrow e, k2)
           | (Inr allTerminated, k2) \<Rightarrow> (let k3 = flushPairingGuard env ''iteration_end'' k2 in
               if allTerminated then endRun ''completed'' ''completed'' None None None k3
               else (KContinue, compactStage env k3)))
       | (flow, _, k1) \<Rightarrow> (flow, k1)))"

section \<open>The model\<close>

text \<open>The call of the model ends with a response, with the error it reports, or with the flow it forces.\<close>

datatype llmEnd = LlmOk LLMResponse | LlmError string string | LlmFlow kflow

definition callLLMWithTimeout :: "'k kernel_env \<Rightarrow> int \<Rightarrow> 'k kernel \<Rightarrow> (string + (string \<times> string) + LLMResponse) \<times> 'k kernel" where
  "callLLMWithTimeout env timeoutMs k =
     (if timeoutMs \<le> 0 then (Inl ''LLM request timeout before dispatch'', k)
      else case ke_complete env (k_world k) of (outcome, w) \<Rightarrow> (outcome, k\<lparr>k_asked := k_asked k @ [CompleteCall], k_world := w\<rparr>))"

text \<open>The stream aggregated: a response, nothing (\<open>success: false\<close>), or an exception.\<close>

definition callLLMWithStreaming :: "'k kernel_env \<Rightarrow> int \<Rightarrow> 'k kernel \<Rightarrow> (string + LLMResponse option) \<times> 'k kernel" where
  "callLLMWithStreaming env timeoutMs k =
     (if timeoutMs \<le> 0 then (Inl ''LLM request timeout before dispatch'', k)
      else case ke_stream env (k_world k) of (outcome, w) \<Rightarrow>
        (case outcome of
           Inl e \<Rightarrow> Inl (if str_includes e ''timeout'' \<or> startsWith e ''ABORTED:'' then e else ''STREAMING_ERROR: '' @ e)
         | Inr (isEmpty, r) \<Rightarrow> Inr (if isEmpty \<and> \<not> truthy (lr_reasoningContent r) then None else Some r),
         k\<lparr>k_asked := k_asked k @ [StreamCall], k_world := w\<rparr>))"

definition completeEnd :: "'k kernel_env \<Rightarrow> int \<Rightarrow> bool \<Rightarrow> 'k kernel \<Rightarrow> llmEnd \<times> 'k kernel" where
  "completeEnd env timeoutMs fallback k = (case callLLMWithTimeout env timeoutMs k of
     (Inl e, k1) \<Rightarrow> (LlmFlow (KThrow e), k1)
   | (Inr (Inl (code, message)), k1) \<Rightarrow> (LlmError code message, k1)
   | (Inr (Inr r), k1) \<Rightarrow>
       if fallback \<and> \<not> truthy (lr_content r) \<and> \<not> hasToolCalls r
       then (case endRun ''completed'' ''completed'' None (Some []) None k1 of (flow, k') \<Rightarrow> (LlmFlow flow, k'))
       else (LlmOk r, k1))"

definition askModel :: "'k kernel_env \<Rightarrow> int \<Rightarrow> 'k kernel \<Rightarrow> llmEnd \<times> 'k kernel" where
  "askModel env timeoutMs k =
     (if \<not> ke_streaming env then completeEnd env timeoutMs False k
      else case callLLMWithStreaming env timeoutMs k of
        (Inr (Some r), k1) \<Rightarrow> (LlmOk r, k1)
      | (Inr None, k1) \<Rightarrow> completeEnd env timeoutMs True k1
      | (Inl e, k1) \<Rightarrow>
          if str_includes e ''timeout'' then (case endRun ''failed'' ''failed'' (Some (''KERNEL_ERROR'', ''LLM stream timeout'')) None None
              (flushPairingGuard env ''timeout'' k1) of (flow, k') \<Rightarrow> (LlmFlow flow, k'))
          else if startsWith e ''ABORTED:'' then (LlmFlow (KThrow e), k1)
          else completeEnd env timeoutMs True k1)"

definition finalAnswer :: "'k kernel_env \<Rightarrow> LLMResponse \<Rightarrow> 'k kernel \<Rightarrow> kflow \<times> 'k kernel" where
  "finalAnswer env response k =
     (if truthy (lr_content response) then
        (case ke_validateContent env (the (lr_content response)) of
           Inl (code, message) \<Rightarrow> endRun ''failed'' ''failed'' (Some (code, message)) None None (commitTranscript (ErrorEntry (Some code) message) k)
         | Inr structured \<Rightarrow> endRun ''completed'' ''completed'' None (lr_content response) structured k)
      else if truthy (lr_reasoningContent response) then endRun ''completed'' ''completed'' None (Some []) None k
      else (KContinue, k))"

section \<open>The loop\<close>

text \<open>The messages of the next request: calls and results that were compacted away are left out.\<close>

definition assistantMessages :: "'k kernel_env \<Rightarrow> string list \<Rightarrow> string list \<Rightarrow> LLMResponse \<Rightarrow> KernelMessage list" where
  "assistantMessages env compacted active r = (let calls = map_option (filter (\<lambda>c. lc_id c \<notin> set compacted)) (lr_toolCalls r);
     withResult = list_ex (\<lambda>c. lc_id c \<in> set active) (nullish calls []);
     withoutResult = list_ex (\<lambda>c. lc_id c \<notin> set active) (nullish calls []) in
     if withResult \<or> (ke_toolLoopV2 env \<and> withoutResult)
     then [AssistantMessage (nullish (lr_content r) []) calls (if truthy (lr_reasoningContent r) then lr_reasoningContent r else None)]
     else if truthy (lr_content r) then [AssistantMessage (the (lr_content r)) None None] else [])"

definition buildTranscriptMessages :: "'k kernel_env \<Rightarrow> 'k kernel \<Rightarrow> KernelMessage list" where
  "buildTranscriptMessages env k = (let compacted = k_compactedToolCallIds k;
       active = filter (\<lambda>i. i \<notin> set compacted) (resultIds (k_transcript k)) in
     concat (map (\<lambda>e. case kt_content e of
         LlmResponseEntry r \<Rightarrow> assistantMessages env compacted active r
       | ToolResultEntry r \<Rightarrow> if ur_toolCallId r \<in> set compacted then []
           else [ToolMessage (case ur_error r of Some (code, message, recoverable) \<Rightarrow> Some (''Error: '' @ message) | None \<Rightarrow> map_option stringify (ur_result r)) (ur_toolCallId r)]
       | _ \<Rightarrow> []) (k_transcript k)))"

definition requestBundle :: "'k kernel_env \<Rightarrow> 'k kernel \<Rightarrow> ContextBundleData" where
  "requestBundle env k = (let bundle = projectBundleToData (ke_bundle env) in
     if length (k_compactedItemIds k) > 0 then (case k_lastCompactSummaryItem k of Some summaryItem \<Rightarrow> applyCompactToBundle bundle (k_compactedItemIds k) summaryItem | None \<Rightarrow> bundle)
     else bundle)"

text \<open>The reasoning of a response is kept on turns that call tools only.\<close>

definition recordedResponse :: "LLMResponse \<Rightarrow> LLMResponse" where
  "recordedResponse r = r\<lparr>lr_reasoningContent := (if hasToolCalls r \<and> truthy (lr_reasoningContent r) then lr_reasoningContent r else None)\<rparr>"

definition kernelIteration :: "'k kernel_env \<Rightarrow> nat \<Rightarrow> 'k kernel \<Rightarrow> kflow \<times> 'k kernel" where
  "kernelIteration env iteration k0 =
     (if ke_aborted env (k_world k0) then cancelRun env k0
      else let k = k0\<lparr>k_iteration := iteration + 1\<rparr> in
        if ke_timedOut env (k_world k) then endRun ''failed'' ''timeout'' None None None (flushPairingGuard env ''timeout'' k)
        else case ke_buildRequest env (requestBundle env k) (buildTranscriptMessages env k) (k_world k) of
          (Some e, w) \<Rightarrow> (KThrow e, k\<lparr>k_world := w\<rparr>)
        | (None, w) \<Rightarrow> (let k1 = commitTranscript LlmRequestEntry (k\<lparr>k_world := w\<rparr>) in
            if ke_aborted env (k_world k1) then cancelRun env k1
            else case askModel env (ke_remaining env w) k1 of
              (LlmFlow flow, k2) \<Rightarrow> (flow, k2)
            | (LlmError code message, k2) \<Rightarrow> endRun ''failed'' ''failed'' (Some (code, message)) None None
                (commitTranscript (ErrorEntry (Some code) message) (flushPairingGuard env ''llm_error'' k2))
            | (LlmOk response, k2) \<Rightarrow> (let k3 = commitTranscript (LlmResponseEntry (recordedResponse response)) k2 in
                if ke_aborted env (k_world k3) then cancelRun env k3
                else if hasToolCalls response then runTools env response k3
                else finalAnswer env response k3)))"

fun kernelLoop :: "'k kernel_env \<Rightarrow> nat \<Rightarrow> nat \<Rightarrow> 'k kernel \<Rightarrow> kflow \<times> 'k kernel" where
  "kernelLoop env iteration 0 k = endRun ''failed'' ''max_iterations_reached'' None None None (flushPairingGuard env ''max_iterations'' k)"
| "kernelLoop env iteration (Suc remaining) k = (case kernelIteration env iteration k of
     (KContinue, k') \<Rightarrow> kernelLoop env (Suc iteration) remaining k'
   | (flow, k') \<Rightarrow> (flow, k'))"

definition initializeState :: "'k kernel_env \<Rightarrow> 'k \<Rightarrow> 'k kernel" where
  "initializeState env w = \<lparr>k_iteration = 0, k_status = ''running'', k_toolCalls = [], k_transcript = [],
     k_contextItems = cb_orderedItems (ke_bundle env) @ cb_pinnedItems (ke_bundle env), k_compactedItemIds = [], k_compactedToolCallIds = [],
     k_lastCompactSummaryItem = None, k_guard = newGuard, k_dispatched = [], k_asked = [], k_world = w\<rparr>"

text \<open>The pattern of the message (\<open>^STREAMING_ERROR: (.+)$\<close>) takes the rest of one line.\<close>

definition streamingError :: "string \<Rightarrow> string option" where
  "streamingError e = (let rest = drop (length ''STREAMING_ERROR: '') e in
     if startsWith e ''STREAMING_ERROR: '' \<and> rest \<noteq> [] \<and> list_all (\<lambda>c. c \<noteq> CHR 0x0A \<and> c \<noteq> CHR 0x0D) rest then Some rest else None)"

definition catchError :: "'k kernel_env \<Rightarrow> string \<Rightarrow> 'k kernel \<Rightarrow> kflow \<times> 'k kernel" where
  "catchError env e k =
     (if startsWith e ''ABORTED:'' then cancelRun env k
      else endRun ''failed'' ''failed''
        (Some (case streamingError e of Some rest \<Rightarrow> (''STREAMING_ERROR'', rest) | None \<Rightarrow> (''KERNEL_ERROR'', e))) None None
        (commitTranscript (ErrorEntry None e) (flushPairingGuard env ''kernel_error'' k)))"

definition kernelRun :: "'k kernel_env \<Rightarrow> nat \<Rightarrow> int \<Rightarrow> 'k \<Rightarrow> kflow \<times> 'k kernel" where
  "kernelRun env maxIterations timeoutMs w =
     (if timeoutMs \<le> 0 then endRun ''failed'' ''timeout'' None None None (initializeState env w)
      else case kernelLoop env 0 maxIterations (initializeState env w) of
        (KThrow e, k) \<Rightarrow> catchError env e k
      | (flow, k) \<Rightarrow> (flow, k))"

section \<open>What the operations leave alone\<close>

lemma toolCalls_kept [simp]:
  "k_toolCalls (commitTranscript c k) = k_toolCalls k" "k_toolCalls (mergeToolResult env rq r k) = k_toolCalls k"
  "k_toolCalls (recordResult env rq r k) = k_toolCalls k"
  by (simp_all add: commitTranscript_def mergeToolResult_def recordResult_def split: prod.split)

lemma merge_fields [simp]:
  "k_transcript (mergeToolResult env rq r k) = k_transcript k" "k_guard (mergeToolResult env rq r k) = k_guard k"
  "k_dispatched (mergeToolResult env rq r k) = k_dispatched k" "k_iteration (mergeToolResult env rq r k) = k_iteration k"
  "set (k_contextItems k) \<subseteq> set (k_contextItems (mergeToolResult env rq r k))"
  "k_compactedToolCallIds (mergeToolResult env rq r k) = k_compactedToolCallIds k" "k_asked (mergeToolResult env rq r k) = k_asked k"
  by (auto simp: mergeToolResult_def split: prod.split)

lemma commit_fields [simp]:
  "k_transcript (commitTranscript c k) = k_transcript k @ [\<lparr>kt_iteration = k_iteration k, kt_content = c\<rparr>]"
  "k_guard (commitTranscript c k) = k_guard k" "k_dispatched (commitTranscript c k) = k_dispatched k"
  "k_iteration (commitTranscript c k) = k_iteration k" "k_contextItems (commitTranscript c k) = k_contextItems k"
  "k_world (commitTranscript c k) = k_world k" "k_compactedToolCallIds (commitTranscript c k) = k_compactedToolCallIds k"
  "k_asked (commitTranscript c k) = k_asked k"
  by (simp_all add: commitTranscript_def)

abbreviation flushed :: "'k kernel_env \<Rightarrow> ToolUseResult list \<Rightarrow> 'k kernel \<Rightarrow> 'k kernel" where
  "flushed env rs k \<equiv> fold (\<lambda>r k. mergeToolResult env (syntheticRequest k (ur_toolCallId r)) r (commitTranscript (ToolResultEntry r) k)) rs k"

lemma flushed_fields:
  "k_transcript (flushed env rs k) = k_transcript k @ map (\<lambda>r. \<lparr>kt_iteration = k_iteration k, kt_content = ToolResultEntry r\<rparr>) rs \<and>
   k_guard (flushed env rs k) = k_guard k \<and> k_dispatched (flushed env rs k) = k_dispatched k \<and>
   k_toolCalls (flushed env rs k) = k_toolCalls k \<and> set (k_contextItems k) \<subseteq> set (k_contextItems (flushed env rs k)) \<and>
   k_compactedToolCallIds (flushed env rs k) = k_compactedToolCallIds k \<and> k_asked (flushed env rs k) = k_asked k"
proof (induction rs arbitrary: k)
  case (Cons r rs)
  let ?k = "mergeToolResult env (syntheticRequest k (ur_toolCallId r)) r (commitTranscript (ToolResultEntry r) k)"
  have "set (k_contextItems k) \<subseteq> set (k_contextItems ?k)" using merge_fields(5) [of "commitTranscript (ToolResultEntry r) k"] by simp
  then show ?case using Cons.IH [of ?k] by auto
qed simp

lemma flush_fields [simp]:
  "k_transcript (flushPairingGuard env reason k) =
     k_transcript k @ map (\<lambda>r. \<lparr>kt_iteration = k_iteration k, kt_content = ToolResultEntry r\<rparr>) (map (missingResult reason) (pg_pendingCalls (k_guard k)))"
  "k_guard (flushPairingGuard env reason k) = (k_guard k)\<lparr>pg_pendingCalls := []\<rparr>"
  "k_dispatched (flushPairingGuard env reason k) = k_dispatched k"
  "k_toolCalls (flushPairingGuard env reason k) = k_toolCalls k"
  "set (k_contextItems k) \<subseteq> set (k_contextItems (flushPairingGuard env reason k))"
  "k_compactedToolCallIds (flushPairingGuard env reason k) = k_compactedToolCallIds k"
  "k_asked (flushPairingGuard env reason k) = k_asked k"
  using flushed_fields [of env "map (missingResult reason) (pg_pendingCalls (k_guard k))" "k\<lparr>k_guard := (k_guard k)\<lparr>pg_pendingCalls := []\<rparr>\<rparr>"]
  by (auto simp: flushPairingGuard_def hasPendingCalls_def flushMissingResults_def simp del: map_map)

lemma records_fields [simp]:
  "k_toolCalls (fold (\<lambda>rq. recordResult env rq (f rq)) rqs k) = k_toolCalls k"
  by (induction rqs arbitrary: k) simp_all

lemma compaction_fields [simp]:
  "k_transcript (applyCompaction ids i k) = k_transcript k" "k_guard (applyCompaction ids i k) = k_guard k"
  "k_dispatched (applyCompaction ids i k) = k_dispatched k" "k_toolCalls (applyCompaction ids i k) = k_toolCalls k"
  "k_asked (applyCompaction ids i k) = k_asked k"
  by (simp_all add: applyCompaction_def)

lemma executeCompact_fields:
  "executeCompact env ex cs ms k = (r, k') \<Longrightarrow> k_transcript k' = k_transcript k \<and> k_guard k' = k_guard k \<and> k_toolCalls k' = k_toolCalls k \<and>
     k_dispatched k' = k_dispatched k"
  by (auto simp: executeCompact_def Let_def split: prod.splits sum.splits CompactExecutorResult.splits if_splits option.splits)

lemma compactStage_fields [simp]:
  "k_guard (compactStage env k) = k_guard k" "k_toolCalls (compactStage env k) = k_toolCalls k"
  "k_dispatched (compactStage env k) = k_dispatched k"
  by (auto simp: compactStage_def split: option.splits prod.splits dest: executeCompact_fields)

lemma dispatch_toolCalls: "dispatchExternalBatch env batch k = (r, k') \<Longrightarrow> k_toolCalls k' = k_toolCalls k"
  by (auto simp: dispatchExternalBatch_def Let_def split: if_splits prod.splits sum.splits option.splits)

lemma runInternal_toolCalls: "runInternal env h rq k = (flow, k') \<Longrightarrow> k_toolCalls k' = k_toolCalls k"
  by (auto simp: runInternal_def Let_def endRun_def cancelRun_def split: prod.splits sum.splits bool.splits if_splits)

lemma callTools_toolCalls: "callTools env ia batch rqs k = (flow, batch', k') \<Longrightarrow> k_toolCalls k' = k_toolCalls k"
proof (induction rqs arbitrary: batch k)
  case (Cons rq rqs)
  then show ?case
    by (auto simp: Let_def split: option.splits prod.splits sum.splits kflow.splits if_splits dest!: dispatch_toolCalls runInternal_toolCalls)
qed simp

lemma refuseTruncated_toolCalls [simp]: "k_toolCalls (refuseTruncated env rqs k) = k_toolCalls k"
proof -
  have "k_toolCalls (fold (\<lambda>rq k. recordResult env rq (truncatedResult rq) (commitTranscript (ToolCallEntry rq) k)) rqs k) = k_toolCalls k"
    by (induction rqs arbitrary: k) simp_all
  then show ?thesis by (simp add: refuseTruncated_def)
qed

lemma runTools_toolCalls:
  "runTools env response k = (flow, k') \<Longrightarrow> k_toolCalls k' = k_toolCalls k @ fst (parseToolUseRequests env response)"
  by (auto simp: runTools_def Let_def endRun_def split: prod.splits if_splits kflow.splits sum.splits
      dest!: callTools_toolCalls dispatch_toolCalls)

section \<open>What every run keeping\<close>

text \<open>
  A relation the changes of the state respect is respected by every part of the loop. The calls tracked are kept as a
  parameter of the laws: an entry for a call is written only for a tracked one, and a batch holds callable tools only.
\<close>

definition dispatchable :: "'k kernel_env \<Rightarrow> ToolUseRequest \<Rightarrow> bool" where
  "dispatchable env rq = (isCallableProjectedTool env (tu_toolName rq) \<and> ke_internal env (tu_toolName rq) = None)"

locale kernel_frame =
  fixes env :: "'k kernel_env"
    and good :: "'k kernel \<Rightarrow> bool"
  assumes good_world: "good k \<Longrightarrow> good (k\<lparr>k_world := w\<rparr>)"
    and good_status: "good k \<Longrightarrow> good (k\<lparr>k_status := st\<rparr>)"
    and good_entry: "good k \<Longrightarrow> c \<noteq> LlmRequestEntry \<Longrightarrow> (\<And>r. c \<noteq> LlmResponseEntry r) \<Longrightarrow> (\<And>rq. c = ToolCallEntry rq \<Longrightarrow> rq \<in> set (k_toolCalls k)) \<Longrightarrow>
      (\<And>r. c \<noteq> ToolResultEntry r) \<Longrightarrow> good (commitTranscript c k)"
    and good_record: "good k \<Longrightarrow> good (recordResult env rq r k)"
    and good_flush: "good k \<Longrightarrow> good (flushPairingGuard env reason k)"
    and good_track: "good k \<Longrightarrow> good (k\<lparr>k_toolCalls := k_toolCalls k @ rqs, k_guard := trackAssistantToolCalls rqs (k_guard k)\<rparr>)"
    and good_batch: "good k \<Longrightarrow> list_all (dispatchable env) batch \<Longrightarrow>
      good (k\<lparr>k_dispatched := k_dispatched k @ [batch]\<rparr>)"
    and good_compaction: "good k \<Longrightarrow> cb_compactHints (ke_bundle env) = Some hints \<Longrightarrow>
      list_all (\<lambda>i. ci_itemId i \<notin> set ids) (filter (\<lambda>i. protectedItem i \<or> ci_itemId i \<in> set (nullish (ch_mustKeepItemIds hints) [])) (k_contextItems k)) \<Longrightarrow>
      good (applyCompaction ids summaryItem k)"
begin

lemma good_endRun: "good k \<Longrightarrow> endRun st fs e r sr k = (flow, k') \<Longrightarrow> good k'"
  by (auto simp: endRun_def good_status)

lemma good_cancelRun: "good k \<Longrightarrow> cancelRun env k = (flow, k') \<Longrightarrow> good k'"
  unfolding cancelRun_def using good_endRun good_flush by blast

lemma good_records: "good k \<Longrightarrow> good (fold (\<lambda>rq. recordResult env rq (f rq)) rqs k)"
  by (induction rqs arbitrary: k) (simp_all add: good_record)

lemma good_dispatch:
  assumes "good k" "dispatchExternalBatch env batch k = (r, k')"
    "list_all (dispatchable env) batch"
  shows "good k'"
  using assms good_batch [OF assms(1,3)]
  by (auto simp: dispatchExternalBatch_def Let_def good_world good_records split: if_splits prod.splits sum.splits option.splits)

lemma good_runInternal:
  assumes "good k" "runInternal env h rq k = (flow, k')"
  shows "good k'"
proof (cases "h rq (k_world k)")
  case (Pair outcome w)
  note r = good_record [OF good_world [OF assms(1), of w]]
  show ?thesis using assms(2) Pair
    by (auto simp: runInternal_def Let_def r split: sum.splits bool.splits if_splits
        dest: good_cancelRun [OF r] good_endRun [OF good_flush [OF r]])
qed

lemma good_callTools:
  assumes "callTools env invalidArgs batch rqs k = (flow, batch', k')" "good k" "set rqs \<subseteq> set (k_toolCalls k)"
    "list_all (dispatchable env) batch"
  shows "good k' \<and> list_all (dispatchable env) batch'"
  using assms
proof (induction rqs arbitrary: batch k)
  case (Cons rq rqs)
  let ?k = "commitTranscript (ToolCallEntry rq) k"
  have g: "good ?k" using Cons.prems by (intro good_entry) auto
  have sub: "set rqs \<subseteq> set (k_toolCalls ?k)" using Cons.prems by simp
  show ?case
  proof (cases "mapGet invalidArgs (tu_toolCallId rq)")
    case (Some e)
    show ?thesis using Cons.prems Some sub by (auto simp: Let_def good_record [OF g] dest!: Cons.IH)
  next
    case valid: None
    show ?thesis
    proof (cases "ke_internal env (tu_toolName rq)")
      case None
      then show ?thesis using Cons.prems valid sub g
        by (cases "isCallableProjectedTool env (tu_toolName rq)")
          (auto simp: Let_def good_record [OF g] dispatchable_def dest!: Cons.IH)
    next
      case (Some h)
      obtain r k1 where d: "dispatchExternalBatch env batch ?k = (r, k1)" by (cases "dispatchExternalBatch env batch ?k")
      obtain fl k2 where i: "runInternal env h rq k1 = (fl, k2)" by (cases "runInternal env h rq k1")
      have k1: "good k1" using good_dispatch [OF g d] Cons.prems by simp
      have k2: "good k2" by (rule good_runInternal [OF k1 i])
      have sub2: "set rqs \<subseteq> set (k_toolCalls k2)" using sub dispatch_toolCalls [OF d] runInternal_toolCalls [OF i] by simp
      show ?thesis using Cons.prems(1) valid Some d i k1 k2 Cons.IH [OF _ k2 sub2, of "[]"]
        by (auto simp: Let_def split: sum.splits kflow.splits)
    qed
  qed
qed simp

lemma good_executeCompact:
  assumes "executeCompact env ex cs (nullish (ch_mustKeepItemIds hints) []) k = (r, k')" "good k" "cb_compactHints (ke_bundle env) = Some hints"
  shows "good k'"
proof -
  have c: "good (applyCompaction ids i (k\<lparr>k_world := w\<rparr>))"
    if "\<not> list_ex (\<lambda>i. i \<in> set (nullish (ch_mustKeepItemIds hints) []) \<or> list_ex (\<lambda>item. protectedItem item \<and> ci_itemId item = i) (k_contextItems k)) ids"
    for ids i w
    using that by (intro good_compaction [OF good_world [OF assms(2)] assms(3)]) (auto simp: list_ex_iff list_all_iff)
  show ?thesis using assms(1)
    by (auto simp: executeCompact_def Let_def good_world [OF assms(2)] good_world [OF c]
        split: prod.splits sum.splits CompactExecutorResult.splits if_splits option.splits)
qed

lemma good_compactStage:
  assumes "good k"
  shows "good (compactStage env k)"
proof (cases "checkCompactTrigger env k")
  case None
  then show ?thesis using assms by (simp add: compactStage_def)
next
  case (Some hints)
  then have h: "cb_compactHints (ke_bundle env) = Some hints" by (auto simp: checkCompactTrigger_def Let_def split: if_splits option.splits)
  show ?thesis using Some assms good_executeCompact [OF _ assms h]
    by (auto simp: compactStage_def intro!: good_entry split: option.splits prod.splits)
qed

lemma good_refuseTruncated:
  assumes "good k" "set rqs \<subseteq> set (k_toolCalls k)"
  shows "good (refuseTruncated env rqs k)"
proof -
  have "good (fold (\<lambda>rq k. recordResult env rq (truncatedResult rq) (commitTranscript (ToolCallEntry rq) k)) rqs k)" using assms
  proof (induction rqs arbitrary: k)
    case (Cons rq rqs)
    have "good (commitTranscript (ToolCallEntry rq) k)" using Cons.prems by (intro good_entry) auto
    then show ?case using Cons.prems by (auto intro!: Cons.IH good_record)
  qed simp
  then show ?thesis unfolding refuseTruncated_def by (rule good_flush)
qed

lemma good_runTools:
  assumes "good k" "runTools env response k = (flow, k')"
  shows "good k'"
proof -
  obtain rqs inv where p: "parseToolUseRequests env response = (rqs, inv)" by (cases "parseToolUseRequests env response")
  let ?k = "k\<lparr>k_toolCalls := k_toolCalls k @ rqs, k_guard := trackAssistantToolCalls rqs (k_guard k)\<rparr>"
  have t: "good ?k" using good_track [OF assms(1)] .
  obtain fl batch k1 where c: "callTools env inv [] rqs ?k = (fl, batch, k1)" by (cases "callTools env inv [] rqs ?k") auto
  have k1: "good k1 \<and> list_all (dispatchable env) batch" using good_callTools [OF c t] by simp
  obtain r k2 where d: "dispatchExternalBatch env batch k1 = (r, k2)" by (cases "dispatchExternalBatch env batch k1")
  have k2: "good k2" using good_dispatch [OF _ d] k1 by blast
  have f: "good (flushPairingGuard env ''iteration_end'' k2)" by (rule good_flush [OF k2])
  show ?thesis
  proof (cases "lr_finishReason response = ''length''")
    case True
    then show ?thesis using assms(2) p good_refuseTruncated [OF t, of rqs] by (auto simp: runTools_def Let_def)
  next
    case False
    then show ?thesis using assms(2) p c d k1 k2 good_endRun [OF f] good_compactStage [OF f]
      by (auto simp: runTools_def Let_def split: kflow.splits sum.splits if_splits)
  qed
qed

lemma good_finalAnswer: "good k \<Longrightarrow> finalAnswer env response k = (flow, k') \<Longrightarrow> good k'"
  by (auto simp: finalAnswer_def endRun_def good_status split: if_splits sum.splits prod.splits intro!: good_status good_entry)

lemma good_catchError: "good k \<Longrightarrow> catchError env e k = (flow, k') \<Longrightarrow> good k'"
  by (auto simp: catchError_def Let_def endRun_def split: if_splits dest: good_cancelRun intro!: good_status good_entry good_flush)

end

text \<open>What a call of the model keeps as well: its entry in the log of calls may be anything.\<close>

locale kernel_ask = kernel_frame +
  assumes good_asked: "good k \<Longrightarrow> good (k\<lparr>k_asked := as\<rparr>)"
begin

lemma good_call: "good k \<Longrightarrow> good (k\<lparr>k_asked := as, k_world := w\<rparr>)"
  using good_world [OF good_asked] by simp

lemma good_completeEnd: "good k \<Longrightarrow> completeEnd env t fb k = (r, k') \<Longrightarrow> good k'"
  by (auto simp: completeEnd_def callLLMWithTimeout_def endRun_def good_call split: prod.splits sum.splits if_splits
      intro!: good_status good_call)

lemma good_streaming: "good k \<Longrightarrow> callLLMWithStreaming env t k = (r, k') \<Longrightarrow> good k'"
  by (auto simp: callLLMWithStreaming_def good_call split: prod.splits if_splits)

lemma good_askModel:
  assumes "good k" "askModel env t k = (r, k')"
  shows "good k'"
proof -
  obtain o1 k1 where c: "callLLMWithStreaming env t k = (o1, k1)" by (cases "callLLMWithStreaming env t k")
  have k1: "good k1" by (rule good_streaming [OF assms(1) c])
  show ?thesis using assms(2) c k1 good_completeEnd [OF assms(1)] good_completeEnd [OF k1] good_status [OF good_flush [OF k1]]
    by (auto simp: askModel_def endRun_def split: if_splits sum.splits option.splits)
qed

end

locale kernel_loop = kernel_ask +
  assumes good_iteration: "good k \<Longrightarrow> good (k\<lparr>k_iteration := i\<rparr>)"
    and good_request: "good k \<Longrightarrow> good (commitTranscript LlmRequestEntry k)"
    and good_response: "good k \<Longrightarrow> good (commitTranscript (LlmResponseEntry r) k)"
begin

lemma good_kernelIteration:
  assumes g: "good k" and i: "kernelIteration env n k = (flow, k')"
  shows "good k'"
proof -
  let ?k = "k\<lparr>k_iteration := n + 1\<rparr>"
  obtain o1 w where b: "ke_buildRequest env (requestBundle env ?k) (buildTranscriptMessages env ?k) (k_world ?k) = (o1, w)"
    by (cases "ke_buildRequest env (requestBundle env ?k) (buildTranscriptMessages env ?k) (k_world ?k)")
  let ?k1 = "commitTranscript LlmRequestEntry (?k\<lparr>k_world := w\<rparr>)"
  obtain a k2 where m: "askModel env (ke_remaining env w) ?k1 = (a, k2)" by (cases "askModel env (ke_remaining env w) ?k1")
  have gk: "good ?k" by (rule good_iteration [OF g])
  have k1: "good ?k1" by (rule good_request [OF good_world [OF gk]])
  have k1': "good (commitTranscript LlmRequestEntry (k\<lparr>k_iteration := Suc n, k_world := w\<rparr>))" using k1 by simp
  have k2: "good k2" by (rule good_askModel [OF k1 m])
  have tm: "good (flushPairingGuard env r (k\<lparr>k_iteration := Suc n\<rparr>))" for r using good_flush [OF gk] by simp
  have err: "good (commitTranscript (ErrorEntry c e) (flushPairingGuard env r k2))" for c e r
    by (rule good_entry [OF good_flush [OF k2]]) simp_all
  have resp: "good (commitTranscript (LlmResponseEntry (recordedResponse r)) k2)" for r by (rule good_response [OF k2])
  show ?thesis using i b m gk k2 good_world [OF gk, of w]
    by (auto simp: kernelIteration_def Let_def split: if_splits option.splits llmEnd.splits
        dest: good_cancelRun [OF g] good_cancelRun [OF k1'] good_cancelRun [OF resp] good_endRun [OF tm]
          good_endRun [OF err] good_runTools [OF resp] good_finalAnswer [OF resp])
qed

lemma good_kernelLoop: "good k \<Longrightarrow> kernelLoop env i n k = (flow, k') \<Longrightarrow> good k'"
proof (induction n arbitrary: i k)
  case 0
  then show ?case using good_endRun [OF good_flush] by auto
next
  case (Suc n)
  obtain fl k1 where it: "kernelIteration env i k = (fl, k1)" by (cases "kernelIteration env i k")
  have "good k1" by (rule good_kernelIteration [OF Suc.prems(1) it])
  then show ?case using Suc.prems(2) it Suc.IH by (auto split: kflow.splits)
qed

lemma good_kernelRun: "good (initializeState env w) \<Longrightarrow> kernelRun env n t w = (flow, k') \<Longrightarrow> good k'"
  by (auto simp: kernelRun_def split: if_splits prod.splits kflow.splits
      dest: good_endRun good_kernelLoop good_catchError [OF good_kernelLoop])

end

section \<open>The instances on the model\<close>

definition callsIn :: "KernelTranscriptEntry list \<Rightarrow> ToolUseRequest list" where
  "callsIn t = concat (map (\<lambda>e. case kt_content e of ToolCallEntry rq \<Rightarrow> [rq] | _ \<Rightarrow> []) t)"

definition resultsIn :: "KernelTranscriptEntry list \<Rightarrow> ToolUseResult list" where
  "resultsIn t = concat (map (\<lambda>e. case kt_content e of ToolResultEntry r \<Rightarrow> [r] | _ \<Rightarrow> []) t)"

text \<open>Every tracked call has a result in the transcript or is pending, and the entries of calls are of tracked ones.\<close>

definition answered :: "'k kernel \<Rightarrow> bool" where
  "answered k = (tu_toolCallId ` set (k_toolCalls k) \<subseteq>
      ur_toolCallId ` set (resultsIn (k_transcript k)) \<union> set (mapKeys (pg_pendingCalls (k_guard k))) \<and>
    set (callsIn (k_transcript k)) \<subseteq> set (k_toolCalls k))"

text \<open>The calls of the responses in the transcript.\<close>

definition responseCalls :: "KernelTranscriptEntry list \<Rightarrow> LLMToolCall list" where
  "responseCalls t = concat (map (\<lambda>e. case kt_content e of LlmResponseEntry r \<Rightarrow> nullish (lr_toolCalls r) [] | _ \<Rightarrow> []) t)"

definition responsesTracked :: "string set \<Rightarrow> 'k kernel \<Rightarrow> bool" where
  "responsesTracked S k = (lc_id ` set (responseCalls (k_transcript k)) \<subseteq> S \<union> tu_toolCallId ` set (k_toolCalls k))"

text \<open>The items of the bundle a compaction may not take.\<close>

definition startProtected :: "'k kernel_env \<Rightarrow> ContextItem list" where
  "startProtected env = filter (\<lambda>i. protectedItem i \<or>
      ci_itemId i \<in> set (nullish (Option.bind (cb_compactHints (ke_bundle env)) ch_mustKeepItemIds) []))
    (cb_orderedItems (ke_bundle env) @ cb_pinnedItems (ke_bundle env))"

definition keepsProtected :: "'k kernel_env \<Rightarrow> 'k kernel \<Rightarrow> bool" where
  "keepsProtected env k = (set (startProtected env) \<subseteq> set (k_contextItems k))"

definition dispatchedAllowed :: "'k kernel_env \<Rightarrow> 'k kernel \<Rightarrow> bool" where
  "dispatchedAllowed env k = list_all (list_all (dispatchable env)) (k_dispatched k)"

lemma callsIn_simps [simp]:
  "callsIn [] = []" "callsIn (xs @ ys) = callsIn xs @ callsIn ys"
  "callsIn [\<lparr>kt_iteration = i, kt_content = c\<rparr>] = (case c of ToolCallEntry rq \<Rightarrow> [rq] | _ \<Rightarrow> [])"
  by (auto simp: callsIn_def)

lemma resultsIn_simps [simp]:
  "resultsIn [] = []" "resultsIn (xs @ ys) = resultsIn xs @ resultsIn ys"
  "resultsIn [\<lparr>kt_iteration = i, kt_content = c\<rparr>] = (case c of ToolResultEntry r \<Rightarrow> [r] | _ \<Rightarrow> [])"
  by (auto simp: resultsIn_def)

lemma flushed_entries [simp]:
  "callsIn (map (\<lambda>r. \<lparr>kt_iteration = i, kt_content = ToolResultEntry r\<rparr>) rs) = []"
  "resultsIn (map (\<lambda>r. \<lparr>kt_iteration = i, kt_content = ToolResultEntry r\<rparr>) rs) = rs"
  by (induction rs) (simp_all add: callsIn_def resultsIn_def)

lemma missingResult_id [simp]: "ur_toolCallId (missingResult reason p) = fst p"
  by (simp add: missingResult_def)

lemma keys_mapSet: "fst ` set (mapSet i v m) = insert i (fst ` set m)"
  using mapKeys_mapSet [of i v m] by simp

lemma keys_fold_track: "fst ` set (fold (\<lambda>rq m. mapSet (tu_toolCallId rq) rq m) rqs m) =
    tu_toolCallId ` set rqs \<union> fst ` set m"
  by (induction rqs arbitrary: m) (simp_all add: keys_mapSet)

lemma answered_track:
  assumes "answered k"
  shows "answered (k\<lparr>k_toolCalls := k_toolCalls k @ rqs, k_guard := trackAssistantToolCalls rqs (k_guard k)\<rparr>)"
  using assms by (auto simp: answered_def trackAssistantToolCalls_def keys_fold_track)

lemma responseCalls_simps [simp]:
  "responseCalls [] = []" "responseCalls (xs @ ys) = responseCalls xs @ responseCalls ys"
  "responseCalls [\<lparr>kt_iteration = i, kt_content = c\<rparr>] = (case c of LlmResponseEntry r \<Rightarrow> nullish (lr_toolCalls r) [] | _ \<Rightarrow> [])"
  "responseCalls (map (\<lambda>r. \<lparr>kt_iteration = i, kt_content = ToolResultEntry r\<rparr>) rs) = []"
  by (auto simp: responseCalls_def)

lemma record_transcript [simp]:
  "k_transcript (recordResult env rq r k) = k_transcript k @ [\<lparr>kt_iteration = k_iteration k, kt_content = ToolResultEntry r\<rparr>]"
  "k_guard (recordResult env rq r k) = acceptToolResult r (k_guard k)" "k_dispatched (recordResult env rq r k) = k_dispatched k"
  "k_compactedToolCallIds (recordResult env rq r k) = k_compactedToolCallIds k" "k_asked (recordResult env rq r k) = k_asked k"
  by (simp_all add: recordResult_def)

lemma record_items: "set (k_contextItems k) \<subseteq> set (k_contextItems (recordResult env rq r k))"
  unfolding recordResult_def using merge_fields(5) [of "commitTranscript (ToolResultEntry r) (k\<lparr>k_guard := acceptToolResult r (k_guard k)\<rparr>)"] by simp

lemma answered_record: "answered k \<Longrightarrow> answered (recordResult env rq r k)"
  by (auto simp: answered_def acceptToolResult_def mapDelete_filter image_iff)

lemma answered_flush: "answered k \<Longrightarrow> answered (flushPairingGuard env reason k)"
  by (auto simp: answered_def image_Un image_image simp del: map_map)

interpretation answers: kernel_loop env answered for env :: "'k kernel_env"
  by unfold_locales
    (auto simp: answered_track answered_record answered_flush,
     auto simp: answered_def split: entryContent.splits)

interpretation guarded: kernel_loop env "dispatchedAllowed env" for env :: "'k kernel_env"
  by unfold_locales (auto simp: dispatchedAllowed_def)


interpretation responses: kernel_ask env "responsesTracked S" for env :: "'k kernel_env" and S
  by unfold_locales (auto simp: responsesTracked_def simp del: map_map split: entryContent.splits)

lemma keeps_compaction:
  assumes "keepsProtected env k" "cb_compactHints (ke_bundle env) = Some hints"
    "list_all (\<lambda>i. ci_itemId i \<notin> set ids) (filter (\<lambda>i. protectedItem i \<or> ci_itemId i \<in> set (nullish (ch_mustKeepItemIds hints) [])) (k_contextItems k))"
  shows "keepsProtected env (applyCompaction ids summaryItem k)"
  using assms by (auto simp: keepsProtected_def startProtected_def applyCompaction_def list_all_iff)

interpretation keeping: kernel_loop env "keepsProtected env" for env :: "'k kernel_env"
proof unfold_locales
  show "keepsProtected env (applyCompaction ids summaryItem k)"
    if "keepsProtected env k" "cb_compactHints (ke_bundle env) = Some hints"
      "list_all (\<lambda>i. ci_itemId i \<notin> set ids) (filter (\<lambda>i. protectedItem i \<or> ci_itemId i \<in> set (nullish (ch_mustKeepItemIds hints) [])) (k_contextItems k))"
    for k :: "'k kernel" and hints ids summaryItem by (rule keeps_compaction [OF that])
qed (auto simp: keepsProtected_def intro: subsetD [OF record_items] subsetD [OF flush_fields(5)])

section \<open>Nothing is pending where a run ends\<close>

abbreviation guardSettled :: "'k kernel \<Rightarrow> bool" where
  "guardSettled k \<equiv> pg_pendingCalls (k_guard k) = []"

abbreviation throws :: "kflow \<Rightarrow> bool" where
  "throws flow \<equiv> (case flow of KThrow e \<Rightarrow> True | _ \<Rightarrow> False)"

lemma settled_flush [simp]: "guardSettled (flushPairingGuard env reason k)"
  by simp

lemma cancel_settled: "cancelRun env k = (flow, k') \<Longrightarrow> guardSettled k' \<and> (\<exists>r. flow = KDone r)"
  by (auto simp: cancelRun_def endRun_def)

lemma internal_settled: "runInternal env h rq k = (KDone r, k') \<Longrightarrow> guardSettled k'"
  by (auto simp: runInternal_def Let_def endRun_def split: prod.splits sum.splits bool.splits if_splits dest: cancel_settled)

lemma callTools_settled: "callTools env ia batch rqs k = (KDone r, batch', k') \<Longrightarrow> guardSettled k'"
proof (induction rqs arbitrary: batch k)
  case (Cons rq rqs)
  then show ?case
    by (auto simp: Let_def split: option.splits prod.splits sum.splits kflow.splits if_splits dest: internal_settled)
qed simp

lemma runTools_settled: "runTools env response k = (flow, k') \<Longrightarrow> \<not> throws flow \<Longrightarrow> guardSettled k'"
  by (auto simp: runTools_def Let_def refuseTruncated_def endRun_def
      split: prod.splits if_splits kflow.splits sum.splits dest: callTools_settled)

lemma calls_guard:
  "callLLMWithTimeout env t k = (o1, k') \<Longrightarrow> k_guard k' = k_guard k" "callLLMWithStreaming env t k = (o2, k') \<Longrightarrow> k_guard k' = k_guard k"
  by (auto simp: callLLMWithTimeout_def callLLMWithStreaming_def split: if_splits prod.splits)

lemma completeEnd_settled: "completeEnd env t fb k = (a, k') \<Longrightarrow> guardSettled k \<Longrightarrow> guardSettled k'"
  by (auto simp: completeEnd_def endRun_def split: prod.splits sum.splits if_splits dest: calls_guard)

lemma askModel_settled: "askModel env t k = (a, k') \<Longrightarrow> guardSettled k \<Longrightarrow> guardSettled k'"
  by (auto simp: askModel_def endRun_def split: prod.splits sum.splits if_splits option.splits
      dest: calls_guard dest!: completeEnd_settled)

lemma finalAnswer_settled: "finalAnswer env response k = (flow, k') \<Longrightarrow> guardSettled k \<Longrightarrow> guardSettled k'"
  by (auto simp: finalAnswer_def endRun_def split: if_splits sum.splits prod.splits)

lemma kernelIteration_settled:
  assumes "kernelIteration env i k = (flow, k')" "guardSettled k" "\<not> throws flow"
  shows "guardSettled k'"
proof -
  have m: "guardSettled k2" if "askModel env t (commitTranscript LlmRequestEntry (k\<lparr>k_iteration := Suc i, k_world := w\<rparr>)) = (a, k2)" for t w a k2
    using askModel_settled [OF that] assms(2) by simp
  have f: "guardSettled k'" if "finalAnswer env r (commitTranscript (LlmResponseEntry (recordedResponse r)) k2) = (flow, k')" "guardSettled k2" for r k2
    using finalAnswer_settled [OF that(1)] that(2) by simp
  show ?thesis using assms
    by (auto simp: kernelIteration_def Let_def endRun_def split: if_splits prod.splits option.splits llmEnd.splits
        dest: cancel_settled m runTools_settled f)
qed

lemma kernelLoop_settled:
  "kernelLoop env i n k = (flow, k') \<Longrightarrow> guardSettled k \<Longrightarrow> (\<exists>r. flow = KDone r \<and> guardSettled k') \<or> throws flow"
proof (induction n arbitrary: i k)
  case 0
  then show ?case by (auto simp: endRun_def)
next
  case (Suc n)
  obtain fl k1 where it: "kernelIteration env i k = (fl, k1)" by (cases "kernelIteration env i k")
  show ?case using Suc.prems Suc.IH [of "Suc i" k1] it kernelIteration_settled [OF it] by (cases fl) auto
qed

lemma catchError_settled: "catchError env e k = (flow, k') \<Longrightarrow> guardSettled k' \<and> (\<exists>r. flow = KDone r)"
  by (auto simp: catchError_def Let_def endRun_def split: if_splits dest: cancel_settled)

lemma kernelRun_settled:
  assumes "kernelRun env n t w = (flow, k)"
  shows "guardSettled k \<and> (\<exists>r. flow = KDone r)"
proof -
  obtain fl k1 where l: "kernelLoop env 0 n (initializeState env w) = (fl, k1)" by (cases "kernelLoop env 0 n (initializeState env w)")
  have "guardSettled (initializeState env w)" by (simp add: initializeState_def newGuard_def)
  then show ?thesis using assms l kernelLoop_settled [OF l]
    by (auto simp: kernelRun_def endRun_def split: if_splits kflow.splits dest: catchError_settled)
qed

lemma kernelRun_answered:
  assumes "kernelRun env n t w = (flow, k)"
  shows "tu_toolCallId ` set (k_toolCalls k) \<subseteq> ur_toolCallId ` set (resultsIn (k_transcript k)) \<and>
    set (callsIn (k_transcript k)) \<subseteq> set (k_toolCalls k)"
proof -
  have "answered (initializeState env w)" by (simp add: answered_def initializeState_def)
  then have "answered k" by (rule answers.good_kernelRun [OF _ assms])
  then show ?thesis using kernelRun_settled [OF assms] by (simp add: answered_def)
qed

lemma set_callIds: "set (callIds t) = tu_toolCallId ` set (callsIn t)"
  by (induction t) (auto simp: callIds_def callsIn_def List.map_filter_def split: entryContent.splits)

lemma set_resultIds: "set (resultIds t) = ur_toolCallId ` set (resultsIn t)"
  by (induction t) (auto simp: resultIds_def resultsIn_def List.map_filter_def split: entryContent.splits)

section \<open>The calls of the model\<close>









section \<open>The starts of the iterations\<close>

inductive kernelReach :: "'k kernel_env \<Rightarrow> 'k \<Rightarrow> nat \<Rightarrow> 'k kernel \<Rightarrow> bool" for env w where
  reach_start: "kernelReach env w 0 (initializeState env w)"
| reach_step: "kernelReach env w i k \<Longrightarrow> kernelIteration env i k = (KContinue, k') \<Longrightarrow> kernelReach env w (Suc i) k'"

code_pred kernelReach .

lemma askModel_ends: "askModel env t k = (LlmFlow flow, k') \<Longrightarrow> flow \<noteq> KContinue"
  by (auto simp: askModel_def completeEnd_def endRun_def split: if_splits prod.splits sum.splits option.splits)

lemma requests_of_calls: "tu_toolCallId ` set (fst (parseToolUseRequests env r)) = lc_id ` set (nullish (lr_toolCalls r) [])"
  by (auto simp: parseToolUseRequests_def Let_def image_iff)

lemma recorded_calls [simp]: "lr_toolCalls (recordedResponse r) = lr_toolCalls r"
  by (simp add: recordedResponse_def)

lemma iteration_continues:
  assumes "kernelIteration env i k = (KContinue, k')"
  obtains w r k2 where "askModel env (ke_remaining env w) (commitTranscript LlmRequestEntry (k\<lparr>k_iteration := Suc i, k_world := w\<rparr>)) = (LlmOk r, k2)"
    and "if hasToolCalls r then runTools env r (commitTranscript (LlmResponseEntry (recordedResponse r)) k2) = (KContinue, k')
      else finalAnswer env r (commitTranscript (LlmResponseEntry (recordedResponse r)) k2) = (KContinue, k')"
  using assms that
  by (auto simp: kernelIteration_def Let_def endRun_def cancelRun_def split: if_splits prod.splits option.splits llmEnd.splits
      dest: askModel_ends)

lemma iteration_responses:
  assumes "kernelIteration env i k = (KContinue, k')" "responsesTracked {} k"
  shows "responsesTracked {} k'"
proof -
  obtain w r k2 where m: "askModel env (ke_remaining env w) (commitTranscript LlmRequestEntry (k\<lparr>k_iteration := Suc i, k_world := w\<rparr>)) = (LlmOk r, k2)"
    and f: "if hasToolCalls r then runTools env r (commitTranscript (LlmResponseEntry (recordedResponse r)) k2) = (KContinue, k')
      else finalAnswer env r (commitTranscript (LlmResponseEntry (recordedResponse r)) k2) = (KContinue, k')"
    using iteration_continues [OF assms(1)] by blast
  let ?S = "lc_id ` set (nullish (lr_toolCalls r) [])" and ?k3 = "commitTranscript (LlmResponseEntry (recordedResponse r)) k2"
  have "responsesTracked {} (commitTranscript LlmRequestEntry (k\<lparr>k_iteration := Suc i, k_world := w\<rparr>))"
    using assms(2) by (simp add: responsesTracked_def)
  then have "responsesTracked {} k2" by (rule responses.good_askModel [OF _ m])
  then have k3: "responsesTracked ?S ?k3" by (auto simp: responsesTracked_def)
  show ?thesis
  proof (cases "hasToolCalls r")
    case True
    then have t: "runTools env r ?k3 = (KContinue, k')" using f by simp
    have "responsesTracked ?S k'" by (rule responses.good_runTools [OF k3 t])
    moreover have "?S \<subseteq> tu_toolCallId ` set (k_toolCalls k')"
      using runTools_toolCalls [OF t] requests_of_calls [of env r] by auto
    ultimately show ?thesis by (auto simp: responsesTracked_def)
  next
    case False
    then have t: "finalAnswer env r ?k3 = (KContinue, k')" using f by simp
    have "?S = {}" using False by (auto simp: hasToolCalls_def nullish_def split: option.splits)
    then show ?thesis using responses.good_finalAnswer [OF k3 t] by simp
  qed
qed

lemma reach_invariant:
  assumes "kernelReach env w i k"
  shows "answered k \<and> guardSettled k \<and> responsesTracked {} k"
  using assms
proof induction
  case reach_start
  then show ?case by (simp add: answered_def initializeState_def newGuard_def responsesTracked_def)
next
  case (reach_step i k k')
  then show ?case using answers.good_kernelIteration [OF _ reach_step.hyps(2)] kernelIteration_settled [OF reach_step.hyps(2)]
      iteration_responses [OF reach_step.hyps(2)] by simp
qed

lemma assistant_message:
  "AssistantMessage c (Some calls) reasoning \<in> set (assistantMessages env compacted active r) \<Longrightarrow>
   \<exists>cs. lr_toolCalls r = Some cs \<and> calls = filter (\<lambda>c. lc_id c \<notin> set compacted) cs"
  by (cases "lr_toolCalls r") (auto simp: assistantMessages_def Let_def split: if_splits)

lemma assistant_calls:
  assumes "AssistantMessage c (Some calls) reasoning \<in> set (buildTranscriptMessages env k)" "call \<in> set calls"
  shows "lc_id call \<in> lc_id ` set (responseCalls (k_transcript k)) \<and> lc_id call \<notin> set (k_compactedToolCallIds k)"
proof -
  let ?c = "k_compactedToolCallIds k"
  let ?a = "filter (\<lambda>i. i \<notin> set ?c) (resultIds (k_transcript k))"
  obtain e r where e: "e \<in> set (k_transcript k)" "kt_content e = LlmResponseEntry r"
    and m: "AssistantMessage c (Some calls) reasoning \<in> set (assistantMessages env ?c ?a r)"
  proof -
    have "\<exists>e\<in>set (k_transcript k). \<exists>r. kt_content e = LlmResponseEntry r \<and> AssistantMessage c (Some calls) reasoning \<in> set (assistantMessages env ?c ?a r)"
      using assms(1) unfolding buildTranscriptMessages_def Let_def set_concat set_map
      by (elim UN_E imageE) (simp split: entryContent.splits if_splits, blast)
    then show thesis using that by blast
  qed
  obtain cs where cs: "lr_toolCalls r = Some cs" "calls = filter (\<lambda>c. lc_id c \<notin> set ?c) cs" using assistant_message [OF m] by blast
  have "set cs \<subseteq> set (responseCalls (k_transcript k))"
    unfolding responseCalls_def using e cs(1) by (force simp: nullish_def)
  then show ?thesis using cs(2) assms(2) by auto
qed

lemma result_message:
  assumes "i \<in> ur_toolCallId ` set (resultsIn (k_transcript k))" "i \<notin> set (k_compactedToolCallIds k)"
  shows "\<exists>content. ToolMessage content i \<in> set (buildTranscriptMessages env k)"
proof -
  obtain e r where e: "e \<in> set (k_transcript k)" "kt_content e = ToolResultEntry r" "ur_toolCallId r = i"
    using assms(1) by (auto simp: resultsIn_def dest: sym split: entryContent.splits)
  show ?thesis unfolding buildTranscriptMessages_def Let_def set_concat set_map
    by (rule exI, rule UN_I [OF imageI [OF e(1)]]) (use assms(2) e in simp)
qed

section \<open>Properties\<close>

text \<open>
  C6: however a run ends (completed, failed, timed out, cancelled, out of iterations), every tool call of the
  model it tracked has a result in the transcript, the validation of the transcript reports no missing result, and the
  guard holds no pending call.
\<close>

theorem kernel_calls_answered:
  "let k = snd (kernelRun env maxIterations timeoutMs w) in
     tu_toolCallId ` set (k_toolCalls k) \<subseteq> set (resultIds (k_transcript k)) \<and>
     {i. MissingResultWarning i \<in> set (pr_warnings (validateToolResultPairing (k_transcript k)))} = {} \<and> pr_valid (validateGuard (k_guard k))"
proof -
  obtain fl k where r: "kernelRun env maxIterations timeoutMs w = (fl, k)" by (cases "kernelRun env maxIterations timeoutMs w")
  show ?thesis using kernelRun_answered [OF r] kernelRun_settled [OF r]
    by (auto simp: r validateToolResultPairing_def validateGuard_def guardResult_def getPendingCallIds_def set_callIds set_resultIds Let_def)
qed

text \<open>
  C11: every request in every batch a run hands to the dispatcher names a tool that was projected as callable,
  that no internal handler serves, and the agent is not a remote one.
\<close>

theorem kernel_dispatches_projected_only:
  assumes "kernelRun env maxIterations timeoutMs w = (flow, k)" "batch \<in> set (k_dispatched k)" "rq \<in> set batch"
  shows "\<exists>tools. ke_projected env = Some tools \<and> tu_toolName rq \<in> set tools \<and> ke_agentType env \<noteq> ''remote'' \<and>
    ke_internal env (tu_toolName rq) = None"
proof -
  have "dispatchedAllowed env (initializeState env w)" by (simp add: dispatchedAllowed_def initializeState_def)
  then have "dispatchedAllowed env k" by (rule guarded.good_kernelRun [OF _ assms(1)])
  then have "dispatchable env rq" using assms(2,3) by (auto simp: dispatchedAllowed_def list_all_iff)
  then show ?thesis by (cases "ke_projected env") (simp_all add: dispatchable_def isCallableProjectedTool_def)
qed

text \<open>The model calls tools once and then answers; \<open>read\<close> is served by the dispatcher, \<open>finish\<close> by a handler that ends the run.\<close>

definition demoToolCall :: "string \<Rightarrow> string \<Rightarrow> LLMToolCall" where
  "demoToolCall i tool = \<lparr>lc_id = i, lc_name = tool, lc_arguments = []\<rparr>"

definition demoLlmResponse :: "LLMToolCall list \<Rightarrow> nat \<Rightarrow> LLMResponse" where
  "demoLlmResponse calls w = (if w = 0 then \<lparr>lr_content = None, lr_toolCalls = Some calls, lr_finishReason = ''tool_calls'', lr_reasoningContent = None\<rparr>
     else \<lparr>lr_content = Some ''ok'', lr_toolCalls = None, lr_finishReason = ''stop'', lr_reasoningContent = None\<rparr>)"

definition demoKernel :: "LLMToolCall list \<Rightarrow> nat kernel_env" where
  "demoKernel calls = \<lparr>ke_bundle = \<lparr>cb_pinnedItems = [], cb_orderedItems = [], cb_summaryBlocks = None, cb_tokenEstimate = 0,
       cb_compactHints = None, cb_contextWindow = None\<rparr>, ke_compactThreshold = None, ke_toolLoopV2 = False,
     ke_aborted = \<lambda>w. False, ke_timedOut = \<lambda>w. False, ke_remaining = \<lambda>w. 1, ke_newItemId = \<lambda>w. ([], w), ke_buildRequest = \<lambda>b t w. (None, w),
     ke_streaming = False, ke_stream = \<lambda>w. (Inl [], w), ke_complete = \<lambda>w. (Inr (Inr (demoLlmResponse calls w)), w + 1),
     ke_parse = \<lambda>s. Inr (JObj []),
     ke_internal = (\<lambda>tool. if tool = ''finish'' then Some (\<lambda>rq w. (Inr (\<lparr>ur_toolCallId = tu_toolCallId rq, ur_result = None, ur_error = None,
       ur_terminate = False\<rparr>, True, None), w)) else None),
     ke_projected = Some [''read''], ke_agentType = ''main'',
     ke_dispatch = \<lambda>rqs w. (Inr \<lparr>dr_status = ''completed'', dr_error = None, dr_result = None\<rparr>, w),
     ke_applyDelta = \<lambda>d w. (None, w), ke_replaceItems = \<lambda>i ids w. (None, w), ke_compactExecutor = None, ke_validateContent = \<lambda>s. Inr None\<rparr>"

lemma demo_fields:
  "cb_compactHints (ke_bundle (demoKernel calls)) = None" "ke_toolLoopV2 (demoKernel calls) = False" "\<not> ke_aborted (demoKernel calls) w"
  "\<not> ke_timedOut (demoKernel calls) w" "ke_remaining (demoKernel calls) w = 1" "ke_buildRequest (demoKernel calls) b t w = (None, w)"
  "\<not> ke_streaming (demoKernel calls)" "ke_complete (demoKernel calls) w = (Inr (Inr (demoLlmResponse calls w)), w + 1)"
  "ke_parse (demoKernel calls) s = Inr (JObj [])" "ke_projected (demoKernel calls) = Some [''read'']" "ke_agentType (demoKernel calls) = ''main''"
  "ke_internal (demoKernel calls) tool = (if tool = ''finish'' then Some (\<lambda>rq w. (Inr (\<lparr>ur_toolCallId = tu_toolCallId rq, ur_result = None, ur_error = None,
     ur_terminate = False\<rparr>, True, None), w)) else None)"
  "ke_dispatch (demoKernel calls) rqs w = (Inr \<lparr>dr_status = ''completed'', dr_error = None, dr_result = None\<rparr>, w)"
  by (simp_all add: demoKernel_def)

lemmas demo_kernel_defs = demo_fields demoToolCall_def demoLlmResponse_def kernelRun_def initializeState_def newGuard_def kernelIteration_def askModel_def completeEnd_def
  callLLMWithTimeout_def hasToolCalls_def runTools_def parseToolUseRequests_def trackAssistantToolCalls_def isCallableProjectedTool_def
  dispatchExternalBatch_def extractContextDeltas_def toolResultOf_def execResultMap_def rawResults_def acceptToolResult_def
  finalAnswer_def endRun_def runInternal_def
  recordedResponse_def nullish_def truthy_def Let_def

lemma no_hints_no_compaction: "cb_compactHints (ke_bundle env) = None \<Longrightarrow> compactStage env k = k"
  by (simp add: compactStage_def checkCompactTrigger_def Let_def)

lemma demo_run: "k_dispatched (snd (kernelRun (demoKernel [demoToolCall ''c'' ''read'']) 1 1 0)) =
    [[\<lparr>tu_toolCallId = ''c'', tu_toolName = ''read'', tu_params = JObj []\<rparr>]]"
  by (simp add: demo_kernel_defs)

theorem kernel_dispatches_projected_only_witness:
  "k_dispatched (snd (kernelRun (demoKernel [demoToolCall ''c'' ''read'']) 1 1 0)) =
     [[\<lparr>tu_toolCallId = ''c'', tu_toolName = ''read'', tu_params = JObj []\<rparr>]] \<and>
   (\<exists>tools. ke_projected (demoKernel [demoToolCall ''c'' ''read'']) = Some tools \<and> ''read'' \<in> set tools) \<and>
   ke_agentType (demoKernel [demoToolCall ''c'' ''read'']) \<noteq> ''remote'' \<and> ke_internal (demoKernel [demoToolCall ''c'' ''read'']) ''read'' = None"
proof -
  let ?env = "demoKernel [demoToolCall ''c'' ''read'']" and ?rq = "\<lparr>tu_toolCallId = ''c'', tu_toolName = ''read'', tu_params = JObj []\<rparr>"
  obtain fl k where r: "kernelRun ?env 1 1 0 = (fl, k)" by (cases "kernelRun ?env 1 1 0")
  have d: "k_dispatched k = [[?rq]]" using demo_run r by simp
  have "\<exists>tools. ke_projected ?env = Some tools \<and> tu_toolName ?rq \<in> set tools \<and> ke_agentType ?env \<noteq> ''remote'' \<and>
      ke_internal ?env (tu_toolName ?rq) = None"
    by (rule kernel_dispatches_projected_only [OF r, of "[?rq]"]) (simp_all add: d)
  then have "\<exists>tools. ke_projected ?env = Some tools \<and> ''read'' \<in> set tools \<and> ke_agentType ?env \<noteq> ''remote'' \<and> ke_internal ?env ''read'' = None"
    by simp
  then show ?thesis using demo_run by blast
qed


text \<open>
  C7: at the start of every iteration, in the messages built for the next request, every call of every assistant
  message has a tool message with its id, whatever failed, was refused or was compacted away before.
\<close>

theorem requests_pair_calls:
  assumes "kernelReach env w i k" "AssistantMessage c (Some calls) reasoning \<in> set (buildTranscriptMessages env k)" "call \<in> set calls"
  shows "\<exists>content. ToolMessage content (lc_id call) \<in> set (buildTranscriptMessages env k)"
proof -
  note r = reach_invariant [OF assms(1)] and c = assistant_calls [OF assms(2,3)]
  have "tu_toolCallId ` set (k_toolCalls k) \<subseteq> ur_toolCallId ` set (resultsIn (k_transcript k))" using r unfolding answered_def by (elim conjE) simp
  moreover have "lc_id ` set (responseCalls (k_transcript k)) \<subseteq> tu_toolCallId ` set (k_toolCalls k)" using r by (simp add: responsesTracked_def)
  ultimately have "lc_id call \<in> ur_toolCallId ` set (resultsIn (k_transcript k))" using c by (meson subsetD)
  then show ?thesis using c by (intro result_message) auto
qed

theorem requests_pair_calls_witness:
  "\<exists>k content. kernelReach (demoKernel [demoToolCall ''c'' ''read'']) 0 1 k \<and> ToolMessage content ''c'' \<in> set (buildTranscriptMessages (demoKernel [demoToolCall ''c'' ''read'']) k)"
proof -
  let ?env = "demoKernel [demoToolCall ''c'' ''read'']"
  let ?s = "kernelIteration ?env 0 (initializeState ?env 0)"
  have f: "fst ?s = KContinue" by (simp add: demo_kernel_defs)
  have m: "AssistantMessage [] (Some [demoToolCall ''c'' ''read'']) None \<in> set (buildTranscriptMessages ?env (snd ?s))"
    by (simp add: demo_kernel_defs buildTranscriptMessages_def assistantMessages_def resultIds_def List.map_filter_def no_hints_no_compaction)
  have "?s = (KContinue, snd ?s)" using f by (cases ?s) simp
  then have r: "kernelReach ?env 0 1 (snd ?s)" using reach_step [OF reach_start] by fastforce
  show ?thesis using requests_pair_calls [OF r m, of "demoToolCall ''c'' ''read''"] r by (auto simp: demoToolCall_def)
qed

text \<open>
  C25: the items of the bundle that are pinned, marked incompressible or listed to be kept are in the context at the
  end of every run, whatever the executor of compactions answers.
\<close>

theorem protected_items_survive:
  "set (startProtected env) \<subseteq> set (k_contextItems (snd (kernelRun env maxIterations timeoutMs w)))"
proof -
  obtain fl k where r: "kernelRun env maxIterations timeoutMs w = (fl, k)" by (cases "kernelRun env maxIterations timeoutMs w")
  have "keepsProtected env (initializeState env w)" by (auto simp: keepsProtected_def startProtected_def initializeState_def)
  then have "keepsProtected env k" by (rule keeping.good_kernelRun [OF _ r])
  then show ?thesis by (simp add: r keepsProtected_def)
qed

text \<open>
  A handler that ends the run while later calls of the same response were not reached: they get results without an
  entry of their own, and the validation of the transcript calls these orphans.
\<close>

theorem stop_leaves_orphans:
  "pr_warnings (validateToolResultPairing (k_transcript (snd (kernelRun (demoKernel [demoToolCall ''a'' ''finish'', demoToolCall ''b'' ''read'']) 1 1 0)))) =
   [OrphanResultWarning ''b'']"
  by (simp add: demo_kernel_defs validateToolResultPairing_def guardResult_def callIds_def resultIds_def missingResult_def List.map_filter_def)

text \<open>
  Results are filed under the id their data names: a tool whose data happens to name another call of the batch is given
  the whole result of the dispatch.
\<close>

theorem named_call_takes_the_result:
  defines "r \<equiv> JArr [JObj [(''success'', JBool True), (''data'', JObj [(''toolCallId'', JStr ''b'')])], JObj [(''success'', JBool True), (''data'', JNull)]]"
  shows "ur_result (toolResultOf [\<lparr>tu_toolCallId = ''a'', tu_toolName = ''read'', tu_params = JNull\<rparr>, \<lparr>tu_toolCallId = ''b'', tu_toolName = ''read'', tu_params = JNull\<rparr>]
    \<lparr>dr_status = ''completed'', dr_error = None, dr_result = Some r\<rparr> \<lparr>tu_toolCallId = ''a'', tu_toolName = ''read'', tu_params = JNull\<rparr>) = Some r"
  by (simp add: r_def toolResultOf_def execResultMap_def rawResults_def isToolExecutionResult_def resultKey_def field_def textProp_def nullish_def)

text \<open>
  Where the context manager refuses the summary, the compaction is reported as skipped although the items are gone.
\<close>

theorem refused_compaction_still_applied:
  assumes "executor cs ms (k_contextItems k) (k_world k) = (Inr (CompactApplied ids summaryItem ratio), w)"
    "\<not> list_ex (\<lambda>i. i \<in> set ms \<or> list_ex (\<lambda>item. protectedItem item \<and> ci_itemId item = i) (k_contextItems k)) ids"
    "ke_replaceItems env summaryItem ids w = (Some e, w')"
  shows "fst (executeCompact env executor cs ms k) = CompactSkipped ''executor error'' \<and>
    k_contextItems (snd (executeCompact env executor cs ms k)) = filter (\<lambda>i. ci_itemId i \<notin> set ids) (k_contextItems k) @ [summaryItem]"
  using assms by (simp add: executeCompact_def applyCompaction_def Let_def)

end
