(* ===== verification/Spec2Isabelle.thy ===== *)
theory Spec2Isabelle
  imports Run_Stores Recovery Prelude Lifecycle Retry Circuit_Breaker Resource_Limits Stores Workdir_Paths Permissions Dispatcher
    Plan_Validation Plan_Generation Planner_Runtime Workflow_Compiler Access_Control Session_Turns Workflow_Stores Workflow_Runtime Workflow_Properties
    Workflow_Execution Workflow_Liveness File_Tools Tool_Plane Tool_Executor Dead_Letters
    Context_Compaction Agent_Kernel
begin

text \<open>
  A verification library for the my-agent runtime: an assistant that answers sessions, plans work, compiles plans to
  workflows, and acts on the world only through actions that a permission engine has cleared. All paths below are
  relative to \<open>src/src/\<close>.

  \<^bold>\<open>The program and how its parts interact.\<close> A message of a session enters one turn at a time (the session busy
  tracker). A goal becomes a plan: a model's answer is normalised, or a deterministic plan is built, and the plan is
  validated and stored by the planner runtime, which moves its runs along the lifecycle tables. A linear plan is
  compiled to a workflow draft, in which an approval step precedes every protected step; the workflow runtime
  validates and publishes drafts as immutable definitions, creates runs and step runs from them and executes one step
  after another. Every executable step is an action for the runtime dispatcher, which records it, asks the permission
  hook, runs the adapter of the target runtime under a timeout and records the outcome. The permission engine answers
  from the mode of the session, its grants, the connector policies and the working directory of the call, and opens
  approval requests, which the approval handler closes. A run of the agent kernel asks the model, hands the tool calls of its
  answer to the dispatcher and asks again with the results; each call passes the tool executor (envelope, schema,
  permission, approval) before its handler runs, and tools that write files check their paths against the managed
  working directory. Retry, timeouts, circuit breaker, resource limits and lifecycle tables serve all of them;
  the recovery modules cancel what is still running and sweep what was left behind.

  \<^bold>\<open>Theories and sources.\<close>
  \<^item> \<open>Prelude\<close>: the JavaScript operators and library functions the sources use (optional values, strings, insertion
    ordered maps), and their lemmas; everything else imports it.
  \<^item> \<open>Lifecycle\<close>: \<open>shared/states.ts\<close>, \<open>shared/transitions.ts\<close>; thirteen state tables, rule tables and validators.
    The end states that the tables, the lifecycle document and the code agree on are left by no accepted sequence of moves; runs
    follow the tables and are bounded where the table has no circle.
  \<^item> \<open>Retry\<close>: \<open>shared/errors.ts\<close>, \<open>shared/retry.ts\<close>, \<open>recovery/retry-executor.ts\<close>, \<open>recovery/timeout-policy.ts\<close>; the
    attempts, the backoff and the audit trail. Every attempt after the first is justified by the one before it.
  \<^item> \<open>Circuit_Breaker\<close>: \<open>llm/circuit-breaker.ts\<close>. \<open>Resource_Limits\<close>: \<open>runtime/resource-limits.ts\<close>; the caps of the
    limiter, the budget and the cache hold under every interleaving of calls.
  \<^item> \<open>Stores\<close>: \<open>storage/approval-store.ts\<close>, \<open>storage/permission-grant-store.ts\<close>, \<open>storage/connector-policy-store.ts\<close> as
    tables with the meaning of their SQL statements. \<open>Permissions\<close>: \<open>permissions/permission-engine.ts\<close>,
    \<open>permissions/approval-handler.ts\<close>; \<open>checkPermission\<close> with all its gates and effects refines an abstract decision
    table, deny policies win, approvals are answered once. \<open>Access_Control\<close>: \<open>permissions/rbac-engine.ts\<close>, the tool
    risk policy and the agent envelopes.
  \<^item> \<open>Dispatcher\<close>: \<open>dispatcher/runtime-dispatcher.ts\<close>, \<open>dispatcher/adapter-registry.ts\<close>,
    \<open>storage/runtime-action-store.ts\<close>; an adapter runs only for an action the hook has cleared, and the stored action
    tells how it ended.
  \<^item> \<open>Workdir_Paths\<close>: \<open>workdirs/workdir-paths.ts\<close> over the POSIX part of Node's path module, modelled on strings.
    \<open>File_Patches\<close>: \<open>tools/builtins/patch-parser.ts\<close>, the patch language of the file tools.
  \<^item> \<open>Plan_Validation\<close>, \<open>Plan_Generation\<close>, \<open>Planner_Runtime\<close>: \<open>planner/plan-validator.ts\<close> and the replan
    policy, the two generators and \<open>planner/llm-plan-adapter.ts\<close>, \<open>planner/planner-runtime.ts\<close> and \<open>storage/plan-store.ts\<close>; validation is exact, valid
    plans have an execution order, plan histories are contiguous.
  \<^item> \<open>Workflow_Compiler\<close>: \<open>workflows/plan-to-workflow-compiler.ts\<close> and the checks of a draft before it is published.
    \<open>Workflow_Stores\<close>: the stores of definitions, drafts, runs, step runs and wait conditions.
    \<open>Workflow_Runtime\<close>: \<open>workflows/workflow-runtime.ts\<close>, one definition per method, each a function of the state of
    the runtime and its stores. \<open>Workflow_Properties\<close> (invariants of the tables over every sequence of external
    events), \<open>Workflow_Execution\<close> (failures, cancellation, circles of conditions) and \<open>Workflow_Liveness\<close> (a chain of
    dispatched steps runs to its end in order) hold its properties; the composition with the compiler is below.
  \<^item> \<open>Session_Turns\<close>: \<open>processing/session-busy-tracker.ts\<close>; one turn per session, served in order.
  \<^item> \<open>File_Tools\<close>: \<open>tools/builtins/safe-file-write.ts\<close>, \<open>safe-paths.ts\<close>, \<open>file-write.ts\<close>, \<open>file-edit.ts\<close> and
    \<open>file-apply-patch.ts\<close> over a disk that may fail at every call: nothing is written outside the workspace, a write is
    complete or absent, an edit changes the occurrence it found, a patch reports what it did.
  \<^item> \<open>Tool_Plane\<close>: \<open>tools/tool-registry.ts\<close>, \<open>tools/tool-name.ts\<close>, \<open>storage/tool-execution-store.ts\<close> and the pure parts of
    \<open>tools/tool-executor.ts\<close> (schema check, permission resource): the check accepts exactly the conforming parameters, and the
    paths a patch is checked for are those it acts on. \<open>Tool_Executor\<close>: its \<open>execute\<close>, stage by stage over the store,
    composed with the permission engine of \<open>Permissions\<close> and the tools of \<open>File_Tools\<close>: a handler runs only for a call that
    passed envelope, schema and permission, and the stored execution tells how it ended.
  \<^item> \<open>Context_Compaction\<close>: \<open>kernel/compaction/\<close>, \<open>kernel/model-input/compact-summary-rendering.ts\<close>; only unprotected items
    are compacted, and the model's answer is accepted exactly when it has the form of a summary.
  \<^item> \<open>Agent_Kernel\<close>: \<open>kernel/agent-kernel.ts\<close>, \<open>kernel/tool-result-pairing-guard.ts\<close>; \<open>kernelRun\<close> is \<open>run\<close>, \<open>kernelIteration\<close> the body
    of its loop. The locale \<open>kernel_frame\<close> states what a predicate must respect to be kept by the parts of an iteration around the
    model, \<open>kernel_ask\<close> by asking the model as well, and \<open>kernel_loop\<close> by a whole run; their interpretations give that every tool
    call of the model is answered, that only projected tools are dispatched, that an iteration asks the model for one stream
    and one completion at most, that requests are paired, and that protected context survives. The fields \<open>k_dispatched\<close> and
    \<open>k_asked\<close> log what the run handed out; nothing reads them.
  \<^item> \<open>Dead_Letters\<close>: \<open>dead-letter/\<close>; the queue over its table under every interleaving of retries, discards and enqueues.
  \<^item> \<open>Run_Stores\<close>: \<open>storage/kernel-run-store.ts\<close>, \<open>storage/background-run-store.ts\<close>; in every sequence of operations a
    notification is claimed once more than it is given back, at most.
  \<^item> \<open>Recovery\<close>: \<open>recovery/cancellation-coordinator.ts\<close>, \<open>kernel/run-abort-registry.ts\<close>, \<open>recovery/orphan-scanner.ts\<close>,
    \<open>recovery/stale-run-recovery.ts\<close>, \<open>recovery/recovery-manager.ts\<close>. A cancellation is a computation over the rows of the stores
    it cascades through, each of which may throw at every update. The locale \<open>status_write\<close> states what a write to one store does
    to the statuses and is interpreted for all nine; \<open>sparing\<close> is the Hoare triple of a cancellation, kept by sequencing and by
    \<open>try\<close>, that no finished row is touched. The sweep of stale runs marks exactly the stale rows.

  \<^bold>\<open>State and operations.\<close> A class or closure is a \<open>record\<close> of its fields, a method a function that takes the state and
  returns it updated, with the result where it has one; an exception or error result is the left side of a sum. A
  \<open>Map\<close> is an association list in insertion order, a SQL table a list of rows in insertion order. Asynchronous work
  is a sequence of explicit events: an answer of a dispatch, a timer, a retry is a call of its own, and the properties
  of the runtimes hold for every order of them. Contracts between components are locales (the laws a store, a
  counter, an event handler or a check promises), interpreted on the definitions of the model.

  \<^bold>\<open>Parameters.\<close> The clock and random ids are arguments; so are the file system and disk, the permission judge, the
  adapters, tool handlers, the model behind plan generation, the kernel and compaction, the context and summary managers, regular expressions given by users and SHA-256. Nothing
  is assumed of them where a theorem does not say so.

  \<^bold>\<open>Termination and bounds.\<close> Loops over data are proved terminating by measures (the parser by the lines left, the
  search for an existing ancestor by the length of the path, retries by the attempts left). \<open>followLoop\<close>, the walk of
  the draft validator along successors, carries the source's own bound of twice the number of steps; it reports a
  circle at the first step it meets again, so the bound is never reached. The recursion of the workflow runtime through immediately finished
  steps is bounded by the stack depth \<open>env_stack\<close> of the environment, and reaching it is the stack overflow the
  program would throw; the liveness theorems show which depth a workflow needs. Strings are Latin-1 code units,
  integral numbers are unbounded (exact in JavaScript below \<open>2 ^ 53\<close>), the string hash is computed on 32-bit words.

  \<^bold>\<open>Not modelled.\<close> The HTTP API, the web client, the command line, observability and projections present data and hold
  no decisions of their own; the language-model, connector and search clients and the channel gateways are network
  I/O; the SQL connection layer and the schema migrations are text for a database engine. The foreground agent interleaves
  model calls with the parts modelled here. Memory, context and prompt assembly build
  text, as do the views and provider formats of the kernel's requests. The remaining runtimes (subagents, background work) repeat the store and lifecycle patterns
  over the same tables. Error messages and previews are modelled only where a later decision reads them.

  \<^bold>\<open>Where the models are coarser than the code.\<close> Appending an event, an audit record or a span never throws in the dispatcher and
  the tool executor. The context of a tool handler lacks its \<open>stores\<close> field: a handler is an arbitrary function of the world, which may
  hold them. The kernel's live broadcasts, token counts and the building of its dispatch request are left out, so they do not
  throw either. In the cancellation coordinator a write fails or not by store and id for the length of one cancellation, with the
  status and the result of a tool execution apart. The clock does not move during one sweep of stale runs. A claim of a
  notification is one atomic statement, and its \<open>catch\<close>, which answers false, is left out. The path checks of the file tools read the
  disk when they run; \<open>sanctioned\<close> says that there was such a state, not that the disk did not change before the write.
\<close>

section \<open>Plans to completed runs\<close>

lemma issues_are_errors:
  assumes "ws_name t \<noteq> []" "\<not> list_ex vi_error (validateStep t)"
  shows "validateStep t = []"
proof -
  have err: "vi_error (issue t c m)" for c m by (simp add: issue_def)
  have all: "list_all vi_error (validateStepConfig t)" unfolding validateStepConfig_def Let_def by (simp add: err)
  have none: "\<not> list_ex vi_error (validateStepConfig t)"
  proof
    assume "list_ex vi_error (validateStepConfig t)"
    then have "list_ex vi_error (validateStep t)" unfolding validateStep_def list_ex_append by (intro disjI2)
    then show False using assms(2) by contradiction
  qed
  have "validateStepConfig t = []" using all none by (cases "validateStepConfig t") simp_all
  moreover have "ws_stepId t \<noteq> []" 
  proof (rule ccontr)
    assume "\<not> ws_stepId t \<noteq> []"
    then have noId: "ws_stepId t = []" by simp
    have "list_ex vi_error (validateStep t)" unfolding validateStep_def list_ex_append by (rule disjI1) (simp add: noId)
    then show False using assms(2) by contradiction
  qed
  moreover have "ws_stepType t \<in> set validStepTypes"
  proof (rule ccontr)
    assume unknown: "ws_stepType t \<notin> set validStepTypes"
    have "list_ex vi_error (validateStep t)"
      unfolding validateStep_def list_ex_append by (rule disjI2, rule disjI1) (simp add: unknown)
    then show False using assms(2) by contradiction
  qed
  ultimately show ?thesis using assms(1) unfolding validateStep_def by (simp only: if_True if_False refl append_Nil)
qed

lemma linear_plan_draft:
  assumes "compilePlanToWorkflowDraft plan = Inr payload" "list_all plainStep (pi_steps plan)"
    and "\<forall>s \<in> set (pi_steps plan). cs_title s \<noteq> [] \<and> cs_stepType s \<notin> {''condition'', ''branch'', ''parallel_group''}"
  shows "draftIssues (cw_steps payload) = []" and "df_steps d = cw_steps payload \<Longrightarrow> linear d"
proof -
  note shape = linear_plan_shape [OF assms(1,2)]
  have each: "ws_name t \<noteq> [] \<and> dispatched t" if "t \<in> set (cw_steps payload)" for t
  proof -
    have "\<exists>s \<in> set (pi_steps plan). core t = core (workflowStep s) \<or> core t = core (approvalStep s)"
      using bspec [OF shape(6) that] by (elim conjE)
    then obtain s where s: "s \<in> set (pi_steps plan)" "core t = core (workflowStep s) \<or> core t = core (approvalStep s)" by (rule bexE)
    then have "isCompilerStepType (cs_stepType s)" using compile_Inr(3) [OF assms(1) s(1)] by simp
    then have "cs_stepType s \<noteq> ''polling_wait''" by (auto simp: isCompilerStepType_def compilerStepTypes_def)
    moreover have "ws_name t = ws_name (workflowStep s) \<and> ws_stepType t = ws_stepType (workflowStep s) \<or>
        ws_name t = ws_name (approvalStep s) \<and> ws_stepType t = ws_stepType (approvalStep s)" using s(2) core_simps(3,4) by metis
    moreover have "cs_title s \<noteq> [] \<and> cs_stepType s \<notin> {''condition'', ''branch'', ''parallel_group''}" using assms(3) s(1) by blast
    moreover have "ws_name (workflowStep s) = cs_title s" "ws_stepType (workflowStep s) = cs_stepType s"
      "ws_name (approvalStep s) \<noteq> []" "ws_stepType (approvalStep s) = ''approval''" by (simp_all add: workflowStep_def approvalStep_def)
    ultimately show ?thesis unfolding dispatched_def by (elim disjE) simp_all
  qed
  then have "validateSteps (cw_steps payload) = []" using shape(2,6) issues_are_errors by (auto simp: validateSteps_def)
  then show "draftIssues (cw_steps payload) = []" using shape(4,5) by (simp add: draftIssues_def)
  show "linear d" if "df_steps d = cw_steps payload" using shape each that by (auto simp: linear_def)
qed

text \<open>C2: From a plan to its completed run: a compiled plan whose steps name no successor, have titles and are all
  dispatched is accepted as a draft, published and started, and once every dispatch has been answered with
  success the run is completed; its step runs are exactly the steps of the plan in their order, each protected
  one preceded by its approval step, and all of them are completed.\<close>

theorem plan_runs_to_completion:
  assumes "compilePlanToWorkflowDraft plan = Inr payload" "list_all plainStep (pi_steps plan)"
    and "\<forall>s \<in> set (pi_steps plan). cs_title s \<noteq> [] \<and> cs_stepType s \<notin> {''condition'', ''branch'', ''parallel_group''}"
    and "env_dispatcher env" "0 < env_stack env" "length outs = length (cw_steps payload)"
  shows "let started = fold (wf_step env) [CreateDraft (cw_name payload) (cw_description payload) (cw_steps payload) (cw_ownerUserId payload),
        PublishDraft ''wf_draft_0'', StartRun \<lparr>ri_definitionId = ''wf_def_1'', ri_inputData = inp, ri_userId = user, ri_sessionId = sess,
          ri_triggerEventId = trig\<rparr>] initialState;
      s = answerAll env ''wf_run_2'' outs started in
    map_option wr_status (runOf s ''wf_run_2'') = Some ''completed'' \<and> pendingOf s ''wf_run_2'' = [] \<and>
    map sr_stepId (stepRunsOf s ''wf_run_2'') = concat (map expandIds (pi_steps plan)) \<and>
    (\<forall>r \<in> set (stepRunsOf s ''wf_run_2''). sr_status r = ''completed'')"
proof -
  let ?input = "\<lparr>ri_definitionId = ''wf_def_1'', ri_inputData = inp, ri_userId = user, ri_sessionId = sess, ri_triggerEventId = trig\<rparr>"
  define s where "s = fold (wf_step env) [CreateDraft (cw_name payload) (cw_description payload) (cw_steps payload) (cw_ownerUserId payload),
    PublishDraft ''wf_draft_0''] initialState"
  note p = published_state [OF linear_plan_draft(1) [OF assms(1-3)] s_def]
  obtain d where d: "defOf s ''wf_def_1'' = Some d" "df_status d = Published" "df_steps d = cw_steps payload" using p(1) by blast
  have lin: "linear d" by (rule linear_plan_draft(2) [OF assms(1-3) d(3)])
  have "underWay (wf_step env (StartRun ?input) s) ''wf_run_2'' d 0"
    using start_under_way [of s ?input d env] p d lin assms(4,5) by (simp add: nat_str_digits del: wf_step.simps)
  from underWay_completes [OF lin assms(4,5) this, of outs] d(3) assms(6)
  have "let s' = answerAll env ''wf_run_2'' outs (wf_step env (StartRun ?input) s) in map_option wr_status (runOf s' ''wf_run_2'') = Some ''completed'' \<and>
      map sr_stepId (stepRunsOf s' ''wf_run_2'') = map ws_stepId (cw_steps payload) \<and>
      map sr_status (stepRunsOf s' ''wf_run_2'') = replicate (length outs) ''completed'' \<and> pendingOf s' ''wf_run_2'' = []"
    by (simp add: Let_def del: wf_step.simps)
  moreover have "map ws_stepId (cw_steps payload) = concat (map expandIds (pi_steps plan))"
    using compile_Inr [OF assms(1)] transform_ids by simp
  moreover have "\<forall>r \<in> set rs. sr_status r = ''completed''" if "map sr_status rs = replicate n ''completed''" for rs n
  proof -
    have "set (map sr_status rs) \<subseteq> {''completed''}" unfolding that by auto
    then show ?thesis by auto
  qed
  ultimately show ?thesis unfolding s_def Let_def by (simp del: wf_step.simps) blast
qed

theorem plan_runs_to_completion_witness:
  "\<exists>payload. compilePlanToWorkflowDraft (demoInput [demoPlanStep ''a'' None False, demoPlanStep ''b'' None True]) = Inr payload \<and>
     (let s = answerAll demoEnv ''wf_run_2'' [None, None, None] (fold (wf_step demoEnv) [CreateDraft (cw_name payload) (cw_description payload)
        (cw_steps payload) (cw_ownerUserId payload), PublishDraft ''wf_draft_0'', StartRun demoRunInput] initialState) in
      map sr_stepId (stepRunsOf s ''wf_run_2'') = [''a'', ''approval-before-b'', ''b''] \<and>
      map_option wr_status (runOf s ''wf_run_2'') = Some ''completed'')"
proof -
  let ?steps = "[demoPlanStep ''a'' None False, demoPlanStep ''b'' None True]"
  obtain payload where run: "compilePlanToWorkflowDraft (demoInput ?steps) = Inr payload"
    by (cases "compilePlanToWorkflowDraft (demoInput ?steps)") (code_simp, simp)
  have plain: "list_all plainStep (pi_steps (demoInput ?steps))" by code_simp
  have ids: "concat (map expandIds (pi_steps (demoInput ?steps))) = [''a'', ''approval-before-b'', ''b'']" by code_simp
  then have "map ws_stepId (cw_steps payload) = [''a'', ''approval-before-b'', ''b'']" using compile_Inr [OF run] transform_ids by simp
  then have "length (map ws_stepId (cw_steps payload)) = 3" by simp
  then have len: "length [None, None, None :: json option] = length (cw_steps payload)" by simp
  have steps: "\<forall>s \<in> set (pi_steps (demoInput ?steps)). cs_title s \<noteq> [] \<and> cs_stepType s \<notin> {''condition'', ''branch'', ''parallel_group''}"
    by (simp add: demoInput_def demoPlanStep_def)
  have env: "env_dispatcher demoEnv" "0 < env_stack demoEnv" by (simp_all add: demoEnv_def)
  have c: "let s = answerAll demoEnv ''wf_run_2'' [None, None, None] (fold (wf_step demoEnv) [CreateDraft (cw_name payload) (cw_description payload)
        (cw_steps payload) (cw_ownerUserId payload), PublishDraft ''wf_draft_0'', StartRun demoRunInput] initialState) in
      map_option wr_status (runOf s ''wf_run_2'') = Some ''completed'' \<and> pendingOf s ''wf_run_2'' = [] \<and>
      map sr_stepId (stepRunsOf s ''wf_run_2'') = concat (map expandIds (pi_steps (demoInput ?steps))) \<and>
      (\<forall>r \<in> set (stepRunsOf s ''wf_run_2''). sr_status r = ''completed'')"
    
    using plan_runs_to_completion [OF run plain steps env len, of None "''u''" None None] unfolding Let_def demoRunInput_def .
  show ?thesis
    by (intro exI [of _ payload] conjI run) (use c in \<open>unfold Let_def ids, elim conjE, intro conjI\<close>)
qed

end
